(* ===== verification/Prelude.thy ===== *)
theory Prelude
  imports Complex_Main "HOL-Library.Sublist" "HOL-Library.Char_ord" "HOL-Library.List_Lexorder"
begin

text \<open>
  What every component shares: the names of the model's base types (identifiers, instants,
  durations), Go's 64-bit wrap-around, the parts of Go's string library the source calls, the
  bytewise reading of SQL's \<^verbatim>\<open>NULLIF(x, '')\<close> and \<^verbatim>\<open>COALESCE(x, '')\<close>, and the generic facts on
  tables (lists of rows) that the repository proofs use.
\<close>

named_theorems store_simps \<open>unfolding rules of the repository operations\<close>
named_theorems http_simps \<open>unfolding rules of the HTTP answers\<close>

section \<open>Base types\<close>

text \<open>
  A \<^verbatim>\<open>uuid.UUID\<close> is an opaque identifier with the total order Postgres gives it; a natural
  number has both. Instants are nanoseconds since the Unix epoch and durations are nanoseconds,
  as in Go's \<^verbatim>\<open>time\<close>.
\<close>

type_synonym uuid = nat
type_synonym instant = int
type_synonym duration = int

definition uuid_nil :: uuid where
  "uuid_nil = 0"

definition nanosecond :: duration where "nanosecond = 1"
definition millisecond :: duration where "millisecond = 1000000"
definition second :: duration where "second = 1000000000"
definition minute :: duration where "minute = 60 * second"
definition hour :: duration where "hour = 60 * minute"

text \<open>The zero \<^verbatim>\<open>time.Time\<close>: January 1 of year 1, UTC.\<close>

definition zero_time :: instant where
  "zero_time = - 62135596800 * second"

lemmas duration_defs = nanosecond_def millisecond_def second_def minute_def hour_def

text \<open>Two's-complement wrap-around of Go's \<^verbatim>\<open>int64\<close> (and of \<^verbatim>\<open>int\<close> on a 64-bit target).\<close>

definition wrap64 :: "int \<Rightarrow> int" where
  "wrap64 x = (x + 2 ^ 63) mod 2 ^ 64 - 2 ^ 63"

definition int64 :: "int \<Rightarrow> bool" where
  "int64 x \<longleftrightarrow> - (2 ^ 63) \<le> x \<and> x < 2 ^ 63"

lemma wrap64_id: "int64 x \<Longrightarrow> wrap64 x = x"
  by (simp add: wrap64_def int64_def)

lemma wrap64_range: "int64 (wrap64 x)"
  unfolding wrap64_def int64_def
  using pos_mod_bound [of "2 ^ 64" "x + 2 ^ 63"] pos_mod_sign [of "2 ^ 64" "x + 2 ^ 63"]
  by simp

section \<open>Strings\<close>

text \<open>
  Go strings are byte sequences and so are HOL strings. \<^verbatim>\<open>strings.TrimSpace\<close> drops the leading
  and trailing runes of the Unicode White Space property; \<open>go_spaces\<close> lists their UTF-8
  encodings.
\<close>

definition go_spaces :: "string list" where
  "go_spaces =
     [[CHR 0x09], [CHR 0x0A], [CHR 0x0B], [CHR 0x0C], [CHR 0x0D], [CHR 0x20],
      [CHR 0xC2, CHR 0x85], [CHR 0xC2, CHR 0xA0], [CHR 0xE1, CHR 0x9A, CHR 0x80],
      [CHR 0xE2, CHR 0x80, CHR 0x80], [CHR 0xE2, CHR 0x80, CHR 0x81],
      [CHR 0xE2, CHR 0x80, CHR 0x82], [CHR 0xE2, CHR 0x80, CHR 0x83],
      [CHR 0xE2, CHR 0x80, CHR 0x84], [CHR 0xE2, CHR 0x80, CHR 0x85],
      [CHR 0xE2, CHR 0x80, CHR 0x86], [CHR 0xE2, CHR 0x80, CHR 0x87],
      [CHR 0xE2, CHR 0x80, CHR 0x88], [CHR 0xE2, CHR 0x80, CHR 0x89],
      [CHR 0xE2, CHR 0x80, CHR 0x8A], [CHR 0xE2, CHR 0x80, CHR 0xA8],
      [CHR 0xE2, CHR 0x80, CHR 0xA9], [CHR 0xE2, CHR 0x80, CHR 0xAF],
      [CHR 0xE2, CHR 0x81, CHR 0x9F], [CHR 0xE3, CHR 0x80, CHR 0x80]]"

fun strip_prefix :: "string \<Rightarrow> string \<Rightarrow> string option" where
  "strip_prefix [] s = Some s"
| "strip_prefix (p # ps) [] = None"
| "strip_prefix (p # ps) (c # cs) = (if p = c then strip_prefix ps cs else None)"

lemma strip_prefix_Some [simp]: "strip_prefix p s = Some r \<longleftrightarrow> s = p @ r"
  by (induction p s rule: strip_prefix.induct) auto

lemma strip_prefix_append [simp]: "strip_prefix p (p @ r) = Some r"
  by simp

fun strip_any :: "string list \<Rightarrow> string \<Rightarrow> string option" where
  "strip_any [] s = None"
| "strip_any (p # ps) s = (case strip_prefix p s of Some r \<Rightarrow> Some r | None \<Rightarrow> strip_any ps s)"

lemma strip_any_shorter: "strip_any ps s = Some r \<Longrightarrow> [] \<notin> set ps \<Longrightarrow> length r < length s"
  by (induction ps) (auto split: option.splits)

text \<open>The fuel is the length of the string: every round drops at least one byte.\<close>

fun trim_front :: "nat \<Rightarrow> string list \<Rightarrow> string \<Rightarrow> string" where
  "trim_front 0 ps s = s"
| "trim_front (Suc n) ps s = (case strip_any ps s of None \<Rightarrow> s | Some r \<Rightarrow> trim_front n ps r)"

lemma trim_front_done:
  "length s \<le> n \<Longrightarrow> [] \<notin> set ps \<Longrightarrow> strip_any ps (trim_front n ps s) = None"
proof (induction n arbitrary: s)
  case 0
  then have "s = []" by simp
  moreover have "strip_any ps [] = None" using 0(2)
  proof (induction ps)
    case (Cons p ps)
    then show ?case by (cases p) auto
  qed simp
  ultimately show ?case by simp
next
  case (Suc n)
  show ?case
  proof (cases "strip_any ps s")
    case None
    then show ?thesis by simp
  next
    case (Some r)
    then have "length r < length s" using Suc.prems(2) by (rule strip_any_shorter)
    with Suc Some show ?thesis by simp
  qed
qed

definition trim_left :: "string \<Rightarrow> string" where
  "trim_left s = trim_front (length s) go_spaces s"

definition trim_right :: "string \<Rightarrow> string" where
  "trim_right s = rev (trim_front (length s) (map rev go_spaces) (rev s))"

definition trim_space :: "string \<Rightarrow> string" where
  "trim_space s = trim_right (trim_left s)"

lemma trim_space_Nil [simp]: "trim_space [] = []"
  by (simp add: trim_space_def trim_right_def trim_left_def)

text \<open>\<^verbatim>\<open>strings.ToLower\<close> on ASCII; the bytes of other runes are kept.\<close>

definition lower_char :: "char \<Rightarrow> char" where
  "lower_char c =
     (let n = (of_char c :: nat) in if 65 \<le> n \<and> n \<le> 90 then char_of (n + 32) else c)"

definition to_lower :: "string \<Rightarrow> string" where
  "to_lower s = map lower_char s"

definition is_digit :: "char \<Rightarrow> bool" where
  "is_digit c \<longleftrightarrow> CHR ''0'' \<le> c \<and> c \<le> CHR ''9''"

definition trim_suffix :: "string \<Rightarrow> string \<Rightarrow> string" where
  "trim_suffix s suf =
     (case strip_prefix (rev suf) (rev s) of Some r \<Rightarrow> rev r | None \<Rightarrow> s)"

text \<open>\<^verbatim>\<open>strings.Cut(s, sep)\<close> for a one-byte separator.\<close>

fun cut_at :: "char \<Rightarrow> string \<Rightarrow> (string \<times> string) option" where
  "cut_at c [] = None"
| "cut_at c (x # xs) = (if x = c then Some ([], xs) else map_option (map_prod ((#) x) id) (cut_at c xs))"

lemma cut_at_Some: "cut_at c s = Some (a, b) \<Longrightarrow> s = a @ c # b \<and> c \<notin> set a"
  by (induction s arbitrary: a) (auto split: if_splits)

lemma cut_at_None: "cut_at c s = None \<longleftrightarrow> c \<notin> set s"
  by (induction s) auto

section \<open>SQL's NULLIF and COALESCE on text\<close>

definition nullif_empty :: "string \<Rightarrow> string option" where
  "nullif_empty s = (if s = [] then None else Some s)"

definition coalesce_empty :: "string option \<Rightarrow> string" where
  "coalesce_empty x = (case x of None \<Rightarrow> [] | Some s \<Rightarrow> s)"

definition coalesce :: "'a option \<Rightarrow> 'a option \<Rightarrow> 'a option" where
  "coalesce x y = (case x of None \<Rightarrow> y | Some _ \<Rightarrow> x)"

lemma coalesce_nullif [simp]: "coalesce_empty (nullif_empty s) = s"
  by (simp add: coalesce_empty_def nullif_empty_def)

lemma coalesce_simps [simp]: "coalesce None y = y" "coalesce (Some a) y = Some a"
  by (simp_all add: coalesce_def)

section \<open>Tables\<close>

text \<open>
  A table is the list of its rows in physical order. \<open>row_by\<close> finds the row of a primary key,
  \<open>update_where\<close> is SQL's UPDATE and \<open>filter\<close> its DELETE and SELECT.
\<close>

definition row_by :: "('r \<Rightarrow> 'k) \<Rightarrow> 'k \<Rightarrow> 'r list \<Rightarrow> 'r option" where
  "row_by key k rows = find (\<lambda>r. key r = k) rows"

definition update_where :: "('r \<Rightarrow> bool) \<Rightarrow> ('r \<Rightarrow> 'r) \<Rightarrow> 'r list \<Rightarrow> 'r list" where
  "update_where P f rows = map (\<lambda>r. if P r then f r else r) rows"

definition keyed :: "('r \<Rightarrow> 'k) \<Rightarrow> 'r list \<Rightarrow> bool" where
  "keyed key rows \<longleftrightarrow> distinct (map key rows)"

lemma find_SomeD: "find P xs = Some x \<Longrightarrow> x \<in> set xs \<and> P x"
  by (auto simp: find_Some_iff)

lemma row_by_Some: "row_by key k rows = Some r \<Longrightarrow> r \<in> set rows \<and> key r = k"
  unfolding row_by_def by (auto simp: find_Some_iff)

lemma row_by_None: "row_by key k rows = None \<longleftrightarrow> k \<notin> key ` set rows"
  unfolding row_by_def by (auto simp: find_None_iff)

lemma row_by_keyed: "keyed key rows \<Longrightarrow> r \<in> set rows \<Longrightarrow> row_by key (key r) rows = Some r"
  unfolding row_by_def keyed_def by (induction rows) auto

lemma row_by_iff: "keyed key rows \<Longrightarrow> row_by key k rows = Some r \<longleftrightarrow> r \<in> set rows \<and> key r = k"
  using row_by_Some row_by_keyed by metis

lemma keyed_inj: "keyed key rows \<Longrightarrow> x \<in> set rows \<Longrightarrow> y \<in> set rows \<Longrightarrow> key x = key y \<Longrightarrow> x = y"
  unfolding keyed_def by (auto simp: distinct_map dest: inj_onD)

lemma row_by_Nil [simp]: "row_by key k [] = None"
  by (simp add: row_by_def)

lemma row_by_Cons [simp]:
  "row_by key k (r # rows) = (if key r = k then Some r else row_by key k rows)"
  by (simp add: row_by_def)

lemma row_by_update:
  assumes "\<And>r. key (f r) = key r"
  shows "row_by key k (update_where P f rows) =
         map_option (\<lambda>r. if P r then f r else r) (row_by key k rows)"
  using assms by (induction rows) (auto simp: update_where_def)

lemma map_update_where:
  assumes "\<And>r. g (f r) = g r"
  shows "map g (update_where P f rows) = map g rows"
  using assms by (simp add: update_where_def)

lemma image_update_where:
  assumes "\<And>r. g (f r) = g r"
  shows "g ` set (update_where P f rows) = g ` set rows"
  using map_update_where [of g f P rows] assms by (metis list.set_map)

lemma keyed_update [simp]:
  assumes "\<And>r. key (f r) = key r"
  shows "keyed key (update_where P f rows) = keyed key rows"
proof -
  have "map key (update_where P f rows) = map key rows"
    using assms by (simp add: update_where_def)
  then show ?thesis by (simp add: keyed_def)
qed

lemma keyed_filter: "keyed key rows \<Longrightarrow> keyed key (filter P rows)"
  unfolding keyed_def by (rule distinct_map_filter)

lemma keyed_snoc: "keyed key (rows @ [r]) \<longleftrightarrow> keyed key rows \<and> key r \<notin> key ` set rows"
  by (auto simp: keyed_def)

lemma row_by_filter:
  "keyed key rows \<Longrightarrow> row_by key k (filter P rows) =
     (case row_by key k rows of None \<Rightarrow> None | Some r \<Rightarrow> if P r then Some r else None)"
proof (induction rows)
  case Nil
  show ?case by simp
next
  case (Cons a rows)
  then have k: "keyed key rows" and a: "key a \<notin> key ` set rows" by (simp_all add: keyed_def)
  have "row_by key (key a) (filter P rows) = None" "row_by key (key a) rows = None"
    using a by (auto simp: row_by_None)
  with Cons.IH [OF k] show ?case by auto
qed

lemma row_by_append:
  "row_by key k (xs @ ys) = (case row_by key k xs of None \<Rightarrow> row_by key k ys | Some r \<Rightarrow> Some r)"
  by (induction xs) auto

lemma set_update_where:
  "set (update_where P f rows) = (\<lambda>r. if P r then f r else r) ` set rows"
  by (simp add: update_where_def)

lemma length_update_where [simp]: "length (update_where P f rows) = length rows"
  by (simp add: update_where_def)

lemma update_where_none: "\<forall>r \<in> set rows. \<not> P r \<Longrightarrow> update_where P f rows = rows"
  by (simp add: update_where_def map_idI)

lemma absent_key: "k \<notin> key ` set rows \<Longrightarrow> \<forall>r \<in> set rows. key r \<noteq> k"
  by auto

lemma update_where_absent: "k \<notin> key ` set rows \<Longrightarrow> update_where (\<lambda>r. key r = k) f rows = rows"
  by (rule update_where_none) (rule absent_key)

lemma filter_absent: "k \<notin> key ` set rows \<Longrightarrow> filter (\<lambda>r. key r \<noteq> k) rows = rows"
  using absent_key by (simp add: filter_id_conv)

end
