(* ===== verification/InstanceLock.thy ===== *)
theory InstanceLock
  imports Prelude
begin

text \<open>
  The per-instance mutual exclusion, \<^verbatim>\<open>internal/instancelock/locker.go\<close>. An entry is an object: the
  map has its address, a caller keeps the address it retained, and its one-slot channel is \<open>le_taken\<close>.
  A caller moves through the places \<open>Waiting\<close>, \<open>Holding\<close> and \<open>Releasing\<close> (between giving the slot back
  and dropping the reference); \<^verbatim>\<open>retain\<close> and \<^verbatim>\<open>release\<close> run under the locker's mutex and are steps,
  and so are the sends and receives on the channel.
\<close>

section \<open>State and steps\<close>

record lock_entry =
  le_taken :: bool
  le_refs :: nat

datatype place = Idle | Waiting uuid nat | Holding uuid nat | Releasing uuid nat

record locker =
  lk_locks :: "uuid \<Rightarrow> nat option"
  lk_heap :: "nat \<Rightarrow> lock_entry"
  lk_fresh :: nat
  lk_callers :: "nat \<Rightarrow> place"

definition new_locker :: locker where
  "new_locker = \<lparr>lk_locks = (\<lambda>_. None), lk_heap = (\<lambda>_. \<lparr>le_taken = False, le_refs = 0\<rparr>), lk_fresh = 0,
     lk_callers = (\<lambda>_. Idle)\<rparr>"

definition lock_retain :: "uuid \<Rightarrow> locker \<Rightarrow> nat \<times> locker" where
  "lock_retain i l =
     (let (a, l) = (case lk_locks l i of
          Some a \<Rightarrow> (a, l)
        | None \<Rightarrow> (lk_fresh l, l\<lparr>lk_locks := (lk_locks l)(i := Some (lk_fresh l)),
            lk_heap := (lk_heap l)(lk_fresh l := \<lparr>le_taken = False, le_refs = 0\<rparr>),
            lk_fresh := lk_fresh l + 1\<rparr>))
      in (a, l\<lparr>lk_heap := (lk_heap l)(a := (lk_heap l a)\<lparr>le_refs := le_refs (lk_heap l a) + 1\<rparr>)\<rparr>))"

definition lock_release :: "uuid \<Rightarrow> locker \<Rightarrow> locker" where
  "lock_release i l =
     (case lk_locks l i of
        None \<Rightarrow> l
      | Some a \<Rightarrow>
          (let refs = le_refs (lk_heap l a) - 1;
               l = l\<lparr>lk_heap := (lk_heap l)(a := (lk_heap l a)\<lparr>le_refs := refs\<rparr>)\<rparr>
           in if refs = 0 then l\<lparr>lk_locks := (lk_locks l)(i := None)\<rparr> else l))"

definition lock_move :: "nat \<Rightarrow> place \<Rightarrow> locker \<Rightarrow> locker" where
  "lock_move p pl l = l\<lparr>lk_callers := (lk_callers l)(p := pl)\<rparr>"

definition lock_slot :: "nat \<Rightarrow> bool \<Rightarrow> locker \<Rightarrow> locker" where
  "lock_slot a b l = l\<lparr>lk_heap := (lk_heap l)(a := (lk_heap l a)\<lparr>le_taken := b\<rparr>)\<rparr>"

text \<open>\<open>Again\<close> is a second call of the release function, which does nothing.\<close>

inductive lock_step :: "locker \<Rightarrow> locker \<Rightarrow> bool" where
  Retain: "lk_callers l p = Idle \<Longrightarrow> lock_retain i l = (a, l') \<Longrightarrow> lock_step l (lock_move p (Waiting i a) l')"
| Take: "lk_callers l p = Waiting i a \<Longrightarrow> \<not> le_taken (lk_heap l a) \<Longrightarrow>
    lock_step l (lock_move p (Holding i a) (lock_slot a True l))"
| Cancel: "lk_callers l p = Waiting i a \<Longrightarrow> lock_step l (lock_move p Idle (lock_release i l))"
| Free: "lk_callers l p = Holding i a \<Longrightarrow> lock_step l (lock_move p (Releasing i a) (lock_slot a False l))"
| Drop: "lk_callers l p = Releasing i a \<Longrightarrow> lock_step l (lock_move p Idle (lock_release i l))"
| Again: "lock_step l l"

inductive lock_reachable :: "locker \<Rightarrow> bool" where
  Start: "lock_reachable new_locker"
| Step: "lock_reachable l \<Longrightarrow> lock_step l l' \<Longrightarrow> lock_reachable l'"

inductive_cases lock_stepE: "lock_step l l'"

section \<open>The invariant\<close>

fun owns :: "place \<Rightarrow> (uuid \<times> nat) option" where
  "owns Idle = None"
| "owns (Waiting i a) = Some (i, a)"
| "owns (Holding i a) = Some (i, a)"
| "owns (Releasing i a) = Some (i, a)"

definition involved :: "locker \<Rightarrow> uuid \<Rightarrow> nat set" where
  "involved l i = {p. \<exists>a. owns (lk_callers l p) = Some (i, a)}"

definition holders :: "locker \<Rightarrow> uuid \<Rightarrow> nat set" where
  "holders l i = {p. \<exists>a. lk_callers l p = Holding i a}"

text \<open>
  Per instance: no entry and nobody involved, or an entry with one reference per involved caller, all
  of which have its address, and a slot that is taken exactly when one of them holds it.
\<close>

definition lock_ok_at :: "locker \<Rightarrow> uuid \<Rightarrow> bool" where
  "lock_ok_at l i \<longleftrightarrow> finite (involved l i) \<and>
     (case lk_locks l i of
        None \<Rightarrow> involved l i = {}
      | Some a \<Rightarrow> a < lk_fresh l \<and> involved l i \<noteq> {} \<and> le_refs (lk_heap l a) = card (involved l i)
          \<and> (\<forall>p b. owns (lk_callers l p) = Some (i, b) \<longrightarrow> b = a)
          \<and> (if le_taken (lk_heap l a) then \<exists>p. holders l i = {p} else holders l i = {}))"

definition lock_ok :: "locker \<Rightarrow> bool" where
  "lock_ok l \<longleftrightarrow> (\<forall>i. lock_ok_at l i) \<and> (\<forall>i j a. lk_locks l i = Some a \<longrightarrow> lk_locks l j = Some a \<longrightarrow> i = j)"

text \<open>An instance whose entry and callers a step leaves alone keeps its part of the invariant.\<close>

lemma lock_ok_at_frame:
  assumes "lock_ok_at l i" "lk_locks l' i = lk_locks l i" "lk_fresh l \<le> lk_fresh l'"
    and "\<And>a. lk_locks l i = Some a \<Longrightarrow> lk_heap l' a = lk_heap l a"
    and "\<And>p. (\<exists>a. owns (lk_callers l p) = Some (i, a)) \<or> (\<exists>a. owns (lk_callers l' p) = Some (i, a))
           \<Longrightarrow> lk_callers l' p = lk_callers l p"
  shows "lock_ok_at l' i"
proof -
  have inv: "involved l' i = involved l i" unfolding involved_def using assms(5) by (metis (no_types, lifting))
  have hold: "holders l' i = holders l i"
    unfolding holders_def using assms(5) by (metis (no_types, lifting) owns.simps(3))
  have own: "owns (lk_callers l' p) = Some (i, b) \<Longrightarrow> owns (lk_callers l p) = Some (i, b)" for p b
    using assms(5) by metis
  show ?thesis
    using assms(1-4) own unfolding lock_ok_at_def inv hold by (auto split: option.splits)
qed

lemma involved_move:
  "involved (lock_move p pl l) i =
     (if \<exists>a. owns pl = Some (i, a) then insert p (involved l i) else involved l i - {p})"
  by (auto simp: involved_def lock_move_def)

lemma holders_move:
  "holders (lock_move p pl l) i =
     (if \<exists>a. pl = Holding i a then insert p (holders l i) else holders l i - {p})"
  by (auto simp: holders_def lock_move_def)

lemma holders_involved: "holders l i \<subseteq> involved l i"
  by (auto simp: holders_def involved_def)

text \<open>A caller whose place belongs to \<open>i\<close> is no concern of another instance.\<close>

lemma lock_ok_other:
  assumes "lock_ok_at l j" "lk_locks l' j = lk_locks l j" "lk_fresh l \<le> lk_fresh l'"
    and "\<And>a. lk_locks l j = Some a \<Longrightarrow> lk_heap l' a = lk_heap l a"
    and "lk_callers l' = (lk_callers l)(p := pl)"
    and "\<And>a. owns pl \<noteq> Some (j, a)" "\<And>a. owns (lk_callers l p) \<noteq> Some (j, a)"
  shows "lock_ok_at l' j"
  by (rule lock_ok_at_frame [OF assms(1-4)]) (use assms(5-7) in auto)

lemma lock_step_Retain:
  assumes ok: "lock_ok l" and p: "lk_callers l p = Idle" and r: "lock_retain i l = (a, l')"
  shows "lock_ok (lock_move p (Waiting i a) l')"
proof -
  have notin: "p \<notin> involved l j" "p \<notin> holders l j" for j using p by (auto simp: involved_def holders_def)
  have fresh: "lk_locks l j \<noteq> Some (lk_fresh l)" for j
    using ok by (auto simp: lock_ok_def lock_ok_at_def dest!: spec [of _ j])
  have oki: "lock_ok_at l i" using ok by (simp add: lock_ok_def)
  show ?thesis
  proof (cases "lk_locks l i")
    case None
    have a: "a = lk_fresh l" and l': "lk_locks l' = (lk_locks l)(i := Some a)" "lk_callers l' = lk_callers l"
      "lk_heap l' = (lk_heap l)(a := \<lparr>le_taken = False, le_refs = 1\<rparr>)" "lk_fresh l' = Suc (lk_fresh l)"
      using r None by (auto simp: lock_retain_def Let_def)
    have empty: "involved l i = {}" using oki None by (simp add: lock_ok_at_def)
    have same: "involved l' i = involved l i" "holders l' i = holders l i"
      by (simp_all add: involved_def holders_def l'(2))
    have inv: "involved (lock_move p (Waiting i a) l') i = {p}" "holders (lock_move p (Waiting i a) l') i = {}"
      using same empty holders_involved [of l i] by (auto simp: involved_move holders_move)
    show ?thesis
      unfolding lock_ok_def
    proof (intro conjI allI impI)
      fix j
      show "lock_ok_at (lock_move p (Waiting i a) l') j"
      proof (cases "j = i")
        case True
        have "owns (lk_callers l q) = Some (i, b) \<Longrightarrow> False" for q b using empty by (auto simp: involved_def)
        then show ?thesis using inv l' a True by (auto simp: lock_ok_at_def lock_move_def)
      next
        case False
        have "lock_ok_at l j" using ok by (simp add: lock_ok_def)
        then show ?thesis
          by (rule lock_ok_other) (use l' a False fresh [of j] p in \<open>auto simp: lock_move_def\<close>)
      qed
    next
      fix j k b
      assume "lk_locks (lock_move p (Waiting i a) l') j = Some b" "lk_locks (lock_move p (Waiting i a) l') k = Some b"
      then show "j = k" using ok l' a fresh by (auto simp: lock_move_def lock_ok_def split: if_splits)
    qed
  next
    case (Some c)
    have a: "a = c" and l': "l' = l\<lparr>lk_heap := (lk_heap l)(c := (lk_heap l c)\<lparr>le_refs := le_refs (lk_heap l c) + 1\<rparr>)\<rparr>"
      using r Some by (auto simp: lock_retain_def Let_def)
    have same: "involved l' i = involved l i" "holders l' i = holders l i"
      by (simp_all add: involved_def holders_def l')
    have fields: "lk_locks (lock_move p (Waiting i a) l') = lk_locks l"
      "lk_fresh (lock_move p (Waiting i a) l') = lk_fresh l"
      "lk_callers (lock_move p (Waiting i a) l') = (lk_callers l)(p := Waiting i a)"
      "lk_heap (lock_move p (Waiting i a) l') = (lk_heap l)(c := (lk_heap l c)\<lparr>le_refs := Suc (le_refs (lk_heap l c))\<rparr>)"
      by (simp_all add: lock_move_def l')
    have inv: "involved (lock_move p (Waiting i a) l') i = insert p (involved l i)"
      "holders (lock_move p (Waiting i a) l') i = holders l i"
      using notin same by (auto simp: involved_move holders_move)
    show ?thesis
      unfolding lock_ok_def
    proof (intro conjI allI impI)
      fix j
      show "lock_ok_at (lock_move p (Waiting i a) l') j"
      proof (cases "j = i")
        case True
        then show ?thesis
          using oki Some notin [of i]
          unfolding True a lock_ok_at_def inv [unfolded a] by (auto simp: fields [unfolded a] split: if_splits)
      next
        case False
        have "lock_ok_at l j" using ok by (simp add: lock_ok_def)
        moreover have "lk_locks l j \<noteq> Some c" using ok Some False by (auto simp: lock_ok_def)
        ultimately show ?thesis
          by - (rule lock_ok_other, use l' False p in \<open>auto simp: lock_move_def\<close>)
      qed
    next
      fix j k b
      assume "lk_locks (lock_move p (Waiting i a) l') j = Some b" "lk_locks (lock_move p (Waiting i a) l') k = Some b"
      then show "j = k" using ok by (auto simp: lock_move_def lock_ok_def l')
    qed
  qed
qed

lemma lock_ok_entry:
  assumes "lock_ok l" "owns (lk_callers l p) = Some (i, a)"
  shows "lk_locks l i = Some a" "p \<in> involved l i" "finite (involved l i)"
    "le_refs (lk_heap l a) = card (involved l i)"
    "if le_taken (lk_heap l a) then \<exists>p. holders l i = {p} else holders l i = {}"
proof -
  have ok: "lock_ok_at l i" using assms(1) by (simp add: lock_ok_def)
  show p: "p \<in> involved l i" using assms(2) by (auto simp: involved_def)
  show "lk_locks l i = Some a" "finite (involved l i)" "le_refs (lk_heap l a) = card (involved l i)"
    "if le_taken (lk_heap l a) then \<exists>p. holders l i = {p} else holders l i = {}"
    using ok p assms(2) by (auto simp: lock_ok_at_def split: option.splits)
qed

text \<open>A step that keeps the map and changes the slot and the place of one caller of \<open>i\<close>.\<close>

lemma lock_step_slot:
  assumes ok: "lock_ok l" and p: "owns (lk_callers l p) = Some (i, a)" and pl: "owns pl = Some (i, a)"
    and held: "if b then \<exists>q. holders (lock_move p pl l) i = {q} else holders (lock_move p pl l) i = {}"
  shows "lock_ok (lock_move p pl (lock_slot a b l))"
proof -
  note e = lock_ok_entry [OF ok p]
  let ?l = "lock_move p pl (lock_slot a b l)"
  have inv: "involved ?l i = involved l i" "holders ?l i = holders (lock_move p pl l) i"
    using e(2) pl by (auto simp: involved_def holders_def lock_move_def lock_slot_def)
  have fields: "lk_locks ?l = lk_locks l" "lk_fresh ?l = lk_fresh l" "lk_callers ?l = (lk_callers l)(p := pl)"
    "lk_heap ?l = (lk_heap l)(a := (lk_heap l a)\<lparr>le_taken := b\<rparr>)"
    by (simp_all add: lock_move_def lock_slot_def)
  have "lock_ok_at ?l j" for j
  proof (cases "j = i")
    case True
    have "lock_ok_at l i" using ok by (simp add: lock_ok_def)
    then show ?thesis
      unfolding True using e pl held
      unfolding lock_ok_at_def inv by (simp add: fields)
  next
    case False
    have "lock_ok_at l j" "lk_locks l j \<noteq> Some a" using ok e(1) False by (auto simp: lock_ok_def)
    then show ?thesis
      by - (rule lock_ok_other, use p pl False in \<open>auto simp: fields\<close>)
  qed
  then show ?thesis using ok by (auto simp: lock_ok_def fields)
qed

lemma lock_step_leave:
  assumes ok: "lock_ok l" and p: "owns (lk_callers l p) = Some (i, a)" and not_holding: "p \<notin> holders l i"
  shows "lock_ok (lock_move p Idle (lock_release i l))"
proof -
  note e = lock_ok_entry [OF ok p]
  let ?l = "lock_move p Idle (lock_release i l)"
  let ?refs = "card (involved l i) - 1"
  have fields: "lk_locks ?l = (if ?refs = 0 then (lk_locks l)(i := None) else lk_locks l)" "lk_fresh ?l = lk_fresh l"
    "lk_callers ?l = (lk_callers l)(p := Idle)"
    "lk_heap ?l = (lk_heap l)(a := (lk_heap l a)\<lparr>le_refs := ?refs\<rparr>)"
    using e(1,4) by (auto simp: lock_move_def lock_release_def Let_def)
  have inv: "involved ?l i = involved l i - {p}" "holders ?l i = holders l i"
    using not_holding by (auto simp: involved_def holders_def fields)
  have card: "card (involved ?l i) = ?refs" using e(2,3) by (simp add: inv)
  have "lock_ok_at ?l j" for j
  proof (cases "j = i")
    case True
    have okl: "lock_ok_at l i" using ok by (simp add: lock_ok_def)
    show ?thesis
    proof (cases "?refs = 0")
      case True
      then have "involved ?l i = {}" using card e(3) by (simp add: inv)
      then show ?thesis using True \<open>j = i\<close> by (simp add: lock_ok_at_def fields)
    next
      case False
      then have "involved ?l i \<noteq> {}" using card by auto
      then show ?thesis
        unfolding \<open>j = i\<close> using okl e False card
        unfolding lock_ok_at_def inv by (simp add: fields)
    qed
  next
    case False
    have "lock_ok_at l j" "lk_locks l j \<noteq> Some a" using ok e(1) False by (auto simp: lock_ok_def)
    then show ?thesis
      by - (rule lock_ok_other, use p False in \<open>auto simp: fields\<close>)
  qed
  then show ?thesis using ok by (auto simp: lock_ok_def fields split: if_splits)
qed

lemma lock_step_ok:
  assumes "lock_step l l'" "lock_ok l"
  shows "lock_ok l'"
  using assms
proof cases
  case (Retain p i a l1)
  then show ?thesis using lock_step_Retain assms(2) by blast
next
  case (Take p i a)
  have own: "owns (lk_callers l p) = Some (i, a)" using Take by simp
  have "holders l i = {}" using lock_ok_entry(5) [OF assms(2) own] Take by simp
  then have "holders (lock_move p (Holding i a) l) i = {p}" by (simp add: holders_move)
  then show ?thesis using lock_step_slot [OF assms(2) own, of "Holding i a" True] Take by auto
next
  case (Cancel p i a)
  then show ?thesis using lock_step_leave [OF assms(2), of p i a] by (auto simp: holders_def)
next
  case (Free p i a)
  have own: "owns (lk_callers l p) = Some (i, a)" using Free by simp
  have "p \<in> holders l i" using Free by (auto simp: holders_def)
  then have "holders l i = {p}" using lock_ok_entry(5) [OF assms(2) own] by (auto split: if_splits)
  then have "holders (lock_move p (Releasing i a) l) i = {}" by (simp add: holders_move)
  then show ?thesis using lock_step_slot [OF assms(2) own, of "Releasing i a" False] Free by auto
next
  case (Drop p i a)
  then show ?thesis using lock_step_leave [OF assms(2), of p i a] by (auto simp: holders_def)
next
  case Again
  then show ?thesis using assms(2) by simp
qed

lemma lock_reachable_ok: "lock_reachable l \<Longrightarrow> lock_ok l"
proof (induction rule: lock_reachable.induct)
  case Start
  then show ?case by (auto simp: new_locker_def lock_ok_def lock_ok_at_def involved_def holders_def)
next
  case (Step l l')
  then show ?case using lock_step_ok by blast
qed

section \<open>Property\<close>

text \<open>
  C26: however callers interleave, at most one of them holds an instance; a caller that waits for a
  free instance can take it at once; and the map has an entry exactly for the instances somebody
  waits for, holds or is releasing.
\<close>

theorem instance_lock_is_exclusive:
  assumes "lock_reachable l"
  shows "(lk_callers l p = Holding i a \<longrightarrow> lk_callers l q = Holding i b \<longrightarrow> p = q)
    \<and> (lk_callers l p = Waiting i a \<longrightarrow> (\<forall>q b. lk_callers l q \<noteq> Holding i b) \<longrightarrow>
         lock_step l (lock_move p (Holding i a) (lock_slot a True l)))
    \<and> (lk_locks l i \<noteq> None \<longleftrightarrow> (\<exists>p a. owns (lk_callers l p) = Some (i, a)))"
proof (intro conjI impI)
  have ok: "lock_ok l" using lock_reachable_ok [OF assms] .
  show "p = q" if "lk_callers l p = Holding i a" "lk_callers l q = Holding i b"
  proof -
    have "p \<in> holders l i" "q \<in> holders l i" using that by (auto simp: holders_def)
    then show ?thesis using lock_ok_entry(5) [OF ok, of p i a] that by (auto split: if_splits)
  qed
  show "lock_step l (lock_move p (Holding i a) (lock_slot a True l))"
    if w: "lk_callers l p = Waiting i a" and free: "\<forall>q b. lk_callers l q \<noteq> Holding i b"
  proof (rule Take [OF w])
    have "holders l i = {}" using free by (auto simp: holders_def)
    then show "\<not> le_taken (lk_heap l a)" using lock_ok_entry(5) [OF ok, of p i a] w by (auto split: if_splits)
  qed
  have "lock_ok_at l i" using ok by (simp add: lock_ok_def)
  then show "lk_locks l i \<noteq> None \<longleftrightarrow> (\<exists>p a. owns (lk_callers l p) = Some (i, a))"
    by (auto simp: lock_ok_at_def involved_def split: option.splits)
qed

theorem instance_lock_is_exclusive_witness:
  "\<exists>l. lock_reachable l \<and> lk_callers l 1 = Waiting 5 0 \<and> lk_callers l 2 = Holding 5 0 \<and>
     (lk_callers l 3 = Holding 5 0 \<longrightarrow> lk_callers l 2 = Holding 5 0 \<longrightarrow> 3 = (2 :: nat))"
proof -
  obtain l1 where r1: "lock_retain 5 new_locker = (0, l1)" "lk_callers l1 = (\<lambda>_. Idle)" "lk_locks l1 = [5 \<mapsto> 0]"
    "lk_heap l1 0 = \<lparr>le_taken = False, le_refs = 1\<rparr>"
    by (simp add: lock_retain_def new_locker_def fun_eq_iff)
  let ?a = "lock_move 2 (Waiting 5 0) l1"
  let ?b = "lock_move 2 (Holding 5 0) (lock_slot 0 True ?a)"
  have a: "lock_reachable ?a" by (rule Step [OF Start Retain [OF _ r1(1)]]) (simp add: new_locker_def)
  have b: "lock_reachable ?b" by (rule Step [OF a Take]) (simp_all add: lock_move_def r1)
  obtain l3 where r3: "lock_retain 5 ?b = (0, l3)" "lk_callers l3 = lk_callers ?b"
    by (simp add: lock_retain_def lock_move_def lock_slot_def r1)
  have c: "lock_reachable (lock_move 1 (Waiting 5 0) l3)"
    by (rule Step [OF b Retain [OF _ r3(1)]]) (simp add: lock_move_def lock_slot_def r1)
  have "lk_callers (lock_move 1 (Waiting 5 0) l3) 1 = Waiting 5 0" "lk_callers (lock_move 1 (Waiting 5 0) l3) 2 = Holding 5 0"
    by (simp_all add: lock_move_def r3 lock_slot_def)
  then show ?thesis using c instance_lock_is_exclusive [OF c, of 3 5 0 2 0] by blast
qed

end
