(* ===== verification/Model.thy ===== *)
theory Model
  imports Prelude "HOL-Library.Product_Lexorder"
begin

text \<open>
  The data of the service: the records of \<^verbatim>\<open>internal/model/model.go\<close>, the storage sentinels of
  \<^verbatim>\<open>internal/storage/repository.go\<close>, the Postgres tables of
  \<^verbatim>\<open>internal/storage/migrations\<close> as lists of row records, and the outcome of a statement.

  Postgres is code outside the repository. What the model takes from it is the meaning of the SQL
  the repositories send and the fact that a statement either takes effect or fails without effect;
  which statements fail is a script inside the database state (\<open>pg_script\<close>), so every theorem is
  about every pattern of failures. The server's clock, its \<^verbatim>\<open>lower\<close> and the text a jsonb column
  gives back for a document (None when the text is no JSON) are part of the state as well
  (\<open>pg_now\<close>, \<open>pg_lower\<close>, \<open>pg_jsonb\<close>).
\<close>

section \<open>Records of the services\<close>

record wa_instance =
  inst_id :: uuid
  inst_name :: string
  inst_external_ref :: string
  inst_status :: string
  inst_jid :: string
  inst_last_error :: string
  inst_last_connected :: "instant option"
  inst_owner :: "uuid option"
  inst_webhook_url :: "string option"
  inst_webhook_enabled :: bool
  inst_webhook_events :: "string list option"
  inst_created :: instant
  inst_updated :: instant

record user =
  user_id :: uuid
  user_email :: string
  user_password_hash :: string
  user_role :: string
  user_quota :: int
  user_created :: instant
  user_updated :: instant

text \<open>
  JSON values, as \<^verbatim>\<open>encoding/json\<close> decodes them with \<^verbatim>\<open>UseNumber\<close>: a number keeps its literal.
  Stored payloads and envelopes are JSON documents; the model keeps the value.
\<close>

datatype json =
    JNull
  | JBool bool
  | JNum string
  | JStr string
  | JArr "json list"
  | JObj "(string \<times> json) list"

text \<open>
  A \<^verbatim>\<open>float64\<close>: NaN, an infinity or a finite value, which is a rational number. The source only
  compares floats with small constants.
\<close>

datatype float64 = FNaN | FInf bool | FFin rat

fun float_less :: "float64 \<Rightarrow> rat \<Rightarrow> bool" where
  "float_less FNaN c = False"
| "float_less (FInf neg) c = neg"
| "float_less (FFin x) c = (x < c)"

fun float_greater :: "float64 \<Rightarrow> rat \<Rightarrow> bool" where
  "float_greater FNaN c = False"
| "float_greater (FInf neg) c = (\<not> neg)"
| "float_greater (FFin x) c = (c < x)"

definition float_is_nan :: "float64 \<Rightarrow> bool" where
  "float_is_nan x \<longleftrightarrow> x = FNaN"

text \<open>
  The stored body of a message, \<^verbatim>\<open>message_queue.payload\<close>: the JSON objects \<^verbatim>\<open>buildPayload\<close>
  serializes, and any other JSON document.
\<close>

datatype payload =
    PText string string
  | PLocation "float64 option" "float64 option"
  | PContact string string
  | PMedia string string bool string
  | PMalformed

record outbound_message =
  om_id :: uuid
  om_instance :: uuid
  om_type :: string
  om_recipient :: string
  om_payload :: payload
  om_media :: "uuid option"
  om_status :: string
  om_whatsapp_id :: string
  om_last_error :: string
  om_attempts :: int
  om_delivered_at :: "instant option"
  om_read_at :: "instant option"
  om_created :: instant
  om_updated :: instant

record media =
  md_id :: uuid
  md_instance :: uuid
  md_direction :: string
  md_message :: string
  md_mimetype :: string
  md_filename :: string
  md_size :: int
  md_path :: string
  md_sha256 :: string
  md_created :: instant
  md_expires :: instant

record idempotency_record =
  ik_instance :: uuid
  ik_key :: string
  ik_fingerprint :: string
  ik_status :: string
  ik_response_status :: int
  ik_response_body :: string
  ik_created :: instant
  ik_expires :: instant

record outbox_event =
  ev_id :: uuid
  ev_subject :: string
  ev_envelope :: string
  ev_attempts :: int
  ev_last_error :: string
  ev_created :: instant
  ev_published :: "instant option"

section \<open>Storage sentinels\<close>

text \<open>
  The errors a repository answers: the sentinels of the package, or a driver error with its
  SQLSTATE (empty for a failure that has none, such as a lost connection).
\<close>

datatype storage_err =
    SNotFound
  | SExternalRefTaken
  | SEmailTaken
  | SInvalidCursor
  | SFingerprintMismatch
  | SInProgress
  | SDriver string

type_synonym 'a result = "storage_err + 'a"

section \<open>Tables\<close>

text \<open>The rows keep SQL's NULL as None; the records above have it already coalesced.\<close>

record user_row =
  ur_id :: uuid
  ur_email :: "string option"
  ur_password_hash :: "string option"
  ur_role :: "string option"
  ur_quota :: int
  ur_created :: instant
  ur_updated :: instant

record instance_row =
  ir_id :: uuid
  ir_name :: string
  ir_external_ref :: "string option"
  ir_status :: string
  ir_jid :: "string option"
  ir_last_connected :: "instant option"
  ir_last_error :: "string option"
  ir_owner :: "uuid option"
  ir_api_key_hash :: "string option"
  ir_webhook_url :: "string option"
  ir_webhook_enabled :: bool
  ir_webhook_events :: "string list"
  ir_created :: instant
  ir_updated :: instant

record message_row =
  mr_id :: uuid
  mr_instance :: uuid
  mr_recipient :: string
  mr_type :: string
  mr_payload :: payload
  mr_status :: string
  mr_retries :: int
  mr_last_error :: "string option"
  mr_whatsapp_id :: "string option"
  mr_delivered_at :: "instant option"
  mr_read_at :: "instant option"
  mr_media :: "uuid option"
  mr_next_attempt :: "instant option"
  mr_created :: instant
  mr_updated :: instant

record idem_row =
  kr_instance :: uuid
  kr_key :: string
  kr_hash :: string
  kr_status :: string
  kr_response_status :: "int option"
  kr_response_body :: "string option"
  kr_created :: instant
  kr_expires :: instant

record contact_row =
  cr_phone :: string
  cr_jid :: string
  cr_expires :: instant
  cr_created :: instant

record media_row =
  dr_id :: uuid
  dr_instance :: uuid
  dr_direction :: string
  dr_message :: "string option"
  dr_mimetype :: string
  dr_filename :: "string option"
  dr_size :: int
  dr_path :: string
  dr_sha256 :: string
  dr_created :: instant
  dr_expires :: instant

record event_row =
  er_id :: uuid
  er_subject :: string
  er_envelope :: string
  er_attempts :: int
  er_last_error :: "string option"
  er_created :: instant
  er_published :: "instant option"

record db =
  t_users :: "user_row list"
  t_instances :: "instance_row list"
  t_messages :: "message_row list"
  t_idem :: "idem_row list"
  t_contacts :: "contact_row list"
  t_media :: "media_row list"
  t_events :: "event_row list"
  pg_now :: instant
  pg_lower :: "string \<Rightarrow> string"
  pg_jsonb :: "string \<Rightarrow> string option"
  pg_script :: "bool list"

text \<open>
  One statement: it consumes an entry of the script, where False is a statement the server or the
  connection failed, which then has no effect. An exhausted script has no more failures.
\<close>

definition pg_stmt :: "db \<Rightarrow> bool \<times> db" where
  "pg_stmt d = (case pg_script d of [] \<Rightarrow> (True, d) | ok # rest \<Rightarrow> (ok, d\<lparr>pg_script := rest\<rparr>))"

definition pg_run :: "(db \<Rightarrow> 'a result \<times> db) \<Rightarrow> db \<Rightarrow> 'a result \<times> db" where
  "pg_run stmt d = (case pg_stmt d of (ok, d') \<Rightarrow> if ok then stmt d' else (Inl (SDriver []), d'))"

text \<open>\<open>same_tables\<close>: the two states differ in the script at most.\<close>

definition same_tables :: "db \<Rightarrow> db \<Rightarrow> bool" where
  "same_tables d d' \<longleftrightarrow> d'\<lparr>pg_script := []\<rparr> = d\<lparr>pg_script := []\<rparr>"

lemma same_tables_refl [simp]: "same_tables d d"
  by (simp add: same_tables_def)

lemma same_tables_trans: "same_tables a b \<Longrightarrow> same_tables b c \<Longrightarrow> same_tables a c"
  by (simp add: same_tables_def)

lemma same_tables_script [simp]: "same_tables d (d\<lparr>pg_script := s\<rparr>)"
  by (simp add: same_tables_def)

lemma same_tables_fields:
  assumes "same_tables d d'"
  shows "t_users d' = t_users d" "t_instances d' = t_instances d" "t_messages d' = t_messages d"
    "t_idem d' = t_idem d" "t_contacts d' = t_contacts d" "t_media d' = t_media d"
    "t_events d' = t_events d" "pg_now d' = pg_now d" "pg_lower d' = pg_lower d"
    "pg_jsonb d' = pg_jsonb d"
  using assms unfolding same_tables_def by (cases d; cases d'; simp)+

lemma pg_stmt_cases:
  obtains (ok) d' where "pg_stmt d = (True, d')" "same_tables d d'"
        | (failed) d' where "pg_stmt d = (False, d')" "same_tables d d'"
proof (cases "pg_script d")
  case Nil
  then have "pg_stmt d = (True, d)" by (simp add: pg_stmt_def)
  then show thesis by (rule ok) simp
next
  case (Cons b rest)
  then have e: "pg_stmt d = (b, d\<lparr>pg_script := rest\<rparr>)" by (simp add: pg_stmt_def)
  show thesis
  proof (cases b)
    case True
    with e show thesis by (intro ok) auto
  next
    case False
    with e show thesis by (intro failed) auto
  qed
qed

lemma pg_run_cases:
  obtains (ok) d' where "pg_run f d = f d'" "same_tables d d'"
        | (failed) d' where "pg_run f d = (Inl (SDriver []), d')" "same_tables d d'"
  by (rule pg_stmt_cases [of d]) (simp_all add: pg_run_def)

lemma pg_run_ok [simp]: "pg_script d = [] \<Longrightarrow> pg_run f d = f d"
  by (simp add: pg_run_def pg_stmt_def)

text \<open>
  The frame rule of a statement: what holds of every database with the same tables and is kept by
  the statement's body is kept by the statement.
\<close>

lemma pg_run_inv:
  assumes "pg_run f d = (r, d')"
    and "\<And>e. same_tables d e \<Longrightarrow> P (Inl (SDriver [])) e"
    and "\<And>e r e'. same_tables d e \<Longrightarrow> f e = (r, e') \<Longrightarrow> P r e'"
  shows "P r d'"
  by (rule pg_run_cases [of f d]) (use assms in auto)

lemma pg_run_Inr:
  assumes "pg_run f d = (Inr x, d')"
  obtains e where "same_tables d e" "f e = (Inr x, d')"
  by (rule pg_run_cases [of f d]) (use assms that in auto)

lemma pg_run_same:
  assumes "\<And>e. same_tables d e \<Longrightarrow> same_tables e (snd (f e))"
  shows "same_tables d (snd (pg_run f d))"
  by (rule pg_run_cases [of f d]) (use assms in \<open>auto intro: same_tables_trans\<close>)

lemma pg_run_Inl_same:
  assumes "pg_run f d = (Inl x, d')" "\<And>e d'. same_tables d e \<Longrightarrow> f e = (Inl x, d') \<Longrightarrow> same_tables e d'"
  shows "same_tables d d'"
  by (rule pg_run_cases [of f d]) (use assms in \<open>auto intro: same_tables_trans\<close>)

definition script_blind :: "(db \<Rightarrow> bool) \<Rightarrow> bool" where
  "script_blind P \<longleftrightarrow> (\<forall>d e. same_tables d e \<longrightarrow> P e = P d)"

lemma script_blindD: "script_blind P \<Longrightarrow> same_tables d e \<Longrightarrow> P d \<Longrightarrow> P e"
  by (auto simp: script_blind_def)

lemma pg_run_keeps:
  assumes "script_blind P" "P d" "\<And>e. P e \<Longrightarrow> P (snd (f e))"
  shows "P (snd (pg_run f d))"
  by (rule pg_run_cases [of f d]) (use assms in \<open>auto dest: script_blindD\<close>)

section \<open>Scanning rows\<close>

definition scan_user :: "user_row \<Rightarrow> user" where
  "scan_user r =
     \<lparr>user_id = ur_id r, user_email = coalesce_empty (ur_email r),
      user_password_hash = coalesce_empty (ur_password_hash r),
      user_role = coalesce_empty (ur_role r), user_quota = ur_quota r,
      user_created = ur_created r, user_updated = ur_updated r\<rparr>"

definition scan_instance :: "instance_row \<Rightarrow> wa_instance" where
  "scan_instance r =
     \<lparr>inst_id = ir_id r, inst_name = ir_name r,
      inst_external_ref = coalesce_empty (ir_external_ref r), inst_status = ir_status r,
      inst_jid = coalesce_empty (ir_jid r), inst_last_error = coalesce_empty (ir_last_error r),
      inst_last_connected = ir_last_connected r, inst_owner = ir_owner r,
      inst_webhook_url = ir_webhook_url r, inst_webhook_enabled = ir_webhook_enabled r,
      inst_webhook_events = Some (ir_webhook_events r),
      inst_created = ir_created r, inst_updated = ir_updated r\<rparr>"

definition scan_message :: "message_row \<Rightarrow> outbound_message" where
  "scan_message r =
     \<lparr>om_id = mr_id r, om_instance = mr_instance r, om_type = mr_type r,
      om_recipient = mr_recipient r, om_payload = mr_payload r, om_media = mr_media r,
      om_status = mr_status r, om_whatsapp_id = coalesce_empty (mr_whatsapp_id r),
      om_last_error = coalesce_empty (mr_last_error r), om_attempts = mr_retries r,
      om_delivered_at = mr_delivered_at r, om_read_at = mr_read_at r,
      om_created = mr_created r, om_updated = mr_updated r\<rparr>"

definition scan_idem :: "idem_row \<Rightarrow> idempotency_record" where
  "scan_idem r =
     \<lparr>ik_instance = kr_instance r, ik_key = kr_key r, ik_fingerprint = kr_hash r,
      ik_status = kr_status r,
      ik_response_status = (case kr_response_status r of None \<Rightarrow> 0 | Some s \<Rightarrow> s),
      ik_response_body = coalesce_empty (kr_response_body r),
      ik_created = kr_created r, ik_expires = kr_expires r\<rparr>"

definition scan_media :: "media_row \<Rightarrow> media" where
  "scan_media r =
     \<lparr>md_id = dr_id r, md_instance = dr_instance r, md_direction = dr_direction r,
      md_message = coalesce_empty (dr_message r), md_mimetype = dr_mimetype r,
      md_filename = coalesce_empty (dr_filename r), md_size = dr_size r, md_path = dr_path r,
      md_sha256 = dr_sha256 r, md_created = dr_created r, md_expires = dr_expires r\<rparr>"

definition scan_event :: "event_row \<Rightarrow> outbox_event" where
  "scan_event r =
     \<lparr>ev_id = er_id r, ev_subject = er_subject r, ev_envelope = er_envelope r,
      ev_attempts = er_attempts r, ev_last_error = coalesce_empty (er_last_error r),
      ev_created = er_created r, ev_published = er_published r\<rparr>"

lemmas scan_defs =
  scan_user_def scan_instance_def scan_message_def scan_idem_def scan_media_def scan_event_def

lemma scan_ids [simp]:
  "user_id (scan_user u) = ur_id u" "inst_id (scan_instance i) = ir_id i"
  "om_id (scan_message m) = mr_id m" "md_id (scan_media c) = dr_id c"
  "ev_id (scan_event e) = er_id e"
  by (simp_all add: scan_defs)

section \<open>Pages\<close>

text \<open>
  The keyset pagination of the list queries: rows in descending (created_at, id) order, the rows
  strictly before the cursor row (none when the cursor names no row, since the comparison is then
  NULL), and one row more than the page to know whether another page follows.
\<close>

definition desc_rows :: "('r \<Rightarrow> instant) \<Rightarrow> ('r \<Rightarrow> uuid) \<Rightarrow> 'r list \<Rightarrow> 'r list" where
  "desc_rows created ident rows = rev (sort_key (\<lambda>r. (created r, ident r)) rows)"

definition rows_before :: "('r \<Rightarrow> instant) \<Rightarrow> ('r \<Rightarrow> uuid) \<Rightarrow> 'r list \<Rightarrow> uuid \<Rightarrow> 'r list \<Rightarrow> 'r list" where
  "rows_before created ident table cur rows =
     (case row_by ident cur table of
        None \<Rightarrow> []
      | Some c \<Rightarrow> filter (\<lambda>r. (created r, ident r) < (created c, ident c)) rows)"

definition page_of :: "(uuid \<Rightarrow> string) \<Rightarrow> ('r \<Rightarrow> uuid) \<Rightarrow> nat \<Rightarrow> 'r list \<Rightarrow> 'r list \<times> string" where
  "page_of show_id ident limit rows =
     (let fetched = take (limit + 1) rows in
      if length fetched > limit
      then (take limit fetched, show_id (ident (fetched ! (limit - 1))))
      else (fetched, []))"

section \<open>A database to evaluate on\<close>

definition blank_db :: db where
  "blank_db =
     \<lparr>t_users = [], t_instances = [], t_messages = [], t_idem = [], t_contacts = [], t_media = [],
      t_events = [], pg_now = 0, pg_lower = to_lower, pg_jsonb = Some, pg_script = []\<rparr>"

lemma blank_db_simps [simp]:
  "t_users blank_db = []" "t_instances blank_db = []" "t_messages blank_db = []" "t_idem blank_db = []"
  "t_contacts blank_db = []" "t_media blank_db = []" "t_events blank_db = []" "pg_now blank_db = 0"
  "pg_lower blank_db = to_lower" "pg_jsonb blank_db = Some" "pg_script blank_db = []"
  by (simp_all add: blank_db_def)

definition sample_message :: message_row where
  "sample_message =
     \<lparr>mr_id = 5, mr_instance = 1, mr_recipient = ''5511999999999@s.whatsapp.net'', mr_type = ''text'',
      mr_payload = PText ''hi'' [], mr_status = ''queued'', mr_retries = 0, mr_last_error = None,
      mr_whatsapp_id = None, mr_delivered_at = None, mr_read_at = None, mr_media = None,
      mr_next_attempt = None, mr_created = 0, mr_updated = 0\<rparr>"

definition sample_instance :: instance_row where
  "sample_instance =
     \<lparr>ir_id = 1, ir_name = ''main'', ir_external_ref = None, ir_status = ''connected'',
      ir_jid = Some ''5511988888888@s.whatsapp.net'', ir_last_connected = None, ir_last_error = None,
      ir_owner = Some 7, ir_api_key_hash = None, ir_webhook_url = None, ir_webhook_enabled = False,
      ir_webhook_events = [], ir_created = 0, ir_updated = 0\<rparr>"

definition sample_user :: user_row where
  "sample_user =
     \<lparr>ur_id = 7, ur_email = Some ''ana@example.org'', ur_password_hash = Some ''x'',
      ur_role = Some ''user'', ur_quota = 2, ur_created = 0, ur_updated = 0\<rparr>"

definition sample_db :: db where
  "sample_db = blank_db\<lparr>t_users := [sample_user], t_instances := [sample_instance],
     t_messages := [sample_message]\<rparr>"

lemmas sample_defs = sample_db_def sample_message_def sample_instance_def sample_user_def

end
