(* ===== verification/StoreUsers.thy ===== *)
theory StoreUsers
  imports Model
begin

text \<open>
  \<^verbatim>\<open>internal/storage/postgres/users.go\<close>: the users table. \<^verbatim>\<open>lower\<close> is the server's own case
  mapping (\<open>pg_lower\<close>), the unique index is on it. The CHECK on the role is evaluated before the
  indexes, the primary key before the unique index.
\<close>

definition int4 :: "int \<Rightarrow> bool" where
  "int4 x \<longleftrightarrow> - (2 ^ 31) \<le> x \<and> x < 2 ^ 31"

definition map_user_error :: "storage_err \<Rightarrow> string \<Rightarrow> storage_err" where
  "map_user_error e constraint_name =
     (if e = SDriver ''23505'' \<and> constraint_name = ''users_email_lower_idx'' then SEmailTaken else e)"

definition same_email :: "db \<Rightarrow> string \<Rightarrow> user_row \<Rightarrow> bool" where
  "same_email d email r \<longleftrightarrow> map_option (pg_lower d) (ur_email r) = Some (pg_lower d email)"

definition user_row_of :: "db \<Rightarrow> user \<Rightarrow> user_row" where
  "user_row_of d u =
     \<lparr>ur_id = user_id u, ur_email = Some (user_email u),
      ur_password_hash = Some (user_password_hash u), ur_role = Some (user_role u),
      ur_quota = user_quota u, ur_created = pg_now d, ur_updated = pg_now d\<rparr>"

definition users_create :: "user \<Rightarrow> db \<Rightarrow> user result \<times> db" where
  [store_simps]: "users_create u = pg_run (\<lambda>d.
     if \<not> int4 (user_quota u) then (Inl (map_user_error (SDriver []) []), d)
     else if user_role u \<notin> {''admin'', ''user''}
     then (Inl (map_user_error (SDriver ''23514'') ''users_role_check''), d)
     else if user_id u \<in> ur_id ` set (t_users d)
     then (Inl (map_user_error (SDriver ''23505'') ''users_pkey''), d)
     else if \<exists>r \<in> set (t_users d). same_email d (user_email u) r
     then (Inl (map_user_error (SDriver ''23505'') ''users_email_lower_idx''), d)
     else (let row = user_row_of d u
           in (Inr (scan_user row), d\<lparr>t_users := t_users d @ [row]\<rparr>)))"

definition users_get_by_id :: "uuid \<Rightarrow> db \<Rightarrow> user result \<times> db" where
  [store_simps]: "users_get_by_id i = pg_run (\<lambda>d.
     (case row_by ur_id i (t_users d) of
        None \<Rightarrow> Inl SNotFound | Some r \<Rightarrow> Inr (scan_user r), d))"

definition users_get_by_email :: "string \<Rightarrow> db \<Rightarrow> user result \<times> db" where
  [store_simps]: "users_get_by_email email = pg_run (\<lambda>d.
     (case find (same_email d email) (t_users d) of
        None \<Rightarrow> Inl SNotFound | Some r \<Rightarrow> Inr (scan_user r), d))"

definition users_list :: "db \<Rightarrow> user list result \<times> db" where
  [store_simps]: "users_list = pg_run (\<lambda>d.
     (Inr (map scan_user (sort_key (\<lambda>r. (ur_created r, ur_id r)) (t_users d))), d))"

definition users_delete :: "uuid \<Rightarrow> db \<Rightarrow> unit result \<times> db" where
  [store_simps]: "users_delete i = pg_run (\<lambda>d.
     if i \<notin> ur_id ` set (t_users d) then (Inl SNotFound, d)
     else if \<exists>r \<in> set (t_instances d). ir_owner r = Some i then (Inl (SDriver ''23503''), d)
     else (Inr (), d\<lparr>t_users := filter (\<lambda>r. ur_id r \<noteq> i) (t_users d)\<rparr>))"

definition users_count :: "db \<Rightarrow> nat result \<times> db" where
  [store_simps]: "users_count = pg_run (\<lambda>d. (Inr (length (t_users d)), d))"

definition users_update_quota :: "uuid \<Rightarrow> int \<Rightarrow> db \<Rightarrow> unit result \<times> db" where
  [store_simps]: "users_update_quota i quota = pg_run (\<lambda>d.
     if \<not> int4 quota then (Inl (SDriver []), d)
     else if i \<notin> ur_id ` set (t_users d) then (Inl SNotFound, d)
     else (Inr (), d\<lparr>t_users := update_where (\<lambda>r. ur_id r = i)
             (\<lambda>r. r\<lparr>ur_quota := quota, ur_updated := pg_now d\<rparr>) (t_users d)\<rparr>))"

section \<open>Well-formed tables\<close>

definition email_keys :: "(string \<Rightarrow> string) \<Rightarrow> user_row list \<Rightarrow> string list" where
  "email_keys lower rows = map lower (map the (filter (\<lambda>x. x \<noteq> None) (map ur_email rows)))"

definition role_ok :: "user_row \<Rightarrow> bool" where
  "role_ok r \<longleftrightarrow> ur_role r = Some ''admin'' \<or> ur_role r = Some ''user''"

definition users_ok :: "(string \<Rightarrow> string) \<Rightarrow> user_row list \<Rightarrow> bool" where
  "users_ok lower rows \<longleftrightarrow> keyed ur_id rows \<and> list_all role_ok rows
     \<and> distinct (email_keys lower rows)"

lemma email_keys_mem:
  "x \<in> set (email_keys lower rows) \<longleftrightarrow> (\<exists>r \<in> set rows. map_option lower (ur_email r) = Some x)"
  by (force simp: email_keys_def)

lemma email_keys_Cons:
  "email_keys lower (r # rows) =
     (case ur_email r of None \<Rightarrow> email_keys lower rows | Some e \<Rightarrow> lower e # email_keys lower rows)"
  by (auto simp: email_keys_def split: option.split)

lemma users_ok_snoc:
  assumes "users_ok (pg_lower d) (t_users d)" "user_role u = ''admin'' \<or> user_role u = ''user''"
    and "user_id u \<notin> ur_id ` set (t_users d)" "\<not> (\<exists>r \<in> set (t_users d). same_email d (user_email u) r)"
  shows "users_ok (pg_lower d) (t_users d @ [user_row_of d u])"
proof -
  have "pg_lower d (user_email u) \<notin> set (email_keys (pg_lower d) (t_users d))"
    using assms(4) by (simp add: email_keys_mem same_email_def)
  then show ?thesis
    using assms(1-3)
    by (auto simp: users_ok_def keyed_snoc user_row_of_def role_ok_def email_keys_def)
qed

lemma users_ok_filter:
  assumes "users_ok lower rows"
  shows "users_ok lower (filter P rows)"
proof -
  have "distinct (email_keys lower rows) \<Longrightarrow> distinct (email_keys lower (filter P rows))"
  proof (induction rows)
    case (Cons a rows)
    have "set (email_keys lower (filter P rows)) \<subseteq> set (email_keys lower rows)"
      by (fastforce simp: email_keys_mem)
    with Cons show ?case by (auto simp: email_keys_Cons split: option.splits)
  qed (simp add: email_keys_def)
  then show ?thesis using assms by (auto simp: users_ok_def keyed_filter list_all_iff)
qed

lemma users_ok_update:
  assumes "users_ok lower rows" "\<And>r. ur_id (f r) = ur_id r" "\<And>r. ur_email (f r) = ur_email r"
    and "\<And>r. role_ok r \<Longrightarrow> role_ok (f r)"
  shows "users_ok lower (update_where P f rows)"
proof -
  have "email_keys lower (update_where P f rows) = email_keys lower rows"
  proof -
    have "map ur_email (update_where P f rows) = map ur_email rows"
      using assms(3) by (simp add: update_where_def)
    then show ?thesis by (simp add: email_keys_def)
  qed
  then show ?thesis
    using assms by (auto simp: users_ok_def list_all_iff set_update_where)
qed

end
