(* ===== verification/Ssrf.thy ===== *)
theory Ssrf
  imports Prelude "HOL-Library.Word"
begin

text \<open>
  The outbound SSRF gate of the webhooks (\<^verbatim>\<open>internal/webhook/ssrf.go\<close>) and the loopback test of
  \<^verbatim>\<open>internal/webhook/webhook.go\<close>.

  An address is the 16-byte form of Go's \<^verbatim>\<open>net.IP\<close>; the predicates are those of the standard
  library. The URL parser, the textual address parser and the resolver are fields of \<open>net_env\<close>:
  the theorems hold for every one of them. Error values keep which check refused; the texts are
  dropped.
\<close>

unbundle bit_operations_syntax

section \<open>Addresses\<close>

type_synonym ip = "128 word"

definition to4 :: "ip \<Rightarrow> 32 word option" where
  "to4 a = (if drop_bit 32 a = mask 16 then Some (ucast a) else None)"

definition of_ip4 :: "32 word \<Rightarrow> ip" where
  "of_ip4 v = push_bit 32 (mask 16) OR ucast v"

definition ipv4 :: "nat \<Rightarrow> nat \<Rightarrow> nat \<Rightarrow> nat \<Rightarrow> ip" where
  "ipv4 a b c d =
     of_ip4 (word_of_nat (((a * 256 + b) * 256 + c) * 256 + d))"

lemma to4_of_ip4 [simp]: "to4 (of_ip4 v) = Some v"
proof -
  have "drop_bit 32 (of_ip4 v) = mask 16"
    by (rule bit_word_eqI)
       (auto simp: of_ip4_def bit_simps dest: bit_imp_le_length)
  moreover have "ucast (of_ip4 v) = v"
    by (rule bit_word_eqI) (auto simp: of_ip4_def bit_simps)
  ultimately show ?thesis by (simp add: to4_def)
qed

lemma of_ip4_inject [simp]: "of_ip4 v = of_ip4 w \<longleftrightarrow> v = w"
  by (metis option.inject to4_of_ip4)

lemma of_ip4_not_v6 [simp]: "of_ip4 v \<noteq> 0"
proof -
  have "to4 0 = None" by (simp add: to4_def)
  then show ?thesis by (metis option.distinct(1) to4_of_ip4)
qed

definition ipv6_unspecified :: ip where "ipv6_unspecified = 0"
definition ipv6_loopback :: ip where "ipv6_loopback = 1"

definition ip_is_unspecified :: "ip \<Rightarrow> bool" where
  "ip_is_unspecified a \<longleftrightarrow> a = ipv4 0 0 0 0 \<or> a = ipv6_unspecified"

definition ip_is_loopback :: "ip \<Rightarrow> bool" where
  "ip_is_loopback a = (case to4 a of Some v \<Rightarrow> drop_bit 24 v = 127 | None \<Rightarrow> a = ipv6_loopback)"

definition ip_is_private :: "ip \<Rightarrow> bool" where
  "ip_is_private a =
     (case to4 a of
        Some v \<Rightarrow> drop_bit 24 v = 10 \<or> drop_bit 20 v = 0xAC1 \<or> drop_bit 16 v = 0xC0A8
      | None \<Rightarrow> drop_bit 121 a = 0x7E)"

definition ip_is_multicast :: "ip \<Rightarrow> bool" where
  "ip_is_multicast a =
     (case to4 a of Some v \<Rightarrow> drop_bit 28 v = 0xE | None \<Rightarrow> drop_bit 120 a = 0xFF)"

definition ip_is_link_local_multicast :: "ip \<Rightarrow> bool" where
  "ip_is_link_local_multicast a =
     (case to4 a of
        Some v \<Rightarrow> drop_bit 8 v = 0xE00000
      | None \<Rightarrow> drop_bit 120 a = 0xFF \<and> drop_bit 112 a AND 0x0F = 0x02)"

definition ip_is_link_local_unicast :: "ip \<Rightarrow> bool" where
  "ip_is_link_local_unicast a =
     (case to4 a of Some v \<Rightarrow> drop_bit 16 v = 0xA9FE | None \<Rightarrow> drop_bit 118 a = 0x3FA)"

text \<open>
  \<^verbatim>\<open>IPNet.Contains\<close>: an IPv4 network holds only addresses with a 4-byte form, an IPv6 network only
  the others.
\<close>

definition net4_contains :: "32 word \<Rightarrow> nat \<Rightarrow> ip \<Rightarrow> bool" where
  "net4_contains net bits a =
     (case to4 a of Some v \<Rightarrow> drop_bit (32 - bits) v = drop_bit (32 - bits) net | None \<Rightarrow> False)"

definition net6_contains :: "ip \<Rightarrow> nat \<Rightarrow> ip \<Rightarrow> bool" where
  "net6_contains net bits a =
     (to4 a = None \<and> drop_bit (128 - bits) a = drop_bit (128 - bits) net)"

section \<open>The gate\<close>

definition metadata_ipv4 :: "ip list" where
  "metadata_ipv4 = [ipv4 169 254 169 254, ipv4 100 100 100 200]"

definition in_link_local_nets :: "ip \<Rightarrow> bool" where
  "in_link_local_nets a \<longleftrightarrow>
     net4_contains 0xA9FE0000 16 a \<or> net6_contains (push_bit 112 0xFE80) 10 a"

definition in_carrier_grade_nat :: "ip \<Rightarrow> bool" where
  "in_carrier_grade_nat a = net4_contains 0x64400000 10 a"

definition is_webhook_always_blocked :: "ip \<Rightarrow> bool" where
  "is_webhook_always_blocked a \<longleftrightarrow> a \<in> set metadata_ipv4 \<or> in_link_local_nets a"

definition is_webhook_blocked_ip :: "ip \<Rightarrow> bool" where
  "is_webhook_blocked_ip a =
     (if ip_is_unspecified a \<or> ip_is_loopback a \<or> ip_is_link_local_unicast a
         \<or> ip_is_link_local_multicast a \<or> ip_is_multicast a \<or> ip_is_private a
      then True else in_carrier_grade_nat a)"

definition all_loopback :: "ip list \<Rightarrow> bool" where
  "all_loopback ips = (if ips = [] then False else list_all ip_is_loopback ips)"

record url =
  url_scheme :: string
  url_has_user :: bool
  url_hostname :: string

record net_env =
  url_parse :: "string \<Rightarrow> url option"
  parse_ip :: "string \<Rightarrow> ip option"
  lookup_ip :: "string \<Rightarrow> ip list option"

text \<open>The errors carry what their texts quote: the URL, its scheme or the host.\<close>

datatype ssrf_err =
    EmptyUrl | UnparseableUrl string | BadScheme string | UserinfoNotAllowed | EmptyHost
  | CannotResolve string | BlockedAddress string | NonPublicAddress string

text \<open>
  \<^verbatim>\<open>strings.EqualFold\<close> against an ASCII word folds, besides the ASCII case, the long s (U+017F,
  bytes C5 BF) to s.
\<close>

fun fold_long_s :: "string \<Rightarrow> string" where
  "fold_long_s (a # b # s) =
     (if a = CHR 0xC5 \<and> b = CHR 0xBF then CHR ''s'' # fold_long_s s else a # fold_long_s (b # s))"
| "fold_long_s s = s"

definition is_loopback_host :: "net_env \<Rightarrow> string \<Rightarrow> bool" where
  "is_loopback_host env host =
     (let trimmed = trim_suffix host ''.'' in
      if fold_long_s (to_lower trimmed) = ''localhost'' then True
      else case parse_ip env trimmed of Some a \<Rightarrow> ip_is_loopback a | None \<Rightarrow> False)"

definition resolve_webhook_host :: "net_env \<Rightarrow> string \<Rightarrow> ip list option" where
  "resolve_webhook_host env host =
     (case parse_ip env (trim_suffix host ''.'') of
        Some a \<Rightarrow> Some [a]
      | None \<Rightarrow>
          (case lookup_ip env host of
             None \<Rightarrow> None
           | Some ips \<Rightarrow> if ips = [] then None else Some ips))"

definition normal_host :: "url \<Rightarrow> string" where
  "normal_host u = trim_suffix (to_lower (url_hostname u)) ''.''"

definition validate_webhook_url :: "net_env \<Rightarrow> string \<Rightarrow> ssrf_err + unit" where
  "validate_webhook_url env raw =
     (let trimmed = trim_space raw in
      if trimmed = [] then Inl EmptyUrl
      else case url_parse env trimmed of
        None \<Rightarrow> Inl (UnparseableUrl trimmed)
      | Some u \<Rightarrow>
          if url_scheme u \<noteq> ''http'' \<and> url_scheme u \<noteq> ''https'' then Inl (BadScheme (url_scheme u))
          else if url_has_user u then Inl UserinfoNotAllowed
          else let host = normal_host u in
            if host = [] then Inl EmptyHost
            else case resolve_webhook_host env host of
              None \<Rightarrow> Inl (CannotResolve host)
            | Some ips \<Rightarrow>
                if list_ex is_webhook_always_blocked ips then Inl (BlockedAddress host)
                else if is_loopback_host env host \<or> all_loopback ips then Inr ()
                else if list_ex is_webhook_blocked_ip ips then Inl (NonPublicAddress host)
                else Inr ())"

text \<open>
  \<^verbatim>\<open>isResolveError\<close> looks for a phrase in the error text. Quoting keeps letters and spaces, so the
  phrase is also found when the quoted URL, scheme or host contains it.
\<close>

fun contains_text :: "string \<Rightarrow> string \<Rightarrow> bool" where
  "contains_text sub [] = (sub = [])"
| "contains_text sub (c # cs) = (strip_prefix sub (c # cs) \<noteq> None \<or> contains_text sub cs)"

definition resolve_phrase :: string where
  "resolve_phrase = ''cannot resolve host''"

fun is_resolve_error :: "ssrf_err \<Rightarrow> bool" where
  "is_resolve_error (CannotResolve host) = True"
| "is_resolve_error (UnparseableUrl quoted) = contains_text resolve_phrase quoted"
| "is_resolve_error (BadScheme quoted) = contains_text resolve_phrase quoted"
| "is_resolve_error (BlockedAddress quoted) = contains_text resolve_phrase quoted"
| "is_resolve_error (NonPublicAddress quoted) = contains_text resolve_phrase quoted"
| "is_resolve_error _ = False"

text \<open>
  \<^verbatim>\<open>pinnedDialer\<close>: the host of the dialled authority is resolved once, checked, and the first
  address of that very resolution is dialled. The result is the dialled address.
\<close>

datatype dial_err = DialCannotResolve | DialBlockedAddress | DialNonPublicAddress

definition pinned_dialer :: "net_env \<Rightarrow> string \<Rightarrow> dial_err + ip" where
  "pinned_dialer env host =
     (let trimmed = trim_suffix (to_lower host) ''.'';
          ips = (case parse_ip env trimmed of
                   Some a \<Rightarrow> Some [a]
                 | None \<Rightarrow> (case lookup_ip env trimmed of
                              None \<Rightarrow> None
                            | Some l \<Rightarrow> if l = [] then None else Some l))
      in case ips of
           None \<Rightarrow> Inl DialCannotResolve
         | Some l \<Rightarrow>
             if list_ex is_webhook_always_blocked l then Inl DialBlockedAddress
             else if \<not> is_loopback_host env trimmed \<and> \<not> all_loopback l
                     \<and> list_ex is_webhook_blocked_ip l then Inl DialNonPublicAddress
             else Inr (hd l))"

definition max_webhook_redirects :: nat where
  "max_webhook_redirects = 3"

datatype redirect_err = TooManyRedirects | RedirectRejected ssrf_err

definition check_webhook_redirect :: "net_env \<Rightarrow> string \<Rightarrow> nat \<Rightarrow> redirect_err + unit" where
  "check_webhook_redirect env target via =
     (if via \<ge> max_webhook_redirects then Inl TooManyRedirects
      else case validate_webhook_url env target of
        Inl e \<Rightarrow> Inl (RedirectRejected e)
      | Inr _ \<Rightarrow> Inr ())"

section \<open>What the gate lets through\<close>

lemma resolve_nonempty: "resolve_webhook_host env host = Some ips \<Longrightarrow> ips \<noteq> []"
  by (auto simp: resolve_webhook_host_def split: option.splits if_splits)

lemma validate_webhook_url_ok:
  assumes "validate_webhook_url env raw = Inr ()"
  obtains u ips where "url_parse env (trim_space raw) = Some u"
    "url_scheme u = ''http'' \<or> url_scheme u = ''https''" "\<not> url_has_user u" "normal_host u \<noteq> []"
    "resolve_webhook_host env (normal_host u) = Some ips"
    "\<forall>a \<in> set ips. \<not> is_webhook_always_blocked a"
    "is_loopback_host env (normal_host u) \<or> all_loopback ips
       \<or> (\<forall>a \<in> set ips. \<not> is_webhook_blocked_ip a)"
  using assms
  by (auto simp: validate_webhook_url_def Let_def list_ex_iff
        split: if_splits option.splits)

lemma pinned_dialer_ok:
  assumes "pinned_dialer env host = Inr a"
  shows "\<not> is_webhook_always_blocked a"
    and "is_loopback_host env (trim_suffix (to_lower host) ''.'') \<or> ip_is_loopback a
           \<or> \<not> is_webhook_blocked_ip a"
  using assms
  by (auto simp: pinned_dialer_def Let_def list_ex_iff list_all_iff all_loopback_def
        split: if_splits option.splits)

lemma metadata_always_blocked:
  "is_webhook_always_blocked (ipv4 169 254 169 254)"
  "is_webhook_always_blocked (ipv4 100 100 100 200)"
  by (simp_all add: is_webhook_always_blocked_def metadata_ipv4_def)

text \<open>The refused ranges, on the 4-byte form.\<close>

lemma blocked_ranges:
  "drop_bit 24 v = 10 \<Longrightarrow> is_webhook_blocked_ip (of_ip4 v)"
  "drop_bit 20 v = 0xAC1 \<Longrightarrow> is_webhook_blocked_ip (of_ip4 v)"
  "drop_bit 16 v = 0xC0A8 \<Longrightarrow> is_webhook_blocked_ip (of_ip4 v)"
  "drop_bit 24 v = 127 \<Longrightarrow> is_webhook_blocked_ip (of_ip4 v)"
  "drop_bit 22 v = 0x191 \<Longrightarrow> is_webhook_blocked_ip (of_ip4 v)"
  "drop_bit 16 v = 0xA9FE \<Longrightarrow> is_webhook_always_blocked (of_ip4 v)"
  by (simp_all add: is_webhook_blocked_ip_def ip_is_private_def ip_is_loopback_def
      in_carrier_grade_nat_def net4_contains_def is_webhook_always_blocked_def
      in_link_local_nets_def)

section \<open>Properties\<close>

text \<open>
  Whatever the dialer lets through is no metadata or link-local address, and is a private,
  loopback or carrier-grade address only when the host is a loopback name or the address itself
  is a loopback one.
\<close>

theorem dialled_address_is_safe:
  assumes "pinned_dialer env host = Inr (of_ip4 v)"
  shows "drop_bit 16 v \<noteq> 0xA9FE \<and> of_ip4 v \<notin> set metadata_ipv4
     \<and> (drop_bit 24 v = 10 \<or> drop_bit 20 v = 0xAC1 \<or> drop_bit 16 v = 0xC0A8 \<or> drop_bit 22 v = 0x191
        \<longrightarrow> is_loopback_host env (trim_suffix (to_lower host) ''.''))"
proof -
  have no_private_loopback: "\<not> ip_is_loopback (of_ip4 v)"
    if "drop_bit 24 v = 10 \<or> drop_bit 20 v = 0xAC1 \<or> drop_bit 16 v = 0xC0A8 \<or> drop_bit 22 v = 0x191"
  proof -
    have parts: "drop_bit 24 v = drop_bit 4 (drop_bit 20 v)" "drop_bit 24 v = drop_bit 8 (drop_bit 16 v)"
      "drop_bit 24 v = drop_bit 2 (drop_bit 22 v)"
      by (simp_all add: drop_bit_drop_bit)
    have "drop_bit 4 (0xAC1 :: 32 word) \<noteq> 127" "drop_bit 8 (0xC0A8 :: 32 word) \<noteq> 127"
      "drop_bit 2 (0x191 :: 32 word) \<noteq> 127" "(10 :: 32 word) \<noteq> 127"
      by simp_all
    with that have "drop_bit 24 v \<noteq> 127" using parts by metis
    then show ?thesis by (simp add: ip_is_loopback_def)
  qed
  then have inner: "is_loopback_host env (trim_suffix (to_lower host) ''.'')"
    if "drop_bit 24 v = 10 \<or> drop_bit 20 v = 0xAC1 \<or> drop_bit 16 v = 0xC0A8 \<or> drop_bit 22 v = 0x191"
    using pinned_dialer_ok(2) [OF assms] blocked_ranges(1-3,5) [of v] that by metis
  have "drop_bit 16 v \<noteq> 0xA9FE"
    using pinned_dialer_ok(1) [OF assms] blocked_ranges(6) [of v] by metis
  moreover have "of_ip4 v \<notin> set metadata_ipv4"
    using pinned_dialer_ok(1) [OF assms] unfolding is_webhook_always_blocked_def by metis
  ultimately show ?thesis using inner by metis
qed

definition sample_env :: net_env where
  "sample_env = \<lparr>url_parse = (\<lambda>s. Some \<lparr>url_scheme = ''https'', url_has_user = False, url_hostname = s\<rparr>),
     parse_ip = (\<lambda>_. None), lookup_ip = (\<lambda>_. Some [of_ip4 0x08080808])\<rparr>"

lemma public_sample:
  "\<not> is_webhook_always_blocked (of_ip4 0x08080808)" "\<not> is_webhook_blocked_ip (of_ip4 0x08080808)"
  by (simp_all add: is_webhook_always_blocked_def metadata_ipv4_def ipv4_def in_link_local_nets_def
      net4_contains_def net6_contains_def is_webhook_blocked_ip_def ip_is_unspecified_def
      ipv6_unspecified_def ip_is_loopback_def ip_is_link_local_unicast_def
      ip_is_link_local_multicast_def ip_is_multicast_def ip_is_private_def in_carrier_grade_nat_def)

theorem dialled_address_is_safe_witness:
  "of_ip4 0x08080808 \<notin> set metadata_ipv4 \<and> pinned_dialer sample_env ''example.org'' = Inr (of_ip4 0x08080808)"
proof -
  have "pinned_dialer sample_env ''example.org'' = Inr (of_ip4 0x08080808)"
    by (simp add: pinned_dialer_def sample_env_def public_sample)
  with dialled_address_is_safe [OF this] show ?thesis by simp
qed

end
