(* ===== verification/WebhookConfig.thy ===== *)
theory WebhookConfig
  imports Ssrf Model
begin

text \<open>
  The webhook configuration: validation and canonical order of the subscribed events
  (\<^verbatim>\<open>internal/webhook/webhook.go\<close>), the delivery gate (\<^verbatim>\<open>internal/webhook/gate.go\<close>) and the
  process-local store of the API key plaintexts (\<^verbatim>\<open>internal/webhook/keycache.go\<close>).
\<close>

section \<open>Validation\<close>

definition canonical_events :: "string list" where
  "canonical_events = [''message'', ''receipt'', ''connection'', ''message.status'']"

definition canonical_set :: "string \<Rightarrow> bool" where
  "canonical_set e \<longleftrightarrow>
     e = ''message'' \<or> e = ''receipt'' \<or> e = ''connection'' \<or> e = ''message.status''"

definition default_events :: "string list" where
  "default_events = canonical_events"

text \<open>Every value wraps \<^verbatim>\<open>ErrInvalid\<close>; the constructors say which check refused.\<close>

datatype webhook_invalid =
    MalformedUrl | UserinfoRefused | NoHost | HttpNotLoopback | SchemeRefused
  | GateRefused ssrf_err | UnknownEvent string

definition validate_url :: "net_env \<Rightarrow> string \<Rightarrow> webhook_invalid + string option" where
  "validate_url env raw =
     (if raw = [] then Inr None
      else case url_parse env raw of
        None \<Rightarrow> Inl MalformedUrl
      | Some u \<Rightarrow>
          if url_has_user u then Inl UserinfoRefused
          else
            let scheme = to_lower (url_scheme u); host = url_hostname u;
                gate = (case validate_webhook_url env raw of
                          Inl e \<Rightarrow> if is_resolve_error e then Inr (Some raw) else Inl (GateRefused e)
                        | Inr _ \<Rightarrow> Inr (Some raw))
            in if scheme = ''http'' then
                 (if host = [] then Inl NoHost
                  else if is_loopback_host env host then gate
                  else case resolve_webhook_host env (trim_suffix (to_lower host) ''.'') of
                         None \<Rightarrow> Inl HttpNotLoopback
                       | Some ips \<Rightarrow> if all_loopback ips then gate else Inl HttpNotLoopback)
               else if scheme = ''https'' then
                 (if host = [] then Inl NoHost else gate)
               else Inl SchemeRefused)"

fun validate_events_loop :: "string list \<Rightarrow> string list \<Rightarrow> webhook_invalid + string list" where
  "validate_events_loop present [] = Inr present"
| "validate_events_loop present (e # es) =
     (if \<not> canonical_set e then Inl (UnknownEvent e)
      else validate_events_loop (List.insert e present) es)"

definition validate_events :: "string list \<Rightarrow> webhook_invalid + string list" where
  "validate_events events =
     (case validate_events_loop [] events of
        Inl e \<Rightarrow> Inl e
      | Inr present \<Rightarrow> Inr (filter (\<lambda>e. e \<in> set present) canonical_events))"

definition validate_config ::
    "net_env \<Rightarrow> string \<Rightarrow> string list option \<Rightarrow> webhook_invalid + string option \<times> string list" where
  "validate_config env raw events =
     (case validate_url env raw of
        Inl e \<Rightarrow> Inl e
      | Inr u \<Rightarrow>
          (case events of
             None \<Rightarrow> Inr (u, default_events)
           | Some es \<Rightarrow>
               (case validate_events es of Inl e \<Rightarrow> Inl e | Inr n \<Rightarrow> Inr (u, n))))"

section \<open>The gate\<close>

record webhook_config =
  wc_url :: string
  wc_enabled :: bool
  wc_events :: "string list"

fun subscribed :: "string list \<Rightarrow> string \<Rightarrow> bool" where
  "subscribed [] t = False"
| "subscribed (e # es) t = (if e = t then True else subscribed es t)"

definition should_deliver :: "webhook_config \<Rightarrow> string \<Rightarrow> bool" where
  "should_deliver cfg t =
     (if \<not> wc_enabled cfg then False
      else if wc_url cfg = [] then False
      else subscribed (wc_events cfg) t)"

lemma subscribed_iff [simp]: "subscribed es t \<longleftrightarrow> t \<in> set es"
  by (induction es) auto

lemma should_deliver_iff:
  "should_deliver cfg t \<longleftrightarrow> wc_enabled cfg \<and> wc_url cfg \<noteq> [] \<and> t \<in> set (wc_events cfg)"
  by (simp add: should_deliver_def)

section \<open>The key cache\<close>

type_synonym key_cache = "uuid \<Rightarrow> string option"

definition new_key_cache :: key_cache where
  "new_key_cache = (\<lambda>_. None)"

definition cache_store :: "uuid \<Rightarrow> string \<Rightarrow> key_cache \<Rightarrow> key_cache" where
  "cache_store i key c = c(i \<mapsto> key)"

definition cache_get :: "uuid \<Rightarrow> key_cache \<Rightarrow> string option" where
  "cache_get i c = c i"

definition cache_clear :: "uuid \<Rightarrow> key_cache \<Rightarrow> key_cache" where
  "cache_clear i c = c(i := None)"

text \<open>
  What the HTTP handlers and the delivery worker rely on: a lookup sees the last store or clear
  of its id and no other id is touched.
\<close>

locale key_store =
  fixes store :: "'i \<Rightarrow> 'v \<Rightarrow> 's \<Rightarrow> 's"
    and get :: "'i \<Rightarrow> 's \<Rightarrow> 'v option"
    and clear :: "'i \<Rightarrow> 's \<Rightarrow> 's"
  assumes get_store: "get i (store j v s) = (if i = j then Some v else get i s)"
    and get_clear: "get i (clear j s) = (if i = j then None else get i s)"
begin

definition covers :: "('i \<Rightarrow> 'v \<Rightarrow> bool) \<Rightarrow> 's \<Rightarrow> bool" where
  "covers R s \<longleftrightarrow> (\<forall>i v. get i s = Some v \<longrightarrow> R i v)"

lemma coversD: "covers R s \<Longrightarrow> get i s = Some v \<Longrightarrow> R i v"
  by (simp add: covers_def)

lemma covers_store:
  assumes "covers R s" "\<And>i v. i \<noteq> j \<Longrightarrow> R i v \<Longrightarrow> R' i v" "R' j w"
  shows "covers R' (store j w s)"
  using assms by (auto simp: covers_def get_store)

lemma covers_clear:
  assumes "covers R s" "\<And>i v. i \<noteq> j \<Longrightarrow> R i v \<Longrightarrow> R' i v"
  shows "covers R' (clear j s)"
  using assms by (auto simp: covers_def get_clear)

lemma covers_mono:
  assumes "covers R s" "\<And>i v. R i v \<Longrightarrow> R' i v"
  shows "covers R' s"
  using assms by (auto simp: covers_def)

end

interpretation kc: key_store cache_store cache_get cache_clear
  by unfold_locales (auto simp: cache_store_def cache_get_def cache_clear_def)

section \<open>Validation lemmas\<close>

lemma canonical_set_iff [simp]: "canonical_set e \<longleftrightarrow> e \<in> set canonical_events"
  by (auto simp: canonical_set_def canonical_events_def)

lemma canonical_events_distinct [simp]: "distinct canonical_events"
  by (simp add: canonical_events_def)

lemma validate_events_loop_ok:
  "validate_events_loop p es = Inr q \<longleftrightarrow>
     set es \<subseteq> set canonical_events \<and> q = fold List.insert es p"
  by (induction es arbitrary: p) auto

lemma fold_insert_set: "set (fold List.insert es p) = set es \<union> set p"
  by (induction es arbitrary: p) auto

lemma validate_events_loop_err:
  "validate_events_loop p es = Inl x \<Longrightarrow> \<exists>e \<in> set es. e \<notin> set canonical_events \<and> x = UnknownEvent e"
  by (induction es arbitrary: p) (auto split: if_splits)

lemma validate_events_ok:
  "validate_events es = Inr r \<longleftrightarrow>
     set es \<subseteq> set canonical_events \<and> r = filter (\<lambda>e. e \<in> set es) canonical_events"
proof (cases "validate_events_loop [] es")
  case (Inl x)
  then show ?thesis
    using validate_events_loop_err [OF Inl] by (auto simp: validate_events_def)
next
  case (Inr q)
  then have "set es \<subseteq> set canonical_events" "set q = set es"
    by (auto simp: validate_events_loop_ok fold_insert_set)
  then show ?thesis using Inr by (auto simp: validate_events_def)
qed

text \<open>
  A URL the configuration stores is empty, https, or http with a loopback destination, and the
  outbound gate passed it or refused it with an error that reads like a failed resolution.
\<close>

lemma validate_url_stored:
  assumes "validate_url env raw = Inr (Some stored)"
  shows "stored = raw" "raw \<noteq> []"
    and "\<exists>u. url_parse env raw = Some u \<and> \<not> url_has_user u \<and> url_hostname u \<noteq> []
           \<and> (to_lower (url_scheme u) = ''https'' \<or>
              (to_lower (url_scheme u) = ''http'' \<and>
               (is_loopback_host env (url_hostname u) \<or>
                (\<exists>ips. resolve_webhook_host env (trim_suffix (to_lower (url_hostname u)) ''.'') = Some ips
                      \<and> all_loopback ips))))"
    and "validate_webhook_url env raw = Inr () \<or> (\<exists>e. validate_webhook_url env raw = Inl e \<and> is_resolve_error e)"
  using assms
  by (auto simp: validate_url_def Let_def split: if_splits option.splits sum.splits)

section \<open>Properties\<close>

text \<open>
  Validation of the subscribed events answers an error exactly for a list with an unknown type;
  otherwise it answers the same set, without duplicates and in the canonical order, and
  normalizing again changes nothing.
\<close>

theorem validate_events_normalizes:
  "case validate_events es of
     Inl e \<Rightarrow> (\<exists>x \<in> set es. x \<notin> set canonical_events \<and> e = UnknownEvent x)
   | Inr r \<Rightarrow> set r = set es \<and> subseq r canonical_events \<and> distinct r \<and> validate_events r = Inr r"
proof (cases "validate_events es")
  case (Inl e)
  then obtain x where "validate_events_loop [] es = Inl x" "e = x"
    by (auto simp: validate_events_def split: sum.splits)
  then show ?thesis using Inl validate_events_loop_err by fastforce
next
  case (Inr r)
  then have r: "set es \<subseteq> set canonical_events" "r = filter (\<lambda>e. e \<in> set es) canonical_events"
    by (simp_all add: validate_events_ok)
  then have "set r = set es" by auto
  moreover have "validate_events r = Inr r"
    unfolding validate_events_ok using r by (auto intro!: filter_cong)
  ultimately show ?thesis using r Inr by simp
qed

text \<open>
  The phrase test has a hole: the zone of an IPv6 literal may contain spaces, and a link-local
  destination whose zone spells the phrase is stored although the gate refused it. Delivery validates
  again and does not fail open.
\<close>

definition zone_host :: string where
  "zone_host = ''fe80::1%cannot resolve host''"

definition zone_env :: net_env where
  "zone_env = \<lparr>url_parse = (\<lambda>s. Some \<lparr>url_scheme = ''https'', url_has_user = False, url_hostname = zone_host\<rparr>),
     parse_ip = (\<lambda>_. None), lookup_ip = (\<lambda>_. Some [push_bit 112 0xFE80 OR 1])\<rparr>"

lemma link_local_zone_is_stored:
  "validate_webhook_url zone_env ''u'' = Inl (BlockedAddress zone_host)"
  "validate_url zone_env ''u'' = Inr (Some ''u'')"
  "pinned_dialer zone_env zone_host = Inl DialBlockedAddress"
proof -
  have blocked: "is_webhook_always_blocked (push_bit 112 0xFE80 OR 1)"
    by (simp add: is_webhook_always_blocked_def in_link_local_nets_def net6_contains_def to4_def mask_eq_exp_minus_1)
  have trim: "trim_space ''u'' = ''u''" "trim_suffix (to_lower zone_host) ''.'' = zone_host" "zone_host \<noteq> []"
    by code_simp+
  show gate: "validate_webhook_url zone_env ''u'' = Inl (BlockedAddress zone_host)"
    using blocked trim by (simp add: validate_webhook_url_def zone_env_def normal_host_def resolve_webhook_host_def)
  have "is_resolve_error (BlockedAddress zone_host)" by code_simp
  then show "validate_url zone_env ''u'' = Inr (Some ''u'')"
    using gate trim(3) by (simp add: validate_url_def Let_def) (simp add: zone_env_def to_lower_def lower_char_def)
  show "pinned_dialer zone_env zone_host = Inl DialBlockedAddress"
    using blocked trim by (simp add: pinned_dialer_def zone_env_def)
qed

text \<open>
  A redirect is held to the gate only: plain http to a public host, which the configuration refuses,
  is followed. And \<open>via\<close> holds the requests made so far, the first included, so of the three hops the
  constant announces two are followed.
\<close>

definition plain_http_env :: net_env where
  "plain_http_env = \<lparr>url_parse = (\<lambda>s. Some \<lparr>url_scheme = ''http'', url_has_user = False, url_hostname = ''example.org''\<rparr>),
     parse_ip = (\<lambda>_. None), lookup_ip = (\<lambda>_. Some [of_ip4 0x08080808])\<rparr>"

lemma redirect_follows_plain_http:
  "validate_url plain_http_env ''u'' = Inl HttpNotLoopback"
  "check_webhook_redirect plain_http_env ''u'' 1 = Inr ()"
proof -
  have trim: "trim_space ''u'' = ''u''" "trim_suffix (to_lower ''example.org'') ''.'' = ''example.org''"
    "fold_long_s (to_lower (trim_suffix ''example.org'' ''.'')) \<noteq> ''localhost''" "to_lower ''http'' = ''http''"
    by code_simp+
  have lb: "\<not> ip_is_loopback (of_ip4 0x08080808)" by (simp add: ip_is_loopback_def)
  show "validate_url plain_http_env ''u'' = Inl HttpNotLoopback"
    using trim lb by (simp add: validate_url_def Let_def plain_http_env_def is_loopback_host_def
        resolve_webhook_host_def all_loopback_def)
  show "check_webhook_redirect plain_http_env ''u'' 1 = Inr ()"
    using trim lb public_sample
    by (simp add: check_webhook_redirect_def max_webhook_redirects_def validate_webhook_url_def
        plain_http_env_def normal_host_def resolve_webhook_host_def Let_def)
qed

lemma redirects_followed: "check_webhook_redirect env target via = Inr () \<Longrightarrow> via \<le> 2"
  by (auto simp: check_webhook_redirect_def max_webhook_redirects_def split: if_splits)

end
