(* ===== verification/StoreInstances.thy ===== *)
theory StoreInstances
  imports StoreUsers WebhookConfig
begin

text \<open>
  The instances table: \<^verbatim>\<open>internal/storage/postgres/instances.go\<close> and the key hashes of
  \<^verbatim>\<open>internal/storage/postgres/apikeys.go\<close>. The cursor of a page is parsed and printed by the uuid
  library (\<open>parse_id\<close>, \<open>show_id\<close>).
\<close>

definition map_instance_error :: "storage_err \<Rightarrow> string \<Rightarrow> storage_err" where
  "map_instance_error e constraint_name =
     (if e = SDriver ''23505'' \<and> constraint_name = ''instances_external_ref_key''
      then SExternalRefTaken else e)"

definition webhook_url_param :: "string option \<Rightarrow> string option" where
  "webhook_url_param u = (case u of None \<Rightarrow> None | Some s \<Rightarrow> nullif_empty s)"

definition webhook_events_param :: "string list option \<Rightarrow> string list" where
  "webhook_events_param es = (case es of None \<Rightarrow> default_events | Some l \<Rightarrow> l)"

definition ref_taken :: "string \<Rightarrow> uuid \<Rightarrow> db \<Rightarrow> bool" where
  "ref_taken ref i d \<longleftrightarrow>
     ref \<noteq> [] \<and> (\<exists>r \<in> set (t_instances d). ir_id r \<noteq> i \<and> ir_external_ref r = Some ref)"

definition instance_row_of :: "db \<Rightarrow> wa_instance \<Rightarrow> instance_row" where
  "instance_row_of d i =
     \<lparr>ir_id = inst_id i, ir_name = inst_name i, ir_external_ref = nullif_empty (inst_external_ref i),
      ir_status = (if inst_status i = [] then ''disconnected'' else inst_status i),
      ir_jid = nullif_empty (inst_jid i), ir_last_connected = inst_last_connected i,
      ir_last_error = nullif_empty (inst_last_error i), ir_owner = inst_owner i,
      ir_api_key_hash = None, ir_webhook_url = webhook_url_param (inst_webhook_url i),
      ir_webhook_enabled = inst_webhook_enabled i,
      ir_webhook_events = webhook_events_param (inst_webhook_events i),
      ir_created = pg_now d, ir_updated = pg_now d\<rparr>"

definition instances_create :: "wa_instance \<Rightarrow> db \<Rightarrow> wa_instance result \<times> db" where
  [store_simps]: "instances_create i = pg_run (\<lambda>d.
     if inst_id i \<in> ir_id ` set (t_instances d)
     then (Inl (map_instance_error (SDriver ''23505'') ''instances_pkey''), d)
     else if ref_taken (inst_external_ref i) (inst_id i) d
     then (Inl (map_instance_error (SDriver ''23505'') ''instances_external_ref_key''), d)
     else if (case inst_owner i of None \<Rightarrow> False | Some u \<Rightarrow> u \<notin> ur_id ` set (t_users d))
     then (Inl (map_instance_error (SDriver ''23503'') ''instances_owner_user_id_fkey''), d)
     else (let row = instance_row_of d i
           in (Inr (scan_instance row), d\<lparr>t_instances := t_instances d @ [row]\<rparr>)))"

definition instances_get :: "uuid \<Rightarrow> db \<Rightarrow> wa_instance result \<times> db" where
  [store_simps]: "instances_get i = pg_run (\<lambda>d.
     (case row_by ir_id i (t_instances d) of
        None \<Rightarrow> Inl SNotFound | Some r \<Rightarrow> Inr (scan_instance r), d))"

definition instances_get_by_ref :: "string \<Rightarrow> db \<Rightarrow> wa_instance result \<times> db" where
  [store_simps]: "instances_get_by_ref ref = pg_run (\<lambda>d.
     (case find (\<lambda>r. ir_external_ref r = Some ref) (t_instances d) of
        None \<Rightarrow> Inl SNotFound | Some r \<Rightarrow> Inr (scan_instance r), d))"

definition instances_list ::
    "(string \<Rightarrow> uuid option) \<Rightarrow> (uuid \<Rightarrow> string) \<Rightarrow> int \<Rightarrow> string \<Rightarrow> db
      \<Rightarrow> (wa_instance list \<times> string) result \<times> db" where
  "instances_list parse_id show_id limit cursor d =
     (if limit \<le> 0 then (Inr ([], []), d)
      else if cursor \<noteq> [] \<and> parse_id cursor = None then (Inl SInvalidCursor, d)
      else pg_run (\<lambda>d.
        (let rows = (if cursor = [] then t_instances d
                     else rows_before ir_created ir_id (t_instances d)
                            (the (parse_id cursor)) (t_instances d));
             page = page_of show_id ir_id (nat limit) (desc_rows ir_created ir_id rows)
         in (Inr (map scan_instance (fst page), snd page), d))) d)"

definition instances_update :: "wa_instance \<Rightarrow> db \<Rightarrow> wa_instance result \<times> db" where
  [store_simps]: "instances_update i = pg_run (\<lambda>d.
     (case row_by ir_id (inst_id i) (t_instances d) of
        None \<Rightarrow> (Inl SNotFound, d)
      | Some old \<Rightarrow>
          if ref_taken (inst_external_ref i) (inst_id i) d
          then (Inl (map_instance_error (SDriver ''23505'') ''instances_external_ref_key''), d)
          else
            (let f = (\<lambda>r. r\<lparr>ir_name := inst_name i,
                       ir_external_ref := nullif_empty (inst_external_ref i),
                       ir_status := (if inst_status i = [] then ir_status r else inst_status i),
                       ir_jid := nullif_empty (inst_jid i),
                       ir_last_connected := inst_last_connected i,
                       ir_last_error := nullif_empty (inst_last_error i),
                       ir_webhook_url := webhook_url_param (inst_webhook_url i),
                       ir_webhook_enabled := inst_webhook_enabled i,
                       ir_webhook_events := webhook_events_param (inst_webhook_events i),
                       ir_updated := pg_now d\<rparr>)
             in (Inr (scan_instance (f old)),
                 d\<lparr>t_instances := update_where (\<lambda>r. ir_id r = inst_id i) f (t_instances d)\<rparr>))))"

text \<open>The UPDATE statements that touch one instance and answer the number of rows.\<close>

definition exec_instance :: "uuid \<Rightarrow> (instant \<Rightarrow> instance_row \<Rightarrow> instance_row) \<Rightarrow> db \<Rightarrow> unit result \<times> db" where
  "exec_instance i f = pg_run (\<lambda>d.
     if i \<notin> ir_id ` set (t_instances d) then (Inl SNotFound, d)
     else (Inr (), d\<lparr>t_instances := update_where (\<lambda>r. ir_id r = i) (f (pg_now d)) (t_instances d)\<rparr>))"

definition instances_set_connection :: "uuid \<Rightarrow> string \<Rightarrow> string \<Rightarrow> db \<Rightarrow> unit result \<times> db" where
  [store_simps]: "instances_set_connection i status jid =
     exec_instance i (\<lambda>now r. r\<lparr>ir_status := status, ir_jid := nullif_empty jid, ir_updated := now\<rparr>)"

definition instances_set_connection_state ::
    "uuid \<Rightarrow> string \<Rightarrow> string \<Rightarrow> string \<Rightarrow> instant option \<Rightarrow> db \<Rightarrow> unit result \<times> db" where
  [store_simps]: "instances_set_connection_state i status jid last_err connected_at =
     exec_instance i (\<lambda>now r. r\<lparr>ir_status := status,
       ir_jid := coalesce (nullif_empty jid) (ir_jid r),
       ir_last_error := nullif_empty last_err,
       ir_last_connected := coalesce connected_at (ir_last_connected r),
       ir_updated := now\<rparr>)"

definition instances_backfill_owner :: "uuid \<Rightarrow> db \<Rightarrow> nat result \<times> db" where
  [store_simps]: "instances_backfill_owner owner = pg_run (\<lambda>d.
     let legacy = filter (\<lambda>r. ir_owner r = None) (t_instances d) in
     if legacy \<noteq> [] \<and> owner \<notin> ur_id ` set (t_users d) then (Inl (SDriver ''23503''), d)
     else (Inr (length legacy),
           d\<lparr>t_instances := update_where (\<lambda>r. ir_owner r = None)
              (\<lambda>r. r\<lparr>ir_owner := Some owner, ir_updated := pg_now d\<rparr>) (t_instances d)\<rparr>))"

text \<open>The dependent rows go with the instance (ON DELETE CASCADE).\<close>

definition cascade_instance :: "uuid \<Rightarrow> db \<Rightarrow> db" where
  "cascade_instance i d =
     d\<lparr>t_instances := filter (\<lambda>r. ir_id r \<noteq> i) (t_instances d),
       t_messages := filter (\<lambda>r. mr_instance r \<noteq> i) (t_messages d),
       t_idem := filter (\<lambda>r. kr_instance r \<noteq> i) (t_idem d),
       t_media := filter (\<lambda>r. dr_instance r \<noteq> i) (t_media d)\<rparr>"

definition instances_delete :: "uuid \<Rightarrow> db \<Rightarrow> unit result \<times> db" where
  [store_simps]: "instances_delete i = pg_run (\<lambda>d.
     if i \<notin> ir_id ` set (t_instances d) then (Inl SNotFound, d)
     else (Inr (), cascade_instance i d))"

section \<open>Key hashes and counts\<close>

definition keys_set_hash :: "uuid \<Rightarrow> string \<Rightarrow> db \<Rightarrow> unit result \<times> db" where
  [store_simps]: "keys_set_hash i hash =
     exec_instance i (\<lambda>now r. r\<lparr>ir_api_key_hash := Some hash, ir_updated := now\<rparr>)"

definition keys_instance_by_hash :: "string \<Rightarrow> db \<Rightarrow> uuid result \<times> db" where
  [store_simps]: "keys_instance_by_hash hash = pg_run (\<lambda>d.
     (case find (\<lambda>r. ir_api_key_hash r = Some hash) (t_instances d) of
        None \<Rightarrow> Inl SNotFound | Some r \<Rightarrow> Inr (ir_id r), d))"

definition keys_clear_hash :: "uuid \<Rightarrow> db \<Rightarrow> unit result \<times> db" where
  [store_simps]: "keys_clear_hash i =
     exec_instance i (\<lambda>now r. r\<lparr>ir_api_key_hash := None, ir_updated := now\<rparr>)"

definition owned_by :: "uuid \<Rightarrow> db \<Rightarrow> nat" where
  "owned_by owner d = length (filter (\<lambda>r. ir_owner r = Some owner) (t_instances d))"

definition keys_count_by_owner :: "uuid \<Rightarrow> db \<Rightarrow> nat result \<times> db" where
  [store_simps]: "keys_count_by_owner owner = pg_run (\<lambda>d. (Inr (owned_by owner d), d))"

definition keys_count_all :: "db \<Rightarrow> nat result \<times> db" where
  [store_simps]: "keys_count_all = pg_run (\<lambda>d. (Inr (length (t_instances d)), d))"

section \<open>Outcomes\<close>

text \<open>What a caller knows from the answer of a statement.\<close>

lemma users_get_same: "users_get_by_id i d = (r, d') \<Longrightarrow> same_tables d d'"
  using pg_run_same [of d] by (metis (no_types, lifting) same_tables_refl snd_conv users_get_by_id_def)

lemma instances_get_same: "instances_get i d = (r, d') \<Longrightarrow> same_tables d d'"
  using pg_run_same [of d] by (metis (no_types, lifting) same_tables_refl snd_conv instances_get_def)

lemma instances_get_ok:
  assumes "instances_get i d = (Inr x, d')"
  obtains r where "same_tables d d'" "row_by ir_id i (t_instances d) = Some r" "x = scan_instance r"
proof -
  from assms obtain e where e: "same_tables d e"
    "(case row_by ir_id i (t_instances e) of None \<Rightarrow> Inl SNotFound | Some r \<Rightarrow> Inr (scan_instance r), e) = (Inr x, d')"
    unfolding instances_get_def by (rule pg_run_Inr)
  with that show thesis by (auto simp: same_tables_fields [OF e(1)] split: option.splits)
qed

lemma instances_create_ok:
  assumes "instances_create i d = (Inr c, d')"
  obtains e where "same_tables d e" "inst_id i \<notin> ir_id ` set (t_instances d)"
    "c = scan_instance (instance_row_of e i)"
    "d' = e\<lparr>t_instances := t_instances d @ [instance_row_of e i]\<rparr>"
proof -
  from assms obtain e where e: "same_tables d e" and
    b: "(if inst_id i \<in> ir_id ` set (t_instances e)
     then (Inl (map_instance_error (SDriver ''23505'') ''instances_pkey''), e)
     else if ref_taken (inst_external_ref i) (inst_id i) e
     then (Inl (map_instance_error (SDriver ''23505'') ''instances_external_ref_key''), e)
     else if (case inst_owner i of None \<Rightarrow> False | Some u \<Rightarrow> u \<notin> ur_id ` set (t_users e))
     then (Inl (map_instance_error (SDriver ''23503'') ''instances_owner_user_id_fkey''), e)
     else (let row = instance_row_of e i
           in (Inr (scan_instance row), e\<lparr>t_instances := t_instances e @ [row]\<rparr>))) = (Inr c, d')"
    unfolding instances_create_def by (rule pg_run_Inr)
  from b that [OF e] show thesis
    by (auto simp: Let_def same_tables_fields [OF e] split: if_splits)
qed

lemma instances_create_err: "instances_create i d = (Inl x, d') \<Longrightarrow> same_tables d d'"
  unfolding instances_create_def
  by (erule pg_run_Inl_same) (auto simp: Let_def split: if_splits)

definition updated_row :: "instant \<Rightarrow> wa_instance \<Rightarrow> instance_row \<Rightarrow> instance_row" where
  "updated_row now i r = r\<lparr>ir_name := inst_name i,
     ir_external_ref := nullif_empty (inst_external_ref i),
     ir_status := (if inst_status i = [] then ir_status r else inst_status i),
     ir_jid := nullif_empty (inst_jid i),
     ir_last_connected := inst_last_connected i,
     ir_last_error := nullif_empty (inst_last_error i),
     ir_webhook_url := webhook_url_param (inst_webhook_url i),
     ir_webhook_enabled := inst_webhook_enabled i,
     ir_webhook_events := webhook_events_param (inst_webhook_events i),
     ir_updated := now\<rparr>"

lemma instances_update_ok:
  assumes "instances_update i d = (Inr x, d')"
  obtains e where "same_tables d e"
    "d' = e\<lparr>t_instances := update_where (\<lambda>r. ir_id r = inst_id i) (updated_row (pg_now d) i) (t_instances d)\<rparr>"
proof -
  from assms obtain e where e: "same_tables d e" and
    b: "(case row_by ir_id (inst_id i) (t_instances e) of
        None \<Rightarrow> (Inl SNotFound, e)
      | Some old \<Rightarrow>
          if ref_taken (inst_external_ref i) (inst_id i) e
          then (Inl (map_instance_error (SDriver ''23505'') ''instances_external_ref_key''), e)
          else
            (let f = updated_row (pg_now e) i
             in (Inr (scan_instance (f old)),
                 e\<lparr>t_instances := update_where (\<lambda>r. ir_id r = inst_id i) f (t_instances e)\<rparr>))) = (Inr x, d')"
    unfolding instances_update_def updated_row_def [abs_def] by (rule pg_run_Inr)
  from b that [OF e] show thesis
    by (auto simp: Let_def same_tables_fields [OF e] split: option.splits if_splits)
qed

lemma instances_update_err: "instances_update i d = (Inl x, d') \<Longrightarrow> same_tables d d'"
  unfolding instances_update_def
  by (erule pg_run_Inl_same) (auto simp: Let_def split: option.splits if_splits)

lemma exec_instance_ok:
  assumes "exec_instance i f d = (Inr (), d')"
  obtains e where "same_tables d e" "i \<in> ir_id ` set (t_instances d)"
    "d' = e\<lparr>t_instances := update_where (\<lambda>r. ir_id r = i) (f (pg_now d)) (t_instances d)\<rparr>"
proof -
  from assms obtain e where e: "same_tables d e" and
    b: "(if i \<notin> ir_id ` set (t_instances e) then (Inl SNotFound, e)
     else (Inr (), e\<lparr>t_instances := update_where (\<lambda>r. ir_id r = i) (f (pg_now e)) (t_instances e)\<rparr>)) = (Inr (), d')"
    unfolding exec_instance_def by (rule pg_run_Inr)
  from b that [OF e] show thesis by (auto simp: same_tables_fields [OF e] split: if_splits)
qed

lemma exec_instance_err: "exec_instance i f d = (Inl x, d') \<Longrightarrow> same_tables d d'"
  unfolding exec_instance_def by (erule pg_run_Inl_same) (auto split: if_splits)

lemma instances_delete_ok:
  assumes "instances_delete i d = (Inr (), d')"
  obtains e where "same_tables d e" "i \<in> ir_id ` set (t_instances d)" "d' = cascade_instance i e"
proof -
  from assms obtain e where e: "same_tables d e" and
    b: "(if i \<notin> ir_id ` set (t_instances e) then (Inl SNotFound, e)
         else (Inr (), cascade_instance i e)) = (Inr (), d')"
    unfolding instances_delete_def by (rule pg_run_Inr)
  from b that [OF e] show thesis by (auto simp: same_tables_fields [OF e] split: if_splits)
qed

lemma instances_delete_err: "instances_delete i d = (Inl x, d') \<Longrightarrow> same_tables d d'"
  unfolding instances_delete_def by (erule pg_run_Inl_same) (auto split: if_splits)

lemma same_tables_iff:
  "same_tables d e \<longleftrightarrow> t_users e = t_users d \<and> t_instances e = t_instances d
     \<and> t_messages e = t_messages d \<and> t_idem e = t_idem d \<and> t_contacts e = t_contacts d
     \<and> t_media e = t_media d \<and> t_events e = t_events d \<and> pg_now e = pg_now d
     \<and> pg_lower e = pg_lower d \<and> pg_jsonb e = pg_jsonb d"
  using same_tables_fields [of d e] by (auto simp: same_tables_def)

end
