(* ===== verification/StoreMessages.thy ===== *)
theory StoreMessages
  imports StoreInstances
begin

text \<open>
  The outbound queue, \<^verbatim>\<open>internal/storage/postgres/messages.go\<close>. \<open>messages_claim_queued\<close> is the
  transaction of \<^verbatim>\<open>ClaimQueued\<close>: select and lock, update, put the returned rows back in the order
  of the selection, commit. The rows other transactions hold are an argument (SKIP LOCKED).
\<close>

definition map_message_error :: "storage_err \<Rightarrow> storage_err" where
  "map_message_error e = (if e = SDriver ''23503'' then SNotFound else e)"

definition message_row_of :: "db \<Rightarrow> outbound_message \<Rightarrow> message_row" where
  "message_row_of d m =
     \<lparr>mr_id = om_id m, mr_instance = om_instance m, mr_recipient = om_recipient m,
      mr_type = om_type m, mr_payload = om_payload m,
      mr_status = (if om_status m = [] then ''queued'' else om_status m),
      mr_retries = 0, mr_last_error = None, mr_whatsapp_id = nullif_empty (om_whatsapp_id m),
      mr_delivered_at = None, mr_read_at = None, mr_media = om_media m,
      mr_next_attempt = None, mr_created = pg_now d, mr_updated = pg_now d\<rparr>"

definition messages_create :: "outbound_message \<Rightarrow> db \<Rightarrow> outbound_message result \<times> db" where
  [store_simps]: "messages_create m = pg_run (\<lambda>d.
     if om_id m \<in> mr_id ` set (t_messages d)
     then (Inl (map_message_error (SDriver ''23505'')), d)
     else if om_instance m \<notin> ir_id ` set (t_instances d)
     then (Inl (map_message_error (SDriver ''23503'')), d)
     else (let row = message_row_of d m
           in (Inr (scan_message row), d\<lparr>t_messages := t_messages d @ [row]\<rparr>)))"

definition messages_get :: "uuid \<Rightarrow> db \<Rightarrow> outbound_message result \<times> db" where
  [store_simps]: "messages_get i = pg_run (\<lambda>d.
     (case row_by mr_id i (t_messages d) of
        None \<Rightarrow> Inl SNotFound | Some r \<Rightarrow> Inr (scan_message r), d))"

definition messages_list ::
    "(string \<Rightarrow> uuid option) \<Rightarrow> (uuid \<Rightarrow> string) \<Rightarrow> uuid \<Rightarrow> int \<Rightarrow> string \<Rightarrow> db
      \<Rightarrow> (outbound_message list \<times> string) result \<times> db" where
  "messages_list parse_id show_id inst limit cursor d =
     (if limit \<le> 0 then (Inr ([], []), d)
      else if cursor \<noteq> [] \<and> parse_id cursor = None then (Inl SInvalidCursor, d)
      else pg_run (\<lambda>d.
        (let mine = filter (\<lambda>r. mr_instance r = inst) (t_messages d);
             rows = (if cursor = [] then mine
                     else rows_before mr_created mr_id (t_messages d) (the (parse_id cursor)) mine);
             page = page_of show_id mr_id (nat limit) (desc_rows mr_created mr_id rows)
         in (Inr (map scan_message (fst page), snd page), d))) d)"

definition due :: "db \<Rightarrow> message_row \<Rightarrow> bool" where
  "due d r \<longleftrightarrow> mr_status r = ''queued''
     \<and> (case mr_next_attempt r of None \<Rightarrow> True | Some t \<Rightarrow> t \<le> pg_now d)"

definition claim_select :: "(uuid \<Rightarrow> bool) \<Rightarrow> int \<Rightarrow> db \<Rightarrow> message_row list" where
  "claim_select locked limit d =
     take (nat limit) (filter (\<lambda>r. \<not> locked (mr_id r))
       (sort_key mr_created (filter (due d) (t_messages d))))"

definition claim_mark :: "uuid list \<Rightarrow> db \<Rightarrow> db" where
  "claim_mark ids d =
     d\<lparr>t_messages := update_where (\<lambda>r. mr_id r \<in> set ids)
        (\<lambda>r. r\<lparr>mr_status := ''sending'', mr_updated := pg_now d\<rparr>) (t_messages d)\<rparr>"

fun claim_collect :: "(uuid \<Rightarrow> message_row option) \<Rightarrow> uuid list \<Rightarrow> outbound_message list result" where
  "claim_collect returned [] = Inr []"
| "claim_collect returned (i # ids) =
     (case returned i of
        None \<Rightarrow> Inl (SDriver [])
      | Some r \<Rightarrow>
          (case claim_collect returned ids of
             Inl e \<Rightarrow> Inl e | Inr ms \<Rightarrow> Inr (scan_message r # ms)))"

definition messages_claim_queued ::
    "(uuid \<Rightarrow> bool) \<Rightarrow> int \<Rightarrow> db \<Rightarrow> outbound_message list result \<times> db" where
  "messages_claim_queued locked limit d =
     (if limit \<le> 0 then (Inr [], d)
      else pg_run (pg_run (\<lambda>d. let ids = map mr_id (claim_select locked limit d) in
        if ids = [] then pg_run (\<lambda>d. (Inr [], d)) d
        else pg_run (\<lambda>d.
          let returned = filter (\<lambda>r. mr_id r \<in> set ids) (t_messages (claim_mark ids d))
          in case claim_collect (\<lambda>i. row_by mr_id i returned) ids of
               Inl e \<Rightarrow> (Inl e, d)
             | Inr claimed \<Rightarrow> pg_run (\<lambda>d. (Inr claimed, claim_mark ids d)) d) d)) d)"

definition exec_message :: "uuid \<Rightarrow> (instant \<Rightarrow> message_row \<Rightarrow> message_row) \<Rightarrow> db \<Rightarrow> unit result \<times> db" where
  "exec_message i f = pg_run (\<lambda>d.
     if i \<notin> mr_id ` set (t_messages d) then (Inl SNotFound, d)
     else (Inr (), d\<lparr>t_messages := update_where (\<lambda>r. mr_id r = i) (f (pg_now d)) (t_messages d)\<rparr>))"

definition messages_mark_sent :: "uuid \<Rightarrow> string \<Rightarrow> db \<Rightarrow> unit result \<times> db" where
  [store_simps]: "messages_mark_sent i wa =
     exec_message i (\<lambda>now r. r\<lparr>mr_status := ''sent'', mr_whatsapp_id := nullif_empty wa,
       mr_last_error := None, mr_updated := now\<rparr>)"

definition messages_mark_failed :: "uuid \<Rightarrow> string \<Rightarrow> db \<Rightarrow> unit result \<times> db" where
  [store_simps]: "messages_mark_failed i msg =
     exec_message i (\<lambda>now r. r\<lparr>mr_status := ''failed'', mr_last_error := nullif_empty msg,
       mr_updated := now\<rparr>)"

definition messages_mark_retrying :: "uuid \<Rightarrow> string \<Rightarrow> instant \<Rightarrow> db \<Rightarrow> unit result \<times> db" where
  [store_simps]: "messages_mark_retrying i msg next =
     exec_message i (\<lambda>now r. r\<lparr>mr_status := ''queued'', mr_retries := mr_retries r + 1,
       mr_last_error := nullif_empty msg, mr_next_attempt := Some next, mr_updated := now\<rparr>)"

definition messages_update_receipt :: "string \<Rightarrow> string \<Rightarrow> instant \<Rightarrow> db \<Rightarrow> bool result \<times> db" where
  [store_simps]: "messages_update_receipt wa status stamp = pg_run (\<lambda>d.
     let hit = (\<lambda>r. mr_whatsapp_id r = Some wa \<and> status \<in> {''delivered'', ''read'', ''played''}) in
     (Inr (\<exists>r \<in> set (t_messages d). hit r),
      d\<lparr>t_messages := update_where hit
          (\<lambda>r. r\<lparr>mr_delivered_at := coalesce (mr_delivered_at r) (Some stamp),
                mr_read_at := (if status \<in> {''read'', ''played''}
                               then coalesce (mr_read_at r) (Some stamp) else mr_read_at r),
                mr_updated := pg_now d\<rparr>) (t_messages d)\<rparr>))"

definition messages_requeue_stuck :: "instant \<Rightarrow> db \<Rightarrow> nat result \<times> db" where
  [store_simps]: "messages_requeue_stuck older_than = pg_run (\<lambda>d.
     let stuck = (\<lambda>r. mr_status r = ''sending'' \<and> mr_updated r < older_than) in
     (Inr (length (filter stuck (t_messages d))),
      d\<lparr>t_messages := update_where stuck
          (\<lambda>r. r\<lparr>mr_status := ''queued'', mr_updated := pg_now d\<rparr>) (t_messages d)\<rparr>))"

section \<open>What a claim returns\<close>

lemma claim_select_rows:
  "set (claim_select locked limit d) \<subseteq> set (t_messages d)"
  "r \<in> set (claim_select locked limit d) \<Longrightarrow> due d r \<and> \<not> locked (mr_id r)"
  "length (claim_select locked limit d) \<le> nat limit"
  by (auto simp: claim_select_def dest!: in_set_takeD)

lemma claim_select_sorted: "sorted (map mr_created (claim_select locked limit d))"
  by (simp add: claim_select_def take_map [symmetric] sorted_wrt_take sorted_filter)

lemma claim_collect_ok:
  "(\<And>i. i \<in> set ids \<Longrightarrow> \<exists>r. returned i = Some r) \<Longrightarrow>
   claim_collect returned ids = Inr (map (\<lambda>i. scan_message (the (returned i))) ids)"
proof (induction ids)
  case (Cons i ids)
  then obtain r where "returned i = Some r" by fastforce
  with Cons show ?case by simp
qed simp

definition sending_at :: "db \<Rightarrow> message_row \<Rightarrow> message_row" where
  "sending_at d r = r\<lparr>mr_status := ''sending'', mr_updated := pg_now d\<rparr>"

lemma claim_returned:
  assumes "keyed mr_id (t_messages d)" "set sel \<subseteq> set (t_messages d)"
    and "ids = map mr_id sel"
  shows "claim_collect (\<lambda>i. row_by mr_id i (filter (\<lambda>r. mr_id r \<in> set ids) (t_messages (claim_mark ids d)))) ids
         = Inr (map (\<lambda>r. scan_message (sending_at d r)) sel)"
proof -
  let ?m = "t_messages (claim_mark ids d)"
  have k: "keyed mr_id ?m" using assms(1) by (simp add: claim_mark_def)
  have row: "row_by mr_id (mr_id r) (filter (\<lambda>r. mr_id r \<in> set ids) ?m) = Some (sending_at d r)"
    if "r \<in> set sel" for r
  proof -
    have "row_by mr_id (mr_id r) (t_messages d) = Some r"
      using assms(1,2) that by (auto intro: row_by_keyed)
    then have "row_by mr_id (mr_id r) ?m = Some (sending_at d r)"
      using that assms(3) by (simp add: claim_mark_def row_by_update sending_at_def)
    then show ?thesis
      unfolding row_by_filter [OF k] using that assms(3) by (simp add: sending_at_def)
  qed
  have "claim_collect (\<lambda>i. row_by mr_id i (filter (\<lambda>r. mr_id r \<in> set ids) ?m)) ids =
        Inr (map (\<lambda>i. scan_message (the (row_by mr_id i (filter (\<lambda>r. mr_id r \<in> set ids) ?m)))) ids)"
    by (rule claim_collect_ok) (use row assms(3) in auto)
  also have "\<dots> = Inr (map (\<lambda>r. scan_message (sending_at d r)) sel)"
    unfolding assms(3) map_map using row unfolding assms(3) by (simp cong: map_cong)
  finally show ?thesis .
qed

text \<open>
  The outcome of a claim: an error and unchanged tables, or the selected rows, which are the ones
  marked as sending.
\<close>

definition claim_done :: "(uuid \<Rightarrow> bool) \<Rightarrow> int \<Rightarrow> db \<Rightarrow> outbound_message list result \<Rightarrow> db \<Rightarrow> bool" where
  "claim_done locked limit d res d' \<longleftrightarrow>
     (\<exists>e. res = Inl e \<and> same_tables d d') \<or>
     (\<exists>s. same_tables d s
        \<and> res = Inr (map (\<lambda>r. scan_message (sending_at d r)) (claim_select locked limit d))
        \<and> d' = claim_mark (map mr_id (claim_select locked limit d)) s)"

lemma claim_done_err: "same_tables d e \<Longrightarrow> claim_done locked limit d (Inl x) e"
  by (auto simp: claim_done_def)

lemma claim_mark_Nil [simp]: "claim_mark [] d = d"
  by (simp add: claim_mark_def update_where_none)

lemma claim_same:
  assumes "same_tables d e"
  shows "claim_select locked limit e = claim_select locked limit d"
    and "sending_at e = sending_at d"
proof -
  have "due e = due d"
    by (auto simp: due_def fun_eq_iff same_tables_fields [OF assms] split: option.split)
  then show "claim_select locked limit e = claim_select locked limit d"
    using assms by (simp add: claim_select_def same_tables_fields [OF assms])
  show "sending_at e = sending_at d"
    using assms by (simp add: sending_at_def [abs_def] same_tables_fields [OF assms])
qed

lemma claim_done_ok:
  assumes "same_tables d e" "ids = map mr_id (claim_select locked limit d)"
    and "claimed = map (\<lambda>r. scan_message (sending_at d r)) (claim_select locked limit d)"
  shows "claim_done locked limit d (Inr claimed) (claim_mark ids e)"
  using assms by (auto simp: claim_done_def)

lemma claim_outcome:
  assumes k: "keyed mr_id (t_messages d)" and c: "messages_claim_queued locked limit d = (res, d')"
  shows "claim_done locked limit d res d'"
proof (cases "limit \<le> 0")
  case True
  then have "res = Inr []" "d' = d" using c by (simp_all add: messages_claim_queued_def)
  moreover have "claim_select locked limit d = []" using True by (simp add: claim_select_def)
  ultimately show ?thesis by (auto simp: claim_done_def intro: exI [of _ d])
next
  case False
  let ?sel = "claim_select locked limit d"
  let ?ids = "map mr_id ?sel"
  have collect: "claim_collect (\<lambda>i. row_by mr_id i (filter (\<lambda>r. mr_id r \<in> set ?ids)
        (t_messages (claim_mark ?ids e)))) ?ids = Inr (map (\<lambda>r. scan_message (sending_at d r)) ?sel)"
    if "same_tables d e" for e
    using claim_returned [of e ?sel ?ids] k claim_select_rows(1) [of locked limit d] that
    by (simp add: same_tables_fields claim_same)
  show ?thesis
    using c unfolding messages_claim_queued_def if_not_P [OF False]
  proof (rule pg_run_inv, goal_cases)
    case (1 e1) then show ?case by (rule claim_done_err)
  next
    case (2 e1 r1 f1)
    from 2(2) show ?case
    proof (rule pg_run_inv, goal_cases)
      case (1 e2) then show ?case using 2(1) by (blast intro: claim_done_err same_tables_trans)
    next
      case (2 e2 r2 f2)
      have s: "same_tables d e2" using 2(1) \<open>same_tables d e1\<close> by (rule same_tables_trans [rotated])
      show ?case
      proof (cases "?ids = []")
        case True
        then have "pg_run (\<lambda>d. (Inr [], d)) e2 = (r2, f2)" using 2(2) s by (simp add: claim_same)
        then show ?thesis
          by (rule pg_run_inv)
             (use s True in \<open>auto simp: claim_done_def intro: same_tables_trans\<close>)
      next
        case False
        from 2(2) False show ?thesis
          unfolding claim_same(1) [OF s] Let_def if_not_P [OF False]
        proof (elim pg_run_inv, goal_cases)
          case (1 e3) then show ?case using s by (blast intro: claim_done_err same_tables_trans)
        next
          case (2 e3 r3 f3)
          note e3 = 2
          have s3: "same_tables d e3" using s e3(2) by (rule same_tables_trans)
          from e3(3) show ?case
            unfolding collect [OF s3] sum.case
          proof (rule pg_run_inv, goal_cases)
            case (1 e4) then show ?case using s3 by (blast intro: claim_done_err same_tables_trans)
          next
            case (2 e4 r4 f4)
            then have "r4 = Inr (map (\<lambda>r. scan_message (sending_at d r)) ?sel)" "f4 = claim_mark ?ids e4"
              by auto
            moreover have "same_tables d e4" using s3 2(1) by (rule same_tables_trans)
            ultimately show ?case by (simp add: claim_done_ok)
          qed
        qed
      qed
    qed
  qed
qed

lemma claim_select_distinct: "keyed mr_id (t_messages d) \<Longrightarrow> distinct (map mr_id (claim_select locked limit d))"
proof -
  assume k: "keyed mr_id (t_messages d)"
  then have "distinct (map mr_id (filter (due d) (t_messages d)))"
    by (simp add: keyed_def distinct_map_filter)
  then have "distinct (map mr_id (sort_key mr_created (filter (due d) (t_messages d))))"
    by (simp add: distinct_map)
  then have "distinct (map mr_id (filter (\<lambda>r. \<not> locked (mr_id r))
      (sort_key mr_created (filter (due d) (t_messages d)))))"
    by (rule distinct_map_filter)
  then show ?thesis
    unfolding claim_select_def by (simp only: take_map [symmetric] distinct_take)
qed

lemma claim_select_all:
  assumes "int (length (claim_select locked limit d)) < limit" "r \<in> set (t_messages d)"
    "due d r" "\<not> locked (mr_id r)"
  shows "mr_id r \<in> mr_id ` set (claim_select locked limit d)"
proof -
  let ?all = "filter (\<lambda>r. \<not> locked (mr_id r)) (sort_key mr_created (filter (due d) (t_messages d)))"
  have "claim_select locked limit d = ?all"
    using assms(1) by (simp add: claim_select_def)
  then show ?thesis using assms(2-4) by auto
qed

lemma claim_ids:
  assumes "keyed mr_id (t_messages d)" "messages_claim_queued locked limit d = (Inr ms, d')" "i \<in> om_id ` set ms"
  shows "\<exists>r \<in> set (t_messages d). mr_id r = i \<and> due d r \<and> \<not> locked i"
  using claim_outcome [OF assms(1,2)] assms(3) claim_select_rows(1) [of locked limit d]
    claim_select_rows(2) [where locked = locked and limit = limit and d = d]
  by (fastforce simp: claim_done_def sending_at_def)

section \<open>Properties\<close>

text \<open>
  C5: a claim returns at most \<open>limit\<close> messages, oldest first, each due and not locked by another
  transaction, and marks exactly these as sending. A claim that returned fewer left no due and
  unlocked message behind, and a later claim, like a concurrent one that skips the rows this one
  holds, returns none of them.
\<close>

theorem claim_is_exclusive:
  assumes "keyed mr_id (t_messages d)" "messages_claim_queued locked limit d = (Inr ms, d')"
  shows "length ms \<le> nat limit \<and> sorted (map om_created ms) \<and> distinct (map om_id ms)
     \<and> (\<forall>m \<in> set ms. \<exists>r \<in> set (t_messages d). mr_id r = om_id m \<and> due d r \<and> \<not> locked (mr_id r))
     \<and> t_messages d' = update_where (\<lambda>r. mr_id r \<in> om_id ` set ms) (sending_at d) (t_messages d)
     \<and> (int (length ms) < limit \<longrightarrow>
          (\<forall>r \<in> set (t_messages d). due d r \<and> \<not> locked (mr_id r) \<longrightarrow> mr_id r \<in> om_id ` set ms))
     \<and> (\<forall>locked' limit' ms' d''. messages_claim_queued locked' limit' d' = (Inr ms', d'') \<longrightarrow>
          om_id ` set ms \<inter> om_id ` set ms' = {})
     \<and> (\<forall>limit' ms' d''. messages_claim_queued (\<lambda>i. i \<in> om_id ` set ms) limit' d = (Inr ms', d'') \<longrightarrow>
          om_id ` set ms \<inter> om_id ` set ms' = {})"
proof -
  let ?sel = "claim_select locked limit d"
  obtain s where s: "same_tables d s" "d' = claim_mark (map mr_id ?sel) s"
    and ms: "ms = map (\<lambda>r. scan_message (sending_at d r)) ?sel"
    using claim_outcome [OF assms] by (auto simp: claim_done_def)
  have ids: "om_id ` set ms = mr_id ` set ?sel" "map om_id ms = map mr_id ?sel"
    by (auto simp: ms sending_at_def image_image)
  have created: "map om_created ms = map mr_created ?sel"
    by (simp add: ms scan_message_def sending_at_def)
  have "distinct (map mr_id ?sel)" using assms(1) by (rule claim_select_distinct)
  moreover have upd: "t_messages d' = update_where (\<lambda>r. mr_id r \<in> om_id ` set ms) (sending_at d) (t_messages d)"
    by (simp add: s(2) claim_mark_def ids(1) same_tables_fields [OF s(1)] sending_at_def [abs_def])
  moreover have "mr_id r \<in> mr_id ` set ?sel"
    if "int (length ms) < limit" "r \<in> set (t_messages d)" "due d r" "\<not> locked (mr_id r)" for r
    using claim_select_all [of locked limit d r] that by (simp add: ms)
  moreover have "mr_id ` set ?sel \<inter> om_id ` set ms' = {}"
    if "messages_claim_queued locked' limit' d' = (Inr ms', d'')" for locked' limit' ms' d''
  proof -
    have k: "keyed mr_id (t_messages d')" using assms(1) by (simp add: upd sending_at_def)
    have "\<not> due d' r" if "r \<in> set (t_messages d')" "mr_id r \<in> mr_id ` set ?sel" for r
      using that by (auto simp: upd ids(1) set_update_where due_def sending_at_def split: if_splits)
    then show ?thesis using claim_ids [OF k that] by fastforce
  qed
  moreover have "mr_id ` set ?sel \<inter> om_id ` set ms' = {}"
    if "messages_claim_queued (\<lambda>i. i \<in> om_id ` set ms) limit' d = (Inr ms', d'')" for limit' ms' d''
    using claim_ids [OF assms(1) that] by (fastforce simp: ids(1))
  moreover have "\<exists>r \<in> set (t_messages d). mr_id r = om_id m \<and> due d r \<and> \<not> locked (mr_id r)"
    if "m \<in> set ms" for m
    using claim_ids [OF assms imageI [OF that]] by auto
  ultimately show ?thesis
    using claim_select_rows(1,3) [of locked limit d]
      claim_select_sorted [of locked limit d]
    unfolding ids created by (simp add: ms)
qed

theorem claim_is_exclusive_witness:
  "\<exists>m d'. messages_claim_queued (\<lambda>_. False) 10 sample_db = (Inr [m], d') \<and> om_id m = 5
     \<and> t_messages d' = update_where (\<lambda>r. mr_id r \<in> {5}) (sending_at sample_db) (t_messages sample_db)"
proof -
  have k: "keyed mr_id (t_messages sample_db)" by (simp add: sample_defs keyed_def)
  have run: "messages_claim_queued (\<lambda>_. False) 10 sample_db =
      (Inr [scan_message (sample_message\<lparr>mr_status := ''sending''\<rparr>)], claim_mark [5] sample_db)"
    by (simp add: messages_claim_queued_def sample_defs claim_select_def due_def claim_mark_def
        update_where_def Let_def)
  show ?thesis
    using claim_is_exclusive [OF k run] run by (auto simp: sample_message_def)
qed

end
