(* ===== verification/StoreEvents.thy ===== *)
theory StoreEvents
  imports StoreMessages
begin

text \<open>
  The event outbox, \<^verbatim>\<open>internal/storage/postgres/events.go\<close>: events wait in the table until the
  relay publishes them. A claim reads rows without changing them; the rows other transactions
  hold are an argument (SKIP LOCKED).
\<close>

definition event_row_of :: "db \<Rightarrow> uuid \<Rightarrow> string \<Rightarrow> string \<Rightarrow> event_row" where
  "event_row_of d i subject envelope =
     \<lparr>er_id = i, er_subject = subject, er_envelope = envelope, er_attempts = 0,
      er_last_error = None, er_created = pg_now d, er_published = None\<rparr>"

definition events_enqueue :: "uuid \<Rightarrow> string \<Rightarrow> string \<Rightarrow> db \<Rightarrow> unit result \<times> db" where
  [store_simps]: "events_enqueue i subject envelope = pg_run (\<lambda>d.
     case pg_jsonb d envelope of
       None \<Rightarrow> (Inl (SDriver ''22P02''), d)
     | Some stored \<Rightarrow>
         if i \<in> er_id ` set (t_events d) then (Inl (SDriver ''23505''), d)
         else (Inr (), d\<lparr>t_events := t_events d @ [event_row_of d i subject stored]\<rparr>))"

definition pending :: "event_row \<Rightarrow> bool" where
  "pending r \<longleftrightarrow> er_published r = None"

definition pending_select :: "(uuid \<Rightarrow> bool) \<Rightarrow> int \<Rightarrow> db \<Rightarrow> event_row list" where
  "pending_select locked limit d =
     take (nat limit) (filter (\<lambda>r. \<not> locked (er_id r))
       (sort_key (\<lambda>r. (er_created r, er_id r)) (filter pending (t_events d))))"

definition events_claim_pending ::
    "(uuid \<Rightarrow> bool) \<Rightarrow> int \<Rightarrow> db \<Rightarrow> outbox_event list result \<times> db" where
  "events_claim_pending locked limit d =
     (if limit \<le> 0 then (Inr [], d)
      else pg_run (pg_run (\<lambda>d. let events = map scan_event (pending_select locked limit d) in
        pg_run (\<lambda>d. (Inr events, d)) d)) d)"

definition exec_event :: "uuid \<Rightarrow> (instant \<Rightarrow> event_row \<Rightarrow> event_row) \<Rightarrow> db \<Rightarrow> unit result \<times> db" where
  "exec_event i f = pg_run (\<lambda>d.
     if i \<notin> er_id ` set (t_events d) then (Inl SNotFound, d)
     else (Inr (), d\<lparr>t_events := update_where (\<lambda>r. er_id r = i) (f (pg_now d)) (t_events d)\<rparr>))"

definition events_mark_published :: "uuid \<Rightarrow> db \<Rightarrow> unit result \<times> db" where
  [store_simps]: "events_mark_published i =
     exec_event i (\<lambda>now r. r\<lparr>er_published := Some now, er_last_error := None\<rparr>)"

definition events_mark_attempt :: "uuid \<Rightarrow> string \<Rightarrow> db \<Rightarrow> unit result \<times> db" where
  [store_simps]: "events_mark_attempt i msg =
     exec_event i (\<lambda>now r. r\<lparr>er_attempts := er_attempts r + 1, er_last_error := nullif_empty msg\<rparr>)"

definition published_before :: "instant \<Rightarrow> event_row \<Rightarrow> bool" where
  "published_before t r \<longleftrightarrow> (case er_published r of None \<Rightarrow> False | Some p \<Rightarrow> p < t)"

definition events_delete_published_before :: "instant \<Rightarrow> db \<Rightarrow> nat result \<times> db" where
  [store_simps]: "events_delete_published_before t = pg_run (\<lambda>d.
     (Inr (length (filter (published_before t) (t_events d))),
      d\<lparr>t_events := filter (\<lambda>r. \<not> published_before t r) (t_events d)\<rparr>))"

section \<open>Claims\<close>

lemma pending_select_rows:
  "r \<in> set (pending_select locked limit d) \<Longrightarrow> r \<in> set (t_events d) \<and> pending r \<and> \<not> locked (er_id r)"
  by (auto simp: pending_select_def dest!: in_set_takeD)

lemma pending_select_same:
  "same_tables d e \<Longrightarrow> pending_select locked limit e = pending_select locked limit d"
  using same_tables_fields [of d e] by (simp add: pending_select_def)

lemma events_claim_outcome:
  assumes "events_claim_pending locked limit d = (res, d')"
  shows "same_tables d d' \<and>
         ((\<exists>e. res = Inl e) \<or> res = Inr (map scan_event (pending_select locked limit d)))"
    (is "?R res d'")
proof (cases "limit \<le> 0")
  case True
  then show ?thesis using assms by (simp add: events_claim_pending_def pending_select_def)
next
  case False
  show ?thesis
    using assms unfolding events_claim_pending_def if_not_P [OF False]
  proof (rule pg_run_inv, goal_cases)
    case (2 e1 r1 f1)
    note s1 = 2
    from s1(2) show ?case
    proof (rule pg_run_inv, goal_cases)
      case (1 e2) then show ?case using s1(1) by (auto intro: same_tables_trans)
    next
      case (2 e2 r2 f2)
      have s: "same_tables d e2" using s1(1) 2(1) by (rule same_tables_trans)
      from 2(2) show ?case
        unfolding Let_def pending_select_same [OF s]
        by (rule pg_run_inv) (use s in \<open>auto intro: same_tables_trans\<close>)
    qed
  qed auto
qed

end
