(* ===== verification/StoreIdempotency.thy ===== *)
theory StoreIdempotency
  imports StoreEvents
begin

text \<open>
  The idempotency keys, \<^verbatim>\<open>internal/storage/postgres/idempotency.go\<close>. \<^verbatim>\<open>Acquire\<close> is three
  statements, each its own transaction: drop the expired key, insert unless present, read the
  stored record. Between two of them other requests may run; \<open>acquire_drop\<close>, \<open>acquire_insert\<close> and
  \<open>acquire_read\<close> are the steps and \<open>idem_acquire\<close> is their sequence.
\<close>

definition map_idempotency_error :: "storage_err \<Rightarrow> storage_err" where
  "map_idempotency_error e = (if e = SDriver ''23503'' then SNotFound else e)"

definition is_key :: "uuid \<Rightarrow> string \<Rightarrow> idem_row \<Rightarrow> bool" where
  "is_key inst key r \<longleftrightarrow> kr_instance r = inst \<and> kr_key r = key"

definition idem_of :: "uuid \<Rightarrow> string \<Rightarrow> db \<Rightarrow> idem_row option" where
  "idem_of inst key d = find (is_key inst key) (t_idem d)"

definition acquire_drop :: "uuid \<Rightarrow> string \<Rightarrow> db \<Rightarrow> unit result \<times> db" where
  "acquire_drop inst key = pg_run (\<lambda>d.
     (Inr (), d\<lparr>t_idem := filter (\<lambda>r. \<not> (is_key inst key r \<and> kr_expires r < pg_now d)) (t_idem d)\<rparr>))"

definition fresh_key :: "uuid \<Rightarrow> string \<Rightarrow> string \<Rightarrow> instant \<Rightarrow> instant \<Rightarrow> idem_row" where
  "fresh_key inst key fingerprint expires now =
     \<lparr>kr_instance = inst, kr_key = key, kr_hash = fingerprint, kr_status = ''in_progress'',
      kr_response_status = None, kr_response_body = None, kr_created = now, kr_expires = expires\<rparr>"

text \<open>ON CONFLICT DO NOTHING answers no row, here None.\<close>

definition acquire_insert ::
    "uuid \<Rightarrow> string \<Rightarrow> string \<Rightarrow> instant \<Rightarrow> db \<Rightarrow> idempotency_record option result \<times> db" where
  "acquire_insert inst key fingerprint expires = pg_run (\<lambda>d.
     case idem_of inst key d of
       Some _ \<Rightarrow> (Inr None, d)
     | None \<Rightarrow>
         if inst \<notin> ir_id ` set (t_instances d) then (Inl (SDriver ''23503''), d)
         else (let row = fresh_key inst key fingerprint expires (pg_now d)
               in (Inr (Some (scan_idem row)), d\<lparr>t_idem := t_idem d @ [row]\<rparr>)))"

definition acquire_read :: "uuid \<Rightarrow> string \<Rightarrow> db \<Rightarrow> idempotency_record result \<times> db" where
  "acquire_read inst key = pg_run (\<lambda>d.
     (case idem_of inst key d of None \<Rightarrow> Inl SNotFound | Some r \<Rightarrow> Inr (scan_idem r), d))"

definition acquire_verdict ::
    "string \<Rightarrow> idempotency_record \<Rightarrow> (idempotency_record \<times> bool) result" where
  "acquire_verdict fingerprint existing =
     (if ik_fingerprint existing \<noteq> fingerprint then Inl SFingerprintMismatch
      else if ik_status existing \<noteq> ''completed'' then Inl SInProgress
      else Inr (existing, False))"

definition idem_acquire ::
    "uuid \<Rightarrow> string \<Rightarrow> string \<Rightarrow> instant \<Rightarrow> db \<Rightarrow> (idempotency_record \<times> bool) result \<times> db" where
  "idem_acquire inst key fingerprint expires d =
     (case acquire_drop inst key d of
        (Inl e, d) \<Rightarrow> (Inl e, d)
      | (Inr _, d) \<Rightarrow>
          (case acquire_insert inst key fingerprint expires d of
             (Inl e, d) \<Rightarrow> (Inl (map_idempotency_error e), d)
           | (Inr (Some rec), d) \<Rightarrow> (Inr (rec, True), d)
           | (Inr None, d) \<Rightarrow>
               (case acquire_read inst key d of
                  (Inl e, d) \<Rightarrow> (Inl (map_idempotency_error e), d)
                | (Inr existing, d) \<Rightarrow> (acquire_verdict fingerprint existing, d))))"

text \<open>The jsonb column refuses a body that is no JSON; a nil body is stored as NULL.\<close>

definition idem_complete :: "uuid \<Rightarrow> string \<Rightarrow> int \<Rightarrow> string option \<Rightarrow> db \<Rightarrow> unit result \<times> db" where
  [store_simps]: "idem_complete inst key status body = pg_run (\<lambda>d.
     let stored = (case body of None \<Rightarrow> Some None | Some b \<Rightarrow> map_option Some (pg_jsonb d b)) in
     case stored of
       None \<Rightarrow> (Inl (SDriver ''22P02''), d)
     | Some body' \<Rightarrow>
         if idem_of inst key d = None then (Inl SNotFound, d)
         else (Inr (), d\<lparr>t_idem := update_where (is_key inst key)
                (\<lambda>r. r\<lparr>kr_status := ''completed'', kr_response_status := Some status,
                      kr_response_body := body'\<rparr>) (t_idem d)\<rparr>))"

definition idem_release :: "uuid \<Rightarrow> string \<Rightarrow> db \<Rightarrow> unit result \<times> db" where
  [store_simps]: "idem_release inst key = pg_run (\<lambda>d.
     (Inr (), d\<lparr>t_idem := filter (\<lambda>r. \<not> is_key inst key r) (t_idem d)\<rparr>))"

definition idem_delete_expired :: "db \<Rightarrow> nat result \<times> db" where
  [store_simps]: "idem_delete_expired = pg_run (\<lambda>d.
     let gone = (\<lambda>r. kr_expires r < pg_now d) in
     (Inr (length (filter gone (t_idem d))), d\<lparr>t_idem := filter (\<lambda>r. \<not> gone r) (t_idem d)\<rparr>))"

section \<open>Lookups after the operations\<close>

lemma find_filter_not [simp]: "find P (filter (\<lambda>r. \<not> P r) rows) = None"
  by (simp add: find_None_iff)

lemma find_append: "find P (xs @ ys) = (case find P xs of None \<Rightarrow> find P ys | Some r \<Rightarrow> Some r)"
  by (induction xs) auto

lemma is_key_other: "(inst, key) \<noteq> (inst', key') \<Longrightarrow> is_key inst key r \<Longrightarrow> \<not> is_key inst' key' r"
  by (auto simp: is_key_def)

lemma find_filter_other:
  assumes "\<And>r. P r \<Longrightarrow> Q r"
  shows "find P (filter Q rows) = find P rows"
  using assms by (induction rows) auto

lemma find_update_where:
  assumes "\<And>r. P (f r) = P r"
  shows "find P (update_where Q f rows) = map_option (\<lambda>r. if Q r then f r else r) (find P rows)"
  using assms by (induction rows) (auto simp: update_where_def)

lemma idem_of_same: "same_tables d e \<Longrightarrow> idem_of inst key e = idem_of inst key d"
  using same_tables_fields [of d e] by (simp add: idem_of_def)

end
