(* ===== verification/StoreMedia.thy ===== *)
theory StoreMedia
  imports StoreIdempotency
begin

text \<open>
  The media rows, \<^verbatim>\<open>internal/storage/postgres/media_repo.go\<close>, and the cache of resolved phone
  numbers, \<^verbatim>\<open>internal/storage/postgres/jidcache.go\<close>.
\<close>

definition map_media_error :: "storage_err \<Rightarrow> storage_err" where
  "map_media_error e = (if e = SDriver ''23503'' then SNotFound else e)"

definition media_row_of :: "db \<Rightarrow> media \<Rightarrow> media_row" where
  "media_row_of d m =
     \<lparr>dr_id = md_id m, dr_instance = md_instance m, dr_direction = md_direction m,
      dr_message = nullif_empty (md_message m), dr_mimetype = md_mimetype m,
      dr_filename = nullif_empty (md_filename m), dr_size = md_size m, dr_path = md_path m,
      dr_sha256 = md_sha256 m, dr_created = pg_now d, dr_expires = md_expires m\<rparr>"

definition media_create :: "media \<Rightarrow> db \<Rightarrow> media result \<times> db" where
  [store_simps]: "media_create m = pg_run (\<lambda>d.
     if md_id m \<in> dr_id ` set (t_media d) then (Inl (map_media_error (SDriver ''23505'')), d)
     else if md_instance m \<notin> ir_id ` set (t_instances d)
     then (Inl (map_media_error (SDriver ''23503'')), d)
     else (let row = media_row_of d m
           in (Inr (scan_media row), d\<lparr>t_media := t_media d @ [row]\<rparr>)))"

definition media_get :: "uuid \<Rightarrow> db \<Rightarrow> media result \<times> db" where
  [store_simps]: "media_get i = pg_run (\<lambda>d.
     (case row_by dr_id i (t_media d) of
        None \<Rightarrow> Inl SNotFound | Some r \<Rightarrow> Inr (scan_media r), d))"

definition media_list_by_instance :: "uuid \<Rightarrow> db \<Rightarrow> media list result \<times> db" where
  [store_simps]: "media_list_by_instance inst = pg_run (\<lambda>d.
     (Inr (map scan_media (sort_key (\<lambda>r. (dr_created r, dr_id r))
             (filter (\<lambda>r. dr_instance r = inst) (t_media d)))), d))"

definition media_list_expired :: "instant \<Rightarrow> db \<Rightarrow> media list result \<times> db" where
  [store_simps]: "media_list_expired now = pg_run (\<lambda>d.
     (Inr (map scan_media (sort_key (\<lambda>r. (dr_expires r, dr_id r))
             (filter (\<lambda>r. dr_expires r \<le> now) (t_media d)))), d))"

definition media_delete :: "uuid \<Rightarrow> db \<Rightarrow> unit result \<times> db" where
  [store_simps]: "media_delete i = pg_run (\<lambda>d.
     if i \<notin> dr_id ` set (t_media d) then (Inl SNotFound, d)
     else (Inr (), d\<lparr>t_media := filter (\<lambda>r. dr_id r \<noteq> i) (t_media d)\<rparr>))"

definition media_delete_by_instance :: "uuid \<Rightarrow> db \<Rightarrow> nat result \<times> db" where
  [store_simps]: "media_delete_by_instance inst = pg_run (\<lambda>d.
     (Inr (length (filter (\<lambda>r. dr_instance r = inst) (t_media d))),
      d\<lparr>t_media := filter (\<lambda>r. dr_instance r \<noteq> inst) (t_media d)\<rparr>))"

section \<open>The phone cache\<close>

definition jidcache_get :: "string \<Rightarrow> db \<Rightarrow> string option result \<times> db" where
  [store_simps]: "jidcache_get phone = pg_run (\<lambda>d.
     (Inr (case row_by cr_phone phone (t_contacts d) of
             None \<Rightarrow> None
           | Some r \<Rightarrow> if pg_now d < cr_expires r then Some (cr_jid r) else None), d))"

definition jidcache_put :: "string \<Rightarrow> string \<Rightarrow> instant \<Rightarrow> db \<Rightarrow> unit result \<times> db" where
  [store_simps]: "jidcache_put phone jid expires = pg_run (\<lambda>d.
     (Inr (),
      if phone \<in> cr_phone ` set (t_contacts d)
      then d\<lparr>t_contacts := update_where (\<lambda>r. cr_phone r = phone)
               (\<lambda>r. r\<lparr>cr_jid := jid, cr_expires := expires\<rparr>) (t_contacts d)\<rparr>
      else d\<lparr>t_contacts := t_contacts d @
               [\<lparr>cr_phone = phone, cr_jid = jid, cr_expires = expires, cr_created = pg_now d\<rparr>]\<rparr>))"

definition jidcache_delete_expired :: "db \<Rightarrow> nat result \<times> db" where
  [store_simps]: "jidcache_delete_expired = pg_run (\<lambda>d.
     let gone = (\<lambda>r. cr_expires r < pg_now d) in
     (Inr (length (filter gone (t_contacts d))),
      d\<lparr>t_contacts := filter (\<lambda>r. \<not> gone r) (t_contacts d)\<rparr>))"

text \<open>A lookup after a put is the put value, unless it expired already.\<close>

lemma jidcache_get_put:
  assumes "jidcache_put phone jid expires d = (Inr (), d')" "pg_script d' = []"
  shows "fst (jidcache_get other d') =
         (if other = phone then Inr (if pg_now d < expires then Some jid else None)
          else Inr (case row_by cr_phone other (t_contacts d) of
                      None \<Rightarrow> None
                    | Some r \<Rightarrow> if pg_now d < cr_expires r then Some (cr_jid r) else None))"
proof -
  from assms(1) obtain e where e: "same_tables d e" and
    d': "d' = (if phone \<in> cr_phone ` set (t_contacts e)
      then e\<lparr>t_contacts := update_where (\<lambda>r. cr_phone r = phone)
               (\<lambda>r. r\<lparr>cr_jid := jid, cr_expires := expires\<rparr>) (t_contacts e)\<rparr>
      else e\<lparr>t_contacts := t_contacts e @
               [\<lparr>cr_phone = phone, cr_jid = jid, cr_expires = expires, cr_created = pg_now e\<rparr>]\<rparr>)"
    unfolding jidcache_put_def by (auto elim!: pg_run_Inr)
  note f = same_tables_fields [OF e]
  show ?thesis
  proof (cases "phone \<in> cr_phone ` set (t_contacts e)")
    case True
    then obtain r where r: "row_by cr_phone phone (t_contacts d) = Some r"
      using row_by_None [of cr_phone phone "t_contacts d"] f by auto
    with row_by_Some [OF r] True assms(2) d' show ?thesis
      by (auto simp: jidcache_get_def row_by_update f dest: row_by_Some split: option.split)
  next
    case False
    then have "row_by cr_phone phone (t_contacts d) = None"
      by (simp add: row_by_None f)
    with False assms(2) d' show ?thesis
      by (auto simp: jidcache_get_def row_by_append f split: option.split)
  qed
qed

end
