(* ===== verification/StoreIntegrity.thy ===== *)
theory StoreIntegrity
  imports StoreMedia
begin

text \<open>
  What every table keeps through every statement of the repositories, whichever of them fail: the
  primary keys and unique indexes, the foreign keys, and that a read receipt implies a delivery
  receipt. \<open>db_step\<close> is one call of a repository operation (or the passing of time), and
  \<open>db_reachable\<close> what any sequence of them can lead to from the migrated, empty schema.
\<close>

section \<open>The invariant\<close>

definition ref_keys :: "instance_row list \<Rightarrow> string list" where
  "ref_keys rows = map the (filter (\<lambda>x. x \<noteq> None) (map ir_external_ref rows))"

definition instances_ok :: "uuid set \<Rightarrow> instance_row list \<Rightarrow> bool" where
  "instances_ok users rows \<longleftrightarrow> keyed ir_id rows \<and> distinct (ref_keys rows)
     \<and> ir_owner ` set rows \<subseteq> insert None (Some ` users)"

definition receipt_ok :: "message_row \<Rightarrow> bool" where
  "receipt_ok r \<longleftrightarrow> (mr_read_at r \<noteq> None \<longrightarrow> mr_delivered_at r \<noteq> None) \<and> 0 \<le> mr_retries r"

definition messages_ok :: "uuid set \<Rightarrow> message_row list \<Rightarrow> bool" where
  "messages_ok insts rows \<longleftrightarrow> keyed mr_id rows \<and> list_all receipt_ok rows
     \<and> mr_instance ` set rows \<subseteq> insts"

definition idem_ok :: "uuid set \<Rightarrow> idem_row list \<Rightarrow> bool" where
  "idem_ok insts rows \<longleftrightarrow> keyed (\<lambda>r. (kr_instance r, kr_key r)) rows
     \<and> kr_instance ` set rows \<subseteq> insts"

definition media_ok :: "uuid set \<Rightarrow> media_row list \<Rightarrow> bool" where
  "media_ok insts rows \<longleftrightarrow> keyed dr_id rows \<and> dr_instance ` set rows \<subseteq> insts"

definition contacts_ok :: "contact_row list \<Rightarrow> bool" where
  "contacts_ok rows \<longleftrightarrow> keyed cr_phone rows"

definition events_ok :: "event_row list \<Rightarrow> bool" where
  "events_ok rows \<longleftrightarrow> keyed er_id rows \<and> (\<forall>r \<in> set rows. 0 \<le> er_attempts r)"

definition db_ok :: "db \<Rightarrow> bool" where
  "db_ok d \<longleftrightarrow> users_ok (pg_lower d) (t_users d)
     \<and> instances_ok (ur_id ` set (t_users d)) (t_instances d)
     \<and> messages_ok (ir_id ` set (t_instances d)) (t_messages d)
     \<and> idem_ok (ir_id ` set (t_instances d)) (t_idem d)
     \<and> media_ok (ir_id ` set (t_instances d)) (t_media d)
     \<and> contacts_ok (t_contacts d) \<and> events_ok (t_events d)"

lemma blind [intro, simp]: "script_blind db_ok"
proof -
  have "db_ok e = db_ok d" if "same_tables d e" for d e
    by (simp add: db_ok_def same_tables_fields [OF that])
  then show ?thesis by (simp add: script_blind_def)
qed

section \<open>The tables one operation writes\<close>

lemma ref_keys_mem: "x \<in> set (ref_keys rows) \<longleftrightarrow> (\<exists>r \<in> set rows. ir_external_ref r = Some x)"
  by (force simp: ref_keys_def)

lemma ref_keys_Cons:
  "ref_keys (r # rows) = (case ir_external_ref r of None \<Rightarrow> ref_keys rows | Some e \<Rightarrow> e # ref_keys rows)"
  by (auto simp: ref_keys_def split: option.split)

lemma ref_keys_append: "ref_keys (xs @ ys) = ref_keys xs @ ref_keys ys"
  by (simp add: ref_keys_def)

lemma ref_keys_filter: "distinct (ref_keys rows) \<Longrightarrow> distinct (ref_keys (filter P rows))"
proof (induction rows)
  case (Cons a rows)
  have "set (ref_keys (filter P rows)) \<subseteq> set (ref_keys rows)" by (fastforce simp: ref_keys_mem)
  with Cons show ?case by (auto simp: ref_keys_Cons split: option.splits)
qed (simp add: ref_keys_def)

lemma ref_keys_update:
  assumes "distinct (ref_keys rows)" "keyed ir_id rows"
    and "\<And>r. r \<in> set rows \<Longrightarrow> ir_id r = i \<Longrightarrow> ir_external_ref (f r) = x"
    and "\<And>r. r \<in> set rows \<Longrightarrow> ir_id r \<noteq> i \<Longrightarrow> x \<noteq> None \<Longrightarrow> ir_external_ref r \<noteq> x"
  shows "distinct (ref_keys (update_where (\<lambda>r. ir_id r = i) f rows))"
  using assms
proof (induction rows)
  case (Cons a rows)
  let ?u = "update_where (\<lambda>r. ir_id r = i) f"
  have split: "?u (a # rows) = (if ir_id a = i then f a else a) # ?u rows"
    by (simp add: update_where_def)
  have tail: "distinct (ref_keys (?u rows))"
    by (rule Cons.IH) (use Cons.prems in \<open>auto simp: ref_keys_Cons keyed_def split: option.splits\<close>)
  show ?case
  proof (cases "ir_id a = i")
    case True
    then have others: "\<forall>r \<in> set rows. ir_id r \<noteq> i" using Cons.prems(2) by (simp add: keyed_def image_iff) metis
    then have "?u rows = rows" by (rule update_where_none)
    moreover have "x \<noteq> None \<longrightarrow> the x \<notin> set (ref_keys rows)"
      using Cons.prems(4) others by (force simp: ref_keys_mem)
    ultimately show ?thesis
      using tail True Cons.prems(3) [of a] by (auto simp: split ref_keys_Cons split: option.split)
  next
    case False
    have "ir_external_ref a \<noteq> None \<longrightarrow> the (ir_external_ref a) \<notin> set (ref_keys (?u rows))"
    proof (intro impI notI)
      assume a: "ir_external_ref a \<noteq> None" "the (ir_external_ref a) \<in> set (ref_keys (?u rows))"
      then obtain r where "r \<in> set rows" "ir_external_ref (if ir_id r = i then f r else r) = ir_external_ref a"
        by (auto simp: ref_keys_mem set_update_where)
      then show False
        using a(1) False Cons.prems(1,3,4)
        by (auto simp: ref_keys_Cons ref_keys_mem split: if_splits option.splits)
    qed
    then show ?thesis using tail False by (auto simp: split ref_keys_Cons split: option.split)
  qed
qed (simp add: ref_keys_def update_where_def)

text \<open>Row by row: what an insert, a delete and an update keep of each table.\<close>

lemma instances_ok_snoc:
  assumes "instances_ok users rows" "ir_id r \<notin> ir_id ` set rows"
    and "\<And>s. s \<in> set rows \<Longrightarrow> ir_external_ref r \<noteq> None \<Longrightarrow> ir_external_ref s \<noteq> ir_external_ref r"
    and "ir_owner r \<in> insert None (Some ` users)"
  shows "instances_ok users (rows @ [r])"
proof -
  have "ref_keys [r] = (case ir_external_ref r of None \<Rightarrow> [] | Some e \<Rightarrow> [e])"
    by (simp add: ref_keys_def split: option.split)
  moreover have "ir_external_ref r = Some e \<Longrightarrow> e \<notin> set (ref_keys rows)" for e
    using assms(3) by (auto simp: ref_keys_mem)
  ultimately show ?thesis
    using assms(1,2,4)
    by (auto simp: instances_ok_def keyed_snoc ref_keys_append split: option.split)
qed

lemma instances_ok_filter: "instances_ok users rows \<Longrightarrow> instances_ok users (filter P rows)"
  by (auto simp: instances_ok_def keyed_filter ref_keys_filter)

lemma instances_ok_users:
  "instances_ok users rows \<Longrightarrow> ir_owner ` set rows \<subseteq> insert None (Some ` users') \<Longrightarrow> instances_ok users' rows"
  by (simp add: instances_ok_def)

lemma instances_ok_update:
  assumes "instances_ok users rows" "\<And>r. ir_id (f r) = ir_id r"
    and "\<And>r. ir_external_ref (f r) = ir_external_ref r" "\<And>r. ir_owner (f r) = ir_owner r"
  shows "instances_ok users (update_where P f rows)"
  using assms map_update_where [of ir_external_ref f P rows]
  by (simp add: instances_ok_def ref_keys_def image_update_where)

lemma instances_ok_backfill:
  assumes "instances_ok users rows" "\<And>r. ir_id (f r) = ir_id r"
    and "\<And>r. ir_external_ref (f r) = ir_external_ref r" "\<And>r. ir_owner (f r) = Some u"
    and "filter P rows \<noteq> [] \<Longrightarrow> u \<in> users"
  shows "instances_ok users (update_where P f rows)"
proof -
  have "ir_owner ` set (update_where P f rows) \<subseteq> insert None (Some ` users)"
    using assms(1,4,5) by (auto simp: set_update_where instances_ok_def filter_empty_conv)
  then show ?thesis
    using assms(1-3) map_update_where [of ir_external_ref f P rows]
    by (simp add: instances_ok_def ref_keys_def)
qed

lemma messages_ok_snoc:
  "messages_ok insts rows \<Longrightarrow> mr_id r \<notin> mr_id ` set rows \<Longrightarrow> receipt_ok r \<Longrightarrow> mr_instance r \<in> insts
   \<Longrightarrow> messages_ok insts (rows @ [r])"
  by (simp add: messages_ok_def keyed_snoc)

lemma messages_ok_update:
  assumes "messages_ok insts rows" "\<And>r. mr_id (f r) = mr_id r" "\<And>r. mr_instance (f r) = mr_instance r"
    and "\<And>r. receipt_ok r \<Longrightarrow> receipt_ok (f r)"
  shows "messages_ok insts (update_where P f rows)"
  using assms by (auto simp: messages_ok_def image_update_where list_all_iff set_update_where)

lemma messages_ok_cascade:
  "messages_ok (ir_id ` set rows) ms \<Longrightarrow>
   messages_ok (ir_id ` set (filter (\<lambda>r. ir_id r \<noteq> i) rows)) (filter (\<lambda>r. mr_instance r \<noteq> i) ms)"
  by (auto simp: messages_ok_def keyed_filter list_all_iff image_iff)

lemma idem_ok_cascade:
  "idem_ok (ir_id ` set rows) ms \<Longrightarrow>
   idem_ok (ir_id ` set (filter (\<lambda>r. ir_id r \<noteq> i) rows)) (filter (\<lambda>r. kr_instance r \<noteq> i) ms)"
  by (auto simp: idem_ok_def keyed_filter image_iff)

lemma media_ok_cascade:
  "media_ok (ir_id ` set rows) ms \<Longrightarrow>
   media_ok (ir_id ` set (filter (\<lambda>r. ir_id r \<noteq> i) rows)) (filter (\<lambda>r. dr_instance r \<noteq> i) ms)"
  by (auto simp: media_ok_def keyed_filter image_iff)

lemma insts_mono:
  "messages_ok a ms \<Longrightarrow> a \<subseteq> b \<Longrightarrow> messages_ok b ms"
  "idem_ok a is \<Longrightarrow> a \<subseteq> b \<Longrightarrow> idem_ok b is"
  "media_ok a md \<Longrightarrow> a \<subseteq> b \<Longrightarrow> media_ok b md"
  by (auto simp: messages_ok_def idem_ok_def media_ok_def)

lemma idem_ok_filter: "idem_ok insts rows \<Longrightarrow> idem_ok insts (filter P rows)"
  by (auto simp: idem_ok_def keyed_filter)

lemma media_ok_filter: "media_ok insts rows \<Longrightarrow> media_ok insts (filter P rows)"
  by (auto simp: media_ok_def keyed_filter)

section \<open>Every operation\<close>

lemma db_ok_exec_message:
  assumes "db_ok d" "\<And>t r. mr_id (f t r) = mr_id r" "\<And>t r. mr_instance (f t r) = mr_instance r"
    and "\<And>t r. receipt_ok r \<Longrightarrow> receipt_ok (f t r)"
  shows "db_ok (snd (exec_message i f d))"
  unfolding exec_message_def
  by (rule pg_run_keeps [OF blind assms(1)]) (simp add: db_ok_def messages_ok_update assms)

lemma db_ok_exec_event:
  assumes "db_ok d" "\<And>t r. er_id (f t r) = er_id r" "\<And>t r. 0 \<le> er_attempts r \<Longrightarrow> 0 \<le> er_attempts (f t r)"
  shows "db_ok (snd (exec_event i f d))"
  unfolding exec_event_def
  by (rule pg_run_keeps [OF blind assms(1)])
     (auto simp: db_ok_def events_ok_def assms set_update_where)

lemma db_ok_exec_instance:
  assumes "db_ok d" "\<And>t r. ir_id (f t r) = ir_id r"
    and "\<And>t r. ir_external_ref (f t r) = ir_external_ref r" "\<And>t r. ir_owner (f t r) = ir_owner r"
  shows "db_ok (snd (exec_instance i f d))"
  unfolding exec_instance_def
  by (rule pg_run_keeps [OF blind assms(1)])
     (simp add: db_ok_def instances_ok_update assms image_update_where)

lemma db_ok_users_create: "db_ok d \<Longrightarrow> db_ok (snd (users_create u d))"
  unfolding users_create_def
proof (rule pg_run_keeps [OF blind])
  fix e assume e: "db_ok e"
  have mono: "instances_ok users rows \<Longrightarrow> instances_ok (insert x users) rows" for users rows x
    by (auto simp: instances_ok_def)
  show "db_ok (snd (if \<not> int4 (user_quota u) then (Inl (map_user_error (SDriver []) []), e)
     else if user_role u \<notin> {''admin'', ''user''}
     then (Inl (map_user_error (SDriver ''23514'') ''users_role_check''), e)
     else if user_id u \<in> ur_id ` set (t_users e)
     then (Inl (map_user_error (SDriver ''23505'') ''users_pkey''), e)
     else if \<exists>r \<in> set (t_users e). same_email e (user_email u) r
     then (Inl (map_user_error (SDriver ''23505'') ''users_email_lower_idx''), e)
     else (let row = user_row_of e u
           in (Inr (scan_user row), e\<lparr>t_users := t_users e @ [row]\<rparr>))))"
    using e users_ok_snoc [of e u] by (auto simp: db_ok_def Let_def mono)
qed

lemma db_ok_users_delete:
  assumes "db_ok d" shows "db_ok (snd (users_delete i d))"
  unfolding users_delete_def
proof (rule pg_run_keeps [OF blind assms])
  fix e assume e: "db_ok e"
  have "ir_owner ` set (t_instances e) \<subseteq> insert None (Some ` ur_id ` set (filter (\<lambda>r. ur_id r \<noteq> i) (t_users e)))"
    if "\<not> (\<exists>r \<in> set (t_instances e). ir_owner r = Some i)"
  proof -
    have "ir_owner ` set (t_instances e) \<subseteq> insert None (Some ` ur_id ` set (t_users e))"
      using e by (simp add: db_ok_def instances_ok_def)
    then show ?thesis using that by (fastforce simp: image_subset_iff image_iff)
  qed
  then show "db_ok (snd (if i \<notin> ur_id ` set (t_users e) then (Inl SNotFound, e)
     else if \<exists>r \<in> set (t_instances e). ir_owner r = Some i then (Inl (SDriver ''23503''), e)
     else (Inr (), e\<lparr>t_users := filter (\<lambda>r. ur_id r \<noteq> i) (t_users e)\<rparr>)))"
    using e by (simp add: db_ok_def users_ok_filter instances_ok_def)
qed

lemma db_ok_users_update_quota:
  assumes "db_ok d" shows "db_ok (snd (users_update_quota i q d))"
  unfolding users_update_quota_def
  by (rule pg_run_keeps [OF blind assms])
     (auto simp: db_ok_def role_ok_def image_update_where intro!: users_ok_update)

lemma db_ok_instances_create:
  assumes "db_ok d" shows "db_ok (snd (instances_create i d))"
  unfolding instances_create_def
proof (rule pg_run_keeps [OF blind assms])
  fix e assume e: "db_ok e"
  have "instances_ok (ur_id ` set (t_users e)) (t_instances e @ [instance_row_of e i])"
    if "inst_id i \<notin> ir_id ` set (t_instances e)" "\<not> ref_taken (inst_external_ref i) (inst_id i) e"
      "\<not> (case inst_owner i of None \<Rightarrow> False | Some u \<Rightarrow> u \<notin> ur_id ` set (t_users e))"
  proof -
    have "\<forall>s \<in> set (t_instances e). ir_id s \<noteq> inst_id i" using that(1) by (metis imageI)
    then show ?thesis
      by (intro instances_ok_snoc)
         (use e that in \<open>auto simp: db_ok_def instance_row_of_def ref_taken_def nullif_empty_def
            split: option.splits\<close>)
  qed
  moreover have "messages_ok (ir_id ` set (t_instances e @ [instance_row_of e i])) (t_messages e)"
    "idem_ok (ir_id ` set (t_instances e @ [instance_row_of e i])) (t_idem e)"
    "media_ok (ir_id ` set (t_instances e @ [instance_row_of e i])) (t_media e)"
    using e by (auto simp: db_ok_def intro: insts_mono)
  ultimately show "db_ok (snd (if inst_id i \<in> ir_id ` set (t_instances e)
     then (Inl (map_instance_error (SDriver ''23505'') ''instances_pkey''), e)
     else if ref_taken (inst_external_ref i) (inst_id i) e
     then (Inl (map_instance_error (SDriver ''23505'') ''instances_external_ref_key''), e)
     else if (case inst_owner i of None \<Rightarrow> False | Some u \<Rightarrow> u \<notin> ur_id ` set (t_users e))
     then (Inl (map_instance_error (SDriver ''23503'') ''instances_owner_user_id_fkey''), e)
     else (let row = instance_row_of e i
           in (Inr (scan_instance row), e\<lparr>t_instances := t_instances e @ [row]\<rparr>))))"
    using e by (simp add: db_ok_def Let_def)
qed

lemma db_ok_instances_update:
  assumes "db_ok d" shows "db_ok (snd (instances_update i d))"
  unfolding instances_update_def
proof (rule pg_run_keeps [OF blind assms])
  fix e assume e: "db_ok e"
  define f :: "instance_row \<Rightarrow> instance_row" where "f = (\<lambda>r. r\<lparr>ir_name := inst_name i,
                       ir_external_ref := nullif_empty (inst_external_ref i),
                       ir_status := (if inst_status i = [] then ir_status r else inst_status i),
                       ir_jid := nullif_empty (inst_jid i),
                       ir_last_connected := inst_last_connected i,
                       ir_last_error := nullif_empty (inst_last_error i),
                       ir_webhook_url := webhook_url_param (inst_webhook_url i),
                       ir_webhook_enabled := inst_webhook_enabled i,
                       ir_webhook_events := webhook_events_param (inst_webhook_events i),
                       ir_updated := pg_now e\<rparr>)"
  let ?rows = "update_where (\<lambda>r. ir_id r = inst_id i) f (t_instances e)"
  have f: "ir_id (f r) = ir_id r" "ir_owner (f r) = ir_owner r"
    "ir_external_ref (f r) = nullif_empty (inst_external_ref i)" for r
    by (simp_all add: f_def)
  have "distinct (ref_keys ?rows)" if "\<not> ref_taken (inst_external_ref i) (inst_id i) e"
    by (rule ref_keys_update [where x = "nullif_empty (inst_external_ref i)"])
       (use e that f in \<open>auto simp: db_ok_def instances_ok_def ref_taken_def nullif_empty_def\<close>)
  then have "db_ok (e\<lparr>t_instances := ?rows\<rparr>)" if "\<not> ref_taken (inst_external_ref i) (inst_id i) e"
    using e that f by (simp add: db_ok_def instances_ok_def image_update_where)
  with e show "db_ok (snd (case row_by ir_id (inst_id i) (t_instances e) of
        None \<Rightarrow> (Inl SNotFound, e)
      | Some old \<Rightarrow>
          if ref_taken (inst_external_ref i) (inst_id i) e
          then (Inl (map_instance_error (SDriver ''23505'') ''instances_external_ref_key''), e)
          else
            (let f = (\<lambda>r. r\<lparr>ir_name := inst_name i,
                       ir_external_ref := nullif_empty (inst_external_ref i),
                       ir_status := (if inst_status i = [] then ir_status r else inst_status i),
                       ir_jid := nullif_empty (inst_jid i),
                       ir_last_connected := inst_last_connected i,
                       ir_last_error := nullif_empty (inst_last_error i),
                       ir_webhook_url := webhook_url_param (inst_webhook_url i),
                       ir_webhook_enabled := inst_webhook_enabled i,
                       ir_webhook_events := webhook_events_param (inst_webhook_events i),
                       ir_updated := pg_now e\<rparr>)
             in (Inr (scan_instance (f old)),
                 e\<lparr>t_instances := update_where (\<lambda>r. ir_id r = inst_id i) f (t_instances e)\<rparr>))))"
    unfolding f_def [symmetric] Let_def by (simp split: option.split)
qed

lemma db_ok_backfill:
  assumes "db_ok d" shows "db_ok (snd (instances_backfill_owner u d))"
  unfolding instances_backfill_owner_def Let_def
  by (rule pg_run_keeps [OF blind assms])
     (auto simp: db_ok_def image_update_where intro!: instances_ok_backfill)

lemma db_ok_instances_delete:
  assumes "db_ok d" shows "db_ok (snd (instances_delete i d))"
  unfolding instances_delete_def
  by (rule pg_run_keeps [OF blind assms])
     (simp add: db_ok_def cascade_instance_def instances_ok_filter messages_ok_cascade
       idem_ok_cascade media_ok_cascade del: set_filter)

lemma db_ok_messages_create:
  assumes "db_ok d" shows "db_ok (snd (messages_create m d))"
  unfolding messages_create_def
  by (rule pg_run_keeps [OF blind assms])
     (simp add: db_ok_def Let_def messages_ok_snoc message_row_of_def receipt_ok_def)

lemma db_ok_claim_mark: "db_ok d \<Longrightarrow> db_ok (claim_mark ids d)"
  by (auto simp: db_ok_def claim_mark_def receipt_ok_def intro!: messages_ok_update)

lemma db_ok_claim:
  assumes "db_ok d" shows "db_ok (snd (messages_claim_queued locked limit d))"
proof -
  have k: "keyed mr_id (t_messages d)" using assms by (simp add: db_ok_def messages_ok_def)
  obtain res d' where c: "messages_claim_queued locked limit d = (res, d')" by fastforce
  from claim_outcome [OF k c] have "db_ok d'"
    using assms by (auto simp: claim_done_def db_ok_claim_mark dest: script_blindD [OF blind])
  then show ?thesis by (simp add: c)
qed

lemma db_ok_message_updates:
  assumes "db_ok d"
  shows "db_ok (snd (messages_mark_sent i wa d))" "db_ok (snd (messages_mark_failed i msg d))"
    "db_ok (snd (messages_mark_retrying i msg next d))"
    "db_ok (snd (messages_update_receipt w st t d))" "db_ok (snd (messages_requeue_stuck t d))"
proof -
  show "db_ok (snd (messages_mark_sent i wa d))" "db_ok (snd (messages_mark_failed i msg d))"
    "db_ok (snd (messages_mark_retrying i msg next d))"
    unfolding messages_mark_sent_def messages_mark_failed_def messages_mark_retrying_def
    by (rule db_ok_exec_message [OF assms]; simp add: receipt_ok_def)+
  show "db_ok (snd (messages_update_receipt w st t d))"
    unfolding messages_update_receipt_def Let_def
    by (rule pg_run_keeps [OF blind assms])
       (auto simp: db_ok_def receipt_ok_def coalesce_def intro!: messages_ok_update split: option.splits)
  show "db_ok (snd (messages_requeue_stuck t d))"
    unfolding messages_requeue_stuck_def Let_def
    by (rule pg_run_keeps [OF blind assms])
       (auto simp: db_ok_def receipt_ok_def intro!: messages_ok_update)
qed

lemma db_ok_events:
  assumes "db_ok d"
  shows "db_ok (snd (events_enqueue i s env d))" "db_ok (snd (events_claim_pending locked n d))"
    "db_ok (snd (events_mark_published i d))" "db_ok (snd (events_mark_attempt i msg d))"
    "db_ok (snd (events_delete_published_before t d))"
proof -
  show "db_ok (snd (events_enqueue i s env d))"
    unfolding events_enqueue_def
    by (rule pg_run_keeps [OF blind assms])
       (auto simp: db_ok_def events_ok_def keyed_snoc event_row_of_def split: option.split)
  obtain r d' where c: "events_claim_pending locked n d = (r, d')" by fastforce
  from events_claim_outcome [OF this] show "db_ok (snd (events_claim_pending locked n d))"
    using script_blindD [OF blind _ assms] by (simp add: c)
  show "db_ok (snd (events_mark_published i d))" "db_ok (snd (events_mark_attempt i msg d))"
    unfolding events_mark_published_def events_mark_attempt_def
    by (rule db_ok_exec_event [OF assms]; simp)+
  show "db_ok (snd (events_delete_published_before t d))"
    unfolding events_delete_published_before_def
    by (rule pg_run_keeps [OF blind assms]) (auto simp: db_ok_def events_ok_def keyed_filter)
qed

lemma find_key_None:
  "idem_of inst key d = None \<longleftrightarrow> (inst, key) \<notin> (\<lambda>r. (kr_instance r, kr_key r)) ` set (t_idem d)"
  by (auto simp: idem_of_def find_None_iff is_key_def)

lemma db_ok_idem:
  assumes "db_ok d"
  shows "db_ok (snd (acquire_drop inst key d))" "db_ok (snd (acquire_insert inst key fp t d))"
    "db_ok (snd (acquire_read inst key d))" "db_ok (snd (idem_complete inst key st body d))"
    "db_ok (snd (idem_release inst key d))" "db_ok (snd (idem_delete_expired d))"
proof -
  show "db_ok (snd (acquire_drop inst key d))"
    unfolding acquire_drop_def
    by (rule pg_run_keeps [OF blind assms]) (simp add: db_ok_def idem_ok_filter)
  show "db_ok (snd (acquire_insert inst key fp t d))"
    unfolding acquire_insert_def
    by (rule pg_run_keeps [OF blind assms])
       (auto simp: db_ok_def idem_ok_def Let_def keyed_snoc fresh_key_def find_key_None split: option.split)
  show "db_ok (snd (acquire_read inst key d))"
    unfolding acquire_read_def by (rule pg_run_keeps [OF blind assms]) simp
  show "db_ok (snd (idem_complete inst key st body d))"
    unfolding idem_complete_def Let_def
    by (rule pg_run_keeps [OF blind assms])
       (auto simp: db_ok_def idem_ok_def image_update_where split: option.split)
  show "db_ok (snd (idem_release inst key d))"
    unfolding idem_release_def
    by (rule pg_run_keeps [OF blind assms]) (simp add: db_ok_def idem_ok_filter)
  show "db_ok (snd (idem_delete_expired d))"
    unfolding idem_delete_expired_def Let_def
    by (rule pg_run_keeps [OF blind assms]) (simp add: db_ok_def idem_ok_filter)
qed

lemma db_ok_media:
  assumes "db_ok d"
  shows "db_ok (snd (media_create m d))" "db_ok (snd (media_delete i d))"
    "db_ok (snd (media_delete_by_instance j d))"
proof -
  show "db_ok (snd (media_create m d))"
    unfolding media_create_def
    by (rule pg_run_keeps [OF blind assms])
       (auto simp: db_ok_def media_ok_def keyed_snoc media_row_of_def Let_def)
  show "db_ok (snd (media_delete i d))" "db_ok (snd (media_delete_by_instance j d))"
    unfolding media_delete_def media_delete_by_instance_def
    by (rule pg_run_keeps [OF blind assms]; simp add: db_ok_def media_ok_filter)+
qed

lemma db_ok_contacts:
  assumes "db_ok d"
  shows "db_ok (snd (jidcache_put p j t d))" "db_ok (snd (jidcache_delete_expired d))"
proof -
  show "db_ok (snd (jidcache_put p j t d))"
    unfolding jidcache_put_def
    by (rule pg_run_keeps [OF blind assms]) (simp add: db_ok_def contacts_ok_def keyed_snoc)
  show "db_ok (snd (jidcache_delete_expired d))"
    unfolding jidcache_delete_expired_def Let_def
    by (rule pg_run_keeps [OF blind assms]) (simp add: db_ok_def contacts_ok_def keyed_filter)
qed

lemma db_ok_instance_updates:
  assumes "db_ok d"
  shows "db_ok (snd (instances_set_connection i st j d))"
    "db_ok (snd (instances_set_connection_state i st j le ca d))"
    "db_ok (snd (keys_set_hash i h d))" "db_ok (snd (keys_clear_hash i d))"
  unfolding instances_set_connection_def instances_set_connection_state_def keys_set_hash_def
    keys_clear_hash_def
  by (rule db_ok_exec_instance [OF assms]; simp)+

section \<open>Reachable databases\<close>

text \<open>
  A write of a repository, each with its arguments, and the passing of time: a later clock and any
  fault script. Reads leave the tables alone and are not listed.
\<close>

inductive db_step :: "db \<Rightarrow> db \<Rightarrow> bool" where
  step_users_create: "db_step d (snd (users_create u d))"
| step_users_delete: "db_step d (snd (users_delete i d))"
| step_users_quota: "db_step d (snd (users_update_quota i q d))"
| step_instances_create: "db_step d (snd (instances_create w d))"
| step_instances_update: "db_step d (snd (instances_update w d))"
| step_instances_connection: "db_step d (snd (instances_set_connection i st j d))"
| step_instances_state: "db_step d (snd (instances_set_connection_state i st j le ca d))"
| step_instances_backfill: "db_step d (snd (instances_backfill_owner i d))"
| step_instances_delete: "db_step d (snd (instances_delete i d))"
| step_keys_set: "db_step d (snd (keys_set_hash i h d))"
| step_keys_clear: "db_step d (snd (keys_clear_hash i d))"
| step_messages_create: "db_step d (snd (messages_create m d))"
| step_messages_claim: "db_step d (snd (messages_claim_queued locked n d))"
| step_messages_sent: "db_step d (snd (messages_mark_sent i wa d))"
| step_messages_failed: "db_step d (snd (messages_mark_failed i msg d))"
| step_messages_retrying: "db_step d (snd (messages_mark_retrying i msg t d))"
| step_messages_receipt: "db_step d (snd (messages_update_receipt wa st t d))"
| step_messages_requeue: "db_step d (snd (messages_requeue_stuck t d))"
| step_events_enqueue: "db_step d (snd (events_enqueue i s env d))"
| step_events_claim: "db_step d (snd (events_claim_pending locked n d))"
| step_events_published: "db_step d (snd (events_mark_published i d))"
| step_events_attempt: "db_step d (snd (events_mark_attempt i msg d))"
| step_events_cleanup: "db_step d (snd (events_delete_published_before t d))"
| step_idem_drop: "db_step d (snd (acquire_drop i key d))"
| step_idem_insert: "db_step d (snd (acquire_insert i key fp t d))"
| step_idem_complete: "db_step d (snd (idem_complete i key code body d))"
| step_idem_release: "db_step d (snd (idem_release i key d))"
| step_idem_expired: "db_step d (snd (idem_delete_expired d))"
| step_media_create: "db_step d (snd (media_create md d))"
| step_media_delete: "db_step d (snd (media_delete i d))"
| step_media_delete_all: "db_step d (snd (media_delete_by_instance i d))"
| step_contacts_put: "db_step d (snd (jidcache_put p j t d))"
| step_contacts_expired: "db_step d (snd (jidcache_delete_expired d))"
| step_time: "pg_now d \<le> t \<Longrightarrow> db_step d (d\<lparr>pg_now := t, pg_script := faults\<rparr>)"

definition empty_db :: "(string \<Rightarrow> string) \<Rightarrow> (string \<Rightarrow> string option) \<Rightarrow> instant \<Rightarrow> bool list \<Rightarrow> db" where
  "empty_db lower jsonb now faults =
     \<lparr>t_users = [], t_instances = [], t_messages = [], t_idem = [], t_contacts = [], t_media = [],
      t_events = [], pg_now = now, pg_lower = lower, pg_jsonb = jsonb, pg_script = faults\<rparr>"

inductive db_reachable :: "db \<Rightarrow> bool" where
  reach_empty: "db_reachable (empty_db lower jsonb now faults)"
| reach_step: "db_reachable d \<Longrightarrow> db_step d d' \<Longrightarrow> db_reachable d'"

lemma db_ok_empty [simp]: "db_ok (empty_db lower jsonb now faults)"
  by (simp add: empty_db_def db_ok_def users_ok_def instances_ok_def messages_ok_def idem_ok_def
      media_ok_def contacts_ok_def events_ok_def keyed_def email_keys_def ref_keys_def)

lemmas db_ok_ops =
  db_ok_users_create db_ok_users_delete db_ok_users_update_quota db_ok_instances_create
  db_ok_instances_update db_ok_backfill db_ok_instances_delete db_ok_instance_updates
  db_ok_messages_create db_ok_claim db_ok_message_updates db_ok_events db_ok_idem db_ok_media
  db_ok_contacts

lemma db_ok_step: "db_step d d' \<Longrightarrow> db_ok d \<Longrightarrow> db_ok d'"
  by (induction rule: db_step.induct) (simp_all add: db_ok_ops, simp add: db_ok_def)

lemma db_reachable_ok: "db_reachable d \<Longrightarrow> db_ok d"
  by (induction rule: db_reachable.induct) (auto intro: db_ok_step)

section \<open>Properties\<close>

text \<open>
  C1: through any sequence of repository writes, with any of their statements failing, the tables
  keep their keys and unique indexes, every message, idempotency key and media belongs to an
  existing instance, every owner is an existing user, and a read receipt implies a delivery one.
\<close>

theorem reachable_databases_are_consistent:
  assumes "db_reachable d"
  shows "db_ok d"
  using assms by (rule db_reachable_ok)

theorem reachable_databases_are_consistent_witness:
  "db_ok (snd (users_create (scan_user sample_user) (empty_db to_lower Some 0 [True])))"
  by (rule reachable_databases_are_consistent)
     (rule reach_step [OF reach_empty step_users_create])

end
