(* ===== verification/JidResolver.thy ===== *)
theory JidResolver
  imports StoreIntegrity
begin

text \<open>
  The resolution of phone numbers, \<^verbatim>\<open>internal/message/jidresolver.go\<close>. A session's \<^verbatim>\<open>IsOnWhatsApp\<close>
  is an argument: \<open>probe\<close> answers a JID and whether the number is registered, or None for an error.
  The clock is read several times; \<open>clock n\<close> is the n-th reading.
\<close>

section \<open>Phone numbers\<close>

definition normalize_phone :: "string \<Rightarrow> string" where
  "normalize_phone phone =
     (let user = (case cut_at CHR ''@'' phone of Some (u, _) \<Rightarrow> u | None \<Rightarrow> phone) in filter is_digit user)"

definition brazilian_variant :: "string \<Rightarrow> string" where
  "brazilian_variant digits =
     (if strip_prefix ''55'' digits = None then []
      else if length digits = 13 then
        (if digits ! 4 \<noteq> CHR ''9'' then [] else take 4 digits @ drop 5 digits)
      else if length digits = 12 then
        (if digits ! 4 < CHR ''6'' \<or> digits ! 4 > CHR ''9'' then []
         else take 4 digits @ ''9'' @ drop 4 digits)
      else [])"

section \<open>The resolver\<close>

definition positive_jid_ttl :: duration where "positive_jid_ttl = 24 * hour"
definition negative_jid_ttl :: duration where "negative_jid_ttl = minute"

datatype resolve_err = NumberNotFound | ResolverUnavailable

record resolver =
  rs_negative :: "string \<Rightarrow> instant option"
  rs_last_sweep :: instant

definition new_resolver :: resolver where
  "new_resolver = \<lparr>rs_negative = (\<lambda>_. None), rs_last_sweep = zero_time\<rparr>"

type_synonym probe = "string \<Rightarrow> (string \<times> bool) option"

definition is_negative :: "instant \<Rightarrow> string \<Rightarrow> resolver \<Rightarrow> bool \<times> resolver" where
  "is_negative now phone rs =
     (case rs_negative rs phone of
        None \<Rightarrow> (False, rs)
      | Some expires \<Rightarrow>
          if \<not> now < expires then (False, rs\<lparr>rs_negative := (rs_negative rs)(phone := None)\<rparr>) else (True, rs))"

definition remember_negative :: "instant \<Rightarrow> string \<Rightarrow> resolver \<Rightarrow> resolver" where
  "remember_negative now phone rs =
     (let rs = (if now - rs_last_sweep rs \<ge> negative_jid_ttl
                then rs\<lparr>rs_negative := (\<lambda>k. case rs_negative rs k of None \<Rightarrow> None
                          | Some e \<Rightarrow> if \<not> now < e then None else Some e), rs_last_sweep := now\<rparr>
                else rs)
      in rs\<lparr>rs_negative := (rs_negative rs)(phone := Some (now + negative_jid_ttl))\<rparr>)"

text \<open>The JID found, empty for none, with the numbers probed.\<close>

definition jid_lookup :: "probe \<Rightarrow> string \<Rightarrow> (resolve_err + string) \<times> string list" where
  "jid_lookup probe digits =
     (case probe digits of
        None \<Rightarrow> (Inl ResolverUnavailable, [digits])
      | Some (jid, ok) \<Rightarrow>
          if ok \<and> jid \<noteq> [] then (Inr jid, [digits])
          else let variant = brazilian_variant digits in
            if variant = [] then (Inr [], [digits])
            else case probe variant of
              None \<Rightarrow> (Inl ResolverUnavailable, [digits, variant])
            | Some (jid, ok) \<Rightarrow>
                if ok \<and> jid \<noteq> [] then (Inr jid, [digits, variant]) else (Inr [], [digits, variant]))"

text \<open>
  \<^verbatim>\<open>Resolve\<close>: \<open>sess\<close> is the probe of the instance's session, None when there is none. Next to the
  answer, the numbers probed.
\<close>

definition resolve_missed :: "(nat \<Rightarrow> instant) \<Rightarrow> string \<Rightarrow> resolver \<Rightarrow> resolver" where
  "resolve_missed clock digits rs =
     (let rs = remember_negative (clock 1) digits rs; variant = brazilian_variant digits
      in if variant \<noteq> [] then remember_negative (clock 2) variant rs else rs)"

definition jid_resolve :: "(nat \<Rightarrow> instant) \<Rightarrow> probe option \<Rightarrow> string \<Rightarrow> resolver \<times> db
      \<Rightarrow> ((resolve_err + string) \<times> string list) \<times> resolver \<times> db" where
  "jid_resolve clock sess raw s =
     (case s of (rs, d) \<Rightarrow>
      let phone = trim_space raw in
      if phone = [] then ((Inl NumberNotFound, []), rs, d)
      else if CHR ''@'' \<in> set phone then ((Inr phone, []), rs, d)
      else let digits = normalize_phone phone in
        if digits = [] then ((Inl NumberNotFound, []), rs, d)
        else (case is_negative (clock 0) digits rs of
           (True, rs) \<Rightarrow> ((Inl NumberNotFound, []), rs, d)
         | (False, rs) \<Rightarrow>
             (case jidcache_get digits d of
                (Inr (Some jid), d) \<Rightarrow> ((Inr jid, []), rs, d)
              | (_, d) \<Rightarrow>
                  (case sess of
                     None \<Rightarrow> ((Inl ResolverUnavailable, []), rs, d)
                   | Some probe \<Rightarrow>
                       (case jid_lookup probe digits of
                          (Inl e, probed) \<Rightarrow> ((Inl e, probed), rs, d)
                        | (Inr jid, probed) \<Rightarrow>
                            if jid = [] then ((Inl NumberNotFound, probed), resolve_missed clock digits rs, d)
                            else (case jidcache_put digits jid (clock 1 + positive_jid_ttl) d of
                                    (_, d) \<Rightarrow> ((Inr jid, probed), rs, d)))))))"

section \<open>The variant\<close>

lemma split5: "4 < length d \<Longrightarrow> d = take 4 d @ d ! 4 # drop 5 d"
  using id_take_nth_drop [of 4 d] by simp

lemma brazilian_variant_cases:
  assumes "brazilian_variant d = v" "v \<noteq> []"
  obtains (drop) "length d = 13" "d = take 4 d @ CHR ''9'' # drop 5 d" "v = take 4 d @ drop 5 d"
        | (add) "length d = 12" "CHR ''6'' \<le> d ! 4" "d ! 4 \<le> CHR ''9''" "v = take 4 d @ CHR ''9'' # drop 4 d"
proof -
  consider "length d = 13" "d ! 4 = CHR ''9''" "v = take 4 d @ drop 5 d"
    | "length d = 12" "CHR ''6'' \<le> d ! 4" "d ! 4 \<le> CHR ''9''" "v = take 4 d @ ''9'' @ drop 4 d"
    using assms by (auto simp: brazilian_variant_def not_less split: if_splits)
  then show thesis
  proof cases
    case 1
    then show thesis using split5 [of d] by (intro drop) simp_all
  next
    case 2
    then show thesis by (intro add) simp_all
  qed
qed

text \<open>
  The ninth digit. A number has an alternate form only as a Brazilian number of twelve or thirteen
  digits; the two forms differ in exactly the ninth digit, the area code is the same, and the number
  with the digit removed is the alternate form of the one with it.
\<close>

theorem the_ninth_digit_comes_and_goes:
  assumes "brazilian_variant d = v" "v \<noteq> []"
  shows "(length d = 13 \<and> length v = 12 \<and> d = take 4 v @ ''9'' @ drop 4 v
       \<or> length d = 12 \<and> length v = 13 \<and> v = take 4 d @ ''9'' @ drop 4 d \<and> brazilian_variant v = d)
    \<and> take 4 v = take 4 d \<and> take 2 d = ''55''"
proof -
  obtain rest where pre: "d = ''55'' @ rest"
    using assms by (auto simp: brazilian_variant_def split: if_splits)
  have "take 2 d = ''55''" by (simp add: pre)
  with assms show ?thesis
  proof (cases rule: brazilian_variant_cases)
    case drop
    then have "take 4 v = take 4 d" "drop 4 v = drop 5 d" by simp_all
    then show ?thesis using drop \<open>take 2 d = ''55''\<close> by simp
  next
    case add
    then have v: "length v = 13" "v ! 4 = CHR ''9''" "take 4 v = take 4 d" "drop 5 v = drop 4 d"
      by (simp_all add: nth_append)
    have "v = ''55'' @ drop 2 v" unfolding add(4) by (simp add: pre)
    then have sp: "strip_prefix ''55'' v = Some (drop 2 v)" by (simp only: strip_prefix_Some)
    have "brazilian_variant v = take 4 d @ drop 4 d" unfolding brazilian_variant_def sp using v by simp
    then show ?thesis using add v \<open>take 2 d = ''55''\<close> by simp
  qed
qed

theorem the_ninth_digit_comes_and_goes_witness:
  "brazilian_variant ''551188887777'' = ''5511988887777'' \<and> brazilian_variant ''5511988887777'' = ''551188887777''"
proof -
  have v: "brazilian_variant ''551188887777'' = ''5511988887777''" by code_simp
  show ?thesis using v the_ninth_digit_comes_and_goes [OF v] by simp
qed

section \<open>The two caches\<close>

definition typed :: "string \<Rightarrow> string \<Rightarrow> bool" where
  "typed raw digits \<longleftrightarrow> trim_space raw \<noteq> [] \<and> CHR ''@'' \<notin> set (trim_space raw) \<and> digits \<noteq> []
     \<and> normalize_phone (trim_space raw) = digits"

lemma jid_resolve_typed:
  "typed raw digits \<Longrightarrow> jid_resolve clock sess raw (rs, d) =
     (case is_negative (clock 0) digits rs of
           (True, rs) \<Rightarrow> ((Inl NumberNotFound, []), rs, d)
         | (False, rs) \<Rightarrow>
             (case jidcache_get digits d of
                (Inr (Some jid), d) \<Rightarrow> ((Inr jid, []), rs, d)
              | (_, d) \<Rightarrow>
                  (case sess of
                     None \<Rightarrow> ((Inl ResolverUnavailable, []), rs, d)
                   | Some probe \<Rightarrow>
                       (case jid_lookup probe digits of
                          (Inl e, probed) \<Rightarrow> ((Inl e, probed), rs, d)
                        | (Inr jid, probed) \<Rightarrow>
                            if jid = [] then ((Inl NumberNotFound, probed), resolve_missed clock digits rs, d)
                            else (case jidcache_put digits jid (clock 1 + positive_jid_ttl) d of
                                    (_, d) \<Rightarrow> ((Inr jid, probed), rs, d))))))"
  by (simp add: jid_resolve_def typed_def Let_def)

lemma jid_lookup_missed:
  "jid_lookup probe digits = (Inr [], probed) \<Longrightarrow>
     probed = digits # (if brazilian_variant digits = [] then [] else [brazilian_variant digits])"
  by (auto simp: jid_lookup_def Let_def split: option.splits prod.splits if_splits)

lemma jid_lookup_not_found: "fst (jid_lookup probe digits) \<noteq> Inl NumberNotFound"
  by (auto simp: jid_lookup_def Let_def split: option.split prod.split)

lemma remember_negative_entry:
  "rs_negative (remember_negative now phone rs) phone = Some (now + negative_jid_ttl)"
  by (simp add: remember_negative_def Let_def)

lemma remember_negative_keeps:
  "rs_negative rs phone = Some e \<Longrightarrow> now < e \<Longrightarrow> phone \<noteq> other \<Longrightarrow>
     rs_negative (remember_negative now other rs) phone = Some e"
  by (simp add: remember_negative_def Let_def)

lemma negative_ttl_pos: "0 < negative_jid_ttl"
  by (simp add: negative_jid_ttl_def duration_defs)

lemma resolve_missed_entries:
  assumes "clock 1 \<le> clock 2" "clock 2 < clock 1 + negative_jid_ttl"
    and "phone = digits \<or> (phone = brazilian_variant digits \<and> phone \<noteq> [])"
  shows "\<exists>e. rs_negative (resolve_missed clock digits rs) phone = Some e \<and> clock 1 + negative_jid_ttl \<le> e"
proof -
  let ?v = "brazilian_variant digits" and ?one = "remember_negative (clock 1) digits rs"
  have one: "rs_negative ?one digits = Some (clock 1 + negative_jid_ttl)" by (rule remember_negative_entry)
  show ?thesis
  proof (cases "?v = []")
    case True
    then show ?thesis using one assms(3) by (auto simp: resolve_missed_def Let_def)
  next
    case False
    have two: "rs_negative (remember_negative (clock 2) ?v ?one) ?v = Some (clock 2 + negative_jid_ttl)"
      by (rule remember_negative_entry)
    show ?thesis
    proof (cases "phone = ?v")
      case True
      then show ?thesis using two False assms(1) by (simp add: resolve_missed_def Let_def)
    next
      case other: False
      then have "phone = digits" using assms(3) by auto
      then have "rs_negative (remember_negative (clock 2) ?v ?one) phone = Some (clock 1 + negative_jid_ttl)"
        using remember_negative_keeps [OF one assms(2)] other by blast
      then show ?thesis using False by (simp add: resolve_missed_def Let_def)
    qed
  qed
qed

text \<open>
  A miss is remembered. When neither form of a number was found, for a minute every request for
  either form is answered not found, for every instance and without probing again.
\<close>

theorem a_miss_blocks_both_forms_for_a_minute:
  assumes "jid_resolve clock (Some probe) raw (rs, d) = ((Inl NumberNotFound, probed), rs', d')"
    and "probed \<noteq> []" "clock 1 \<le> clock 2" "clock 2 < clock 1 + minute"
    and "later 0 < clock 1 + minute" "typed raw' digits'" "digits' \<in> set probed"
  shows "fst (jid_resolve later sess raw' (rs', d2)) = (Inl NumberNotFound, [])"
proof -
  obtain digits where ty: "typed raw digits"
    using assms(1,2) by (auto simp: jid_resolve_def typed_def Let_def split: if_splits)
  obtain rs1 where neg: "is_negative (clock 0) digits rs = (False, rs1)"
    using assms(1,2) unfolding jid_resolve_typed [OF ty] by (auto split: prod.splits bool.splits)
  have "\<exists>d1. jid_lookup probe digits = (Inr [], probed) \<and> rs' = resolve_missed clock digits rs1"
    using assms(1,2) jid_lookup_not_found [of probe digits] unfolding jid_resolve_typed [OF ty] neg
    by (auto split: prod.splits sum.splits option.splits if_splits)
  then have l: "jid_lookup probe digits = (Inr [], probed)" and rs': "rs' = resolve_missed clock digits rs1" by auto
  have "digits' = digits \<or> (digits' = brazilian_variant digits \<and> digits' \<noteq> [])"
    using assms(7) jid_lookup_missed [OF l] by (auto split: if_splits)
  then obtain e where e: "rs_negative rs' digits' = Some e" "clock 1 + negative_jid_ttl \<le> e"
    using resolve_missed_entries [of clock digits' digits rs1] assms(3,4) rs' by (auto simp: negative_jid_ttl_def)
  then have "is_negative (later 0) digits' rs' = (True, rs')"
    using assms(5) by (auto simp: is_negative_def negative_jid_ttl_def)
  then show ?thesis unfolding jid_resolve_typed [OF assms(6)] by simp
qed

theorem a_miss_blocks_both_forms_for_a_minute_witness:
  "fst (jid_resolve (\<lambda>_. 5) None ''+55 (11) 98888-7777'' (snd (jid_resolve (\<lambda>_. 0) (Some (\<lambda>_. Some ([], False)))
      ''551188887777'' (new_resolver, blank_db)))) = (Inl NumberNotFound, [])"
proof -
  have v: "brazilian_variant ''551188887777'' = ''5511988887777''" by code_simp
  have t1: "typed ''551188887777'' ''551188887777''" by code_simp
  have t2: "typed ''+55 (11) 98888-7777'' ''5511988887777''" by code_simp
  have r: "jid_resolve (\<lambda>_. 0) (Some (\<lambda>_. Some ([], False))) ''551188887777'' (new_resolver, blank_db) =
      ((Inl NumberNotFound, [''551188887777'', ''5511988887777'']),
       resolve_missed (\<lambda>_. 0) ''551188887777'' new_resolver, blank_db)"
    unfolding jid_resolve_typed [OF t1]
    by (simp add: is_negative_def new_resolver_def jidcache_get_def jid_lookup_def v)
  show ?thesis
    unfolding r by simp (rule a_miss_blocks_both_forms_for_a_minute [OF r _ _ _ _ t2], simp_all add: duration_defs)
qed

end
