(* ===== verification/MediaStorage.thy ===== *)
theory MediaStorage
  imports StoreIntegrity
begin

text \<open>
  Media files, \<^verbatim>\<open>internal/media/storage.go\<close> and \<^verbatim>\<open>cleaner.go\<close>: the file system below the data
  directory next to the rows of the database.

  The file system is outside the program. \<open>files\<close> maps a path to its content and has, like the
  database, a script of the operations that fail; what a failed write leaves in its file and which
  files a failed removal of a directory leaves are fields of it. A missing file is told apart from
  any other failure, as \<^verbatim>\<open>fs.ErrNotExist\<close> is.
\<close>

section \<open>Mime types\<close>

definition allowed_mimes :: "string list" where
  "allowed_mimes =
     [''image/jpeg'', ''image/png'', ''image/webp'', ''video/mp4'', ''video/3gpp'', ''audio/aac'',
      ''audio/amr'', ''audio/mpeg'', ''audio/mp4'', ''audio/ogg'', ''application/pdf'', ''text/plain'',
      ''application/msword'', ''application/vnd.ms-excel'', ''application/vnd.ms-powerpoint'',
      ''application/vnd.openxmlformats-officedocument.wordprocessingml.document'',
      ''application/vnd.openxmlformats-officedocument.spreadsheetml.sheet'',
      ''application/vnd.openxmlformats-officedocument.presentationml.presentation'']"

definition allowed_mime :: "string \<Rightarrow> bool" where
  "allowed_mime mimetype \<longleftrightarrow> to_lower (trim_space mimetype) \<in> set allowed_mimes"

definition has_prefix :: "string \<Rightarrow> string \<Rightarrow> bool" where
  "has_prefix s p \<longleftrightarrow> strip_prefix p s \<noteq> None"

definition media_kind :: "string \<Rightarrow> string option" where
  "media_kind mimetype =
     (let normalized = to_lower (trim_space mimetype) in
      if normalized \<notin> set allowed_mimes then None
      else if has_prefix normalized ''image/'' then Some ''image''
      else if has_prefix normalized ''video/'' then Some ''video''
      else if has_prefix normalized ''audio/'' then Some ''audio''
      else Some ''document'')"

lemma media_kind_allowed: "media_kind m = None \<longleftrightarrow> \<not> allowed_mime m"
  by (simp add: media_kind_def allowed_mime_def Let_def)

section \<open>Paths\<close>

text \<open>\<^verbatim>\<open>filepath.Clean\<close> and \<^verbatim>\<open>filepath.Join\<close> of two elements, on the elements between the slashes.\<close>

fun split_slash :: "string \<Rightarrow> string list" where
  "split_slash [] = [[]]"
| "split_slash (c # cs) =
     (if c = CHR ''/'' then [] # split_slash cs
      else case split_slash cs of [] \<Rightarrow> [[c]] | seg # segs \<Rightarrow> (c # seg) # segs)"

fun join_slash :: "string list \<Rightarrow> string" where
  "join_slash [] = []"
| "join_slash [s] = s"
| "join_slash (s # segs) = s @ ''/'' @ join_slash segs"

text \<open>\<open>clean_segs rooted out segs\<close>: \<open>out\<close> holds the elements kept so far, the last one first.\<close>

fun clean_segs :: "bool \<Rightarrow> string list \<Rightarrow> string list \<Rightarrow> string list" where
  "clean_segs rooted out [] = rev out"
| "clean_segs rooted out (s # segs) =
     (if s = [] \<or> s = ''.'' then clean_segs rooted out segs
      else if s = ''..'' then
        (case out of
           [] \<Rightarrow> if rooted then clean_segs rooted [] segs else clean_segs rooted [''..''] segs
         | prev # below \<Rightarrow>
             if prev = ''..'' then clean_segs rooted (''..'' # out) segs
             else clean_segs rooted below segs)
      else clean_segs rooted (s # out) segs)"

definition is_abs :: "string \<Rightarrow> bool" where
  "is_abs p \<longleftrightarrow> has_prefix p ''/''"

definition clean_path :: "string \<Rightarrow> string" where
  "clean_path p =
     (let segs = clean_segs (is_abs p) [] (split_slash p) in
      if is_abs p then CHR ''/'' # join_slash segs
      else if segs = [] then ''.'' else join_slash segs)"

definition path_join :: "string \<Rightarrow> string \<Rightarrow> string" where
  "path_join a b =
     (if a = [] then (if b = [] then [] else clean_path b)
      else if b = [] then clean_path a else clean_path (a @ ''/'' @ b))"

text \<open>\<^verbatim>\<open>filepath.Base\<close>.\<close>

definition path_base :: "string \<Rightarrow> string" where
  "path_base p =
     (if p = [] then ''.''
      else let segs = filter (\<lambda>s. s \<noteq> []) (split_slash p) in
        if segs = [] then ''/'' else last segs)"

definition sanitize_filename :: "string \<Rightarrow> string" where
  "sanitize_filename filename =
     (let name = trim_space filename in if name = [] then [] else path_base name)"

text \<open>\<open>safe_path dir rel\<close> is the method \<^verbatim>\<open>path\<close>: None is \<^verbatim>\<open>ErrNotFound\<close>.\<close>

definition safe_path :: "string \<Rightarrow> string \<Rightarrow> string option" where
  "safe_path dir rel =
     (let clean = clean_path rel in
      if is_abs clean \<or> clean = ''..'' \<or> has_prefix clean ''../'' then None
      else Some (path_join dir clean))"

section \<open>The file system\<close>

record files =
  fs_content :: "string \<Rightarrow> string option"
  fs_script :: "bool list"
  fs_torn :: "string \<Rightarrow> string"
  fs_survives :: "string \<Rightarrow> bool"

datatype fs_err = FsNotExist | FsFailed

definition fs_next :: "files \<Rightarrow> bool \<times> files" where
  "fs_next f = (case fs_script f of [] \<Rightarrow> (True, f) | ok # rest \<Rightarrow> (ok, f\<lparr>fs_script := rest\<rparr>))"

definition fs_set :: "string \<Rightarrow> string option \<Rightarrow> files \<Rightarrow> files" where
  "fs_set p c f = f\<lparr>fs_content := (fs_content f)(p := c)\<rparr>"

definition fs_mkdir :: "files \<Rightarrow> bool \<times> files" where
  "fs_mkdir = fs_next"

definition fs_create :: "string \<Rightarrow> files \<Rightarrow> bool \<times> files" where
  "fs_create p f = (case fs_next f of (ok, f) \<Rightarrow> if ok then (True, fs_set p (Some []) f) else (False, f))"

definition fs_write :: "string \<Rightarrow> string \<Rightarrow> files \<Rightarrow> bool \<times> files" where
  "fs_write p data f = (case fs_next f of (ok, f) \<Rightarrow>
     (ok, fs_set p (Some (if ok then data else fs_torn f data)) f))"

definition fs_close :: "files \<Rightarrow> bool \<times> files" where
  "fs_close = fs_next"

definition fs_rename :: "string \<Rightarrow> string \<Rightarrow> files \<Rightarrow> bool \<times> files" where
  "fs_rename old new f = (case fs_next f of (ok, f) \<Rightarrow>
     if ok then (True, fs_set old None (fs_set new (fs_content f old) f)) else (False, f))"

definition fs_remove :: "string \<Rightarrow> files \<Rightarrow> (fs_err + unit) \<times> files" where
  "fs_remove p f = (case fs_next f of (ok, f) \<Rightarrow>
     if \<not> ok then (Inl FsFailed, f)
     else if fs_content f p = None then (Inl FsNotExist, f)
     else (Inr (), fs_set p None f))"

definition fs_stat :: "string \<Rightarrow> files \<Rightarrow> (fs_err + unit) \<times> files" where
  "fs_stat p f = (case fs_next f of (ok, f) \<Rightarrow>
     (if \<not> ok then Inl FsFailed else if fs_content f p = None then Inl FsNotExist else Inr (), f))"

definition fs_open :: "string \<Rightarrow> files \<Rightarrow> (fs_err + string) \<times> files" where
  "fs_open p f = (case fs_next f of (ok, f) \<Rightarrow>
     (if \<not> ok then Inl FsFailed
      else case fs_content f p of None \<Rightarrow> Inl FsNotExist | Some c \<Rightarrow> Inr c, f))"

definition fs_remove_all :: "string \<Rightarrow> files \<Rightarrow> bool \<times> files" where
  "fs_remove_all dir f = (case fs_next f of (ok, f) \<Rightarrow>
     let below = (\<lambda>p. p = dir \<or> has_prefix p (dir @ ''/'')) in
     (ok, f\<lparr>fs_content := (\<lambda>p. if below p \<and> (ok \<or> \<not> fs_survives f p) then None else fs_content f p)\<rparr>))"

section \<open>Storage\<close>

datatype media_err = MediaNotFound | MediaExpired | MediaEmpty | MediaTooLarge | MediaStore storage_err | MediaFs

record storage_config =
  st_dir :: string
  st_max_bytes :: int
  st_ttl :: duration
  st_sha256_hex :: "string \<Rightarrow> string"
  st_show_id :: "uuid \<Rightarrow> string"

fun map_repo_error :: "storage_err \<Rightarrow> media_err" where
  "map_repo_error SNotFound = MediaNotFound"
| "map_repo_error e = MediaStore e"

text \<open>\<open>tmp\<close> is the name \<^verbatim>\<open>os.CreateTemp\<close> makes up in the target's directory.\<close>

definition write_media_file :: "string \<Rightarrow> string \<Rightarrow> string \<Rightarrow> files \<Rightarrow> bool \<times> files" where
  "write_media_file tmp path data f =
     (case fs_mkdir f of (False, f) \<Rightarrow> (False, f) | (True, f) \<Rightarrow>
      (case fs_create tmp f of (False, f) \<Rightarrow> (False, f) | (True, f) \<Rightarrow>
       (case fs_write tmp data f of
          (False, f) \<Rightarrow> (case fs_close f of (_, f) \<Rightarrow> (False, snd (fs_remove tmp f)))
        | (True, f) \<Rightarrow>
            (case fs_close f of (False, f) \<Rightarrow> (False, snd (fs_remove tmp f)) | (True, f) \<Rightarrow>
             (case fs_rename tmp path f of
                (False, f) \<Rightarrow> (False, snd (fs_remove tmp f)) | (True, f) \<Rightarrow> (True, f))))))"

record media_world =
  mw_db :: db
  mw_fs :: files

definition media_rel_path :: "storage_config \<Rightarrow> uuid \<Rightarrow> uuid \<Rightarrow> string" where
  "media_rel_path sc inst i = path_join (path_join ''media'' (st_show_id sc inst)) (st_show_id sc i)"

definition media_save :: "storage_config \<Rightarrow> uuid \<Rightarrow> string \<Rightarrow> instant \<Rightarrow> uuid \<Rightarrow> string \<Rightarrow> string \<Rightarrow> string
      \<Rightarrow> string \<Rightarrow> string \<Rightarrow> media_world \<Rightarrow> (media_err + media) \<times> media_world" where
  "media_save sc fresh tmp now inst direction message_id mimetype filename data w =
     (if data = [] then (Inl MediaEmpty, w)
      else if int (length data) > st_max_bytes sc then (Inl MediaTooLarge, w)
      else
        (let rel = media_rel_path sc inst fresh; full = path_join (st_dir sc) rel in
         case write_media_file tmp full data (mw_fs w) of
           (False, f) \<Rightarrow> (Inl MediaFs, w\<lparr>mw_fs := f\<rparr>)
         | (True, f) \<Rightarrow>
             (case media_create
                 \<lparr>md_id = fresh, md_instance = inst, md_direction = direction, md_message = message_id,
                  md_mimetype = mimetype, md_filename = sanitize_filename filename,
                  md_size = int (length data), md_path = rel, md_sha256 = st_sha256_hex sc data,
                  md_created = now, md_expires = now + st_ttl sc\<rparr> (mw_db w) of
                (Inl e, d) \<Rightarrow> (Inl (map_repo_error e), \<lparr>mw_db = d, mw_fs = snd (fs_remove full f)\<rparr>)
              | (Inr created, d) \<Rightarrow> (Inr created, \<lparr>mw_db = d, mw_fs = f\<rparr>))))"

definition media_path :: "storage_config \<Rightarrow> instant \<Rightarrow> uuid \<Rightarrow> media_world
      \<Rightarrow> (media_err + string \<times> media) \<times> media_world" where
  "media_path sc now i w =
     (case media_get i (mw_db w) of
        (Inl e, d) \<Rightarrow> (Inl (map_repo_error e), w\<lparr>mw_db := d\<rparr>)
      | (Inr rec, d) \<Rightarrow>
          (let w = w\<lparr>mw_db := d\<rparr> in
           if \<not> now < md_expires rec then (Inl MediaExpired, w)
           else case safe_path (st_dir sc) (md_path rec) of
             None \<Rightarrow> (Inl MediaNotFound, w)
           | Some p \<Rightarrow>
               (case fs_stat p (mw_fs w) of
                  (Inl FsNotExist, f) \<Rightarrow> (Inl MediaNotFound, w\<lparr>mw_fs := f\<rparr>)
                | (Inl FsFailed, f) \<Rightarrow> (Inl MediaFs, w\<lparr>mw_fs := f\<rparr>)
                | (Inr _, f) \<Rightarrow> (Inr (p, rec), w\<lparr>mw_fs := f\<rparr>))))"

definition media_open :: "storage_config \<Rightarrow> instant \<Rightarrow> uuid \<Rightarrow> media_world
      \<Rightarrow> (media_err + string \<times> media) \<times> media_world" where
  "media_open sc now i w =
     (case media_path sc now i w of
        (Inl e, w) \<Rightarrow> (Inl e, w)
      | (Inr (p, rec), w) \<Rightarrow>
          (case fs_open p (mw_fs w) of
             (Inl FsNotExist, f) \<Rightarrow> (Inl MediaNotFound, w\<lparr>mw_fs := f\<rparr>)
           | (Inl FsFailed, f) \<Rightarrow> (Inl MediaFs, w\<lparr>mw_fs := f\<rparr>)
           | (Inr content, f) \<Rightarrow> (Inr (content, rec), w\<lparr>mw_fs := f\<rparr>)))"

text \<open>\<^verbatim>\<open>removeFile\<close>: True when the file is gone.\<close>

definition remove_file :: "storage_config \<Rightarrow> string \<Rightarrow> files \<Rightarrow> bool \<times> files" where
  "remove_file sc rel f =
     (case safe_path (st_dir sc) rel of
        None \<Rightarrow> (False, f)
      | Some p \<Rightarrow> (case fs_remove p f of (res, f) \<Rightarrow> (res \<noteq> Inl FsFailed, f)))"

fun remove_files :: "storage_config \<Rightarrow> media list \<Rightarrow> files \<Rightarrow> bool \<times> files" where
  "remove_files sc [] f = (True, f)"
| "remove_files sc (r # rs) f =
     (case remove_file sc (md_path r) f of (ok, f) \<Rightarrow>
      (case remove_files sc rs f of (oks, f) \<Rightarrow> (ok \<and> oks, f)))"

definition media_delete_instance :: "storage_config \<Rightarrow> uuid \<Rightarrow> media_world \<Rightarrow> (media_err + unit) \<times> media_world" where
  "media_delete_instance sc inst w =
     (case media_list_by_instance inst (mw_db w) of
        (Inl e, d) \<Rightarrow> (Inl (MediaStore e), w\<lparr>mw_db := d\<rparr>)
      | (Inr rs, d) \<Rightarrow>
          (case remove_files sc rs (mw_fs w) of
             (False, f) \<Rightarrow> (Inl MediaFs, \<lparr>mw_db = d, mw_fs = f\<rparr>)
           | (True, f) \<Rightarrow>
               (case media_delete_by_instance inst d of
                  (Inl e, d) \<Rightarrow> (Inl (MediaStore e), \<lparr>mw_db = d, mw_fs = f\<rparr>)
                | (Inr _, d) \<Rightarrow>
                    (case fs_remove_all (path_join (path_join (st_dir sc) ''media'') (st_show_id sc inst)) f of
                       (ok, f) \<Rightarrow> (if ok then Inr () else Inl MediaFs, \<lparr>mw_db = d, mw_fs = f\<rparr>)))))"

text \<open>The loop of \<^verbatim>\<open>DeleteExpired\<close>: the removed records and whether none failed.\<close>

fun delete_expired_loop :: "storage_config \<Rightarrow> media list \<Rightarrow> media_world \<Rightarrow> (nat \<times> bool) \<times> media_world" where
  "delete_expired_loop sc [] w = ((0, True), w)"
| "delete_expired_loop sc (r # rs) w =
     (case remove_file sc (md_path r) (mw_fs w) of
        (False, f) \<Rightarrow> (case delete_expired_loop sc rs (w\<lparr>mw_fs := f\<rparr>) of ((n, _), w) \<Rightarrow> ((n, False), w))
      | (True, f) \<Rightarrow>
          (case media_delete (md_id r) (mw_db w) of
             (res, d) \<Rightarrow>
               (case delete_expired_loop sc rs \<lparr>mw_db = d, mw_fs = f\<rparr> of
                  ((n, ok), w) \<Rightarrow>
                    if res = Inr () \<or> res = Inl SNotFound then ((n + 1, ok), w) else ((n, False), w))))"

definition delete_expired :: "storage_config \<Rightarrow> instant \<Rightarrow> media_world \<Rightarrow> (nat \<times> bool) \<times> media_world" where
  "delete_expired sc now w =
     (case media_list_expired now (mw_db w) of
        (Inl _, d) \<Rightarrow> ((0, False), w\<lparr>mw_db := d\<rparr>)
      | (Inr rs, d) \<Rightarrow> delete_expired_loop sc rs (w\<lparr>mw_db := d\<rparr>))"

definition cleaner_interval :: duration where
  "cleaner_interval = minute"

text \<open>The cleaner: one pass per instant of the clock, whatever the passes answer.\<close>

fun cleaner_run :: "storage_config \<Rightarrow> instant list \<Rightarrow> media_world \<Rightarrow> media_world" where
  "cleaner_run sc [] w = w"
| "cleaner_run sc (now # nows) w = cleaner_run sc nows (snd (delete_expired sc now w))"

section \<open>Paths stay below the data directory\<close>

definition plain_segs :: "string list \<Rightarrow> bool" where
  "plain_segs segs \<longleftrightarrow> (\<forall>s \<in> set segs. s \<noteq> [] \<and> s \<noteq> ''.'' \<and> s \<noteq> ''..'' \<and> CHR ''/'' \<notin> set s)"

definition segs_of :: "string \<Rightarrow> string list" where
  "segs_of p = clean_segs (is_abs p) [] (split_slash p)"

definition render :: "bool \<Rightarrow> string list \<Rightarrow> string" where
  "render rooted segs = (if rooted then CHR ''/'' # join_slash segs else if segs = [] then ''.'' else join_slash segs)"

lemma clean_path_render: "clean_path p = render (is_abs p) (segs_of p)"
  by (simp add: clean_path_def segs_of_def render_def Let_def)

lemma plain_segs_simps [simp]:
  "plain_segs []" "plain_segs (xs @ ys) = (plain_segs xs \<and> plain_segs ys)"
  "plain_segs (rev xs) = plain_segs xs"
  "plain_segs (s # xs) = (s \<noteq> [] \<and> s \<noteq> ''.'' \<and> s \<noteq> ''..'' \<and> CHR ''/'' \<notin> set s \<and> plain_segs xs)"
  by (auto simp: plain_segs_def)

lemma split_slash_nonempty [simp]: "split_slash s \<noteq> []"
  by (induction s) (auto split: list.split)

lemma split_slash_no_slash: "seg \<in> set (split_slash s) \<Longrightarrow> CHR ''/'' \<notin> set seg"
  by (induction s arbitrary: seg) (auto split: list.splits if_splits)

lemma split_slash_append: "split_slash (a @ CHR ''/'' # b) = split_slash a @ split_slash b"
  by (induction a) (auto split: list.split)

lemma split_slash_plain: "CHR ''/'' \<notin> set s \<Longrightarrow> split_slash s = [s]"
  by (induction s) auto

lemma split_join: "segs \<noteq> [] \<Longrightarrow> \<forall>s \<in> set segs. CHR ''/'' \<notin> set s \<Longrightarrow> split_slash (join_slash segs) = segs"
proof (induction segs rule: join_slash.induct)
  case (2 s)
  then show ?case by (simp add: split_slash_plain)
next
  case (3 s t segs)
  then have "split_slash (s @ CHR ''/'' # join_slash (t # segs)) = s # t # segs"
    by (simp add: split_slash_append split_slash_plain)
  then show ?case by simp
qed simp

lemma clean_segs_append: "clean_segs r out (xs @ ys) = clean_segs r (rev (clean_segs r out xs)) ys"
  by (induction r out xs rule: clean_segs.induct) (auto split: list.split)

lemma clean_segs_plain: "plain_segs segs \<Longrightarrow> clean_segs r out segs = rev out @ segs"
  by (induction segs arbitrary: out) auto

lemma clean_segs_form:
  assumes "\<forall>s \<in> set segs. CHR ''/'' \<notin> set s" "plain_segs names"
  shows "\<exists>k' names'. clean_segs r (names @ replicate k ''..'') segs = replicate k' ''..'' @ names' \<and> plain_segs names'"
  using assms
proof (induction segs arbitrary: names k)
  case Nil
  then show ?case by (intro exI [of _ k] exI [of _ "rev names"]) simp
next
  case (Cons s segs)
  show ?case
  proof (cases "s = ''..''")
    case False
    then show ?thesis
      using Cons.IH [of names k] Cons.IH [of "s # names" k] Cons.prems by auto
  next
    case True
    show ?thesis
    proof (cases names)
      case (Cons n rest)
      then show ?thesis using True Cons.IH [of rest k] Cons.prems by simp
    next
      case Nil
      then show ?thesis
        using True Cons.IH [of "[]" 0] Cons.IH [of "[]" 1] Cons.IH [of "[]" "Suc k"] Cons.prems
        by (cases k; cases r) simp_all
    qed
  qed
qed

lemma segs_of_form: "\<exists>k names. segs_of p = replicate k ''..'' @ names \<and> plain_segs names"
  using clean_segs_form [of "split_slash p" "[]" "is_abs p" 0] split_slash_no_slash
  by (auto simp: segs_of_def)

lemma join_slash_not_abs: "plain_segs segs \<Longrightarrow> \<not> is_abs (join_slash segs)"
  by (induction segs rule: join_slash.induct)
    (auto simp: is_abs_def has_prefix_def plain_segs_def neq_Nil_conv)

lemma join_slash_dots:
  "join_slash (replicate (Suc k) ''..'' @ names) = ''..'' \<or> has_prefix (join_slash (replicate (Suc k) ''..'' @ names)) ''../''"
  by (cases "replicate k ''..'' @ names") (auto simp: has_prefix_def)

lemma join_slash_plain_safe:
  assumes "plain_segs names" "names \<noteq> []"
  shows "\<not> has_prefix (join_slash names) ''../''" "join_slash names \<noteq> ''..''"
proof -
  have split: "split_slash (join_slash names) = names"
    using assms by (intro split_join) (auto simp: plain_segs_def)
  show "join_slash names \<noteq> ''..''"
  proof
    assume "join_slash names = ''..''"
    then have "names = [''..'']" using split by simp
    then show False using assms(1) by simp
  qed
  show "\<not> has_prefix (join_slash names) ''../''"
  proof
    assume "has_prefix (join_slash names) ''../''"
    then obtain r where "join_slash names = ''..'' @ CHR ''/'' # r" by (auto simp: has_prefix_def)
    then have "names = split_slash ''..'' @ split_slash r" using split split_slash_append by metis
    then show False using assms(1) by simp
  qed
qed

lemma path_join_segs:
  assumes "a \<noteq> []" "plain_segs names" "names \<noteq> []"
  shows "path_join a (join_slash names) = render (is_abs a) (segs_of a @ names)"
proof -
  have "join_slash names \<noteq> []" using assms(2,3) by (cases names rule: join_slash.cases) (auto simp: plain_segs_def)
  moreover have "is_abs (a @ CHR ''/'' # join_slash names) = is_abs a"
    using assms(1) by (cases a) (auto simp: is_abs_def has_prefix_def)
  moreover have "split_slash (join_slash names) = names"
    using assms(2,3) by (intro split_join) (auto simp: plain_segs_def)
  ultimately show ?thesis
    using assms by (simp add: path_join_def clean_path_render segs_of_def split_slash_append
        clean_segs_append clean_segs_plain)
qed

lemma safe_path_form:
  assumes "safe_path dir rel = Some p" "dir \<noteq> []"
  shows "\<exists>names. plain_segs names \<and> segs_of rel = names \<and> \<not> is_abs rel
    \<and> p = render (is_abs dir) (segs_of dir @ names)"
proof -
  obtain k names where form: "segs_of rel = replicate k ''..'' @ names" "plain_segs names"
    using segs_of_form by blast
  have rel: "\<not> is_abs rel"
    using assms(1) by (auto simp: safe_path_def Let_def clean_path_render render_def is_abs_def has_prefix_def
        split: if_splits)
  have clean: "clean_path rel = (if segs_of rel = [] then ''.'' else join_slash (segs_of rel))"
    using rel by (simp add: clean_path_render render_def)
  have "k = 0"
  proof (rule ccontr)
    assume "k \<noteq> 0"
    then obtain j where j: "k = Suc j" by (cases k) auto
    then have "clean_path rel = join_slash (replicate (Suc j) ''..'' @ names)"
      using clean form by simp
    then show False using assms(1) join_slash_dots [of j names] by (auto simp: safe_path_def Let_def)
  qed
  then have names: "segs_of rel = names" using form by simp
  have "p = render (is_abs dir) (segs_of dir @ names)"
  proof (cases "names = []")
    case True
    have "is_abs (dir @ ''/.'') = is_abs dir" using assms(2) by (cases dir) (auto simp: is_abs_def has_prefix_def)
    moreover have "split_slash (dir @ CHR ''/'' # ''.'') = split_slash dir @ [''.'']"
      by (simp only: split_slash_append) simp
    ultimately have "path_join dir ''.'' = render (is_abs dir) (segs_of dir)"
      using assms(2) by (simp add: path_join_def clean_path_render segs_of_def clean_segs_append)
    then show ?thesis using assms(1) clean names True by (auto simp: safe_path_def Let_def split: if_splits)
  next
    case False
    then have "p = path_join dir (join_slash names)"
      using assms(1) clean names by (auto simp: safe_path_def Let_def split: if_splits)
    then show ?thesis using path_join_segs [OF assms(2) form(2) False] by simp
  qed
  then show ?thesis using form(2) names rel by blast
qed

lemma safe_path_plain:
  assumes "segs_of rel = names" "plain_segs names" "\<not> is_abs rel" "names \<noteq> []" "dir \<noteq> []"
  shows "safe_path dir rel = Some (render (is_abs dir) (segs_of dir @ names))"
proof -
  have "clean_path rel = join_slash names" using assms by (simp add: clean_path_render render_def)
  then show ?thesis
    using join_slash_plain_safe [OF assms(2,4)] join_slash_not_abs [OF assms(2)] path_join_segs [OF assms(5,2,4)]
    by (simp add: safe_path_def)
qed

lemma render_segs: "plain_segs names \<Longrightarrow> names \<noteq> [] \<Longrightarrow> segs_of (join_slash names) = names"
  by (simp add: segs_of_def split_join plain_segs_def clean_segs_plain [unfolded plain_segs_def])

text \<open>
  Whatever path a row holds, a file below the data directory is touched or none: the path used
  is the data directory followed by plain names, with no dot-dot, empty or slash-carrying element.
\<close>

theorem media_paths_stay_below_the_data_dir:
  assumes "safe_path dir rel = Some p" "dir \<noteq> []"
  shows "\<exists>names. (\<forall>s \<in> set names. s \<noteq> [] \<and> s \<noteq> ''.'' \<and> s \<noteq> ''..'' \<and> CHR ''/'' \<notin> set s)
    \<and> p = render (is_abs dir) (segs_of dir @ names)"
  using safe_path_form [OF assms] by (auto simp: plain_segs_def)

theorem media_paths_stay_below_the_data_dir_witness:
  "safe_path ''/data'' ''media/../media/x'' = Some ''/data/media/x'' \<and>
   (\<exists>names. (\<forall>s \<in> set names. s \<noteq> [] \<and> s \<noteq> ''.'' \<and> s \<noteq> ''..'' \<and> CHR ''/'' \<notin> set s)
    \<and> ''/data/media/x'' = render (is_abs ''/data'') (segs_of ''/data'' @ names))"
proof -
  have s: "safe_path ''/data'' ''media/../media/x'' = Some ''/data/media/x''" by code_simp
  show ?thesis using s media_paths_stay_below_the_data_dir [OF s] by simp
qed

section \<open>A saved file\<close>

lemma fs_set_content [simp]: "fs_content (fs_set p c f) = (fs_content f)(p := c)"
  "fs_script (fs_set p c f) = fs_script f"
  by (simp_all add: fs_set_def)

lemma fs_next_content: "fs_next f = (ok, f') \<Longrightarrow> fs_content f' = fs_content f"
  by (auto simp: fs_next_def split: list.splits)

lemma fs_next_quiet [simp]: "fs_script f = [] \<Longrightarrow> fs_next f = (True, f)"
  by (simp add: fs_next_def)

lemma fs_remove_content: "fs_remove p f = (res, f') \<Longrightarrow>
    fs_content f' = fs_content f \<or> fs_content f' = (fs_content f)(p := None)"
  by (auto simp: fs_remove_def dest: fs_next_content split: prod.splits if_splits)

lemma fs_remove_gone: "fs_remove p f = (res, f') \<Longrightarrow> res \<noteq> Inl FsFailed \<Longrightarrow>
    fs_content f' = (fs_content f)(p := None)"
  by (auto simp: fs_remove_def dest!: fs_next_content split: prod.splits if_splits)

text \<open>Every step of the write touches the temporary name only, except the final rename.\<close>

definition only_at :: "string \<Rightarrow> files \<Rightarrow> files \<Rightarrow> bool" where
  "only_at p f f' \<longleftrightarrow> (\<exists>c. fs_content f' = (fs_content f)(p := c))"

lemma upd_same [simp]: "\<exists>c. g = g(p := c)"
  by (metis fun_upd_triv)

lemma only_at_refl [simp]: "only_at p f f"
  unfolding only_at_def by (metis fun_upd_triv)

lemma only_at_trans: "only_at p f g \<Longrightarrow> only_at p g h \<Longrightarrow> only_at p f h"
  unfolding only_at_def by (metis fun_upd_upd)

lemma only_at_same: "fs_content f' = fs_content f \<Longrightarrow> only_at p f f'"
  unfolding only_at_def by (metis fun_upd_triv)

lemma only_at_other: "only_at p f f' \<Longrightarrow> q \<noteq> p \<Longrightarrow> fs_content f' q = fs_content f q"
  by (auto simp: only_at_def)

lemma only_at_steps:
  "fs_next f = (ok, f') \<Longrightarrow> only_at p f f'"
  "fs_create p f = (ok, f') \<Longrightarrow> only_at p f f'"
  "fs_write p data f = (ok, f') \<Longrightarrow> only_at p f f'"
  "only_at p f (snd (fs_remove p f))"
  by (auto simp: fs_create_def fs_write_def fs_remove_def only_at_def dest!: fs_next_content
      split: prod.splits if_splits)

lemma fs_write_ok: "fs_write p data f = (True, f') \<Longrightarrow> fs_content f' p = Some data"
  by (auto simp: fs_write_def split: prod.splits)

lemma write_media_file_content:
  assumes "write_media_file tmp path data f = (ok, f')"
  shows "if ok then fs_content f' = (fs_content f)(path := Some data, tmp := None) else only_at tmp f f'"
proof -
  obtain ok1 f1 where f1: "fs_mkdir f = (ok1, f1)" by (cases "fs_mkdir f")
  obtain ok2 f2 where f2: "fs_create tmp f1 = (ok2, f2)" by (cases "fs_create tmp f1")
  obtain ok3 f3 where f3: "fs_write tmp data f2 = (ok3, f3)" by (cases "fs_write tmp data f2")
  obtain ok4 f4 where f4: "fs_close f3 = (ok4, f4)" by (cases "fs_close f3")
  obtain ok5 f5 where f5: "fs_rename tmp path f4 = (ok5, f5)" by (cases "fs_rename tmp path f4")
  have c1: "only_at tmp f f1" using f1 by (simp add: fs_mkdir_def only_at_steps)
  have c2: "only_at tmp f f2" using only_at_trans [OF c1 only_at_steps(2) [OF f2]] .
  have c3: "only_at tmp f f3" using only_at_trans [OF c2 only_at_steps(3) [OF f3]] .
  have c34: "fs_content f4 = fs_content f3" using f4 by (simp add: fs_close_def fs_next_content)
  have c4: "only_at tmp f f4" using only_at_trans [OF c3 only_at_same [OF c34]] .
  have c5: "fs_content f5 = (if ok5 then (fs_content f4)(path := fs_content f4 tmp, tmp := None) else fs_content f4)"
    using f5 by (auto simp: fs_rename_def dest!: fs_next_content split: prod.splits if_splits)
  note rm = only_at_trans [OF _ only_at_steps(4)]
  have out: "(ok, f') = (if \<not> ok1 then (False, f1) else if \<not> ok2 then (False, f2)
      else if \<not> ok3 then (False, snd (fs_remove tmp f4))
      else if \<not> ok4 then (False, snd (fs_remove tmp f4))
      else if \<not> ok5 then (False, snd (fs_remove tmp f5)) else (True, f5))"
    using assms f1 f2 f3 f4 f5 by (auto simp: write_media_file_def split: bool.splits if_splits)
  show ?thesis
  proof (cases "ok1 \<and> ok2 \<and> ok3 \<and> ok4 \<and> ok5")
    case True
    then have "fs_content f4 tmp = Some data" using fs_write_ok f3 c34 by simp
    moreover obtain c where "fs_content f4 = (fs_content f)(tmp := c)" using c4 by (auto simp: only_at_def)
    ultimately show ?thesis using out True c5 by (auto simp: fun_eq_iff)
  next
    case False
    have "only_at tmp f f5" if "\<not> ok5" using only_at_trans [OF c4 only_at_same] c5 that by simp
    then show ?thesis using False out c1 c2 c4 rm by (auto split: if_splits)
  qed
qed

lemma media_create_row:
  assumes "media_create m d = (res, d')"
  shows "case res of Inl _ \<Rightarrow> same_tables d d'
    | Inr created \<Rightarrow> created = scan_media (media_row_of d m) \<and> md_id m \<notin> dr_id ` set (t_media d)
        \<and> t_media d' = t_media d @ [media_row_of d m]"
  using assms unfolding media_create_def
proof (rule pg_run_inv, goal_cases)
  case (2 e r e')
  have "media_row_of e m = media_row_of d m"
    using same_tables_fields [OF 2(1)] by (simp add: media_row_of_def)
  then show ?case using 2 same_tables_fields [OF 2(1)] by (auto simp: Let_def split: if_splits)
qed simp

text \<open>
  A save that failed recorded nothing, and at the file's final name there is what was there
  before, nothing, or the complete content: never a part of it. Only the temporary name is touched
  besides.
\<close>

theorem a_failed_save_leaves_no_partial_file:
  assumes "media_save sc fresh tmp now inst direction message_id mimetype filename data w = (Inl e, w')"
    and "p \<noteq> tmp"
  shows "same_tables (mw_db w) (mw_db w') \<and>
    (fs_content (mw_fs w') p = fs_content (mw_fs w) p \<or>
      (p = path_join (st_dir sc) (media_rel_path sc inst fresh) \<and> fs_content (mw_fs w') p \<in> {None, Some data}))"
proof (cases "data = [] \<or> int (length data) > st_max_bytes sc")
  case True
  then show ?thesis using assms(1) by (auto simp: media_save_def split: if_splits)
next
  case False
  let ?full = "path_join (st_dir sc) (media_rel_path sc inst fresh)"
  obtain ok f where f: "write_media_file tmp ?full data (mw_fs w) = (ok, f)"
    by (cases "write_media_file tmp ?full data (mw_fs w)")
  note c = write_media_file_content [OF f]
  show ?thesis
  proof (cases ok)
    case no: False
    then show ?thesis
      using assms False f c by (auto simp: media_save_def Let_def dest: only_at_other)
  next
    case True
    let ?m = "\<lparr>md_id = fresh, md_instance = inst, md_direction = direction, md_message = message_id,
                  md_mimetype = mimetype, md_filename = sanitize_filename filename,
                  md_size = int (length data), md_path = media_rel_path sc inst fresh,
                  md_sha256 = st_sha256_hex sc data, md_created = now, md_expires = now + st_ttl sc\<rparr>"
    obtain r d where d: "media_create ?m (mw_db w) = (r, d)" by (cases "media_create ?m (mw_db w)")
    have "w' = \<lparr>mw_db = d, mw_fs = snd (fs_remove ?full f)\<rparr>" "\<exists>e. r = Inl e"
      using assms(1) False f True d by (auto simp: media_save_def Let_def split: sum.splits)
    then show ?thesis
      using media_create_row [OF d] fs_remove_content [OF prod.collapse [symmetric], of ?full f] c True assms(2)
      by (auto split: if_splits)
  qed
qed

definition sample_storage :: storage_config where
  "sample_storage = \<lparr>st_dir = ''/data'', st_max_bytes = 10, st_ttl = hour, st_sha256_hex = (\<lambda>s. s),
     st_show_id = (\<lambda>i. replicate (Suc i) CHR ''i'')\<rparr>"

definition sample_media_world :: media_world where
  "sample_media_world = \<lparr>mw_db = sample_db, mw_fs = \<lparr>fs_content = (\<lambda>_. None), fs_script = [],
     fs_torn = (\<lambda>s. take 1 s), fs_survives = (\<lambda>_. False)\<rparr>\<rparr>"

theorem a_failed_save_leaves_no_partial_file_witness:
  "\<exists>w'. media_save sample_storage 4 ''t'' 0 9 ''inbound'' ''m'' ''image/png'' ''a'' ''xyz'' sample_media_world
      = (Inl MediaNotFound, w') \<and> same_tables (mw_db sample_media_world) (mw_db w')"
proof -
  obtain res w' where s: "media_save sample_storage 4 ''t'' 0 9 ''inbound'' ''m'' ''image/png'' ''a'' ''xyz'' sample_media_world = (res, w')"
    by (cases "media_save sample_storage 4 ''t'' 0 9 ''inbound'' ''m'' ''image/png'' ''a'' ''xyz'' sample_media_world")
  have "media_save sample_storage 4 ''t'' 0 9 ''inbound'' ''m'' ''image/png'' ''a'' ''xyz'' sample_media_world = (res, w') \<Longrightarrow>
      res = Inl MediaNotFound"
    by (auto simp: media_save_def sample_storage_def sample_media_world_def write_media_file_def fs_mkdir_def
        fs_create_def fs_write_def fs_close_def fs_rename_def media_create_def sample_defs Let_def map_media_error_def)
  then have r: "res = Inl MediaNotFound" using s .
  then show ?thesis using a_failed_save_leaves_no_partial_file [OF s [unfolded r], of "''q''"] s by simp
qed

text \<open>A path element made of an identifier is a plain name, and so are the two of a media path.\<close>

definition plain_ids :: "storage_config \<Rightarrow> bool" where
  "plain_ids sc \<longleftrightarrow> (\<forall>i. plain_segs [st_show_id sc i])"

lemma media_rel_path_value:
  assumes "plain_segs [st_show_id sc inst]" "plain_segs [st_show_id sc i]"
  shows "media_rel_path sc inst i = join_slash [''media'', st_show_id sc inst, st_show_id sc i]"
proof -
  have media: "segs_of ''media'' = [''media'']" "\<not> is_abs ''media''" by code_simp+
  have "path_join ''media'' (join_slash [st_show_id sc inst]) = render False (segs_of ''media'' @ [st_show_id sc inst])"
    using path_join_segs [of "''media''" "[st_show_id sc inst]"] assms(1) media by simp
  then have a: "path_join ''media'' (st_show_id sc inst) = join_slash [''media'', st_show_id sc inst]"
    by (simp add: media render_def)
  have segs: "segs_of (join_slash [''media'', st_show_id sc inst]) = [''media'', st_show_id sc inst]"
    using assms(1) by (intro render_segs) simp_all
  have "\<not> is_abs (join_slash [''media'', st_show_id sc inst])"
    using assms(1) by (intro join_slash_not_abs) simp
  then have "path_join (join_slash [''media'', st_show_id sc inst]) (join_slash [st_show_id sc i]) =
      render False ([''media'', st_show_id sc inst] @ [st_show_id sc i])"
    using path_join_segs [of "join_slash [''media'', st_show_id sc inst]" "[st_show_id sc i]"] assms(2) segs by simp
  then show ?thesis by (simp add: media_rel_path_def a render_def)
qed

lemma media_full_path:
  assumes "plain_segs [st_show_id sc inst]" "plain_segs [st_show_id sc i]" "st_dir sc \<noteq> []"
  shows "safe_path (st_dir sc) (media_rel_path sc inst i) = Some (path_join (st_dir sc) (media_rel_path sc inst i))"
proof -
  let ?n = "[''media'', st_show_id sc inst, st_show_id sc i]"
  have p: "plain_segs ?n" using assms by simp
  show ?thesis
    unfolding media_rel_path_value [OF assms(1,2)]
    using safe_path_plain [OF render_segs [OF p] p join_slash_not_abs [OF p] _ assms(3)]
      path_join_segs [OF assms(3) p] by simp
qed

text \<open>
  A round trip. What a save stored can be opened until the retention ends, with the saved content
  and metadata, and answers expired from that instant on (while the database and the files answer).
\<close>

theorem saved_media_opens_until_it_expires:
  assumes "media_save sc fresh tmp now inst direction message_id mimetype filename data w = (Inr rec, w')"
    and "plain_segs [st_show_id sc inst]" "plain_segs [st_show_id sc fresh]" "st_dir sc \<noteq> []"
    and "tmp \<noteq> path_join (st_dir sc) (media_rel_path sc inst fresh)"
    and "pg_script (mw_db w') = []" "fs_script (mw_fs w') = []"
  shows "fst (media_open sc later fresh w') = (if later < now + st_ttl sc then Inr (data, rec) else Inl MediaExpired)
    \<and> md_instance rec = inst \<and> md_mimetype rec = mimetype \<and> md_size rec = int (length data)"
proof -
  let ?rel = "media_rel_path sc inst fresh" and ?full = "path_join (st_dir sc) (media_rel_path sc inst fresh)"
  let ?m = "\<lparr>md_id = fresh, md_instance = inst, md_direction = direction, md_message = message_id,
                  md_mimetype = mimetype, md_filename = sanitize_filename filename,
                  md_size = int (length data), md_path = ?rel,
                  md_sha256 = st_sha256_hex sc data, md_created = now, md_expires = now + st_ttl sc\<rparr>"
  obtain ok f where f: "write_media_file tmp ?full data (mw_fs w) = (ok, f)"
    by (cases "write_media_file tmp ?full data (mw_fs w)")
  obtain r d where d: "media_create ?m (mw_db w) = (r, d)" by (cases "media_create ?m (mw_db w)")
  have ok: ok and r: "r = Inr rec" and w': "w' = \<lparr>mw_db = d, mw_fs = f\<rparr>"
    using assms(1) f d by (auto simp: media_save_def Let_def split: if_splits bool.splits sum.splits)
  have content: "fs_content f ?full = Some data"
    using write_media_file_content [OF f] ok assms(5) by simp
  have row: "rec = scan_media (media_row_of (mw_db w) ?m)" "fresh \<notin> dr_id ` set (t_media (mw_db w))"
    "t_media d = t_media (mw_db w) @ [media_row_of (mw_db w) ?m]"
    using media_create_row [OF d] r by simp_all
  have "row_by dr_id fresh (t_media (mw_db w)) = None" using row(2) by (simp add: row_by_None)
  then have found: "row_by dr_id fresh (t_media d) = Some (media_row_of (mw_db w) ?m)"
    by (simp add: row(3) row_by_append media_row_of_def)
  have got: "media_get fresh d = (Inr rec, d)"
    using assms(6) found row(1) by (simp add: media_get_def w')
  have fields: "md_expires rec = now + st_ttl sc" "md_path rec = ?rel" "md_instance rec = inst"
    "md_mimetype rec = mimetype" "md_size rec = int (length data)"
    by (simp_all add: row(1) scan_media_def media_row_of_def)
  have fs: "fs_stat ?full f = (Inr (), f)" "fs_open ?full f = (Inr data, f)"
    using assms(7) content by (simp_all add: fs_stat_def fs_open_def w')
  show ?thesis
    using got fields fs media_full_path [OF assms(2-4)]
    by (simp add: media_open_def media_path_def w' Let_def)
qed

theorem saved_media_opens_until_it_expires_witness:
  "\<exists>rec w'. media_save sample_storage 4 ''t'' 0 1 ''inbound'' ''m'' ''image/png'' ''a'' ''xyz'' sample_media_world = (Inr rec, w')
    \<and> fst (media_open sample_storage 5 4 w') = Inr (''xyz'', rec)"
proof -
  obtain res w' where s: "media_save sample_storage 4 ''t'' 0 1 ''inbound'' ''m'' ''image/png'' ''a'' ''xyz'' sample_media_world = (res, w')"
    by (cases "media_save sample_storage 4 ''t'' 0 1 ''inbound'' ''m'' ''image/png'' ''a'' ''xyz'' sample_media_world")
  have calm: "media_save sample_storage 4 ''t'' 0 1 ''inbound'' ''m'' ''image/png'' ''a'' ''xyz'' sample_media_world = (res, w') \<Longrightarrow>
      (\<exists>rec. res = Inr rec) \<and> pg_script (mw_db w') = [] \<and> fs_script (mw_fs w') = []"
    by (auto simp: media_save_def sample_storage_def sample_media_world_def write_media_file_def fs_mkdir_def
        fs_create_def fs_write_def fs_close_def fs_rename_def media_create_def sample_defs Let_def)
  then obtain rec where r: "res = Inr rec" using s by blast
  have plain: "plain_segs [st_show_id sample_storage 1]" "plain_segs [st_show_id sample_storage 4]"
    by (simp_all add: sample_storage_def eval_nat_numeral)
  have "''t'' \<noteq> path_join (st_dir sample_storage) (media_rel_path sample_storage 1 4)"
    by (simp add: sample_storage_def) code_simp
  then have "fst (media_open sample_storage 5 4 w') = Inr (''xyz'', rec)"
    using saved_media_opens_until_it_expires [OF s [unfolded r] plain, of 5] calm [OF s]
    by (simp add: sample_storage_def duration_defs)
  then show ?thesis using s r by blast
qed

section \<open>The cleaner\<close>

lemma media_delete_rows:
  assumes "media_delete i d = (res, d')"
  shows "t_media d' = t_media d \<or> t_media d' = filter (\<lambda>r. dr_id r \<noteq> i) (t_media d)"
  using assms unfolding media_delete_def
  by (rule pg_run_inv) (auto simp: same_tables_fields split: if_splits)

lemma remove_file_content:
  assumes "remove_file sc rel f = (ok, f')"
  shows "case safe_path (st_dir sc) rel of
      None \<Rightarrow> \<not> ok \<and> f' = f
    | Some p \<Rightarrow> only_at p f f' \<and> (fs_content f' p = None \<or> fs_content f' p = fs_content f p)
        \<and> (ok \<longrightarrow> fs_content f' p = None)"
proof (cases "safe_path (st_dir sc) rel")
  case None
  then show ?thesis using assms by (simp add: remove_file_def)
next
  case (Some p)
  obtain res g where r: "fs_remove p f = (res, g)" by (cases "fs_remove p f")
  have g: "f' = g" "ok = (res \<noteq> Inl FsFailed)" using assms Some r by (simp_all add: remove_file_def)
  show ?thesis
    using Some g only_at_steps(4) [of p f] fs_remove_content [OF r] fs_remove_gone [OF r] r by auto
qed

lemma remove_file_touches:
  assumes "remove_file sc rel f = (ok, f')"
  shows "fs_content f' p = fs_content f p \<or> (fs_content f' p = None \<and> safe_path (st_dir sc) rel = Some p)"
  using remove_file_content [OF assms] by (cases "safe_path (st_dir sc) rel") (auto simp: only_at_def split: if_splits)

definition cleaned :: "storage_config \<Rightarrow> media list \<Rightarrow> media_world \<Rightarrow> media_world \<Rightarrow> bool" where
  "cleaned sc ms w w' \<longleftrightarrow>
     set (t_media (mw_db w')) \<subseteq> set (t_media (mw_db w)) \<and>
     (\<forall>r \<in> set (t_media (mw_db w)). r \<notin> set (t_media (mw_db w')) \<longrightarrow>
        (\<exists>m p. m \<in> set ms \<and> md_id m = dr_id r \<and> safe_path (st_dir sc) (md_path m) = Some p
           \<and> fs_content (mw_fs w') p = None)) \<and>
     (\<forall>p. fs_content (mw_fs w') p = fs_content (mw_fs w) p
        \<or> (fs_content (mw_fs w') p = None \<and> (\<exists>m \<in> set ms. safe_path (st_dir sc) (md_path m) = Some p)))"

lemma cleaned_cons:
  assumes step: "cleaned sc [m] w v" and rest: "cleaned sc ms v w'"
  shows "cleaned sc (m # ms) w w'"
proof -
  have gone: "fs_content (mw_fs v) p = None \<Longrightarrow> fs_content (mw_fs w') p = None" for p
    using rest unfolding cleaned_def by metis
  show ?thesis
    unfolding cleaned_def
  proof (intro conjI ballI impI allI)
    show "set (t_media (mw_db w')) \<subseteq> set (t_media (mw_db w))"
      using step rest unfolding cleaned_def by blast
  next
    fix r assume r: "r \<in> set (t_media (mw_db w))" "r \<notin> set (t_media (mw_db w'))"
    show "\<exists>m' p. m' \<in> set (m # ms) \<and> md_id m' = dr_id r \<and> safe_path (st_dir sc) (md_path m') = Some p
        \<and> fs_content (mw_fs w') p = None"
    proof (cases "r \<in> set (t_media (mw_db v))")
      case True
      then show ?thesis using rest r unfolding cleaned_def by fastforce
    next
      case False
      then obtain p where "md_id m = dr_id r" "safe_path (st_dir sc) (md_path m) = Some p"
        "fs_content (mw_fs v) p = None"
        using step r unfolding cleaned_def by auto
      then show ?thesis using gone by auto
    qed
  next
    fix p
    show "fs_content (mw_fs w') p = fs_content (mw_fs w) p
        \<or> (fs_content (mw_fs w') p = None \<and> (\<exists>m' \<in> set (m # ms). safe_path (st_dir sc) (md_path m') = Some p))"
      using step rest gone unfolding cleaned_def by (metis list.set_intros list.set(1) singletonD insertE list.simps(15))
  qed
qed

lemma delete_expired_loop_cleaned:
  assumes "delete_expired_loop sc ms w = (res, w')"
  shows "cleaned sc ms w w'"
  using assms
proof (induction ms arbitrary: w res)
  case Nil
  then show ?case by (simp add: cleaned_def)
next
  case (Cons m ms)
  obtain ok f where f: "remove_file sc (md_path m) (mw_fs w) = (ok, f)" by (cases "remove_file sc (md_path m) (mw_fs w)")
  note rf = remove_file_content [OF f]
  show ?case
  proof (cases ok)
    case False
    have "cleaned sc [m] w (w\<lparr>mw_fs := f\<rparr>)"
      using remove_file_touches [OF f] by (auto simp: cleaned_def)
    moreover obtain res' where "delete_expired_loop sc ms (w\<lparr>mw_fs := f\<rparr>) = (res', w')"
      using Cons.prems f False by (auto split: prod.splits)
    ultimately show ?thesis using Cons.IH cleaned_cons by blast
  next
    case True
    then obtain p where p: "safe_path (st_dir sc) (md_path m) = Some p" "only_at p (mw_fs w) f" "fs_content f p = None"
      using rf by (auto split: option.splits)
    obtain r d where d: "media_delete (md_id m) (mw_db w) = (r, d)" by (cases "media_delete (md_id m) (mw_db w)")
    have "cleaned sc [m] w \<lparr>mw_db = d, mw_fs = f\<rparr>"
      using media_delete_rows [OF d] p remove_file_touches [OF f] by (auto simp: cleaned_def)
    moreover obtain res' where "delete_expired_loop sc ms \<lparr>mw_db = d, mw_fs = f\<rparr> = (res', w')"
      using Cons.prems f True d by (auto split: prod.splits if_splits)
    ultimately show ?thesis using Cons.IH cleaned_cons by blast
  qed
qed

lemma media_list_expired_rows:
  assumes "media_list_expired now d = (res, d')"
  shows "same_tables d d'" "res = Inr ms \<Longrightarrow> set ms = scan_media ` {r \<in> set (t_media d). dr_expires r \<le> now}"
proof -
  have "same_tables d d' \<and> (\<forall>ms. res = Inr ms \<longrightarrow> set ms = scan_media ` {r \<in> set (t_media d). dr_expires r \<le> now})"
    using assms unfolding media_list_expired_def
    by (rule pg_run_inv) (auto simp: same_tables_fields)
  then show "same_tables d d'" "res = Inr ms \<Longrightarrow> set ms = scan_media ` {r \<in> set (t_media d). dr_expires r \<le> now}"
    by auto
qed

text \<open>
  A cleaning pass, whatever fails in it, never takes a row or a file whose retention has not
  ended, and a row it deletes has no file left.
\<close>

theorem cleaning_takes_expired_media_only:
  assumes "delete_expired sc now w = (res, w')" "keyed dr_id (t_media (mw_db w))"
  shows "(\<forall>r \<in> set (t_media (mw_db w)). now < dr_expires r \<longrightarrow> r \<in> set (t_media (mw_db w')))
    \<and> (\<forall>r \<in> set (t_media (mw_db w)). r \<notin> set (t_media (mw_db w')) \<longrightarrow>
        (\<exists>p. safe_path (st_dir sc) (dr_path r) = Some p \<and> fs_content (mw_fs w') p = None))
    \<and> (\<forall>p. fs_content (mw_fs w') p = fs_content (mw_fs w) p
        \<or> (\<exists>r \<in> set (t_media (mw_db w)). dr_expires r \<le> now \<and> safe_path (st_dir sc) (dr_path r) = Some p))"
proof -
  obtain l d where l: "media_list_expired now (mw_db w) = (l, d)" by (cases "media_list_expired now (mw_db w)")
  note same = media_list_expired_rows(1) [OF l]
  show ?thesis
  proof (cases l)
    case (Inl e)
    then have "w' = w\<lparr>mw_db := d\<rparr>" using assms(1) l by (simp add: delete_expired_def)
    then show ?thesis by (simp add: same_tables_fields [OF same])
  next
    case (Inr ms)
    then have c: "cleaned sc ms (w\<lparr>mw_db := d\<rparr>) w'"
      using assms(1) l delete_expired_loop_cleaned by (simp add: delete_expired_def)
    have ms: "set ms = scan_media ` {r \<in> set (t_media (mw_db w)). dr_expires r \<le> now}"
      using media_list_expired_rows(2) [OF l Inr] .
    have id: "md_id (scan_media r) = dr_id r" "md_path (scan_media r) = dr_path r" for r
      by (simp_all add: scan_media_def)
    have removed: "dr_expires r \<le> now \<and> (\<exists>p. safe_path (st_dir sc) (dr_path r) = Some p \<and> fs_content (mw_fs w') p = None)"
      if r: "r \<in> set (t_media (mw_db w))" "r \<notin> set (t_media (mw_db w'))" for r
    proof -
      obtain q p where q: "q \<in> set (t_media (mw_db w))" "dr_expires q \<le> now" "dr_id q = dr_id r"
        "safe_path (st_dir sc) (dr_path q) = Some p" "fs_content (mw_fs w') p = None"
        using c r by (auto simp: cleaned_def same_tables_fields [OF same] ms id)
      have "q = r" using keyed_inj [OF assms(2) q(1) r(1) q(3)] .
      then show ?thesis using q by auto
    qed
    have "fs_content (mw_fs w') p = fs_content (mw_fs w) p
        \<or> (\<exists>r \<in> set (t_media (mw_db w)). dr_expires r \<le> now \<and> safe_path (st_dir sc) (dr_path r) = Some p)" for p
      using c by (auto simp: cleaned_def ms id)
    then show ?thesis using removed by (meson not_less)
  qed
qed

definition sample_media_row :: "uuid \<Rightarrow> instant \<Rightarrow> string \<Rightarrow> media_row" where
  "sample_media_row i expires path =
     \<lparr>dr_id = i, dr_instance = 1, dr_direction = ''inbound'', dr_message = None, dr_mimetype = ''image/png'',
      dr_filename = None, dr_size = 1, dr_path = path, dr_sha256 = [], dr_created = 0, dr_expires = expires\<rparr>"

theorem cleaning_takes_expired_media_only_witness:
  "sample_media_row 8 9 ''media/b'' \<in> set (t_media (mw_db (snd (delete_expired sample_storage 5
     \<lparr>mw_db = sample_db\<lparr>t_media := [sample_media_row 7 3 ''media/a'', sample_media_row 8 9 ''media/b'']\<rparr>,
      mw_fs = mw_fs sample_media_world\<rparr>))))"
proof -
  let ?w = "\<lparr>mw_db = sample_db\<lparr>t_media := [sample_media_row 7 3 ''media/a'', sample_media_row 8 9 ''media/b'']\<rparr>,
      mw_fs = mw_fs sample_media_world\<rparr>"
  have "keyed dr_id (t_media (mw_db ?w))" by (simp add: keyed_def sample_media_row_def)
  from cleaning_takes_expired_media_only [where sc = sample_storage and now = 5, OF prod.collapse [symmetric] this]
  show ?thesis by (simp add: sample_media_row_def)
qed

end
