(* ===== verification/MessageService.thy ===== *)
theory MessageService
  imports JidResolver MediaStorage
begin

text \<open>
  Accepting messages, \<^verbatim>\<open>internal/message/service.go\<close>, and the senders that hand a stored message to
  its session, \<^verbatim>\<open>senders.go\<close> and \<^verbatim>\<open>senders_media.go\<close>. The session's \<^verbatim>\<open>Send\<close> is an argument.
\<close>

section \<open>The service\<close>

datatype message_err =
    MessageInstanceNotFound | InstanceNotConnected | MessageNotFound | MessageInvalidCursor | InvalidInput
  | MessageResolve resolve_err | MessageStore storage_err

record enqueue_input =
  ei_type :: string
  ei_to :: string
  ei_text :: string
  ei_caption :: string
  ei_filename :: string
  ei_ptt :: bool
  ei_latitude :: float64
  ei_longitude :: float64
  ei_display_name :: string
  ei_vcard :: string
  ei_media :: "uuid option"
  ei_quoted :: string

definition out_of_range :: "float64 \<Rightarrow> rat \<Rightarrow> bool" where
  "out_of_range x bound \<longleftrightarrow> float_is_nan x \<or> float_less x (- bound) \<or> float_greater x bound"

definition build_payload :: "enqueue_input \<Rightarrow> message_err + payload" where
  "build_payload inp =
     (if ei_type inp = ''text'' then
        (if trim_space (ei_text inp) = [] then Inl InvalidInput else Inr (PText (ei_text inp) (ei_quoted inp)))
      else if ei_type inp = ''location'' then
        (if out_of_range (ei_latitude inp) 90 then Inl InvalidInput
         else if out_of_range (ei_longitude inp) 180 then Inl InvalidInput
         else Inr (PLocation (Some (ei_latitude inp)) (Some (ei_longitude inp))))
      else if ei_type inp = ''contact'' then
        (if trim_space (ei_display_name inp) = [] then Inl InvalidInput
         else if trim_space (ei_vcard inp) = [] then Inl InvalidInput
         else Inr (PContact (ei_display_name inp) (ei_vcard inp)))
      else if ei_type inp = ''media'' then
        (if ei_media inp = None then Inl InvalidInput
         else Inr (PMedia (ei_caption inp) (ei_filename inp) (ei_ptt inp) (ei_quoted inp)))
      else Inl InvalidInput)"

definition outbound_of :: "uuid \<Rightarrow> uuid \<Rightarrow> enqueue_input \<Rightarrow> string \<Rightarrow> payload \<Rightarrow> outbound_message" where
  "outbound_of fresh inst inp jid p =
     \<lparr>om_id = fresh, om_instance = inst, om_type = ei_type inp, om_recipient = jid, om_payload = p,
      om_media = ei_media inp, om_status = ''queued'', om_whatsapp_id = [], om_last_error = [],
      om_attempts = 0, om_delivered_at = None, om_read_at = None, om_created = zero_time,
      om_updated = zero_time\<rparr>"

definition message_enqueue :: "uuid \<Rightarrow> (nat \<Rightarrow> instant) \<Rightarrow> probe option \<Rightarrow> uuid \<Rightarrow> enqueue_input \<Rightarrow> resolver \<times> db
      \<Rightarrow> (message_err + uuid) \<times> resolver \<times> db" where
  "message_enqueue fresh clock sess inst inp s =
     (case s of (rs, d) \<Rightarrow>
      (case instances_get inst d of
         (Inl e, d) \<Rightarrow> (Inl (if e = SNotFound then MessageInstanceNotFound else MessageStore e), rs, d)
       | (Inr i, d) \<Rightarrow>
           if inst_status i \<noteq> ''connected'' then (Inl InstanceNotConnected, rs, d)
           else case build_payload inp of
             Inl e \<Rightarrow> (Inl e, rs, d)
           | Inr p \<Rightarrow>
               (case jid_resolve clock sess (ei_to inp) (rs, d) of
                  ((Inl e, _), rs, d) \<Rightarrow> (Inl (MessageResolve e), rs, d)
                | ((Inr jid, _), rs, d) \<Rightarrow>
                    (case messages_create (outbound_of fresh inst inp jid p) d of
                       (Inl e, d) \<Rightarrow> (Inl (MessageStore e), rs, d)
                     | (Inr created, d) \<Rightarrow> (Inr (om_id created), rs, d)))))"

fun map_message_store_error :: "storage_err \<Rightarrow> message_err" where
  "map_message_store_error SNotFound = MessageNotFound"
| "map_message_store_error SInvalidCursor = MessageInvalidCursor"
| "map_message_store_error e = MessageStore e"

definition message_get :: "uuid \<Rightarrow> uuid \<Rightarrow> db \<Rightarrow> (message_err + outbound_message) \<times> db" where
  "message_get inst i d =
     (case messages_get i d of
        (Inl e, d) \<Rightarrow> (Inl (map_message_store_error e), d)
      | (Inr m, d) \<Rightarrow> (if om_instance m \<noteq> inst then Inl MessageNotFound else Inr m, d))"

definition message_list :: "(string \<Rightarrow> uuid option) \<Rightarrow> (uuid \<Rightarrow> string) \<Rightarrow> uuid \<Rightarrow> int \<Rightarrow> string \<Rightarrow> db
      \<Rightarrow> (message_err + outbound_message list \<times> string) \<times> db" where
  "message_list parse_id show_id inst limit cursor d =
     (case messages_list parse_id show_id inst limit cursor d of
        (Inl e, d) \<Rightarrow> (Inl (map_message_store_error e), d)
      | (Inr page, d) \<Rightarrow> (Inr page, d))"

section \<open>Senders\<close>

text \<open>What a session is handed: the stored body, or the body of a media message with its file.\<close>

datatype wire_body = WireStored payload | WireMedia string string string bool string

record session_message =
  sm_type :: string
  sm_recipient :: string
  sm_body :: wire_body
  sm_path :: string

text \<open>
  A failed send: whether the error wraps \<^verbatim>\<open>session.ErrTransient\<close>, and its text. Where the source appends
  the text of a JSON error or a quoted value, the model keeps the fixed part.
\<close>

datatype send_err = SendErr (is_transient: bool) (send_text: string)

type_synonym send_fun = "session_message \<Rightarrow> send_err + string"
type_synonym media_resolver = "uuid \<Rightarrow> string + string \<times> media"

text \<open>
  The senders; with the answer, the message handed to the session. \<open>media\<close> resolves a media to its file
  (Inl is the text of the error), None when no storage is configured.
\<close>

definition hand_over :: "send_fun \<Rightarrow> session_message \<Rightarrow> (send_err + string) \<times> session_message option" where
  "hand_over send m = (send m, Some m)"

definition stored_message :: "outbound_message \<Rightarrow> session_message" where
  "stored_message m = \<lparr>sm_type = om_type m, sm_recipient = om_recipient m, sm_body = WireStored (om_payload m), sm_path = []\<rparr>"

definition text_send :: "send_fun \<Rightarrow> outbound_message \<Rightarrow> (send_err + string) \<times> session_message option" where
  "text_send send m =
     (case om_payload m of
        PText body _ \<Rightarrow> if trim_space body = [] then (Inl (SendErr False ''text payload: text is required''), None)
                       else hand_over send (stored_message m)
      | PMalformed \<Rightarrow> (Inl (SendErr False ''text payload''), None)
      | _ \<Rightarrow> (Inl (SendErr False ''text payload: text is required''), None))"

definition location_send :: "send_fun \<Rightarrow> outbound_message \<Rightarrow> (send_err + string) \<times> session_message option" where
  "location_send send m =
     (case om_payload m of
        PMalformed \<Rightarrow> (Inl (SendErr False ''location payload''), None)
      | PLocation (Some lat) (Some lon) \<Rightarrow>
          if float_less lat (- 90) \<or> float_greater lat 90
          then (Inl (SendErr False ''location payload: latitude out of range''), None)
          else if float_less lon (- 180) \<or> float_greater lon 180
          then (Inl (SendErr False ''location payload: longitude out of range''), None)
          else hand_over send (stored_message m)
      | _ \<Rightarrow> (Inl (SendErr False ''location payload: latitude and longitude are required''), None))"

definition contact_send :: "send_fun \<Rightarrow> outbound_message \<Rightarrow> (send_err + string) \<times> session_message option" where
  "contact_send send m =
     (case om_payload m of
        PMalformed \<Rightarrow> (Inl (SendErr False ''contact payload''), None)
      | PContact name vcard \<Rightarrow>
          if trim_space name = [] then (Inl (SendErr False ''contact payload: display_name is required''), None)
          else if trim_space vcard = [] then (Inl (SendErr False ''contact payload: vcard is required''), None)
          else hand_over send (stored_message m)
      | _ \<Rightarrow> (Inl (SendErr False ''contact payload: display_name is required''), None))"

definition media_send :: "media_resolver option \<Rightarrow> send_fun \<Rightarrow> outbound_message
      \<Rightarrow> (send_err + string) \<times> session_message option" where
  "media_send media send m =
     (case media of
        None \<Rightarrow> (Inl (SendErr False ''media payload: media storage is not configured''), None)
      | Some resolve \<Rightarrow>
          (case om_media m of
             None \<Rightarrow> (Inl (SendErr False ''media payload: media_id is required''), None)
           | Some i \<Rightarrow>
               (case resolve i of
                  Inl e \<Rightarrow> (Inl (SendErr False (''media message: '' @ e)), None)
                | Inr (path, rec) \<Rightarrow>
                    (case om_payload m of
                       PMalformed \<Rightarrow> (Inl (SendErr False ''media payload''), None)
                     | p \<Rightarrow>
                         (case media_kind (md_mimetype rec) of
                            None \<Rightarrow> (Inl (SendErr False ''media payload: unsupported mimetype''), None)
                          | Some kind \<Rightarrow>
                              (let (caption, filename, ptt, quoted) =
                                     (case p of PMedia c f t q \<Rightarrow> (c, f, t, q) | PText _ q \<Rightarrow> ([], [], False, q)
                                      | _ \<Rightarrow> ([], [], False, []));
                                   name = (if filename = [] then md_filename rec else filename)
                               in hand_over send
                                    \<lparr>sm_type = kind, sm_recipient = om_recipient m,
                                     sm_body = WireMedia caption name (md_mimetype rec) ptt quoted, sm_path = path\<rparr>))))))"

text \<open>The sender of a message's type, None for an unsupported one.\<close>

definition sender_for :: "media_resolver option \<Rightarrow> string
      \<Rightarrow> (send_fun \<Rightarrow> outbound_message \<Rightarrow> (send_err + string) \<times> session_message option) option" where
  "sender_for media t =
     (if t = ''text'' then Some text_send
      else if t = ''location'' then Some location_send
      else if t = ''contact'' then Some contact_send
      else if t = ''media'' then Some (media_send media)
      else None)"

section \<open>What is accepted\<close>

lemma build_payload_ok:
  assumes "build_payload inp = Inr p"
  shows "ei_type inp = ''text'' \<and> p = PText (ei_text inp) (ei_quoted inp) \<and> trim_space (ei_text inp) \<noteq> []
    \<or> ei_type inp = ''location'' \<and> p = PLocation (Some (ei_latitude inp)) (Some (ei_longitude inp))
        \<and> \<not> out_of_range (ei_latitude inp) 90 \<and> \<not> out_of_range (ei_longitude inp) 180
    \<or> ei_type inp = ''contact'' \<and> p = PContact (ei_display_name inp) (ei_vcard inp)
        \<and> trim_space (ei_display_name inp) \<noteq> [] \<and> trim_space (ei_vcard inp) \<noteq> []
    \<or> ei_type inp = ''media'' \<and> p = PMedia (ei_caption inp) (ei_filename inp) (ei_ptt inp) (ei_quoted inp)
        \<and> ei_media inp \<noteq> None"
  using assms by (auto simp: build_payload_def split: if_splits)

text \<open>
  What the service accepts, the senders do not refuse: a stored payload reaches the session as a
  message for the stored recipient. Only a media message can still fail before that, when its file or
  its row is gone.
\<close>

theorem accepted_messages_reach_the_session:
  assumes "build_payload inp = Inr p" and "m = outbound_of fresh inst inp jid p"
    and "ei_type inp = ''media'' \<longrightarrow> (\<exists>path rec. resolve (the (ei_media inp)) = Inr (path, rec) \<and> allowed_mime (md_mimetype rec))"
  shows "\<exists>sender sm. sender_for (Some resolve) (om_type m) = Some sender
    \<and> sender send m = (send sm, Some sm) \<and> sm_recipient sm = jid
    \<and> (ei_type inp \<noteq> ''media'' \<longrightarrow> sm_body sm = WireStored p)"
  using build_payload_ok [OF assms(1)] assms(2,3) media_kind_allowed
  by (elim disjE)
    (auto simp: sender_for_def outbound_of_def text_send_def location_send_def contact_send_def media_send_def
      hand_over_def stored_message_def out_of_range_def Let_def split: option.splits)

definition sample_enqueue :: enqueue_input where
  "sample_enqueue = \<lparr>ei_type = ''text'', ei_to = ''a@b'', ei_text = ''hi'', ei_caption = [], ei_filename = [],
     ei_ptt = False, ei_latitude = FNaN, ei_longitude = FNaN, ei_display_name = [], ei_vcard = [],
     ei_media = None, ei_quoted = []\<rparr>"

lemma sample_enqueue_payload: "build_payload sample_enqueue = Inr (PText ''hi'' [])"
proof -
  have "trim_space ''hi'' \<noteq> []" by code_simp
  then show ?thesis by (simp add: build_payload_def sample_enqueue_def)
qed

theorem accepted_messages_reach_the_session_witness:
  "\<exists>sender sm. sender_for (Some (\<lambda>_. Inl [])) ''text'' = Some sender
    \<and> sender (\<lambda>_. Inr ''w'') (outbound_of 3 1 sample_enqueue ''a@b'' (PText ''hi'' [])) = (Inr ''w'', Some sm)
    \<and> sm_recipient sm = ''a@b''"
  using accepted_messages_reach_the_session [OF sample_enqueue_payload refl, of "\<lambda>_. Inl []" 3 1 "''a@b''" "\<lambda>_. Inr ''w''"]
  by (auto simp: sample_enqueue_def outbound_of_def)

section \<open>Enqueueing\<close>

definition same_but_contacts :: "db \<Rightarrow> db \<Rightarrow> bool" where
  "same_but_contacts d d' \<longleftrightarrow> d'\<lparr>t_contacts := [], pg_script := []\<rparr> = d\<lparr>t_contacts := [], pg_script := []\<rparr>"

lemma same_but_contacts_refl [simp]: "same_but_contacts d d"
  by (simp add: same_but_contacts_def)

lemma same_but_contacts_trans: "same_but_contacts a b \<Longrightarrow> same_but_contacts b c \<Longrightarrow> same_but_contacts a c"
  by (simp add: same_but_contacts_def)

lemma same_but_contacts_tables: "same_tables d e \<Longrightarrow> same_but_contacts d e"
  unfolding same_tables_def same_but_contacts_def by (cases d; cases e) simp

lemma same_but_contacts_fields:
  "same_but_contacts d d' \<Longrightarrow> t_messages d' = t_messages d \<and> t_instances d' = t_instances d \<and> pg_now d' = pg_now d"
  unfolding same_but_contacts_def by (cases d; cases d') simp

lemma jidcache_get_same: "jidcache_get k d = (r, d') \<Longrightarrow> same_but_contacts d d'"
  unfolding jidcache_get_def by (rule pg_run_inv [where P = "\<lambda>_ e. same_but_contacts d e"]) (auto simp: same_but_contacts_tables)

lemma jidcache_put_same: "jidcache_put k j t d = (r, d') \<Longrightarrow> same_but_contacts d d'"
  unfolding jidcache_put_def
proof (rule pg_run_inv [where P = "\<lambda>_ e. same_but_contacts d e"], assumption)
  fix e r e'
  assume s: "same_tables d e" and "(Inr (), if k \<in> cr_phone ` set (t_contacts e)
      then e\<lparr>t_contacts := update_where (\<lambda>r. cr_phone r = k) (\<lambda>r. r\<lparr>cr_jid := j, cr_expires := t\<rparr>) (t_contacts e)\<rparr>
      else e\<lparr>t_contacts := t_contacts e @ [\<lparr>cr_phone = k, cr_jid = j, cr_expires = t, cr_created = pg_now e\<rparr>]\<rparr>) = (r, e')"
  then have "same_but_contacts e e'" by (auto simp: same_but_contacts_def split: if_splits)
  then show "same_but_contacts d e'" using same_but_contacts_tables [OF s] same_but_contacts_trans by blast
qed (simp add: same_but_contacts_tables)

lemma jid_resolve_same: "jid_resolve clock sess raw (rs, d) = (res, rs', d') \<Longrightarrow> same_but_contacts d d'"
  by (auto simp: jid_resolve_def Let_def split: if_splits prod.splits bool.splits sum.splits option.splits
      dest!: jidcache_get_same jidcache_put_same intro: same_but_contacts_trans)

lemma enqueue_outcome:
  assumes "message_enqueue fresh clock sess inst inp (rs, d) = (res, rs', d')"
  shows "case res of
      Inl e \<Rightarrow> t_messages d' = t_messages d
    | Inr i \<Rightarrow> i = fresh \<and> fresh \<notin> mr_id ` set (t_messages d) \<and>
        (\<exists>r. row_by ir_id inst (t_instances d) = Some r \<and> ir_status r = ''connected'') \<and>
        (\<exists>p jid row. build_payload inp = Inr p \<and> fst (fst (jid_resolve clock sess (ei_to inp) (rs, snd (instances_get inst d)))) = Inr jid
           \<and> t_messages d' = t_messages d @ [row] \<and> mr_id row = fresh \<and> mr_instance row = inst
           \<and> mr_recipient row = jid \<and> mr_payload row = p \<and> mr_type row = ei_type inp
           \<and> mr_status row = ''queued'' \<and> mr_retries row = 0 \<and> mr_media row = ei_media inp)"
proof -
  obtain g d1 where g: "instances_get inst d = (g, d1)" by (cases "instances_get inst d")
  have s1: "same_tables d d1" using instances_get_same [OF g] .
  note m1 = same_tables_fields(3) [OF s1]
  show ?thesis
  proof (cases g)
    case (Inl e)
    then show ?thesis using assms g m1 by (auto simp: message_enqueue_def split: if_splits)
  next
    case (Inr i)
    then obtain r where r: "row_by ir_id inst (t_instances d) = Some r" "i = scan_instance r"
      using instances_get_ok g by blast
    show ?thesis
    proof (cases "inst_status i \<noteq> ''connected'' \<or> (\<exists>e. build_payload inp = Inl e)")
      case True
      then show ?thesis using assms g Inr m1 by (auto simp: message_enqueue_def split: if_splits sum.splits)
    next
      case False
      then obtain p where p: "build_payload inp = Inr p" and conn: "inst_status i = ''connected''"
        by (cases "build_payload inp") auto
      obtain j probed rs2 d2 where j: "jid_resolve clock sess (ei_to inp) (rs, d1) = ((j, probed), rs2, d2)"
        by (cases "jid_resolve clock sess (ei_to inp) (rs, d1)") auto
      have s2: "t_messages d2 = t_messages d" "pg_now d2 = pg_now d"
        using same_but_contacts_fields [OF jid_resolve_same [OF j]] by (simp_all add: same_tables_fields [OF s1])
      show ?thesis
      proof (cases j)
        case (Inl e)
        then show ?thesis using assms g Inr p conn j s2 by (auto simp: message_enqueue_def)
      next
        case jid: (Inr jid)
        obtain c d3 where c: "messages_create (outbound_of fresh inst inp jid p) d2 = (c, d3)"
          by (cases "messages_create (outbound_of fresh inst inp jid p) d2")
        have cr: "case c of Inl _ \<Rightarrow> t_messages d3 = t_messages d2
          | Inr m \<Rightarrow> om_id m = fresh \<and> fresh \<notin> mr_id ` set (t_messages d2)
              \<and> t_messages d3 = t_messages d2 @ [message_row_of d2 (outbound_of fresh inst inp jid p)]"
          using c unfolding messages_create_def
          by (rule pg_run_inv) (auto simp: same_tables_fields Let_def message_row_of_def outbound_of_def split: if_splits)
        have out: "d' = d3" "res = (case c of Inl e \<Rightarrow> Inl (MessageStore e) | Inr m \<Rightarrow> Inr (om_id m))"
          using assms g Inr p conn j jid c by (auto simp: message_enqueue_def split: sum.splits)
        show ?thesis
        proof (cases c)
          case (Inl e)
          then show ?thesis using cr out s2 by simp
        next
          case (Inr m)
          have "ir_status r = ''connected''" using conn r(2) by (simp add: scan_instance_def)
          then show ?thesis
            using Inr cr out s2 r(1) p j jid g by (simp add: message_row_of_def outbound_of_def)
        qed
      qed
    qed
  qed
qed

text \<open>
  An accepted message is stored exactly once, queued, for the resolved recipient and with the
  validated body, and only while the instance is connected; a refused one leaves the queue as it was.
\<close>

theorem enqueue_stores_one_queued_message:
  assumes "message_enqueue fresh clock sess inst inp (rs, d) = (res, rs', d')"
  shows "case res of
      Inl e \<Rightarrow> t_messages d' = t_messages d
    | Inr i \<Rightarrow> i = fresh \<and> fresh \<notin> mr_id ` set (t_messages d) \<and>
        (\<exists>r. row_by ir_id inst (t_instances d) = Some r \<and> ir_status r = ''connected'') \<and>
        (\<exists>p jid row. build_payload inp = Inr p \<and> fst (fst (jid_resolve clock sess (ei_to inp) (rs, snd (instances_get inst d)))) = Inr jid
           \<and> t_messages d' = t_messages d @ [row] \<and> mr_id row = fresh \<and> mr_instance row = inst
           \<and> mr_recipient row = jid \<and> mr_payload row = p \<and> mr_type row = ei_type inp
           \<and> mr_status row = ''queued'' \<and> mr_retries row = 0)"
  using enqueue_outcome [OF assms] by (cases res) auto

lemma sample_to: "ei_to sample_enqueue = ''a@b''"
  by (simp add: sample_enqueue_def)

theorem enqueue_stores_one_queued_message_witness:
  "\<exists>rs d. message_enqueue 9 (\<lambda>_. 0) None 1 sample_enqueue (new_resolver, sample_db) = (Inr 9, rs, d)
     \<and> length (t_messages d) = 2"
proof -
  obtain res rs d where e: "message_enqueue 9 (\<lambda>_. 0) None 1 sample_enqueue (new_resolver, sample_db) = (res, rs, d)"
    by (cases "message_enqueue 9 (\<lambda>_. 0) None 1 sample_enqueue (new_resolver, sample_db)") auto
  have t: "trim_space ''a@b'' = ''a@b''" by code_simp
  have "res = Inr 9"
    using e sample_enqueue_payload t
    by (auto simp: message_enqueue_def instances_get_def sample_defs scan_instance_def jid_resolve_def
        messages_create_def Let_def outbound_of_def scan_message_def message_row_of_def sample_to)
  then show ?thesis
    using e enqueue_stores_one_queued_message [OF e] by (auto simp: sample_defs)
qed

section \<open>Reading\<close>

text \<open>
  A message is read only through its own instance: for any other instance the answer is the one
  for a message that does not exist.
\<close>

theorem messages_do_not_cross_instances:
  "fst (message_get inst i d) = Inr m \<Longrightarrow>
     \<exists>r. row_by mr_id i (t_messages d) = Some r \<and> m = scan_message r \<and> mr_instance r = inst
       \<and> (\<forall>other. other \<noteq> inst \<longrightarrow> pg_script d = [] \<longrightarrow> fst (message_get other i d) = Inl MessageNotFound)"
proof -
  assume a: "fst (message_get inst i d) = Inr m"
  obtain g d' where g: "messages_get i d = (g, d')" by (cases "messages_get i d")
  have row: "g = Inr x \<Longrightarrow> \<exists>r. row_by mr_id i (t_messages d) = Some r \<and> x = scan_message r" for x
    using g unfolding messages_get_def
    by (auto elim!: pg_run_Inr simp: same_tables_fields split: option.splits)
  obtain x where x: "g = Inr x" "om_instance x = inst" "m = x"
    using a g by (auto simp: message_get_def split: sum.splits if_splits)
  obtain r where r: "row_by mr_id i (t_messages d) = Some r" "x = scan_message r" using row [OF x(1)] by blast
  have i: "mr_instance r = inst" using x(2) r(2) by (simp add: scan_message_def)
  have "fst (message_get other i d) = Inl MessageNotFound" if "other \<noteq> inst" "pg_script d = []" for other
    using that r(1) i by (simp add: message_get_def messages_get_def scan_message_def)
  then show ?thesis using r x(3) i by blast
qed

theorem messages_do_not_cross_instances_witness:
  "fst (message_get 2 5 sample_db) = Inl MessageNotFound"
proof -
  have s: "fst (message_get 1 5 sample_db) = Inr (scan_message sample_message)" "pg_script sample_db = []"
    by (simp_all add: message_get_def messages_get_def sample_defs scan_message_def)
  show ?thesis using messages_do_not_cross_instances [OF s(1)] s(2) by auto
qed

end
