(* ===== verification/Events.thy ===== *)
theory Events
  imports StoreIntegrity
begin

text \<open>
  The event outbox pipeline: envelopes and subjects (\<^verbatim>\<open>internal/events/envelope.go\<close>,
  \<^verbatim>\<open>subjects.go\<close>), the outbox writer and the relay (\<^verbatim>\<open>relay.go\<close>) and the JetStream publisher
  (\<^verbatim>\<open>publisher.go\<close>).

  JSON encoding is the standard library's (\<open>codec\<close>). The broker is a service outside the
  repository: \<open>broker\<close> keeps the messages it stored and, like the database, a script of what happens
  to the next requests. A publish is acknowledged, refused without effect, or stored with the
  acknowledgement lost; a message whose id the broker still remembers is acknowledged and not stored
  again.
\<close>

section \<open>Envelopes and subjects\<close>

record envelope =
  en_id :: uuid
  en_version :: int
  en_type :: string
  en_instance :: uuid
  en_occurred :: instant
  en_payload :: string
  en_event :: string

record codec =
  jc_encode :: "envelope \<Rightarrow> string option"
  jc_decode :: "string \<Rightarrow> envelope option"
  jc_show_id :: "uuid \<Rightarrow> string"

definition current_event_version :: int where
  "current_event_version = 1"

text \<open>\<open>payload\<close> is the marshalled payload, None when it could not be marshalled.\<close>

definition new_envelope :: "uuid \<Rightarrow> instant \<Rightarrow> string \<Rightarrow> uuid \<Rightarrow> string option \<Rightarrow> envelope option" where
  "new_envelope fresh now event_type inst payload =
     (case payload of
        None \<Rightarrow> None
      | Some data \<Rightarrow> Some \<lparr>en_id = fresh, en_version = current_event_version, en_type = event_type,
          en_instance = inst, en_occurred = now, en_payload = data, en_event = []\<rparr>)"

definition subject_prefix :: string where
  "subject_prefix = ''wzap.instances.''"

definition subject :: "codec \<Rightarrow> uuid \<Rightarrow> string \<Rightarrow> string" where
  "subject jc inst topic = subject_prefix @ jc_show_id jc inst @ ''.'' @ topic"

definition subject_connection :: "codec \<Rightarrow> uuid \<Rightarrow> string" where
  "subject_connection jc inst = subject jc inst ''connection''"
definition subject_message :: "codec \<Rightarrow> uuid \<Rightarrow> string" where
  "subject_message jc inst = subject jc inst ''message''"
definition subject_receipt :: "codec \<Rightarrow> uuid \<Rightarrow> string" where
  "subject_receipt jc inst = subject jc inst ''receipt''"
definition subject_message_status :: "codec \<Rightarrow> uuid \<Rightarrow> string" where
  "subject_message_status jc inst = subject jc inst ''message.status''"
definition subject_message_edit :: "codec \<Rightarrow> uuid \<Rightarrow> string" where
  "subject_message_edit jc inst = subject jc inst ''message.edit''"
definition subject_message_delete :: "codec \<Rightarrow> uuid \<Rightarrow> string" where
  "subject_message_delete jc inst = subject jc inst ''message.delete''"

section \<open>The writer\<close>

datatype write_err = WriteMarshal | WriteStore storage_err

definition outbox_write :: "codec \<Rightarrow> string \<Rightarrow> envelope \<Rightarrow> db \<Rightarrow> (write_err + unit) \<times> db" where
  "outbox_write jc subj env d =
     (case jc_encode jc env of
        None \<Rightarrow> (Inl WriteMarshal, d)
      | Some data \<Rightarrow>
          (case events_enqueue (en_id env) subj data d of
             (Inl e, d) \<Rightarrow> (Inl (WriteStore e), d)
           | (Inr _, d) \<Rightarrow> (Inr (), d)))"

section \<open>The broker and its publisher\<close>

datatype ack = Acked | Refused | AckLost

record broker =
  bk_log :: "(string \<times> string \<times> string) list"
  bk_recent :: "string list"
  bk_script :: "ack list"

definition js_next :: "broker \<Rightarrow> ack \<times> broker" where
  "js_next b = (case bk_script b of [] \<Rightarrow> (Acked, b) | a # rest \<Rightarrow> (a, b\<lparr>bk_script := rest\<rparr>))"

definition js_store :: "string \<Rightarrow> string \<Rightarrow> string \<Rightarrow> broker \<Rightarrow> broker" where
  "js_store subj data msg_id b =
     (if msg_id \<in> set (bk_recent b) then b
      else b\<lparr>bk_log := bk_log b @ [(subj, data, msg_id)], bk_recent := msg_id # bk_recent b\<rparr>)"

definition js_publish :: "string \<Rightarrow> string \<Rightarrow> string \<Rightarrow> broker \<Rightarrow> bool \<times> broker" where
  "js_publish subj data msg_id b =
     (case js_next b of
        (Acked, b) \<Rightarrow> (True, js_store subj data msg_id b)
      | (Refused, b) \<Rightarrow> (False, b)
      | (AckLost, b) \<Rightarrow> (False, js_store subj data msg_id b))"

definition publisher_publish :: "codec \<Rightarrow> string \<Rightarrow> envelope \<Rightarrow> broker \<Rightarrow> bool \<times> broker" where
  "publisher_publish jc subj env b =
     (case jc_encode jc env of
        None \<Rightarrow> (False, b)
      | Some data \<Rightarrow> js_publish subj data (jc_show_id jc (en_id env)) b)"

text \<open>
  \<^verbatim>\<open>EnsureStream\<close>: what \<^verbatim>\<open>AddStream\<close> and, for a stream that exists with another configuration,
  \<^verbatim>\<open>UpdateStream\<close> answer.
\<close>

datatype stream_reply = StreamOk | StreamNameInUse | StreamFailed

definition ensure_stream :: "stream_reply \<Rightarrow> stream_reply \<Rightarrow> bool" where
  "ensure_stream add update =
     (if add = StreamOk then True
      else if add \<noteq> StreamNameInUse then False
      else update = StreamOk)"

section \<open>The relay\<close>

definition relay_batch_size :: int where "relay_batch_size = 100"
definition relay_poll_interval :: duration where "relay_poll_interval = second"
definition relay_backoff_base :: duration where "relay_backoff_base = second"
definition relay_backoff_max :: duration where "relay_backoff_max = 30 * second"
definition relay_cleanup_interval :: duration where "relay_cleanup_interval = hour"

record relay_world =
  rw_db :: db
  rw_broker :: broker

definition on_outbox :: "(db \<Rightarrow> 'a \<times> db) \<Rightarrow> relay_world \<Rightarrow> 'a \<times> relay_world" where
  "on_outbox f w = (case f (rw_db w) of (r, d) \<Rightarrow> (r, w\<lparr>rw_db := d\<rparr>))"

text \<open>A failed record of the attempt is only logged.\<close>

definition mark_attempt :: "uuid \<Rightarrow> string \<Rightarrow> relay_world \<Rightarrow> relay_world" where
  "mark_attempt i cause w = snd (on_outbox (events_mark_attempt i cause) w)"

definition publish_event :: "codec \<Rightarrow> outbox_event \<Rightarrow> relay_world \<Rightarrow> bool \<times> relay_world" where
  "publish_event jc ev w =
     (case jc_decode jc (ev_envelope ev) of
        None \<Rightarrow> (False, mark_attempt (ev_id ev) ''decode'' w)
      | Some env \<Rightarrow>
          (case publisher_publish jc (ev_subject ev) env (rw_broker w) of
             (False, b) \<Rightarrow> (False, mark_attempt (ev_id ev) ''publish'' (w\<lparr>rw_broker := b\<rparr>))
           | (True, b) \<Rightarrow>
               (case on_outbox (events_mark_published (ev_id ev)) (w\<lparr>rw_broker := b\<rparr>) of
                  (Inl _, w) \<Rightarrow> (False, w)
                | (Inr _, w) \<Rightarrow> (True, w))))"

text \<open>True when every event was published and recorded as such.\<close>

fun publish_now :: "codec \<Rightarrow> outbox_event list \<Rightarrow> relay_world \<Rightarrow> bool \<times> relay_world" where
  "publish_now jc [] w = (True, w)"
| "publish_now jc (ev # evs) w =
     (case publish_event jc ev w of
        (ok, w) \<Rightarrow> (case publish_now jc evs w of (rest, w) \<Rightarrow> (ok \<and> rest, w)))"

definition relay_cutoff :: "int \<Rightarrow> instant \<Rightarrow> instant" where
  "relay_cutoff retention_days now = now - wrap64 (retention_days * (24 * hour))"

definition relay_cleanup :: "int \<Rightarrow> instant \<Rightarrow> relay_world \<Rightarrow> relay_world" where
  "relay_cleanup retention_days now w =
     snd (on_outbox (events_delete_published_before (relay_cutoff retention_days now)) w)"

fun relay_backoff_loop :: "duration \<Rightarrow> duration \<Rightarrow> nat \<Rightarrow> duration" where
  "relay_backoff_loop cap delay 0 = (if delay > cap then cap else delay)"
| "relay_backoff_loop cap delay (Suc n) =
     (let delay' = delay * 2 in if delay' \<ge> cap then cap else relay_backoff_loop cap delay' n)"

definition relay_backoff :: "int \<Rightarrow> duration" where
  "relay_backoff failures =
     (if failures \<le> 0 then 0
      else relay_backoff_loop relay_backoff_max relay_backoff_base (nat (failures - 1)))"

text \<open>
  One round of \<^verbatim>\<open>Run\<close>. What comes from outside is in \<open>relay_input\<close>: the clock, the replies to
  \<^verbatim>\<open>EnsureStream\<close>, whether the context is cancelled at the start and after a failure, and the rows
  other transactions hold. The answer is the delay the round waits for, None when \<^verbatim>\<open>Run\<close> returned.
\<close>

record relay_state =
  rl_failures :: int
  rl_ensured :: bool
  rl_last_cleanup :: instant

record relay_input =
  ri_now :: instant
  ri_stream :: bool
  ri_cancelled :: bool
  ri_cancelled_later :: bool
  ri_locked :: "uuid \<Rightarrow> bool"

definition relay_start :: relay_state where
  "relay_start = \<lparr>rl_failures = 0, rl_ensured = False, rl_last_cleanup = zero_time\<rparr>"

definition relay_failed :: "relay_input \<Rightarrow> relay_state \<Rightarrow> duration option \<times> relay_state" where
  "relay_failed inp st =
     (if ri_cancelled_later inp then (None, st)
      else (Some (relay_backoff (rl_failures st + 1)), st\<lparr>rl_failures := rl_failures st + 1\<rparr>))"

definition relay_drain :: "codec \<Rightarrow> relay_input \<Rightarrow> relay_state \<Rightarrow> relay_world
      \<Rightarrow> duration option \<times> relay_state \<times> relay_world" where
  "relay_drain jc inp st w =
     (case on_outbox (events_claim_pending (ri_locked inp) relay_batch_size) w of
        (Inl _, w) \<Rightarrow> (case relay_failed inp st of (r, st) \<Rightarrow> (r, st, w))
      | (Inr pend, w) \<Rightarrow>
          if pend = [] then (Some relay_poll_interval, st\<lparr>rl_failures := 0\<rparr>, w)
          else (case publish_now jc pend w of
             (False, w) \<Rightarrow>
               (case relay_failed inp st of
                  (None, st) \<Rightarrow> (None, st, w)
                | (Some t, st) \<Rightarrow> (Some t, st\<lparr>rl_ensured := False\<rparr>, w))
           | (True, w) \<Rightarrow>
               (Some (if int (length pend) < relay_batch_size then relay_poll_interval else 0),
                st\<lparr>rl_failures := 0\<rparr>, w)))"

definition relay_round :: "codec \<Rightarrow> int \<Rightarrow> relay_input \<Rightarrow> relay_state \<Rightarrow> relay_world
      \<Rightarrow> duration option \<times> relay_state \<times> relay_world" where
  "relay_round jc retention_days inp st w =
     (if ri_cancelled inp then (None, st, w)
      else
        (let due_cleanup = ri_now inp - rl_last_cleanup st \<ge> relay_cleanup_interval;
             st = (if due_cleanup then st\<lparr>rl_last_cleanup := ri_now inp\<rparr> else st);
             w = (if due_cleanup then relay_cleanup retention_days (ri_now inp) w else w)
         in if \<not> rl_ensured st \<and> \<not> ri_stream inp
            then (case relay_failed inp st of (r, st) \<Rightarrow> (r, st, w))
            else relay_drain jc inp (st\<lparr>rl_ensured := True\<rparr>) w))"

text \<open>The loop, one input per round, until a round returns or its wait is cut short.\<close>

fun relay_run :: "codec \<Rightarrow> int \<Rightarrow> (relay_input \<times> bool) list \<Rightarrow> relay_state \<Rightarrow> relay_world
      \<Rightarrow> relay_state \<times> relay_world" where
  "relay_run jc days [] st w = (st, w)"
| "relay_run jc days ((inp, woken) # inps) st w =
     (case relay_round jc days inp st w of
        (None, st, w) \<Rightarrow> (st, w)
      | (Some _, st, w) \<Rightarrow> if woken then (st, w) else relay_run jc days inps st w)"

section \<open>Nothing is lost\<close>

definition broker_ids :: "broker \<Rightarrow> string set" where
  "broker_ids b = (\<lambda>(s, data, i). i) ` set (bk_log b)"

definition broker_ok :: "broker \<Rightarrow> bool" where
  "broker_ok b \<longleftrightarrow> set (bk_recent b) \<subseteq> broker_ids b"

lemma js_next_log: "js_next b = (a, b') \<Longrightarrow> bk_log b' = bk_log b \<and> bk_recent b' = bk_recent b"
  by (auto simp: js_next_def split: list.splits)

lemma js_store_ids: "broker_ids (js_store s data i b) = broker_ids b \<union> (if i \<in> set (bk_recent b) then {} else {i})"
  by (auto simp: js_store_def broker_ids_def image_Un)

lemma js_store_ok:
  assumes "broker_ok b"
  shows "broker_ok (js_store s data i b)" "i \<in> broker_ids (js_store s data i b)"
    "broker_ids b \<subseteq> broker_ids (js_store s data i b)"
  using assms unfolding js_store_ids broker_ok_def by (auto simp: js_store_def)

lemma publisher_publish_ok:
  assumes "broker_ok b" "publisher_publish jc s env b = (ok, b')"
  shows "broker_ok b' \<and> broker_ids b \<subseteq> broker_ids b'
    \<and> (ok \<longrightarrow> jc_show_id jc (en_id env) \<in> broker_ids b')"
proof (cases "jc_encode jc env")
  case None
  then show ?thesis using assms by (simp add: publisher_publish_def)
next
  case (Some data)
  obtain a c where n: "js_next b = (a, c)" by (cases "js_next b")
  have c: "broker_ok c" "broker_ids c = broker_ids b"
    using js_next_log [OF n] assms(1) by (simp_all add: broker_ok_def broker_ids_def)
  show ?thesis
    using assms(2) Some n c js_store_ok(1,2) [OF c(1)] js_store_ok(3) [OF c(1), THEN subsetD]
    by (cases a) (auto simp: publisher_publish_def js_publish_def)
qed

text \<open>
  \<open>in_broker\<close>: the broker stored a message with the id of the envelope. \<open>pipe_ok\<close> is what the relay
  keeps: a row is marked as published only when the broker has its message. \<open>kept w w'\<close>: what was
  in the outbox in \<open>w\<close> still is in \<open>w'\<close>, or the broker has it.
\<close>

definition in_broker :: "codec \<Rightarrow> broker \<Rightarrow> string \<Rightarrow> bool" where
  "in_broker jc b envelope \<longleftrightarrow>
     (\<exists>env. jc_decode jc envelope = Some env \<and> jc_show_id jc (en_id env) \<in> broker_ids b)"

definition body_of :: "event_row \<Rightarrow> uuid \<times> string \<times> string" where
  "body_of r = (er_id r, er_subject r, er_envelope r)"

definition bodies :: "relay_world \<Rightarrow> (uuid \<times> string \<times> string) set" where
  "bodies w = body_of ` set (t_events (rw_db w))"

definition pipe_ok :: "codec \<Rightarrow> relay_world \<Rightarrow> bool" where
  "pipe_ok jc w \<longleftrightarrow> broker_ok (rw_broker w) \<and> keyed er_id (t_events (rw_db w)) \<and>
     (\<forall>r \<in> set (t_events (rw_db w)). pending r \<or> in_broker jc (rw_broker w) (er_envelope r))"

definition kept :: "codec \<Rightarrow> relay_world \<Rightarrow> relay_world \<Rightarrow> bool" where
  "kept jc w w' \<longleftrightarrow> broker_ids (rw_broker w) \<subseteq> broker_ids (rw_broker w') \<and>
     (\<forall>(i, s, e) \<in> bodies w. (i, s, e) \<in> bodies w' \<or> in_broker jc (rw_broker w') e)"

lemma in_broker_mono: "in_broker jc b e \<Longrightarrow> broker_ids b \<subseteq> broker_ids b' \<Longrightarrow> in_broker jc b' e"
  by (auto simp: in_broker_def)

lemma kept_refl [simp]: "kept jc w w"
  by (auto simp: kept_def)

lemma kept_trans:
  assumes "kept jc a b" "kept jc b c"
  shows "kept jc a c"
  using assms in_broker_mono [of jc "rw_broker b" _ "rw_broker c"] unfolding kept_def by blast

lemma kept_same_bodies:
  "broker_ids (rw_broker w) \<subseteq> broker_ids (rw_broker w') \<Longrightarrow> bodies w' = bodies w \<Longrightarrow> kept jc w w'"
  by (auto simp: kept_def)

text \<open>An update of one row that keeps its body, with the row it changes.\<close>

lemma exec_event_rows:
  assumes body: "\<And>now r. body_of (f now r) = body_of r"
    and e: "exec_event i f d = (res, d')"
  shows "body_of ` set (t_events d') = body_of ` set (t_events d)"
    "keyed er_id (t_events d') = keyed er_id (t_events d)"
    "r' \<in> set (t_events d') \<Longrightarrow>
       r' \<in> set (t_events d) \<or> (\<exists>r now. r \<in> set (t_events d) \<and> er_id r = i \<and> r' = f now r)"
proof -
  have id: "er_id (f now r) = er_id r" for now r
    using body [of now r] by (simp add: body_of_def)
  have "body_of ` set (t_events d') = body_of ` set (t_events d)
      \<and> keyed er_id (t_events d') = keyed er_id (t_events d)
      \<and> (r' \<in> set (t_events d') \<longrightarrow> r' \<in> set (t_events d)
          \<or> (\<exists>r now. r \<in> set (t_events d) \<and> er_id r = i \<and> r' = f now r))"
    using e unfolding exec_event_def
  proof (rule pg_run_inv, goal_cases)
    case (1 e)
    then show ?case by (simp add: same_tables_fields [OF 1])
  next
    case (2 e r e')
    note t = same_tables_fields(7) [OF 2(1)]
    show ?case
    proof (cases "i \<in> er_id ` set (t_events e)")
      case False
      then show ?thesis using 2(2) t by simp
    next
      case True
      then have e': "t_events e' = update_where (\<lambda>r. er_id r = i) (f (pg_now e)) (t_events d)"
        using 2(2) t by auto
      show ?thesis
        unfolding e' image_update_where [of body_of "f (pg_now e)", OF body]
          keyed_update [of er_id "f (pg_now e)", OF id]
        by (auto simp: set_update_where)
    qed
  qed
  then show "body_of ` set (t_events d') = body_of ` set (t_events d)"
    "keyed er_id (t_events d') = keyed er_id (t_events d)"
    "r' \<in> set (t_events d') \<Longrightarrow>
       r' \<in> set (t_events d) \<or> (\<exists>r now. r \<in> set (t_events d) \<and> er_id r = i \<and> r' = f now r)"
    by blast+
qed

lemma body_of_attempt: "body_of (r\<lparr>er_attempts := a, er_last_error := e\<rparr>) = body_of r"
  by (simp add: body_of_def)

lemma body_of_published: "body_of (r\<lparr>er_published := p, er_last_error := e\<rparr>) = body_of r"
  by (simp add: body_of_def)

lemma mark_attempt_ok:
  assumes "pipe_ok jc w"
  shows "pipe_ok jc (mark_attempt i m w)" "bodies (mark_attempt i m w) = bodies w"
    "rw_broker (mark_attempt i m w) = rw_broker w"
proof -
  obtain res d where e: "events_mark_attempt i m (rw_db w) = (res, d)" by (cases "events_mark_attempt i m (rw_db w)")
  note rows = exec_event_rows [OF body_of_attempt e [unfolded events_mark_attempt_def]]
  have w': "mark_attempt i m w = w\<lparr>rw_db := d\<rparr>" using e by (simp add: mark_attempt_def on_outbox_def)
  show "bodies (mark_attempt i m w) = bodies w" "rw_broker (mark_attempt i m w) = rw_broker w"
    using rows(1) by (simp_all add: w' bodies_def)
  show "pipe_ok jc (mark_attempt i m w)"
    using assms rows(2,3) by (fastforce simp: w' pipe_ok_def pending_def)
qed

lemma broker_kept:
  assumes "pipe_ok jc w" "broker_ok b" "broker_ids (rw_broker w) \<subseteq> broker_ids b"
  shows "pipe_ok jc (w\<lparr>rw_broker := b\<rparr>)"
  using assms in_broker_mono by (fastforce simp: pipe_ok_def)

lemma publish_event_ok:
  assumes ok: "pipe_ok jc w" and mem: "(ev_id ev, ev_subject ev, ev_envelope ev) \<in> bodies w"
    and p: "publish_event jc ev w = (res, w')"
  shows "pipe_ok jc w' \<and> bodies w' = bodies w \<and> broker_ids (rw_broker w) \<subseteq> broker_ids (rw_broker w')"
proof (cases "jc_decode jc (ev_envelope ev)")
  case None
  then show ?thesis using p mark_attempt_ok [OF ok] by (auto simp: publish_event_def)
next
  case (Some env)
  obtain sent b where pb: "publisher_publish jc (ev_subject ev) env (rw_broker w) = (sent, b)"
    by (cases "publisher_publish jc (ev_subject ev) env (rw_broker w)")
  have "broker_ok (rw_broker w)" using ok by (simp add: pipe_ok_def)
  note b = publisher_publish_ok [OF this pb]
  have ok': "pipe_ok jc (w\<lparr>rw_broker := b\<rparr>)" using broker_kept [OF ok] b by simp
  have bod: "bodies (w\<lparr>rw_broker := b\<rparr>) = bodies w" by (simp add: bodies_def)
  show ?thesis
  proof (cases sent)
    case False
    then show ?thesis using p Some pb mark_attempt_ok [OF ok'] b bod by (auto simp: publish_event_def)
  next
    case True
    obtain r d where e: "events_mark_published (ev_id ev) (rw_db w) = (r, d)"
      by (cases "events_mark_published (ev_id ev) (rw_db w)")
    note rows = exec_event_rows [OF body_of_published e [unfolded events_mark_published_def]]
    have w': "w' = w\<lparr>rw_broker := b, rw_db := d\<rparr>"
      using p Some pb True e by (auto simp: publish_event_def on_outbox_def split: sum.splits)
    have here: "in_broker jc b (ev_envelope ev)" using b True Some by (auto simp: in_broker_def)
    have key: "er_envelope x = ev_envelope ev" if "x \<in> set (t_events (rw_db w))" "er_id x = ev_id ev" for x
    proof -
      obtain y where y: "y \<in> set (t_events (rw_db w))" "body_of y = (ev_id ev, ev_subject ev, ev_envelope ev)"
        using mem by (auto simp: bodies_def)
      have k: "keyed er_id (t_events (rw_db w))" using ok by (simp add: pipe_ok_def)
      have "er_id x = er_id y" using y(2) that(2) by (simp add: body_of_def)
      then have "x = y" by (rule keyed_inj [OF k that(1) y(1)])
      then show ?thesis using y(2) by (simp add: body_of_def)
    qed
    have "pending x \<or> in_broker jc b (er_envelope x)" if x: "x \<in> set (t_events d)" for x
      using rows(3) [OF x] ok' key here by (auto simp: pipe_ok_def)
    then have "pipe_ok jc w'" using rows(2) ok' by (auto simp: w' pipe_ok_def)
    then show ?thesis using rows(1) b by (simp add: w' bodies_def)
  qed
qed

lemma publish_now_ok:
  assumes "pipe_ok jc w" "\<forall>ev \<in> set evs. (ev_id ev, ev_subject ev, ev_envelope ev) \<in> bodies w"
    "publish_now jc evs w = (res, w')"
  shows "pipe_ok jc w' \<and> bodies w' = bodies w \<and> broker_ids (rw_broker w) \<subseteq> broker_ids (rw_broker w')"
  using assms
proof (induction evs arbitrary: w res)
  case Nil
  then show ?case by simp
next
  case (Cons ev evs)
  obtain ok v where p: "publish_event jc ev w = (ok, v)" by (cases "publish_event jc ev w")
  obtain rest where n: "publish_now jc evs v = (rest, w')"
    using Cons.prems(3) p by (auto split: prod.splits)
  have v: "pipe_ok jc v \<and> bodies v = bodies w \<and> broker_ids (rw_broker w) \<subseteq> broker_ids (rw_broker v)"
    using publish_event_ok [OF Cons.prems(1) _ p] Cons.prems(2) by simp
  show ?case using Cons.IH [OF _ _ n] v Cons.prems(2) by auto
qed

lemma relay_cleanup_ok:
  assumes "pipe_ok jc w"
  shows "pipe_ok jc (relay_cleanup days now w) \<and> kept jc w (relay_cleanup days now w)"
proof -
  obtain r d where e: "events_delete_published_before (relay_cutoff days now) (rw_db w) = (r, d)"
    by (cases "events_delete_published_before (relay_cutoff days now) (rw_db w)")
  have w': "relay_cleanup days now w = w\<lparr>rw_db := d\<rparr>"
    using e by (simp add: relay_cleanup_def on_outbox_def)
  have "\<exists>P. t_events d = filter P (t_events (rw_db w)) \<and> (\<forall>x. pending x \<longrightarrow> P x)"
    using e unfolding events_delete_published_before_def
  proof (rule pg_run_inv, goal_cases)
    case (1 e)
    then show ?case by (intro exI [of _ "\<lambda>_. True"]) (simp add: same_tables_fields [OF 1])
  next
    case (2 e r e')
    then show ?case
      by (intro exI [of _ "\<lambda>r. \<not> published_before (relay_cutoff days now) r"])
        (auto simp: same_tables_fields [OF 2(1)] published_before_def pending_def)
  qed
  then obtain P where P: "t_events d = filter P (t_events (rw_db w))" "\<And>x. pending x \<Longrightarrow> P x" by blast
  have "pipe_ok jc (w\<lparr>rw_db := d\<rparr>)"
    using assms by (auto simp: pipe_ok_def P(1) intro: keyed_filter)
  moreover have "body_of r \<in> bodies (w\<lparr>rw_db := d\<rparr>) \<or> in_broker jc (rw_broker w) (er_envelope r)"
    if "r \<in> set (t_events (rw_db w))" for r
  proof (cases "pending r")
    case True
    then show ?thesis using that P(2) by (auto simp: bodies_def P(1))
  next
    case False
    then show ?thesis using that assms by (auto simp: pipe_ok_def)
  qed
  then have "kept jc w (w\<lparr>rw_db := d\<rparr>)" by (fastforce simp: kept_def bodies_def body_of_def)
  ultimately show ?thesis by (simp add: w')
qed

lemma relay_drain_ok:
  assumes ok: "pipe_ok jc w" and e: "relay_drain jc inp st w = (res, st', w')"
  shows "pipe_ok jc w' \<and> kept jc w w'"
proof -
  obtain r d where c: "events_claim_pending (ri_locked inp) relay_batch_size (rw_db w) = (r, d)"
    by (cases "events_claim_pending (ri_locked inp) relay_batch_size (rw_db w)")
  define v where "v = w\<lparr>rw_db := d\<rparr>"
  have s: "same_tables (rw_db w) d" and claimed: "\<And>evs. r = Inr evs \<Longrightarrow>
      evs = map scan_event (pending_select (ri_locked inp) relay_batch_size (rw_db w))"
    using events_claim_outcome [OF c] by auto
  have v: "pipe_ok jc v" "bodies v = bodies w" "rw_broker v = rw_broker w"
    using ok by (simp_all add: v_def pipe_ok_def bodies_def same_tables_fields [OF s])
  have "w' = v \<or> (\<exists>evs ok. r = Inr evs \<and> publish_now jc evs v = (ok, w'))"
    using e c by (auto simp: relay_drain_def on_outbox_def v_def
        split: sum.splits if_splits prod.splits bool.splits option.splits)
  then show ?thesis
  proof (elim disjE exE conjE)
    assume "w' = v"
    then show ?thesis using v by (simp add: kept_same_bodies)
  next
    fix evs ok
    assume evs: "r = Inr evs" and p: "publish_now jc evs v = (ok, w')"
    have "(ev_id ev, ev_subject ev, ev_envelope ev) \<in> bodies v" if "ev \<in> set evs" for ev
      using that unfolding claimed [OF evs] v(2)
      by (auto simp: scan_event_def bodies_def body_of_def dest!: pending_select_rows)
    then have "pipe_ok jc w' \<and> bodies w' = bodies v
        \<and> broker_ids (rw_broker v) \<subseteq> broker_ids (rw_broker w')"
      using publish_now_ok [OF v(1) _ p] by blast
    then show ?thesis using v by (simp add: kept_same_bodies)
  qed
qed

lemma relay_round_ok:
  assumes "pipe_ok jc w" "relay_round jc days inp st w = (res, st', w')"
  shows "pipe_ok jc w' \<and> kept jc w w'"
proof -
  define v where "v = (if ri_now inp - rl_last_cleanup st \<ge> relay_cleanup_interval
    then relay_cleanup days (ri_now inp) w else w)"
  have v: "pipe_ok jc v" "kept jc w v"
    using assms(1) relay_cleanup_ok by (simp_all add: v_def)
  have "w' = w \<or> w' = v \<or> (\<exists>res st st'. relay_drain jc inp st v = (res, st', w'))"
    using assms(2) by (auto simp: relay_round_def Let_def v_def split: if_splits prod.splits)
  then show ?thesis
    using assms(1) v relay_drain_ok kept_trans by (elim disjE exE) (simp, simp, blast)
qed

lemma relay_run_ok:
  assumes "pipe_ok jc w" "relay_run jc days inps st w = (st', w')"
  shows "pipe_ok jc w' \<and> kept jc w w'"
  using assms
proof (induction jc days inps st w rule: relay_run.induct)
  case (1 jc days st w)
  then show ?case by simp
next
  case (2 jc days inp woken inps st w)
  obtain r st2 v where r: "relay_round jc days inp st w = (r, st2, v)"
    by (cases "relay_round jc days inp st w")
  note v = relay_round_ok [OF 2(2) r]
  show ?case
  proof (cases "r = None \<or> woken")
    case True
    then show ?thesis using 2(3) r v by (auto split: option.splits)
  next
    case False
    then obtain dl where "r = Some dl" "\<not> woken" by auto
    then show ?thesis using 2(1) [OF r [symmetric]] 2(3) r v kept_trans by (auto split: option.splits)
  qed
qed

section \<open>Producers and the relay together\<close>

inductive pipeline :: "codec \<Rightarrow> int \<Rightarrow> relay_world \<Rightarrow> relay_world \<Rightarrow> bool" for jc days where
  Idle: "pipeline jc days w w"
| Write: "pipeline jc days w v \<Longrightarrow> on_outbox (outbox_write jc subj env) v = (r, v') \<Longrightarrow> pipeline jc days w v'"
| Round: "pipeline jc days w v \<Longrightarrow> relay_round jc days inp st v = (r, st', v') \<Longrightarrow> pipeline jc days w v'"

lemma events_enqueue_outcome:
  assumes "events_enqueue i subj data d = (res, d')"
  shows "(same_tables d d' \<and> res \<noteq> Inr ()) \<or>
    (\<exists>stored. pg_jsonb d data = Some stored \<and> i \<notin> er_id ` set (t_events d) \<and>
       t_events d' = t_events d @ [event_row_of d i subj stored])"
  using assms unfolding events_enqueue_def
proof (rule pg_run_inv, goal_cases)
  case (1 e)
  then show ?case by simp
next
  case (2 e r e')
  note t = same_tables_fields [OF 2(1)]
  show ?case
    using 2 t by (auto simp: event_row_of_def split: option.splits if_splits)
qed

lemma outbox_write_ok:
  assumes ok: "pipe_ok jc w" and e: "on_outbox (outbox_write jc subj env) w = (r, w')"
  shows "pipe_ok jc w' \<and> kept jc w w' \<and> (r = Inr () \<longrightarrow>
    (\<exists>data stored. jc_encode jc env = Some data \<and> pg_jsonb (rw_db w) data = Some stored
       \<and> (en_id env, subj, stored) \<in> bodies w'))"
proof (cases "jc_encode jc env")
  case None
  then show ?thesis using e ok by (auto simp: on_outbox_def outbox_write_def)
next
  case (Some data)
  obtain res d where q: "events_enqueue (en_id env) subj data (rw_db w) = (res, d)"
    by (cases "events_enqueue (en_id env) subj data (rw_db w)")
  have w': "w' = w\<lparr>rw_db := d\<rparr>" and r: "r = Inr () \<Longrightarrow> res = Inr ()"
    using e q Some by (auto simp: on_outbox_def outbox_write_def split: sum.splits)
  from events_enqueue_outcome [OF q] show ?thesis
  proof (elim disjE conjE exE)
    assume s: "same_tables (rw_db w) d" and res: "res \<noteq> Inr ()"
    then show ?thesis
      using ok r by (auto simp: w' pipe_ok_def same_tables_fields [OF s] bodies_def kept_same_bodies)
  next
    fix stored
    assume a: "pg_jsonb (rw_db w) data = Some stored" "en_id env \<notin> er_id ` set (t_events (rw_db w))"
      "t_events d = t_events (rw_db w) @ [event_row_of (rw_db w) (en_id env) subj stored]"
    have "pipe_ok jc w'"
      using ok a(2) by (auto simp: w' pipe_ok_def a(3) keyed_snoc event_row_of_def pending_def)
    moreover have "bodies w' = insert (en_id env, subj, stored) (bodies w)"
      by (simp add: bodies_def w' a(3) body_of_def event_row_of_def)
    ultimately show ?thesis using a(1) Some by (auto simp: kept_def w')
  qed
qed

lemma pipeline_ok:
  assumes "pipeline jc days w w'" "pipe_ok jc w"
  shows "pipe_ok jc w' \<and> kept jc w w'"
  using assms
proof induction
  case (Idle w)
  then show ?case by simp
next
  case (Write w v subj env r v')
  then show ?case using outbox_write_ok [OF _ Write.hyps(2)] kept_trans by blast
next
  case (Round w v inp st r st' v')
  then show ?case using relay_round_ok [OF _ Round.hyps(2)] kept_trans by blast
qed

section \<open>A round without faults\<close>

text \<open>\<open>sendable\<close>: the stored text decodes, and what it decodes to can be encoded.\<close>

definition sendable :: "codec \<Rightarrow> string \<Rightarrow> bool" where
  "sendable jc e = (case jc_decode jc e of None \<Rightarrow> False | Some env \<Rightarrow> jc_encode jc env \<noteq> None)"

definition quiet :: "relay_world \<Rightarrow> bool" where
  "quiet w \<longleftrightarrow> pg_script (rw_db w) = [] \<and> bk_script (rw_broker w) = []"

lemma publish_event_quiet:
  assumes "quiet w" "sendable jc (ev_envelope ev)" "ev_id ev \<in> er_id ` set (t_events (rw_db w))"
  shows "\<exists>w'. publish_event jc ev w = (True, w') \<and> quiet w' \<and>
    t_events (rw_db w') = update_where (\<lambda>r. er_id r = ev_id ev)
      (\<lambda>r. r\<lparr>er_published := Some (pg_now (rw_db w)), er_last_error := None\<rparr>) (t_events (rw_db w))
    \<and> pg_now (rw_db w') = pg_now (rw_db w)"
  using assms
  by (auto simp: publish_event_def sendable_def publisher_publish_def js_publish_def js_next_def
      quiet_def on_outbox_def events_mark_published_def exec_event_def js_store_def split: option.splits)

lemma pending_after:
  "filter pending (update_where (\<lambda>r. er_id r = i) (\<lambda>r. r\<lparr>er_published := Some t, er_last_error := e\<rparr>) rows)
     = filter (\<lambda>r. er_id r \<noteq> i) (filter pending rows)"
  by (induction rows) (auto simp: update_where_def pending_def)

lemma publish_now_quiet:
  assumes "quiet w" "\<forall>ev \<in> set evs. sendable jc (ev_envelope ev) \<and> ev_id ev \<in> er_id ` set (t_events (rw_db w))"
  shows "\<exists>w'. publish_now jc evs w = (True, w') \<and> quiet w' \<and>
    filter pending (t_events (rw_db w')) =
      filter (\<lambda>r. er_id r \<notin> ev_id ` set evs) (filter pending (t_events (rw_db w)))"
  using assms
proof (induction evs arbitrary: w)
  case Nil
  then show ?case by simp
next
  case (Cons ev evs)
  obtain v where v: "publish_event jc ev w = (True, v)" "quiet v"
    "t_events (rw_db v) = update_where (\<lambda>r. er_id r = ev_id ev)
      (\<lambda>r. r\<lparr>er_published := Some (pg_now (rw_db w)), er_last_error := None\<rparr>) (t_events (rw_db w))"
    using publish_event_quiet [OF Cons.prems(1)] Cons.prems(2) by (metis list.set_intros(1))
  have ids: "er_id ` set (t_events (rw_db v)) = er_id ` set (t_events (rw_db w))"
    unfolding v(3) by (rule image_update_where) simp
  have left: "filter pending (t_events (rw_db v)) =
      filter (\<lambda>r. er_id r \<noteq> ev_id ev) (filter pending (t_events (rw_db w)))"
    unfolding v(3) by (rule pending_after)
  have rest: "\<forall>e \<in> set evs. sendable jc (ev_envelope e) \<and> ev_id e \<in> er_id ` set (t_events (rw_db v))"
    using Cons.prems(2) ids by simp
  obtain w' where "publish_now jc evs v = (True, w')" "quiet w'"
    "filter pending (t_events (rw_db w')) =
       filter (\<lambda>r. er_id r \<notin> ev_id ` set evs) (filter pending (t_events (rw_db v)))"
    using Cons.IH [OF v(2) rest] by blast
  then show ?case using v(1) by (auto simp: left intro: filter_cong)
qed

lemma filter_not_taken:
  "distinct (map k xs) \<Longrightarrow> filter (\<lambda>r. k r \<notin> k ` set (take n xs)) xs = drop n xs"
proof -
  assume d: "distinct (map k xs)"
  have split: "xs = take n xs @ drop n xs" by simp
  have "k ` set (take n xs) \<inter> k ` set (drop n xs) = {}"
    using d by (metis split distinct_append list.set_map map_append)
  then have "filter (\<lambda>r. k r \<notin> k ` set (take n xs)) (take n xs) = []"
    "filter (\<lambda>r. k r \<notin> k ` set (take n xs)) (drop n xs) = drop n xs"
    by (auto simp: filter_id_conv filter_empty_conv)
  then show ?thesis by (metis filter_append append_Nil split)
qed

definition unlocked :: "uuid \<Rightarrow> bool" where
  "unlocked i \<longleftrightarrow> False"

lemma select_quiet:
  "pending_select unlocked n d = take (nat n) (sort_key (\<lambda>r. (er_created r, er_id r)) (filter pending (t_events d)))"
  by (simp add: pending_select_def unlocked_def)

lemma pending_left:
  assumes "keyed er_id (t_events d)"
  shows "length (filter (\<lambda>r. er_id r \<notin> er_id ` set (pending_select unlocked n d)) (filter pending (t_events d)))
    = length (filter pending (t_events d)) - nat n"
proof -
  let ?s = "sort_key (\<lambda>r. (er_created r, er_id r)) (filter pending (t_events d))"
  have "keyed er_id (filter pending (t_events d))" using assms by (rule keyed_filter)
  then have d: "distinct (map er_id ?s)"
    by (simp add: keyed_def distinct_map)
  have "length (filter P (filter pending (t_events d))) = length (filter P ?s)" for P
    by (simp add: filter_sort)
  then show ?thesis using filter_not_taken [OF d] by (simp add: select_quiet)
qed

lemma relay_backoff_loop_closed:
  "0 < delay \<Longrightarrow> relay_backoff_loop cap delay n = min (delay * 2 ^ n) cap"
proof (induction n arbitrary: delay)
  case 0
  then show ?case by simp
next
  case (Suc n)
  have "delay * 2 * 1 \<le> delay * 2 * 2 ^ n"
    using Suc.prems by (intro mult_left_mono) auto
  then have "cap \<le> delay * 2 \<Longrightarrow> min (delay * 2 ^ Suc n) cap = cap" by (simp add: min_def)
  moreover have "relay_backoff_loop cap (delay * 2) n = min (delay * 2 ^ Suc n) cap"
    using Suc.IH [of "delay * 2"] Suc.prems by (simp add: mult.assoc)
  ultimately show ?case by (simp add: Let_def)
qed

section \<open>A pipeline to evaluate on\<close>

definition sample_envelope :: envelope where
  "sample_envelope = \<lparr>en_id = 1, en_version = 1, en_type = ''message'', en_instance = 1, en_occurred = 0,
     en_payload = ''{}'', en_event = []\<rparr>"

definition sample_codec :: codec where
  "sample_codec =
     \<lparr>jc_encode = (\<lambda>env. if env = sample_envelope then Some ''e1'' else None),
      jc_decode = (\<lambda>s. if s = ''e1'' then Some sample_envelope else None),
      jc_show_id = (\<lambda>i. replicate i CHR ''i'')\<rparr>"

definition sample_relay_world :: relay_world where
  "sample_relay_world = \<lparr>rw_db = blank_db, rw_broker = \<lparr>bk_log = [], bk_recent = [], bk_script = []\<rparr>\<rparr>"

definition sample_outbox :: relay_world where
  "sample_outbox = snd (on_outbox (outbox_write sample_codec ''s'' sample_envelope) sample_relay_world)"

definition sample_round :: relay_input where
  "sample_round = \<lparr>ri_now = 0, ri_stream = True, ri_cancelled = False, ri_cancelled_later = False,
     ri_locked = unlocked\<rparr>"

lemmas sample_relay_defs = sample_outbox_def sample_relay_world_def sample_codec_def sample_envelope_def
  sample_round_def

lemma sample_outbox_value:
  "on_outbox (outbox_write sample_codec ''s'' sample_envelope) sample_relay_world = (Inr (), sample_outbox)"
  "t_events (rw_db sample_outbox) = [event_row_of blank_db 1 ''s'' ''e1'']"
  "rw_broker sample_outbox = rw_broker sample_relay_world" "pg_script (rw_db sample_outbox) = []"
  by (simp_all add: sample_relay_defs on_outbox_def outbox_write_def events_enqueue_def)

lemma sample_relay_ok: "pipe_ok sample_codec sample_relay_world"
  by (simp add: pipe_ok_def sample_relay_world_def broker_ok_def keyed_def)

lemma sample_outbox_ok: "pipe_ok sample_codec sample_outbox" "quiet sample_outbox"
  by (simp_all add: pipe_ok_def quiet_def sample_outbox_value broker_ok_def keyed_def event_row_of_def
      pending_def sample_relay_world_def)

text \<open>
  C4: at least once. Once a write to the outbox answered without an error, then whatever other
  writes and relay rounds follow, and however the database and the broker fail meanwhile, the event
  is still in the outbox or the broker stored a message with its id.
\<close>

theorem written_events_are_not_lost:
  assumes "pipe_ok jc w" "on_outbox (outbox_write jc subj env) w = (Inr (), v)" "pipeline jc days v w'"
  shows "\<exists>data stored. jc_encode jc env = Some data \<and> pg_jsonb (rw_db w) data = Some stored \<and>
    ((en_id env, subj, stored) \<in> bodies w' \<or> in_broker jc (rw_broker w') stored)"
proof -
  note v = outbox_write_ok [OF assms(1,2)]
  have k: "kept jc v w'" using pipeline_ok [OF assms(3)] v by blast
  obtain data stored where d: "jc_encode jc env = Some data" "pg_jsonb (rw_db w) data = Some stored"
    "(en_id env, subj, stored) \<in> bodies v"
    using v by auto
  show ?thesis using k d by (auto simp: kept_def)
qed

theorem written_events_are_not_lost_witness:
  "\<exists>data stored. jc_encode sample_codec sample_envelope = Some data
    \<and> pg_jsonb (rw_db sample_relay_world) data = Some stored \<and>
    ((1, ''s'', stored) \<in> bodies sample_outbox \<or> in_broker sample_codec (rw_broker sample_outbox) stored)"
  using written_events_are_not_lost [OF sample_relay_ok sample_outbox_value(1) Idle]
  by (simp add: sample_envelope_def)

text \<open>
  The relay catches up. A round in which neither the database nor the broker fails publishes
  the oldest hundred pending events: the broker has each of them, that many fewer are pending, the
  failure count is reset, and the relay waits only when the batch was not full.
\<close>

theorem a_quiet_round_publishes_a_batch:
  assumes ok: "pipe_ok jc w" and q: "quiet w"
    and sendable: "\<forall>r \<in> set (t_events (rw_db w)). pending r \<longrightarrow> sendable jc (er_envelope r)"
    and inp: "\<not> ri_cancelled inp" "ri_stream inp" "ri_locked inp = unlocked"
      "ri_now inp - rl_last_cleanup st < relay_cleanup_interval"
    and round: "relay_round jc days inp st w = (res, st', w')"
  shows "length (filter pending (t_events (rw_db w'))) = length (filter pending (t_events (rw_db w))) - 100
    \<and> (\<forall>r \<in> set (pending_select unlocked 100 (rw_db w)). in_broker jc (rw_broker w') (er_envelope r))
    \<and> rl_failures st' = 0
    \<and> res = Some (if length (filter pending (t_events (rw_db w))) < 100 then relay_poll_interval else 0)"
proof -
  let ?batch = "pending_select unlocked 100 (rw_db w)"
  have script: "pg_script (rw_db w) = []" using q by (simp add: quiet_def)
  then have claim: "events_claim_pending unlocked 100 (rw_db w) = (Inr (map scan_event ?batch), rw_db w)"
    by (simp add: events_claim_pending_def Let_def)
  have rows: "r \<in> set (t_events (rw_db w)) \<and> pending r" if "r \<in> set ?batch" for r
    using pending_select_rows [OF that] by simp
  obtain v where v: "publish_now jc (map scan_event ?batch) w = (True, v)"
    "filter pending (t_events (rw_db v)) =
       filter (\<lambda>r. er_id r \<notin> er_id ` set ?batch) (filter pending (t_events (rw_db w)))"
    using publish_now_quiet [OF q, of "map scan_event ?batch" jc] rows sendable
    by (auto simp: scan_event_def image_image)
  have kd: "keyed er_id (t_events (rw_db w))" using ok by (simp add: pipe_ok_def)
  have batch_len: "length ?batch = min (length (filter pending (t_events (rw_db w)))) 100"
    by (simp add: select_quiet)
  have "relay_round jc days inp st w = relay_drain jc inp (st\<lparr>rl_ensured := True\<rparr>) w"
    using inp by (simp add: relay_round_def Let_def)
  moreover have "on_outbox (events_claim_pending (ri_locked inp) relay_batch_size) w = (Inr (map scan_event ?batch), w)"
    using claim inp by (simp add: on_outbox_def relay_batch_size_def)
  ultimately have drain: "relay_round jc days inp st w =
      (if ?batch = [] then (Some relay_poll_interval, st\<lparr>rl_ensured := True, rl_failures := 0\<rparr>, w)
       else (Some (if length ?batch < 100 then relay_poll_interval else 0),
             st\<lparr>rl_ensured := True, rl_failures := 0\<rparr>, v))"
    using v(1) by (simp add: relay_drain_def relay_batch_size_def)
  have w': "w' = (if ?batch = [] then w else v)" and st': "rl_failures st' = 0"
    and res: "res = Some (if length ?batch < 100 then relay_poll_interval else 0)"
    using round unfolding drain by (auto split: if_splits)
  have left: "filter pending (t_events (rw_db w')) =
      filter (\<lambda>r. er_id r \<notin> er_id ` set ?batch) (filter pending (t_events (rw_db w)))"
    using w' v(2) by auto
  have k: "pipe_ok jc w'" "kept jc w w'" using relay_round_ok [OF ok round] by auto
  have "in_broker jc (rw_broker w') (er_envelope r)" if r: "r \<in> set ?batch" for r
  proof (rule ccontr)
    assume no: "\<not> in_broker jc (rw_broker w') (er_envelope r)"
    then have "body_of r \<in> bodies w'"
      using k(2) rows [OF r] by (fastforce simp: kept_def bodies_def body_of_def)
    then obtain r' where r': "r' \<in> set (t_events (rw_db w'))" "body_of r' = body_of r"
      by (auto simp: bodies_def)
    then have "pending r'" using no k(1) by (auto simp: pipe_ok_def body_of_def)
    then have "r' \<in> set (filter pending (t_events (rw_db w')))" using r'(1) by simp
    then have "er_id r' \<notin> er_id ` set ?batch" unfolding left by simp
    then show False using r r'(2) by (auto simp: body_of_def)
  qed
  then show ?thesis
    using pending_left [OF kd, of 100] st' res batch_len by (simp add: left)
qed

theorem a_quiet_round_publishes_a_batch_witness:
  "length (filter pending (t_events (rw_db (snd (snd
     (relay_round sample_codec 7 sample_round (relay_start\<lparr>rl_last_cleanup := 0\<rparr>) sample_outbox)))))) = 0
   \<and> length (filter pending (t_events (rw_db sample_outbox))) = 1"
proof -
  obtain res st' w' where r:
    "relay_round sample_codec 7 sample_round (relay_start\<lparr>rl_last_cleanup := 0\<rparr>) sample_outbox = (res, st', w')"
    by (cases "relay_round sample_codec 7 sample_round (relay_start\<lparr>rl_last_cleanup := 0\<rparr>) sample_outbox")
  have one: "length (filter pending (t_events (rw_db sample_outbox))) = 1"
    by (simp add: sample_outbox_value event_row_of_def pending_def)
  have "length (filter pending (t_events (rw_db w'))) = length (filter pending (t_events (rw_db sample_outbox))) - 100"
    by (rule a_quiet_round_publishes_a_batch [OF sample_outbox_ok _ _ _ _ _ r, THEN conjunct1])
      (simp_all add: sample_outbox_value event_row_of_def sendable_def sample_codec_def sample_round_def
        relay_cleanup_interval_def duration_defs)
  then show ?thesis using one by (simp add: r)
qed

text \<open>
  The relay's delay after the n-th failure in a row is 2^(n-1) seconds, never more than thirty.
\<close>

theorem relay_backoff_closed_form:
  "relay_backoff failures = (if failures \<le> 0 then 0 else min (second * 2 ^ nat (failures - 1)) (30 * second))"
  by (simp add: relay_backoff_def relay_backoff_loop_closed relay_backoff_base_def relay_backoff_max_def
      second_def)

end
