(* ===== verification/WebhookWorker.thy ===== *)
theory WebhookWorker
  imports Events WebhookConfig "HOL-Library.Multiset"
begin

text \<open>
  Webhook delivery: the bounded JSON event (\<^verbatim>\<open>CutRawForLimit\<close>) and the HTTP delivery of
  \<^verbatim>\<open>internal/webhook/deliver.go\<close>, and the worker of \<^verbatim>\<open>internal/webhook/worker.go\<close> with its queue,
  its attempts and its retry schedule.

  The network is outside the program: \<open>server\<close> says what the endpoint at an address answers to a
  request for a URL, and \<open>net_env\<close> what names resolve to. Both may differ from attempt to attempt.
\<close>

section \<open>Cutting oversized strings\<close>

record json_lib =
  jl_decode :: "string \<Rightarrow> json option"
  jl_encode :: "json \<Rightarrow> string option"
  jl_number :: "int \<Rightarrow> string"
  jl_time :: "instant \<Rightarrow> string"

definition omission :: "json_lib \<Rightarrow> string \<Rightarrow> json" where
  "omission jl s = JObj [(''omitted'', JBool True), (''size_bytes'', JNum (jl_number jl (int (length s))))]"

fun cut_value :: "json_lib \<Rightarrow> int \<Rightarrow> json \<Rightarrow> json \<times> bool"
  and cut_members :: "json_lib \<Rightarrow> int \<Rightarrow> (string \<times> json) list \<Rightarrow> (string \<times> json) list \<times> bool"
  and cut_items :: "json_lib \<Rightarrow> int \<Rightarrow> json list \<Rightarrow> json list \<times> bool" where
  "cut_value jl limit (JStr s) =
     (if int (length s) > limit then (omission jl s, True) else (JStr s, False))"
| "cut_value jl limit (JObj ms) = (case cut_members jl limit ms of (ms', hit) \<Rightarrow> (JObj ms', hit))"
| "cut_value jl limit (JArr vs) = (case cut_items jl limit vs of (vs', hit) \<Rightarrow> (JArr vs', hit))"
| "cut_value jl limit JNull = (JNull, False)"
| "cut_value jl limit (JBool b) = (JBool b, False)"
| "cut_value jl limit (JNum n) = (JNum n, False)"
| "cut_members jl limit [] = ([], False)"
| "cut_members jl limit ((k, v) # ms) =
     (let first = cut_value jl limit v; others = cut_members jl limit ms
      in ((k, if snd first then fst first else v) # fst others, snd first \<or> snd others))"
| "cut_items jl limit [] = ([], False)"
| "cut_items jl limit (v # vs) =
     (let first = cut_value jl limit v; others = cut_items jl limit vs
      in ((if snd first then fst first else v) # fst others, snd first \<or> snd others))"

definition cut_raw_for_limit :: "json_lib \<Rightarrow> string \<Rightarrow> int \<Rightarrow> string \<times> bool" where
  "cut_raw_for_limit jl raw limit =
     (if raw = [] then (raw, False)
      else case jl_decode jl raw of
        None \<Rightarrow> (raw, False)
      | Some v \<Rightarrow>
          (case cut_value jl limit v of
             (v', hit) \<Rightarrow>
               if \<not> hit then (raw, False)
               else (case jl_encode jl v' of None \<Rightarrow> (raw, False) | Some out \<Rightarrow> (out, hit))))"

section \<open>Delivery\<close>

record sent_request =
  rq_url :: string
  rq_ip :: ip
  rq_key :: string
  rq_body :: "string option"

datatype reply = NoAnswer | Answered int bool | RedirectTo bool string

type_synonym server = "string \<Rightarrow> ip \<Rightarrow> reply"

datatype deliver_err =
    DeliverSkipped | DeliverRejected ssrf_err | DeliverNoKey | DeliverTransport | DeliverDrain
  | DeliverStatus int

lemma redirect_bound: "check_webhook_redirect env target via = Inr r \<Longrightarrow> via < max_webhook_redirects"
  by (auto simp: check_webhook_redirect_def split: if_splits)

text \<open>
  \<^verbatim>\<open>webhookClient.Do\<close>: every request is dialled by the pinned dialer; a redirect is checked with the
  number of requests made so far and repeats the request, its \<^verbatim>\<open>apikey\<close> header included; only a
  redirect that keeps the method (307, 308) sends the body again. The requests sent are returned with
  the answer.
\<close>

function client_do :: "net_env \<Rightarrow> server \<Rightarrow> string \<Rightarrow> string option \<Rightarrow> string \<Rightarrow> nat
      \<Rightarrow> (deliver_err + int \<times> bool) \<times> sent_request list" where
  "client_do env server key body target made =
     (case url_parse env target of
        None \<Rightarrow> (Inl DeliverTransport, [])
      | Some u \<Rightarrow>
          (case pinned_dialer env (url_hostname u) of
             Inl _ \<Rightarrow> (Inl DeliverTransport, [])
           | Inr a \<Rightarrow>
               (let rq = \<lparr>rq_url = target, rq_ip = a, rq_key = key, rq_body = body\<rparr> in
                case server target a of
                  NoAnswer \<Rightarrow> (Inl DeliverTransport, [rq])
                | Answered status drained \<Rightarrow> (Inr (status, drained), [rq])
                | RedirectTo keeps next_url \<Rightarrow>
                    (case check_webhook_redirect env next_url (made + 1) of
                       Inl _ \<Rightarrow> (Inl DeliverTransport, [rq])
                     | Inr _ \<Rightarrow> (case client_do env server key (if keeps then body else None) next_url (made + 1) of
                                   (res, rqs) \<Rightarrow> (res, rq # rqs))))))"
  by pat_completeness auto

termination
  by (relation "measure (\<lambda>(env, server, key, body, target, made). max_webhook_redirects - made)")
    (auto dest!: redirect_bound)

declare client_do.simps [simp del]

definition deliver :: "net_env \<Rightarrow> server \<Rightarrow> string \<Rightarrow> string \<Rightarrow> string \<Rightarrow> (deliver_err + unit) \<times> sent_request list" where
  "deliver env server target key body =
     (if target = [] then (Inl DeliverSkipped, [])
      else case validate_webhook_url env target of
        Inl e \<Rightarrow> (Inl (DeliverRejected e), [])
      | Inr _ \<Rightarrow>
          if key = [] then (Inl DeliverNoKey, [])
          else (case client_do env server key (Some body) target 0 of
             (Inl e, rqs) \<Rightarrow> (Inl e, rqs)
           | (Inr (status, drained), rqs) \<Rightarrow>
               (if \<not> drained then Inl DeliverDrain
                else if status < 200 \<or> status > 299 then Inl (DeliverStatus status)
                else Inr (), rqs)))"

section \<open>Attempts\<close>

definition buffer_size :: nat where "buffer_size = 1000"
definition max_attempts :: nat where "max_attempts = 8"
definition webhook_backoff_base :: duration where "webhook_backoff_base = second"
definition webhook_backoff_max :: duration where "webhook_backoff_max = 5 * minute"
definition max_inflight :: nat where "max_inflight = 16"

record job =
  jb_envelope :: envelope
  jb_instance :: uuid
  jb_event :: uuid
  jb_type :: string

text \<open>What an attempt meets: the database and the key cache of that moment, names and endpoints.\<close>

record surroundings =
  sr_cancelled :: bool
  sr_db :: db
  sr_keys :: key_cache
  sr_env :: net_env
  sr_server :: server
  sr_sleep_cut :: bool

datatype attempt_err = AttemptLoad storage_err | AttemptNoKey | AttemptDeliver deliver_err

text \<open>None: the job is finished. Some: the attempt failed and the schedule goes on.\<close>

definition delivery_config :: "wa_instance \<Rightarrow> webhook_config" where
  "delivery_config i =
     \<lparr>wc_url = (case inst_webhook_url i of None \<Rightarrow> [] | Some u \<Rightarrow> u),
      wc_enabled = inst_webhook_enabled i,
      wc_events = (case inst_webhook_events i of None \<Rightarrow> [] | Some es \<Rightarrow> es)\<rparr>"

definition webhook_attempt :: "surroundings \<Rightarrow> job \<Rightarrow> string \<Rightarrow> attempt_err option \<times> sent_request list" where
  "webhook_attempt sr j body =
     (case fst (instances_get (jb_instance j) (sr_db sr)) of
        Inl e \<Rightarrow> if e = SNotFound then (None, []) else (Some (AttemptLoad e), [])
      | Inr i \<Rightarrow>
          if \<not> should_deliver (delivery_config i) (jb_type j) then (None, [])
          else case cache_get (jb_instance j) (sr_keys sr) of
            None \<Rightarrow> (Some AttemptNoKey, [])
          | Some key \<Rightarrow>
              (case deliver (sr_env sr) (sr_server sr) (wc_url (delivery_config i)) key body of
                 (Inl e, rqs) \<Rightarrow> if e = DeliverSkipped then (None, rqs) else (Some (AttemptDeliver e), rqs)
               | (Inr _, rqs) \<Rightarrow> (None, rqs)))"

fun webhook_backoff_loop :: "duration \<Rightarrow> nat \<Rightarrow> duration" where
  "webhook_backoff_loop delay 0 = (if delay > webhook_backoff_max then webhook_backoff_max else delay)"
| "webhook_backoff_loop delay (Suc n) =
     (let delay' = delay * 2 in
      if delay' \<ge> webhook_backoff_max then webhook_backoff_max else webhook_backoff_loop delay' n)"

definition webhook_backoff :: "nat \<Rightarrow> duration" where
  "webhook_backoff attempt = webhook_backoff_loop webhook_backoff_base (attempt - 1)"

datatype job_end = JobMarshal | JobCancelled | JobDone | JobDead attempt_err

text \<open>
  The loop of \<^verbatim>\<open>handle\<close>, from attempt \<open>n\<close> on; \<open>sr n\<close> is what attempt \<open>n\<close> meets. The result has the
  requests sent and the backoffs waited for.
\<close>

function handle_loop :: "(nat \<Rightarrow> surroundings) \<Rightarrow> job \<Rightarrow> string \<Rightarrow> nat \<Rightarrow> attempt_err
      \<Rightarrow> job_end \<times> (nat \<times> sent_request) list \<times> duration list" where
  "handle_loop sr j body n failed =
     (if n > max_attempts then (JobDead failed, [], [])
      else if sr_cancelled (sr n) then (JobCancelled, [], [])
      else case webhook_attempt (sr n) j body of
        (None, rqs) \<Rightarrow> (JobDone, map (Pair n) rqs, [])
      | (Some e, rqs) \<Rightarrow>
          if n < max_attempts then
            (if sr_sleep_cut (sr n) then (JobCancelled, map (Pair n) rqs, [webhook_backoff n])
             else case handle_loop sr j body (n + 1) e of
               (res, later, waits) \<Rightarrow> (res, map (Pair n) rqs @ later, webhook_backoff n # waits))
          else (case handle_loop sr j body (n + 1) e of
               (res, later, waits) \<Rightarrow> (res, map (Pair n) rqs @ later, waits)))"
  by pat_completeness auto

termination
  by (relation "measure (\<lambda>(sr, j, body, n, failed). max_attempts + 1 - n)") auto

declare handle_loop.simps [simp del]

definition bounded_envelope :: "json_lib \<Rightarrow> int \<Rightarrow> envelope \<Rightarrow> envelope" where
  "bounded_envelope jl limit env =
     (if en_event env = [] then env
      else case cut_raw_for_limit jl (en_event env) limit of
        (trimmed, hit) \<Rightarrow> if hit then env\<lparr>en_event := trimmed\<rparr> else env)"

definition handle_job :: "codec \<Rightarrow> json_lib \<Rightarrow> int \<Rightarrow> (nat \<Rightarrow> surroundings) \<Rightarrow> job
      \<Rightarrow> job_end \<times> (nat \<times> sent_request) list \<times> duration list" where
  "handle_job jc jl limit sr j =
     (case jc_encode jc (bounded_envelope jl limit (jb_envelope j)) of
        None \<Rightarrow> (JobMarshal, [], [])
      | Some body \<Rightarrow> handle_loop sr j body 1 AttemptNoKey)"

section \<open>The worker\<close>

text \<open>
  \<open>wk_taken\<close> is the job \<^verbatim>\<open>Run\<close> took from the queue and holds until one of the sixteen slots is free,
  \<open>wk_started\<close> the jobs it started, in order, and \<open>wk_running\<close> the number of those not finished.
\<close>

record worker =
  wk_queue :: "job list"
  wk_taken :: "job option"
  wk_started :: "job list"
  wk_running :: nat
  wk_dropped :: "job list"
  wk_stopped :: bool

definition new_worker :: worker where
  "new_worker = \<lparr>wk_queue = [], wk_taken = None, wk_started = [], wk_running = 0, wk_dropped = [], wk_stopped = False\<rparr>"

definition job_of :: "envelope \<Rightarrow> job" where
  "job_of env = \<lparr>jb_envelope = env, jb_instance = en_instance env, jb_event = en_id env, jb_type = en_type env\<rparr>"

definition dispatch :: "envelope \<Rightarrow> worker \<Rightarrow> worker" where
  "dispatch env w =
     (if length (wk_queue w) < buffer_size then w\<lparr>wk_queue := wk_queue w @ [job_of env]\<rparr>
      else w\<lparr>wk_dropped := wk_dropped w @ [job_of env]\<rparr>)"

text \<open>The decorated writer queues first and answers what the inner write answers.\<close>

definition fanout_write :: "codec \<Rightarrow> string \<Rightarrow> envelope \<Rightarrow> worker \<times> db \<Rightarrow> (write_err + unit) \<times> worker \<times> db" where
  "fanout_write jc subj env s =
     (case s of (w, d) \<Rightarrow>
        (case outbox_write jc subj env d of (res, d) \<Rightarrow> (res, dispatch env w, d)))"

text \<open>\<open>worker_run envs w\<close>: the worker can be in state \<open>w\<close> after the writes of \<open>envs\<close>, in this order.\<close>

inductive worker_run :: "envelope list \<Rightarrow> worker \<Rightarrow> bool" where
  Fresh: "worker_run [] new_worker"
| Dispatch: "worker_run envs w \<Longrightarrow> worker_run (envs @ [env]) (dispatch env w)"
| Take: "worker_run envs w \<Longrightarrow> \<not> wk_stopped w \<Longrightarrow> wk_taken w = None \<Longrightarrow> wk_queue w = j # rest \<Longrightarrow>
    worker_run envs (w\<lparr>wk_queue := rest, wk_taken := Some j\<rparr>)"
| Start: "worker_run envs w \<Longrightarrow> \<not> wk_stopped w \<Longrightarrow> wk_taken w = Some j \<Longrightarrow> wk_running w < max_inflight \<Longrightarrow>
    worker_run envs (w\<lparr>wk_taken := None, wk_started := wk_started w @ [j], wk_running := wk_running w + 1\<rparr>)"
| Finish: "worker_run envs w \<Longrightarrow> wk_running w > 0 \<Longrightarrow> worker_run envs (w\<lparr>wk_running := wk_running w - 1\<rparr>)"
| Stop: "worker_run envs w \<Longrightarrow> worker_run envs (w\<lparr>wk_stopped := True\<rparr>)"

section \<open>The cut\<close>

fun string_values :: "json \<Rightarrow> string list" where
  "string_values (JStr s) = [s]"
| "string_values (JObj ms) = concat (map (string_values \<circ> snd) ms)"
| "string_values (JArr vs) = concat (map string_values vs)"
| "string_values _ = []"

definition within_limit :: "int \<Rightarrow> json \<Rightarrow> bool" where
  "within_limit limit v \<longleftrightarrow> (\<forall>s \<in> set (string_values v). int (length s) \<le> limit)"

lemma within_limit_simps [simp]:
  "within_limit limit (JStr s) = (int (length s) \<le> limit)"
  "within_limit limit (JObj ms) = (\<forall>m \<in> set ms. within_limit limit (snd m))"
  "within_limit limit (JArr vs) = (\<forall>v \<in> set vs. within_limit limit v)"
  "within_limit limit JNull" "within_limit limit (JBool b)" "within_limit limit (JNum n)"
  by (auto simp: within_limit_def)

lemma omission_within [simp]: "within_limit limit (omission jl s)"
  by (simp add: omission_def)

lemma cut_flag:
  "snd (cut_value jl limit v) = (\<not> within_limit limit v)"
  "snd (cut_members jl limit ms) = (\<exists>m \<in> set ms. \<not> within_limit limit (snd m))"
  "snd (cut_items jl limit vs) = (\<exists>v \<in> set vs. \<not> within_limit limit v)"
  by (induction v and ms and vs rule: cut_value_cut_members_cut_items.induct) (auto simp: split_beta Let_def)

lemma cut_within:
  "within_limit limit (fst (cut_value jl limit v))"
  "\<forall>m \<in> set (fst (cut_members jl limit ms)). within_limit limit (snd m)"
  "\<forall>v \<in> set (fst (cut_items jl limit vs)). within_limit limit v"
  by (induction v and ms and vs rule: cut_value_cut_members_cut_items.induct)
    (auto simp: split_beta Let_def cut_flag)

section \<open>The requests of a delivery\<close>

definition dialled :: "net_env \<Rightarrow> sent_request \<Rightarrow> bool" where
  "dialled env rq \<longleftrightarrow> (\<exists>u. url_parse env (rq_url rq) = Some u \<and> pinned_dialer env (url_hostname u) = Inr (rq_ip rq))"

lemma client_do_requests:
  assumes "client_do env server key body target made = (res, rqs)"
    and "validate_webhook_url env target = Inr ()"
  shows "length rqs + made \<le> max max_webhook_redirects (made + 1)
    \<and> (\<forall>rq \<in> set rqs. rq_key rq = key \<and> dialled env rq \<and> validate_webhook_url env (rq_url rq) = Inr ()
         \<and> (rq_body rq = body \<or> rq_body rq = None))"
  using assms
proof (induction env server key body target made arbitrary: res rqs rule: client_do.induct)
  case (1 env server key body target made)
  show ?case
  proof (cases "url_parse env target")
    case None
    then show ?thesis using 1(2) by (simp add: client_do.simps [of env server])
  next
    case u: (Some u)
    show ?thesis
    proof (cases "pinned_dialer env (url_hostname u)")
      case (Inl e)
      then show ?thesis using 1(2) u by (simp add: client_do.simps [of env server])
    next
      case a: (Inr a)
      let ?rq = "\<lparr>rq_url = target, rq_ip = a, rq_key = key, rq_body = body\<rparr>"
      have first: "dialled env ?rq" using u a by (simp add: dialled_def)
      show ?thesis
      proof (cases "\<exists>keeps target'. server target a = RedirectTo keeps target'
          \<and> check_webhook_redirect env target' (made + 1) = Inr ()")
        case False
        then have "rqs = [?rq]"
          using 1(2) u a by (auto simp: client_do.simps [of env server] Let_def split: reply.splits sum.splits)
        then show ?thesis using first 1(3) by simp
      next
        case True
        then obtain keeps target' where r: "server target a = RedirectTo keeps target'"
          "check_webhook_redirect env target' (made + 1) = Inr ()" by blast
        let ?body = "if keeps then body else None"
        obtain res' rest where rest: "client_do env server key ?body target' (made + 1) = (res', rest)"
          by (cases "client_do env server key ?body target' (made + 1)")
        have rqs: "rqs = ?rq # rest" using 1(2) u a r rest by (simp add: client_do.simps [of env server] Let_def)
        have v: "validate_webhook_url env target' = Inr ()" "made + 1 < max_webhook_redirects"
          using r(2) by (auto simp: check_webhook_redirect_def split: if_splits sum.splits)
        have "length rest + (made + 1) \<le> max max_webhook_redirects (made + 1 + 1)
          \<and> (\<forall>rq \<in> set rest. rq_key rq = key \<and> dialled env rq \<and> validate_webhook_url env (rq_url rq) = Inr ()
               \<and> (rq_body rq = ?body \<or> rq_body rq = None))"
          using 1(1) [OF u a refl r rest v(1)] .
        then show ?thesis using first 1(3) v(2) by (auto simp: rqs split: if_splits)
      qed
    qed
  qed
qed

lemma deliver_outcome:
  assumes "deliver env server target key body = (res, rqs)"
  shows "(target = [] \<or> key = [] \<or> validate_webhook_url env target \<noteq> Inr ()) \<and> rqs = [] \<and> res \<noteq> Inr ()
    \<or> (target \<noteq> [] \<and> key \<noteq> [] \<and> validate_webhook_url env target = Inr ()
       \<and> rqs = snd (client_do env server key (Some body) target 0)
       \<and> (res = Inr () \<longleftrightarrow> (\<exists>status. fst (client_do env server key (Some body) target 0) = Inr (status, True)
            \<and> 200 \<le> status \<and> status \<le> 299)))"
  using assms by (auto simp: deliver_def split: sum.splits if_splits prod.splits)

lemma deliver_requests:
  assumes "deliver env server target key body = (res, rqs)"
  shows "length rqs \<le> 3
    \<and> (\<forall>rq \<in> set rqs. rq_key rq = key \<and> dialled env rq \<and> validate_webhook_url env (rq_url rq) = Inr ())"
proof (cases "rqs = []")
  case False
  then have "validate_webhook_url env target = Inr ()"
    "client_do env server key (Some body) target 0 = (fst (client_do env server key (Some body) target 0), rqs)"
    using deliver_outcome [OF assms] by auto
  then show ?thesis using client_do_requests by (fastforce simp: max_webhook_redirects_def)
qed simp

text \<open>
  C23: a delivery sends nothing without a URL, a key or the gate's approval of the URL. Otherwise it
  makes at most three requests, each to an address the dialer checked, for a URL the gate approved,
  all with the given key; and it succeeds exactly on a final 2xx answer that could be read.
\<close>

theorem deliveries_stay_behind_the_gate:
  assumes "deliver env server target key body = (res, rqs)"
  shows "length rqs \<le> 3
    \<and> (rqs \<noteq> [] \<longrightarrow> target \<noteq> [] \<and> key \<noteq> [] \<and> validate_webhook_url env target = Inr ())
    \<and> (\<forall>rq \<in> set rqs. rq_key rq = key \<and> dialled env rq \<and> \<not> is_webhook_always_blocked (rq_ip rq)
         \<and> validate_webhook_url env (rq_url rq) = Inr ())
    \<and> (res = Inr () \<longleftrightarrow> target \<noteq> [] \<and> key \<noteq> [] \<and> validate_webhook_url env target = Inr () \<and>
         (\<exists>status. fst (client_do env server key (Some body) target 0) = Inr (status, True)
            \<and> 200 \<le> status \<and> status \<le> 299))"
  using deliver_outcome [OF assms] deliver_requests [OF assms] pinned_dialer_ok(1)
  by (auto simp: dialled_def)

definition ok_server :: server where
  "ok_server = (\<lambda>_ _. Answered 200 True)"

lemma sample_delivery:
  "deliver plain_http_env ok_server ''u'' ''k'' ''b'' =
     (Inr (), [\<lparr>rq_url = ''u'', rq_ip = of_ip4 0x08080808, rq_key = ''k'', rq_body = Some ''b''\<rparr>])"
proof -
  have v: "validate_webhook_url plain_http_env ''u'' = Inr ()"
    using redirect_follows_plain_http(2) by (auto simp: check_webhook_redirect_def split: if_splits sum.splits)
  have trim: "trim_suffix (to_lower ''example.org'') ''.'' = ''example.org''" by code_simp
  have "pinned_dialer plain_http_env ''example.org'' = Inr (of_ip4 0x08080808)"
    using trim public_sample by (simp add: pinned_dialer_def plain_http_env_def)
  moreover have "url_parse plain_http_env ''u'' =
      Some \<lparr>url_scheme = ''http'', url_has_user = False, url_hostname = ''example.org''\<rparr>"
    by (simp add: plain_http_env_def)
  ultimately have "client_do plain_http_env ok_server ''k'' (Some ''b'') ''u'' 0 =
      (Inr (200, True), [\<lparr>rq_url = ''u'', rq_ip = of_ip4 0x08080808, rq_key = ''k'', rq_body = Some ''b''\<rparr>])"
    by (simp add: client_do.simps [of plain_http_env] ok_server_def)
  then show ?thesis using v by (simp add: deliver_def)
qed

theorem deliveries_stay_behind_the_gate_witness:
  "dialled plain_http_env \<lparr>rq_url = ''u'', rq_ip = of_ip4 0x08080808, rq_key = ''k'', rq_body = Some ''b''\<rparr>"
  using deliveries_stay_behind_the_gate [OF sample_delivery] by simp

text \<open>
  Cutting leaves an event alone when no string value is over the limit (or it is no JSON), and
  otherwise answers the encoding of the same document with exactly the oversized values replaced, so
  that none is left over the limit; cutting the result again changes nothing.
\<close>

theorem the_cut_bounds_every_string:
  assumes "cut_raw_for_limit jl raw limit = (out, hit)"
  shows "if hit then \<exists>v. jl_decode jl raw = Some v \<and> \<not> within_limit limit v
             \<and> jl_encode jl (fst (cut_value jl limit v)) = Some out
             \<and> within_limit limit (fst (cut_value jl limit v))
             \<and> (jl_decode jl out = Some (fst (cut_value jl limit v)) \<longrightarrow> cut_raw_for_limit jl out limit = (out, False))
         else out = raw \<and> (\<forall>v. raw \<noteq> [] \<and> jl_decode jl raw = Some v \<and> jl_encode jl (fst (cut_value jl limit v)) \<noteq> None
             \<longrightarrow> within_limit limit v)"
proof -
  have again: "cut_raw_for_limit jl s limit = (s, False)" if "jl_decode jl s = Some v" "within_limit limit v" for s v
    using that by (simp add: cut_raw_for_limit_def split_beta cut_flag)
  show ?thesis
  proof (cases "raw = [] \<or> jl_decode jl raw = None")
    case True
    then show ?thesis using assms by (auto simp: cut_raw_for_limit_def split: if_splits option.splits)
  next
    case False
    then obtain v where v: "raw \<noteq> []" "jl_decode jl raw = Some v" by auto
    show ?thesis
    proof (cases "within_limit limit v \<or> jl_encode jl (fst (cut_value jl limit v)) = None")
      case True
      then show ?thesis using v assms by (auto simp: cut_raw_for_limit_def split_beta cut_flag split: if_splits)
    next
      case unfit: False
      then obtain s where s: "jl_encode jl (fst (cut_value jl limit v)) = Some s" by auto
      then have "out = s" "hit" using v assms unfit by (auto simp: cut_raw_for_limit_def split_beta cut_flag)
      then show ?thesis using v s unfit again cut_within(1) [of limit jl v] by auto
    qed
  qed
qed

definition sample_json :: json_lib where
  "sample_json = \<lparr>jl_decode = (\<lambda>s. if s = ''x'' then Some JNull else Some (JStr s)),
     jl_encode = (\<lambda>v. if v = JObj [(''omitted'', JBool True), (''size_bytes'', JNum ''3'')] then Some ''x'' else None),
     jl_number = (\<lambda>_. ''3''), jl_time = (\<lambda>_. ''t'')\<rparr>"

theorem the_cut_bounds_every_string_witness:
  "\<exists>v. jl_decode sample_json ''abc'' = Some v \<and> \<not> within_limit 2 v
     \<and> jl_encode sample_json (fst (cut_value sample_json 2 v)) = Some ''x''"
proof -
  have "cut_raw_for_limit sample_json ''abc'' 2 = (''x'', True)"
    by (simp add: cut_raw_for_limit_def sample_json_def omission_def)
  from the_cut_bounds_every_string [OF this] show ?thesis by auto
qed

section \<open>The schedule\<close>

lemma webhook_attempt_requests:
  assumes "webhook_attempt sr j body = (res, rqs)" "rq \<in> set rqs"
  shows "cache_get (jb_instance j) (sr_keys sr) = Some (rq_key rq) \<and>
    (\<exists>i. fst (instances_get (jb_instance j) (sr_db sr)) = Inr i \<and> should_deliver (delivery_config i) (jb_type j))"
proof -
  obtain i key where i: "fst (instances_get (jb_instance j) (sr_db sr)) = Inr i"
    "should_deliver (delivery_config i) (jb_type j)" "cache_get (jb_instance j) (sr_keys sr) = Some key"
    using assms by (auto simp: webhook_attempt_def split: sum.splits if_splits option.splits)
  obtain r rqs' where d: "deliver (sr_env sr) (sr_server sr) (wc_url (delivery_config i)) key body = (r, rqs')"
    by (cases "deliver (sr_env sr) (sr_server sr) (wc_url (delivery_config i)) key body")
  have "rqs = rqs'" using assms(1) i d by (auto simp: webhook_attempt_def split: sum.splits if_splits)
  then show ?thesis using deliver_requests [OF d] assms(2) i by auto
qed

definition attempt_fails :: "surroundings \<Rightarrow> job \<Rightarrow> string \<Rightarrow> bool" where
  "attempt_fails sr j body \<longleftrightarrow> fst (webhook_attempt sr j body) \<noteq> None"

lemma handle_loop_spec:
  assumes "handle_loop sr j body n failed = (res, sent, waits)" "1 \<le> n" "n \<le> 9"
  shows "length waits + n \<le> max 8 n \<and>
    (\<forall>(k, rq) \<in> set sent. n \<le> k \<and> k \<le> 8 \<and> rq \<in> set (snd (webhook_attempt (sr k) j body))) \<and>
    ((\<exists>e. res = JobDead e) \<longleftrightarrow> (\<forall>k. n \<le> k \<and> k \<le> 8 \<longrightarrow> \<not> sr_cancelled (sr k) \<and> attempt_fails (sr k) j body
        \<and> (k < 8 \<longrightarrow> \<not> sr_sleep_cut (sr k))))"
  using assms
proof (induction sr j body n failed arbitrary: res sent waits rule: handle_loop.induct)
  case (1 sr j body n failed)
  note unfold = handle_loop.simps [of sr j body n failed] max_attempts_def
  consider (over) "n > 8" | (cancelled) "n \<le> 8" "sr_cancelled (sr n)"
    | (finished) rqs where "n \<le> 8" "\<not> sr_cancelled (sr n)" "webhook_attempt (sr n) j body = (None, rqs)"
    | (failed) e rqs where "n \<le> 8" "\<not> sr_cancelled (sr n)" "webhook_attempt (sr n) j body = (Some e, rqs)"
    by (metis not_less option.exhaust surj_pair)
  then show ?case
  proof cases
    case over
    then show ?thesis using 1(3) by (auto simp: unfold)
  next
    case cancelled
    then show ?thesis using 1(3) by (auto simp: unfold)
  next
    case finished
    then show ?thesis using 1(3) by (auto simp: unfold attempt_fails_def)
  next
    case failed
    show ?thesis
    proof (cases "n < 8 \<and> sr_sleep_cut (sr n)")
      case True
      then show ?thesis using failed 1(3) by (auto simp: unfold)
    next
      case False
      obtain r later ws where l: "handle_loop sr j body (n + 1) e = (r, later, ws)"
        by (cases "handle_loop sr j body (n + 1) e")
      have out: "res = r" "sent = map (Pair n) rqs @ later" "waits = (if n < 8 then [webhook_backoff n] else []) @ ws"
        using 1(3) failed False l by (auto simp: unfold split: if_splits)
      have ih: "length ws + (n + 1) \<le> max 8 (n + 1) \<and>
        (\<forall>(k, rq) \<in> set later. n + 1 \<le> k \<and> k \<le> 8 \<and> rq \<in> set (snd (webhook_attempt (sr k) j body))) \<and>
        ((\<exists>e. r = JobDead e) \<longleftrightarrow> (\<forall>k. n + 1 \<le> k \<and> k \<le> 8 \<longrightarrow> \<not> sr_cancelled (sr k) \<and> attempt_fails (sr k) j body
            \<and> (k < 8 \<longrightarrow> \<not> sr_sleep_cut (sr k))))"
        using 1(1,2) failed False l by (cases "n < 8") (auto simp: max_attempts_def)
      have split: "(\<forall>k. n \<le> k \<and> k \<le> 8 \<longrightarrow> P k) \<longleftrightarrow> P n \<and> (\<forall>k. n + 1 \<le> k \<and> k \<le> 8 \<longrightarrow> P k)" for P
        using failed(1) by (metis Suc_eq_plus1 Suc_leD le_refl not_less_eq_eq le_antisym)
      have "length waits + n \<le> max 8 n" using ih out(3) failed(1) by (auto split: if_splits)
      moreover have "\<forall>(k, rq) \<in> set sent. n \<le> k \<and> k \<le> 8 \<and> rq \<in> set (snd (webhook_attempt (sr k) j body))"
        using ih out(2) failed by auto
      moreover have "attempt_fails (sr n) j body" using failed by (simp add: attempt_fails_def)
      ultimately show ?thesis using ih False failed unfolding split out(1) by blast
    qed
  qed
qed

lemma webhook_backoff_loop_closed:
  "0 < delay \<Longrightarrow> webhook_backoff_loop delay n = min (delay * 2 ^ n) webhook_backoff_max"
proof (induction n arbitrary: delay)
  case 0
  then show ?case by simp
next
  case (Suc n)
  have "delay * 2 * 1 \<le> delay * 2 * 2 ^ n"
    using Suc.prems by (intro mult_left_mono) auto
  then have "webhook_backoff_max \<le> delay * 2 \<Longrightarrow> min (delay * 2 ^ Suc n) webhook_backoff_max = webhook_backoff_max"
    by (simp add: min_def)
  moreover have "webhook_backoff_loop (delay * 2) n = min (delay * 2 ^ Suc n) webhook_backoff_max"
    using Suc.IH [of "delay * 2"] Suc.prems by (simp add: mult.assoc)
  ultimately show ?case by (simp add: Let_def)
qed

lemma webhook_backoff_closed_form: "webhook_backoff n = min (second * 2 ^ (n - 1)) (5 * minute)"
  using webhook_backoff_loop_closed [of webhook_backoff_base "n - 1"]
  by (simp add: webhook_backoff_def webhook_backoff_base_def webhook_backoff_max_def duration_defs)

text \<open>
  A job sleeps at most seven times; a request of attempt n (1 to 8) carries the key cached at that
  attempt and is only made while the instance exists, is enabled and subscribed; and the job is given
  up exactly when it was never cancelled and all eight attempts failed.
\<close>

theorem webhook_jobs_get_eight_attempts:
  assumes "handle_job jc jl limit sr j = (res, sent, waits)"
  shows "length waits \<le> 7
    \<and> (\<forall>(k, rq) \<in> set sent. 1 \<le> k \<and> k \<le> 8 \<and> cache_get (jb_instance j) (sr_keys (sr k)) = Some (rq_key rq)
         \<and> (\<exists>i. fst (instances_get (jb_instance j) (sr_db (sr k))) = Inr i
                \<and> should_deliver (delivery_config i) (jb_type j)))
    \<and> ((\<exists>e. res = JobDead e) \<longleftrightarrow>
         (\<exists>body. jc_encode jc (bounded_envelope jl limit (jb_envelope j)) = Some body
            \<and> (\<forall>k. 1 \<le> k \<and> k \<le> 8 \<longrightarrow> \<not> sr_cancelled (sr k) \<and> attempt_fails (sr k) j body
                \<and> (k < 8 \<longrightarrow> \<not> sr_sleep_cut (sr k)))))"
proof (cases "jc_encode jc (bounded_envelope jl limit (jb_envelope j))")
  case None
  then show ?thesis using assms by (simp add: handle_job_def)
next
  case (Some body)
  then have l: "handle_loop sr j body 1 AttemptNoKey = (res, sent, waits)" using assms by (simp add: handle_job_def)
  show ?thesis
    using handle_loop_spec [OF l] webhook_attempt_requests [OF prod.collapse [symmetric]] Some by fastforce
qed

definition sample_surroundings :: "nat \<Rightarrow> surroundings" where
  "sample_surroundings n =
     \<lparr>sr_cancelled = False,
      sr_db = blank_db\<lparr>t_instances := [sample_instance\<lparr>ir_webhook_url := Some ''u'', ir_webhook_enabled := True,
        ir_webhook_events := [''message'']\<rparr>]\<rparr>,
      sr_keys = (if n < 3 then new_key_cache else cache_store 1 ''k'' new_key_cache),
      sr_env = plain_http_env, sr_server = ok_server, sr_sleep_cut = False\<rparr>"

lemma sample_attempts:
  "webhook_attempt (sample_surroundings n) (job_of sample_envelope) ''b'' =
     (if n < 3 then (Some AttemptNoKey, [])
      else (None, [\<lparr>rq_url = ''u'', rq_ip = of_ip4 0x08080808, rq_key = ''k'', rq_body = Some ''b''\<rparr>]))"
  using sample_delivery
  by (simp add: webhook_attempt_def sample_surroundings_def instances_get_def sample_instance_def job_of_def
      sample_envelope_def delivery_config_def should_deliver_iff scan_instance_def cache_get_def
      cache_store_def new_key_cache_def)

lemma sample_job:
  "handle_loop sample_surroundings (job_of sample_envelope) ''b'' 1 AttemptNoKey =
     (JobDone, [(3, \<lparr>rq_url = ''u'', rq_ip = of_ip4 0x08080808, rq_key = ''k'', rq_body = Some ''b''\<rparr>)],
      [webhook_backoff 1, webhook_backoff 2])"
proof -
  have calm: "sr_cancelled (sample_surroundings n) = False" "sr_sleep_cut (sample_surroundings n) = False" for n
    by (simp_all add: sample_surroundings_def)
  show ?thesis
    by (simp add: handle_loop.simps [of sample_surroundings] sample_attempts max_attempts_def calm numeral_2_eq_2)
qed

theorem webhook_jobs_get_eight_attempts_witness:
  "cache_get 1 (sr_keys (sample_surroundings 3)) = Some ''k''"
proof -
  have "handle_job (sample_codec\<lparr>jc_encode := (\<lambda>_. Some ''b'')\<rparr>) sample_json 10 sample_surroundings (job_of sample_envelope) =
     (JobDone, [(3, \<lparr>rq_url = ''u'', rq_ip = of_ip4 0x08080808, rq_key = ''k'', rq_body = Some ''b''\<rparr>)],
      [webhook_backoff 1, webhook_backoff 2])"
    using sample_job by (simp add: handle_job_def)
  from webhook_jobs_get_eight_attempts [OF this] show ?thesis by (simp add: job_of_def sample_envelope_def)
qed

section \<open>The queue\<close>

definition held :: "worker \<Rightarrow> job list" where
  "held w = wk_started w @ (case wk_taken w of None \<Rightarrow> [] | Some j \<Rightarrow> [j]) @ wk_queue w"

lemma worker_run_held:
  "worker_run envs w \<Longrightarrow> length (wk_queue w) \<le> buffer_size \<and> wk_running w \<le> max_inflight
     \<and> subseq (held w) (map job_of envs) \<and> mset (map job_of envs) = mset (held w) + mset (wk_dropped w)"
proof (induction rule: worker_run.induct)
  case (Dispatch envs w env)
  have "held (dispatch env w) = (if length (wk_queue w) < buffer_size then held w @ [job_of env] else held w)"
    by (simp add: dispatch_def held_def)
  then show ?case
    using Dispatch by (auto simp: dispatch_def intro: list_emb_prefix list_emb_append_mono)
qed (auto simp: new_worker_def held_def)

text \<open>
  The queue never exceeds a thousand jobs and at most sixteen run; every event written is started,
  held, queued or counted as dropped, exactly once, and jobs start in the order of the writes.
\<close>

theorem webhook_events_are_accounted_for:
  assumes "worker_run envs w"
  shows "length (wk_queue w) \<le> 1000 \<and> wk_running w \<le> 16 \<and> subseq (held w) (map job_of envs)
    \<and> mset (map job_of envs) = mset (held w) + mset (wk_dropped w)"
  using worker_run_held [OF assms] by (simp add: buffer_size_def max_inflight_def)

theorem webhook_events_are_accounted_for_witness:
  "mset (map job_of [sample_envelope]) =
     mset (held (dispatch sample_envelope new_worker)) + mset (wk_dropped (dispatch sample_envelope new_worker))"
  using webhook_events_are_accounted_for [OF Dispatch [OF Fresh, of sample_envelope]] by simp

end
