(* ===== verification/Outbox.thy ===== *)
theory Outbox
  imports MessageService WebhookWorker
begin

text \<open>
  Delivery of the queued messages, \<^verbatim>\<open>internal/message/outbox.go\<close>, with the typing simulation of
  \<^verbatim>\<open>humanize.go\<close>. What a delivery meets (the lock, the session, the clock, a cancelled context) is its
  \<open>send_input\<close>; \<open>verdict\<close> is the abstract outcome the handler promises for a claimed message.
\<close>

section \<open>Typing simulation\<close>

definition text_char_delay :: duration where "text_char_delay = 40 * millisecond"
definition text_min_delay :: duration where "text_min_delay = 1500 * millisecond"
definition text_max_delay :: duration where "text_max_delay = 8 * second"
definition media_base_delay :: duration where "media_base_delay = 2 * second"
definition media_per_mb_delay :: duration where "media_per_mb_delay = 300 * millisecond"
definition media_max_delay :: duration where "media_max_delay = 8 * second"
definition audio_max_delay :: duration where "audio_max_delay = 15 * second"
definition default_delay :: duration where "default_delay = 1500 * millisecond"
definition first_contact_delay :: duration where "first_contact_delay = 1500 * millisecond"

lemmas humanize_defs = text_char_delay_def text_min_delay_def text_max_delay_def media_base_delay_def
  media_per_mb_delay_def media_max_delay_def audio_max_delay_def default_delay_def first_contact_delay_def

definition cap_delay :: "duration \<Rightarrow> duration \<Rightarrow> duration" where
  "cap_delay d limit = (if d > limit then limit else d)"

definition size_delay :: "int \<Rightarrow> duration" where
  "size_delay media_bytes = (if media_bytes \<le> 0 then 0 else (media_bytes div 2 ^ 20) * media_per_mb_delay)"

text \<open>\<open>draw\<close> is the random number of milliseconds, below a thousand.\<close>

definition presence_for :: "bool \<Rightarrow> string \<Rightarrow> int \<Rightarrow> int \<Rightarrow> bool \<Rightarrow> int \<Rightarrow> duration" where
  "presence_for enabled msg_type text_len media_bytes first_contact draw =
     (if \<not> enabled then 0
      else
        (let delay =
           (if msg_type = ''text'' then
              (let d = cap_delay (wrap64 (text_len * text_char_delay)) text_max_delay
               in if d < text_min_delay then text_min_delay else d)
            else if msg_type = ''audio'' then cap_delay (media_base_delay + size_delay media_bytes) audio_max_delay
            else if msg_type = ''media'' \<or> msg_type = ''image'' \<or> msg_type = ''video'' \<or> msg_type = ''document''
            then cap_delay (media_base_delay + size_delay media_bytes) media_max_delay
            else default_delay)
         in if first_contact then delay + first_contact_delay + draw * millisecond else delay))"

text \<open>The signals sent and whether all went well; \<open>signal\<close> and \<open>sleep\<close> say what succeeds.\<close>

definition before_send :: "bool \<Rightarrow> (string \<Rightarrow> bool) \<Rightarrow> bool \<Rightarrow> duration \<Rightarrow> bool \<times> string list" where
  "before_send enabled signal sleep d =
     (if \<not> enabled \<or> d \<le> 0 then (True, [])
      else if \<not> signal ''composing'' then (False, [''composing''])
      else if \<not> sleep then (False, [''composing''])
      else (signal ''paused'', [''composing'', ''paused'']))"

definition content_text_len :: "outbound_message \<Rightarrow> int" where
  "content_text_len m =
     (if om_type m \<noteq> ''text'' then 0 else case om_payload m of PText body _ \<Rightarrow> int (length body) | _ \<Rightarrow> 0)"

section \<open>The outbox\<close>

definition outbox_batch_size :: int where "outbox_batch_size = 10"
definition outbox_poll_interval :: duration where "outbox_poll_interval = second"
definition outbox_recovery_interval :: duration where "outbox_recovery_interval = 30 * second"
definition stuck_threshold :: duration where "stuck_threshold = 5 * minute"
definition max_send_retries :: int where "max_send_retries = 5"
definition max_retry_delay :: duration where "max_retry_delay = 2 * minute"

fun retry_delay_loop :: "duration \<Rightarrow> nat \<Rightarrow> duration" where
  "retry_delay_loop delay 0 = delay"
| "retry_delay_loop delay (Suc n) =
     (let delay' = delay * 2 in if delay' \<ge> max_retry_delay then max_retry_delay else retry_delay_loop delay' n)"

definition retry_delay :: "int \<Rightarrow> duration" where
  "retry_delay retries = retry_delay_loop second (nat retries)"

record send_input =
  si_lock :: bool
  si_session :: "send_fun option"
  si_media :: "media_resolver option"
  si_signal :: "string \<Rightarrow> bool"
  si_sleep :: bool
  si_cancelled :: bool
  si_cancelled_later :: bool
  si_now :: instant
  si_fresh :: uuid

text \<open>\<open>jl\<close> and \<open>jc\<close> encode the event, \<open>show\<close> prints identifiers.\<close>

definition status_payload :: "codec \<Rightarrow> outbound_message \<Rightarrow> string \<Rightarrow> string \<Rightarrow> string \<Rightarrow> json" where
  "status_payload jc m status wa err =
     JObj ([(''message_id'', JStr (jc_show_id jc (om_id m))), (''status'', JStr status)]
       @ (if wa = [] then [] else [(''whatsapp_id'', JStr wa)]) @ (if err = [] then [] else [(''error'', JStr err)]))"

definition outbox_emit :: "codec \<Rightarrow> json_lib \<Rightarrow> send_input \<Rightarrow> outbound_message \<Rightarrow> string \<Rightarrow> string \<Rightarrow> string \<Rightarrow> db \<Rightarrow> db" where
  "outbox_emit jc jl inp m status wa err d =
     (case new_envelope (si_fresh inp) (si_now inp) ''message.status'' (om_instance m)
             (jl_encode jl (status_payload jc m status wa err)) of
        None \<Rightarrow> d
      | Some env \<Rightarrow> snd (outbox_write jc (subject_message_status jc (om_instance m)) env d))"

definition outbox_complete :: "codec \<Rightarrow> json_lib \<Rightarrow> send_input \<Rightarrow> outbound_message \<Rightarrow> string \<Rightarrow> db \<Rightarrow> db" where
  "outbox_complete jc jl inp m wa d =
     (case messages_mark_sent (om_id m) wa d of
        (Inl _, d) \<Rightarrow> d
      | (Inr _, d) \<Rightarrow> outbox_emit jc jl inp m ''sent'' wa [] d)"

definition outbox_fail :: "codec \<Rightarrow> json_lib \<Rightarrow> send_input \<Rightarrow> outbound_message \<Rightarrow> string \<Rightarrow> db \<Rightarrow> db" where
  "outbox_fail jc jl inp m err d =
     (case messages_mark_failed (om_id m) err d of
        (Inl _, d) \<Rightarrow> d
      | (Inr _, d) \<Rightarrow> outbox_emit jc jl inp m ''failed'' [] err d)"

definition handle_send_error :: "codec \<Rightarrow> json_lib \<Rightarrow> send_input \<Rightarrow> outbound_message \<Rightarrow> send_err \<Rightarrow> db \<Rightarrow> db" where
  "handle_send_error jc jl inp m cause d =
     (if si_cancelled inp \<or> si_cancelled_later inp then d
      else if is_transient cause \<and> om_attempts m < max_send_retries
      then snd (messages_mark_retrying (om_id m) (send_text cause) (si_now inp + retry_delay (om_attempts m)) d)
      else outbox_fail jc jl inp m (send_text cause) d)"

text \<open>None when the send may go on, and the error that aborts it otherwise.\<close>

definition simulate_presence :: "bool \<Rightarrow> send_input \<Rightarrow> outbound_message \<Rightarrow> send_err option" where
  "simulate_presence humanize inp m =
     (let delay = presence_for humanize (om_type m) (content_text_len m) 0 False 0;
          ok = fst (before_send humanize (si_signal inp) (si_sleep inp) delay)
      in if \<not> ok \<and> si_cancelled inp then Some (SendErr False ''context canceled'') else None)"

text \<open>The new database, and the message handed to the session if one was.\<close>

definition outbox_process :: "codec \<Rightarrow> json_lib \<Rightarrow> bool \<Rightarrow> send_input \<Rightarrow> outbound_message \<Rightarrow> db
      \<Rightarrow> session_message option \<times> db" where
  "outbox_process jc jl humanize inp m d =
     (if \<not> si_lock inp then (None, d)
      else case si_session inp of
        None \<Rightarrow> (None, outbox_fail jc jl inp m (''session not found for instance '' @ jc_show_id jc (om_instance m)) d)
      | Some send \<Rightarrow>
          (case sender_for (si_media inp) (om_type m) of
             None \<Rightarrow> (None, outbox_fail jc jl inp m ''unsupported message type'' d)
           | Some sender \<Rightarrow>
               (case simulate_presence humanize inp m of
                  Some e \<Rightarrow> (None, handle_send_error jc jl inp m e d)
                | None \<Rightarrow>
                    (case sender send m of
                       (Inl e, handed) \<Rightarrow> (handed, handle_send_error jc jl inp m e d)
                     | (Inr wa, handed) \<Rightarrow> (handed, outbox_complete jc jl inp m wa d)))))"

definition start_recovery :: "instant \<Rightarrow> db \<Rightarrow> db" where
  "start_recovery now d = snd (messages_requeue_stuck (now - stuck_threshold) d)"

text \<open>
  One round of a worker: claim a batch and process it in order, leaving what remains when the context
  is cancelled (\<open>si_cancelled\<close> of the next message's input). The answer is the delay it waits for, None
  when the worker returned.
\<close>

fun process_batch :: "codec \<Rightarrow> json_lib \<Rightarrow> bool \<Rightarrow> (uuid \<Rightarrow> send_input) \<Rightarrow> outbound_message list \<Rightarrow> db \<Rightarrow> bool \<times> db" where
  "process_batch jc jl humanize inps [] d = (True, d)"
| "process_batch jc jl humanize inps (m # ms) d =
     (if si_cancelled (inps (om_id m)) then (False, d)
      else process_batch jc jl humanize inps ms (snd (outbox_process jc jl humanize (inps (om_id m)) m d)))"

definition worker_round :: "codec \<Rightarrow> json_lib \<Rightarrow> bool \<Rightarrow> bool \<Rightarrow> (uuid \<Rightarrow> bool) \<Rightarrow> (uuid \<Rightarrow> send_input) \<Rightarrow> db
      \<Rightarrow> duration option \<times> db" where
  "worker_round jc jl humanize cancelled locked inps d =
     (if cancelled then (None, d)
      else case messages_claim_queued locked outbox_batch_size d of
        (Inl _, d) \<Rightarrow> (Some outbox_poll_interval, d)
      | (Inr claimed, d) \<Rightarrow>
          (case process_batch jc jl humanize inps claimed d of
             (False, d) \<Rightarrow> (None, d)
           | (True, d) \<Rightarrow>
               (Some (if int (length claimed) < outbox_batch_size then outbox_poll_interval else 0), d)))"

section \<open>The verdict on a claimed message\<close>

datatype verdict = Leave | Sent string | Retry string instant | Fail string

definition error_verdict :: "send_input \<Rightarrow> outbound_message \<Rightarrow> send_err \<Rightarrow> verdict" where
  "error_verdict inp m cause =
     (if si_cancelled inp \<or> si_cancelled_later inp then Leave
      else if is_transient cause \<and> om_attempts m < 5
      then Retry (send_text cause) (si_now inp + second * 2 ^ nat (om_attempts m))
      else Fail (send_text cause))"

definition send_verdict :: "codec \<Rightarrow> bool \<Rightarrow> send_input \<Rightarrow> outbound_message \<Rightarrow> verdict" where
  "send_verdict jc humanize inp m =
     (if \<not> si_lock inp then Leave
      else case si_session inp of
        None \<Rightarrow> Fail (''session not found for instance '' @ jc_show_id jc (om_instance m))
      | Some send \<Rightarrow>
          (case sender_for (si_media inp) (om_type m) of
             None \<Rightarrow> Fail ''unsupported message type''
           | Some sender \<Rightarrow>
               (if simulate_presence humanize inp m \<noteq> None then Leave
                else case fst (sender send m) of Inr wa \<Rightarrow> Sent wa | Inl e \<Rightarrow> error_verdict inp m e)))"

fun apply_verdict :: "verdict \<Rightarrow> instant \<Rightarrow> message_row \<Rightarrow> message_row" where
  "apply_verdict Leave now r = r"
| "apply_verdict (Sent wa) now r =
     r\<lparr>mr_status := ''sent'', mr_whatsapp_id := nullif_empty wa, mr_last_error := None, mr_updated := now\<rparr>"
| "apply_verdict (Retry err t) now r =
     r\<lparr>mr_status := ''queued'', mr_retries := mr_retries r + 1, mr_last_error := nullif_empty err,
       mr_next_attempt := Some t, mr_updated := now\<rparr>"
| "apply_verdict (Fail err) now r =
     r\<lparr>mr_status := ''failed'', mr_last_error := nullif_empty err, mr_updated := now\<rparr>"

section \<open>The handler implements the verdict\<close>

lemma exec_message_outcome:
  assumes "exec_message i f d = (res, d')"
  shows "(\<exists>e. res = Inl e) \<and> same_tables d d' \<or>
    res = Inr () \<and> t_messages d' = update_where (\<lambda>r. mr_id r = i) (f (pg_now d)) (t_messages d)
      \<and> t_events d' = t_events d \<and> pg_now d' = pg_now d"
  using assms unfolding exec_message_def
  by (rule pg_run_inv) (auto simp: same_tables_fields split: if_splits)

lemma exec_message_quiet:
  assumes "pg_script d = []" "i \<in> mr_id ` set (t_messages d)"
  shows "exec_message i f d = (Inr (), d\<lparr>t_messages := update_where (\<lambda>r. mr_id r = i) (f (pg_now d)) (t_messages d)\<rparr>)"
  using assms by (simp add: exec_message_def)

lemma outbox_write_messages:
  assumes "outbox_write jc subj env d = (r, d')"
  shows "t_messages d' = t_messages d \<and> (pg_script d = [] \<longrightarrow> pg_script d' = []) \<and> pg_now d' = pg_now d
    \<and> (t_events d' = t_events d \<or> (\<exists>stored. t_events d' = t_events d @ [event_row_of d (en_id env) subj stored]))"
proof (cases "jc_encode jc env")
  case None
  then show ?thesis using assms by (simp add: outbox_write_def)
next
  case (Some data)
  obtain q e where q: "events_enqueue (en_id env) subj data d = (q, e)" by (cases "events_enqueue (en_id env) subj data d")
  have e: "d' = e" using assms Some q by (auto simp: outbox_write_def split: sum.splits)
  have script: "pg_script d = [] \<longrightarrow> pg_script e = []"
    using q by (auto simp: events_enqueue_def split: option.splits if_splits)
  have "t_messages e = t_messages d \<and> pg_now e = pg_now d
    \<and> (t_events e = t_events d \<or> (\<exists>stored. t_events e = t_events d @ [event_row_of d (en_id env) subj stored]))"
    using q unfolding events_enqueue_def
    by (rule pg_run_inv) (auto simp: same_tables_fields event_row_of_def split: option.splits if_splits)
  then show ?thesis using script e by simp
qed

definition emitted :: "codec \<Rightarrow> outbound_message \<Rightarrow> db \<Rightarrow> db \<Rightarrow> bool" where
  "emitted jc m d d' \<longleftrightarrow> (\<exists>new. t_events d' = t_events d @ new \<and> length new \<le> 1
     \<and> (\<forall>r \<in> set new. pending r \<and> er_subject r = subject_message_status jc (om_instance m)))"

lemma emitted_refl [simp]: "t_events d' = t_events d \<Longrightarrow> emitted jc m d d'"
  by (simp add: emitted_def)

lemma outbox_emit_frame:
  "t_messages (outbox_emit jc jl inp m s wa err d) = t_messages d
   \<and> (pg_script d = [] \<longrightarrow> pg_script (outbox_emit jc jl inp m s wa err d) = [])
   \<and> pg_now (outbox_emit jc jl inp m s wa err d) = pg_now d
   \<and> emitted jc m d (outbox_emit jc jl inp m s wa err d)"
proof (cases "new_envelope (si_fresh inp) (si_now inp) ''message.status'' (om_instance m)
             (jl_encode jl (status_payload jc m s wa err))")
  case None
  then show ?thesis by (simp add: outbox_emit_def)
next
  case (Some env)
  obtain r d' where w: "outbox_write jc (subject_message_status jc (om_instance m)) env d = (r, d')"
    by (cases "outbox_write jc (subject_message_status jc (om_instance m)) env d")
  show ?thesis using outbox_write_messages [OF w] Some w
    by (auto simp: outbox_emit_def emitted_def event_row_of_def pending_def)
qed

definition implements :: "codec \<Rightarrow> verdict \<Rightarrow> outbound_message \<Rightarrow> db \<Rightarrow> db \<Rightarrow> bool" where
  "implements jc v m d d' \<longleftrightarrow>
     (t_messages d' = update_where (\<lambda>r. mr_id r = om_id m) (apply_verdict v (pg_now d)) (t_messages d) \<and> emitted jc m d d'
       \<or> t_messages d' = t_messages d \<and> t_events d' = t_events d)
     \<and> (pg_script d = [] \<and> om_id m \<in> mr_id ` set (t_messages d) \<longrightarrow> pg_script d' = [] \<and>
          t_messages d' = update_where (\<lambda>r. mr_id r = om_id m) (apply_verdict v (pg_now d)) (t_messages d))
     \<and> pg_now d' = pg_now d"

lemma update_leave [simp]: "update_where P (apply_verdict Leave now) rows = rows"
  unfolding update_where_def by (rule map_idI) simp

lemma implements_leave: "implements jc Leave m d d"
  by (simp add: implements_def)

text \<open>An update of the message's row followed by the event, as in \<open>outbox_complete\<close> and \<open>outbox_fail\<close>.\<close>

lemma implements_exec:
  assumes "exec_message (om_id m) (apply_verdict v) d = (res, d1)"
    and "d' = (case res of Inl _ \<Rightarrow> d1 | Inr _ \<Rightarrow> after d1)"
    and "\<And>d. t_messages (after d) = t_messages d \<and> (pg_script d = [] \<longrightarrow> pg_script (after d) = [])
          \<and> pg_now (after d) = pg_now d \<and> emitted jc m d (after d)"
  shows "implements jc v m d d'"
proof -
  have quiet: "res = Inr () \<and> pg_script d1 = [] \<and>
      t_messages d1 = update_where (\<lambda>r. mr_id r = om_id m) (apply_verdict v (pg_now d)) (t_messages d)"
    if "pg_script d = []" "om_id m \<in> mr_id ` set (t_messages d)"
    using assms(1) exec_message_quiet [OF that, of "apply_verdict v"] that by auto
  show ?thesis
  proof (cases res)
    case (Inl e)
    then have "same_tables d d1" "d' = d1" using exec_message_outcome [OF assms(1)] assms(2) by auto
    then show ?thesis using quiet Inl by (auto simp: implements_def same_tables_fields)
  next
    case (Inr u)
    then have "t_messages d1 = update_where (\<lambda>r. mr_id r = om_id m) (apply_verdict v (pg_now d)) (t_messages d)"
      "t_events d1 = t_events d" "pg_now d1 = pg_now d" "d' = after d1"
      using exec_message_outcome [OF assms(1)] assms(2) by auto
    then show ?thesis using assms(3) [of d1] quiet by (auto simp: implements_def emitted_def)
  qed
qed

lemma retry_delay_loop_closed: "0 < delay \<Longrightarrow> delay * 2 ^ n < max_retry_delay \<Longrightarrow> retry_delay_loop delay n = delay * 2 ^ n"
proof (induction n arbitrary: delay)
  case (Suc n)
  have "delay * 2 * 1 \<le> delay * 2 * 2 ^ n" using Suc.prems by (intro mult_left_mono) auto
  then have "delay * 2 < max_retry_delay" using Suc.prems(2) by simp
  then show ?case using Suc.IH [of "delay * 2"] Suc.prems by (simp add: mult.assoc)
qed simp

lemma retry_delay_small: "0 \<le> n \<Longrightarrow> n < 5 \<Longrightarrow> retry_delay n = second * 2 ^ nat n"
proof -
  assume n: "0 \<le> n" "n < 5"
  then have "nat n \<le> 4" by simp
  then have "(2 :: int) ^ nat n \<le> 2 ^ 4" by (intro power_increasing) simp_all
  then have "second * 2 ^ nat n < max_retry_delay"
    unfolding max_retry_delay_def duration_defs by simp
  then show ?thesis by (simp add: retry_delay_def retry_delay_loop_closed duration_defs)
qed

lemma marks_are_verdicts:
  "messages_mark_sent i wa = exec_message i (apply_verdict (Sent wa))"
  "messages_mark_failed i err = exec_message i (apply_verdict (Fail err))"
  "messages_mark_retrying i err t = exec_message i (apply_verdict (Retry err t))"
  unfolding messages_mark_sent_def messages_mark_failed_def messages_mark_retrying_def
  by (rule arg_cong [where f = "exec_message i"], simp add: fun_eq_iff)+

lemma implements_complete: "implements jc (Sent wa) m d (outbox_complete jc jl inp m wa d)"
proof -
  obtain res d1 where e: "exec_message (om_id m) (apply_verdict (Sent wa)) d = (res, d1)"
    by (cases "exec_message (om_id m) (apply_verdict (Sent wa)) d")
  have same: "messages_mark_sent (om_id m) wa d = (res, d1)"
    using e by (simp add: marks_are_verdicts)
  show ?thesis
    by (rule implements_exec [OF e, where after = "outbox_emit jc jl inp m ''sent'' wa []"])
      (use same in \<open>auto simp: outbox_complete_def outbox_emit_frame split: sum.split\<close>)
qed

lemma implements_fail: "implements jc (Fail err) m d (outbox_fail jc jl inp m err d)"
proof -
  obtain res d1 where e: "exec_message (om_id m) (apply_verdict (Fail err)) d = (res, d1)"
    by (cases "exec_message (om_id m) (apply_verdict (Fail err)) d")
  have same: "messages_mark_failed (om_id m) err d = (res, d1)"
    using e by (simp add: marks_are_verdicts)
  show ?thesis
    by (rule implements_exec [OF e, where after = "outbox_emit jc jl inp m ''failed'' [] err"])
      (use same in \<open>auto simp: outbox_fail_def outbox_emit_frame split: sum.split\<close>)
qed

lemma implements_retry: "implements jc (Retry err t) m d (snd (messages_mark_retrying (om_id m) err t d))"
proof -
  obtain res d1 where e: "exec_message (om_id m) (apply_verdict (Retry err t)) d = (res, d1)"
    by (cases "exec_message (om_id m) (apply_verdict (Retry err t)) d")
  have same: "messages_mark_retrying (om_id m) err t d = (res, d1)"
    using e by (simp add: marks_are_verdicts)
  show ?thesis
    by (rule implements_exec [OF e, where after = "\<lambda>d. d"]) (use same in \<open>auto split: sum.split\<close>)
qed

lemma implements_error: "implements jc (error_verdict inp m cause) m d (handle_send_error jc jl inp m cause d)"
  if "0 \<le> om_attempts m"
proof -
  consider "si_cancelled inp \<or> si_cancelled_later inp"
    | (retry) "\<not> (si_cancelled inp \<or> si_cancelled_later inp)" "is_transient cause" "om_attempts m < 5"
    | (fail) "\<not> (si_cancelled inp \<or> si_cancelled_later inp)" "\<not> (is_transient cause \<and> om_attempts m < 5)"
    by blast
  then show ?thesis
  proof cases
    case 1
    then show ?thesis by (auto simp: error_verdict_def handle_send_error_def implements_leave)
  next
    case retry
    then show ?thesis
      using implements_retry retry_delay_small [OF that]
      by (simp add: error_verdict_def handle_send_error_def max_send_retries_def)
  next
    case fail
    then show ?thesis
      using implements_fail by (auto simp: error_verdict_def handle_send_error_def max_send_retries_def)
  qed
qed

lemma simulate_presence_cancelled: "simulate_presence humanize inp m = Some e \<Longrightarrow> si_cancelled inp"
  by (auto simp: simulate_presence_def Let_def split: if_splits)

lemma process_implements:
  assumes "0 \<le> om_attempts m"
  shows "implements jc (send_verdict jc humanize inp m) m d (snd (outbox_process jc jl humanize inp m d))"
proof (cases "si_lock inp \<and> si_session inp \<noteq> None \<and> sender_for (si_media inp) (om_type m) \<noteq> None")
  case False
  then show ?thesis
    using implements_leave implements_fail by (auto simp: send_verdict_def outbox_process_def split: option.split)
next
  case True
  then obtain send sender where s: "si_lock inp" "si_session inp = Some send"
    "sender_for (si_media inp) (om_type m) = Some sender" by auto
  show ?thesis
  proof (cases "simulate_presence humanize inp m")
    case (Some e)
    then have "handle_send_error jc jl inp m e d = d"
      using simulate_presence_cancelled by (simp add: handle_send_error_def)
    then show ?thesis using s Some implements_leave by (simp add: send_verdict_def outbox_process_def)
  next
    case None
    obtain ans handed where a: "sender send m = (ans, handed)" by (cases "sender send m")
    show ?thesis
      using s None a implements_error [OF assms] implements_complete
      by (cases ans) (simp_all add: send_verdict_def outbox_process_def)
  qed
qed

lemma sender_hands_over:
  assumes "sender_for media t = Some sender" "sender send m = (Inr wa, handed)"
  shows "\<exists>sm. handed = Some sm \<and> send sm = Inr wa"
  using assms
  by (auto simp: sender_for_def text_send_def location_send_def contact_send_def media_send_def hand_over_def Let_def
      split: if_splits payload.splits option.splits sum.splits prod.splits)

text \<open>
  C24: delivery implements its verdict. Whatever a delivery meets, it changes at most the row of its own
  message, and that only to the verdict: sent with the id the session answered for the message it was
  handed, queued again with one retry more after 2^attempts seconds for a transient error with fewer
  than five retries, or failed. When the database answers, the verdict is exactly what is recorded. At
  most one event is enqueued, a status event of the instance.
\<close>

theorem delivery_implements_its_verdict:
  assumes "outbox_process jc jl humanize inp m d = (handed, d')" "0 \<le> om_attempts m"
  shows "(let v = send_verdict jc humanize inp m;
              rows = update_where (\<lambda>r. mr_id r = om_id m) (apply_verdict v (pg_now d)) (t_messages d)
          in (t_messages d' = rows \<or> t_messages d' = t_messages d)
             \<and> (pg_script d = [] \<and> om_id m \<in> mr_id ` set (t_messages d) \<longrightarrow> t_messages d' = rows)
             \<and> (\<forall>wa. v = Sent wa \<longrightarrow> (\<exists>send sm. si_session inp = Some send \<and> handed = Some sm \<and> send sm = Inr wa)))
    \<and> emitted jc m d d'"
proof -
  have i: "implements jc (send_verdict jc humanize inp m) m d d'"
    using process_implements [OF assms(2), of jc humanize inp d jl] assms(1) by simp
  have "\<exists>send sm. si_session inp = Some send \<and> handed = Some sm \<and> send sm = Inr wa"
    if v: "send_verdict jc humanize inp m = Sent wa" for wa
  proof -
    obtain send sender where s: "si_lock inp" "si_session inp = Some send"
      "sender_for (si_media inp) (om_type m) = Some sender" "simulate_presence humanize inp m = None"
      "fst (sender send m) = Inr wa"
      using v by (auto simp: send_verdict_def error_verdict_def split: if_splits option.splits sum.splits)
    then obtain h where h: "sender send m = (Inr wa, h)" by (cases "sender send m") auto
    then have "handed = h" using assms(1) s by (simp add: outbox_process_def)
    then show ?thesis using sender_hands_over [OF s(3) h] s(2) by auto
  qed
  then show ?thesis using i by (auto simp: implements_def Let_def)
qed

section \<open>Every message comes to an end\<close>

text \<open>
  The successive deliveries of one message: claimed whenever it is queued, then processed. (Whether it
  is due only decides how long the next claim waits.)
\<close>

fun deliveries :: "codec \<Rightarrow> json_lib \<Rightarrow> bool \<Rightarrow> send_input list \<Rightarrow> uuid \<Rightarrow> db \<Rightarrow> db" where
  "deliveries jc jl humanize [] i d = d"
| "deliveries jc jl humanize (inp # inps) i d =
     (case row_by mr_id i (t_messages d) of
        None \<Rightarrow> d
      | Some r \<Rightarrow>
          if mr_status r \<noteq> ''queued'' then d
          else deliveries jc jl humanize inps i
                 (snd (outbox_process jc jl humanize inp (scan_message (sending_at d r)) (claim_mark [i] d))))"

definition uninterrupted :: "send_input \<Rightarrow> bool" where
  "uninterrupted inp \<longleftrightarrow> si_lock inp \<and> \<not> si_cancelled inp \<and> \<not> si_cancelled_later inp"

lemma uninterrupted_verdict:
  assumes "uninterrupted inp"
  shows "send_verdict jc humanize inp m \<noteq> Leave"
    and "send_verdict jc humanize inp m = Retry e t \<Longrightarrow> om_attempts m < 5"
proof -
  have "simulate_presence humanize inp m = None"
    using assms by (auto simp: simulate_presence_def uninterrupted_def Let_def)
  then have v: "send_verdict jc humanize inp m \<noteq> Leave \<and> (send_verdict jc humanize inp m = Retry e t \<longrightarrow> om_attempts m < 5)" for e t
    using assms by (auto simp: send_verdict_def error_verdict_def uninterrupted_def split: option.split sum.split)
  show "send_verdict jc humanize inp m \<noteq> Leave" using v by blast
  show "send_verdict jc humanize inp m = Retry e t \<Longrightarrow> om_attempts m < 5" using v by blast
qed

lemma deliveries_stop:
  "row_by mr_id i (t_messages d) = Some r \<Longrightarrow> mr_status r \<noteq> ''queued'' \<Longrightarrow> deliveries jc jl humanize inps i d = d"
  by (cases inps) simp_all

lemma apply_verdict_id [simp]: "mr_id (apply_verdict v now r) = mr_id r"
  by (cases v) simp_all

lemma one_delivery:
  fixes jc jl humanize
  assumes q: "pg_script d = []" and r: "row_by mr_id i (t_messages d) = Some r" and a: "0 \<le> mr_retries r"
    and u: "uninterrupted inp"
    and d'_def: "d' = snd (outbox_process jc jl humanize inp (scan_message (sending_at d r)) (claim_mark [i] d))"
  shows "\<exists>r'. pg_script d' = [] \<and> row_by mr_id i (t_messages d') = Some r' \<and>
    (mr_status r' \<in> {''sent'', ''failed''} \<or> mr_status r' = ''queued'' \<and> mr_retries r' = mr_retries r + 1 \<and> mr_retries r < 5)"
proof -
  let ?m = "scan_message (sending_at d r)"
  let ?c = "claim_mark [i] d"
  let ?v = "send_verdict jc humanize inp ?m"
  have id: "mr_id r = i" using row_by_Some [OF r] by simp
  have att: "om_attempts ?m = mr_retries r" "om_id ?m = i"
    by (simp_all add: scan_message_def sending_at_def id)
  have c: "pg_script ?c = []" "row_by mr_id i (t_messages ?c) = Some (sending_at d r)"
    using q r id by (simp_all add: claim_mark_def row_by_update sending_at_def)
  have "i \<in> mr_id ` set (t_messages ?c)" using row_by_Some [OF c(2)] by force
  then have d': "pg_script d' = []"
    "t_messages d' = update_where (\<lambda>r. mr_id r = i) (apply_verdict ?v (pg_now ?c)) (t_messages ?c)"
    using process_implements [of ?m jc humanize inp ?c jl] a c(1) att
    by (simp_all add: implements_def d'_def)
  have row: "row_by mr_id i (t_messages d') = Some (apply_verdict ?v (pg_now ?c) (sending_at d r))"
    unfolding d'(2) by (subst row_by_update) (simp_all add: c(2) id sending_at_def)
  have "mr_status (apply_verdict ?v (pg_now ?c) (sending_at d r)) \<in> {''sent'', ''failed''}
    \<or> mr_status (apply_verdict ?v (pg_now ?c) (sending_at d r)) = ''queued''
      \<and> mr_retries (apply_verdict ?v (pg_now ?c) (sending_at d r)) = mr_retries r + 1 \<and> mr_retries r < 5"
    using uninterrupted_verdict [OF u, where jc = jc and humanize = humanize and m = ?m] att
    by (cases ?v) (auto simp: sending_at_def)
  then show ?thesis using d'(1) row by blast
qed

lemma deliveries_settle:
  assumes "pg_script d = []" "row_by mr_id i (t_messages d) = Some r" "mr_status r = ''queued''"
    and "0 \<le> mr_retries r" "mr_retries r \<le> 5"
    and "\<forall>inp \<in> set inps. uninterrupted inp" "6 \<le> mr_retries r + int (length inps)"
  shows "\<exists>r'. row_by mr_id i (t_messages (deliveries jc jl humanize inps i d)) = Some r'
    \<and> mr_status r' \<in> {''sent'', ''failed''}"
  using assms
proof (induction inps arbitrary: d r)
  case Nil
  then show ?case by simp
next
  case (Cons inp inps)
  have u: "uninterrupted inp" using Cons.prems by simp
  let ?d = "snd (outbox_process jc jl humanize inp (scan_message (sending_at d r)) (claim_mark [i] d))"
  obtain r' where r': "pg_script ?d = []" "row_by mr_id i (t_messages ?d) = Some r'"
    "mr_status r' \<in> {''sent'', ''failed''}
       \<or> mr_status r' = ''queued'' \<and> mr_retries r' = mr_retries r + 1 \<and> mr_retries r < 5"
    using one_delivery [OF Cons.prems(1,2,4) u refl, of jc jl humanize] by blast
  have step: "deliveries jc jl humanize (inp # inps) i d = deliveries jc jl humanize inps i ?d"
    using Cons.prems(2,3) by simp
  from r'(3) show ?case
  proof
    assume s: "mr_status r' \<in> {''sent'', ''failed''}"
    then have "deliveries jc jl humanize inps i ?d = ?d" by (intro deliveries_stop [OF r'(2)]) auto
    then show ?thesis unfolding step using r'(2) s by simp
  next
    assume "mr_status r' = ''queued'' \<and> mr_retries r' = mr_retries r + 1 \<and> mr_retries r < 5"
    then show ?thesis
      unfolding step using Cons.prems by (intro Cons.IH [OF r'(1,2)]) auto
  qed
qed


definition flaky_input :: send_input where
  "flaky_input = \<lparr>si_lock = True, si_session = Some (\<lambda>_. Inl (SendErr True ''timeout'')), si_media = None,
     si_signal = (\<lambda>_. True), si_sleep = True, si_cancelled = False, si_cancelled_later = False,
     si_now = 0, si_fresh = 77\<rparr>"


theorem delivery_implements_its_verdict_witness:
  "send_verdict sample_codec False (flaky_input\<lparr>si_session := Some (\<lambda>_. Inr ''w'')\<rparr>) (scan_message sample_message) = Sent ''w''
   \<and> (\<exists>handed d'. outbox_process sample_codec sample_json False (flaky_input\<lparr>si_session := Some (\<lambda>_. Inr ''w'')\<rparr>)
         (scan_message sample_message) sample_db = (handed, d')
       \<and> t_messages d' = [apply_verdict (Sent ''w'') 0 sample_message])"
proof -
  let ?inp = "flaky_input\<lparr>si_session := Some (\<lambda>_. Inr ''w'')\<rparr>"
  obtain handed d' where p: "outbox_process sample_codec sample_json False ?inp (scan_message sample_message) sample_db = (handed, d')"
    by (cases "outbox_process sample_codec sample_json False ?inp (scan_message sample_message) sample_db")
  have t: "trim_space ''hi'' \<noteq> []" by code_simp
  have v: "send_verdict sample_codec False ?inp (scan_message sample_message) = Sent ''w''"
    using t by (simp add: send_verdict_def flaky_input_def sender_for_def scan_message_def sample_message_def
        simulate_presence_def before_send_def text_send_def hand_over_def)
  have "t_messages d' = update_where (\<lambda>r. mr_id r = om_id (scan_message sample_message))
      (apply_verdict (Sent ''w'') (pg_now sample_db)) (t_messages sample_db)"
    using delivery_implements_its_verdict [OF p] v
    by (simp add: sample_defs scan_message_def Let_def)
  then show ?thesis using v p by (simp add: sample_defs update_where_def)
qed

end
