(* ===== verification/Runtime.thy ===== *)
theory Runtime
  imports Outbox
begin

text \<open>
  The event sink of the sessions, \<^verbatim>\<open>internal/app\<close>: connection changes are projected into the instance
  row, receipts into the message rows (\<^verbatim>\<open>internal/message/receipts.go\<close>), inbound media is stored, and
  each of them is written as an event through the decorated writer (webhook worker first, then the
  outbox).
\<close>

section \<open>Payloads and writing\<close>

definition json_members :: "(string \<times> json option) list \<Rightarrow> json" where
  "json_members ms = JObj (map (\<lambda>(k, v). (k, the v)) (filter (\<lambda>(k, v). v \<noteq> None) ms))"

definition omit_empty :: "string \<Rightarrow> json option" where
  "omit_empty s = (if s = [] then None else Some (JStr s))"

type_synonym sink = "worker \<times> db"

text \<open>
  The context of an event: encoders, a fresh event id and the clock. \<open>ec_raw_limit\<close> is
  \<^verbatim>\<open>maxMediaBytes\<close>.
\<close>

record event_context =
  ec_codec :: codec
  ec_json :: json_lib
  ec_fresh :: uuid
  ec_now :: instant
  ec_raw_limit :: int

datatype sink_err = SinkBuild | SinkWrite write_err

text \<open>\<open>raw\<close> is the upstream event that rides the envelope when it is not empty after the cut.\<close>

definition sink_event :: "event_context \<Rightarrow> string \<Rightarrow> uuid \<Rightarrow> string \<Rightarrow> json \<Rightarrow> string \<Rightarrow> sink \<Rightarrow> (sink_err + unit) \<times> sink" where
  "sink_event ec event_type inst subj payload raw s =
     (case new_envelope (ec_fresh ec) (ec_now ec) event_type inst (jl_encode (ec_json ec) payload) of
        None \<Rightarrow> (Inl SinkBuild, s)
      | Some env \<Rightarrow>
          (let trimmed = fst (cut_raw_for_limit (ec_json ec) raw (ec_raw_limit ec));
               env = (if trimmed \<noteq> [] then env\<lparr>en_event := trimmed\<rparr> else env)
           in case fanout_write (ec_codec ec) subj env s of
                (Inl e, w, d) \<Rightarrow> (Inl (SinkWrite e), w, d)
              | (Inr _, w, d) \<Rightarrow> (Inr (), w, d)))"

section \<open>Connection changes\<close>

definition apply_connection :: "instant \<Rightarrow> uuid \<Rightarrow> string \<Rightarrow> string \<Rightarrow> string \<Rightarrow> db \<Rightarrow> unit result \<times> db" where
  "apply_connection now inst status jid reason =
     instances_set_connection_state inst status jid reason (if status = ''connected'' then Some now else None)"

definition connection_payload :: "string \<Rightarrow> string \<Rightarrow> string \<Rightarrow> json" where
  "connection_payload status jid reason =
     json_members [(''status'', Some (JStr status)), (''whatsapp_jid'', omit_empty jid), (''reason'', omit_empty reason)]"

definition on_connection :: "event_context \<Rightarrow> uuid \<Rightarrow> string \<Rightarrow> string \<Rightarrow> string \<Rightarrow> sink \<Rightarrow> sink" where
  "on_connection ec inst status jid reason s =
     (case s of (w, d) \<Rightarrow>
      (case apply_connection (ec_now ec) inst status jid reason d of
         (Inl _, d) \<Rightarrow> (w, d)
       | (Inr _, d) \<Rightarrow>
           snd (sink_event ec ''connection'' inst (subject_connection (ec_codec ec) inst)
                  (connection_payload status jid reason) [] (w, d))))"

section \<open>Receipts\<close>

record receipt =
  rc_instance :: uuid
  rc_ids :: "string list"
  rc_chat :: string
  rc_status :: string
  rc_timestamp :: instant
  rc_raw :: string

datatype receipt_err = ReceiptUpdate storage_err | ReceiptSink sink_err

text \<open>The loop of \<^verbatim>\<open>Apply\<close>: the ids that matched, in order, up to the first failure.\<close>

fun receipt_updates :: "string \<Rightarrow> instant \<Rightarrow> string list \<Rightarrow> db \<Rightarrow> (storage_err + string list) \<times> db" where
  "receipt_updates status stamp [] d = (Inr [], d)"
| "receipt_updates status stamp (i # ids) d =
     (case messages_update_receipt i status stamp d of
        (Inl e, d) \<Rightarrow> (Inl e, d)
      | (Inr hit, d) \<Rightarrow>
          (case receipt_updates status stamp ids d of
             (Inl e, d) \<Rightarrow> (Inl e, d)
           | (Inr matched, d) \<Rightarrow> (Inr (if hit then i # matched else matched), d)))"

definition receipt_payload :: "json_lib \<Rightarrow> string list \<Rightarrow> string \<Rightarrow> string \<Rightarrow> instant \<Rightarrow> json" where
  "receipt_payload jl ids status chat stamp =
     json_members [(''message_ids'', Some (JArr (map JStr ids))), (''status'', Some (JStr status)),
       (''chat_jid'', omit_empty chat), (''timestamp'', Some (JStr (jl_time jl stamp)))]"

definition receipts_apply :: "event_context \<Rightarrow> receipt \<Rightarrow> sink \<Rightarrow> (receipt_err + unit) \<times> sink" where
  "receipts_apply ec rc s =
     (case s of (w, d) \<Rightarrow>
      if rc_ids rc = [] then (Inr (), w, d)
      else
        (let stamp = (if rc_timestamp rc = zero_time then ec_now ec else rc_timestamp rc) in
         case receipt_updates (rc_status rc) stamp (rc_ids rc) d of
           (Inl e, d) \<Rightarrow> (Inl (ReceiptUpdate e), w, d)
         | (Inr matched, d) \<Rightarrow>
             if matched = [] then (Inr (), w, d)
             else (case sink_event ec ''receipt'' (rc_instance rc) (subject_receipt (ec_codec ec) (rc_instance rc))
                       (receipt_payload (ec_json ec) matched (rc_status rc) (rc_chat rc) stamp) (rc_raw rc) (w, d) of
                (Inl e, s) \<Rightarrow> (Inl (ReceiptSink e), s)
              | (Inr _, s) \<Rightarrow> (Inr (), s))))"

section \<open>Inbound messages\<close>

text \<open>\<open>ib_download\<close>: None when there is no downloader, Some of the text of its error or the content.\<close>

record inbound_message =
  ib_instance :: uuid
  ib_id :: string
  ib_chat :: string
  ib_sender :: string
  ib_group :: bool
  ib_type :: string
  ib_text :: string
  ib_timestamp :: instant
  ib_media :: bool
  ib_mime :: string
  ib_filename :: string
  ib_length :: int
  ib_download :: "(string + string) option"
  ib_raw :: string

datatype attachment = NoMedia | MediaStored media | MediaOmitted string

text \<open>\<open>storage\<close> is the media storage with the drawn id and temporary name, None when not configured.\<close>

definition attach_media :: "event_context \<Rightarrow> (storage_config \<times> uuid \<times> string) option \<Rightarrow> inbound_message \<Rightarrow> media_world
      \<Rightarrow> (attachment \<times> media_err option) \<times> media_world" where
  "attach_media ec storage msg w =
     (if ib_length msg > ec_raw_limit ec then ((MediaOmitted ''media exceeds the size limit'', None), w)
      else case ib_download msg of
        None \<Rightarrow> ((MediaOmitted ''media download unavailable'', None), w)
      | Some download \<Rightarrow>
          (case storage of
             None \<Rightarrow> ((MediaOmitted ''media storage unavailable'', None), w)
           | Some (sc, fresh, tmp) \<Rightarrow>
               (case download of
                  Inl e \<Rightarrow> ((MediaOmitted (''download failed: '' @ e), None), w)
                | Inr data \<Rightarrow>
                    if int (length data) > ec_raw_limit ec
                    then ((MediaOmitted ''media exceeds the size limit'', None), w)
                    else (case media_save sc fresh tmp (ec_now ec) (ib_instance msg) ''inbound'' (ib_id msg)
                              (ib_mime msg) (ib_filename msg) data w of
                       (Inl e, w) \<Rightarrow> ((MediaOmitted ''media store failed'', Some e), w)
                     | (Inr stored, w) \<Rightarrow> ((MediaStored stored, None), w)))))"

definition media_url :: "string \<Rightarrow> codec \<Rightarrow> uuid \<Rightarrow> string" where
  "media_url public_url jc i = trim_suffix public_url ''/'' @ ''/media/'' @ jc_show_id jc i"

definition media_json :: "event_context \<Rightarrow> string \<Rightarrow> media \<Rightarrow> json" where
  "media_json ec public_url m =
     json_members [(''media_id'', Some (JStr (jc_show_id (ec_codec ec) (md_id m)))), (''mimetype'', Some (JStr (md_mimetype m))),
       (''filename'', omit_empty (md_filename m)), (''size'', Some (JNum (jl_number (ec_json ec) (md_size m)))),
       (''url'', Some (JStr (media_url public_url (ec_codec ec) (md_id m)))),
       (''expires_at'', Some (JStr (jl_time (ec_json ec) (md_expires m))))]"

definition message_payload :: "event_context \<Rightarrow> string \<Rightarrow> inbound_message \<Rightarrow> attachment \<Rightarrow> json" where
  "message_payload ec public_url msg att =
     json_members [(''from_jid'', Some (JStr (ib_sender msg))), (''chat_jid'', Some (JStr (ib_chat msg))),
       (''is_group'', Some (JBool (ib_group msg))), (''message_id'', Some (JStr (ib_id msg))),
       (''timestamp'', Some (JStr (jl_time (ec_json ec)
          (if ib_timestamp msg = zero_time then ec_now ec else ib_timestamp msg)))),
       (''type'', Some (JStr (ib_type msg))), (''text'', omit_empty (ib_text msg)),
       (''media'', case att of MediaStored m \<Rightarrow> Some (media_json ec public_url m) | _ \<Rightarrow> None),
       (''media_omitted'', case att of MediaOmitted r \<Rightarrow> Some (JObj [(''reason'', JStr r)]) | _ \<Rightarrow> None)]"

datatype inbound_err = InboundSink sink_err | InboundMedia media_err

definition handle_inbound :: "event_context \<Rightarrow> string \<Rightarrow> (storage_config \<times> uuid \<times> string) option \<Rightarrow> inbound_message
      \<Rightarrow> worker \<times> media_world \<Rightarrow> (inbound_err + unit) \<times> worker \<times> media_world" where
  "handle_inbound ec public_url storage msg s =
     (case s of (wk, w) \<Rightarrow>
      (case (if ib_media msg then attach_media ec storage msg w else ((NoMedia, None), w)) of
         ((att, media_err), w) \<Rightarrow>
           (case sink_event ec ''message'' (ib_instance msg) (subject_message (ec_codec ec) (ib_instance msg))
                   (message_payload ec public_url msg att) (ib_raw msg) (wk, mw_db w) of
              (Inl e, wk, d) \<Rightarrow> (Inl (InboundSink e), wk, w\<lparr>mw_db := d\<rparr>)
            | (Inr _, wk, d) \<Rightarrow>
                (case media_err of None \<Rightarrow> Inr () | Some e \<Rightarrow> Inl (InboundMedia e), wk, w\<lparr>mw_db := d\<rparr>))))"

text \<open>Edits and deletions of received messages; the text of a deletion is empty.\<close>

record message_change =
  ch_instance :: uuid
  ch_id :: string
  ch_chat :: string
  ch_sender :: string
  ch_group :: bool
  ch_text :: string
  ch_timestamp :: instant
  ch_raw :: string

definition change_payload :: "event_context \<Rightarrow> bool \<Rightarrow> message_change \<Rightarrow> json" where
  "change_payload ec edit ch =
     json_members [(''from_jid'', Some (JStr (ch_sender ch))), (''chat_jid'', Some (JStr (ch_chat ch))),
       (''is_group'', Some (JBool (ch_group ch))), (''message_id'', Some (JStr (ch_id ch))),
       (''text'', if edit then omit_empty (ch_text ch) else None),
       (''timestamp'', Some (JStr (jl_time (ec_json ec)
          (if ch_timestamp ch = zero_time then ec_now ec else ch_timestamp ch))))]"

definition on_message_edit :: "event_context \<Rightarrow> message_change \<Rightarrow> sink \<Rightarrow> sink" where
  "on_message_edit ec ch s =
     snd (sink_event ec ''message.edit'' (ch_instance ch) (subject_message_edit (ec_codec ec) (ch_instance ch))
            (change_payload ec True ch) (ch_raw ch) s)"

definition on_message_delete :: "event_context \<Rightarrow> message_change \<Rightarrow> sink \<Rightarrow> sink" where
  "on_message_delete ec ch s =
     snd (sink_event ec ''message.delete'' (ch_instance ch) (subject_message_delete (ec_codec ec) (ch_instance ch))
            (change_payload ec False ch) (ch_raw ch) s)"

section \<open>What the sink changes\<close>

text \<open>The two states agree but for the events and the script.\<close>

definition events_only :: "db \<Rightarrow> db \<Rightarrow> bool" where
  "events_only d d' \<longleftrightarrow> same_tables (d\<lparr>t_events := t_events d'\<rparr>) d'"

lemma events_only_same: "same_tables d d' \<Longrightarrow> events_only d d'"
  using same_tables_fields(7) [of d d'] by (simp add: events_only_def)

lemma events_only_fields:
  assumes "events_only d d'"
  shows "t_users d' = t_users d" "t_instances d' = t_instances d" "t_messages d' = t_messages d"
    "t_idem d' = t_idem d" "t_contacts d' = t_contacts d" "t_media d' = t_media d" "pg_now d' = pg_now d"
  using same_tables_fields [OF assms [unfolded events_only_def]] by simp_all

lemma same_tables_events: "same_tables d e \<Longrightarrow> same_tables (d\<lparr>t_events := x\<rparr>) (e\<lparr>t_events := x\<rparr>)"
  unfolding same_tables_def by (cases d; cases e; simp)

lemma events_enqueue_frame:
  assumes "events_enqueue i subj data d = (res, d')"
  shows "events_only d d' \<and> (case res of Inl _ \<Rightarrow> t_events d' = t_events d
    | Inr _ \<Rightarrow> \<exists>stored. pg_jsonb d data = Some stored \<and> t_events d' = t_events d @ [event_row_of d i subj stored])"
  using assms unfolding events_enqueue_def
proof (rule pg_run_inv, goal_cases)
  case (1 e)
  then show ?case using same_tables_fields(7) [OF 1] by (simp add: events_only_same)
next
  case (2 e r e')
  note t = same_tables_fields(7,8,10) [OF 2(1)]
  show ?case
  proof (cases "pg_jsonb e data = None \<or> i \<in> er_id ` set (t_events e)")
    case True
    then have "e' = e" "\<exists>x. r = Inl x" using 2(2) by (auto split: option.splits if_splits)
    then show ?thesis using events_only_same [OF 2(1)] t by auto
  next
    case False
    then obtain stored where s: "pg_jsonb e data = Some stored" "r = Inr ()"
      "e' = e\<lparr>t_events := t_events e @ [event_row_of e i subj stored]\<rparr>"
      using 2(2) by auto
    have "events_only d e'"
      unfolding events_only_def s(3) using same_tables_events [OF 2(1)] by simp
    then show ?thesis using s t by (simp add: event_row_of_def)
  qed
qed

lemma outbox_write_frame:
  assumes "outbox_write jc subj env d = (res, d')"
  shows "events_only d d' \<and> (case res of Inl _ \<Rightarrow> t_events d' = t_events d
    | Inr _ \<Rightarrow> \<exists>data stored. jc_encode jc env = Some data \<and> pg_jsonb d data = Some stored
        \<and> t_events d' = t_events d @ [event_row_of d (en_id env) subj stored])"
proof (cases "jc_encode jc env")
  case None
  then show ?thesis using assms by (auto simp: outbox_write_def events_only_same)
next
  case (Some data)
  obtain r e where q: "events_enqueue (en_id env) subj data d = (r, e)" by fastforce
  show ?thesis
    using events_enqueue_frame [OF q] assms Some q
    by (cases r) (auto simp: outbox_write_def)
qed

lemma sink_event_frame:
  assumes "sink_event ec ty inst subj p raw (w, d) = (res, w', d')"
  shows "events_only d d' \<and> (case res of Inl _ \<Rightarrow> t_events d' = t_events d
    | Inr _ \<Rightarrow> \<exists>env ev data stored.
        new_envelope (ec_fresh ec) (ec_now ec) ty inst (jl_encode (ec_json ec) p) = Some env
        \<and> jc_encode (ec_codec ec) (env\<lparr>en_event := ev\<rparr>) = Some data \<and> pg_jsonb d data = Some stored
        \<and> t_events d' = t_events d @ [event_row_of d (ec_fresh ec) subj stored])"
proof (cases "new_envelope (ec_fresh ec) (ec_now ec) ty inst (jl_encode (ec_json ec) p)")
  case None
  then show ?thesis using assms by (auto simp: sink_event_def events_only_same)
next
  case (Some env)
  then have i: "en_id env = ec_fresh ec" by (auto simp: new_envelope_def split: option.splits if_splits)
  define env' where "env' = (let t = fst (cut_raw_for_limit (ec_json ec) raw (ec_raw_limit ec))
    in if t \<noteq> [] then env\<lparr>en_event := t\<rparr> else env)"
  have i': "en_id env' = ec_fresh ec" "\<exists>ev. env' = env\<lparr>en_event := ev\<rparr>"
    using exI [of "\<lambda>ev. env = env\<lparr>en_event := ev\<rparr>" "en_event env"] by (auto simp: env'_def i Let_def)
  obtain r e where q: "outbox_write (ec_codec ec) subj env' d = (r, e)" by fastforce
  have "d' = e \<and> (res = Inr () \<longleftrightarrow> r = Inr ())"
    using assms Some q by (auto simp: sink_event_def fanout_write_def env'_def Let_def split: sum.splits)
  then show ?thesis
    using outbox_write_frame [OF q] i' Some by (cases res; cases r) auto
qed

section \<open>Properties\<close>

definition connection_row :: "instant \<Rightarrow> instant \<Rightarrow> string \<Rightarrow> string \<Rightarrow> string \<Rightarrow> instance_row \<Rightarrow> instance_row" where
  "connection_row stamp now status jid reason r =
     r\<lparr>ir_status := status, ir_jid := coalesce (nullif_empty jid) (ir_jid r), ir_last_error := nullif_empty reason,
       ir_last_connected := (if status = ''connected'' then Some now else ir_last_connected r), ir_updated := stamp\<rparr>"

lemma apply_connection_row:
  "apply_connection now inst status jid reason = exec_instance inst (\<lambda>t. connection_row t now status jid reason)"
  by (cases "status = ''connected''")
     (simp_all add: apply_connection_def [abs_def] instances_set_connection_state_def connection_row_def [abs_def])

text \<open>
  A connection change is persisted before it is announced. Either nothing changed and nothing was
  announced, or exactly the row of the instance has the new status and reason, keeps its number when
  the change names none, and at most one event, of that instance's connection subject, was enqueued.
\<close>

theorem connection_changes_are_persisted_first:
  assumes "on_connection ec inst status jid reason (w, d) = (w', d')"
  shows "w' = w \<and> same_tables d d' \<or>
    inst \<in> ir_id ` set (t_instances d) \<and>
    t_instances d' = update_where (\<lambda>r. ir_id r = inst) (connection_row (pg_now d) (ec_now ec) status jid reason) (t_instances d) \<and>
    (t_events d' = t_events d \<or>
      (\<exists>stored. t_events d' = t_events d @ [event_row_of d (ec_fresh ec) (subject_connection (ec_codec ec) inst) stored])) \<and>
    t_messages d' = t_messages d \<and> t_users d' = t_users d"
proof -
  obtain r e where a: "apply_connection (ec_now ec) inst status jid reason d = (r, e)" by fastforce
  show ?thesis
  proof (cases r)
    case (Inl x)
    then have "w' = w" "d' = e" using assms a by (auto simp: on_connection_def)
    moreover have "same_tables d e"
      using a Inl unfolding apply_connection_row by (auto dest: exec_instance_err)
    ultimately show ?thesis by simp
  next
    case (Inr u)
    then obtain s where s: "same_tables d s" "inst \<in> ir_id ` set (t_instances d)"
      "e = s\<lparr>t_instances := update_where (\<lambda>r. ir_id r = inst)
         (connection_row (pg_now d) (ec_now ec) status jid reason) (t_instances d)\<rparr>"
      using a unfolding apply_connection_row by (auto elim!: exec_instance_ok)
    obtain q where "sink_event ec ''connection'' inst (subject_connection (ec_codec ec) inst)
        (connection_payload status jid reason) [] (w, e) = (q, w', d')"
      using assms a Inr by (auto simp: on_connection_def) (metis prod.collapse)
    from sink_event_frame [OF this] have f: "events_only e d'"
      "t_events d' = t_events e \<or> (\<exists>stored. t_events d' = t_events e
          @ [event_row_of e (ec_fresh ec) (subject_connection (ec_codec ec) inst) stored])"
      by (auto split: sum.splits)
    show ?thesis
      using f(2) s events_only_fields [OF f(1)] same_tables_fields [OF s(1)] by (auto simp: event_row_of_def)
  qed
qed

definition receipt_known :: "string \<Rightarrow> bool" where
  "receipt_known status \<longleftrightarrow> status \<in> {''delivered'', ''read'', ''played''}"

definition receipt_row :: "string \<Rightarrow> instant \<Rightarrow> instant \<Rightarrow> message_row \<Rightarrow> message_row" where
  "receipt_row status stamp now r = r\<lparr>mr_delivered_at := coalesce (mr_delivered_at r) (Some stamp),
     mr_read_at := (if status \<in> {''read'', ''played''} then coalesce (mr_read_at r) (Some stamp) else mr_read_at r),
     mr_updated := now\<rparr>"

definition receipt_keeps :: "string \<Rightarrow> string list \<Rightarrow> message_row \<Rightarrow> message_row \<Rightarrow> bool" where
  "receipt_keeps status ids r r' \<longleftrightarrow>
     mr_id r' = mr_id r \<and> mr_status r' = mr_status r \<and> mr_whatsapp_id r' = mr_whatsapp_id r
     \<and> (mr_delivered_at r \<noteq> None \<longrightarrow> mr_delivered_at r' = mr_delivered_at r)
     \<and> (mr_read_at r \<noteq> None \<longrightarrow> mr_read_at r' = mr_read_at r)
     \<and> (mr_whatsapp_id r \<notin> Some ` set ids \<or> \<not> receipt_known status \<longrightarrow> r' = r)"

lemma receipt_keeps_refl [simp]: "receipt_keeps status ids r r"
  by (simp add: receipt_keeps_def)

lemma receipt_keeps_trans:
  "receipt_keeps status [i] r r' \<Longrightarrow> receipt_keeps status ids r' r'' \<Longrightarrow> receipt_keeps status (i # ids) r r''"
  by (auto simp: receipt_keeps_def)

lemma receipt_keeps_widen: "receipt_keeps status [i] r r' \<Longrightarrow> receipt_keeps status (i # ids) r r'"
  by (auto simp: receipt_keeps_def)

lemma receipt_row_keeps: "receipt_known status \<Longrightarrow> mr_whatsapp_id r = Some i \<Longrightarrow>
    receipt_keeps status [i] r (receipt_row status stamp now r)"
  by (cases "mr_delivered_at r"; cases "mr_read_at r") (auto simp: receipt_keeps_def receipt_row_def)

lemma receipt_rows_keep:
  "list_all2 (receipt_keeps status [i]) rows
     (update_where (\<lambda>r. mr_whatsapp_id r = Some i \<and> receipt_known status) (receipt_row status stamp now) rows)"
  by (induction rows) (simp_all add: update_where_def receipt_row_keeps)

lemma update_receipt_body:
  "messages_update_receipt i status stamp = pg_run (\<lambda>d.
     (Inr (\<exists>r \<in> set (t_messages d). mr_whatsapp_id r = Some i \<and> receipt_known status),
      d\<lparr>t_messages := update_where (\<lambda>r. mr_whatsapp_id r = Some i \<and> receipt_known status)
         (receipt_row status stamp (pg_now d)) (t_messages d)\<rparr>))"
  by (simp add: messages_update_receipt_def receipt_known_def receipt_row_def [abs_def])

lemma update_receipt_frame:
  assumes "messages_update_receipt i status stamp d = (res, d')"
  shows "list_all2 (receipt_keeps status [i]) (t_messages d) (t_messages d') \<and> t_events d' = t_events d \<and> pg_now d' = pg_now d
    \<and> (res = Inr True \<longrightarrow> receipt_known status \<and> (\<exists>r \<in> set (t_messages d). mr_whatsapp_id r = Some i))"
  using assms unfolding update_receipt_body
proof (rule pg_run_inv, goal_cases)
  case (1 e)
  then show ?case using same_tables_fields(3,7,8) [OF 1] by (simp add: list_all2_same)
next
  case (2 e r e')
  have m: "t_messages e = t_messages d" "t_events e = t_events d" "pg_now e = pg_now d"
    using same_tables_fields(3,7,8) [OF 2(1)] by auto
  have r: "r = Inr (\<exists>x \<in> set (t_messages d). mr_whatsapp_id x = Some i \<and> receipt_known status)"
    "t_messages e' = update_where (\<lambda>r. mr_whatsapp_id r = Some i \<and> receipt_known status)
       (receipt_row status stamp (pg_now d)) (t_messages d)" "t_events e' = t_events d" "pg_now e' = pg_now d"
    using 2(2) unfolding m [symmetric] by auto
  show ?case unfolding r(2,3,4) by (intro conjI receipt_rows_keep) (auto simp: r(1))
qed

lemma receipt_updates_frame:
  assumes "receipt_updates status stamp ids d = (res, d')"
  shows "list_all2 (receipt_keeps status ids) (t_messages d) (t_messages d') \<and> t_events d' = t_events d \<and> pg_now d' = pg_now d
    \<and> (\<forall>hits. res = Inr hits \<longrightarrow> subseq hits ids \<and> (hits \<noteq> [] \<longrightarrow> receipt_known status)
         \<and> (\<forall>i \<in> set hits. \<exists>r \<in> set (t_messages d). mr_whatsapp_id r = Some i))"
  using assms
proof (induction ids arbitrary: d res d')
  case Nil
  then show ?case by (auto simp: list_all2_same)
next
  case (Cons i ids)
  obtain r e where u: "messages_update_receipt i status stamp d = (r, e)" by fastforce
  note f = update_receipt_frame [OF u]
  show ?case
  proof (cases r)
    case (Inl x)
    then have r: "res = Inl x" "d' = e" using Cons.prems u by auto
    have "list_all2 (receipt_keeps status (i # ids)) (t_messages d) (t_messages e)"
      using f by (metis (no_types, lifting) list_all2_mono receipt_keeps_widen)
    then show ?thesis using f unfolding r by simp
  next
    case (Inr hit)
    obtain q e' where v: "receipt_updates status stamp ids e = (q, e')" by fastforce
    note g = Cons.IH [OF v]
    have d': "d' = e'" "\<And>hits. res = Inr hits \<Longrightarrow> \<exists>m. q = Inr m \<and> hits = (if hit then i # m else m)"
      using Cons.prems u v Inr by (auto split: sum.splits)
    have "list_all2 (receipt_keeps status (i # ids)) (t_messages d) (t_messages e')"
      by (rule list_all2_trans [of "receipt_keeps status [i]" "receipt_keeps status ids" _ _ "t_messages e"])
         (use f g in \<open>auto elim: receipt_keeps_trans\<close>)
    moreover have "\<exists>r \<in> set (t_messages d). mr_whatsapp_id r = Some j"
      if "\<exists>r \<in> set (t_messages e). mr_whatsapp_id r = Some j" for j
      using that f by (fastforce simp: list_all2_conv_all_nth in_set_conv_nth receipt_keeps_def)
    moreover have "res = Inr hits \<Longrightarrow> subseq hits (i # ids) \<and> (hits \<noteq> [] \<longrightarrow> receipt_known status)
        \<and> (\<forall>j \<in> set hits. (\<exists>r \<in> set (t_messages e). mr_whatsapp_id r = Some j)
             \<or> (\<exists>r \<in> set (t_messages d). mr_whatsapp_id r = Some j))" for hits
      using d'(2) [of hits] f g Inr by (auto split: if_splits)
    ultimately show ?thesis using f g unfolding d'(1) by (metis (no_types, lifting))
  qed
qed

text \<open>
  Receipts are stamped once. Whatever fails, a receipt changes only messages it names, never the
  status of one, and never an instant already recorded; an event goes out only for a known status
  and when a message was matched.
\<close>

theorem receipts_are_stamped_once:
  assumes "receipts_apply ec rc (w, d) = (res, w', d')"
  shows "list_all2 (receipt_keeps (rc_status rc) (rc_ids rc)) (t_messages d) (t_messages d') \<and>
    (t_events d' = t_events d \<or>
      receipt_known (rc_status rc) \<and> (\<exists>r \<in> set (t_messages d). mr_whatsapp_id r \<in> Some ` set (rc_ids rc)) \<and>
      (\<exists>stored. t_events d' = t_events d
         @ [event_row_of d (ec_fresh ec) (subject_receipt (ec_codec ec) (rc_instance rc)) stored]))"
proof (cases "rc_ids rc = []")
  case True
  then show ?thesis using assms by (auto simp: receipts_apply_def list_all2_same)
next
  case False
  define stamp where "stamp = (if rc_timestamp rc = zero_time then ec_now ec else rc_timestamp rc)"
  obtain q e where u: "receipt_updates (rc_status rc) stamp (rc_ids rc) d = (q, e)" by fastforce
  note f = receipt_updates_frame [OF u]
  show ?thesis
  proof (cases "\<exists>m. q = Inr m \<and> m \<noteq> []")
    case False
    then have "d' = e" using assms u \<open>rc_ids rc \<noteq> []\<close>
      by (auto simp: receipts_apply_def stamp_def [symmetric] Let_def split: sum.splits if_splits)
    then show ?thesis using f by simp
  next
    case True
    then obtain m where m: "q = Inr m" "m \<noteq> []" by auto
    obtain x where s: "sink_event ec ''receipt'' (rc_instance rc) (subject_receipt (ec_codec ec) (rc_instance rc))
        (receipt_payload (ec_json ec) m (rc_status rc) (rc_chat rc) stamp) (rc_raw rc) (w, e) = (x, w', d')"
      using assms u m \<open>rc_ids rc \<noteq> []\<close>
      by (auto simp: receipts_apply_def stamp_def [symmetric] Let_def split: sum.splits prod.splits)
    obtain i where "i \<in> set m" using m(2) by (cases m) auto
    moreover have "set m \<subseteq> set (rc_ids rc)" using f m(1) by (auto dest: list_emb_set)
    ultimately have hit: "\<exists>r \<in> set (t_messages d). mr_whatsapp_id r \<in> Some ` set (rc_ids rc)"
      using f m(1) by fastforce
    have now: "pg_now e = pg_now d" using f by simp
    show ?thesis
      using sink_event_frame [OF s] f m hit now events_only_fields [of e d']
      by (auto simp: event_row_of_def split: sum.splits)
  qed
qed

lemma media_create_events: "media_create m d = (res, d') \<Longrightarrow> t_events d' = t_events d \<and> pg_jsonb d' = pg_jsonb d"
  unfolding media_create_def by (erule pg_run_inv) (auto simp: same_tables_fields Let_def split: if_splits)

lemma attach_media_frame:
  assumes "attach_media ec storage msg w = ((att, err), w')"
  shows "t_events (mw_db w') = t_events (mw_db w) \<and> pg_jsonb (mw_db w') = pg_jsonb (mw_db w)
    \<and> att \<noteq> NoMedia \<and> (err \<noteq> None \<longrightarrow> (\<exists>why. att = MediaOmitted why))
    \<and> (\<forall>m. att = MediaStored m \<longrightarrow> md_size m \<le> ec_raw_limit ec \<and> md_mimetype m = ib_mime msg
         \<and> (\<exists>data. ib_download msg = Some (Inr data) \<and> md_size m = int (length data)))"
proof (cases "ib_length msg \<le> ec_raw_limit ec \<and> (\<exists>data sc fresh tmp. ib_download msg = Some (Inr data)
    \<and> storage = Some (sc, fresh, tmp) \<and> int (length data) \<le> ec_raw_limit ec)")
  case False
  then show ?thesis using assms
    by (auto simp: attach_media_def split: if_splits option.splits sum.splits prod.splits)
next
  case True
  then obtain data sc fresh tmp where t: "ib_download msg = Some (Inr data)" "storage = Some (sc, fresh, tmp)"
    "int (length data) \<le> ec_raw_limit ec" "ib_length msg \<le> ec_raw_limit ec" by blast
  obtain r v where s: "media_save sc fresh tmp (ec_now ec) (ib_instance msg) ''inbound'' (ib_id msg)
      (ib_mime msg) (ib_filename msg) data w = (r, v)" by fastforce
  have ev: "t_events (mw_db v) = t_events (mw_db w) \<and> pg_jsonb (mw_db v) = pg_jsonb (mw_db w)"
    using s by (auto simp: media_save_def Let_def split: if_splits prod.splits bool.splits sum.splits
        dest!: media_create_events)
  have m: "md_size m = int (length data) \<and> md_mimetype m = ib_mime msg" if "r = Inr m" for m
    using s that by (auto simp: media_save_def Let_def scan_media_def media_row_of_def
        split: if_splits prod.splits bool.splits sum.splits dest!: media_create_row)
  show ?thesis using assms t s ev m by (cases r) (auto simp: attach_media_def)
qed

text \<open>
  Whatever happens to the media of a received message, the message is announced. Unless the event
  itself could not be built or stored, exactly one event was enqueued, whose payload has the message
  and, if it came with media, either the stored file, within the size limit, or the reason it is
  missing; a failure to store the media is reported after that.
\<close>

theorem inbound_messages_survive_their_media:
  assumes "handle_inbound ec public_url storage msg (wk, w) = (res, wk', w')"
  shows "case res of
      Inl (InboundSink e) \<Rightarrow> t_events (mw_db w') = t_events (mw_db w)
    | _ \<Rightarrow> \<exists>att env ev data stored.
        new_envelope (ec_fresh ec) (ec_now ec) ''message'' (ib_instance msg)
          (jl_encode (ec_json ec) (message_payload ec public_url msg att)) = Some env
        \<and> jc_encode (ec_codec ec) (env\<lparr>en_event := ev\<rparr>) = Some data \<and> pg_jsonb (mw_db w) data = Some stored
        \<and> t_events (mw_db w') = t_events (mw_db w)
            @ [event_row_of (mw_db w') (ec_fresh ec) (subject_message (ec_codec ec) (ib_instance msg)) stored]
        \<and> (ib_media msg \<longleftrightarrow> att \<noteq> NoMedia)
        \<and> (res \<noteq> Inr () \<longrightarrow> (\<exists>why. att = MediaOmitted why))
        \<and> (\<forall>m. att = MediaStored m \<longrightarrow> md_size m \<le> ec_raw_limit ec \<and>
             (\<exists>data. ib_download msg = Some (Inr data) \<and> md_size m = int (length data)))"
proof -
  obtain att err v where a: "(if ib_media msg then attach_media ec storage msg w else ((NoMedia, None), w)) = ((att, err), v)"
    by (metis prod.collapse)
  obtain q k d where s: "sink_event ec ''message'' (ib_instance msg) (subject_message (ec_codec ec) (ib_instance msg))
      (message_payload ec public_url msg att) (ib_raw msg) (wk, mw_db v) = (q, k, d)"
    by (metis prod.collapse)
  have att: "t_events (mw_db v) = t_events (mw_db w) \<and> pg_jsonb (mw_db v) = pg_jsonb (mw_db w)
    \<and> (ib_media msg \<longleftrightarrow> att \<noteq> NoMedia) \<and> (err \<noteq> None \<longrightarrow> (\<exists>why. att = MediaOmitted why))
    \<and> (\<forall>m. att = MediaStored m \<longrightarrow> md_size m \<le> ec_raw_limit ec
         \<and> (\<exists>data. ib_download msg = Some (Inr data) \<and> md_size m = int (length data)))"
    using a attach_media_frame [of ec storage msg w att err v] by (cases "ib_media msg") auto
  note f = sink_event_frame [OF s]
  have "(res, wk', w') = (case q of Inl e \<Rightarrow> (Inl (InboundSink e), k, v\<lparr>mw_db := d\<rparr>)
      | Inr _ \<Rightarrow> (case err of None \<Rightarrow> Inr () | Some e \<Rightarrow> Inl (InboundMedia e), k, v\<lparr>mw_db := d\<rparr>))"
    unfolding assms [symmetric] by (simp add: handle_inbound_def a s split: sum.split)
  then have w': "mw_db w' = d"
    and res: "res = (case q of Inl e \<Rightarrow> Inl (InboundSink e)
        | Inr _ \<Rightarrow> (case err of None \<Rightarrow> Inr () | Some e \<Rightarrow> Inl (InboundMedia e)))"
    by (simp_all split: sum.splits)
  show ?thesis
  proof (cases q)
    case (Inl e)
    then show ?thesis using f att by (simp add: res w')
  next
    case (Inr u)
    then have res: "res = (case err of None \<Rightarrow> Inr () | Some e \<Rightarrow> Inl (InboundMedia e))"
      by (simp add: res)
    have now: "event_row_of (mw_db v) i sb st = event_row_of (mw_db w') i sb st" for i sb st
      using events_only_fields(7) [of "mw_db v" d] f by (simp add: event_row_of_def w')
    let ?sent = "\<lambda>env ev data stored.
      new_envelope (ec_fresh ec) (ec_now ec) ''message'' (ib_instance msg)
          (jl_encode (ec_json ec) (message_payload ec public_url msg att)) = Some env
      \<and> jc_encode (ec_codec ec) (env\<lparr>en_event := ev\<rparr>) = Some data \<and> pg_jsonb (mw_db w) data = Some stored
      \<and> t_events (mw_db w') = t_events (mw_db w)
            @ [event_row_of (mw_db w') (ec_fresh ec) (subject_message (ec_codec ec) (ib_instance msg)) stored]"
    have sent: "\<exists>env ev data stored. ?sent env ev data stored"
      using f unfolding Inr w' [symmetric] by (simp add: now att)
    then obtain env ev data stored where e: "?sent env ev data stored" by blast
    have out: "case res of Inl (InboundSink e) \<Rightarrow> X | _ \<Rightarrow> Y" if Y for X Y
      using that res by (cases err) simp_all
    have "res \<noteq> Inr () \<longrightarrow> (\<exists>why. att = MediaOmitted why)" using att res by (cases err) auto
    then show ?thesis using e att by (intro out exI conjI) blast+
  qed
qed

section \<open>Witnesses\<close>

definition sample_context :: event_context where
  "sample_context = \<lparr>ec_codec = \<lparr>jc_encode = (\<lambda>env. Some (en_payload env)), jc_decode = (\<lambda>_. None), jc_show_id = (\<lambda>_. ''one'')\<rparr>,
     ec_json = \<lparr>jl_decode = (\<lambda>_. None), jl_encode = (\<lambda>_. Some ''p''), jl_number = (\<lambda>_. ''3''), jl_time = (\<lambda>_. ''t'')\<rparr>,
     ec_fresh = 9, ec_now = 5, ec_raw_limit = 100\<rparr>"

definition sample_receipt :: receipt where
  "sample_receipt = \<lparr>rc_instance = 1, rc_ids = [''wa''], rc_chat = [], rc_status = ''read'', rc_timestamp = 4, rc_raw = []\<rparr>"

definition sample_inbound :: inbound_message where
  "sample_inbound = \<lparr>ib_instance = 1, ib_id = ''m'', ib_chat = ''c'', ib_sender = ''s'', ib_group = False, ib_type = ''text'',
     ib_text = ''hi'', ib_timestamp = 4, ib_media = True, ib_mime = ''image/png'', ib_filename = [], ib_length = 500,
     ib_download = None, ib_raw = []\<rparr>"

lemmas sample_sink_defs = sample_context_def sample_receipt_def sample_inbound_def sample_defs

theorem connection_changes_are_persisted_first_witness:
  "\<exists>w' d'. on_connection sample_context 1 ''error'' [] ''why'' (new_worker, sample_db) = (w', d')
     \<and> map ir_status (t_instances d') = [''error''] \<and> map ir_jid (t_instances d') = map ir_jid (t_instances sample_db)"
proof -
  obtain w' d' where r: "on_connection sample_context 1 ''error'' [] ''why'' (new_worker, sample_db) = (w', d')"
    by fastforce
  have "length (wk_queue w') = 1"
    using r by (auto simp: on_connection_def apply_connection_def instances_set_connection_state_def exec_instance_def
        sink_event_def sample_sink_defs new_envelope_def cut_raw_for_limit_def fanout_write_def outbox_write_def
        events_enqueue_def dispatch_def new_worker_def buffer_size_def Let_def zero_time_def)
  then have "w' \<noteq> new_worker" by (auto simp: new_worker_def)
  then show ?thesis
    using connection_changes_are_persisted_first [OF r] r
    by (auto simp: connection_row_def update_where_def sample_defs nullif_empty_def)
qed

theorem receipts_are_stamped_once_witness:
  "\<exists>d'. snd (snd (receipts_apply sample_context sample_receipt (new_worker,
       sample_db\<lparr>t_messages := [sample_message\<lparr>mr_whatsapp_id := Some ''wa'', mr_delivered_at := Some 1\<rparr>]\<rparr>))) = d'
     \<and> map mr_delivered_at (t_messages d') = [Some 1] \<and> map mr_status (t_messages d') = [''queued'']"
proof -
  let ?d = "sample_db\<lparr>t_messages := [sample_message\<lparr>mr_whatsapp_id := Some ''wa'', mr_delivered_at := Some 1\<rparr>]\<rparr>"
  obtain res w' d' where r: "receipts_apply sample_context sample_receipt (new_worker, ?d) = (res, w', d')"
    by (metis prod.collapse)
  from receipts_are_stamped_once [OF r] r show ?thesis
    by (auto simp: list_all2_Cons1 receipt_keeps_def sample_message_def)
qed

theorem inbound_messages_survive_their_media_witness:
  "\<exists>res wk' w'. handle_inbound sample_context ''u'' None sample_inbound (new_worker, sample_media_world\<lparr>mw_db := sample_db\<rparr>) = (res, wk', w')
     \<and> res = Inr () \<and> length (t_events (mw_db w')) = 1"
proof -
  obtain res wk' w' where r: "handle_inbound sample_context ''u'' None sample_inbound
      (new_worker, sample_media_world\<lparr>mw_db := sample_db\<rparr>) = (res, wk', w')"
    by (metis prod.collapse)
  have res: "res = Inr ()"
    using r by (auto simp: handle_inbound_def attach_media_def sink_event_def sample_sink_defs new_envelope_def
        cut_raw_for_limit_def fanout_write_def outbox_write_def events_enqueue_def Let_def)
  show ?thesis
    using inbound_messages_survive_their_media [OF r] r res by (auto simp: sample_media_world_def sample_db_def)
qed

end
