(* ===== verification/BoundedFile.thy ===== *)
theory BoundedFile
  imports Prelude
begin

text \<open>
  The download buffer of received media, \<^verbatim>\<open>internal/session/whatsmeow/media.go\<close>: an in-memory file that
  caps its content and its capacity. A slice is its backing array and a length, so that bytes cut off
  by a truncation are still in the array; offsets are 64 bit and wrap. The library that downloads is the
  sequence of calls it makes.
\<close>

section \<open>The file\<close>

datatype file_err = FileEof | FileTooLarge | FileNegativeOffset | FileInvalidWhence | FileNegativePosition
  | FileNegativeSize | FilePanic

record bounded_file =
  bf_array :: string
  bf_len :: int
  bf_off :: int
  bf_limit :: int

definition new_bounded_file :: "int \<Rightarrow> bounded_file" where
  "new_bounded_file limit = \<lparr>bf_array = [], bf_len = 0, bf_off = 0, bf_limit = limit\<rparr>"

definition bf_bytes :: "bounded_file \<Rightarrow> string" where
  "bf_bytes f = take (nat (bf_len f)) (bf_array f)"

definition bf_cap :: "bounded_file \<Rightarrow> int" where
  "bf_cap f = int (length (bf_array f))"

definition bf_read :: "nat \<Rightarrow> bounded_file \<Rightarrow> (file_err + string) \<times> bounded_file" where
  "bf_read n f =
     (if bf_off f \<ge> bf_len f then (Inl FileEof, f)
      else if bf_off f < 0 then (Inl FilePanic, f)
      else (let chunk = take n (drop (nat (bf_off f)) (bf_bytes f))
            in (Inr chunk, f\<lparr>bf_off := wrap64 (bf_off f + int (length chunk))\<rparr>)))"

definition bf_grow :: "int \<Rightarrow> bounded_file \<Rightarrow> bounded_file" where
  "bf_grow sz f =
     (if bf_len f \<ge> sz then f
      else if bf_cap f \<ge> sz then f\<lparr>bf_len := sz\<rparr>
      else (let doubled = wrap64 (bf_cap f * 2);
                room = (if doubled < sz then sz else doubled);
                room = (if room > bf_limit f then bf_limit f else room)
            in f\<lparr>bf_array := bf_bytes f @ replicate (nat (room - bf_len f)) CHR 0x00, bf_len := sz\<rparr>))"

definition overwrite :: "int \<Rightarrow> string \<Rightarrow> string \<Rightarrow> string" where
  "overwrite off p s = take (nat off) s @ p @ drop (nat off + length p) s"

text \<open>The slice expression \<^verbatim>\<open>data[off:end]\<close> panics unless \<open>off \<le> end\<close>.\<close>

definition bf_put :: "int \<Rightarrow> string \<Rightarrow> bounded_file \<Rightarrow> (file_err + int) \<times> bounded_file" where
  "bf_put off p f =
     (let stop = wrap64 (off + int (length p)) in
      if stop > bf_limit f then (Inl FileTooLarge, f)
      else (let f = bf_grow stop f in
            if off > stop then (Inl FilePanic, f)
            else (Inr stop, f\<lparr>bf_array := overwrite off p (bf_array f)\<rparr>)))"

definition bf_write :: "string \<Rightarrow> bounded_file \<Rightarrow> (file_err + nat) \<times> bounded_file" where
  "bf_write p f =
     (if bf_off f < 0 then (Inl FileNegativeOffset, f)
      else case bf_put (bf_off f) p f of
        (Inl e, f) \<Rightarrow> (Inl e, f)
      | (Inr stop, f) \<Rightarrow> (Inr (length p), f\<lparr>bf_off := stop\<rparr>))"

definition bf_read_at :: "nat \<Rightarrow> int \<Rightarrow> bounded_file \<Rightarrow> file_err option \<times> string" where
  "bf_read_at n off f =
     (if off < 0 then (Some FileNegativeOffset, [])
      else if off \<ge> bf_len f then (Some FileEof, [])
      else (let chunk = take n (drop (nat off) (bf_bytes f))
            in (if length chunk < n then Some FileEof else None, chunk)))"

definition bf_write_at :: "string \<Rightarrow> int \<Rightarrow> bounded_file \<Rightarrow> (file_err + nat) \<times> bounded_file" where
  "bf_write_at p off f =
     (if off < 0 then (Inl FileNegativeOffset, f)
      else case bf_put off p f of
        (Inl e, f) \<Rightarrow> (Inl e, f)
      | (Inr _, f) \<Rightarrow> (Inr (length p), f))"

datatype whence = SeekStart | SeekCurrent | SeekEnd | SeekOther

definition bf_seek :: "int \<Rightarrow> whence \<Rightarrow> bounded_file \<Rightarrow> (file_err + int) \<times> bounded_file" where
  "bf_seek offset wh f =
     (let position = (case wh of SeekStart \<Rightarrow> Some offset | SeekCurrent \<Rightarrow> Some (wrap64 (bf_off f + offset))
                      | SeekEnd \<Rightarrow> Some (wrap64 (bf_len f + offset)) | SeekOther \<Rightarrow> None)
      in case position of
           None \<Rightarrow> (Inl FileInvalidWhence, f)
         | Some pos \<Rightarrow> if pos < 0 then (Inl FileNegativePosition, f) else (Inr pos, f\<lparr>bf_off := pos\<rparr>))"

definition bf_truncate :: "int \<Rightarrow> bounded_file \<Rightarrow> (file_err + unit) \<times> bounded_file" where
  "bf_truncate sz f =
     (if sz < 0 then (Inl FileNegativeSize, f)
      else if sz > bf_limit f then (Inl FileTooLarge, f)
      else (let f = (if sz > bf_len f then bf_grow sz f else f\<lparr>bf_len := sz\<rparr>)
            in (Inr (), if bf_off f > sz then f\<lparr>bf_off := sz\<rparr> else f)))"

definition bf_stat :: "bounded_file \<Rightarrow> int" where
  "bf_stat f = bf_len f"

section \<open>Downloads\<close>

datatype file_call = CallWrite string | CallWriteAt string int | CallRead nat | CallReadAt nat int
  | CallSeek int whence | CallTruncate int

fun file_step :: "file_call \<Rightarrow> bounded_file \<Rightarrow> bounded_file" where
  "file_step (CallWrite p) f = snd (bf_write p f)"
| "file_step (CallWriteAt p off) f = snd (bf_write_at p off f)"
| "file_step (CallRead n) f = snd (bf_read n f)"
| "file_step (CallReadAt n off) f = f"
| "file_step (CallSeek offset wh) f = snd (bf_seek offset wh f)"
| "file_step (CallTruncate sz) f = snd (bf_truncate sz f)"

definition max_int64 :: int where "max_int64 = 2 ^ 63 - 1"

definition download_limited :: "int \<Rightarrow> file_call list \<Rightarrow> bool \<Rightarrow> string option" where
  "download_limited max_bytes calls failed =
     (let limit = (if max_bytes = max_int64 then max_bytes else max_bytes + 1);
          f = fold file_step calls (new_bounded_file limit)
      in if failed then None else Some (bf_bytes f))"

section \<open>The bound\<close>

text \<open>A Go slice has fewer than \<open>2^63\<close> bytes.\<close>

definition slice :: "string \<Rightarrow> bool" where
  "slice p \<longleftrightarrow> int (length p) \<le> max_int64"

fun call_ok :: "file_call \<Rightarrow> bool" where
  "call_ok (CallWrite p) = slice p"
| "call_ok (CallWriteAt p off) \<longleftrightarrow> slice p \<and> int64 off"
| "call_ok (CallSeek offset wh) = int64 offset"
| "call_ok _ = True"

definition file_ok :: "bounded_file \<Rightarrow> bool" where
  "file_ok f \<longleftrightarrow> 0 \<le> bf_len f \<and> bf_len f \<le> bf_cap f \<and> bf_cap f \<le> bf_limit f \<and> 0 \<le> bf_off f
     \<and> bf_off f \<le> max_int64 \<and> bf_limit f \<le> max_int64"

lemma file_okD:
  assumes "file_ok f"
  shows "0 \<le> bf_len f" "bf_len f \<le> bf_cap f" "bf_cap f \<le> bf_limit f" "0 \<le> bf_off f" "bf_limit f \<le> max_int64"
    "bf_off f \<le> max_int64"
  using assms by (auto simp: file_ok_def)

lemma bf_bytes_length: "file_ok f \<Longrightarrow> int (length (bf_bytes f)) = bf_len f"
  by (auto simp: file_ok_def bf_bytes_def bf_cap_def min_def)

lemma bf_grow_ok:
  assumes "file_ok f" "sz \<le> bf_limit f"
  shows "file_ok (bf_grow sz f)" "bf_limit (bf_grow sz f) = bf_limit f"
    "bf_len (bf_grow sz f) = max (bf_len f) sz" "bf_off (bf_grow sz f) = bf_off f"
  using assms bf_bytes_length [OF assms(1)] by (auto simp: file_ok_def bf_grow_def bf_cap_def Let_def max_def)

lemma wrap64_sum:
  assumes "0 \<le> a" "a \<le> max_int64" "0 \<le> b" "b \<le> max_int64"
  shows "wrap64 (a + b) = (if a + b \<le> max_int64 then a + b else a + b - 2 ^ 64)"
proof -
  have "wrap64 (a + b) = a + b - 2 ^ 64" if "\<not> a + b \<le> max_int64"
  proof -
    have "(a + b + 2 ^ 63) mod 2 ^ 64 = (a + b + 2 ^ 63 - 2 ^ 64) mod 2 ^ 64"
      by (simp only: minus_mod_self2)
    also have "\<dots> = a + b + 2 ^ 63 - 2 ^ 64"
      using that assms by (intro mod_pos_pos_trivial) (simp_all add: max_int64_def)
    finally show ?thesis by (simp add: wrap64_def)
  qed
  then show ?thesis using assms wrap64_id [of "a + b"] by (simp add: int64_def max_int64_def)
qed

text \<open>
  A write that is neither refused nor panics covers \<open>off\<close> to \<open>off + length p\<close>, within the limit; a wrapped
  end is before its offset.
\<close>

lemma bf_put_cases:
  assumes f: "file_ok f" and off: "0 \<le> off" "off \<le> max_int64" and p: "slice p"
  obtains (refused) "bf_put off p f = (Inl FileTooLarge, f)" "off + int (length p) > bf_limit f"
    | (panics) "bf_put off p f = (Inl FilePanic, f)" "off + int (length p) > max_int64"
    | (written) g where "off + int (length p) \<le> bf_limit f" "g = bf_grow (off + int (length p)) f" "file_ok g"
        "bf_put off p f = (Inr (off + int (length p)), g\<lparr>bf_array := overwrite off p (bf_array g)\<rparr>)"
proof -
  let ?stop = "off + int (length p)"
  have w: "wrap64 ?stop = (if ?stop \<le> max_int64 then ?stop else ?stop - 2 ^ 64)"
    using off p by (intro wrap64_sum) (simp_all add: slice_def)
  show thesis
  proof (cases "?stop \<le> max_int64")
    case True
    show thesis
    proof (cases "?stop \<le> bf_limit f")
      case True
      with w \<open>?stop \<le> max_int64\<close> show thesis
        by (intro written [of "bf_grow ?stop f"] bf_grow_ok(1) [OF f]) (simp_all add: bf_put_def Let_def)
    qed (use w True refused in \<open>simp add: bf_put_def Let_def\<close>)
  next
    case False
    have neg: "wrap64 ?stop < 0" using w False off p by (simp add: slice_def max_int64_def)
    then have "bf_grow (wrap64 ?stop) f = f" "\<not> wrap64 ?stop > bf_limit f" "off > wrap64 ?stop"
      using file_okD [OF f] off by (auto simp: bf_grow_def)
    with False show thesis by (intro panics) (simp_all add: bf_put_def Let_def)
  qed
qed

lemma overwrite_length:
  "0 \<le> off \<Longrightarrow> off + int (length p) \<le> int (length s) \<Longrightarrow> length (overwrite off p s) = length s"
  by (auto simp: overwrite_def)

lemma bf_put_ok:
  assumes "file_ok f" "0 \<le> off" "off \<le> max_int64" "slice p" "bf_put off p f = (r, f')"
  shows "file_ok f' \<and> bf_limit f' = bf_limit f \<and> (\<forall>stop. r = Inr stop \<longrightarrow> off \<le> stop \<and> stop \<le> bf_limit f)"
  using assms(1-4)
proof (cases rule: bf_put_cases)
  case (written g)
  note g = bf_grow_ok [OF assms(1) written(1)]
  have "off + int (length p) \<le> int (length (bf_array g))"
    using file_okD [OF written(3)] g by (simp add: written(2) bf_cap_def)
  then have "bf_cap (g\<lparr>bf_array := overwrite off p (bf_array g)\<rparr>) = bf_cap g"
    using assms(2) by (simp add: bf_cap_def overwrite_length)
  then have "file_ok (g\<lparr>bf_array := overwrite off p (bf_array g)\<rparr>)"
    using written(3) by (simp add: file_ok_def)
  then show ?thesis using written assms(5) g by auto
qed (use assms in auto)

lemma int64_max: "int64 x \<longleftrightarrow> - max_int64 - 1 \<le> x \<and> x \<le> max_int64"
  by (auto simp: int64_def max_int64_def)

lemma file_ok_off: "file_ok f \<Longrightarrow> 0 \<le> x \<Longrightarrow> x \<le> max_int64 \<Longrightarrow> file_ok (f\<lparr>bf_off := x\<rparr>)"
  by (simp add: file_ok_def bf_cap_def)

lemma bf_write_ok:
  assumes "file_ok f" "slice p" shows "file_ok (snd (bf_write p f)) \<and> bf_limit (snd (bf_write p f)) = bf_limit f"
proof -
  note o = file_okD [OF assms(1)]
  obtain r g where p: "bf_put (bf_off f) p f = (r, g)" by fastforce
  note g = bf_put_ok [OF assms(1) o(4) o(6) assms(2) p]
  show ?thesis
  proof (cases r)
    case (Inr stop)
    then have "0 \<le> stop" "stop \<le> max_int64" using g o by auto
    then show ?thesis using g o Inr p by (simp add: bf_write_def file_ok_off)
  qed (use g o p in \<open>auto simp: bf_write_def\<close>)
qed

lemma bf_write_at_ok:
  assumes "file_ok f" "slice p" "int64 off"
  shows "file_ok (snd (bf_write_at p off f)) \<and> bf_limit (snd (bf_write_at p off f)) = bf_limit f"
proof (cases "off < 0")
  case True
  then show ?thesis using assms by (simp add: bf_write_at_def)
next
  case False
  obtain r g where p: "bf_put off p f = (r, g)" by fastforce
  have "file_ok g \<and> bf_limit g = bf_limit f"
    using bf_put_ok [OF assms(1) _ _ assms(2) p] False assms(3) by (simp add: int64_max)
  then show ?thesis using p False by (cases r) (simp_all add: bf_write_at_def)
qed

lemma bf_read_ok: "file_ok f \<Longrightarrow> file_ok (snd (bf_read n f)) \<and> bf_limit (snd (bf_read n f)) = bf_limit f"
proof (cases "bf_off f \<ge> bf_len f")
  case False
  assume f: "file_ok f"
  let ?k = "int (length (take n (drop (nat (bf_off f)) (bf_bytes f))))"
  have k: "bf_off f + ?k \<le> bf_len f" using False bf_bytes_length [OF f] file_okD [OF f] by auto
  moreover have "wrap64 (bf_off f + ?k) = bf_off f + ?k"
    using k file_okD [OF f] by (intro wrap64_id) (simp add: int64_max)
  ultimately have "file_ok (f\<lparr>bf_off := wrap64 (bf_off f + ?k)\<rparr>)"
    using file_okD [OF f] by (intro file_ok_off [OF f]) simp_all
  then show ?thesis using False file_okD [OF f] by (simp add: bf_read_def Let_def)
qed (simp add: bf_read_def)

lemma bf_seek_ok:
  assumes "file_ok f" "int64 offset"
  shows "file_ok (snd (bf_seek offset wh f)) \<and> bf_limit (snd (bf_seek offset wh f)) = bf_limit f"
  using assms wrap64_range [of "bf_off f + offset"] wrap64_range [of "bf_len f + offset"]
  by (cases wh) (auto simp: bf_seek_def Let_def int64_max intro!: file_ok_off)

lemma bf_truncate_ok:
  assumes "file_ok f" shows "file_ok (snd (bf_truncate sz f)) \<and> bf_limit (snd (bf_truncate sz f)) = bf_limit f"
proof (cases "0 \<le> sz \<and> sz \<le> bf_limit f")
  case True
  let ?g = "if sz > bf_len f then bf_grow sz f else f\<lparr>bf_len := sz\<rparr>"
  have "file_ok ?g \<and> bf_limit ?g = bf_limit f"
    using bf_grow_ok [OF assms, of sz] True assms by (auto simp: file_ok_def bf_cap_def)
  then show ?thesis
    using True file_okD [OF assms] by (auto simp: bf_truncate_def Let_def intro!: file_ok_off)
qed (use assms in \<open>auto simp: bf_truncate_def\<close>)

lemma file_step_ok: "file_ok f \<Longrightarrow> call_ok c \<Longrightarrow> file_ok (file_step c f) \<and> bf_limit (file_step c f) = bf_limit f"
  by (cases c) (simp_all add: bf_write_ok bf_write_at_ok bf_read_ok bf_seek_ok bf_truncate_ok)

lemma file_steps_ok:
  "file_ok f \<Longrightarrow> \<forall>c \<in> set cs. call_ok c \<Longrightarrow> file_ok (fold file_step cs f) \<and> bf_limit (fold file_step cs f) = bf_limit f"
  by (induction cs arbitrary: f) (simp_all add: file_step_ok)

lemma new_bounded_file_ok: "0 \<le> limit \<Longrightarrow> limit \<le> max_int64 \<Longrightarrow> file_ok (new_bounded_file limit)"
  by (simp add: file_ok_def new_bounded_file_def bf_cap_def max_int64_def)

text \<open>
  Whatever the download pipeline calls, in whatever order, the buffer never holds nor reserves more
  than one byte over the media limit, so a download hands on at most that.
\<close>

theorem downloads_stay_within_the_limit:
  assumes "0 \<le> max_bytes" "max_bytes \<le> max_int64" "\<forall>c \<in> set calls. call_ok c"
    and "limit = (if max_bytes = max_int64 then max_bytes else max_bytes + 1)"
  shows "bf_cap (fold file_step calls (new_bounded_file limit)) \<le> max_bytes + 1
    \<and> (\<forall>data. download_limited max_bytes calls failed = Some data \<longrightarrow> int (length data) \<le> max_bytes + 1)"
proof -
  let ?f = "fold file_step calls (new_bounded_file limit)"
  have ok: "file_ok ?f \<and> bf_limit ?f = limit"
    using file_steps_ok [OF new_bounded_file_ok assms(3), of limit] assms
    by (auto simp: new_bounded_file_def)
  then have "int (length (bf_bytes ?f)) \<le> max_bytes + 1" "bf_cap ?f \<le> max_bytes + 1"
    using file_okD [of ?f] bf_bytes_length [of ?f] assms(4) by (auto split: if_splits)
  then show ?thesis by (auto simp: download_limited_def Let_def assms(4))
qed

theorem downloads_stay_within_the_limit_witness:
  "download_limited 3 [CallWrite ''abc'', CallWrite ''de'', CallWrite ''d''] False = Some ''abcd''
    \<and> bf_cap (fold file_step [CallWrite ''abc'', CallWrite ''de'', CallWrite ''d''] (new_bounded_file 4)) \<le> 4"
proof (rule conjI)
  show "download_limited 3 [CallWrite ''abc'', CallWrite ''de'', CallWrite ''d''] False = Some ''abcd''"
    by code_simp
  show "bf_cap (fold file_step [CallWrite ''abc'', CallWrite ''de'', CallWrite ''d''] (new_bounded_file 4)) \<le> 4"
    using downloads_stay_within_the_limit [of 3 "[CallWrite ''abc'', CallWrite ''de'', CallWrite ''d'']" 4 False]
    by (simp add: slice_def max_int64_def)
qed

section \<open>A plain file\<close>

text \<open>
  The reference: a content and a position, on which the calls act as on a file of the operating system.
  A write past the end leaves zero bytes between.
\<close>

type_synonym plain_file = "string \<times> int"

definition plain_put :: "int \<Rightarrow> string \<Rightarrow> string \<Rightarrow> string" where
  "plain_put off p s = overwrite off p (s @ replicate (nat off - length s) CHR 0x00)"

fun plain_step :: "file_call \<Rightarrow> plain_file \<Rightarrow> plain_file" where
  "plain_step (CallWrite p) (s, pos) = (plain_put pos p s, pos + int (length p))"
| "plain_step (CallWriteAt p off) (s, pos) = (plain_put off p s, pos)"
| "plain_step (CallRead n) (s, pos) = (s, pos + int (length (take n (drop (nat pos) s))))"
| "plain_step (CallReadAt n off) (s, pos) = (s, pos)"
| "plain_step (CallSeek offset wh) (s, pos) =
     (s, let to = (case wh of SeekStart \<Rightarrow> offset | SeekCurrent \<Rightarrow> pos + offset
                   | SeekEnd \<Rightarrow> int (length s) + offset | SeekOther \<Rightarrow> -1)
         in if to < 0 then pos else to)"
| "plain_step (CallTruncate sz) (s, pos) =
     (take (nat sz) s, if pos > sz then sz else pos)"

text \<open>
  Calls the pipeline makes: writes that start within the content and stay within the limit, positions
  that do not overflow, truncations that do not extend.
\<close>

fun within_content :: "int \<Rightarrow> file_call \<Rightarrow> plain_file \<Rightarrow> bool" where
  "within_content limit (CallWrite p) (s, pos) \<longleftrightarrow> pos \<le> int (length s) \<and> pos + int (length p) \<le> limit"
| "within_content limit (CallWriteAt p off) (s, pos) \<longleftrightarrow>
     0 \<le> off \<and> off \<le> int (length s) \<and> off + int (length p) \<le> limit"
| "within_content limit (CallSeek offset wh) (s, pos) \<longleftrightarrow>
     int64 offset \<and> pos + offset \<le> max_int64 \<and> int (length s) + offset \<le> max_int64"
| "within_content limit (CallTruncate sz) (s, pos) \<longleftrightarrow> 0 \<le> sz \<and> sz \<le> int (length s)"
| "within_content limit _ _ = True"

fun plain_run :: "int \<Rightarrow> file_call list \<Rightarrow> plain_file \<Rightarrow> bool" where
  "plain_run limit [] s = True"
| "plain_run limit (c # cs) s \<longleftrightarrow> within_content limit c s \<and> plain_run limit cs (plain_step c s)"

definition bf_view :: "bounded_file \<Rightarrow> plain_file" where
  "bf_view f = (bf_bytes f, bf_off f)"

lemma bf_grow_bytes:
  assumes "file_ok f" "sz \<le> bf_limit f"
  shows "take (nat (bf_len f)) (bf_array (bf_grow sz f)) = bf_bytes f"
  using file_okD [OF assms(1)] by (auto simp: bf_grow_def bf_bytes_def Let_def bf_cap_def min_def)

lemma overwrite_take:
  assumes "0 \<le> off" "nat off \<le> n" "n \<le> length xs" "m = max n (nat off + length p)" "m \<le> length xs"
  shows "take m (overwrite off p xs) = overwrite off p (take n xs)"
proof (cases "nat off + length p \<le> n")
  case True
  then have "m = n" using assms(4) by simp
  moreover have "n \<le> nat off \<Longrightarrow> n = nat off" "n \<le> nat off \<Longrightarrow> length p = 0"
    using True assms(2) by linarith+
  ultimately show ?thesis using True assms by (auto simp: overwrite_def drop_take min_def)
next
  case False
  then have "m = nat off + length p" using assms(4) by simp
  then show ?thesis using False assms by (simp add: overwrite_def min_def)
qed

lemma bf_put_view:
  assumes f: "file_ok f" and off: "0 \<le> off" "off \<le> bf_len f" and fits: "off + int (length p) \<le> bf_limit f"
  shows "\<exists>g. bf_put off p f = (Inr (off + int (length p)), g) \<and> bf_bytes g = plain_put off p (bf_bytes f)
     \<and> bf_off g = bf_off f"
proof -
  note o = file_okD [OF f]
  have s: "slice p" "off \<le> max_int64" using off fits o by (auto simp: slice_def)
  from f off(1) s(2,1) show ?thesis
  proof (cases rule: bf_put_cases)
    case (written g)
    let ?n = "nat (bf_len f)" and ?m = "nat (bf_len g)"
    have m: "?m = max ?n (nat off + length p)"
      using bf_grow_ok(3) [OF f written(1)] off o(1) by (auto simp: written(2) max_def)
    have "take ?m (overwrite off p (bf_array g)) = overwrite off p (take ?n (bf_array g))"
      using off file_okD [OF written(3)] m by (intro overwrite_take) (auto simp: bf_cap_def)
    also have "take ?n (bf_array g) = bf_bytes f"
      using bf_grow_bytes [OF f written(1)] by (simp add: written(2))
    finally have "bf_bytes (g\<lparr>bf_array := overwrite off p (bf_array g)\<rparr>) = plain_put off p (bf_bytes f)"
      using off bf_bytes_length [OF f] by (simp add: bf_bytes_def [of "g\<lparr>bf_array := _\<rparr>"] plain_put_def)
    then show ?thesis using written bf_grow_ok(4) [OF f written(1)] by auto
  qed (use fits o in auto)
qed

lemma file_step_view:
  assumes f: "file_ok f" and c: "within_content (bf_limit f) c (bf_view f)"
  shows "bf_view (file_step c f) = plain_step c (bf_view f)"
proof (cases c)
  case (CallWrite p)
  then show ?thesis
    using bf_put_view [OF f, of "bf_off f" p] c file_okD [OF f] bf_bytes_length [OF f]
    by (auto simp: bf_view_def bf_write_def bf_bytes_def)
next
  case (CallWriteAt p off)
  then show ?thesis
    using bf_put_view [OF f, of off p] c file_okD [OF f] bf_bytes_length [OF f]
    by (auto simp: bf_view_def bf_write_at_def)
next
  case (CallRead n)
  let ?k = "int (length (take n (drop (nat (bf_off f)) (bf_bytes f))))"
  have "wrap64 (bf_off f + ?k) = bf_off f + ?k" if "bf_off f < bf_len f"
    using that file_okD [OF f] bf_bytes_length [OF f] by (intro wrap64_id) (auto simp: int64_max)
  then show ?thesis
    using CallRead file_okD [OF f] bf_bytes_length [OF f]
    by (auto simp: bf_view_def bf_read_def Let_def bf_bytes_def)
next
  case (CallSeek offset wh)
  have "wrap64 (x + offset) = x + offset" if "0 \<le> x" "x + offset \<le> max_int64" for x
    using that c CallSeek by (intro wrap64_id) (auto simp: int64_max bf_view_def)
  then show ?thesis
    using CallSeek c file_okD [OF f] bf_bytes_length [OF f]
    by (cases wh) (auto simp: bf_view_def bf_seek_def Let_def bf_bytes_def)
next
  case (CallTruncate sz)
  then show ?thesis
    using c file_okD [OF f] bf_bytes_length [OF f]
    by (auto simp: bf_view_def bf_truncate_def Let_def bf_bytes_def min_def)
qed (simp add: bf_view_def)

lemma within_content_ok:
  assumes "file_ok f" "within_content (bf_limit f) c (bf_view f)" shows "call_ok c"
  using assms file_okD [OF assms(1)] by (cases c) (auto simp: bf_view_def slice_def int64_max)

lemma file_steps_view:
  "file_ok f \<Longrightarrow> plain_run (bf_limit f) cs (bf_view f) \<Longrightarrow> bf_view (fold file_step cs f) = fold plain_step cs (bf_view f)"
proof (induction cs arbitrary: f)
  case (Cons c cs)
  note c = file_step_view [of f c] within_content_ok [of f c] file_step_ok [of f c]
  have "bf_view (fold file_step cs (file_step c f)) = fold plain_step cs (bf_view (file_step c f))"
    using Cons.prems c by (intro Cons.IH) auto
  then show ?case using Cons.prems c by simp
qed simp

text \<open>
  The buffer refines a plain file. A download whose writes start within what is already there and
  stay within the limit hands on exactly the bytes an ordinary file would hold after the same calls.
\<close>

theorem the_buffer_is_a_plain_file:
  assumes "0 \<le> max_bytes" "max_bytes < max_int64" "plain_run (max_bytes + 1) calls ([], 0)"
  shows "download_limited max_bytes calls False = Some (fst (fold plain_step calls ([], 0)))"
proof -
  let ?f = "new_bounded_file (max_bytes + 1)"
  have v: "bf_view ?f = ([], 0)" "bf_limit ?f = max_bytes + 1"
    by (simp_all add: bf_view_def bf_bytes_def new_bounded_file_def)
  have "bf_view (fold file_step calls ?f) = fold plain_step calls ([], 0)"
    using file_steps_view [of ?f calls] assms new_bounded_file_ok [of "max_bytes + 1"] v by simp
  then show ?thesis using assms(2) by (simp add: download_limited_def bf_view_def Let_def) (metis fst_conv)
qed

theorem the_buffer_is_a_plain_file_witness:
  "download_limited 3 [CallWrite ''abc'', CallSeek 0 SeekStart, CallTruncate 0, CallWrite ''de''] False = Some ''de''"
proof -
  have "plain_run 4 [CallWrite ''abc'', CallSeek 0 SeekStart, CallTruncate 0, CallWrite ''de''] ([], 0)"
    by code_simp
  moreover have "fst (fold plain_step [CallWrite ''abc'', CallSeek 0 SeekStart, CallTruncate 0, CallWrite ''de''] ([], 0)) = ''de''"
    by code_simp
  ultimately show ?thesis
    using the_buffer_is_a_plain_file [of 3 "[CallWrite ''abc'', CallSeek 0 SeekStart, CallTruncate 0, CallWrite ''de'']"]
    by (simp add: max_int64_def)
qed

text \<open>Beyond that it is none: a write past the end shows bytes a truncation had cut off.\<close>

lemma truncation_keeps_bytes:
  "download_limited 3 [CallWrite ''abc'', CallTruncate 0, CallWriteAt ''x'' 2] False = Some ''abx''"
  by code_simp

end
