(* ===== verification/Auth.thy ===== *)
theory Auth
  imports StoreIntegrity
begin

text \<open>
  The authentication primitives, \<^verbatim>\<open>internal/auth/auth.go\<close>. bcrypt, the JWT library and the uuid
  library are fields of \<open>crypto\<close>, and so are SHA-256 and the random source: nothing below depends
  on how they compute.
\<close>

section \<open>Scopes\<close>

record scope =
  sc_kind :: string
  sc_user :: uuid
  sc_role :: string
  sc_instance :: uuid

definition scope_global :: string where "scope_global = ''global''"
definition scope_user :: string where "scope_user = ''user''"
definition scope_instance :: string where "scope_instance = ''instance''"

lemmas scope_kinds = scope_global_def scope_user_def scope_instance_def

definition empty_scope :: scope where
  "empty_scope = \<lparr>sc_kind = [], sc_user = uuid_nil, sc_role = [], sc_instance = uuid_nil\<rparr>"

text \<open>True is the nil error, False \<^verbatim>\<open>ErrForbidden\<close>.\<close>

definition require_role :: "scope \<Rightarrow> string \<Rightarrow> bool" where
  "require_role s role =
     (if sc_kind s = scope_global then True
      else if sc_kind s = scope_user \<and> sc_role s = role then True
      else False)"

definition require_instance :: "scope \<Rightarrow> uuid \<Rightarrow> bool" where
  "require_instance s i =
     (if sc_kind s = scope_global then True
      else if sc_kind s = scope_instance \<and> sc_instance s = i then True
      else False)"

section \<open>Encodings\<close>

definition hex_digit :: "nat \<Rightarrow> char" where
  "hex_digit n = ''0123456789abcdef'' ! n"

fun hex_encode :: "string \<Rightarrow> string" where
  "hex_encode [] = []"
| "hex_encode (c # cs) =
     (let n = of_char c in hex_digit (n div 16) # hex_digit (n mod 16) # hex_encode cs)"

definition b64url_alphabet :: string where
  "b64url_alphabet = ''ABCDEFGHIJKLMNOPQRSTUVWXYZabcdefghijklmnopqrstuvwxyz0123456789-_''"

definition b64_char :: "nat \<Rightarrow> char" where
  "b64_char n = b64url_alphabet ! n"

text \<open>\<^verbatim>\<open>base64.RawURLEncoding\<close>: three bytes become four characters, a rest of one or two becomes two or
  three, without padding.\<close>

fun b64url_raw :: "string \<Rightarrow> string" where
  "b64url_raw (a # b # c # rest) =
     (let x = of_char a; y = of_char b; z = of_char c in
      b64_char (x div 4) # b64_char ((x mod 4) * 16 + y div 16)
      # b64_char ((y mod 16) * 4 + z div 64) # b64_char (z mod 64) # b64url_raw rest)"
| "b64url_raw [a, b] =
     (let x = of_char a; y = of_char b in
      [b64_char (x div 4), b64_char ((x mod 4) * 16 + y div 16), b64_char ((y mod 16) * 4)])"
| "b64url_raw [a] = (let x = of_char a in [b64_char (x div 4), b64_char ((x mod 4) * 16)])"
| "b64url_raw [] = []"

section \<open>Credentials\<close>

record session_claims =
  cl_subject :: string
  cl_issued_at :: int
  cl_expires_at :: int
  cl_role :: string

record crypto =
  cr_sha256 :: "string \<Rightarrow> string"
  cr_bcrypt :: "string \<Rightarrow> string option"
  cr_compare :: "string \<Rightarrow> string \<Rightarrow> bool"
  cr_sign :: "session_claims \<Rightarrow> string \<Rightarrow> string option"
  cr_verify :: "string \<Rightarrow> string \<Rightarrow> instant \<Rightarrow> session_claims option"
  cr_parse_id :: "string \<Rightarrow> uuid option"
  cr_show_id :: "uuid \<Rightarrow> string"

definition hash_password :: "crypto \<Rightarrow> string \<Rightarrow> string option" where
  "hash_password cr password = cr_bcrypt cr password"

definition check_password :: "crypto \<Rightarrow> string \<Rightarrow> string \<Rightarrow> bool" where
  "check_password cr hash password = cr_compare cr hash password"

definition key_hash :: "crypto \<Rightarrow> string \<Rightarrow> string" where
  "key_hash cr key = hex_encode (cr_sha256 cr key)"

text \<open>\<open>raw\<close> is what the random source delivered, None when it failed.\<close>

definition mint_api_key :: "crypto \<Rightarrow> string option \<Rightarrow> (string \<times> string) option" where
  "mint_api_key cr raw =
     (case raw of
        None \<Rightarrow> None
      | Some bytes \<Rightarrow> (let key = b64url_raw bytes in Some (key, hex_encode (cr_sha256 cr key))))"

definition token_lifetime :: duration where
  "token_lifetime = 12 * hour"

text \<open>\<^verbatim>\<open>jwt.NewNumericDate\<close> truncates to the second.\<close>

definition numeric_date :: "instant \<Rightarrow> int" where
  "numeric_date t = t div second"

definition mint_token :: "crypto \<Rightarrow> instant \<Rightarrow> uuid \<Rightarrow> string \<Rightarrow> string \<Rightarrow> string option" where
  "mint_token cr now i role secret =
     cr_sign cr \<lparr>cl_subject = cr_show_id cr i, cl_issued_at = numeric_date now,
       cl_expires_at = numeric_date (now + token_lifetime), cl_role = role\<rparr> secret"

definition parse_token :: "crypto \<Rightarrow> instant \<Rightarrow> string \<Rightarrow> string \<Rightarrow> scope option" where
  "parse_token cr now token secret =
     (case cr_verify cr token secret now of
        None \<Rightarrow> None
      | Some claims \<Rightarrow>
          (case cr_parse_id cr (cl_subject claims) of
             None \<Rightarrow> None
           | Some i \<Rightarrow> Some (empty_scope\<lparr>sc_kind := scope_user, sc_user := i, sc_role := cl_role claims\<rparr>)))"

section \<open>The shape of a key\<close>

lemma hex_digit_safe: "n < 16 \<Longrightarrow> hex_digit n \<in> set ''0123456789abcdef''"
  unfolding hex_digit_def by (rule nth_mem) simp

lemma of_char_less: "of_char (c :: char) < (256 :: nat)"
  by simp

lemma b64_char_safe: "n < 64 \<Longrightarrow> b64_char n \<in> set b64url_alphabet"
  unfolding b64_char_def by (rule nth_mem) (simp add: b64url_alphabet_def)

lemma six_bits:
  fixes x y z :: nat
  assumes "x < 256" "y < 256" "z < 256"
  shows "x div 4 < 64" "(x mod 4) * 16 + y div 16 < 64" "(y mod 16) * 4 + z div 64 < 64"
    "(y mod 16) * 4 < 64" "(x mod 4) * 16 < 64"
  using assms mod_less_divisor [of 4 x] mod_less_divisor [of 16 y] by linarith+

lemma b64url_raw_safe: "set (b64url_raw bytes) \<subseteq> set b64url_alphabet"
proof (induction bytes rule: b64url_raw.induct)
  case (1 a b c rest)
  then show ?case using six_bits [of "of_char a" "of_char b" "of_char c"]
    by (simp add: Let_def b64_char_safe)
next
  case (2 a b)
  show ?case using six_bits [of "of_char a" "of_char b" 0] by (simp add: Let_def b64_char_safe)
next
  case (3 a)
  show ?case using six_bits [of "of_char a" 0 0] by (simp add: Let_def b64_char_safe)
qed simp

lemma b64url_raw_length: "length (b64url_raw bytes) = (4 * length bytes + 2) div 3"
  by (induction bytes rule: b64url_raw.induct) (simp_all add: Let_def)

lemma hex_encode_length: "length (hex_encode s) = 2 * length s"
  by (induction s) (simp_all add: Let_def)

lemma hex_digit_inj: "m < 16 \<Longrightarrow> n < 16 \<Longrightarrow> hex_digit m = hex_digit n \<Longrightarrow> m = n"
proof -
  have "distinct ''0123456789abcdef''" by simp
  then show "m < 16 \<Longrightarrow> n < 16 \<Longrightarrow> hex_digit m = hex_digit n \<Longrightarrow> m = n"
    unfolding hex_digit_def by (subst (asm) nth_eq_iff_index_eq) auto
qed

lemma hex_encode_inj: "hex_encode s = hex_encode t \<Longrightarrow> s = t"
proof (induction s arbitrary: t)
  case Nil
  then show ?case by (cases t) (simp_all add: Let_def)
next
  case (Cons a s)
  then obtain b t' where t: "t = b # t'" by (cases t) (simp_all add: Let_def)
  let ?m = "of_char a :: nat" and ?n = "of_char b :: nat"
  from Cons.prems have "hex_digit (?m div 16) = hex_digit (?n div 16)"
    "hex_digit (?m mod 16) = hex_digit (?n mod 16)" "hex_encode s = hex_encode t'"
    by (simp_all add: t Let_def)
  moreover have "?m div 16 < 16" "?n div 16 < 16" using of_char_less [of a] of_char_less [of b] by linarith+
  ultimately have "?m div 16 = ?n div 16" "?m mod 16 = ?n mod 16" "s = t'"
    using Cons.IH by (auto intro: hex_digit_inj)
  then have "?m = ?n" by (metis div_mult_mod_eq)
  then show ?case using \<open>s = t'\<close> t by simp
qed

lemma require_role_iff:
  "require_role s role \<longleftrightarrow> sc_kind s = scope_global \<or> (sc_kind s = scope_user \<and> sc_role s = role)"
  by (simp add: require_role_def)

end
