(* ===== verification/InstanceService.thy ===== *)
theory InstanceService
  imports Auth
begin

text \<open>
  The instance service, \<^verbatim>\<open>internal/instance/service.go\<close>, over the session contract of
  \<^verbatim>\<open>internal/session/session.go\<close>. A session is used through the interfaces \<^verbatim>\<open>Manager\<close> and
  \<^verbatim>\<open>Session\<close>: their operations are the fields of \<open>session_iface\<close>, over a state of their own and
  the database, since a session reports its transitions to an event sink that writes there.
  \<open>'h\<close> is the session handle a manager gives out.
\<close>

section \<open>The session contract\<close>

definition status_disconnected :: string where "status_disconnected = ''disconnected''"
definition status_pairing :: string where "status_pairing = ''pairing''"
definition status_connected :: string where "status_connected = ''connected''"
definition status_error :: string where "status_error = ''error''"

lemmas status_defs =
  status_disconnected_def status_pairing_def status_connected_def status_error_def

datatype session_err =
    ErrTransient | ErrNotConnected | ErrInvalidRecipient | ErrNoDevice | ErrSession string

record 's world =
  w_db :: db
  w_keys :: key_cache
  w_rest :: 's

type_synonym ('e, 'a, 's) op = "'s world \<Rightarrow> ('e + 'a) \<times> 's world"

record ('h, 's) session_iface =
  sm_create :: "wa_instance \<Rightarrow> (session_err, 'h, 's) op"
  sm_remove :: "uuid \<Rightarrow> (session_err, unit, 's) op"
  sm_restore_all :: "(session_err, unit, 's) op"
  ss_status :: "'h \<Rightarrow> 's world \<Rightarrow> string"
  ss_connect :: "'h \<Rightarrow> (session_err, string \<times> instant, 's) op"
  ss_qr :: "'h \<Rightarrow> (session_err, string \<times> instant, 's) op"
  ss_disconnect :: "'h \<Rightarrow> (session_err, unit, 's) op"

text \<open>\<open>sv_media\<close> is the media remover, which may be nil; \<open>sv_users\<close> and \<open>sv_keys\<close> say whether the
  repositories are configured.\<close>

record ('h, 's) service =
  sv_sessions :: "('h, 's) session_iface"
  sv_media :: "(uuid \<Rightarrow> (string, unit, 's) op) option"
  sv_users :: bool
  sv_keys :: bool
  sv_crypto :: crypto
  sv_net :: net_env

datatype svc_err =
    EForbidden | ENotFound | EExternalRefTaken | EInvalidCursor | EAlreadyConnected
  | EOwnerRequired | EOwnerNotFound | ENoAdmin | EInvalidWebhook webhook_invalid
  | EStorage storage_err | ENotConfigured | EMint
  | ECreateFailed svc_err | ECompensationFailed svc_err storage_err
  | ESession session_err | EMedia string

definition on_db :: "(db \<Rightarrow> 'a result \<times> db) \<Rightarrow> (storage_err, 'a, 's) op" where
  "on_db f w = (case f (w_db w) of (r, d) \<Rightarrow> (r, w\<lparr>w_db := d\<rparr>))"

lemma on_db_eq: "on_db f w = (fst (f (w_db w)), w\<lparr>w_db := snd (f (w_db w))\<rparr>)"
  by (simp add: on_db_def split: prod.split)

fun map_error :: "storage_err \<Rightarrow> svc_err" where
  "map_error SNotFound = ENotFound"
| "map_error SExternalRefTaken = EExternalRefTaken"
| "map_error SInvalidCursor = EInvalidCursor"
| "map_error e = EStorage e"

section \<open>Creation\<close>

record create_input =
  ci_name :: string
  ci_external_ref :: string
  ci_owner :: "uuid option"
  ci_webhook_url :: "string option"
  ci_webhook_enabled :: "bool option"
  ci_webhook_events :: "string list option"

definition delete_created :: "uuid \<Rightarrow> svc_err \<Rightarrow> 's world \<Rightarrow> svc_err \<times> 's world" where
  "delete_created i cause w =
     (case on_db (instances_delete i) w of
        (Inl e, w) \<Rightarrow> (ECompensationFailed cause e, w)
      | (Inr _, w) \<Rightarrow> (ECreateFailed cause, w))"

definition new_instance :: "uuid \<Rightarrow> create_input \<Rightarrow> string option \<Rightarrow> string list \<Rightarrow> wa_instance" where
  "new_instance i input url events =
     \<lparr>inst_id = i, inst_name = ci_name input, inst_external_ref = ci_external_ref input,
      inst_status = status_disconnected, inst_jid = [], inst_last_error = [],
      inst_last_connected = None, inst_owner = ci_owner input, inst_webhook_url = url,
      inst_webhook_enabled = (case ci_webhook_enabled input of None \<Rightarrow> False | Some b \<Rightarrow> b),
      inst_webhook_events = Some events, inst_created = zero_time, inst_updated = zero_time\<rparr>"

text \<open>What follows the insert: the key is minted and its hash stored, or the row is removed again.\<close>

definition finish_create ::
    "('h, 's) service \<Rightarrow> string option \<Rightarrow> wa_instance \<Rightarrow> (svc_err, wa_instance \<times> string, 's) op" where
  "finish_create sv raw created w =
     (case mint_api_key (sv_crypto sv) raw of
        None \<Rightarrow> (case delete_created (inst_id created) EMint w of (e, w) \<Rightarrow> (Inl e, w))
      | Some (key, hash) \<Rightarrow>
          (case on_db (keys_set_hash (inst_id created) hash) w of
             (Inl e, w) \<Rightarrow> (case delete_created (inst_id created) (EStorage e) w of (e, w) \<Rightarrow> (Inl e, w))
           | (Inr _, w) \<Rightarrow> (Inr (created, key), w)))"

text \<open>\<open>new_id\<close> is the drawn uuid and \<open>raw\<close> the drawn key bytes.\<close>

definition svc_create ::
    "('h, 's) service \<Rightarrow> uuid \<Rightarrow> string option \<Rightarrow> create_input
      \<Rightarrow> (svc_err, wa_instance \<times> string, 's) op" where
  "svc_create sv new_id raw input w =
     (case ci_owner input of
        None \<Rightarrow> (Inl EOwnerRequired, w)
      | Some owner \<Rightarrow>
          (case validate_config (sv_net sv) (coalesce_empty (ci_webhook_url input)) (ci_webhook_events input) of
             Inl e \<Rightarrow> (Inl (EInvalidWebhook e), w)
           | Inr (url, events) \<Rightarrow>
               if \<not> sv_users sv then (Inl ENotConfigured, w)
               else (case on_db (users_get_by_id owner) w of
                  (Inl SNotFound, w) \<Rightarrow> (Inl EOwnerNotFound, w)
                | (Inl e, w) \<Rightarrow> (Inl (EStorage e), w)
                | (Inr _, w) \<Rightarrow>
                    if \<not> sv_keys sv then (Inl ENotConfigured, w)
                    else (case on_db (instances_create (new_instance new_id input url events)) w of
                       (Inl e, w) \<Rightarrow> (Inl (map_error e), w)
                     | (Inr created, w) \<Rightarrow> finish_create sv raw created w))))"

fun oldest_admin_in :: "user list \<Rightarrow> uuid option" where
  "oldest_admin_in [] = None"
| "oldest_admin_in (u # us) = (if user_role u = ''admin'' then Some (user_id u) else oldest_admin_in us)"

definition svc_oldest_admin :: "('h, 's) service \<Rightarrow> (svc_err, uuid, 's) op" where
  "svc_oldest_admin sv w =
     (if \<not> sv_users sv then (Inl ENotConfigured, w)
      else case on_db users_list w of
        (Inl e, w) \<Rightarrow> (Inl (EStorage e), w)
      | (Inr us, w) \<Rightarrow>
          ((case oldest_admin_in us of None \<Rightarrow> Inl ENoAdmin | Some i \<Rightarrow> Inr i), w))"

section \<open>Lookup and update\<close>

definition svc_get :: "uuid \<Rightarrow> (svc_err, wa_instance, 's) op" where
  "svc_get i w =
     (case on_db (instances_get i) w of (Inl e, w) \<Rightarrow> (Inl (map_error e), w) | (Inr x, w) \<Rightarrow> (Inr x, w))"

definition svc_list ::
    "('h, 's) service \<Rightarrow> int \<Rightarrow> string \<Rightarrow> (svc_err, wa_instance list \<times> string, 's) op" where
  "svc_list sv limit cursor w =
     (case on_db (instances_list (cr_parse_id (sv_crypto sv)) (cr_show_id (sv_crypto sv)) limit cursor) w of
        (Inl e, w) \<Rightarrow> (Inl (map_error e), w)
      | (Inr page, w) \<Rightarrow> (Inr page, w))"

record update_input =
  ui_name :: "string option"
  ui_external_ref :: "string option"
  ui_webhook_url :: "string option"
  ui_webhook_enabled :: "bool option"
  ui_webhook_events :: "string list option"

definition patch :: "'a option \<Rightarrow> 'a \<Rightarrow> 'a" where
  "patch new old = (case new of None \<Rightarrow> old | Some x \<Rightarrow> x)"

definition apply_update :: "net_env \<Rightarrow> update_input \<Rightarrow> wa_instance \<Rightarrow> svc_err + wa_instance" where
  "apply_update env input stored =
     (let i1 = stored\<lparr>inst_name := patch (ui_name input) (inst_name stored),
                      inst_external_ref := patch (ui_external_ref input) (inst_external_ref stored)\<rparr>;
          url = (case ui_webhook_url input of
                   None \<Rightarrow> Inr (inst_webhook_url i1)
                 | Some raw \<Rightarrow> (case validate_url env raw of
                                 Inl e \<Rightarrow> Inl (EInvalidWebhook e) | Inr u \<Rightarrow> Inr u))
      in case url of
           Inl e \<Rightarrow> Inl e
         | Inr u \<Rightarrow>
             (let i2 = i1\<lparr>inst_webhook_url := u,
                         inst_webhook_enabled := patch (ui_webhook_enabled input) (inst_webhook_enabled i1)\<rparr>
              in case ui_webhook_events input of
                   None \<Rightarrow> Inr i2
                 | Some es \<Rightarrow>
                     (case validate_events es of
                        Inl e \<Rightarrow> Inl (EInvalidWebhook e)
                      | Inr n \<Rightarrow> Inr (i2\<lparr>inst_webhook_events := Some n\<rparr>))))"

text \<open>
  The read and the write of \<^verbatim>\<open>Update\<close> are two statements; \<open>svc_update_write\<close> is the second, so that
  what runs between them can be put there.
\<close>

definition svc_update_write :: "('h, 's) service \<Rightarrow> update_input \<Rightarrow> wa_instance \<Rightarrow> (svc_err, wa_instance, 's) op" where
  "svc_update_write sv input stored w =
     (case apply_update (sv_net sv) input stored of
        Inl e \<Rightarrow> (Inl e, w)
      | Inr i \<Rightarrow>
          (case on_db (instances_update i) w of
             (Inl e, w) \<Rightarrow> (Inl (map_error e), w)
           | (Inr updated, w) \<Rightarrow> (Inr updated, w)))"

definition svc_update :: "('h, 's) service \<Rightarrow> uuid \<Rightarrow> update_input \<Rightarrow> (svc_err, wa_instance, 's) op" where
  "svc_update sv i input w =
     (case on_db (instances_get i) w of
        (Inl e, w) \<Rightarrow> (Inl (map_error e), w)
      | (Inr stored, w) \<Rightarrow> svc_update_write sv input stored w)"

section \<open>Pairing\<close>

record connect_result =
  cn_status :: string
  cn_qr :: string
  cn_expires :: "instant option"

definition plain_result :: "string \<Rightarrow> connect_result" where
  "plain_result st = \<lparr>cn_status = st, cn_qr = [], cn_expires = None\<rparr>"

definition reset_pairing :: "('h, 's) service \<Rightarrow> wa_instance \<Rightarrow> (svc_err, 'h \<times> wa_instance, 's) op" where
  "reset_pairing sv inst w =
     (case sm_remove (sv_sessions sv) (inst_id inst) w of
        (Inl e, w) \<Rightarrow> (Inl (ESession e), w)
      | (Inr _, w) \<Rightarrow>
          (case on_db (instances_set_connection (inst_id inst) status_disconnected []) w of
             (Inl e, w) \<Rightarrow> (Inl (map_error e), w)
           | (Inr _, w) \<Rightarrow>
               (let inst' = inst\<lparr>inst_jid := []\<rparr> in
                case sm_create (sv_sessions sv) inst' w of
                  (Inl e, w) \<Rightarrow> (Inl (ESession e), w)
                | (Inr h, w) \<Rightarrow> (Inr (h, inst'), w))))"

text \<open>The instance record is a pointer in the source: a reset clears its JID for the caller too.\<close>

definition session_for :: "('h, 's) service \<Rightarrow> wa_instance \<Rightarrow> (svc_err, 'h \<times> wa_instance, 's) op" where
  "session_for sv inst w =
     (case sm_create (sv_sessions sv) inst w of
        (Inr h, w) \<Rightarrow> (Inr (h, inst), w)
      | (Inl e, w) \<Rightarrow> if e \<noteq> ErrNoDevice then (Inl (ESession e), w) else reset_pairing sv inst w)"

definition connect_pairing ::
    "('h, 's) service \<Rightarrow> wa_instance \<Rightarrow> 'h \<Rightarrow> (svc_err, string \<times> instant \<times> wa_instance, 's) op" where
  "connect_pairing sv inst h w =
     (case ss_connect (sv_sessions sv) h w of
        (Inr (qr, t), w) \<Rightarrow> (Inr (qr, t, inst), w)
      | (Inl e, w) \<Rightarrow>
          if e \<noteq> ErrNoDevice then (Inl (ESession e), w)
          else (case reset_pairing sv inst w of
             (Inl e, w) \<Rightarrow> (Inl e, w)
           | (Inr (h', inst'), w) \<Rightarrow>
               (case ss_connect (sv_sessions sv) h' w of
                  (Inl e, w) \<Rightarrow> (Inl (ESession e), w)
                | (Inr (qr, t), w) \<Rightarrow> (Inr (qr, t, inst'), w))))"

definition pairing_result :: "('h, 's) service \<Rightarrow> 'h \<Rightarrow> (svc_err, connect_result, 's) op" where
  "pairing_result sv h w =
     (case ss_qr (sv_sessions sv) h w of
        (Inl e, w) \<Rightarrow> (Inl (ESession e), w)
      | (Inr (qr, t), w) \<Rightarrow> (Inr \<lparr>cn_status = status_pairing, cn_qr = qr, cn_expires = Some t\<rparr>, w))"

definition mark_pairing :: "wa_instance \<Rightarrow> (svc_err, unit, 's) op" where
  "mark_pairing inst w =
     (case on_db (instances_set_connection (inst_id inst) status_pairing (inst_jid inst)) w of
        (Inl e, w) \<Rightarrow> (Inl (map_error e), w)
      | (Inr _, w) \<Rightarrow> (Inr (), w))"

definition start_pairing ::
    "('h, 's) service \<Rightarrow> (svc_err + connect_result) \<Rightarrow> wa_instance \<Rightarrow> 'h
      \<Rightarrow> (svc_err, connect_result, 's) op" where
  "start_pairing sv no_qr inst h w =
     (case connect_pairing sv inst h w of
        (Inl e, w) \<Rightarrow> (Inl e, w)
      | (Inr (qr, t, inst'), w) \<Rightarrow>
          if qr = [] then (no_qr, w)
          else (case mark_pairing inst' w of
             (Inl e, w) \<Rightarrow> (Inl e, w)
           | (Inr _, w) \<Rightarrow> (Inr \<lparr>cn_status = status_pairing, cn_qr = qr, cn_expires = Some t\<rparr>, w)))"

definition svc_connect :: "('h, 's) service \<Rightarrow> uuid \<Rightarrow> (svc_err, connect_result, 's) op" where
  "svc_connect sv i w =
     (case on_db (instances_get i) w of
        (Inl e, w) \<Rightarrow> (Inl (map_error e), w)
      | (Inr inst, w) \<Rightarrow>
          (case session_for sv inst w of
             (Inl e, w) \<Rightarrow> (Inl e, w)
           | (Inr (h, inst), w) \<Rightarrow>
               (let st = ss_status (sv_sessions sv) h w in
                if st = status_connected then (Inr (plain_result status_connected), w)
                else if st = status_pairing then pairing_result sv h w
                else start_pairing sv (Inr (plain_result status_connected)) inst h w)))"

definition svc_qr :: "('h, 's) service \<Rightarrow> uuid \<Rightarrow> (svc_err, connect_result, 's) op" where
  "svc_qr sv i w =
     (case on_db (instances_get i) w of
        (Inl e, w) \<Rightarrow> (Inl (map_error e), w)
      | (Inr inst, w) \<Rightarrow>
          (case session_for sv inst w of
             (Inl e, w) \<Rightarrow> (Inl e, w)
           | (Inr (h, inst), w) \<Rightarrow>
               (let st = ss_status (sv_sessions sv) h w in
                if st = status_connected then (Inl EAlreadyConnected, w)
                else if st = status_pairing then pairing_result sv h w
                else start_pairing sv (Inl EAlreadyConnected) inst h w)))"

section \<open>Restore, disconnect and delete\<close>

definition svc_restore :: "('h, 's) service \<Rightarrow> (svc_err, unit, 's) op" where
  "svc_restore sv w =
     (case sm_restore_all (sv_sessions sv) w of
        (Inl e, w) \<Rightarrow> (Inl (ESession e), w) | (Inr _, w) \<Rightarrow> (Inr (), w))"

definition svc_disconnect :: "('h, 's) service \<Rightarrow> uuid \<Rightarrow> (svc_err, unit, 's) op" where
  "svc_disconnect sv i w =
     (case on_db (instances_get i) w of
        (Inl e, w) \<Rightarrow> (Inl (map_error e), w)
      | (Inr inst, w) \<Rightarrow>
          (case session_for sv inst w of
             (Inl e, w) \<Rightarrow> (Inl e, w)
           | (Inr (h, _), w) \<Rightarrow>
               (case ss_disconnect (sv_sessions sv) h w of
                  (Inl e, w) \<Rightarrow> (Inl (ESession e), w)
                | (Inr _, w) \<Rightarrow>
                    (case on_db (instances_set_connection i status_disconnected []) w of
                       (Inl e, w) \<Rightarrow> (Inl (map_error e), w)
                     | (Inr _, w) \<Rightarrow>
                         (case sm_remove (sv_sessions sv) i w of
                            (Inl e, w) \<Rightarrow> (Inl (ESession e), w)
                          | (Inr _, w) \<Rightarrow> (Inr (), w))))))"

definition remove_media :: "('h, 's) service \<Rightarrow> uuid \<Rightarrow> (svc_err, unit, 's) op" where
  "remove_media sv i w =
     (case sv_media sv of
        None \<Rightarrow> (Inr (), w)
      | Some del \<Rightarrow> (case del i w of (Inl e, w) \<Rightarrow> (Inl (EMedia e), w) | (Inr _, w) \<Rightarrow> (Inr (), w)))"

definition svc_delete :: "('h, 's) service \<Rightarrow> uuid \<Rightarrow> (svc_err, unit, 's) op" where
  "svc_delete sv i w =
     (case on_db (instances_get i) w of
        (Inl e, w) \<Rightarrow> (Inl (map_error e), w)
      | (Inr _, w) \<Rightarrow>
          (case sm_remove (sv_sessions sv) i w of
             (Inl e, w) \<Rightarrow> (Inl (ESession e), w)
           | (Inr _, w) \<Rightarrow>
               (case remove_media sv i w of
                  (Inl e, w) \<Rightarrow> (Inl e, w)
                | (Inr _, w) \<Rightarrow>
                    (case on_db (instances_delete i) w of
                       (Inl e, w) \<Rightarrow> (Inl (map_error e), w)
                     | (Inr _, w) \<Rightarrow> (Inr (), w)))))"

section \<open>Creation is all or nothing\<close>

lemma on_db_run: "on_db f w = (r, w') \<longleftrightarrow> (\<exists>d. f (w_db w) = (r, d) \<and> w' = w\<lparr>w_db := d\<rparr>)"
  by (auto simp: on_db_def split: prod.splits)

lemma delete_created_cases:
  assumes "delete_created i cause w = (e, w')"
  shows "(\<exists>x d. e = ECompensationFailed cause x \<and> same_tables (w_db w) d \<and> w' = w\<lparr>w_db := d\<rparr>) \<or>
         (e = ECreateFailed cause \<and> (\<exists>d. same_tables (w_db w) d \<and> w' = w\<lparr>w_db := cascade_instance i d\<rparr>))"
  using assms
  by (auto simp: delete_created_def on_db_run split: prod.splits sum.splits elim!: instances_delete_ok
        dest: instances_delete_err)

text \<open>Removing the row that was just inserted gives back the tables of before.\<close>

lemma cascade_undoes_insert:
  assumes ok: "db_ok d" and new: "i \<notin> ir_id ` set (t_instances d)"
    and ids: "ir_id ` set extra \<subseteq> {i}" and same: "same_tables (d\<lparr>t_instances := t_instances d @ extra\<rparr>) e"
  shows "same_tables d (cascade_instance i e)"
proof -
  note f = same_tables_fields [OF same]
  have "filter (\<lambda>r. ir_id r \<noteq> i) (t_instances d) = t_instances d" "filter (\<lambda>r. ir_id r \<noteq> i) extra = []"
    using new ids by (auto simp: filter_id_conv filter_empty_conv image_subset_iff)
  then have "filter (\<lambda>r. ir_id r \<noteq> i) (t_instances d @ extra) = t_instances d" by simp
  moreover have "filter (\<lambda>r. mr_instance r \<noteq> i) (t_messages d) = t_messages d"
    "filter (\<lambda>r. kr_instance r \<noteq> i) (t_idem d) = t_idem d"
    "filter (\<lambda>r. dr_instance r \<noteq> i) (t_media d) = t_media d"
    using ok new by (auto simp: filter_id_conv db_ok_def messages_ok_def idem_ok_def media_ok_def)
  ultimately show ?thesis by (simp add: same_tables_iff cascade_instance_def f)
qed

text \<open>
  The last two steps of a creation, after the row \<open>row\<close> of id \<open>i\<close> was inserted: the answer carries the
  key whose hash the row now has, or the row is gone again, or the compensation failed too, the
  error says so and the row is left.
\<close>

definition keyed_row :: "crypto \<Rightarrow> string \<Rightarrow> instance_row \<Rightarrow> instance_row" where
  "keyed_row cr key row = row\<lparr>ir_api_key_hash := Some (key_hash cr key)\<rparr>"

definition create_outcome ::
    "('h, 's) service \<Rightarrow> uuid \<Rightarrow> uuid option \<Rightarrow> 's world \<Rightarrow> (svc_err + wa_instance \<times> string) \<Rightarrow> 's world
      \<Rightarrow> bool" where
  "create_outcome sv i ow w res w' \<longleftrightarrow>
     (case res of
        Inl e \<Rightarrow> same_tables (w_db w) (w_db w')
          \<or> ((\<exists>c x. e = ECompensationFailed c x) \<and> (\<exists>row. ir_id row = i \<and>
               same_tables ((w_db w)\<lparr>t_instances := t_instances (w_db w) @ [row]\<rparr>) (w_db w')))
      | Inr (created, key) \<Rightarrow>
          (\<exists>row. ir_id row = i \<and> ir_status row = status_disconnected \<and> ir_owner row = ow
             \<and> ir_api_key_hash row = Some (key_hash (sv_crypto sv) key)
             \<and> inst_id created = i \<and> inst_owner created = ir_owner row
             \<and> i \<notin> ir_id ` set (t_instances (w_db w))
             \<and> same_tables ((w_db w)\<lparr>t_instances := t_instances (w_db w) @ [row]\<rparr>) (w_db w')))"

lemma delete_created_outcome:
  assumes "db_ok d" "i \<notin> ir_id ` set (t_instances d)" "ir_id row = i"
    and "same_tables (d\<lparr>t_instances := t_instances d @ [row]\<rparr>) (w_db w)"
    and "delete_created i cause w = (e, w')" "w_db w0 = d"
  shows "create_outcome sv i ow w0 (Inl e) w'"
  using delete_created_cases [OF assms(5)]
proof (elim disjE exE conjE)
  fix s assume s: "same_tables (w_db w) s" "w' = w\<lparr>w_db := cascade_instance i s\<rparr>"
  from assms(4) s(1) have "same_tables (d\<lparr>t_instances := t_instances d @ [row]\<rparr>) s"
    by (rule same_tables_trans)
  with assms(1-3) have "same_tables d (cascade_instance i s)"
    by (intro cascade_undoes_insert [where extra = "[row]"]) auto
  then show ?thesis by (simp add: create_outcome_def s(2) assms(6))
next
  fix x s assume x: "e = ECompensationFailed cause x" and s: "same_tables (w_db w) s" "w' = w\<lparr>w_db := s\<rparr>"
  from assms(4) s(1) have "same_tables (d\<lparr>t_instances := t_instances d @ [row]\<rparr>) s"
    by (rule same_tables_trans)
  then show ?thesis using assms(3,6) x s(2) by (auto simp: create_outcome_def)
qed

lemma finish_create_outcome:
  assumes ok: "db_ok (w_db w0)" and new: "inst_id c \<notin> ir_id ` set (t_instances (w_db w0))"
    and row: "ir_id row = inst_id c" "ir_status row = status_disconnected" "ir_owner row = ow"
      "inst_owner c = ir_owner row" "ir_updated row = pg_now (w_db w0)"
    and same: "same_tables ((w_db w0)\<lparr>t_instances := t_instances (w_db w0) @ [row]\<rparr>) (w_db w)"
    and run: "finish_create sv raw c w = (res, w')"
  shows "create_outcome sv (inst_id c) ow w0 res w'"
proof (cases "mint_api_key (sv_crypto sv) raw")
  case None
  then obtain e where "delete_created (inst_id c) EMint w = (e, w')" "res = Inl e"
    using run by (auto simp: finish_create_def split: prod.splits)
  then show ?thesis using delete_created_outcome [OF ok new row(1) same _ refl] by simp
next
  case (Some kh)
  obtain key hash where kh: "kh = (key, hash)" by fastforce
  have hash: "hash = key_hash (sv_crypto sv) key"
    using Some kh by (auto simp: mint_api_key_def key_hash_def Let_def split: option.splits)
  obtain r d where st: "keys_set_hash (inst_id c) hash (w_db w) = (r, d)" by fastforce
  show ?thesis
  proof (cases r)
    case (Inl x)
    then have "same_tables (w_db w) d"
      using st by (auto simp: keys_set_hash_def intro: exec_instance_err)
    with same have "same_tables ((w_db w0)\<lparr>t_instances := t_instances (w_db w0) @ [row]\<rparr>) (w_db (w\<lparr>w_db := d\<rparr>))"
      by (auto intro: same_tables_trans)
    moreover obtain e where "delete_created (inst_id c) (EStorage x) (w\<lparr>w_db := d\<rparr>) = (e, w')" "res = Inl e"
      using run Some kh st Inl by (auto simp: finish_create_def on_db_def split: prod.splits)
    ultimately show ?thesis using delete_created_outcome [where w = "w\<lparr>w_db := d\<rparr>", OF ok new row(1) _ _ refl] by simp
  next
    case (Inr u)
    from st Inr obtain s where s: "same_tables (w_db w) s"
      "d = s\<lparr>t_instances := update_where (\<lambda>r. ir_id r = inst_id c)
             (\<lambda>r. r\<lparr>ir_api_key_hash := Some hash, ir_updated := pg_now (w_db w)\<rparr>) (t_instances (w_db w))\<rparr>"
      unfolding keys_set_hash_def by (auto elim: exec_instance_ok)
    note f = same_tables_fields [OF same] same_tables_fields [OF s(1)]
    have untouched: "update_where (\<lambda>r. ir_id r = inst_id c) g (t_instances (w_db w0)) = t_instances (w_db w0)" for g
      using new by (rule update_where_absent)
    have res: "res = Inr (c, key)" "w_db w' = d"
      using run Some kh st Inr by (auto simp: finish_create_def on_db_def split: prod.splits)
    have "t_instances d = t_instances (w_db w0) @ [keyed_row (sv_crypto sv) key row]"
      using untouched row(1,5) by (simp add: s(2) f update_where_def keyed_row_def hash)
    then show ?thesis
      using row new res
      by (auto simp: create_outcome_def same_tables_iff s(2) f keyed_row_def
            intro!: exI [of _ "keyed_row (sv_crypto sv) key row"])
  qed
qed

lemma create_outcome_same:
  assumes "create_outcome sv i ow w1 res w'" "same_tables (w_db w) (w_db w1)"
  shows "create_outcome sv i ow w res w'"
proof -
  have "same_tables ((w_db w)\<lparr>t_instances := r\<rparr>) ((w_db w1)\<lparr>t_instances := r\<rparr>)" for r
    using assms(2) by (simp add: same_tables_iff)
  with assms same_tables_fields(2) [OF assms(2)] show ?thesis
    unfolding create_outcome_def
    by (auto split: sum.splits intro: same_tables_trans)
qed

lemma svc_create_outcome:
  assumes ok: "db_ok (w_db w)" and run: "svc_create sv i raw input w = (res, w')"
  shows "create_outcome sv i (ci_owner input) w res w'"
proof (cases "ci_owner input")
  case None
  then show ?thesis using run by (auto simp: svc_create_def create_outcome_def)
next
  case (Some owner)
  note run1 = run [unfolded svc_create_def Some option.case]
  show ?thesis
  proof (cases "validate_config (sv_net sv) (coalesce_empty (ci_webhook_url input)) (ci_webhook_events input)")
    case (Inl e)
    then show ?thesis using run1 by (auto simp: create_outcome_def)
  next
    case (Inr ue)
    obtain url events where ue: "ue = (url, events)" by fastforce
    obtain r1 d1 where g: "users_get_by_id owner (w_db w) = (r1, d1)" by fastforce
    have same1: "same_tables (w_db w) d1" using g by (rule users_get_same)
    let ?inst = "new_instance i input url events"
    obtain r2 d2 where c: "instances_create ?inst d1 = (r2, d2)" by fastforce
    have early: "create_outcome sv i (ci_owner input) w (Inl e) (w\<lparr>w_db := d\<rparr>)" if "same_tables (w_db w) d" for e d
      using that by (simp add: create_outcome_def)
    consider "(\<exists>e. res = Inl e) \<and> (w' = w \<or> w' = w\<lparr>w_db := d1\<rparr>)"
      | (failed) x where "r2 = Inl x" "\<exists>e. res = Inl e" "w' = w\<lparr>w_db := d2\<rparr>"
      | (inserted) c where "r2 = Inr c" "finish_create sv raw c (w\<lparr>w_db := d2\<rparr>) = (res, w')"
      using run1 Inr ue g c
      by (auto simp: on_db_def split: sum.splits storage_err.splits if_splits)
    then show ?thesis
    proof cases
      case 1
      then show ?thesis using early same1 by (auto simp: create_outcome_def)
    next
      case failed
      then show ?thesis using early c same1 by (auto dest: instances_create_err intro: same_tables_trans)
    next
      case (inserted cr)
      from c inserted(1) obtain e where e: "same_tables d1 e" "inst_id ?inst \<notin> ir_id ` set (t_instances d1)"
        "cr = scan_instance (instance_row_of e ?inst)"
        "d2 = e\<lparr>t_instances := t_instances d1 @ [instance_row_of e ?inst]\<rparr>"
        by (auto elim: instances_create_ok)
      let ?row = "instance_row_of e ?inst"
      have owner: "ir_owner ?row = Some owner" "inst_owner cr = Some owner"
        using Some e(3) by (simp_all add: instance_row_of_def new_instance_def scan_instance_def)
      have rest: "ir_id ?row = i" "inst_id cr = i" "ir_status ?row = status_disconnected"
        "ir_updated ?row = pg_now e"
        using e(3) by (simp_all add: instance_row_of_def new_instance_def status_disconnected_def)
      have "create_outcome sv (inst_id cr) (ci_owner input) (w\<lparr>w_db := d1\<rparr>) res w'"
      proof (rule finish_create_outcome [where row = ?row and w = "w\<lparr>w_db := d2\<rparr>"])
        show "db_ok (w_db (w\<lparr>w_db := d1\<rparr>))"
          using script_blindD [OF blind same1 ok] by simp
        show "same_tables (w_db (w\<lparr>w_db := d1\<rparr>)\<lparr>t_instances := t_instances (w_db (w\<lparr>w_db := d1\<rparr>)) @ [?row]\<rparr>)
                (w_db (w\<lparr>w_db := d2\<rparr>))"
          by (simp add: same_tables_iff e(4) same_tables_fields [OF e(1)])
      qed (use e(2) owner rest Some inserted(2) same_tables_fields(8) [OF e(1)] in
            \<open>simp_all add: new_instance_def\<close>)
      then show ?thesis using rest(2) same1 by (auto intro: create_outcome_same)
    qed
  qed
qed

lemma on_db_keeps:
  "on_db f w = (r, w') \<Longrightarrow> db_ok (w_db w) \<Longrightarrow> (\<And>d. db_ok d \<Longrightarrow> db_ok (snd (f d))) \<Longrightarrow> db_ok (w_db w')"
  by (metis on_db_eq snd_conv world.select_convs(1) world.surjective world.update_convs(1))

lemma on_db_keys: "on_db f w = (r, w') \<Longrightarrow> w_keys w' = w_keys w"
  by (auto simp: on_db_run)

section \<open>The contract of the session manager\<close>

text \<open>
  What the service relies on: a session operation may change connection columns, messages and its
  own state, but no instance appears or disappears, no owner or key hash changes, no user changes
  and the integrity of the tables is kept.
\<close>

definition key_view :: "db \<Rightarrow> (uuid \<times> string option \<times> uuid option) list" where
  "key_view d = map (\<lambda>r. (ir_id r, ir_api_key_hash r, ir_owner r)) (t_instances d)"

definition service_frame :: "'s world \<Rightarrow> 's world \<Rightarrow> bool" where
  "service_frame w w' \<longleftrightarrow> w_keys w' = w_keys w \<and> key_view (w_db w') = key_view (w_db w)
     \<and> t_users (w_db w') = t_users (w_db w) \<and> (db_ok (w_db w) \<longrightarrow> db_ok (w_db w'))"

lemma service_frame_refl [simp]: "service_frame w w"
  by (simp add: service_frame_def)

lemma service_frame_trans [trans]: "service_frame a b \<Longrightarrow> service_frame b c \<Longrightarrow> service_frame a c"
  by (simp add: service_frame_def)

lemma frame_same_tables: "same_tables (w_db w) d \<Longrightarrow> service_frame w (w\<lparr>w_db := d\<rparr>)"
  using same_tables_fields [of "w_db w" d]
  by (auto simp: service_frame_def key_view_def dest: script_blindD [OF blind])

lemma frame_get: "on_db (instances_get i) w = (r, w') \<Longrightarrow> service_frame w w'"
  by (auto simp: on_db_run intro!: frame_same_tables dest: instances_get_same)

lemma key_view_update:
  assumes "\<And>r. ir_id (f r) = ir_id r" "\<And>r. ir_api_key_hash (f r) = ir_api_key_hash r"
    "\<And>r. ir_owner (f r) = ir_owner r"
  shows "map (\<lambda>r. (ir_id r, ir_api_key_hash r, ir_owner r)) (update_where P f rows) =
         map (\<lambda>r. (ir_id r, ir_api_key_hash r, ir_owner r)) rows"
  by (rule map_update_where) (simp add: assms)

lemma frame_exec_instance:
  assumes "on_db (exec_instance i f) w = (r, w')" "\<And>t r. ir_id (f t r) = ir_id r"
    "\<And>t r. ir_api_key_hash (f t r) = ir_api_key_hash r" "\<And>t r. ir_owner (f t r) = ir_owner r"
    "\<And>t r. ir_external_ref (f t r) = ir_external_ref r"
  shows "service_frame w w'"
proof -
  from assms(1) obtain d where d: "exec_instance i f (w_db w) = (r, d)" "w' = w\<lparr>w_db := d\<rparr>"
    by (auto simp: on_db_run)
  show ?thesis
  proof (cases r)
    case (Inl x)
    then show ?thesis using d exec_instance_err frame_same_tables by blast
  next
    case (Inr u)
    then obtain e where e: "same_tables (w_db w) e"
      "d = e\<lparr>t_instances := update_where (\<lambda>r. ir_id r = i) (f (pg_now (w_db w))) (t_instances (w_db w))\<rparr>"
      using d(1) by (auto elim: exec_instance_ok)
    have "db_ok (w_db w) \<longrightarrow> db_ok d"
      using db_ok_exec_instance [of "w_db w" f i] assms(2,4,5) d(1) by simp
    then show ?thesis
      using e assms(2-4) d(2) same_tables_fields [OF e(1)]
      by (simp add: service_frame_def key_view_def key_view_update)
  qed
qed

lemma frame_set_connection:
  "on_db (instances_set_connection i st j) w = (r, w') \<Longrightarrow> service_frame w w'"
  unfolding instances_set_connection_def by (erule frame_exec_instance) simp_all

lemma frame_set_connection_state:
  "on_db (instances_set_connection_state i st j le ca) w = (r, w') \<Longrightarrow> service_frame w w'"
  unfolding instances_set_connection_state_def by (erule frame_exec_instance) simp_all

lemma frame_instances_update:
  assumes "on_db (instances_update i) w = (r, w')" shows "service_frame w w'"
proof -
  from assms obtain d where d: "instances_update i (w_db w) = (r, d)" "w' = w\<lparr>w_db := d\<rparr>"
    by (auto simp: on_db_run)
  show ?thesis
  proof (cases r)
    case (Inl x)
    then show ?thesis using d instances_update_err frame_same_tables by blast
  next
    case (Inr u)
    then obtain e where e: "same_tables (w_db w) e"
      "d = e\<lparr>t_instances := update_where (\<lambda>r. ir_id r = inst_id i)
             (updated_row (pg_now (w_db w)) i) (t_instances (w_db w))\<rparr>"
      using d(1) by (auto elim: instances_update_ok)
    have "db_ok (w_db w) \<longrightarrow> db_ok d"
      using db_ok_instances_update [of "w_db w" i] d(1) by simp
    then show ?thesis
      using e d(2) same_tables_fields [OF e(1)]
      by (simp add: service_frame_def key_view_def key_view_update updated_row_def)
  qed
qed

lemma svc_update_frame: "svc_update sv i input w = (r, w') \<Longrightarrow> service_frame w w'"
  unfolding svc_update_def svc_update_write_def
  by (auto split: prod.splits sum.splits dest!: frame_get frame_instances_update
      intro: service_frame_trans)

locale session_contract =
  fixes sessions :: "('h, 's) session_iface"
  assumes create_frame: "sm_create sessions inst w = (r1, w') \<Longrightarrow> service_frame w w'"
    and remove_frame: "sm_remove sessions i w = (r2, w') \<Longrightarrow> service_frame w w'"
    and restore_frame: "sm_restore_all sessions w = (r2, w') \<Longrightarrow> service_frame w w'"
    and connect_frame: "ss_connect sessions h w = (r3, w') \<Longrightarrow> service_frame w w'"
    and qr_frame: "ss_qr sessions h w = (r3, w') \<Longrightarrow> service_frame w w'"
    and disconnect_frame: "ss_disconnect sessions h w = (r2, w') \<Longrightarrow> service_frame w w'"

locale service_contract = session_contract "sv_sessions sv" for sv :: "('h, 's) service" +
  assumes media_frame: "sv_media sv = Some del \<Longrightarrow> del i w = (r4, w') \<Longrightarrow> service_frame w w'"
begin

lemma reset_pairing_frame: "reset_pairing sv inst w = (r, w') \<Longrightarrow> service_frame w w'"
  unfolding reset_pairing_def
  by (auto simp: Let_def split: prod.splits sum.splits
      dest!: create_frame remove_frame frame_set_connection intro: service_frame_trans)

lemma session_for_frame: "session_for sv inst w = (r, w') \<Longrightarrow> service_frame w w'"
  unfolding session_for_def
  by (auto split: prod.splits sum.splits if_splits
      dest!: create_frame reset_pairing_frame intro: service_frame_trans)

lemma connect_pairing_frame: "connect_pairing sv inst h w = (r, w') \<Longrightarrow> service_frame w w'"
  unfolding connect_pairing_def
  by (auto split: prod.splits sum.splits if_splits
      dest!: connect_frame reset_pairing_frame intro: service_frame_trans)

lemma pairing_result_frame: "pairing_result sv h w = (r, w') \<Longrightarrow> service_frame w w'"
  unfolding pairing_result_def by (auto split: prod.splits sum.splits dest!: qr_frame)

lemma mark_pairing_frame: "mark_pairing inst w = (r, w') \<Longrightarrow> service_frame w w'"
  unfolding mark_pairing_def by (auto split: prod.splits sum.splits dest!: frame_set_connection)

lemma start_pairing_frame: "start_pairing sv nq inst h w = (r, w') \<Longrightarrow> service_frame w w'"
  unfolding start_pairing_def
  by (auto split: prod.splits sum.splits if_splits
      dest!: connect_pairing_frame mark_pairing_frame intro: service_frame_trans)

lemma svc_connect_frame: "svc_connect sv i w = (r, w') \<Longrightarrow> service_frame w w'"
  unfolding svc_connect_def
  by (auto simp: Let_def split: prod.splits sum.splits if_splits
      dest!: frame_get session_for_frame pairing_result_frame start_pairing_frame
      intro: service_frame_trans)

lemma svc_qr_frame: "svc_qr sv i w = (r, w') \<Longrightarrow> service_frame w w'"
  unfolding svc_qr_def
  by (auto simp: Let_def split: prod.splits sum.splits if_splits
      dest!: frame_get session_for_frame pairing_result_frame start_pairing_frame
      intro: service_frame_trans)

lemma svc_disconnect_frame: "svc_disconnect sv i w = (r, w') \<Longrightarrow> service_frame w w'"
  unfolding svc_disconnect_def
  by (auto split: prod.splits sum.splits
      dest!: frame_get session_for_frame disconnect_frame frame_set_connection remove_frame)
     (blast intro: service_frame_trans)+

lemma remove_media_frame: "remove_media sv i w = (r, w') \<Longrightarrow> service_frame w w'"
  unfolding remove_media_def
  by (auto split: option.splits prod.splits sum.splits dest: media_frame)

text \<open>A failed deletion keeps the row; a successful one removed exactly that row, last.\<close>

lemma svc_delete_failed:
  assumes "svc_delete sv i w = (Inl e, w')" shows "service_frame w w'"
proof -
  have last: "service_frame v (v\<lparr>w_db := d\<rparr>)" if "instances_delete i (w_db v) = (Inl x, d)" for v x d
    using that by (intro frame_same_tables) (rule instances_delete_err)
  show ?thesis
    using assms unfolding svc_delete_def
    by (auto simp: on_db_run split: prod.splits sum.splits
        dest!: instances_get_same frame_same_tables remove_frame remove_media_frame last
        intro: service_frame_trans)
qed

lemma svc_delete_done:
  assumes "svc_delete sv i w = (Inr u, w')"
  obtains v s where "service_frame w v" "same_tables (w_db v) s" "i \<in> ir_id ` set (t_instances (w_db v))"
    "w' = v\<lparr>w_db := cascade_instance i s\<rparr>"
proof -
  from assms obtain r1 v1 v2 v3 where
    "on_db (instances_get i) w = (r1, v1)" "sm_remove (sv_sessions sv) i v1 = (Inr (), v2)"
    "remove_media sv i v2 = (Inr (), v3)" and del: "on_db (instances_delete i) v3 = (Inr (), w')"
    unfolding svc_delete_def by (auto split: prod.splits sum.splits)
  then have "service_frame w v3"
    by (blast intro: service_frame_trans frame_get remove_frame remove_media_frame)
  moreover from del obtain s where "same_tables (w_db v3) s" "i \<in> ir_id ` set (t_instances (w_db v3))"
    "w' = v3\<lparr>w_db := cascade_instance i s\<rparr>"
    by (auto simp: on_db_run elim: instances_delete_ok)
  ultimately show thesis by (rule that)
qed

end

section \<open>Properties\<close>

text \<open>
  C25: creating an instance is all or nothing. On success exactly one row was added, disconnected,
  owned by the requested owner, with the hash of the returned key. On an error the tables are as
  before, unless the compensating delete failed as well, which the error then says.
\<close>

theorem create_is_all_or_nothing:
  assumes "db_ok (w_db w)" "svc_create sv i raw input w = (res, w')"
  shows "case res of
      Inl e \<Rightarrow> same_tables (w_db w) (w_db w') \<or> (\<exists>c x. e = ECompensationFailed c x)
    | Inr (created, key) \<Rightarrow>
        (\<exists>row. ir_id row = i \<and> ir_status row = status_disconnected \<and> ir_owner row = ci_owner input
           \<and> ir_api_key_hash row = Some (key_hash (sv_crypto sv) key) \<and> inst_id created = i
           \<and> i \<notin> ir_id ` set (t_instances (w_db w))
           \<and> same_tables ((w_db w)\<lparr>t_instances := t_instances (w_db w) @ [row]\<rparr>) (w_db w'))"
  using svc_create_outcome [OF assms] by (fastforce simp: create_outcome_def split: sum.splits prod.splits)

definition sample_crypto :: crypto where
  "sample_crypto = \<lparr>cr_sha256 = (\<lambda>s. s), cr_bcrypt = Some, cr_compare = (=),
     cr_sign = (\<lambda>c s. Some (cl_subject c @ cl_role c)), cr_verify = (\<lambda>_ _ _. None),
     cr_parse_id = (\<lambda>s. if s = ''one'' then Some 1 else None), cr_show_id = (\<lambda>_. ''one'')\<rparr>"

definition idle_sessions :: "(unit, unit) session_iface" where
  "idle_sessions = \<lparr>sm_create = (\<lambda>_ w. (Inr (), w)), sm_remove = (\<lambda>_ w. (Inr (), w)),
     sm_restore_all = (\<lambda>w. (Inr (), w)), ss_status = (\<lambda>_ _. status_disconnected),
     ss_connect = (\<lambda>_ w. (Inr ([], 0), w)), ss_qr = (\<lambda>_ w. (Inl ErrTransient, w)),
     ss_disconnect = (\<lambda>_ w. (Inr (), w))\<rparr>"

definition sample_service :: "(unit, unit) service" where
  "sample_service = \<lparr>sv_sessions = idle_sessions, sv_media = None, sv_users = True, sv_keys = True,
     sv_crypto = sample_crypto, sv_net = sample_env\<rparr>"

definition sample_world :: "unit world" where
  "sample_world = \<lparr>w_db = blank_db\<lparr>t_users := [sample_user]\<rparr>, w_keys = new_key_cache, w_rest = ()\<rparr>"

definition sample_input :: create_input where
  "sample_input = \<lparr>ci_name = ''main'', ci_external_ref = [], ci_owner = Some 7, ci_webhook_url = None,
     ci_webhook_enabled = None, ci_webhook_events = None\<rparr>"

lemma sample_world_ok: "db_ok (w_db sample_world)"
  by (simp add: sample_world_def db_ok_def users_ok_def instances_ok_def messages_ok_def idem_ok_def
      media_ok_def contacts_ok_def events_ok_def keyed_def ref_keys_def email_keys_def role_ok_def
      sample_user_def)

text \<open>The second statement after the insert, the write of the hash, fails: the row is gone.\<close>

theorem create_is_all_or_nothing_witness:
  "let w = sample_world\<lparr>w_db := (w_db sample_world)\<lparr>pg_script := [True, True, False]\<rparr>\<rparr>;
       (res, w') = svc_create sample_service 1 (Some ''k'') sample_input w
   in (\<exists>e. res = Inl e) \<and> same_tables (w_db w) (w_db w')"
proof -
  let ?w = "sample_world\<lparr>w_db := (w_db sample_world)\<lparr>pg_script := [True, True, False]\<rparr>\<rparr>"
  obtain res w' where run: "svc_create sample_service 1 (Some ''k'') sample_input ?w = (res, w')"
    by fastforce
  have ok: "db_ok (w_db ?w)"
    using script_blindD [OF blind _ sample_world_ok] by simp
  have "res = Inl (ECreateFailed (EStorage (SDriver [])))"
    using run
    by (simp add: svc_create_def sample_service_def sample_world_def sample_input_def
        validate_config_def validate_url_def coalesce_empty_def on_db_def users_get_by_id_def pg_run_def
        pg_stmt_def sample_user_def instances_create_def new_instance_def ref_taken_def Let_def
        finish_create_def mint_api_key_def keys_set_hash_def exec_instance_def delete_created_def
        instances_delete_def instance_row_of_def scan_user_def)
  then show ?thesis using create_is_all_or_nothing [OF ok run] run by (simp add: Let_def)
qed

end
