(* ===== verification/SessionMessages.thy ===== *)
theory SessionMessages
  imports MessageService InstanceService
begin

text \<open>
  Outbound traffic of a session, \<^verbatim>\<open>internal/session/whatsmeow/manager.go\<close>: messages are built from their
  payload, media is read and uploaded, and the errors of the WhatsApp library are classified. The
  library client is a record of its answers; a JID is its text.
\<close>

section \<open>The library client\<close>

datatype lib_err = LibNotConnected | LibNotLoggedIn | LibAlreadyConnected | LibDeviceDeleted | LibOther string

datatype upload = Upload string

text \<open>The key namespaces of uploaded media.\<close>

datatype media_key = KeyImage | KeyVideo | KeyAudio | KeyDocument | KeyNone

text \<open>A message of the protocol: the parts the session fills in.\<close>

datatype wa_message =
    WaConversation string
  | WaExtendedText string string
  | WaLocation float64 float64 "string option" "string option"
  | WaContact "string option" string
  | WaImage upload string "string option" "string option"
  | WaVideo upload string "string option" "string option"
  | WaAudio upload string bool "string option"
  | WaDocument upload string "string option" "string option" "string option"

record wa_client =
  cl_connected :: bool
  cl_parse_jid :: "string \<Rightarrow> string option"
  cl_read_file :: "string \<Rightarrow> string option"
  cl_upload :: "string \<Rightarrow> media_key \<Rightarrow> lib_err + upload"
  cl_send :: "string \<Rightarrow> wa_message \<Rightarrow> lib_err + string"
  cl_on_whatsapp :: "string \<Rightarrow> lib_err + (bool \<times> string) list"
  cl_chat_presence :: "string \<Rightarrow> string \<Rightarrow> lib_err option"
  cl_presence :: "string \<Rightarrow> lib_err option"
  cl_revoke :: "string \<Rightarrow> string \<Rightarrow> lib_err option"
  cl_mark_read :: "string \<Rightarrow> string \<Rightarrow> string \<Rightarrow> lib_err option"
  cl_pair_phone :: "string \<Rightarrow> lib_err + string"

definition classify_session_error :: "lib_err \<Rightarrow> session_err" where
  "classify_session_error e =
     (if e = LibNotConnected \<or> e = LibNotLoggedIn then ErrNotConnected else ErrTransient)"

section \<open>Building messages\<close>

record outbound_payload =
  op_text :: string
  op_latitude :: "float64 option"
  op_longitude :: "float64 option"
  op_name :: string
  op_address :: string
  op_display_name :: string
  op_vcard :: string
  op_caption :: string
  op_filename :: string
  op_mime :: string
  op_ptt :: bool
  op_quoted :: string

definition empty_payload :: outbound_payload where
  "empty_payload = \<lparr>op_text = [], op_latitude = None, op_longitude = None, op_name = [], op_address = [],
     op_display_name = [], op_vcard = [], op_caption = [], op_filename = [], op_mime = [], op_ptt = False, op_quoted = []\<rparr>"

text \<open>
  The fields a stored body or a media body sets; the tags are those the service and the media sender
  marshal. None is a body that is no JSON object of these types.
\<close>

fun decode_payload :: "wire_body \<Rightarrow> outbound_payload option" where
  "decode_payload (WireStored (PText t q)) = Some (empty_payload\<lparr>op_text := t, op_quoted := q\<rparr>)"
| "decode_payload (WireStored (PLocation lat lon)) = Some (empty_payload\<lparr>op_latitude := lat, op_longitude := lon\<rparr>)"
| "decode_payload (WireStored (PContact n v)) = Some (empty_payload\<lparr>op_display_name := n, op_vcard := v\<rparr>)"
| "decode_payload (WireStored (PMedia c f t q)) =
     Some (empty_payload\<lparr>op_caption := c, op_filename := f, op_ptt := t, op_quoted := q\<rparr>)"
| "decode_payload (WireStored PMalformed) = None"
| "decode_payload (WireMedia c f m t q) =
     Some (empty_payload\<lparr>op_caption := c, op_filename := f, op_mime := m, op_ptt := t, op_quoted := q\<rparr>)"

definition optional_string :: "string \<Rightarrow> string option" where
  "optional_string s = (if s = [] then None else Some s)"

definition build_message :: "session_message \<Rightarrow> session_err + wa_message" where
  "build_message m =
     (case decode_payload (sm_body m) of
        None \<Rightarrow> Inl (ErrSession ''decode payload'')
      | Some p \<Rightarrow>
          if sm_type m = ''text'' then
            (if op_text p = [] then Inl (ErrSession ''text payload is empty'')
             else if op_quoted p \<noteq> [] then Inr (WaExtendedText (op_text p) (op_quoted p))
             else Inr (WaConversation (op_text p)))
          else if sm_type m = ''location'' then
            (case (op_latitude p, op_longitude p) of
               (Some lat, Some lon) \<Rightarrow> Inr (WaLocation lat lon (optional_string (op_name p)) (optional_string (op_address p)))
             | _ \<Rightarrow> Inl (ErrSession ''location payload is missing coordinates''))
          else if sm_type m = ''contact'' then
            (if op_vcard p = [] then Inl (ErrSession ''contact payload is missing the vcard'')
             else Inr (WaContact (optional_string (op_display_name p)) (op_vcard p)))
          else Inl (ErrSession ''unsupported message type''))"

definition is_media_type :: "string \<Rightarrow> bool" where
  "is_media_type t \<longleftrightarrow> t \<in> {''image'', ''video'', ''audio'', ''document''}"

definition media_type_for :: "string \<Rightarrow> media_key" where
  "media_type_for t =
     (if t = ''image'' then KeyImage else if t = ''video'' then KeyVideo else if t = ''audio'' then KeyAudio
      else if t = ''document'' then KeyDocument else KeyNone)"

definition new_media_message :: "session_message \<Rightarrow> upload \<Rightarrow> session_err + wa_message" where
  "new_media_message m up =
     (if \<not> is_media_type (sm_type m) then Inl (ErrSession ''unsupported media type'')
      else case decode_payload (sm_body m) of
        None \<Rightarrow> Inl (ErrSession ''decode payload'')
      | Some p \<Rightarrow>
          if op_mime p = [] then Inl (ErrSession ''media payload is missing the mime type'')
          else (let quoted = optional_string (op_quoted p); caption = optional_string (op_caption p) in
            if sm_type m = ''image'' then Inr (WaImage up (op_mime p) caption quoted)
            else if sm_type m = ''video'' then Inr (WaVideo up (op_mime p) caption quoted)
            else if sm_type m = ''audio'' then Inr (WaAudio up (op_mime p) (op_ptt p) quoted)
            else Inr (WaDocument up (op_mime p) caption (optional_string (op_filename p)) quoted)))"

definition upload_media :: "wa_client \<Rightarrow> session_message \<Rightarrow> session_err + wa_message" where
  "upload_media cl m =
     (case cl_read_file cl (sm_path m) of
        None \<Rightarrow> Inl (ErrSession ''read media'')
      | Some data \<Rightarrow>
          (case cl_upload cl data (media_type_for (sm_type m)) of
             Inl e \<Rightarrow> Inl (classify_session_error e)
           | Inr up \<Rightarrow> new_media_message m up))"

section \<open>The operations\<close>

definition session_send :: "wa_client \<Rightarrow> session_message \<Rightarrow> session_err + string" where
  "session_send cl m =
     (if \<not> cl_connected cl then Inl ErrNotConnected
      else case cl_parse_jid cl (sm_recipient m) of
        None \<Rightarrow> Inl ErrInvalidRecipient
      | Some jid \<Rightarrow>
          (case (if is_media_type (sm_type m) then upload_media cl m else build_message m) of
             Inl e \<Rightarrow> Inl e
           | Inr wa \<Rightarrow>
               (case cl_send cl jid wa of Inl e \<Rightarrow> Inl (classify_session_error e) | Inr i \<Rightarrow> Inr i)))"

definition session_on_whatsapp :: "wa_client \<Rightarrow> string \<Rightarrow> session_err + string option" where
  "session_on_whatsapp cl phone =
     (if \<not> cl_connected cl then Inl ErrNotConnected
      else case cl_on_whatsapp cl phone of
        Inl e \<Rightarrow> Inl (classify_session_error e)
      | Inr [] \<Rightarrow> Inr None
      | Inr ((is_in, jid) # _) \<Rightarrow> Inr (if \<not> is_in \<or> jid = [] then None else Some jid))"

datatype presence = ChatPresence string | UserPresence string

definition parse_presence :: "string \<Rightarrow> session_err + presence" where
  "parse_presence state =
     (if state \<in> {''composing'', ''paused''} then Inr (ChatPresence state)
      else if state \<in> {''available'', ''unavailable''} then Inr (UserPresence state)
      else Inl (ErrSession ''unsupported presence state''))"

definition lib_result :: "lib_err option \<Rightarrow> session_err + unit" where
  "lib_result r = (case r of None \<Rightarrow> Inr () | Some e \<Rightarrow> Inl (classify_session_error e))"

text \<open>Presence errors of the library come back unclassified.\<close>

definition session_send_presence :: "wa_client \<Rightarrow> string \<Rightarrow> string \<Rightarrow> (session_err + lib_err) + unit" where
  "session_send_presence cl chat state =
     (case parse_presence state of
        Inl e \<Rightarrow> Inl (Inl e)
      | Inr target \<Rightarrow>
          (case cl_parse_jid cl chat of
             None \<Rightarrow> Inl (Inl ErrInvalidRecipient)
           | Some jid \<Rightarrow>
               (case (case target of ChatPresence c \<Rightarrow> cl_chat_presence cl jid c | UserPresence u \<Rightarrow> cl_presence cl u) of
                  None \<Rightarrow> Inr () | Some e \<Rightarrow> Inl (Inr e))))"

definition session_delete_message :: "wa_client \<Rightarrow> string \<Rightarrow> string \<Rightarrow> session_err + unit" where
  "session_delete_message cl chat message_id =
     (case cl_parse_jid cl chat of
        None \<Rightarrow> Inl ErrInvalidRecipient
      | Some jid \<Rightarrow>
          if jid = [] then Inl ErrInvalidRecipient
          else if message_id = [] then Inl (ErrSession ''delete message: empty message id'')
          else lib_result (cl_revoke cl jid message_id))"

definition session_mark_read :: "wa_client \<Rightarrow> string \<Rightarrow> string \<Rightarrow> string \<Rightarrow> session_err + unit" where
  "session_mark_read cl chat sender message_id =
     (case cl_parse_jid cl chat of
        None \<Rightarrow> Inl ErrInvalidRecipient
      | Some jid \<Rightarrow>
          if jid = [] then Inl ErrInvalidRecipient
          else (case (if sender = [] then Some jid else cl_parse_jid cl sender) of
             None \<Rightarrow> Inl ErrInvalidRecipient
           | Some author \<Rightarrow>
               if author = [] then Inl ErrInvalidRecipient
               else if message_id = [] then Inl (ErrSession ''mark read: empty message id'')
               else lib_result (cl_mark_read cl jid author message_id)))"

definition session_pair_phone :: "wa_client \<Rightarrow> string \<Rightarrow> session_err + string" where
  "session_pair_phone cl number =
     (let number = trim_space number in
      if number = [] then Inl (ErrSession ''pair phone: empty number'')
      else case cl_pair_phone cl number of Inl e \<Rightarrow> Inl (classify_session_error e) | Inr code \<Rightarrow> Inr code)"

section \<open>What is accepted can be sent\<close>

text \<open>The session as the send function of the senders.\<close>

definition session_text :: "session_err \<Rightarrow> string" where
  "session_text e = (case e of ErrTransient \<Rightarrow> ''session transient error'' | ErrNotConnected \<Rightarrow> ''session not connected''
     | ErrInvalidRecipient \<Rightarrow> ''session invalid recipient'' | ErrNoDevice \<Rightarrow> ''session device not found'' | ErrSession s \<Rightarrow> s)"

definition send_through :: "wa_client \<Rightarrow> send_fun" where
  "send_through cl m =
     (case session_send cl m of Inl e \<Rightarrow> Inl (SendErr (e = ErrTransient) (session_text e)) | Inr i \<Rightarrow> Inr i)"

definition quotes :: "wa_message \<Rightarrow> string option" where
  "quotes wa = (case wa of WaExtendedText _ q \<Rightarrow> Some q | WaImage _ _ _ q \<Rightarrow> q | WaVideo _ _ _ q \<Rightarrow> q | WaAudio _ _ _ q \<Rightarrow> q
     | WaDocument _ _ _ _ q \<Rightarrow> q | _ \<Rightarrow> None)"

definition reachable_recipient :: "wa_client \<Rightarrow> string \<Rightarrow> string \<Rightarrow> bool" where
  "reachable_recipient cl recipient jid \<longleftrightarrow> cl_connected cl \<and> cl_parse_jid cl recipient = Some jid"

lemma trim_nonempty: "trim_space s \<noteq> [] \<Longrightarrow> s \<noteq> []"
  by (metis trim_space_Nil)

lemma media_kind_types: "media_kind mime = Some kind \<Longrightarrow> is_media_type kind \<and> mime \<noteq> []"
proof
  assume k: "media_kind mime = Some kind"
  then show "is_media_type kind"
    by (auto simp: media_kind_def is_media_type_def Let_def split: if_splits)
  have "[] \<notin> set allowed_mimes" by (simp add: allowed_mimes_def)
  with k show "mime \<noteq> []" by (auto simp: media_kind_def to_lower_def Let_def)
qed

lemma text_built:
  "sm_type m = ''text'' \<Longrightarrow> sm_body m = WireStored (PText t q) \<Longrightarrow> t \<noteq> [] \<Longrightarrow>
    \<exists>wa. build_message m = Inr wa \<and> quotes wa = optional_string q"
  by (cases "q = []") (simp_all add: build_message_def quotes_def optional_string_def empty_payload_def)

lemma media_built:
  assumes "media_kind (md_mimetype rec) = Some kind" "sm_body m = WireMedia c n (md_mimetype rec) t q" "sm_type m = kind"
    and "cl_read_file cl (sm_path m) = Some data" "cl_upload cl data (media_type_for kind) = Inr up"
  shows "\<exists>wa. upload_media cl m = Inr wa \<and> quotes wa = optional_string q"
  using assms media_kind_types [OF assms(1)]
  by (auto simp: upload_media_def new_media_message_def quotes_def is_media_type_def Let_def)

text \<open>
  What the service accepts, the session can build. For a connected session that knows the recipient
  the delivery of an accepted message comes down to the answer of the library to one message, which
  carries the reply it quotes; a media message needs its file to be there and uploaded besides.
\<close>

theorem accepted_messages_are_built:
  assumes "build_payload inp = Inr p" and m: "m = outbound_of fresh inst inp jid p"
    and "reachable_recipient cl jid wa_jid"
    and media: "ei_type inp = ''media'' \<longrightarrow> (\<exists>path rec kind data up. resolve (the (ei_media inp)) = Inr (path, rec)
      \<and> media_kind (md_mimetype rec) = Some kind \<and> cl_read_file cl path = Some data
      \<and> cl_upload cl data (media_type_for kind) = Inr up)"
  shows "\<exists>sender wa. sender_for (Some resolve) (om_type m) = Some sender
    \<and> fst (sender (send_through cl) m) =
        (case cl_send cl wa_jid wa of
           Inl e \<Rightarrow> Inl (SendErr (classify_session_error e = ErrTransient) (session_text (classify_session_error e)))
         | Inr i \<Rightarrow> Inr i)
    \<and> (ei_type inp \<in> {''text'', ''media''} \<longrightarrow> quotes wa = optional_string (ei_quoted inp))"
proof -
  have on: "cl_connected cl" "cl_parse_jid cl jid = Some wa_jid"
    using assms(3) by (simp_all add: reachable_recipient_def)
  have sent: "fst (hand_over (send_through cl) sm) =
      (case cl_send cl wa_jid wa of
         Inl e \<Rightarrow> Inl (SendErr (classify_session_error e = ErrTransient) (session_text (classify_session_error e)))
       | Inr i \<Rightarrow> Inr i)"
    if "sm_recipient sm = jid" "(if is_media_type (sm_type sm) then upload_media cl sm else build_message sm) = Inr wa" for sm wa
    using that on by (simp add: hand_over_def send_through_def session_send_def split: sum.split)
  let ?sm = "stored_message m"
  have stored: "sm_recipient ?sm = jid" "sm_type ?sm = ei_type inp" "sm_body ?sm = WireStored p"
    by (simp_all add: stored_message_def m outbound_of_def)
  from build_payload_ok [OF assms(1)] consider
      (plain) "ei_type inp = ''text''" "p = PText (ei_text inp) (ei_quoted inp)" "trim_space (ei_text inp) \<noteq> []"
    | (place) "ei_type inp = ''location''" "p = PLocation (Some (ei_latitude inp)) (Some (ei_longitude inp))"
        "\<not> out_of_range (ei_latitude inp) 90" "\<not> out_of_range (ei_longitude inp) 180"
    | (card) "ei_type inp = ''contact''" "p = PContact (ei_display_name inp) (ei_vcard inp)"
        "trim_space (ei_display_name inp) \<noteq> []" "trim_space (ei_vcard inp) \<noteq> []"
    | (attached) "ei_type inp = ''media''" "p = PMedia (ei_caption inp) (ei_filename inp) (ei_ptt inp) (ei_quoted inp)"
    by blast
  then show ?thesis
  proof cases
    case plain
    then obtain wa where wa: "build_message ?sm = Inr wa" "quotes wa = optional_string (ei_quoted inp)"
      using text_built [of ?sm] trim_nonempty by (auto simp: stored)
    have "text_send (send_through cl) m = hand_over (send_through cl) ?sm"
      using plain by (simp add: text_send_def m outbound_of_def)
    then show ?thesis
      using plain wa sent [OF stored(1)] stored
      by (intro exI [of _ text_send] exI [of _ wa]) (simp add: sender_for_def m outbound_of_def is_media_type_def)
  next
    case place
    then obtain wa where wa: "build_message ?sm = Inr wa"
      by (auto simp: build_message_def stored empty_payload_def)
    have "location_send (send_through cl) m = hand_over (send_through cl) ?sm"
      using place by (simp add: location_send_def m outbound_of_def out_of_range_def)
    then show ?thesis
      using place wa sent [OF stored(1)] stored
      by (intro exI [of _ location_send] exI [of _ wa]) (simp add: sender_for_def m outbound_of_def is_media_type_def)
  next
    case card
    then obtain wa where wa: "build_message ?sm = Inr wa"
      using trim_nonempty by (auto simp: build_message_def stored empty_payload_def)
    have "contact_send (send_through cl) m = hand_over (send_through cl) ?sm"
      using card by (simp add: contact_send_def m outbound_of_def)
    then show ?thesis
      using card wa sent [OF stored(1)] stored
      by (intro exI [of _ contact_send] exI [of _ wa]) (simp add: sender_for_def m outbound_of_def is_media_type_def)
  next
    case attached
    with assms(4) obtain path rec kind data up where r: "resolve (the (ei_media inp)) = Inr (path, rec)"
      "media_kind (md_mimetype rec) = Some kind" "cl_read_file cl path = Some data"
      "cl_upload cl data (media_type_for kind) = Inr up" by blast
    obtain i where i: "ei_media inp = Some i" using assms(1) attached by (auto simp: build_payload_def split: if_splits)
    define sm where "sm = \<lparr>sm_type = kind, sm_recipient = jid,
      sm_body = WireMedia (ei_caption inp) (if ei_filename inp = [] then md_filename rec else ei_filename inp)
        (md_mimetype rec) (ei_ptt inp) (ei_quoted inp), sm_path = path\<rparr>"
    obtain wa where wa: "upload_media cl sm = Inr wa" "quotes wa = optional_string (ei_quoted inp)"
      using media_built [OF r(2), of sm _ _ _ _ cl data up] r by (auto simp: sm_def)
    have "media_send (Some resolve) (send_through cl) m = hand_over (send_through cl) sm"
      using attached r i by (simp add: media_send_def m outbound_of_def sm_def Let_def)
    then show ?thesis
      using attached wa sent [of sm wa] media_kind_types [OF r(2)]
      by (intro exI [of _ "media_send (Some resolve)"] exI [of _ wa])
         (simp add: sender_for_def m outbound_of_def sm_def)
  qed
qed

definition sample_client :: wa_client where
  "sample_client = \<lparr>cl_connected = True, cl_parse_jid = Some, cl_read_file = (\<lambda>_. None), cl_upload = (\<lambda>_ _. Inl LibNotConnected),
     cl_send = (\<lambda>jid wa. if wa = WaConversation ''hi'' then Inr ''w'' else Inl LibNotLoggedIn), cl_on_whatsapp = (\<lambda>_. Inr []),
     cl_chat_presence = (\<lambda>_ _. None), cl_presence = (\<lambda>_. None), cl_revoke = (\<lambda>_ _. None),
     cl_mark_read = (\<lambda>_ _ _. None), cl_pair_phone = Inr\<rparr>"

theorem accepted_messages_are_built_witness:
  "\<exists>sender wa. sender_for (Some (\<lambda>_. Inl [])) ''text'' = Some sender
    \<and> fst (sender (send_through sample_client) (outbound_of 3 1 sample_enqueue ''a@b'' (PText ''hi'' [])))
        = (case cl_send sample_client ''a@b'' wa of Inl e \<Rightarrow> Inl (SendErr (classify_session_error e = ErrTransient) (session_text (classify_session_error e)))
           | Inr i \<Rightarrow> Inr i) \<and> quotes wa = None"
  using accepted_messages_are_built [OF sample_enqueue_payload refl, of sample_client "''a@b''" "''a@b''" "\<lambda>_. Inl []" 3 1]
  by (simp add: reachable_recipient_def sample_client_def sample_enqueue_def outbound_of_def optional_string_def)

end
