(* ===== verification/SessionEvents.thy ===== *)
theory SessionEvents
  imports Runtime BoundedFile
begin

text \<open>
  Events of the WhatsApp library and their translation, \<^verbatim>\<open>internal/session/whatsmeow/events.go\<close>. A
  protocol message has the parts the translation reads; a part that is nil is None, and a JID is its
  text, empty for the empty JID. \<^verbatim>\<open>captureRaw\<close>, the JSON of the whole event, comes with the event.
\<close>

section \<open>Library events\<close>

record media_part =
  mp_mime :: string
  mp_caption :: string
  mp_filename :: string
  mp_length :: nat

datatype protocol_kind = ProtocolRevoke | ProtocolEdit | ProtocolOther

datatype content = Content
    (ct_conversation: string) (ct_extended: string) (ct_image: "media_part option") (ct_sticker: "media_part option")
    (ct_video: "media_part option") (ct_audio: "media_part option") (ct_document: "media_part option")
    (ct_protocol: "protocol option")
  and protocol = Protocol (pr_kind: protocol_kind) (pr_key: string) (pr_edited: "content option") (pr_millis: int)

record message_info =
  mi_id :: string
  mi_chat :: string
  mi_sender :: string
  mi_sender_alt :: string
  mi_group :: bool
  mi_type :: string
  mi_time :: instant
  mi_from_me :: bool

record message_event =
  me_info :: message_info
  me_content :: "content option"
  me_is_edit :: bool
  me_raw :: string

record receipt_event_data =
  re_chat :: string
  re_ids :: "string list"
  re_type :: string
  re_time :: instant
  re_raw :: string

section \<open>Translation\<close>

definition part_caption :: "media_part option \<Rightarrow> string" where
  "part_caption p = (case p of None \<Rightarrow> [] | Some m \<Rightarrow> mp_caption m)"

definition message_text :: "content option \<Rightarrow> string" where
  "message_text c =
     (case c of
        None \<Rightarrow> []
      | Some c \<Rightarrow>
          if ct_conversation c \<noteq> [] then ct_conversation c
          else if ct_extended c \<noteq> [] then ct_extended c
          else if part_caption (ct_image c) \<noteq> [] then part_caption (ct_image c)
          else if part_caption (ct_video c) \<noteq> [] then part_caption (ct_video c)
          else if part_caption (ct_document c) \<noteq> [] then part_caption (ct_document c)
          else [])"

definition media_length :: "nat \<Rightarrow> int" where
  "media_length n = (if int n > max_int64 then max_int64 else int n)"

text \<open>Mime type, file name, announced length and the downloadable part.\<close>

definition message_media :: "content \<Rightarrow> string \<times> string \<times> int \<times> media_part option" where
  "message_media c =
     (case ct_image c of Some m \<Rightarrow> (mp_mime m, [], media_length (mp_length m), Some m)
      | None \<Rightarrow> (case ct_sticker c of Some m \<Rightarrow> (mp_mime m, ''sticker.webp'', media_length (mp_length m), Some m)
      | None \<Rightarrow> (case ct_video c of Some m \<Rightarrow> (mp_mime m, [], media_length (mp_length m), Some m)
      | None \<Rightarrow> (case ct_audio c of Some m \<Rightarrow> (mp_mime m, [], media_length (mp_length m), Some m)
      | None \<Rightarrow> (case ct_document c of Some m \<Rightarrow> (mp_mime m, mp_filename m, media_length (mp_length m), Some m)
      | None \<Rightarrow> ([], [], 0, None))))))"

definition sender_jid :: "message_info \<Rightarrow> string" where
  "sender_jid i = (if mi_sender_alt i \<noteq> [] then mi_sender_alt i else mi_sender i)"

text \<open>
  \<open>client\<close> is what the library does on a download: the calls it makes on the buffer and the text of its
  error, if it fails; None without a client.
\<close>

type_synonym downloader = "media_part \<Rightarrow> file_call list \<times> string option"

definition run_download :: "downloader \<Rightarrow> int \<Rightarrow> media_part \<Rightarrow> string + string" where
  "run_download client limit m =
     (case client m of (calls, err) \<Rightarrow>
      (case err of
         Some e \<Rightarrow> Inl e
       | None \<Rightarrow> (case download_limited limit calls False of Some data \<Rightarrow> Inr data | None \<Rightarrow> Inl [])))"

definition inbound_of :: "uuid \<Rightarrow> downloader option \<Rightarrow> int \<Rightarrow> message_event \<Rightarrow> content \<Rightarrow> inbound_message" where
  "inbound_of inst client limit e c =
     (case message_media c of (mime, filename, len, part) \<Rightarrow>
      \<lparr>ib_instance = inst, ib_id = mi_id (me_info e), ib_chat = mi_chat (me_info e), ib_sender = sender_jid (me_info e),
       ib_group = mi_group (me_info e), ib_type = mi_type (me_info e), ib_text = message_text (Some c),
       ib_timestamp = mi_time (me_info e),
       ib_media = part \<noteq> None, ib_mime = (if part = None then [] else mime),
       ib_filename = (if part = None then [] else filename), ib_length = (if part = None then 0 else len),
       ib_download = (case part of None \<Rightarrow> None | Some m \<Rightarrow> map_option (\<lambda>cl. run_download cl limit m) client),
       ib_raw = me_raw e\<rparr>)"

definition receipt_of :: "uuid \<Rightarrow> receipt_event_data \<Rightarrow> receipt" where
  "receipt_of inst e =
     \<lparr>rc_instance = inst, rc_ids = re_ids e, rc_chat = re_chat e, rc_status = re_type e, rc_timestamp = re_time e,
      rc_raw = re_raw e\<rparr>"

text \<open>The original id, the replacement and the instant of an edit.\<close>

definition message_edit_target :: "message_event \<Rightarrow> content \<Rightarrow> (string \<times> content option \<times> instant) option" where
  "message_edit_target e c =
     (let by_flag = (if me_is_edit e then Some (mi_id (me_info e), Some c, mi_time (me_info e)) else None) in
      case ct_protocol c of
        None \<Rightarrow> by_flag
      | Some p \<Rightarrow>
          (case pr_kind p of
             ProtocolRevoke \<Rightarrow> None
           | ProtocolEdit \<Rightarrow>
               if pr_key p = [] then None
               else Some (pr_key p, pr_edited p, if pr_millis p > 0 then pr_millis p * millisecond else mi_time (me_info e))
           | ProtocolOther \<Rightarrow> by_flag))"

definition message_delete_target :: "content \<Rightarrow> string option" where
  "message_delete_target c =
     (case ct_protocol c of
        None \<Rightarrow> None
      | Some p \<Rightarrow> if pr_kind p \<noteq> ProtocolRevoke then None else if pr_key p \<noteq> [] then Some (pr_key p) else None)"

definition edit_message :: "uuid \<Rightarrow> message_event \<Rightarrow> string \<times> content option \<times> instant \<Rightarrow> message_change" where
  "edit_message inst e target =
     (case target of (original, c, stamp) \<Rightarrow>
      \<lparr>ch_instance = inst, ch_id = original, ch_chat = mi_chat (me_info e), ch_sender = sender_jid (me_info e),
       ch_group = mi_group (me_info e), ch_text = message_text c, ch_timestamp = stamp, ch_raw = me_raw e\<rparr>)"

definition delete_message :: "uuid \<Rightarrow> message_event \<Rightarrow> string \<Rightarrow> message_change" where
  "delete_message inst e original =
     \<lparr>ch_instance = inst, ch_id = original, ch_chat = mi_chat (me_info e), ch_sender = sender_jid (me_info e),
      ch_group = mi_group (me_info e), ch_text = [], ch_timestamp = mi_time (me_info e), ch_raw = me_raw e\<rparr>"

text \<open>What a message event turns into at the sink.\<close>

datatype sink_call = SinkMessage inbound_message | SinkEdit message_change | SinkDelete message_change

definition message_call :: "uuid \<Rightarrow> downloader option \<Rightarrow> int \<Rightarrow> message_event \<Rightarrow> sink_call option" where
  "message_call inst client limit e =
     (if mi_from_me (me_info e) then None
      else case me_content e of
        None \<Rightarrow> None
      | Some c \<Rightarrow>
          (case message_edit_target e c of
             Some target \<Rightarrow> Some (SinkEdit (edit_message inst e target))
           | None \<Rightarrow>
               if \<exists>p. ct_protocol c = Some p \<and> pr_kind p = ProtocolRevoke
               then map_option (\<lambda>original. SinkDelete (delete_message inst e original)) (message_delete_target c)
               else Some (SinkMessage (inbound_of inst client limit e c))))"

section \<open>Connection events\<close>

datatype connection_event =
    EvConnected | EvDisconnected | EvLoggedOut string | EvTemporaryBan string | EvStreamReplaced | EvClientOutdated
  | EvConnectFailure string string | EvStreamError string | EvCATRefresh string | EvUnrelated

fun connection_update :: "connection_event \<Rightarrow> (string \<times> string) option" where
  "connection_update EvConnected = Some (''connected'', [])"
| "connection_update EvDisconnected = Some (''disconnected'', [])"
| "connection_update (EvLoggedOut r) = Some (''disconnected'', ''logged out: '' @ r)"
| "connection_update (EvTemporaryBan t) = Some (''error'', t)"
| "connection_update EvStreamReplaced = Some (''error'', ''stream replaced'')"
| "connection_update EvClientOutdated = Some (''error'', ''client outdated'')"
| "connection_update (EvConnectFailure r m) = Some (''error'', ''connect failure: '' @ r @ '' ('' @ m @ '')'')"
| "connection_update (EvStreamError c) = Some (''error'', ''stream error '' @ c)"
| "connection_update (EvCATRefresh t) = Some (''error'', ''CAT refresh failed: '' @ t)"
| "connection_update EvUnrelated = None"

section \<open>Properties\<close>

lemma media_length_bounds: "0 \<le> media_length n \<and> media_length n \<le> max_int64"
  by (simp add: media_length_def max_int64_def)

lemma message_media_length: "message_media c = (mime, filename, len, part) \<Longrightarrow> 0 \<le> len \<and> len \<le> max_int64"
  using media_length_bounds by (auto simp: message_media_def max_int64_def split: option.splits)

lemma inbound_of_length: "0 \<le> ib_length (inbound_of inst client limit e c) \<and> ib_length (inbound_of inst client limit e c) \<le> max_int64"
  using message_media_length [of c] by (auto simp: inbound_of_def max_int64_def split: prod.split)

text \<open>
  A received message takes exactly one path. Own messages, messages without content and revocations
  that name no message go nowhere; a revocation becomes a deletion of the message it names and never a
  message; an edit names the message it edits; and what is announced as a message is no revocation, has
  its own id, the text and sender of the event, and a length that did not wrap.
\<close>

theorem received_messages_take_one_path:
  "case message_call inst client limit e of
     None \<Rightarrow> mi_from_me (me_info e) \<or> me_content e = None
       \<or> (\<exists>c p. me_content e = Some c \<and> ct_protocol c = Some p \<and> pr_kind p = ProtocolRevoke \<and> pr_key p = [])
   | Some (SinkDelete ch) \<Rightarrow> \<not> mi_from_me (me_info e)
       \<and> (\<exists>c p. me_content e = Some c \<and> ct_protocol c = Some p \<and> pr_kind p = ProtocolRevoke \<and> ch_id ch = pr_key p)
       \<and> ch_id ch \<noteq> [] \<and> ch_instance ch = inst
   | Some (SinkEdit ch) \<Rightarrow> \<not> mi_from_me (me_info e) \<and> ch_instance ch = inst
       \<and> (\<exists>c. me_content e = Some c \<and>
            ((\<exists>p. ct_protocol c = Some p \<and> pr_kind p = ProtocolEdit \<and> ch_id ch = pr_key p \<and> pr_key p \<noteq> []
                \<and> ch_text ch = message_text (pr_edited p))
             \<or> (me_is_edit e \<and> ch_id ch = mi_id (me_info e) \<and> ch_text ch = message_text (Some c))))
   | Some (SinkMessage m) \<Rightarrow> \<not> mi_from_me (me_info e)
       \<and> (\<exists>c. me_content e = Some c \<and> (\<nexists>p. ct_protocol c = Some p \<and> pr_kind p = ProtocolRevoke)
            \<and> ib_text m = message_text (Some c))
       \<and> ib_instance m = inst \<and> ib_id m = mi_id (me_info e) \<and> ib_sender m = sender_jid (me_info e)
       \<and> 0 \<le> ib_length m \<and> ib_length m \<le> max_int64"
proof (cases "mi_from_me (me_info e)")
  case True
  then show ?thesis by (simp add: message_call_def)
next
  case False
  show ?thesis
  proof (cases "me_content e")
    case None
    with False show ?thesis by (simp add: message_call_def)
  next
    case (Some c)
    show ?thesis
    proof (cases "message_edit_target e c")
      case (Some target)
      then show ?thesis
        using False \<open>me_content e = Some c\<close>
        by (auto simp: message_call_def message_edit_target_def edit_message_def Let_def
            split: option.splits protocol_kind.splits if_splits)
    next
      case None
      have m: "ib_text (inbound_of inst client limit e c) = message_text (Some c)"
        "ib_instance (inbound_of inst client limit e c) = inst" "ib_id (inbound_of inst client limit e c) = mi_id (me_info e)"
        "ib_sender (inbound_of inst client limit e c) = sender_jid (me_info e)"
        by (simp_all add: inbound_of_def split: prod.split)
      show ?thesis
        using False \<open>me_content e = Some c\<close> None m inbound_of_length [of inst client limit e c]
        by (auto simp: message_call_def message_delete_target_def delete_message_def split: option.splits if_splits)
    qed
  qed
qed

end
