(* ===== verification/HistorySync.thy ===== *)
theory HistorySync
  imports SessionEvents
begin

text \<open>
  The history feed of a session, \<^verbatim>\<open>internal/session/historysync.go\<close>, and its chunks,
  \<^verbatim>\<open>internal/session/whatsmeow/historysync.go\<close>. The accumulator keeps lists in arrival order and indexes
  from keys to positions; the reference at the end says what the lists hold.
\<close>

section \<open>The accumulator\<close>

record hist_message =
  hm_id :: string
  hm_chat :: string
  hm_sender :: string
  hm_from_me :: bool
  hm_time :: instant
  hm_text :: string

record hist_conversation =
  hc_chat :: string
  hc_name :: string
  hc_messages :: "hist_message list"

record hist_contact =
  hk_jid :: string
  hk_name :: string

record hist_chunk =
  hx_type :: string
  hx_progress :: nat
  hx_conversations :: "hist_conversation list"
  hx_contacts :: "hist_contact list"

record hist_feed =
  hf_chunks :: nat
  hf_progress :: nat
  hf_type :: string
  hf_announced :: int
  hf_conv_idx :: "string \<Rightarrow> nat option"
  hf_convs :: "hist_conversation list"
  hf_seen :: "string \<Rightarrow> string set"
  hf_contact_idx :: "string \<Rightarrow> nat option"
  hf_contacts :: "hist_contact list"
  hf_completed :: bool
  hf_updated :: instant

definition empty_feed :: hist_feed where
  "empty_feed = \<lparr>hf_chunks = 0, hf_progress = 0, hf_type = [], hf_announced = 0, hf_conv_idx = Map.empty, hf_convs = [],
     hf_seen = (\<lambda>_. {}), hf_contact_idx = Map.empty, hf_contacts = [], hf_completed = False, hf_updated = zero_time\<rparr>"

text \<open>One message of a batch: the stored list and the ids seen.\<close>

definition merge_message :: "string \<Rightarrow> hist_message \<Rightarrow> hist_message list \<times> string set \<Rightarrow> hist_message list \<times> string set" where
  "merge_message chat m s =
     (case s of (stored, seen) \<Rightarrow>
      if hm_id m = [] then (stored, seen)
      else if hm_id m \<in> seen then (stored, seen)
      else (stored @ [if hm_chat m = [] then m\<lparr>hm_chat := chat\<rparr> else m], insert (hm_id m) seen))"

text \<open>The position of a chat, entered on first sight, and a batch folded into the stored conversation.\<close>

definition enter_conversation :: "hist_conversation \<Rightarrow> hist_feed \<Rightarrow> nat \<times> hist_feed" where
  "enter_conversation conv f =
     (case hf_conv_idx f (hc_chat conv) of
        Some i \<Rightarrow> (i, f)
      | None \<Rightarrow> (length (hf_convs f),
          f\<lparr>hf_conv_idx := (hf_conv_idx f)(hc_chat conv \<mapsto> length (hf_convs f)),
            hf_convs := hf_convs f @ [\<lparr>hc_chat = hc_chat conv, hc_name = hc_name conv, hc_messages = []\<rparr>],
            hf_seen := (hf_seen f)(hc_chat conv := {})\<rparr>))"

definition fold_batch :: "hist_conversation \<Rightarrow> hist_conversation \<Rightarrow> string set \<Rightarrow> hist_conversation \<times> string set" where
  "fold_batch conv stored seen =
     (let stored = (if hc_name stored = [] then stored\<lparr>hc_name := hc_name conv\<rparr> else stored)
      in case fold (merge_message (hc_chat stored)) (hc_messages conv) (hc_messages stored, seen) of
           (msgs, seen) \<Rightarrow> (stored\<lparr>hc_messages := msgs\<rparr>, seen))"

definition merge_conversation :: "hist_conversation \<Rightarrow> hist_feed \<Rightarrow> hist_feed" where
  "merge_conversation conv f =
     (case enter_conversation conv f of (idx, f) \<Rightarrow>
      (case fold_batch conv (hf_convs f ! idx) (hf_seen f (hc_chat conv)) of (stored, seen) \<Rightarrow>
       f\<lparr>hf_convs := (hf_convs f)[idx := stored], hf_seen := (hf_seen f)(hc_chat conv := seen)\<rparr>))"

definition merge_contact :: "hist_contact \<Rightarrow> hist_feed \<Rightarrow> hist_feed" where
  "merge_contact c f =
     (if hk_jid c = [] then f
      else case hf_contact_idx f (hk_jid c) of
        None \<Rightarrow> f\<lparr>hf_contact_idx := (hf_contact_idx f)(hk_jid c \<mapsto> length (hf_contacts f)),
                  hf_contacts := hf_contacts f @ [c]\<rparr>
      | Some i \<Rightarrow>
          if hk_name (hf_contacts f ! i) = []
          then f\<lparr>hf_contacts := (hf_contacts f)[i := (hf_contacts f ! i)\<lparr>hk_name := hk_name c\<rparr>]\<rparr>
          else f)"

definition feed_observe :: "instant \<Rightarrow> hist_chunk \<Rightarrow> hist_feed \<Rightarrow> hist_feed" where
  "feed_observe now x f =
     (let f = f\<lparr>hf_chunks := hf_chunks f + 1\<rparr>;
          f = (if hx_progress x > hf_progress f then f\<lparr>hf_progress := hx_progress x\<rparr> else f);
          f = (if hx_type x \<noteq> [] then f\<lparr>hf_type := hx_type x\<rparr> else f);
          f = fold merge_conversation (hx_conversations x) f;
          f = fold merge_contact (hx_contacts x) f
      in f\<lparr>hf_updated := now\<rparr>)"

definition feed_preview :: "instant \<Rightarrow> int \<Rightarrow> hist_feed \<Rightarrow> hist_feed" where
  "feed_preview now n f = (if n > hf_announced f then f\<lparr>hf_announced := n\<rparr> else f)\<lparr>hf_updated := now\<rparr>"

definition feed_complete :: "instant \<Rightarrow> hist_feed \<Rightarrow> hist_feed" where
  "feed_complete now f = f\<lparr>hf_completed := True, hf_updated := now\<rparr>"

record hist_snapshot =
  hn_chunks :: nat
  hn_progress :: nat
  hn_type :: string
  hn_announced :: int
  hn_conversations :: "hist_conversation list"
  hn_contacts :: "hist_contact list"
  hn_completed :: bool
  hn_updated :: instant

definition feed_snapshot :: "hist_feed \<Rightarrow> hist_snapshot" where
  "feed_snapshot f = \<lparr>hn_chunks = hf_chunks f, hn_progress = hf_progress f, hn_type = hf_type f, hn_announced = hf_announced f,
     hn_conversations = hf_convs f, hn_contacts = hf_contacts f, hn_completed = hf_completed f, hn_updated = hf_updated f\<rparr>"

definition feed_reset :: "hist_feed \<Rightarrow> hist_feed" where
  "feed_reset f = empty_feed"

section \<open>Chunks\<close>

record web_message =
  wb_id :: string
  wb_from_me :: bool
  wb_participant :: string
  wb_key_participant :: string
  wb_seconds :: nat
  wb_content :: "content option"

record lib_history =
  lh_type :: string
  lh_progress :: nat
  lh_conversations :: "(string \<times> string \<times> web_message option list) list"
  lh_pushnames :: "(string \<times> string) list"
  lh_inline :: "(string \<times> string \<times> string \<times> string) list"

definition history_sender :: "string \<Rightarrow> web_message \<Rightarrow> string" where
  "history_sender chat m =
     (if wb_participant m \<noteq> [] then wb_participant m
      else if wb_key_participant m \<noteq> [] then wb_key_participant m else chat)"

definition history_conversation :: "string \<times> string \<times> web_message option list \<Rightarrow> hist_conversation" where
  "history_conversation conv =
     (case conv of (chat, name, items) \<Rightarrow>
      \<lparr>hc_chat = chat, hc_name = name,
       hc_messages = map (\<lambda>m. \<lparr>hm_id = wb_id m, hm_chat = chat, hm_sender = history_sender chat m, hm_from_me = wb_from_me m,
           hm_time = (if wb_seconds m > 0 then int (wb_seconds m) * second else zero_time), hm_text = message_text (wb_content m)\<rparr>)
         (filter (\<lambda>m. wb_id m \<noteq> []) (List.map_filter id items))\<rparr>)"

definition inline_contact :: "string \<times> string \<times> string \<times> string \<Rightarrow> hist_contact option" where
  "inline_contact c =
     (case c of (pn, lid, full, first) \<Rightarrow>
      let jid = (if pn = [] then lid else pn)
      in if jid = [] then None else Some \<lparr>hk_jid = jid, hk_name = (if full = [] then first else full)\<rparr>)"

definition history_chunk :: "lib_history \<Rightarrow> hist_chunk" where
  "history_chunk h =
     \<lparr>hx_type = lh_type h, hx_progress = lh_progress h,
      hx_conversations = map history_conversation (lh_conversations h),
      hx_contacts = map (\<lambda>(i, n). \<lparr>hk_jid = i, hk_name = n\<rparr>) (filter (\<lambda>(i, n). i \<noteq> []) (lh_pushnames h))
        @ List.map_filter inline_contact (lh_inline h)\<rparr>"

definition observe_history :: "instant \<Rightarrow> lib_history option \<Rightarrow> hist_feed \<Rightarrow> hist_feed" where
  "observe_history now h f = (case h of None \<Rightarrow> f | Some h \<Rightarrow> feed_observe now (history_chunk h) f)"

section \<open>The reference\<close>

text \<open>The first element of each key, in order, leaving out the keys of \<open>seen\<close>.\<close>

fun keep_first :: "'k set \<Rightarrow> ('a \<Rightarrow> 'k) \<Rightarrow> 'a list \<Rightarrow> 'a list" where
  "keep_first seen key [] = []"
| "keep_first seen key (x # xs) =
     (if key x \<in> seen then keep_first seen key xs else x # keep_first (insert (key x) seen) key xs)"

definition merged_keys :: "('a \<Rightarrow> string) \<Rightarrow> 'a list \<Rightarrow> string list" where
  "merged_keys key xs = keep_first {} id (map key xs)"

text \<open>The first name of a key that is not empty.\<close>

definition merged_name :: "('a \<Rightarrow> string) \<Rightarrow> ('a \<Rightarrow> string) \<Rightarrow> string \<Rightarrow> 'a list \<Rightarrow> string" where
  "merged_name key name k xs =
     (case filter (\<lambda>x. key x = k \<and> name x \<noteq> []) xs of [] \<Rightarrow> [] | x # _ \<Rightarrow> name x)"

definition in_chat :: "string \<Rightarrow> hist_message \<Rightarrow> hist_message" where
  "in_chat chat m = (if hm_chat m = [] then m\<lparr>hm_chat := chat\<rparr> else m)"

definition merged_messages :: "string \<Rightarrow> hist_conversation list \<Rightarrow> hist_message list" where
  "merged_messages chat cs = keep_first {} hm_id
     (map (in_chat chat) (filter (\<lambda>m. hm_id m \<noteq> []) (concat (map hc_messages (filter (\<lambda>c. hc_chat c = chat) cs)))))"

definition merged_conversations :: "hist_conversation list \<Rightarrow> hist_conversation list" where
  "merged_conversations cs =
     map (\<lambda>chat. \<lparr>hc_chat = chat, hc_name = merged_name hc_chat hc_name chat cs, hc_messages = merged_messages chat cs\<rparr>)
       (merged_keys hc_chat cs)"

definition merged_contacts :: "hist_contact list \<Rightarrow> hist_contact list" where
  "merged_contacts ks =
     (let ks = filter (\<lambda>k. hk_jid k \<noteq> []) ks
      in map (\<lambda>jid. \<lparr>hk_jid = jid, hk_name = merged_name hk_jid hk_name jid ks\<rparr>) (merged_keys hk_jid ks))"

lemma keep_first_append:
  "keep_first seen key (xs @ ys) = keep_first seen key xs @ keep_first (seen \<union> key ` set xs) key ys"
  by (induction xs arbitrary: seen) (auto simp: insert_absorb)

lemma keep_first_keys: "key ` set (keep_first seen key xs) = key ` set xs - seen"
  by (induction xs arbitrary: seen) auto

lemma keep_first_distinct: "distinct (map key (keep_first seen key xs))"
  by (induction xs arbitrary: seen) (auto simp: keep_first_keys)

lemma merged_keys_set [simp]: "set (merged_keys key xs) = key ` set xs"
  using keep_first_keys [of id "{}" "map key xs"] by (simp add: merged_keys_def)

lemma merged_keys_distinct [simp]: "distinct (merged_keys key xs)"
  using keep_first_distinct [of id "{}" "map key xs"] by (simp add: merged_keys_def)

lemma merged_keys_snoc:
  "merged_keys key (xs @ [x]) = (if key x \<in> key ` set xs then merged_keys key xs else merged_keys key xs @ [key x])"
  by (simp add: merged_keys_def keep_first_append)

lemma merged_name_snoc:
  "merged_name key name k (xs @ [x]) =
     (if key x = k \<and> merged_name key name k xs = [] then name x else merged_name key name k xs)"
  by (auto simp: merged_name_def split: list.split dest: filter_eq_ConsD)

lemma merge_messages:
  assumes "seen = hm_id ` set stored"
  shows "fold (merge_message chat) ms (stored, seen) =
    (let new = keep_first seen hm_id (map (in_chat chat) (filter (\<lambda>m. hm_id m \<noteq> []) ms))
     in (stored @ new, hm_id ` set (stored @ new)))"
  using assms
proof (induction ms arbitrary: stored seen)
  case (Cons m ms)
  have i: "hm_id (in_chat chat m) = hm_id m" by (simp add: in_chat_def)
  have n: "stored @ [if hm_chat m = [] then m\<lparr>hm_chat := chat\<rparr> else m] = stored @ [in_chat chat m]"
    by (simp add: in_chat_def)
  show ?case
    using Cons.IH [of seen stored] Cons.IH [of "insert (hm_id m) seen" "stored @ [in_chat chat m]"] Cons.prems i
    by (auto simp: merge_message_def n Let_def)
qed simp

lemma merged_messages_snoc:
  "merged_messages chat (cs @ [c]) = merged_messages chat cs @
     (if hc_chat c = chat then keep_first (hm_id ` set (merged_messages chat cs)) hm_id
        (map (in_chat chat) (filter (\<lambda>m. hm_id m \<noteq> []) (hc_messages c))) else [])"
  by (simp add: merged_messages_def keep_first_append keep_first_keys)

text \<open>The indexes agree with the lists.\<close>

definition feed_conversations_ok :: "hist_conversation list \<Rightarrow> hist_feed \<Rightarrow> bool" where
  "feed_conversations_ok cs f \<longleftrightarrow>
     hf_convs f = merged_conversations cs
     \<and> (\<forall>chat i. hf_conv_idx f chat = Some i \<longleftrightarrow>
          i < length (merged_keys hc_chat cs) \<and> merged_keys hc_chat cs ! i = chat)
     \<and> (\<forall>chat. hf_seen f chat = hm_id ` set (merged_messages chat cs))"

definition feed_contacts_ok :: "hist_contact list \<Rightarrow> hist_feed \<Rightarrow> bool" where
  "feed_contacts_ok ks f \<longleftrightarrow>
     (let named = filter (\<lambda>k. hk_jid k \<noteq> []) ks in
      hf_contacts f = merged_contacts ks
      \<and> (\<forall>jid i. hf_contact_idx f jid = Some i \<longleftrightarrow>
           i < length (merged_keys hk_jid named) \<and> merged_keys hk_jid named ! i = jid))"

lemma map_update_distinct:
  assumes "distinct ks" "i < length ks"
  shows "(map g ks)[i := y] = map (\<lambda>k. if k = ks ! i then y else g k) ks"
  by (rule nth_equalityI) (use assms in \<open>auto simp: nth_list_update nth_eq_iff_index_eq\<close>)

lemma index_snoc:
  assumes "\<forall>k i. idx k = Some i \<longleftrightarrow> i < length ks \<and> ks ! i = k" "k \<notin> set ks"
  shows "\<forall>j i. (idx(k \<mapsto> length ks)) j = Some i \<longleftrightarrow> i < length (ks @ [k]) \<and> (ks @ [k]) ! i = j"
  using assms by (auto simp: nth_append less_Suc_eq)

lemma index_missing:
  assumes "\<forall>k i. idx k = Some i \<longleftrightarrow> i < length ks \<and> ks ! i = k"
  shows "idx k = None \<longleftrightarrow> k \<notin> set ks"
  using assms by (metis in_set_conv_nth not_None_eq)

lemma merged_messages_none: "chat \<notin> hc_chat ` set cs \<Longrightarrow> merged_messages chat cs = []"
proof -
  assume "chat \<notin> hc_chat ` set cs"
  then have "filter (\<lambda>c. hc_chat c = chat) cs = []" by (auto simp: filter_empty_conv)
  then show ?thesis by (simp add: merged_messages_def)
qed

lemma merged_name_none: "k \<notin> key ` set xs \<Longrightarrow> merged_name key name k xs = []"
  by (auto simp: merged_name_def filter_empty_conv image_iff split: list.split dest: filter_eq_ConsD)

definition merged_conversation :: "hist_conversation list \<Rightarrow> string \<Rightarrow> hist_conversation" where
  "merged_conversation cs chat =
     \<lparr>hc_chat = chat, hc_name = merged_name hc_chat hc_name chat cs, hc_messages = merged_messages chat cs\<rparr>"

lemma merged_conversations_map: "merged_conversations cs = map (merged_conversation cs) (merged_keys hc_chat cs)"
  by (simp add: merged_conversations_def merged_conversation_def [abs_def])

lemma merged_conversation_other:
  "hc_chat c \<noteq> chat \<Longrightarrow> merged_conversation (cs @ [c]) chat = merged_conversation cs chat"
  by (simp add: merged_conversation_def merged_name_snoc merged_messages_snoc)

lemma fold_batch_merged:
  assumes "hc_chat stored = hc_chat c" "hc_messages stored = merged_messages (hc_chat c) cs"
    and "hc_name stored = merged_name hc_chat hc_name (hc_chat c) cs
      \<or> (hc_name stored = hc_name c \<and> merged_name hc_chat hc_name (hc_chat c) cs = [])"
    and "seen = hm_id ` set (hc_messages stored)"
  shows "fold_batch c stored seen
       = (merged_conversation (cs @ [c]) (hc_chat c), hm_id ` set (merged_messages (hc_chat c) (cs @ [c])))"
  using merge_messages [OF assms(4), of "hc_chat c" "hc_messages c"] assms
  by (auto simp: fold_batch_def merged_conversation_def merged_name_snoc merged_messages_snoc Let_def)

lemma merge_conversation_ok:
  assumes ok: "feed_conversations_ok cs f"
  shows "feed_conversations_ok (cs @ [c]) (merge_conversation c f)"
proof -
  let ?k = "hc_chat c" and ?ks = "merged_keys hc_chat cs"
  have convs: "hf_convs f = map (merged_conversation cs) ?ks"
    and idx: "\<forall>chat i. hf_conv_idx f chat = Some i \<longleftrightarrow> i < length ?ks \<and> ?ks ! i = chat"
    and seen: "\<And>chat. hf_seen f chat = hm_id ` set (merged_messages chat cs)"
    using ok by (auto simp: feed_conversations_ok_def merged_conversations_map)
  have other: "merged_messages chat (cs @ [c]) = merged_messages chat cs" if "chat \<noteq> ?k" for chat
    using that by (simp add: merged_messages_snoc)
  let ?seen = "hm_id ` set (merged_messages ?k (cs @ [c]))"
  show ?thesis
  proof (cases "hf_conv_idx f ?k")
    case (Some i)
    then have i: "i < length ?ks" "?ks ! i = ?k" using idx by auto
    then have "?k \<in> set ?ks" by (metis nth_mem)
    then have keys: "merged_keys hc_chat (cs @ [c]) = ?ks" by (simp add: merged_keys_snoc)
    have "fold_batch c (hf_convs f ! i) (hf_seen f ?k) = (merged_conversation (cs @ [c]) ?k, ?seen)"
      by (rule fold_batch_merged) (use convs i seen in \<open>simp_all add: merged_conversation_def\<close>)
    then have "merge_conversation c f =
        f\<lparr>hf_convs := (hf_convs f)[i := merged_conversation (cs @ [c]) ?k], hf_seen := (hf_seen f)(?k := ?seen)\<rparr>"
      by (simp add: merge_conversation_def enter_conversation_def Some)
    moreover have "(hf_convs f)[i := merged_conversation (cs @ [c]) ?k] = map (merged_conversation (cs @ [c])) ?ks"
      unfolding convs map_update_distinct [OF merged_keys_distinct i(1)]
      by (rule map_cong) (use i merged_conversation_other [of c] in auto)
    ultimately show ?thesis
      using idx seen other by (simp add: feed_conversations_ok_def merged_conversations_map keys)
  next
    case None
    then have new: "?k \<notin> set ?ks" using index_missing [OF idx] by simp
    then have keys: "merged_keys hc_chat (cs @ [c]) = ?ks @ [?k]" by (simp add: merged_keys_snoc)
    have m0: "merged_messages ?k cs = []" "merged_name hc_chat hc_name ?k cs = []"
      using new by (simp_all add: merged_messages_none merged_name_none)
    let ?fresh = "\<lparr>hc_chat = ?k, hc_name = hc_name c, hc_messages = []\<rparr>"
    have "fold_batch c ?fresh {} = (merged_conversation (cs @ [c]) ?k, ?seen)"
      by (rule fold_batch_merged) (simp_all add: m0)
    then have "merge_conversation c f = f\<lparr>hf_conv_idx := (hf_conv_idx f)(?k \<mapsto> length ?ks),
        hf_convs := hf_convs f @ [merged_conversation (cs @ [c]) ?k], hf_seen := (hf_seen f)(?k := ?seen)\<rparr>"
      by (simp add: merge_conversation_def enter_conversation_def None convs nth_append list_update_append)
    moreover have "map (merged_conversation cs) ?ks = map (merged_conversation (cs @ [c])) ?ks"
      using new by (intro map_cong refl) (metis merged_conversation_other)
    ultimately show ?thesis
      using index_snoc [OF idx new] seen other
      by (simp add: feed_conversations_ok_def merged_conversations_map keys convs)
  qed
qed

lemma merge_contact_ok:
  assumes ok: "feed_contacts_ok ks f"
  shows "feed_contacts_ok (ks @ [k]) (merge_contact k f)"
proof (cases "hk_jid k = []")
  case True
  then show ?thesis using ok by (simp add: merge_contact_def feed_contacts_ok_def merged_contacts_def)
next
  case False
  let ?ns = "filter (\<lambda>k. hk_jid k \<noteq> []) ks" and ?j = "hk_jid k"
  let ?js = "merged_keys hk_jid ?ns"
  define g where "g (xs :: hist_contact list) jid = \<lparr>hk_jid = jid, hk_name = merged_name hk_jid hk_name jid xs\<rparr>" for xs jid
  have cons: "hf_contacts f = map (g ?ns) ?js"
    and idx: "\<forall>jid i. hf_contact_idx f jid = Some i \<longleftrightarrow> i < length ?js \<and> ?js ! i = jid"
    using ok by (auto simp: feed_contacts_ok_def merged_contacts_def Let_def g_def [abs_def])
  have goal: "feed_contacts_ok (ks @ [k]) f' \<longleftrightarrow> hf_contacts f' = map (g (?ns @ [k])) (merged_keys hk_jid (?ns @ [k]))
      \<and> (\<forall>jid i. hf_contact_idx f' jid = Some i \<longleftrightarrow>
           i < length (merged_keys hk_jid (?ns @ [k])) \<and> merged_keys hk_jid (?ns @ [k]) ! i = jid)" for f'
    using False by (simp add: feed_contacts_ok_def merged_contacts_def Let_def g_def [abs_def])
  have other: "g (?ns @ [k]) jid = g ?ns jid" if "jid \<noteq> ?j \<or> hk_name (g ?ns jid) \<noteq> []" for jid
    using that by (auto simp: g_def merged_name_snoc)
  have named: "g (?ns @ [k]) ?j = (g ?ns ?j)\<lparr>hk_name := hk_name k\<rparr>" if "hk_name (g ?ns ?j) = []"
    using that by (simp add: g_def merged_name_snoc)
  show ?thesis
  proof (cases "hf_contact_idx f ?j")
    case (Some i)
    then have i: "i < length ?js" "?js ! i = ?j" using idx by auto
    then have "?j \<in> set ?js" by (metis nth_mem)
    then have keys: "merged_keys hk_jid (?ns @ [k]) = ?js" by (simp add: merged_keys_snoc)
    show ?thesis
    proof (cases "hk_name (g ?ns ?j) = []")
      case True
      have "(map (g ?ns) ?js)[i := (g ?ns ?j)\<lparr>hk_name := hk_name k\<rparr>] = map (g (?ns @ [k])) ?js"
        unfolding map_update_distinct [OF merged_keys_distinct i(1)]
        by (rule map_cong) (use i other named [OF True] in auto)
      moreover have "merge_contact k f = f\<lparr>hf_contacts := (map (g ?ns) ?js)[i := (g ?ns ?j)\<lparr>hk_name := hk_name k\<rparr>]\<rparr>"
        using Some i True \<open>hk_jid k \<noteq> []\<close> by (simp add: merge_contact_def cons)
      ultimately show ?thesis using idx by (simp add: goal keys)
    next
      case False
      then have "map (g ?ns) ?js = map (g (?ns @ [k])) ?js"
        by (intro map_cong refl) (metis other)
      moreover have "merge_contact k f = f"
        using Some i False \<open>hk_jid k \<noteq> []\<close> by (simp add: merge_contact_def cons)
      ultimately show ?thesis using idx cons by (simp add: goal keys)
    qed
  next
    case None
    then have new: "?j \<notin> set ?js" using index_missing [OF idx] by simp
    then have keys: "merged_keys hk_jid (?ns @ [k]) = ?js @ [?j]" by (simp add: merged_keys_snoc)
    have "map (g ?ns) ?js = map (g (?ns @ [k])) ?js"
      using new by (intro map_cong refl) (metis other)
    moreover have "g (?ns @ [k]) ?j = k"
      using new by (simp add: g_def merged_name_snoc merged_name_none)
    ultimately show ?thesis
      using None False index_snoc [OF idx new] by (simp add: goal keys merge_contact_def cons)
  qed
qed

lemma merge_conversation_contacts [simp]:
  "hf_contacts (merge_conversation c f) = hf_contacts f" "hf_contact_idx (merge_conversation c f) = hf_contact_idx f"
  "hf_chunks (merge_conversation c f) = hf_chunks f" "hf_progress (merge_conversation c f) = hf_progress f"
  by (simp_all add: merge_conversation_def enter_conversation_def split: option.split prod.split)

lemma merge_contact_conversations [simp]:
  "hf_convs (merge_contact k f) = hf_convs f" "hf_conv_idx (merge_contact k f) = hf_conv_idx f"
  "hf_seen (merge_contact k f) = hf_seen f" "hf_chunks (merge_contact k f) = hf_chunks f"
  "hf_progress (merge_contact k f) = hf_progress f"
  by (simp_all add: merge_contact_def split: option.split)

lemma conversations_ok_cong:
  "hf_convs f = hf_convs g \<Longrightarrow> hf_conv_idx f = hf_conv_idx g \<Longrightarrow> hf_seen f = hf_seen g \<Longrightarrow>
    feed_conversations_ok cs f = feed_conversations_ok cs g"
  by (simp add: feed_conversations_ok_def)

lemma contacts_ok_cong:
  "hf_contacts f = hf_contacts g \<Longrightarrow> hf_contact_idx f = hf_contact_idx g \<Longrightarrow> feed_contacts_ok ks f = feed_contacts_ok ks g"
  by (simp add: feed_contacts_ok_def)

lemma merge_all_ok:
  "feed_conversations_ok cs f \<Longrightarrow> feed_contacts_ok ks f \<Longrightarrow>
   feed_conversations_ok (cs @ xs) (fold merge_conversation xs f) \<and> feed_contacts_ok ks (fold merge_conversation xs f)
   \<and> hf_chunks (fold merge_conversation xs f) = hf_chunks f \<and> hf_progress (fold merge_conversation xs f) = hf_progress f"
proof (induction xs arbitrary: cs f)
  case (Cons x xs)
  have "feed_contacts_ok ks (merge_conversation x f)"
    using Cons.prems(2) contacts_ok_cong [of "merge_conversation x f" f ks] by simp
  from Cons.IH [OF merge_conversation_ok [OF Cons.prems(1)] this] show ?case by simp
qed simp

lemma merge_contacts_ok:
  "feed_conversations_ok cs f \<Longrightarrow> feed_contacts_ok ks f \<Longrightarrow>
   feed_contacts_ok (ks @ xs) (fold merge_contact xs f) \<and> feed_conversations_ok cs (fold merge_contact xs f)
   \<and> hf_chunks (fold merge_contact xs f) = hf_chunks f \<and> hf_progress (fold merge_contact xs f) = hf_progress f"
proof (induction xs arbitrary: ks f)
  case (Cons x xs)
  have "feed_conversations_ok cs (merge_contact x f)"
    using Cons.prems(1) conversations_ok_cong [of "merge_contact x f" f cs] by simp
  from Cons.IH [OF this merge_contact_ok [OF Cons.prems(2)]] show ?case by simp
qed simp

lemma feed_observe_ok:
  assumes "feed_conversations_ok cs f" "feed_contacts_ok ks f"
  shows "feed_conversations_ok (cs @ hx_conversations x) (feed_observe now x f)
    \<and> feed_contacts_ok (ks @ hx_contacts x) (feed_observe now x f)
    \<and> hf_chunks (feed_observe now x f) = hf_chunks f + 1
    \<and> hf_progress (feed_observe now x f) = max (hf_progress f) (hx_progress x)"
proof -
  define f1 where "f1 = f\<lparr>hf_chunks := hf_chunks f + 1\<rparr>"
  define f2 where "f2 = (if hx_progress x > hf_progress f1 then f1\<lparr>hf_progress := hx_progress x\<rparr> else f1)"
  define f3 where "f3 = (if hx_type x \<noteq> [] then f2\<lparr>hf_type := hx_type x\<rparr> else f2)"
  define f4 where "f4 = fold merge_conversation (hx_conversations x) f3"
  define f5 where "f5 = fold merge_contact (hx_contacts x) f4"
  have "feed_conversations_ok cs f3" "feed_contacts_ok ks f3"
    using assms conversations_ok_cong [of f3 f cs] contacts_ok_cong [of f3 f ks] by (simp_all add: f3_def f2_def f1_def)
  from merge_all_ok [OF this, of "hx_conversations x"]
  have 4: "feed_conversations_ok (cs @ hx_conversations x) f4" "feed_contacts_ok ks f4"
    "hf_chunks f4 = hf_chunks f3" "hf_progress f4 = hf_progress f3" by (simp_all add: f4_def)
  from merge_contacts_ok [OF 4(1,2), of "hx_contacts x"]
  have 5: "feed_conversations_ok (cs @ hx_conversations x) f5" "feed_contacts_ok (ks @ hx_contacts x) f5"
    "hf_chunks f5 = hf_chunks f4" "hf_progress f5 = hf_progress f4" by (simp_all add: f5_def)
  have o: "feed_observe now x f = f5\<lparr>hf_updated := now\<rparr>"
    unfolding feed_observe_def Let_def f1_def [symmetric] f2_def [symmetric] f3_def [symmetric]
      f4_def [symmetric] f5_def [symmetric] by simp
  show ?thesis
    unfolding o using 5 4 conversations_ok_cong [of "f5\<lparr>hf_updated := now\<rparr>" f5]
      contacts_ok_cong [of "f5\<lparr>hf_updated := now\<rparr>" f5]
    by (simp add: f3_def f2_def f1_def max_def)
qed

definition observed :: "(instant \<times> hist_chunk) list \<Rightarrow> hist_feed \<Rightarrow> hist_feed" where
  "observed xs = fold (\<lambda>(now, x). feed_observe now x) xs"

lemma observed_ok:
  "feed_conversations_ok cs f \<Longrightarrow> feed_contacts_ok ks f \<Longrightarrow>
   feed_conversations_ok (cs @ concat (map (hx_conversations \<circ> snd) xs)) (observed xs f)
   \<and> feed_contacts_ok (ks @ concat (map (hx_contacts \<circ> snd) xs)) (observed xs f)
   \<and> hf_chunks (observed xs f) = hf_chunks f + length xs
   \<and> hf_progress (observed xs f) = fold max (map (hx_progress \<circ> snd) xs) (hf_progress f)"
proof (induction xs arbitrary: cs ks f)
  case (Cons p xs)
  obtain now x where p: "p = (now, x)" by fastforce
  note o = feed_observe_ok [OF Cons.prems, of x now]
  from Cons.IH [of "cs @ hx_conversations x" "feed_observe now x f" "ks @ hx_contacts x"] o
  show ?case by (simp add: observed_def p max.commute)
qed (simp add: observed_def)

lemma empty_feed_ok: "feed_conversations_ok [] empty_feed" "feed_contacts_ok [] empty_feed"
  by (simp_all add: feed_conversations_ok_def feed_contacts_ok_def empty_feed_def merged_conversations_def merged_contacts_def
      merged_keys_def merged_messages_def Let_def)

text \<open>
  C40: the incremental merge computes its specification. After any chunks since the last reset, the
  snapshot has the chats in the order they were first seen, each once, with its first name that is not
  empty and its messages in arrival order, each id once; likewise the contacts.
\<close>

theorem the_feed_is_the_merge_of_its_chunks:
  "let s = feed_snapshot (observed xs (feed_reset f)) in
     hn_conversations s = merged_conversations (concat (map (hx_conversations \<circ> snd) xs))
   \<and> hn_contacts s = merged_contacts (concat (map (hx_contacts \<circ> snd) xs))
   \<and> hn_chunks s = length xs \<and> hn_progress s = fold max (map (hx_progress \<circ> snd) xs) 0"
  using observed_ok [OF empty_feed_ok, of xs]
  by (simp add: feed_snapshot_def feed_reset_def feed_conversations_ok_def feed_contacts_ok_def Let_def)
     (simp add: empty_feed_def)

end
