(* ===== verification/SessionState.thy ===== *)
theory SessionState
  imports SessionMessages HistorySync
begin

text \<open>
  The state of the session manager, \<^verbatim>\<open>internal/session/whatsmeow/manager.go\<close>, and of its reconnect loops,
  \<^verbatim>\<open>reconnect.go\<close>. A session is an object: the manager maps instances to handles into a heap, so that
  a caller can still use a session the manager has let go. A reconnect loop is a run with its own
  cancel flag; the session has the run that is current.
\<close>

section \<open>Reconnect delays\<close>

definition reconnect_base :: duration where "reconnect_base = 2 * second"
definition reconnect_max :: duration where "reconnect_max = 2 * minute"

fun reconnect_doubling :: "nat \<Rightarrow> duration \<Rightarrow> duration" where
  "reconnect_doubling 0 wait = wait"
| "reconnect_doubling (Suc n) wait = (if wait < reconnect_max then reconnect_doubling n (wait * 2) else wait)"

text \<open>\<open>drawn\<close> is the number \<^verbatim>\<open>rand.Int64N\<close> answers, below its bound.\<close>

definition default_jitter :: "int \<Rightarrow> duration \<Rightarrow> duration" where
  "default_jitter drawn d = (let half = d div 2 in if half \<le> 0 then d else half + drawn mod (half + 1))"

definition reconnect_delay :: "int \<Rightarrow> nat \<Rightarrow> duration" where
  "reconnect_delay drawn attempt =
     (let wait = reconnect_doubling attempt reconnect_base;
          wait = (if wait > reconnect_max then reconnect_max else wait)
      in default_jitter drawn wait)"

lemma reconnect_doubling_closed: "0 < wait \<Longrightarrow> wait \<le> reconnect_max \<Longrightarrow>
    min (reconnect_doubling n wait) reconnect_max = min (wait * 2 ^ n) reconnect_max"
proof (induction n arbitrary: wait)
  case (Suc n)
  show ?case
  proof (cases "wait * 2 \<le> reconnect_max")
    case True
    then have "wait < reconnect_max" using Suc.prems by simp
    then show ?thesis using Suc.IH [of "wait * 2"] True Suc.prems by (simp add: mult.assoc)
  next
    case False
    have "reconnect_max \<le> reconnect_doubling n v" if "reconnect_max \<le> v" for v
      using that by (induction n) (cases n; auto)+
    then have "reconnect_max \<le> reconnect_doubling (Suc n) wait" using False Suc.prems by auto
    moreover have "wait * 2 \<le> wait * 2 ^ Suc n" using Suc.prems by simp
    ultimately show ?thesis using False by simp
  qed
qed simp

text \<open>
  The wait before attempt n of a reconnect loop is between half of and all of 2^(n+1) seconds, and
  never more than two minutes.
\<close>

theorem reconnect_delay_bounds:
  "min (2 ^ Suc n * second) (2 * minute) div 2 \<le> reconnect_delay drawn n
    \<and> reconnect_delay drawn n \<le> min (2 ^ Suc n * second) (2 * minute)"
proof -
  let ?w = "reconnect_doubling n reconnect_base"
  have m: "min ?w reconnect_max = min (2 ^ Suc n * second) (2 * minute)"
    using reconnect_doubling_closed [of reconnect_base n]
    by (simp add: reconnect_base_def reconnect_max_def duration_defs mult.commute mult.left_commute)
  have d: "reconnect_delay drawn n = default_jitter drawn (min ?w reconnect_max)"
    by (simp add: reconnect_delay_def Let_def min_def)
  have j: "v div 2 \<le> default_jitter drawn v \<and> default_jitter drawn v \<le> v" if "0 < v" for v
  proof (cases "v div 2 \<le> 0")
    case True
    then show ?thesis using that by (simp add: default_jitter_def Let_def)
  next
    case False
    then have "0 < v div 2 + 1" by simp
    from pos_mod_bound [OF this, of drawn] pos_mod_sign [OF this, of drawn]
    have "0 \<le> drawn mod (v div 2 + 1)" "drawn mod (v div 2 + 1) < v div 2 + 1" by simp_all
    then show ?thesis using False by (simp add: default_jitter_def Let_def)
  qed
  have "0 < min (2 ^ Suc n * second) (2 * minute)" by (simp add: duration_defs)
  then show ?thesis unfolding d m by (rule j)
qed

section \<open>Sessions and runs\<close>

record wa_session =
  sn_instance :: uuid
  sn_status :: string
  sn_jid :: string
  sn_paired :: bool
  sn_terminal :: bool
  sn_qr :: string
  sn_qr_expires :: instant
  sn_first :: bool
  sn_qr_cancel :: bool
  sn_reason :: string
  sn_run :: "nat option"
  sn_history :: hist_feed

record reconnect_run =
  rn_session :: nat
  rn_attempt :: nat
  rn_cancelled :: bool

record sessions =
  mg_map :: "uuid \<Rightarrow> nat option"
  mg_heap :: "nat \<Rightarrow> wa_session"
  mg_next :: nat
  mg_runs :: "nat \<Rightarrow> reconnect_run option"
  mg_next_run :: nat

definition new_session :: "uuid \<Rightarrow> string option \<Rightarrow> wa_session" where
  "new_session inst device_id =
     \<lparr>sn_instance = inst, sn_status = status_disconnected,
      sn_jid = (case device_id of Some j \<Rightarrow> j | None \<Rightarrow> []),
      sn_paired = (case device_id of Some j \<Rightarrow> j \<noteq> [] | None \<Rightarrow> False), sn_terminal = False, sn_qr = [],
      sn_qr_expires = zero_time, sn_first = False, sn_qr_cancel = False, sn_reason = [], sn_run = None,
      sn_history = empty_feed\<rparr>"

definition no_sessions :: sessions where
  "no_sessions = \<lparr>mg_map = Map.empty, mg_heap = (\<lambda>_. new_session 0 None), mg_next = 0, mg_runs = Map.empty, mg_next_run = 0\<rparr>"

definition update_session :: "nat \<Rightarrow> (wa_session \<Rightarrow> wa_session) \<Rightarrow> sessions \<Rightarrow> sessions" where
  "update_session h f m = m\<lparr>mg_heap := (mg_heap m)(h := f (mg_heap m h))\<rparr>"

definition register_session :: "uuid \<Rightarrow> string option \<Rightarrow> sessions \<Rightarrow> nat \<times> sessions" where
  "register_session i device_id m =
     (mg_next m, m\<lparr>mg_heap := (mg_heap m)(mg_next m := new_session i device_id), mg_next := mg_next m + 1,
                   mg_map := (mg_map m)(i \<mapsto> mg_next m)\<rparr>)"

definition schedule_reconnect :: "nat \<Rightarrow> sessions \<Rightarrow> sessions" where
  "schedule_reconnect h m =
     (let s = mg_heap m h in
      if \<not> sn_paired s \<or> sn_terminal s \<or> sn_run s \<noteq> None then m
      else (update_session h (\<lambda>s. s\<lparr>sn_run := Some (mg_next_run m)\<rparr>) m)
             \<lparr>mg_runs := (mg_runs m)(mg_next_run m \<mapsto> \<lparr>rn_session = h, rn_attempt = 0, rn_cancelled = False\<rparr>),
              mg_next_run := mg_next_run m + 1\<rparr>)"

definition cancel_reconnect :: "nat \<Rightarrow> sessions \<Rightarrow> sessions" where
  "cancel_reconnect h m =
     (case sn_run (mg_heap m h) of
        None \<Rightarrow> m
      | Some r \<Rightarrow> (update_session h (\<lambda>s. s\<lparr>sn_run := None\<rparr>) m)
          \<lparr>mg_runs := (mg_runs m)(r := map_option (\<lambda>run. run\<lparr>rn_cancelled := True\<rparr>) (mg_runs m r))\<rparr>)"

definition connection_policy :: "nat \<Rightarrow> string \<Rightarrow> string \<Rightarrow> sessions \<Rightarrow> sessions" where
  "connection_policy h status reason m =
     (if status = status_disconnected \<and> reason = [] then schedule_reconnect h m else cancel_reconnect h m)"

definition terminal_state :: "string \<Rightarrow> string \<Rightarrow> bool" where
  "terminal_state status reason \<longleftrightarrow> status = status_error \<or> status = status_disconnected \<and> reason \<noteq> []"

text \<open>What \<^verbatim>\<open>setStatus\<close> does under the lock: None when it has nothing to report.\<close>

definition transition :: "string \<Rightarrow> string \<Rightarrow> string \<Rightarrow> wa_session \<Rightarrow> wa_session option" where
  "transition status jid reason s =
     (if status = status_disconnected \<and> reason = [] \<and> sn_terminal s then None
      else if sn_status s = status \<and> sn_reason s = reason then None
      else (let s = s\<lparr>sn_status := status, sn_reason := reason, sn_terminal := terminal_state status reason\<rparr>
            in Some (if jid \<noteq> [] then s\<lparr>sn_jid := jid, sn_paired := True\<rparr> else s)))"

text \<open>The deferred end of a loop and one failed attempt of it.\<close>

definition finish_run :: "nat \<Rightarrow> sessions \<Rightarrow> sessions" where
  "finish_run r m =
     (case mg_runs m r of
        None \<Rightarrow> m
      | Some run \<Rightarrow>
          (let m = m\<lparr>mg_runs := (mg_runs m)(r := None)\<rparr> in
           if sn_run (mg_heap m (rn_session run)) = Some r
           then update_session (rn_session run) (\<lambda>s. s\<lparr>sn_run := None\<rparr>) m else m))"

definition next_attempt :: "nat \<Rightarrow> sessions \<Rightarrow> sessions" where
  "next_attempt r m = m\<lparr>mg_runs := (mg_runs m)(r := map_option (\<lambda>run. run\<lparr>rn_attempt := rn_attempt run + 1\<rparr>) (mg_runs m r))\<rparr>"

section \<open>The invariant\<close>

definition session_ok :: "wa_session \<Rightarrow> bool" where
  "session_ok s \<longleftrightarrow>
     (sn_terminal s \<longleftrightarrow> terminal_state (sn_status s) (sn_reason s))
     \<and> (sn_paired s \<longleftrightarrow> sn_jid s \<noteq> [])
     \<and> (sn_run s \<noteq> None \<longrightarrow> sn_paired s \<and> sn_status s = status_disconnected \<and> sn_reason s = [])"

definition live_run :: "sessions \<Rightarrow> nat \<Rightarrow> nat \<Rightarrow> bool" where
  "live_run m r h \<longleftrightarrow> (\<exists>run. mg_runs m r = Some run \<and> rn_session run = h \<and> \<not> rn_cancelled run)"

text \<open>
  The map leads to sessions of the instance; every session is in order; a loop runs for a session exactly
  when it is the session's current run.
\<close>

definition sessions_ok :: "sessions \<Rightarrow> bool" where
  "sessions_ok m \<longleftrightarrow>
     (\<forall>i h. mg_map m i = Some h \<longrightarrow> h < mg_next m \<and> sn_instance (mg_heap m h) = i)
     \<and> (\<forall>h. session_ok (mg_heap m h))
     \<and> (\<forall>r h. live_run m r h \<longleftrightarrow> sn_run (mg_heap m h) = Some r)
     \<and> (\<forall>r. mg_next_run m \<le> r \<longrightarrow> mg_runs m r = None)
     \<and> (\<forall>h. mg_next m \<le> h \<longrightarrow> sn_run (mg_heap m h) = None)"

lemma session_ok_new: "session_ok (new_session i d)"
  by (auto simp: session_ok_def new_session_def terminal_state_def status_defs split: option.splits)

lemma sessions_ok_none: "sessions_ok no_sessions"
  by (simp add: sessions_ok_def no_sessions_def session_ok_new live_run_def) (simp add: new_session_def)

lemma sessions_okD:
  assumes "sessions_ok m"
  shows "mg_map m i = Some h \<Longrightarrow> h < mg_next m" "mg_map m i = Some h \<Longrightarrow> sn_instance (mg_heap m h) = i"
    "session_ok (mg_heap m h)" "live_run m r h \<longleftrightarrow> sn_run (mg_heap m h) = Some r"
    "mg_next_run m \<le> r \<Longrightarrow> mg_runs m r = None" "mg_next m \<le> h \<Longrightarrow> sn_run (mg_heap m h) = None"
  using assms unfolding sessions_ok_def by blast+

lemma sessions_okI:
  assumes "\<And>i h. mg_map m i = Some h \<Longrightarrow> h < mg_next m \<and> sn_instance (mg_heap m h) = i"
    and "\<And>h. session_ok (mg_heap m h)" "\<And>r h. live_run m r h \<longleftrightarrow> sn_run (mg_heap m h) = Some r"
    and "\<And>r. mg_next_run m \<le> r \<Longrightarrow> mg_runs m r = None" "\<And>h. mg_next m \<le> h \<Longrightarrow> sn_run (mg_heap m h) = None"
  shows "sessions_ok m"
  using assms unfolding sessions_ok_def by blast

text \<open>A change of one session that leaves its instance and its run alone.\<close>

lemma sessions_ok_update:
  assumes "sessions_ok m" "session_ok (f (mg_heap m h))"
    and "sn_instance (f (mg_heap m h)) = sn_instance (mg_heap m h)" "sn_run (f (mg_heap m h)) = sn_run (mg_heap m h)"
  shows "sessions_ok (update_session h f m)"
  using assms by (simp add: sessions_ok_def update_session_def live_run_def)

lemma sessions_ok_cancel:
  assumes ok: "sessions_ok m" shows "sessions_ok (cancel_reconnect h m)"
proof (cases "sn_run (mg_heap m h)")
  case None
  then show ?thesis using ok by (simp add: cancel_reconnect_def)
next
  case (Some r)
  then obtain run where run: "mg_runs m r = Some run" "rn_session run = h" "\<not> rn_cancelled run"
    using sessions_okD(4) [OF ok, of r h] by (auto simp: live_run_def)
  have others: "sn_run (mg_heap m k) \<noteq> Some r" if "k \<noteq> h" for k
    using sessions_okD(4) [OF ok, of r k] run that by (auto simp: live_run_def)
  have "session_ok ((mg_heap m h)\<lparr>sn_run := None\<rparr>)"
    using sessions_okD(3) [OF ok, of h] by (simp add: session_ok_def)
  then show ?thesis
    using ok Some run others by (auto simp: sessions_ok_def cancel_reconnect_def update_session_def live_run_def)
qed

lemma sessions_ok_schedule:
  assumes ok: "sessions_ok m" and s: "h < mg_next m" "sn_status (mg_heap m h) = status_disconnected" "sn_reason (mg_heap m h) = []"
  shows "sessions_ok (schedule_reconnect h m)"
proof (cases "\<not> sn_paired (mg_heap m h) \<or> sn_terminal (mg_heap m h) \<or> sn_run (mg_heap m h) \<noteq> None")
  case True
  then show ?thesis using ok by (simp add: schedule_reconnect_def)
next
  case False
  let ?r = "mg_next_run m"
  have fresh: "mg_runs m ?r = None" "\<And>k. sn_run (mg_heap m k) \<noteq> Some ?r"
    using sessions_okD(5) [OF ok, of ?r] sessions_okD(4) [OF ok, of ?r] by (auto simp: live_run_def)
  have "session_ok ((mg_heap m h)\<lparr>sn_run := Some ?r\<rparr>)"
    using sessions_okD(3) [OF ok, of h] s False by (simp add: session_ok_def)
  then show ?thesis
    using ok False fresh s
    by (auto simp: sessions_ok_def schedule_reconnect_def update_session_def live_run_def Let_def)
qed

lemma live_run_finish: "live_run (finish_run q m) r k \<longleftrightarrow> live_run m r k \<and> r \<noteq> q"
  by (cases "mg_runs m q") (auto simp: live_run_def finish_run_def update_session_def Let_def)

lemma finish_heap:
  "mg_heap (finish_run q m) k = (if sn_run (mg_heap m k) = Some q \<and> (\<exists>run. mg_runs m q = Some run \<and> rn_session run = k)
     then (mg_heap m k)\<lparr>sn_run := None\<rparr> else mg_heap m k)"
  by (cases "mg_runs m q") (auto simp: finish_run_def update_session_def Let_def)

lemma finish_fields:
  "mg_map (finish_run q m) = mg_map m" "mg_next (finish_run q m) = mg_next m" "mg_next_run (finish_run q m) = mg_next_run m"
  "mg_runs (finish_run q m) = (mg_runs m)(q := None)"
  by (cases "mg_runs m q"; auto simp: finish_run_def update_session_def Let_def fun_eq_iff)+

lemma session_ok_no_run: "session_ok s \<Longrightarrow> session_ok (s\<lparr>sn_run := None\<rparr>)"
  by (simp add: session_ok_def)

lemma sessions_ok_finish:
  assumes ok: "sessions_ok m" shows "sessions_ok (finish_run r m)"
proof (rule sessions_okI)
  fix q k
  have "sn_run (mg_heap m k) = Some r \<Longrightarrow> \<exists>run. mg_runs m r = Some run \<and> rn_session run = k"
    using sessions_okD(4) [OF ok, of r k] by (auto simp: live_run_def)
  then show "live_run (finish_run r m) q k \<longleftrightarrow> sn_run (mg_heap (finish_run r m) k) = Some q"
    using sessions_okD(4) [OF ok, of q k] by (auto simp: live_run_finish finish_heap)
qed (use sessions_okD [OF ok] in \<open>auto simp: finish_heap finish_fields session_ok_no_run\<close>)

lemma live_run_attempt: "live_run (next_attempt q m) r k \<longleftrightarrow> live_run m r k"
  by (cases "mg_runs m q") (auto simp: live_run_def next_attempt_def)

lemma sessions_ok_attempt:
  assumes ok: "sessions_ok m" shows "sessions_ok (next_attempt r m)"
  by (rule sessions_okI) (use sessions_okD [OF ok] in \<open>auto simp: live_run_attempt\<close>, auto simp: next_attempt_def sessions_okD [OF ok])

lemma sessions_ok_register:
  assumes ok: "sessions_ok m" "mg_map m i = None" and r: "register_session i d m = (h, m')"
  shows "sessions_ok m'"
proof (rule sessions_okI)
  have m': "mg_heap m' = (mg_heap m)(mg_next m := new_session i d)" "mg_next m' = mg_next m + 1"
    "mg_map m' = (mg_map m)(i \<mapsto> mg_next m)" "mg_runs m' = mg_runs m" "mg_next_run m' = mg_next_run m"
    using r by (auto simp: register_session_def)
  have new: "sn_run (new_session i d) = None" "sn_instance (new_session i d) = i" by (simp_all add: new_session_def)
  have live: "live_run m' r k = live_run m r k" for r k by (simp add: live_run_def m')
  show "mg_map m' j = Some k \<Longrightarrow> k < mg_next m' \<and> sn_instance (mg_heap m' k) = j" for j k
    using sessions_okD(1,2) [OF ok(1), of j k] new by (auto simp: m' split: if_splits)
  show "session_ok (mg_heap m' k)" for k
    using sessions_okD(3) [OF ok(1), of k] by (simp add: m' session_ok_new)
  show "live_run m' r k \<longleftrightarrow> sn_run (mg_heap m' k) = Some r" for r k
    using sessions_okD(4) [OF ok(1), of r k] sessions_okD(6) [OF ok(1), of "mg_next m"] new by (auto simp: live m')
  show "mg_next_run m' \<le> r \<Longrightarrow> mg_runs m' r = None" for r
    using sessions_okD(5) [OF ok(1), of r] by (simp add: m')
  show "mg_next m' \<le> k \<Longrightarrow> sn_run (mg_heap m' k) = None" for k
    using sessions_okD(6) [OF ok(1), of k] by (simp add: m')
qed

lemma sessions_ok_unmap: "sessions_ok m \<Longrightarrow> sessions_ok (m\<lparr>mg_map := (mg_map m)(i := None)\<rparr>)"
  by (auto simp: sessions_ok_def live_run_def)

lemma sessions_ok_remap:
  "sessions_ok m \<Longrightarrow> h < mg_next m \<Longrightarrow> sn_instance (mg_heap m h) = i \<Longrightarrow> sessions_ok (m\<lparr>mg_map := (mg_map m)(i \<mapsto> h)\<rparr>)"
  by (auto simp: sessions_ok_def live_run_def)

section \<open>Status changes\<close>

definition set_session_status :: "nat \<Rightarrow> string \<Rightarrow> string \<Rightarrow> string \<Rightarrow> sessions \<Rightarrow> sessions" where
  "set_session_status h status jid reason m =
     (case transition status jid reason (mg_heap m h) of
        None \<Rightarrow> m
      | Some s \<Rightarrow> connection_policy h status reason (update_session h (\<lambda>_. s) m))"

lemma transition_fields:
  assumes "transition status jid reason s = Some t"
  shows "sn_status t = status" "sn_reason t = reason" "sn_terminal t = terminal_state status reason"
    "sn_instance t = sn_instance s" "sn_run t = sn_run s" "sn_paired s \<Longrightarrow> sn_paired t"
    "(sn_paired s \<longleftrightarrow> sn_jid s \<noteq> []) \<Longrightarrow> (sn_paired t \<longleftrightarrow> sn_jid t \<noteq> [])"
    "sn_status s \<noteq> status \<or> sn_reason s \<noteq> reason" "sn_history t = sn_history s"
  using assms by (auto simp: transition_def Let_def split: if_splits)

lemma cancel_after_update:
  assumes "sn_run t = sn_run (mg_heap m h)"
  shows "cancel_reconnect h (update_session h (\<lambda>_. t) m) = update_session h (\<lambda>_. t\<lparr>sn_run := None\<rparr>) (cancel_reconnect h m)"
  using assms
  by (cases "sn_run (mg_heap m h)") (auto simp: cancel_reconnect_def update_session_def fun_eq_iff)

lemma cancel_heap:
  "mg_heap (cancel_reconnect h m) h = (mg_heap m h)\<lparr>sn_run := None\<rparr>"
  by (cases "sn_run (mg_heap m h)") (auto simp: cancel_reconnect_def update_session_def)

lemma set_session_status_ok:
  assumes ok: "sessions_ok m" and h: "h < mg_next m"
  shows "sessions_ok (set_session_status h status jid reason m)"
proof (cases "transition status jid reason (mg_heap m h)")
  case None
  then show ?thesis using ok by (simp add: set_session_status_def)
next
  case (Some t)
  note f = transition_fields [OF Some]
  have s: "session_ok (mg_heap m h)" using ok by (rule sessions_okD)
  show ?thesis
  proof (cases "status = status_disconnected \<and> reason = []")
    case True
    then have run: "sn_run (mg_heap m h) = None" using s f(8) by (auto simp: session_ok_def)
    have "session_ok t" using s f run by (simp add: session_ok_def)
    then have "sessions_ok (update_session h (\<lambda>_. t) m)"
      using ok f by (intro sessions_ok_update) simp_all
    then have "sessions_ok (schedule_reconnect h (update_session h (\<lambda>_. t) m))"
      by (rule sessions_ok_schedule) (use h f True in \<open>simp_all add: update_session_def\<close>)
    then show ?thesis using Some True by (simp add: set_session_status_def connection_policy_def)
  next
    case False
    have "session_ok (t\<lparr>sn_run := None\<rparr>)" using s f by (simp add: session_ok_def)
    then have "sessions_ok (update_session h (\<lambda>_. t\<lparr>sn_run := None\<rparr>) (cancel_reconnect h m))"
      using f by (intro sessions_ok_update sessions_ok_cancel ok) (simp_all add: cancel_heap)
    then show ?thesis
      using Some False cancel_after_update [OF f(5)] by (auto simp: set_session_status_def connection_policy_def)
  qed
qed

text \<open>The fields the policy and the runs leave alone.\<close>

lemma cancel_fields [simp]: "mg_map (cancel_reconnect h m) = mg_map m" "mg_next (cancel_reconnect h m) = mg_next m"
  by (cases "sn_run (mg_heap m h)"; simp add: cancel_reconnect_def update_session_def)+

lemma schedule_fields [simp]: "mg_map (schedule_reconnect h m) = mg_map m" "mg_next (schedule_reconnect h m) = mg_next m"
  by (simp_all add: schedule_reconnect_def update_session_def Let_def)

lemma sessions_map [simp]:
  "mg_map (update_session h f m) = mg_map m" "mg_map (finish_run r m) = mg_map m" "mg_map (next_attempt r m) = mg_map m"
  "mg_next (update_session h f m) = mg_next m" "mg_next (finish_run r m) = mg_next m" "mg_next (next_attempt r m) = mg_next m"
  by (simp_all add: update_session_def next_attempt_def finish_fields)

lemma set_session_status_map [simp]:
  "mg_map (set_session_status h st j r m) = mg_map m" "mg_next (set_session_status h st j r m) = mg_next m"
  by (simp_all add: set_session_status_def connection_policy_def split: option.split)

lemma cancel_heap_at: "mg_heap (cancel_reconnect h m) k = (if k = h then (mg_heap m h)\<lparr>sn_run := None\<rparr> else mg_heap m k)"
  using cancel_heap [of h m] by (cases "sn_run (mg_heap m h)") (auto simp: cancel_reconnect_def update_session_def)

lemma schedule_heap_at:
  "\<exists>run. mg_heap (schedule_reconnect h m) k = (if k = h then (mg_heap m h)\<lparr>sn_run := run\<rparr> else mg_heap m k)"
proof -
  have same: "\<exists>run. s = s\<lparr>sn_run := run\<rparr>" for s :: wa_session by (rule exI [of _ "sn_run s"]) simp
  show ?thesis
    using same [of "mg_heap m h"] by (auto simp: schedule_reconnect_def update_session_def Let_def)
qed

lemma policy_heap_at:
  "\<exists>run. mg_heap (connection_policy h status reason m) k = (if k = h then (mg_heap m h)\<lparr>sn_run := run\<rparr> else mg_heap m k)"
proof (cases "status = status_disconnected \<and> reason = []")
  case True
  then show ?thesis using schedule_heap_at by (simp add: connection_policy_def)
next
  case False
  then have "connection_policy h status reason m = cancel_reconnect h m" by (auto simp: connection_policy_def)
  then show ?thesis by (simp add: cancel_heap_at) blast
qed

lemma policy_other: "k \<noteq> h \<Longrightarrow> mg_heap (connection_policy h status reason m) k = mg_heap m k"
  using policy_heap_at [of h status reason m k] by simp

lemma policy_same: "\<exists>run. mg_heap (connection_policy h status reason m) h = (mg_heap m h)\<lparr>sn_run := run\<rparr>"
  using policy_heap_at [of h status reason m h] by simp

lemma policy_instance [simp]: "sn_instance (mg_heap (connection_policy h status reason m) k) = sn_instance (mg_heap m k)"
  using policy_other [of k h status reason m] policy_same [of h status reason m] by (cases "k = h") auto

lemma set_session_status_instance [simp]:
  "sn_instance (mg_heap (set_session_status h status jid reason m) k) = sn_instance (mg_heap m k)"
proof (cases "transition status jid reason (mg_heap m h)")
  case (Some t)
  then show ?thesis
    using transition_fields(4) [OF Some] by (simp add: set_session_status_def) (simp add: update_session_def)
qed (simp add: set_session_status_def)

lemma set_session_status_other:
  "k \<noteq> h \<Longrightarrow> mg_heap (set_session_status h status jid reason m) k = mg_heap m k"
  by (simp add: set_session_status_def policy_other update_session_def split: option.split)

text \<open>
  A terminal state sticks: a socket that closes after it changes nothing and starts no loop.
\<close>

lemma terminal_sticks:
  "sn_terminal (mg_heap m h) \<Longrightarrow> set_session_status h status_disconnected jid [] m = m"
  by (simp add: set_session_status_def transition_def)

text \<open>
  A drop of a paired session that is not terminal leaves a loop running for it, unless the session
  was disconnected without a reason before: then nothing happens at all. That is the state a session
  starts in, and stays in when a reconnect succeeds until the connected event arrives.
\<close>

lemma drop_schedules:
  assumes "sn_paired (mg_heap m h)" "\<not> sn_terminal (mg_heap m h)"
    and "\<not> (sn_status (mg_heap m h) = status_disconnected \<and> sn_reason (mg_heap m h) = [])"
  shows "sn_run (mg_heap (set_session_status h status_disconnected [] [] m) h) \<noteq> None"
  using assms
  by (auto simp: set_session_status_def transition_def connection_policy_def schedule_reconnect_def update_session_def
      terminal_state_def Let_def status_defs)

lemma first_drop_is_ignored:
  "set_session_status (fst (register_session i d m)) status_disconnected [] [] (snd (register_session i d m))
     = snd (register_session i d m)"
  by (simp add: set_session_status_def transition_def register_session_def new_session_def)

end
