(* ===== verification/ReconnectRace.thy ===== *)
theory ReconnectRace
  imports SessionState
begin

text \<open>
  Concurrent status changes. \<^verbatim>\<open>setStatus\<close> of \<^verbatim>\<open>manager.go\<close> updates the session under its lock, releases
  the lock, reports to the sink and then applies the reconnect policy, which takes the lock again. Two
  callers can so apply their policies in the other order than they made their changes. Here the two
  halves are steps of their own, and a change whose policy is still to come is pending.
\<close>

type_synonym race = "sessions \<times> (nat \<times> string \<times> string) list"

inductive race_step :: "race \<Rightarrow> race \<Rightarrow> bool" where
  race_change: "transition status jid reason (mg_heap m h) = Some s \<Longrightarrow>
    race_step (m, ps) (update_session h (\<lambda>_. s) m, (h, status, reason) # ps)"
| race_policy: "race_step (m, ps @ (h, status, reason) # qs) (connection_policy h status reason m, ps @ qs)"
| race_cancel: "race_step (m, ps) (cancel_reconnect h m, ps)"
| race_finish: "race_step (m, ps) (finish_run q m, ps)"
| race_retry: "race_step (m, ps) (next_attempt q m, ps)"

inductive race_reachable :: "race \<Rightarrow> bool" where
  race_start: "(\<And>h. sn_run (mg_heap m h) = None) \<Longrightarrow> race_reachable (m, [])"
| race_next: "race_reachable s \<Longrightarrow> race_step s t \<Longrightarrow> race_reachable t"

inductive_simps race_from_pair: "race_step (m, ps) t"

inductive_cases race_stepE: "race_step s t"

text \<open>A loop of a terminal session is about to be cancelled: the policy of its terminal change is pending.\<close>

definition doomed_loops :: "race \<Rightarrow> bool" where
  "doomed_loops s \<longleftrightarrow> (case s of (m, ps) \<Rightarrow>
     \<forall>h. sn_terminal (mg_heap m h) \<and> sn_run (mg_heap m h) \<noteq> None \<longrightarrow>
       (\<exists>status reason. (h, status, reason) \<in> set ps \<and> terminal_state status reason))"

lemma schedule_terminal: "sn_terminal (mg_heap m h) \<Longrightarrow> schedule_reconnect h m = m"
  by (simp add: schedule_reconnect_def)

lemma schedule_other: "k \<noteq> h \<Longrightarrow> mg_heap (schedule_reconnect h m) k = mg_heap m k"
  by (simp add: schedule_reconnect_def update_session_def Let_def)

lemma schedule_keeps_terminal: "sn_terminal (mg_heap (schedule_reconnect h m) k) = sn_terminal (mg_heap m k)"
  by (simp add: schedule_reconnect_def update_session_def Let_def)

lemma next_attempt_heap: "mg_heap (next_attempt q m) = mg_heap m"
  by (simp add: next_attempt_def)

lemma doomed_policy:
  assumes "doomed_loops (m, ps @ (h, status, reason) # qs)"
  shows "doomed_loops (connection_policy h status reason m, ps @ qs)"
proof (cases "status = status_disconnected \<and> reason = []")
  case True
  then have "\<not> terminal_state status reason" by (simp add: terminal_state_def status_defs)
  then have rest: "\<exists>st re. (k, st, re) \<in> set (ps @ qs) \<and> terminal_state st re"
    if "sn_terminal (mg_heap m k)" "sn_run (mg_heap m k) \<noteq> None" for k
    using assms that by (fastforce simp: doomed_loops_def)
  have pol: "connection_policy h status reason m = schedule_reconnect h m" using True by (simp add: connection_policy_def)
  have "sn_run (mg_heap (schedule_reconnect h m) k) = sn_run (mg_heap m k)" if "sn_terminal (mg_heap m k)" for k
    using that schedule_terminal [of m h] schedule_other [of k h m] by (cases "k = h") auto
  then show ?thesis
    using rest unfolding pol by (auto simp: doomed_loops_def schedule_keeps_terminal)
next
  case False
  then have pol: "connection_policy h status reason m = cancel_reconnect h m" by (auto simp: connection_policy_def)
  show ?thesis
    using assms unfolding pol by (fastforce simp: doomed_loops_def cancel_heap_at split: if_splits)
qed

lemma doomed_step: "race_step s t \<Longrightarrow> doomed_loops s \<Longrightarrow> doomed_loops t"
proof (induction rule: race_step.induct)
  case (race_change status jid reason m h s ps)
  note f = transition_fields [OF race_change(1)]
  show ?case
    using race_change(2) f by (auto simp: doomed_loops_def update_session_def)
next
  case (race_policy m ps h status reason qs)
  then show ?case by (rule doomed_policy)
next
  case (race_cancel m ps h)
  then show ?case by (auto simp: doomed_loops_def cancel_heap_at split: if_splits)
next
  case (race_finish m ps q)
  then show ?case by (auto simp: doomed_loops_def finish_heap split: if_splits)
qed (simp add: doomed_loops_def next_attempt_heap)

lemma reachable_doomed: "race_reachable s \<Longrightarrow> doomed_loops s"
  by (induction rule: race_reachable.induct) (auto simp: doomed_loops_def [of "(m, [])" for m] intro: doomed_step)



end
