(* ===== verification/Session.thy ===== *)
theory Session
  imports SessionState
begin

text \<open>
  The session manager over the WhatsApp library: \<^verbatim>\<open>manager.go\<close>, \<^verbatim>\<open>pairing.go\<close>, \<^verbatim>\<open>reconnect.go\<close> and the
  dispatch of \<^verbatim>\<open>events.go\<close>. The library, its device store and the clock are an oracle: each question is
  answered by a function of the number of questions asked before, so whatever they answer in whatever
  order is some oracle. A status change is reported to the sink of \<open>Runtime\<close>.
\<close>

section \<open>The world of the sessions\<close>

datatype device_answer = DeviceFailed | DeviceMissing | DeviceLoaded "string option"

datatype qr_item =
    QrCode string duration | QrSuccess | QrTimeout | QrError "string option" | QrOutdated | QrScanned
  | QrUnexpected | QrOther | QrClosed

datatype qr_wait = WaitTimeout | WaitCancelled string

record wa_lib =
  wl_parse_jid :: "string \<Rightarrow> string option"
  wl_device :: "nat \<Rightarrow> string \<Rightarrow> device_answer"
  wl_connected :: "nat \<Rightarrow> bool"
  wl_connect :: "nat \<Rightarrow> lib_err option"
  wl_logout :: "nat \<Rightarrow> lib_err option"
  wl_store_id :: "nat \<Rightarrow> bool"
  wl_store_jid :: "nat \<Rightarrow> string"
  wl_store_deleted :: "nat \<Rightarrow> bool"
  wl_store_delete :: "nat \<Rightarrow> bool"
  wl_qr_channel :: "nat \<Rightarrow> string option"
  wl_qr_items :: "nat \<Rightarrow> qr_item list"
  wl_wait :: "nat \<Rightarrow> qr_wait"
  wl_restore_cut :: "nat \<Rightarrow> string option"

record session_config =
  cf_lib :: wa_lib
  cf_context :: "nat \<Rightarrow> event_context"
  cf_sink :: bool
  cf_order :: "wa_instance list \<Rightarrow> wa_instance list"
  cf_public_url :: string
  cf_storage :: storage_config
  cf_drawn :: "nat \<Rightarrow> uuid \<times> string"
  cf_download :: "downloader option"
  cf_parse_id :: "string \<Rightarrow> uuid option"
  cf_show_id :: "uuid \<Rightarrow> string"

record wa_rest =
  wr_sessions :: sessions
  wr_worker :: worker
  wr_files :: files
  wr_tick :: nat

type_synonym wa_world = "wa_rest world"

definition on_sessions :: "(sessions \<Rightarrow> sessions) \<Rightarrow> wa_world \<Rightarrow> wa_world" where
  "on_sessions f w = w\<lparr>w_rest := (w_rest w)\<lparr>wr_sessions := f (wr_sessions (w_rest w))\<rparr>\<rparr>"

definition on_session :: "nat \<Rightarrow> (wa_session \<Rightarrow> wa_session) \<Rightarrow> wa_world \<Rightarrow> wa_world" where
  "on_session h f = on_sessions (update_session h f)"

definition the_session :: "nat \<Rightarrow> wa_world \<Rightarrow> wa_session" where
  "the_session h w = mg_heap (wr_sessions (w_rest w)) h"

text \<open>The next answer of the oracle.\<close>

definition ask :: "(nat \<Rightarrow> 'a) \<Rightarrow> wa_world \<Rightarrow> 'a \<times> wa_world" where
  "ask f w = (f (wr_tick (w_rest w)), w\<lparr>w_rest := (w_rest w)\<lparr>wr_tick := wr_tick (w_rest w) + 1\<rparr>\<rparr>)"

definition on_sink :: "(sink \<Rightarrow> sink) \<Rightarrow> wa_world \<Rightarrow> wa_world" where
  "on_sink f w = (case f (wr_worker (w_rest w), w_db w) of
     (k, d) \<Rightarrow> w\<lparr>w_db := d, w_rest := (w_rest w)\<lparr>wr_worker := k\<rparr>\<rparr>)"

definition emit_connection :: "session_config \<Rightarrow> uuid \<Rightarrow> string \<Rightarrow> string \<Rightarrow> string \<Rightarrow> wa_world \<Rightarrow> wa_world" where
  "emit_connection cf i status jid reason w =
     (if \<not> cf_sink cf then w
      else case ask (cf_context cf) w of (ec, w) \<Rightarrow> on_sink (on_connection ec i status jid reason) w)"

definition set_status :: "session_config \<Rightarrow> nat \<Rightarrow> string \<Rightarrow> string \<Rightarrow> string \<Rightarrow> wa_world \<Rightarrow> wa_world" where
  "set_status cf h status jid reason w =
     (case transition status jid reason (the_session h w) of
        None \<Rightarrow> w
      | Some s \<Rightarrow>
          (let w = on_session h (\<lambda>_. s) w;
               w = emit_connection cf (sn_instance s) status (sn_jid s) reason w
           in on_sessions (connection_policy h status reason) w))"

section \<open>Pairing\<close>

type_synonym qr_result = "session_err + string \<times> instant"

definition store_qr :: "nat \<Rightarrow> string \<Rightarrow> instant \<Rightarrow> wa_world \<Rightarrow> wa_world" where
  "store_qr h code expires = on_session h (\<lambda>s. s\<lparr>sn_qr := code, sn_qr_expires := expires\<rparr>)"

definition deliver_first :: "nat \<Rightarrow> qr_result \<Rightarrow> wa_world \<Rightarrow> qr_result option \<times> wa_world" where
  "deliver_first h res w =
     (if sn_first (the_session h w) then (Some res, on_session h (\<lambda>s. s\<lparr>sn_first := False\<rparr>) w) else (None, w))"

definition fail_pairing :: "session_config \<Rightarrow> nat \<Rightarrow> string \<Rightarrow> wa_world \<Rightarrow> qr_result option \<times> wa_world" where
  "fail_pairing cf h reason w =
     (case deliver_first h (Inl (ErrSession reason)) (store_qr h [] zero_time w) of
        (res, w) \<Rightarrow> (res, set_status cf h status_error [] reason w))"

text \<open>One item of the pairing channel: what a waiting caller receives and whether the channel is done.\<close>

definition monitor_item :: "session_config \<Rightarrow> nat \<Rightarrow> qr_item \<Rightarrow> wa_world \<Rightarrow> (qr_result option \<times> bool) \<times> wa_world" where
  "monitor_item cf h it w =
     (case it of
        QrCode code timeout \<Rightarrow>
          (case ask (cf_context cf) w of
             (ec, w) \<Rightarrow> (let expires = ec_now ec + timeout in
               case deliver_first h (Inr (code, expires)) (store_qr h code expires w) of (res, w) \<Rightarrow> ((res, False), w)))
      | QrSuccess \<Rightarrow>
          (case deliver_first h (Inl (ErrSession ''pairing finished before a qr code was delivered''))
                  (store_qr h [] zero_time w) of
             (res, w) \<Rightarrow> (case ask (wl_store_jid (cf_lib cf)) w of
               (jid, w) \<Rightarrow> ((res, True), set_status cf h status_connected jid [] w)))
      | QrTimeout \<Rightarrow>
          (case deliver_first h (Inl (ErrSession ''qr pairing timed out'')) (store_qr h [] zero_time w) of
             (res, w) \<Rightarrow> ((res, True), set_status cf h status_disconnected [] ''qr code expired'' w))
      | QrError cause \<Rightarrow>
          (case fail_pairing cf h (case cause of Some e \<Rightarrow> e | None \<Rightarrow> ''qr pairing failed'') w of
             (res, w) \<Rightarrow> ((res, True), w))
      | QrOutdated \<Rightarrow>
          (case fail_pairing cf h ''whatsapp client outdated: update whatsmeow to the latest version and pair again'' w of
             (res, w) \<Rightarrow> ((res, True), w))
      | QrScanned \<Rightarrow>
          (case fail_pairing cf h
             ''qr scanned without multidevice enabled on the phone: enable linked devices and pair again'' w of
             (res, w) \<Rightarrow> ((res, True), w))
      | QrUnexpected \<Rightarrow>
          (case fail_pairing cf h
             ''unexpected pairing state: the pairing already finished or the channel is stale, start a new pairing'' w of
             (res, w) \<Rightarrow> ((res, True), w))
      | QrOther \<Rightarrow> ((None, False), w)
      | QrClosed \<Rightarrow> ((None, True), set_status cf h status_disconnected [] ''qr channel closed'' w))"

text \<open>The items of the channel while a caller waits for the first result, up to that result.\<close>

fun await_first :: "session_config \<Rightarrow> nat \<Rightarrow> qr_item list \<Rightarrow> wa_world \<Rightarrow> qr_result \<times> wa_world" where
  "await_first cf h [] w =
     (case ask (wl_wait (cf_lib cf)) w of
        (WaitTimeout, w) \<Rightarrow> (Inl ErrTransient, w)
      | (WaitCancelled e, w) \<Rightarrow> (Inl (ErrSession e), w))"
| "await_first cf h (it # rest) w =
     (case monitor_item cf h it w of
        ((Some res, _), w) \<Rightarrow> (res, w)
      | ((None, finished), w) \<Rightarrow> await_first cf h (if finished then [] else rest) w)"

section \<open>The operations of a session\<close>

definition connect_existing :: "session_config \<Rightarrow> wa_world \<Rightarrow> (session_err + unit) \<times> wa_world" where
  "connect_existing cf w =
     (case ask (wl_connect (cf_lib cf)) w of
        (None, w) \<Rightarrow> (Inr (), w)
      | (Some e, w) \<Rightarrow> (if e = LibAlreadyConnected then Inr () else Inl (classify_session_error e), w))"

definition open_pairing :: "session_config \<Rightarrow> nat \<Rightarrow> wa_world \<Rightarrow> qr_result \<times> wa_world" where
  "open_pairing cf h w =
     (case ask (wl_qr_channel (cf_lib cf)) w of
        (Some e, w) \<Rightarrow> (Inl (ErrSession e), w)
      | (None, w) \<Rightarrow>
          (let w = on_session h (\<lambda>s. s\<lparr>sn_qr_cancel := True, sn_first := True\<rparr>) w in
           case ask (wl_connect (cf_lib cf)) w of
             (Some e, w) \<Rightarrow> (Inl (classify_session_error e), w)
           | (None, w) \<Rightarrow>
               (let w = set_status cf h status_pairing [] [] w in
                case ask (wl_qr_items (cf_lib cf)) w of (items, w) \<Rightarrow> await_first cf h items w)))"

definition session_connect :: "session_config \<Rightarrow> nat \<Rightarrow> (session_err, string \<times> instant, wa_rest) op" where
  "session_connect cf h w =
     (let w = on_sessions (cancel_reconnect h) w in
      case ask (wl_store_deleted (cf_lib cf)) w of
        (True, w) \<Rightarrow> (Inl ErrNoDevice, w)
      | (False, w) \<Rightarrow>
          (case ask (wl_connected (cf_lib cf)) w of
             (up, w) \<Rightarrow>
               if up \<and> sn_status (the_session h w) = status_connected then (Inl (ErrSession ''session already connected''), w)
               else case ask (wl_store_id (cf_lib cf)) w of
                 (True, w) \<Rightarrow>
                   (case ask (wl_connect (cf_lib cf)) w of
                      (Some e, w) \<Rightarrow> (Inl (classify_session_error e), w)
                    | (None, w) \<Rightarrow> (Inr ([], zero_time), w))
               | (False, w) \<Rightarrow>
                   (case ask (wl_connected (cf_lib cf)) w of
                      (True, w) \<Rightarrow> (Inl (ErrSession ''pairing channel already open''), w)
                    | (False, w) \<Rightarrow> open_pairing cf h w)))"

definition session_qr :: "session_config \<Rightarrow> nat \<Rightarrow> (session_err, string \<times> instant, wa_rest) op" where
  "session_qr cf h w =
     (case ask (cf_context cf) w of
        (ec, w) \<Rightarrow> (let s = the_session h w in
          if sn_status s = status_connected then (Inl (ErrSession ''session already connected''), w)
          else if sn_qr s = [] \<or> ec_now ec > sn_qr_expires s then (Inl (ErrSession ''no qr code available''), w)
          else (Inr (sn_qr s, sn_qr_expires s), w)))"

definition cancel_qr :: "nat \<Rightarrow> wa_world \<Rightarrow> wa_world" where
  "cancel_qr h = on_session h (\<lambda>s. s\<lparr>sn_qr_cancel := False\<rparr>)"

text \<open>The attempted logout never fails the teardown.\<close>

definition logout_tolerantly :: "session_config \<Rightarrow> wa_world \<Rightarrow> wa_world" where
  "logout_tolerantly cf w = snd (ask (wl_logout (cf_lib cf)) w)"

definition teardown :: "session_config \<Rightarrow> nat \<Rightarrow> wa_world \<Rightarrow> wa_world" where
  "teardown cf h w = logout_tolerantly cf (on_sessions (cancel_reconnect h) (cancel_qr h w))"

definition session_disconnect :: "session_config \<Rightarrow> nat \<Rightarrow> (session_err, unit, wa_rest) op" where
  "session_disconnect cf h w =
     (let w = teardown cf h w;
          w = on_session h (\<lambda>s. s\<lparr>sn_jid := [], sn_paired := False\<rparr>) w
      in (Inr (), set_status cf h status_disconnected [] ''disconnected by request'' w))"

definition session_remove :: "session_config \<Rightarrow> nat \<Rightarrow> (session_err, unit, wa_rest) op" where
  "session_remove cf h w =
     (let w = teardown cf h w;
          gone = (\<lambda>w. (Inr (), if sn_status (the_session h w) \<noteq> status_disconnected
                               then set_status cf h status_disconnected [] ''session removed'' w else w))
      in case ask (wl_store_id (cf_lib cf)) w of
           (False, w) \<Rightarrow> gone w
         | (True, w) \<Rightarrow>
             (case ask (wl_store_delete (cf_lib cf)) w of
                (False, w) \<Rightarrow> (Inl (ErrSession ''delete device''), w)
              | (True, w) \<Rightarrow> gone w))"

section \<open>The manager\<close>

definition manager_get :: "uuid \<Rightarrow> wa_world \<Rightarrow> nat option" where
  "manager_get i w = mg_map (wr_sessions (w_rest w)) i"

definition load_device :: "session_config \<Rightarrow> string \<Rightarrow> wa_world \<Rightarrow> (session_err + string option) \<times> wa_world" where
  "load_device cf jid w =
     (case wl_parse_jid (cf_lib cf) jid of
        None \<Rightarrow> (Inl (ErrSession ''parse jid''), w)
      | Some parsed \<Rightarrow>
          (case ask (\<lambda>n. wl_device (cf_lib cf) n parsed) w of
             (DeviceFailed, w) \<Rightarrow> (Inl (ErrSession ''load device''), w)
           | (DeviceMissing, w) \<Rightarrow> (Inl ErrNoDevice, w)
           | (DeviceLoaded d, w) \<Rightarrow> (Inr d, w)))"

definition device_for :: "session_config \<Rightarrow> wa_instance \<Rightarrow> wa_world \<Rightarrow> (session_err + string option) \<times> wa_world" where
  "device_for cf inst w = (if inst_jid inst = [] then (Inr None, w) else load_device cf (inst_jid inst) w)"

definition register :: "uuid \<Rightarrow> string option \<Rightarrow> wa_world \<Rightarrow> nat \<times> wa_world" where
  "register i d w = (fst (register_session i d (wr_sessions (w_rest w))), on_sessions (\<lambda>m. snd (register_session i d m)) w)"

definition manager_create :: "session_config \<Rightarrow> wa_instance \<Rightarrow> (session_err, nat, wa_rest) op" where
  "manager_create cf inst w =
     (case manager_get (inst_id inst) w of
        Some h \<Rightarrow> (Inr h, w)
      | None \<Rightarrow>
          (case device_for cf inst w of
             (Inl e, w) \<Rightarrow> (Inl e, w)
           | (Inr d, w) \<Rightarrow> (case register (inst_id inst) d w of (h, w) \<Rightarrow> (Inr h, w))))"

definition unmap_session :: "uuid \<Rightarrow> wa_world \<Rightarrow> wa_world" where
  "unmap_session i = on_sessions (\<lambda>m. m\<lparr>mg_map := (mg_map m)(i := None)\<rparr>)"

definition remap_session :: "uuid \<Rightarrow> nat \<Rightarrow> wa_world \<Rightarrow> wa_world" where
  "remap_session i h = on_sessions (\<lambda>m. if mg_map m i = None then m\<lparr>mg_map := (mg_map m)(i \<mapsto> h)\<rparr> else m)"

definition manager_remove :: "session_config \<Rightarrow> uuid \<Rightarrow> (session_err, unit, wa_rest) op" where
  "manager_remove cf i w =
     (case manager_get i w of
        None \<Rightarrow> (Inr (), w)
      | Some h \<Rightarrow>
          (case session_remove cf h (unmap_session i w) of
             (Inl e, w) \<Rightarrow> (Inl e, remap_session i h w)
           | (Inr _, w) \<Rightarrow> (Inr (), w)))"

section \<open>Restoring\<close>

text \<open>
  \<open>register\<close> happens unless another caller registered first; then the restore is done. The concurrency
  of the restores is their order: each touches only its own instance.
\<close>

definition attach_and_connect :: "session_config \<Rightarrow> uuid \<Rightarrow> string option \<Rightarrow> (session_err, unit, wa_rest) op" where
  "attach_and_connect cf i d w =
     (case manager_get i w of
        Some _ \<Rightarrow> (Inr (), w)
      | None \<Rightarrow> (case register i d w of (h, w) \<Rightarrow> connect_existing cf w))"

definition restore :: "session_config \<Rightarrow> wa_instance \<Rightarrow> (session_err, unit, wa_rest) op" where
  "restore cf inst w =
     (case load_device cf (inst_jid inst) w of
        (Inl e, w) \<Rightarrow> (Inl e, w)
      | (Inr d, w) \<Rightarrow> attach_and_connect cf (inst_id inst) d w)"

definition restore_one :: "session_config \<Rightarrow> wa_instance \<Rightarrow> wa_world \<Rightarrow> wa_world" where
  "restore_one cf inst w =
     (case ask (wl_restore_cut (cf_lib cf)) w of
        (Some e, w) \<Rightarrow> emit_connection cf (inst_id inst) status_error (inst_jid inst) (''restore cancelled: '' @ e) w
      | (None, w) \<Rightarrow>
          (case restore cf inst w of
             (Inl e, w) \<Rightarrow> emit_connection cf (inst_id inst) status_error (inst_jid inst) (session_text e) w
           | (Inr _, w) \<Rightarrow> w))"

definition instance_page_size :: int where "instance_page_size = 100"

text \<open>
  The pages of the instances table; \<open>fuel\<close> bounds their number, one more than there are rows is enough
  while the cursors advance.
\<close>

fun list_instances :: "session_config \<Rightarrow> nat \<Rightarrow> string \<Rightarrow> (session_err, wa_instance list, wa_rest) op" where
  "list_instances cf 0 cursor w = (Inl (ErrSession ''list instances''), w)"
| "list_instances cf (Suc fuel) cursor w =
     (case on_db (instances_list (cf_parse_id cf) (cf_show_id cf) instance_page_size cursor) w of
        (Inl _, w) \<Rightarrow> (Inl (ErrSession ''list instances''), w)
      | (Inr (page, next), w) \<Rightarrow>
          if next = [] then (Inr page, w)
          else (case list_instances cf fuel next w of
                  (Inl e, w) \<Rightarrow> (Inl e, w)
                | (Inr rest, w) \<Rightarrow> (Inr (page @ rest), w)))"

definition restorable :: "wa_world \<Rightarrow> wa_instance \<Rightarrow> bool" where
  "restorable w inst \<longleftrightarrow> inst_jid inst \<noteq> [] \<and> manager_get (inst_id inst) w = None"

definition restore_all :: "session_config \<Rightarrow> (session_err, unit, wa_rest) op" where
  "restore_all cf w =
     (case list_instances cf (Suc (length (t_instances (w_db w)))) [] w of
        (Inl e, w) \<Rightarrow> (Inl e, w)
      | (Inr items, w) \<Rightarrow> (Inr (), fold (restore_one cf) (cf_order cf (filter (restorable w) items)) w))"

section \<open>Events and loops\<close>

datatype lib_event =
    LevMessage message_event | LevReceipt receipt_event_data | LevHistory "lib_history option" | LevPreview int
  | LevSyncDone | LevPairSuccess string | LevConnection connection_event

definition sink_message :: "session_config \<Rightarrow> sink_call \<Rightarrow> wa_world \<Rightarrow> wa_world" where
  "sink_message cf c w =
     (case ask (cf_context cf) w of
        (ec, w) \<Rightarrow>
          (case c of
             SinkMessage msg \<Rightarrow>
               (case ask (cf_drawn cf) w of
                  ((fresh, tmp), w) \<Rightarrow>
                    (case handle_inbound ec (cf_public_url cf) (Some (cf_storage cf, fresh, tmp)) msg
                        (wr_worker (w_rest w), \<lparr>mw_db = w_db w, mw_fs = wr_files (w_rest w)\<rparr>) of
                       (_, k, m) \<Rightarrow> w\<lparr>w_db := mw_db m, w_rest := (w_rest w)\<lparr>wr_worker := k, wr_files := mw_fs m\<rparr>\<rparr>))
           | SinkEdit ch \<Rightarrow> on_sink (on_message_edit ec ch) w
           | SinkDelete ch \<Rightarrow> on_sink (on_message_delete ec ch) w))"

definition on_history :: "session_config \<Rightarrow> nat \<Rightarrow> (instant \<Rightarrow> hist_feed \<Rightarrow> hist_feed) \<Rightarrow> wa_world \<Rightarrow> wa_world" where
  "on_history cf h f w =
     (case ask (cf_context cf) w of (ec, w) \<Rightarrow> on_session h (\<lambda>s. s\<lparr>sn_history := f (ec_now ec) (sn_history s)\<rparr>) w)"

definition session_dispatch :: "session_config \<Rightarrow> nat \<Rightarrow> lib_event \<Rightarrow> wa_world \<Rightarrow> wa_world" where
  "session_dispatch cf h ev w =
     (case ev of
        LevMessage e \<Rightarrow>
          (if \<not> cf_sink cf then w
           else case ask (cf_context cf) w of
             (ec, w) \<Rightarrow>
               (case message_call (sn_instance (the_session h w)) (cf_download cf) (ec_raw_limit ec) e of
                  None \<Rightarrow> w | Some c \<Rightarrow> sink_message cf c w))
      | LevReceipt e \<Rightarrow>
          (if \<not> cf_sink cf then w
           else case ask (cf_context cf) w of
             (ec, w) \<Rightarrow> on_sink (\<lambda>s. snd (receipts_apply ec (receipt_of (sn_instance (the_session h w)) e) s)) w)
      | LevHistory data \<Rightarrow> on_history cf h (\<lambda>now. observe_history now data) w
      | LevPreview n \<Rightarrow> on_history cf h (\<lambda>now. feed_preview now n) w
      | LevSyncDone \<Rightarrow> on_history cf h feed_complete w
      | LevPairSuccess jid \<Rightarrow> set_status cf h status_connected jid [] w
      | LevConnection e \<Rightarrow>
          (case connection_update e of
             None \<Rightarrow> w
           | Some (status, reason) \<Rightarrow>
               if status = status_connected
               then (case ask (wl_store_jid (cf_lib cf)) w of (jid, w) \<Rightarrow> set_status cf h status jid reason w)
               else set_status cf h status [] reason w))"

text \<open>
  One turn of a reconnect loop: the sleep ends early only when the run was cancelled; a connect that
  succeeds ends the loop.
\<close>

definition loop_turn :: "session_config \<Rightarrow> nat \<Rightarrow> bool \<Rightarrow> wa_world \<Rightarrow> wa_world" where
  "loop_turn cf r slept w =
     (if \<not> slept then on_sessions (finish_run r) w
      else case connect_existing cf w of
        (Inl _, w) \<Rightarrow> on_sessions (next_attempt r) w
      | (Inr _, w) \<Rightarrow> on_sessions (finish_run r) w)"

end
