(* ===== verification/Http.thy ===== *)
theory Http
  imports InstanceService
begin

text \<open>
  What the REST handlers share: the answers (\<^verbatim>\<open>internal/httpapi/response.go\<close>), the credential
  resolution (\<^verbatim>\<open>Authenticate\<close> in \<^verbatim>\<open>internal/httpapi/middleware.go\<close>), the ownership gate
  (\<^verbatim>\<open>internal/httpapi/authorize.go\<close>) and the query helpers of \<^verbatim>\<open>internal/httpapi/instances.go\<close>.
  The scope a request carries in its context is an option: None when \<^verbatim>\<open>Authenticate\<close> did not run.
\<close>

section \<open>Answers\<close>

datatype 'a resp = RErr nat string string | ROk nat 'a | RNoContent

definition write_forbidden :: "'a resp" where
  [http_simps]: "write_forbidden = RErr 403 ''forbidden'' ''forbidden''"

definition internal_error :: "'a resp" where
  [http_simps]: "internal_error = RErr 500 ''internal_error'' ''internal server error''"

definition not_found_instance :: "'a resp" where
  [http_simps]: "not_found_instance = RErr 404 ''not_found'' ''instance not found''"

fun write_instance_error :: "svc_err \<Rightarrow> 'a resp" where
  "write_instance_error EForbidden = write_forbidden"
| "write_instance_error ENotFound = not_found_instance"
| "write_instance_error EExternalRefTaken = RErr 409 ''conflict'' ''external ref already taken''"
| "write_instance_error EInvalidCursor = RErr 400 ''invalid_request'' ''invalid cursor''"
| "write_instance_error EAlreadyConnected = RErr 409 ''conflict'' ''instance already connected''"
| "write_instance_error EOwnerNotFound = RErr 422 ''unprocessable_entity'' ''unknown owner''"
| "write_instance_error (EInvalidWebhook _) = RErr 422 ''unprocessable_entity'' ''invalid webhook config''"
| "write_instance_error ENoAdmin = RErr 500 ''internal_error'' ''no admin user exists''"
| "write_instance_error _ = internal_error"

text \<open>A JSON body, decoded by \<^verbatim>\<open>encoding/json\<close> behind a \<^verbatim>\<open>MaxBytesReader\<close> of 1 MiB.\<close>

datatype 'a body = BodyOk 'a | BodyTooLarge | BodyMalformed

fun write_json_body_error :: "'b body \<Rightarrow> 'a resp" where
  "write_json_body_error BodyTooLarge =
     RErr 413 ''request_too_large'' ''request body exceeds the 1 MiB limit''"
| "write_json_body_error _ = RErr 400 ''invalid_request'' ''invalid request body''"

section \<open>Credentials\<close>

record request =
  rq_cookie :: "string option"
  rq_apikey :: string

definition unauthorized :: "'a resp" where
  [http_simps]: "unauthorized = RErr 401 ''unauthorized'' ''missing or invalid credential''"

text \<open>The outcome of the guard: an answer of its own, or the scope the inner handler runs with.\<close>

definition authenticate_key ::
    "crypto \<Rightarrow> string \<Rightarrow> bool \<Rightarrow> string \<Rightarrow> db \<Rightarrow> ('a resp + scope) \<times> db" where
  "authenticate_key cr global_key have_keys presented d =
     (if presented = [] then (Inl unauthorized, d)
      else if global_key \<noteq> [] \<and> presented = global_key
      then (Inr (empty_scope\<lparr>sc_kind := scope_global\<rparr>), d)
      else if have_keys then
        (case keys_instance_by_hash (key_hash cr presented) d of
           (Inr i, d) \<Rightarrow> (Inr (empty_scope\<lparr>sc_kind := scope_instance, sc_instance := i\<rparr>), d)
         | (Inl SNotFound, d) \<Rightarrow> (Inl unauthorized, d)
         | (Inl _, d) \<Rightarrow> (Inl internal_error, d))
      else (Inl unauthorized, d))"

definition authenticate ::
    "crypto \<Rightarrow> string \<Rightarrow> bool \<Rightarrow> string \<Rightarrow> instant \<Rightarrow> request \<Rightarrow> db \<Rightarrow> ('a resp + scope) \<times> db" where
  "authenticate cr global_key have_keys secret now rq d =
     (case (case rq_cookie rq of None \<Rightarrow> None | Some token \<Rightarrow> parse_token cr now token secret) of
        Some s \<Rightarrow> (Inr s, d)
      | None \<Rightarrow> authenticate_key cr global_key have_keys (rq_apikey rq) d)"

section \<open>Ownership\<close>

definition authorize_instance :: "scope option \<Rightarrow> wa_instance \<Rightarrow> bool" where
  "authorize_instance sc inst =
     (case sc of
        None \<Rightarrow> False
      | Some s \<Rightarrow>
          if require_role s ''admin'' then True
          else if sc_kind s = scope_user then
            (case inst_owner inst of Some u \<Rightarrow> u = sc_user s | None \<Rightarrow> False)
          else require_instance s (inst_id inst))"

definition authorize_collection :: "scope option \<Rightarrow> bool" where
  "authorize_collection sc =
     (case sc of
        None \<Rightarrow> False
      | Some s \<Rightarrow> sc_kind s = scope_global \<or> sc_kind s = scope_user)"

definition owned_by_user :: "scope \<Rightarrow> wa_instance \<Rightarrow> bool" where
  "owned_by_user s inst \<longleftrightarrow> (case inst_owner inst of Some u \<Rightarrow> u = sc_user s | None \<Rightarrow> False)"

definition filter_instances_by_owner :: "scope \<Rightarrow> wa_instance list \<Rightarrow> wa_instance list" where
  "filter_instances_by_owner s items =
     (if require_role s ''admin'' then items else filter (owned_by_user s) items)"

definition deny_foreign_instance_key :: "scope option \<Rightarrow> uuid \<Rightarrow> bool" where
  "deny_foreign_instance_key sc i =
     (case sc of
        None \<Rightarrow> False
      | Some s \<Rightarrow> sc_kind s = scope_instance \<and> sc_instance s \<noteq> i)"

definition require_admin_scope :: "scope option \<Rightarrow> bool" where
  "require_admin_scope sc = (case sc of None \<Rightarrow> False | Some s \<Rightarrow> require_role s ''admin'')"

section \<open>Query parameters\<close>

definition digit_value :: "char \<Rightarrow> int" where
  "digit_value c = int (of_char c) - 48"

fun atoi_digits :: "int \<Rightarrow> string \<Rightarrow> int option" where
  "atoi_digits acc [] = Some acc"
| "atoi_digits acc (c # cs) = (if is_digit c then atoi_digits (10 * acc + digit_value c) cs else None)"

text \<open>\<^verbatim>\<open>strconv.Atoi\<close>: an optional sign and at least one decimal digit, in range of an int.\<close>

definition atoi :: "string \<Rightarrow> int option" where
  "atoi s =
     (case s of
        [] \<Rightarrow> None
      | c # cs \<Rightarrow>
          (let signed = (c = CHR ''-'' \<or> c = CHR ''+''); ds = (if signed then cs else s) in
           if ds = [] then None
           else (case atoi_digits 0 ds of
                   None \<Rightarrow> None
                 | Some n \<Rightarrow> (let v = (if c = CHR ''-'' then - n else n) in
                              if int64 v then Some v else None))))"

definition parse_limit :: "string \<Rightarrow> int \<Rightarrow> int \<Rightarrow> int" where
  "parse_limit raw fallback max_limit =
     (case atoi raw of
        None \<Rightarrow> fallback
      | Some n \<Rightarrow> if n \<le> 0 then fallback else min n max_limit)"

definition default_instances_limit :: int where "default_instances_limit = 50"
definition max_instances_limit :: int where "max_instances_limit = 100"

definition parse_instances_limit :: "string \<Rightarrow> int" where
  "parse_instances_limit raw = parse_limit raw default_instances_limit max_instances_limit"

lemma parse_limit_bounds:
  assumes "1 \<le> fallback" "fallback \<le> max_limit"
  shows "1 \<le> parse_limit raw fallback max_limit \<and> parse_limit raw fallback max_limit \<le> max_limit"
  using assms by (auto simp: parse_limit_def split: option.split)

section \<open>Who may act on an instance\<close>

lemma authorize_instance_iff:
  "authorize_instance sc inst \<longleftrightarrow>
     (\<exists>s. sc = Some s \<and>
        (sc_kind s = scope_global
         \<or> (sc_kind s = scope_user \<and> (sc_role s = ''admin'' \<or> inst_owner inst = Some (sc_user s)))
         \<or> (sc_kind s = scope_instance \<and> sc_instance s = inst_id inst)))"
  by (auto simp: authorize_instance_def require_role_def require_instance_def scope_kinds
        split: option.splits)

lemma deny_foreign_implies_refused:
  "deny_foreign_instance_key sc i \<Longrightarrow> inst_id inst = i \<Longrightarrow> \<not> authorize_instance sc inst"
  by (auto simp: deny_foreign_instance_key_def authorize_instance_iff scope_kinds split: option.splits)

lemma keys_instance_by_hash_same: "keys_instance_by_hash h d = (r, d') \<Longrightarrow> same_tables d d'"
  using pg_run_same [of d] by (metis (no_types, lifting) same_tables_refl snd_conv keys_instance_by_hash_def)

lemma keys_instance_by_hash_ok:
  assumes "keys_instance_by_hash h d = (Inr i, d')"
  obtains r where "r \<in> set (t_instances d)" "ir_id r = i" "ir_api_key_hash r = Some h"
proof -
  from assms obtain e where e: "same_tables d e"
    "(case find (\<lambda>r. ir_api_key_hash r = Some h) (t_instances e) of
        None \<Rightarrow> Inl SNotFound | Some r \<Rightarrow> Inr (ir_id r), e) = (Inr i, d')"
    unfolding keys_instance_by_hash_def by (rule pg_run_Inr)
  with that show thesis
    by (auto simp: same_tables_fields [OF e(1)] dest: find_SomeD split: option.splits)
qed

lemma keys_instance_by_hash_missing:
  assumes "keys_instance_by_hash h d = (Inl SNotFound, d')"
  shows "\<forall>r \<in> set (t_instances d). ir_api_key_hash r \<noteq> Some h"
proof (rule pg_run_cases [of "\<lambda>d. (case find (\<lambda>r. ir_api_key_hash r = Some h) (t_instances d) of
        None \<Rightarrow> Inl SNotFound | Some r \<Rightarrow> Inr (ir_id r), d)" d])
qed (use assms in \<open>auto simp: keys_instance_by_hash_def find_None_iff dest!: same_tables_fields(2)
       split: option.splits\<close>)

lemma authenticate_key_sound:
  assumes k: "authenticate_key cr global_key have_keys presented d = (Inr s, d')"
  shows "(presented = global_key \<and> global_key \<noteq> [] \<and> s = empty_scope\<lparr>sc_kind := scope_global\<rparr> \<and> d' = d)
       \<or> (\<exists>r \<in> set (t_instances d). ir_api_key_hash r = Some (key_hash cr presented)
            \<and> s = empty_scope\<lparr>sc_kind := scope_instance, sc_instance := ir_id r\<rparr>)"
proof (cases "global_key \<noteq> [] \<and> presented = global_key")
  case True
  then show ?thesis using k by (auto simp: authenticate_key_def)
next
  case False
  then obtain i where "keys_instance_by_hash (key_hash cr presented) d = (Inr i, d')"
    "s = empty_scope\<lparr>sc_kind := scope_instance, sc_instance := i\<rparr>"
    using k by (auto simp: authenticate_key_def split: if_splits prod.splits sum.splits storage_err.splits)
  then show ?thesis by (auto elim: keys_instance_by_hash_ok)
qed

lemma authenticate_sound:
  assumes "authenticate cr global_key have_keys secret now rq d = (Inr s, d')"
  shows "(\<exists>token. rq_cookie rq = Some token \<and> parse_token cr now token secret = Some s \<and> d' = d)
       \<or> (rq_apikey rq = global_key \<and> global_key \<noteq> [] \<and> s = empty_scope\<lparr>sc_kind := scope_global\<rparr> \<and> d' = d)
       \<or> (\<exists>r \<in> set (t_instances d). ir_api_key_hash r = Some (key_hash cr (rq_apikey rq))
            \<and> s = empty_scope\<lparr>sc_kind := scope_instance, sc_instance := ir_id r\<rparr>)"
  using assms authenticate_key_sound [of cr global_key have_keys "rq_apikey rq" d s d']
  by (auto simp: authenticate_def split: option.splits)

section \<open>Properties\<close>



text \<open>
  C27: the listing shows a scope exactly the instances of the page it may open one by one, and a user
  session opens exactly the instances it owns unless it is an admin.
\<close>

theorem listing_agrees_with_access:
  "authorize_collection (Some s) \<Longrightarrow>
     filter_instances_by_owner s items = filter (authorize_instance (Some s)) items
     \<and> (sc_kind s = scope_user \<and> sc_role s \<noteq> ''admin'' \<longrightarrow>
          set (filter_instances_by_owner s items) = {i \<in> set items. inst_owner i = Some (sc_user s)})"
  by (auto simp: authorize_collection_def filter_instances_by_owner_def authorize_instance_iff
      require_role_iff owned_by_user_def scope_kinds split: option.splits intro!: filter_cong)

theorem listing_agrees_with_access_witness:
  "filter_instances_by_owner (empty_scope\<lparr>sc_kind := scope_user, sc_user := 7\<rparr>) [scan_instance sample_instance]
     = filter (authorize_instance (Some (empty_scope\<lparr>sc_kind := scope_user, sc_user := 7\<rparr>))) [scan_instance sample_instance]"
  by (rule listing_agrees_with_access [THEN conjunct1])
     (simp add: authorize_collection_def scope_kinds)

end
