(* ===== verification/HttpInstances.thy ===== *)
theory HttpInstances
  imports Http
begin

text \<open>
  The instance handlers: \<^verbatim>\<open>internal/httpapi/instances.go\<close> (create with its quotas, list, get,
  update, delete), \<^verbatim>\<open>internal/httpapi/apikeys.go\<close> (rotate, revoke) and
  \<^verbatim>\<open>internal/httpapi/connection.go\<close> (connect, qr, status, disconnect). A handler gets the scope of
  its context and the decoded parts of the request; random draws are arguments.
\<close>

section \<open>Loading the target\<close>

text \<open>Every handler of \<^verbatim>\<open>/instances/{id}\<close> opens this way; \<open>act\<close> is the rest of it.\<close>

definition path_instance ::
    "crypto \<Rightarrow> scope option \<Rightarrow> string \<Rightarrow> (uuid \<Rightarrow> 's world \<Rightarrow> 'a resp \<times> 's world) \<Rightarrow> 's world
      \<Rightarrow> 'a resp \<times> 's world" where
  "path_instance cr sc raw_id act w =
     (case cr_parse_id cr raw_id of
        None \<Rightarrow> (not_found_instance, w)
      | Some i \<Rightarrow> if deny_foreign_instance_key sc i then (write_forbidden, w) else act i w)"

definition with_instance ::
    "crypto \<Rightarrow> (scope option \<Rightarrow> wa_instance \<Rightarrow> bool) \<Rightarrow> scope option \<Rightarrow> string
      \<Rightarrow> (uuid \<Rightarrow> wa_instance \<Rightarrow> 's world \<Rightarrow> 'a resp \<times> 's world) \<Rightarrow> 's world \<Rightarrow> 'a resp \<times> 's world" where
  "with_instance cr permitted sc raw_id act =
     path_instance cr sc raw_id (\<lambda>i w.
       case svc_get i w of
         (Inl e, w) \<Rightarrow> (write_instance_error e, w)
       | (Inr stored, w) \<Rightarrow>
           if \<not> permitted sc stored then (write_forbidden, w) else act i stored w)"

section \<open>Create\<close>

record create_request =
  cq_name :: string
  cq_external_ref :: string
  cq_owner :: "string option"
  cq_webhook_url :: "string option"
  cq_webhook_enabled :: "bool option"
  cq_webhook_events :: "string list option"

datatype quota_err = QuotaExceeded | QuotaOther

definition check_user_quota ::
    "('h, 's) service \<Rightarrow> uuid \<Rightarrow> (quota_err, unit, 's) op" where
  "check_user_quota sv owner w =
     (if \<not> sv_users sv then (Inl QuotaOther, w)
      else case on_db (users_get_by_id owner) w of
        (Inl SNotFound, w) \<Rightarrow> (Inr (), w)
      | (Inl _, w) \<Rightarrow> (Inl QuotaOther, w)
      | (Inr owner_user, w) \<Rightarrow>
          if user_quota owner_user \<le> 0 then (Inr (), w)
          else (case on_db (keys_count_by_owner owner) w of
             (Inl _, w) \<Rightarrow> (Inl QuotaOther, w)
           | (Inr owned, w) \<Rightarrow>
               if int owned \<ge> user_quota owner_user then (Inl QuotaExceeded, w) else (Inr (), w)))"

definition check_create_quotas ::
    "('h, 's) service \<Rightarrow> scope \<Rightarrow> uuid \<Rightarrow> int \<Rightarrow> (quota_err, unit, 's) op" where
  "check_create_quotas sv s owner max_instances w =
     (if require_role s ''admin'' then (Inr (), w)
      else if sc_kind s \<noteq> scope_user then (Inr (), w)
      else if \<not> sv_keys sv then (Inl QuotaOther, w)
      else if max_instances > 0 then
        (case on_db keys_count_all w of
           (Inl _, w) \<Rightarrow> (Inl QuotaOther, w)
         | (Inr everything, w) \<Rightarrow>
             if int everything \<ge> max_instances then (Inl QuotaExceeded, w)
             else check_user_quota sv owner w)
      else check_user_quota sv owner w)"

definition write_quota_error :: "quota_err \<Rightarrow> 'a resp" where
  "write_quota_error e =
     (if e = QuotaExceeded then RErr 403 ''quota_exceeded'' ''quota exceeded'' else internal_error)"

definition resolve_owner ::
    "('h, 's) service \<Rightarrow> scope \<Rightarrow> string option \<Rightarrow> 's world \<Rightarrow> ('a resp + uuid) \<times> 's world" where
  "resolve_owner sv s requested w =
     (if require_role s ''admin'' then
        (case requested of
           Some raw \<Rightarrow>
             (case cr_parse_id (sv_crypto sv) raw of
                None \<Rightarrow> (Inl (RErr 422 ''unprocessable_entity'' ''invalid owner_user_id''), w)
              | Some i \<Rightarrow> (Inr i, w))
         | None \<Rightarrow>
             (case svc_oldest_admin sv w of
                (Inl ENoAdmin, w) \<Rightarrow> (Inl (RErr 500 ''internal_error'' ''no admin user exists''), w)
              | (Inl _, w) \<Rightarrow> (Inl internal_error, w)
              | (Inr admin, w) \<Rightarrow> (Inr admin, w)))
      else if sc_kind s = scope_user then
        (if requested \<noteq> None then (Inl write_forbidden, w) else (Inr (sc_user s), w))
      else (Inl write_forbidden, w))"

text \<open>The read shape: a nil events list becomes an empty array.\<close>

definition new_instance_response :: "wa_instance \<Rightarrow> wa_instance" where
  "new_instance_response inst =
     inst\<lparr>inst_webhook_events := Some (case inst_webhook_events inst of None \<Rightarrow> [] | Some l \<Rightarrow> l)\<rparr>"

definition create_input_of :: "create_request \<Rightarrow> uuid \<Rightarrow> create_input" where
  "create_input_of rq owner =
     \<lparr>ci_name = cq_name rq, ci_external_ref = cq_external_ref rq, ci_owner = Some owner,
      ci_webhook_url = cq_webhook_url rq, ci_webhook_enabled = cq_webhook_enabled rq,
      ci_webhook_events = cq_webhook_events rq\<rparr>"

definition store_key :: "uuid \<Rightarrow> string \<Rightarrow> 's world \<Rightarrow> 's world" where
  "store_key i key w = w\<lparr>w_keys := cache_store i key (w_keys w)\<rparr>"

definition clear_key :: "uuid \<Rightarrow> 's world \<Rightarrow> 's world" where
  "clear_key i w = w\<lparr>w_keys := cache_clear i (w_keys w)\<rparr>"

definition handle_create_instance ::
    "('h, 's) service \<Rightarrow> int \<Rightarrow> uuid \<Rightarrow> string option \<Rightarrow> scope option \<Rightarrow> create_request body
      \<Rightarrow> 's world \<Rightarrow> (wa_instance \<times> string) resp \<times> 's world" where
  "handle_create_instance sv max_instances new_id raw sc b w =
     (if \<not> authorize_collection sc then (write_forbidden, w)
      else case b of
        BodyOk rq \<Rightarrow>
          (case sc of
             None \<Rightarrow> (write_forbidden, w)
           | Some s \<Rightarrow>
               (case resolve_owner sv s (cq_owner rq) w of
                  (Inl resp, w) \<Rightarrow> (resp, w)
                | (Inr owner, w) \<Rightarrow>
                    (case check_create_quotas sv s owner max_instances w of
                       (Inl e, w) \<Rightarrow> (write_quota_error e, w)
                     | (Inr _, w) \<Rightarrow>
                         (case svc_create sv new_id raw (create_input_of rq owner) w of
                            (Inl e, w) \<Rightarrow> (write_instance_error e, w)
                          | (Inr (created, key), w) \<Rightarrow>
                              (ROk 201 (new_instance_response created, key),
                               store_key (inst_id created) key w)))))
      | bad \<Rightarrow> (write_json_body_error bad, w))"

section \<open>Read, update, delete\<close>

definition handle_list_instances ::
    "('h, 's) service \<Rightarrow> scope option \<Rightarrow> string \<Rightarrow> string \<Rightarrow> 's world
      \<Rightarrow> (wa_instance list \<times> string) resp \<times> 's world" where
  "handle_list_instances sv sc raw_limit cursor w =
     (if \<not> authorize_collection sc then (write_forbidden, w)
      else case svc_list sv (parse_instances_limit raw_limit) cursor w of
        (Inl e, w) \<Rightarrow> (write_instance_error e, w)
      | (Inr (items, next), w) \<Rightarrow>
          (let shown = (case sc of Some s \<Rightarrow> filter_instances_by_owner s items | None \<Rightarrow> [])
           in (ROk 200 (map new_instance_response shown, next), w)))"

definition handle_get_instance ::
    "('h, 's) service \<Rightarrow> scope option \<Rightarrow> string \<Rightarrow> 's world \<Rightarrow> wa_instance resp \<times> 's world" where
  "handle_get_instance sv sc raw_id =
     with_instance (sv_crypto sv) authorize_instance sc raw_id
       (\<lambda>i stored w. (ROk 200 (new_instance_response stored), w))"

definition handle_update_instance ::
    "('h, 's) service \<Rightarrow> scope option \<Rightarrow> string \<Rightarrow> update_input body \<Rightarrow> 's world
      \<Rightarrow> wa_instance resp \<times> 's world" where
  "handle_update_instance sv sc raw_id b =
     with_instance (sv_crypto sv) authorize_instance sc raw_id (\<lambda>i stored w.
       case b of
         BodyOk input \<Rightarrow>
           (case svc_update sv i input w of
              (Inl e, w) \<Rightarrow> (write_instance_error e, w)
            | (Inr updated, w) \<Rightarrow> (ROk 200 (new_instance_response updated), w))
       | bad \<Rightarrow> (write_json_body_error bad, w))"

definition handle_delete_instance ::
    "('h, 's) service \<Rightarrow> scope option \<Rightarrow> string \<Rightarrow> 's world \<Rightarrow> unit resp \<times> 's world" where
  "handle_delete_instance sv sc raw_id =
     with_instance (sv_crypto sv) authorize_instance sc raw_id (\<lambda>i stored w.
       case svc_delete sv i w of
         (Inl e, w) \<Rightarrow> (write_instance_error e, w)
       | (Inr _, w) \<Rightarrow> (RNoContent, clear_key i w))"

section \<open>API keys\<close>

fun write_key_error :: "storage_err \<Rightarrow> 'a resp" where
  "write_key_error SNotFound = not_found_instance"
| "write_key_error _ = internal_error"

definition admin_only :: "scope option \<Rightarrow> wa_instance \<Rightarrow> bool" where
  "admin_only sc inst = require_admin_scope sc"

definition handle_rotate_api_key ::
    "('h, 's) service \<Rightarrow> string option \<Rightarrow> scope option \<Rightarrow> string \<Rightarrow> 's world
      \<Rightarrow> (uuid \<times> string) resp \<times> 's world" where
  "handle_rotate_api_key sv raw sc raw_id =
     with_instance (sv_crypto sv) admin_only sc raw_id (\<lambda>i stored w.
       case mint_api_key (sv_crypto sv) raw of
         None \<Rightarrow> (internal_error, w)
       | Some (key, hash) \<Rightarrow>
           if \<not> sv_keys sv then (internal_error, w)
           else (case on_db (keys_set_hash (inst_id stored) hash) w of
              (Inl e, w) \<Rightarrow> (write_key_error e, w)
            | (Inr _, w) \<Rightarrow> (ROk 200 (inst_id stored, key), store_key (inst_id stored) key w)))"

definition handle_revoke_api_key ::
    "('h, 's) service \<Rightarrow> scope option \<Rightarrow> string \<Rightarrow> 's world \<Rightarrow> unit resp \<times> 's world" where
  "handle_revoke_api_key sv sc raw_id =
     with_instance (sv_crypto sv) admin_only sc raw_id (\<lambda>i stored w.
       if \<not> sv_keys sv then (internal_error, w)
       else (case on_db (keys_clear_hash (inst_id stored)) w of
          (Inl e, w) \<Rightarrow> (write_key_error e, w)
        | (Inr _, w) \<Rightarrow> (RNoContent, clear_key (inst_id stored) w)))"

section \<open>Connection\<close>

definition handle_connect_instance ::
    "('h, 's) service \<Rightarrow> scope option \<Rightarrow> string \<Rightarrow> 's world \<Rightarrow> connect_result resp \<times> 's world" where
  "handle_connect_instance sv sc raw_id =
     with_instance (sv_crypto sv) authorize_instance sc raw_id (\<lambda>i stored w.
       case svc_connect sv i w of
         (Inl e, w) \<Rightarrow> (write_instance_error e, w)
       | (Inr result, w) \<Rightarrow> (ROk 200 result, w))"

definition handle_qr_instance ::
    "('h, 's) service \<Rightarrow> scope option \<Rightarrow> string \<Rightarrow> 's world \<Rightarrow> connect_result resp \<times> 's world" where
  "handle_qr_instance sv sc raw_id =
     with_instance (sv_crypto sv) authorize_instance sc raw_id (\<lambda>i stored w.
       case svc_qr sv i w of
         (Inl e, w) \<Rightarrow> (write_instance_error e, w)
       | (Inr result, w) \<Rightarrow> (ROk 200 result, w))"

record status_response =
  sr_status :: string
  sr_jid :: string
  sr_last_error :: string
  sr_last_connected :: "instant option"

definition handle_instance_status ::
    "('h, 's) service \<Rightarrow> scope option \<Rightarrow> string \<Rightarrow> 's world \<Rightarrow> status_response resp \<times> 's world" where
  "handle_instance_status sv sc raw_id =
     with_instance (sv_crypto sv) authorize_instance sc raw_id (\<lambda>i found w.
       (ROk 200 \<lparr>sr_status = inst_status found, sr_jid = inst_jid found,
                sr_last_error = inst_last_error found, sr_last_connected = inst_last_connected found\<rparr>, w))"

definition handle_disconnect_instance ::
    "('h, 's) service \<Rightarrow> scope option \<Rightarrow> string \<Rightarrow> 's world \<Rightarrow> unit resp \<times> 's world" where
  "handle_disconnect_instance sv sc raw_id =
     with_instance (sv_crypto sv) authorize_instance sc raw_id (\<lambda>i stored w.
       case svc_disconnect sv i w of
         (Inl e, w) \<Rightarrow> (write_instance_error e, w)
       | (Inr _, w) \<Rightarrow> (RNoContent, w))"

end
