(* ===== verification/HttpInvariants.thy ===== *)
theory HttpInvariants
  imports HttpInstances
begin

text \<open>
  What holds across the instance handlers: a refused request changes nothing, the process-local key
  cache never disagrees with the stored hashes, and a user who is no admin cannot exceed its quota.
\<close>

section \<open>Refused requests\<close>

text \<open>The answers of a request that did not get to act.\<close>

definition turned_away :: "'a resp \<Rightarrow> bool" where
  "turned_away resp \<longleftrightarrow>
     resp = write_forbidden \<or> resp = not_found_instance \<or> resp = internal_error"

lemma svc_get_cases:
  obtains (found) r d where "svc_get i w = (Inr (scan_instance r), w\<lparr>w_db := d\<rparr>)" "same_tables (w_db w) d"
      "row_by ir_id i (t_instances (w_db w)) = Some r"
    | (failed) e d where "svc_get i w = (Inl e, w\<lparr>w_db := d\<rparr>)" "same_tables (w_db w) d"
      "e = ENotFound \<or> e = EStorage (SDriver [])"
proof -
  obtain r d where g: "instances_get i (w_db w) = (r, d)" by fastforce
  have s: "same_tables (w_db w) d" using g by (rule instances_get_same)
  show thesis
  proof (cases r)
    case (Inr x)
    with g obtain row where "row_by ir_id i (t_instances (w_db w)) = Some row" "x = scan_instance row"
      by (auto elim: instances_get_ok)
    with g s Inr show thesis by (intro found) (auto simp: svc_get_def on_db_def)
  next
    case (Inl x)
    have "x = SNotFound \<or> x = SDriver []"
      using g unfolding Inl instances_get_def
      by (rule pg_run_inv [where P = "\<lambda>r e. \<forall>x. r = Inl x \<longrightarrow> x = SNotFound \<or> x = SDriver []", rule_format])
         (auto split: option.splits)
    with g s Inl show thesis by (intro failed) (auto simp: svc_get_def on_db_def)
  qed
qed

lemma with_instance_cases:
  assumes "with_instance cr permitted sc raw act w = (resp, w')"
  obtains (away) d where "turned_away resp" "w' = w\<lparr>w_db := d\<rparr>" "same_tables (w_db w) d"
    | (acted) i r d where "cr_parse_id cr raw = Some i" "\<not> deny_foreign_instance_key sc i"
      "row_by ir_id i (t_instances (w_db w)) = Some r" "permitted sc (scan_instance r)"
      "same_tables (w_db w) d" "act i (scan_instance r) (w\<lparr>w_db := d\<rparr>) = (resp, w')"
proof (cases "\<exists>i. cr_parse_id cr raw = Some i \<and> \<not> deny_foreign_instance_key sc i")
  case False
  then have "turned_away resp" "w' = w"
    using assms by (auto simp: with_instance_def path_instance_def turned_away_def split: option.splits if_splits)
  then show thesis by (intro away [of "w_db w"]) auto
next
  case True
  then obtain i where i: "cr_parse_id cr raw = Some i" "\<not> deny_foreign_instance_key sc i" by auto
  show thesis
  proof (cases rule: svc_get_cases [of i w])
    case (found r d)
    show thesis
    proof (cases "permitted sc (scan_instance r)")
      case True
      with found i assms show thesis
        by (intro acted [of i r d]) (auto simp: with_instance_def path_instance_def)
    next
      case False
      with found i assms show thesis
        by (intro away [of d]) (auto simp: with_instance_def path_instance_def turned_away_def)
    qed
  next
    case (failed e d)
    with i assms show thesis
      by (intro away [of d]) (auto simp: with_instance_def path_instance_def turned_away_def)
  qed
qed

lemma with_instance_foreign_key:
  assumes "cr_parse_id cr raw = Some i" "deny_foreign_instance_key sc i"
  shows "with_instance cr permitted sc raw act w = (write_forbidden, w)"
  using assms by (simp add: with_instance_def path_instance_def)

section \<open>The key cache\<close>

definition stored_key :: "crypto \<Rightarrow> db \<Rightarrow> uuid \<Rightarrow> string \<Rightarrow> bool" where
  "stored_key cr d i key \<longleftrightarrow> (\<exists>r \<in> set (t_instances d). ir_id r = i \<and> ir_api_key_hash r = Some (key_hash cr key))"

definition keys_agree :: "crypto \<Rightarrow> 's world \<Rightarrow> bool" where
  "keys_agree cr w \<longleftrightarrow> kc.covers (stored_key cr (w_db w)) (w_keys w)"

lemma stored_key_view:
  "stored_key cr d i key \<longleftrightarrow> (\<exists>u. (i, Some (key_hash cr key), u) \<in> set (key_view d))"
  by (force simp: stored_key_def key_view_def)

lemma keys_agree_frame: "service_frame w w' \<Longrightarrow> keys_agree cr w \<Longrightarrow> keys_agree cr w'"
  by (simp add: keys_agree_def service_frame_def stored_key_view [abs_def])

lemma delete_created_frame:
  assumes "delete_created j c v = (e, v')"
  shows "w_keys v' = w_keys v" "db_ok (w_db v) \<Longrightarrow> db_ok (w_db v')"
  using assms
  by (auto simp: delete_created_def split: prod.splits sum.splits
      dest: on_db_keys on_db_keeps [OF _ _ db_ok_instances_delete])

lemma finish_create_frame:
  assumes "finish_create sv raw c v = (x, v')"
  shows "w_keys v' = w_keys v" "db_ok (w_db v) \<Longrightarrow> db_ok (w_db v')"
proof -
  show "w_keys v' = w_keys v"
    using assms
    by (auto simp: finish_create_def split: option.splits prod.splits sum.splits
        dest!: on_db_keys delete_created_frame(1))
  show "db_ok (w_db v')" if "db_ok (w_db v)"
    using assms that
    by (auto simp: finish_create_def split: option.splits prod.splits sum.splits
        dest: delete_created_frame(2) on_db_keeps [OF _ _ db_ok_instance_updates(3)])
qed

lemma users_get_keeps: "db_ok d \<Longrightarrow> db_ok (snd (users_get_by_id u d))"
  using users_get_same [of u d] script_blindD [OF blind] by (metis prod.collapse)

lemma svc_create_frame:
  assumes "svc_create sv i raw input w = (res, w')"
  shows "w_keys w' = w_keys w" "db_ok (w_db w) \<Longrightarrow> db_ok (w_db w')"
proof -
  show "w_keys w' = w_keys w"
    using assms unfolding svc_create_def
    by (auto split: option.splits sum.splits prod.splits if_splits storage_err.splits
        dest!: on_db_keys finish_create_frame(1))
  show "db_ok (w_db w')" if "db_ok (w_db w)"
    using assms that unfolding svc_create_def
    by (auto split: option.splits sum.splits prod.splits if_splits storage_err.splits
        dest!: finish_create_frame(2) dest: on_db_keeps [OF _ _ users_get_keeps]
          on_db_keeps [OF _ _ db_ok_instances_create])
qed

lemma svc_create_keys_agree:
  assumes ok: "db_ok (w_db w)" and agree: "keys_agree (sv_crypto sv) w"
    and run: "svc_create sv i raw input w = (res, w')"
  shows "case res of Inl e \<Rightarrow> keys_agree (sv_crypto sv) w'
       | Inr (c, key) \<Rightarrow> keys_agree (sv_crypto sv) (store_key (inst_id c) key w')"
proof -
  note out = svc_create_outcome [OF ok run, unfolded create_outcome_def]
  have keys: "w_keys w' = w_keys w" using run by (rule svc_create_frame)
  have more: "keys_agree (sv_crypto sv) w'"
    if "set (t_instances (w_db w)) \<subseteq> set (t_instances (w_db w'))"
    using agree that unfolding keys_agree_def keys
    by (elim kc.covers_mono) (auto simp: stored_key_def)
  show ?thesis
  proof (cases res)
    case (Inl e)
    with out have "set (t_instances (w_db w)) \<subseteq> set (t_instances (w_db w'))"
      by (auto simp: same_tables_iff)
    with Inl more show ?thesis by simp
  next
    case (Inr ck)
    obtain c key where ck: "ck = (c, key)" by fastforce
    with out Inr obtain row where row: "ir_id row = i" "inst_id c = i"
      "ir_api_key_hash row = Some (key_hash (sv_crypto sv) key)"
      "same_tables ((w_db w)\<lparr>t_instances := t_instances (w_db w) @ [row]\<rparr>) (w_db w')"
      by auto
    then have t: "t_instances (w_db w') = t_instances (w_db w) @ [row]"
      by (simp add: same_tables_iff)
    then have "keys_agree (sv_crypto sv) w'" by (intro more) auto
    then have "kc.covers (stored_key (sv_crypto sv) (w_db w')) (cache_store (inst_id c) key (w_keys w'))"
      unfolding keys_agree_def
      by (rule kc.covers_store) (use t row in \<open>auto simp: stored_key_def\<close>)
    then show ?thesis using Inr ck by (simp add: keys_agree_def store_key_def)
  qed
qed

section \<open>Requests as steps\<close>

text \<open>
  One request of the instance API, or anything in the background that keeps the frame of the session
  contract: session events, clock and fault script.
\<close>

inductive http_step :: "('h, 's) service \<Rightarrow> int \<Rightarrow> 's world \<Rightarrow> 's world \<Rightarrow> bool"
  for sv :: "('h, 's) service" and max_instances :: int where
  http_create: "handle_create_instance sv max_instances new_id raw sc b w = (r1, w') \<Longrightarrow>
     http_step sv max_instances w w'"
| http_update: "handle_update_instance sv sc raw_id ub w = (r2, w') \<Longrightarrow> http_step sv max_instances w w'"
| http_delete: "handle_delete_instance sv sc raw_id w = (r3, w') \<Longrightarrow> http_step sv max_instances w w'"
| http_rotate: "handle_rotate_api_key sv raw sc raw_id w = (r4, w') \<Longrightarrow> http_step sv max_instances w w'"
| http_revoke: "handle_revoke_api_key sv sc raw_id w = (r3, w') \<Longrightarrow> http_step sv max_instances w w'"
| http_connect: "handle_connect_instance sv sc raw_id w = (r5, w') \<Longrightarrow> http_step sv max_instances w w'"
| http_qr: "handle_qr_instance sv sc raw_id w = (r5, w') \<Longrightarrow> http_step sv max_instances w w'"
| http_disconnect: "handle_disconnect_instance sv sc raw_id w = (r3, w') \<Longrightarrow> http_step sv max_instances w w'"
| http_background: "service_frame w w' \<Longrightarrow> http_step sv max_instances w w'"

inductive http_reachable :: "('h, 's) service \<Rightarrow> int \<Rightarrow> 's world \<Rightarrow> bool"
  for sv :: "('h, 's) service" and max_instances :: int where
  boot: "db_ok (w_db w) \<Longrightarrow> w_keys w = new_key_cache \<Longrightarrow> http_reachable sv max_instances w"
| again: "http_reachable sv max_instances w \<Longrightarrow> http_step sv max_instances w w' \<Longrightarrow>
     http_reachable sv max_instances w'"

definition http_ok :: "('h, 's) service \<Rightarrow> 's world \<Rightarrow> bool" where
  "http_ok sv w \<longleftrightarrow> db_ok (w_db w) \<and> keys_agree (sv_crypto sv) w"

lemma http_ok_frame: "http_ok sv w \<Longrightarrow> service_frame w w' \<Longrightarrow> http_ok sv w'"
  by (auto simp: http_ok_def service_frame_def intro: keys_agree_frame)

text \<open>A write of the hash of one row followed by the same change in the cache.\<close>

lemma keys_agree_set:
  assumes "keys_agree cr w" "keys_set_hash i (key_hash cr key) (w_db w) = (Inr (), d)"
  shows "keys_agree cr (store_key i key (w\<lparr>w_db := d\<rparr>))"
proof -
  from assms(2) obtain e where e: "same_tables (w_db w) e" "i \<in> ir_id ` set (t_instances (w_db w))"
    "d = e\<lparr>t_instances := update_where (\<lambda>r. ir_id r = i)
        (\<lambda>r. r\<lparr>ir_api_key_hash := Some (key_hash cr key), ir_updated := pg_now (w_db w)\<rparr>)
        (t_instances (w_db w))\<rparr>"
    unfolding keys_set_hash_def by (auto elim: exec_instance_ok)
  obtain r where "r \<in> set (t_instances (w_db w))" "ir_id r = i" using e(2) by auto
  then have "r\<lparr>ir_api_key_hash := Some (key_hash cr key), ir_updated := pg_now (w_db w)\<rparr>
      \<in> set (t_instances d)"
    by (simp add: e(3) set_update_where)
  then have new: "stored_key cr d i key"
    unfolding stored_key_def by (rule bexI [rotated]) (simp add: \<open>ir_id r = i\<close>)
  have "kc.covers (stored_key cr d) (cache_store i key (w_keys w))"
    using assms(1) unfolding keys_agree_def
    by (rule kc.covers_store) (use e new in \<open>auto simp: stored_key_def set_update_where\<close>)
  then show ?thesis by (simp add: keys_agree_def store_key_def)
qed

lemma keys_agree_drop:
  assumes "keys_agree cr w"
    and "\<And>r. r \<in> set (t_instances (w_db w)) \<Longrightarrow> ir_id r \<noteq> i \<Longrightarrow> r \<in> set (t_instances d)"
  shows "keys_agree cr (clear_key i (w\<lparr>w_db := d\<rparr>))"
proof -
  have "kc.covers (stored_key cr d) (cache_clear i (w_keys w))"
    using assms(1) unfolding keys_agree_def
    by (rule kc.covers_clear) (use assms(2) in \<open>force simp: stored_key_def\<close>)
  then show ?thesis by (simp add: keys_agree_def clear_key_def)
qed

lemma mint_hash: "mint_api_key cr raw = Some (key, hash) \<Longrightarrow> hash = key_hash cr key"
  by (auto simp: mint_api_key_def key_hash_def Let_def split: option.splits)

lemma http_ok_same: "http_ok sv w \<Longrightarrow> same_tables (w_db w) d \<Longrightarrow> http_ok sv (w\<lparr>w_db := d\<rparr>)"
  by (erule http_ok_frame) (rule frame_same_tables)

lemma frame_users_get: "on_db (users_get_by_id i) w = (r, w') \<Longrightarrow> service_frame w w'"
  by (auto simp: on_db_run intro!: frame_same_tables dest: users_get_same)

lemma frame_read:
  assumes "\<And>d. f = pg_run (\<lambda>d. (g d, d))" "on_db f w = (r, w')"
  shows "service_frame w w'"
  using assms pg_run_same [of "w_db w" "\<lambda>d. (g d, d)"]
  by (auto simp: on_db_eq intro!: frame_same_tables)

lemma frame_counts:
  "on_db keys_count_all w = (r, w') \<Longrightarrow> service_frame w w'"
  "on_db (keys_count_by_owner i) w = (r, w') \<Longrightarrow> service_frame w w'"
  "on_db users_list w = (r1, w') \<Longrightarrow> service_frame w w'"
  unfolding keys_count_all_def keys_count_by_owner_def users_list_def
  by (erule frame_read [OF refl])+

lemma check_create_quotas_frame:
  assumes "check_create_quotas sv s owner m w = (r, w')" shows "service_frame w w'"
proof -
  have u: "check_user_quota sv owner v = (r, v') \<Longrightarrow> service_frame v v'" for v v'
    unfolding check_user_quota_def
    by (auto split: prod.splits sum.splits if_splits storage_err.splits
        dest!: frame_users_get frame_counts(2) intro: service_frame_trans)
  show ?thesis
    using assms unfolding check_create_quotas_def
    by (auto split: prod.splits sum.splits if_splits dest!: frame_counts(1) u
        intro: service_frame_trans)
qed

lemma counts_same:
  "on_db keys_count_all w = (r, w') \<Longrightarrow> same_tables (w_db w) (w_db w')"
  "on_db (keys_count_by_owner i) w = (r, w') \<Longrightarrow> same_tables (w_db w) (w_db w')"
  "on_db (users_get_by_id i) w = (r2, w') \<Longrightarrow> same_tables (w_db w) (w_db w')"
  using pg_run_same [of "w_db w" "\<lambda>d. (Inr (length (t_instances d)), d)"]
    pg_run_same [of "w_db w" "\<lambda>d. (Inr (owned_by i d), d)"]
  by (auto simp: on_db_run keys_count_all_def keys_count_by_owner_def dest: users_get_same)

lemma check_create_quotas_same:
  assumes "check_create_quotas sv s owner m w = (r, w')" shows "same_tables (w_db w) (w_db w')"
proof -
  have u: "check_user_quota sv owner v = (r, v') \<Longrightarrow> same_tables (w_db v) (w_db v')" for v v'
    unfolding check_user_quota_def
    by (auto split: prod.splits sum.splits if_splits storage_err.splits
        dest!: counts_same(2,3) intro: same_tables_trans)
  show ?thesis
    using assms unfolding check_create_quotas_def
    by (auto split: prod.splits sum.splits if_splits dest!: counts_same(1) u
        intro: same_tables_trans)
qed

lemma resolve_owner_frame:
  "resolve_owner sv s requested w = (r, w') \<Longrightarrow> service_frame w w'"
  unfolding resolve_owner_def svc_oldest_admin_def
  by (auto split: prod.splits sum.splits if_splits option.splits svc_err.splits
      dest!: frame_counts(3))

lemma write_instance_error_not_ok [simp]: "write_instance_error e \<noteq> ROk n x"
  by (cases e rule: write_instance_error.cases)
     (simp_all add: write_forbidden_def not_found_instance_def internal_error_def)

lemma resolve_owner_not_ok: "resolve_owner sv s q w = (Inl resp, w') \<Longrightarrow> resp \<noteq> ROk n x"
  by (auto simp: resolve_owner_def internal_error_def write_forbidden_def
      split: if_splits option.splits prod.splits sum.splits svc_err.splits)

lemma handle_create_cases:
  assumes "handle_create_instance sv m new_id raw sc b w = (resp, w')"
  obtains (refused) "service_frame w w'" "\<And>x. resp \<noteq> ROk 201 x"
    | (failed) v rq owner e where "service_frame w v" "\<And>x. resp \<noteq> ROk 201 x"
        "svc_create sv new_id raw (create_input_of rq owner) v = (Inl e, w')"
    | (created) s rq owner v1 v2 v3 c key where "sc = Some s" "b = BodyOk rq"
        "resolve_owner sv s (cq_owner rq) w = (Inr owner :: (wa_instance \<times> string) resp + uuid, v1)"
        "check_create_quotas sv s owner m v1 = (Inr (), v2)"
        "svc_create sv new_id raw (create_input_of rq owner) v2 = (Inr (c, key), v3)"
        "resp = ROk 201 (new_instance_response c, key)" "w' = store_key (inst_id c) key v3"
proof (cases "authorize_collection sc")
  case False
  then show thesis using assms by (intro refused) (auto simp: handle_create_instance_def write_forbidden_def)
next
  case True
  then obtain s where sc: "sc = Some s" by (auto simp: authorize_collection_def split: option.splits)
  show thesis
  proof (cases b)
    case (BodyOk rq)
    obtain r1 v1 where ro: "resolve_owner sv s (cq_owner rq) w = (r1 :: (wa_instance \<times> string) resp + uuid, v1)"
      by fastforce
    note f1 = resolve_owner_frame [OF ro]
    show thesis
    proof (cases r1)
      case (Inl e)
      then show thesis using assms True sc BodyOk ro f1
        by (intro refused) (auto simp: handle_create_instance_def dest: resolve_owner_not_ok)
    next
      case (Inr owner)
      obtain r2 v2 where q: "check_create_quotas sv s owner m v1 = (r2, v2)" by fastforce
      have f2: "service_frame w v2" using f1 check_create_quotas_frame [OF q] by (rule service_frame_trans)
      show thesis
      proof (cases r2)
        case (Inl e)
        then show thesis using assms True sc BodyOk ro Inr q f2
          by (intro refused) (auto simp: handle_create_instance_def write_quota_error_def internal_error_def
              split: if_splits)
      next
        case (Inr u)
        obtain r3 v3 where c: "svc_create sv new_id raw (create_input_of rq owner) v2 = (r3, v3)" by fastforce
        show thesis
        proof (cases r3)
          case (Inl e)
          then have "resp = write_instance_error e" "w' = v3"
            using assms True sc BodyOk ro q c \<open>r1 = Inr owner\<close> \<open>r2 = Inr u\<close>
            by (auto simp: handle_create_instance_def)
          then show thesis using f2 c Inl by (intro failed) auto
        next
          case (Inr ck)
          obtain ci key where "ck = (ci, key)" by fastforce
          with Inr assms True sc BodyOk ro q c \<open>r1 = Inr owner\<close> \<open>r2 = Inr u\<close> show thesis
            by (intro created) (auto simp: handle_create_instance_def)
        qed
      qed
    qed
  next
    case BodyTooLarge
    then show thesis using assms True by (intro refused) (auto simp: handle_create_instance_def)
  next
    case BodyMalformed
    then show thesis using assms True by (intro refused) (auto simp: handle_create_instance_def)
  qed
qed

lemma create_http_ok:
  assumes "handle_create_instance sv m new_id raw sc b w = (resp, w')" "http_ok sv w"
  shows "http_ok sv w'"
proof -
  have step: "http_ok sv (case res of Inl e \<Rightarrow> v' | Inr (c, key) \<Rightarrow> store_key (inst_id c) key v')"
    if "svc_create sv new_id raw input v = (res, v')" "http_ok sv v" for input v res v'
    using that svc_create_keys_agree [of v sv new_id raw input res v'] svc_create_frame(2) [OF that(1)]
    by (auto simp: http_ok_def store_key_def split: sum.splits)
  from assms(1) show ?thesis
  proof (cases rule: handle_create_cases)
    case refused
    then show ?thesis using assms(2) by (auto intro: http_ok_frame)
  next
    case (failed v rq owner e)
    then show ?thesis using step [OF failed(3)] assms(2) by (auto intro: http_ok_frame)
  next
    case (created s rq owner v1 v2 v3 c key)
    have "service_frame w v2"
      using created(3,4) resolve_owner_frame check_create_quotas_frame by (blast intro: service_frame_trans)
    then show ?thesis
      using step [OF created(5)] created(7) assms(2) by (auto intro: http_ok_frame)
  qed
qed

lemma rotate_http_ok:
  assumes "handle_rotate_api_key sv raw sc raw_id w = (resp, w')" "http_ok sv w"
  shows "http_ok sv w'"
  using assms(1) unfolding handle_rotate_api_key_def
proof (cases rule: with_instance_cases)
  case (away d)
  then show ?thesis using assms(2) by (simp add: http_ok_same)
next
  case (acted i r d)
  have ok: "http_ok sv (w\<lparr>w_db := d\<rparr>)" using assms(2) acted(5) by (rule http_ok_same)
  show ?thesis
  proof (cases "mint_api_key (sv_crypto sv) raw")
    case None
    then show ?thesis using acted(6) ok by auto
  next
    case (Some kh)
    obtain key hash where kh: "kh = (key, hash)" by fastforce
    have hash: "hash = key_hash (sv_crypto sv) key" using Some kh by (auto intro: mint_hash)
    obtain q d2 where q: "keys_set_hash (inst_id (scan_instance r)) hash d = (q, d2)" by fastforce
    have "db_ok d" using ok by (simp add: http_ok_def)
    from db_ok_instance_updates(3) [OF this, of "inst_id (scan_instance r)" hash] have "db_ok d2" using q by simp
    moreover have "q = Inr () \<Longrightarrow> keys_agree (sv_crypto sv) (store_key (ir_id r) key (w\<lparr>w_db := d2\<rparr>))"
      using keys_agree_set [of "sv_crypto sv" "w\<lparr>w_db := d\<rparr>" "ir_id r" key d2] ok q hash
      by (simp add: http_ok_def)
    moreover have "q = Inl x \<Longrightarrow> http_ok sv (w\<lparr>w_db := d2\<rparr>)" for x
      using http_ok_same [OF ok, of d2] q by (auto simp: keys_set_hash_def dest: exec_instance_err)
    ultimately show ?thesis
      using acted(6) ok Some kh q
      by (auto simp: on_db_def http_ok_def store_key_def split: if_splits sum.splits)
  qed
qed

lemma revoke_http_ok:
  assumes "handle_revoke_api_key sv sc raw_id w = (resp, w')" "http_ok sv w"
  shows "http_ok sv w'"
  using assms(1) unfolding handle_revoke_api_key_def
proof (cases rule: with_instance_cases)
  case (away d)
  then show ?thesis using assms(2) by (simp add: http_ok_same)
next
  case (acted i r d)
  have ok: "http_ok sv (w\<lparr>w_db := d\<rparr>)" using assms(2) acted(5) by (rule http_ok_same)
  obtain q d2 where q: "keys_clear_hash (inst_id (scan_instance r)) d = (q, d2)" by fastforce
  have "db_ok d" using ok by (simp add: http_ok_def)
  from db_ok_instance_updates(4) [OF this, of "inst_id (scan_instance r)"] have "db_ok d2" using q by simp
  moreover have "keys_agree (sv_crypto sv) (clear_key (ir_id r) (w\<lparr>w_db := d2\<rparr>))" if "q = Inr ()"
  proof -
    from q that obtain e where "same_tables d e"
      "d2 = e\<lparr>t_instances := update_where (\<lambda>s. ir_id s = ir_id r)
          (\<lambda>s. s\<lparr>ir_api_key_hash := None, ir_updated := pg_now d\<rparr>) (t_instances d)\<rparr>"
      unfolding keys_clear_hash_def by (auto elim: exec_instance_ok)
    then show ?thesis
      using keys_agree_drop [of "sv_crypto sv" "w\<lparr>w_db := d\<rparr>" "ir_id r" d2] ok
      by (auto simp: http_ok_def set_update_where)
  qed
  moreover have "q = Inl x \<Longrightarrow> http_ok sv (w\<lparr>w_db := d2\<rparr>)" for x
    using http_ok_same [OF ok, of d2] q by (auto simp: keys_clear_hash_def dest: exec_instance_err)
  ultimately show ?thesis
    using acted(6) ok q
    by (auto simp: on_db_def http_ok_def clear_key_def split: if_splits sum.splits)
qed

context service_contract
begin

lemma delete_http_ok:
  assumes "handle_delete_instance sv sc raw_id w = (resp, w')" "http_ok sv w"
  shows "http_ok sv w'"
  using assms(1) unfolding handle_delete_instance_def
proof (cases rule: with_instance_cases)
  case (away d)
  then show ?thesis using assms(2) by (simp add: http_ok_same)
next
  case (acted i r d)
  have ok: "http_ok sv (w\<lparr>w_db := d\<rparr>)" using assms(2) acted(5) by (rule http_ok_same)
  obtain q v where q: "svc_delete sv i (w\<lparr>w_db := d\<rparr>) = (q, v)" by fastforce
  show ?thesis
  proof (cases q)
    case (Inl e)
    have "svc_delete sv i (w\<lparr>w_db := d\<rparr>) = (Inl e, v)" using q unfolding Inl .
    then have "service_frame (w\<lparr>w_db := d\<rparr>) v" by (rule svc_delete_failed)
    then have "http_ok sv v" using ok by (rule http_ok_frame [rotated])
    then show ?thesis using acted(6) q Inl by simp
  next
    case (Inr u)
    then obtain v1 s where v1: "service_frame (w\<lparr>w_db := d\<rparr>) v1" "same_tables (w_db v1) s"
      "v = v1\<lparr>w_db := cascade_instance i s\<rparr>" "i \<in> ir_id ` set (t_instances (w_db v1))"
      using svc_delete_done [of i "w\<lparr>w_db := d\<rparr>" u v thesis] q unfolding Inr by metis
    have ok1: "http_ok sv v1" using ok v1(1) by (rule http_ok_frame)
    then have "http_ok sv (v1\<lparr>w_db := s\<rparr>)" using v1(2) by (rule http_ok_same)
    then have "db_ok (cascade_instance i s)"
      by (simp add: http_ok_def db_ok_def cascade_instance_def instances_ok_filter
          messages_ok_cascade idem_ok_cascade media_ok_cascade del: set_filter)
    moreover have "keys_agree (sv_crypto sv) (clear_key i (v1\<lparr>w_db := cascade_instance i s\<rparr>))"
    proof (rule keys_agree_drop)
      show "keys_agree (sv_crypto sv) v1" using ok1 by (simp add: http_ok_def)
    qed (simp add: cascade_instance_def same_tables_fields(2) [OF v1(2)])
    ultimately show ?thesis
      using acted(6) q Inr v1(3) by (auto simp: http_ok_def clear_key_def)
  qed
qed

lemma http_ok_step:
  assumes "http_step sv max_instances w w'" "http_ok sv w"
  shows "http_ok sv w'"
  using assms(1)
proof cases
  case (http_update sc raw_id ub r2)
  have "handle_update_instance sv sc raw_id ub w = (r2, w') \<Longrightarrow> service_frame w w'"
    unfolding handle_update_instance_def
    by (erule with_instance_cases)
       (auto split: body.splits prod.splits sum.splits dest!: svc_update_frame frame_same_tables
          intro: service_frame_trans)
  with http_update assms(2) show ?thesis by (auto intro: http_ok_frame)
next
  case (http_connect sc raw_id r5)
  have "handle_connect_instance sv sc raw_id w = (r5, w') \<Longrightarrow> service_frame w w'"
    unfolding handle_connect_instance_def
    by (erule with_instance_cases)
       (auto split: prod.splits sum.splits dest!: svc_connect_frame frame_same_tables
          intro: service_frame_trans)
  with http_connect assms(2) show ?thesis by (auto intro: http_ok_frame)
next
  case (http_qr sc raw_id r5)
  have "handle_qr_instance sv sc raw_id w = (r5, w') \<Longrightarrow> service_frame w w'"
    unfolding handle_qr_instance_def
    by (erule with_instance_cases)
       (auto split: prod.splits sum.splits dest!: svc_qr_frame frame_same_tables
          intro: service_frame_trans)
  with http_qr assms(2) show ?thesis by (auto intro: http_ok_frame)
next
  case (http_disconnect sc raw_id r3)
  have "handle_disconnect_instance sv sc raw_id w = (r3, w') \<Longrightarrow> service_frame w w'"
    unfolding handle_disconnect_instance_def
    by (erule with_instance_cases)
       (auto split: prod.splits sum.splits dest!: svc_disconnect_frame frame_same_tables
          intro: service_frame_trans)
  with http_disconnect assms(2) show ?thesis by (auto intro: http_ok_frame)
next
  case http_background
  with assms(2) show ?thesis by (auto intro: http_ok_frame)
qed (use assms(2) in \<open>auto intro: create_http_ok delete_http_ok rotate_http_ok revoke_http_ok\<close>)

lemma http_reachable_ok: "http_reachable sv max_instances w \<Longrightarrow> http_ok sv w"
proof (induction rule: http_reachable.induct)
  case (boot w)
  then show ?case
    by (simp add: http_ok_def keys_agree_def kc.covers_def new_key_cache_def cache_get_def)
qed (rule http_ok_step)

end

section \<open>Quotas\<close>

lemma count_all_ok: "on_db keys_count_all w = (Inr n, w') \<Longrightarrow> n = length (t_instances (w_db w)) \<and> same_tables (w_db w) (w_db w')"
  unfolding keys_count_all_def
  by (auto simp: on_db_run elim!: pg_run_Inr dest: same_tables_fields(2))

lemma count_by_owner_ok:
  "on_db (keys_count_by_owner u) w = (Inr n, w') \<Longrightarrow> n = owned_by u (w_db w) \<and> same_tables (w_db w) (w_db w')"
  unfolding keys_count_by_owner_def owned_by_def
  by (auto simp: on_db_run elim!: pg_run_Inr dest: same_tables_fields(2))

lemma users_get_ok:
  assumes "on_db (users_get_by_id u) w = (Inr x, w')"
  shows "same_tables (w_db w) (w_db w')" "\<exists>r. row_by ur_id u (t_users (w_db w)) = Some r \<and> x = scan_user r"
proof -
  from assms obtain d where d: "users_get_by_id u (w_db w) = (Inr x, d)" "w' = w\<lparr>w_db := d\<rparr>"
    by (auto simp: on_db_run)
  then show "same_tables (w_db w) (w_db w')" using users_get_same by auto
  from d(1) obtain e where e: "same_tables (w_db w) e"
    "(case row_by ur_id u (t_users e) of None \<Rightarrow> Inl SNotFound | Some r \<Rightarrow> Inr (scan_user r), e) = (Inr x, d)"
    unfolding users_get_by_id_def by (rule pg_run_Inr)
  then show "\<exists>r. row_by ur_id u (t_users (w_db w)) = Some r \<and> x = scan_user r"
    by (auto simp: same_tables_fields [OF e(1)] split: option.splits)
qed

lemma users_get_missing:
  assumes "on_db (users_get_by_id u) w = (Inl SNotFound, w')"
  shows "row_by ur_id u (t_users (w_db w)) = None"
proof -
  from assms obtain d where d: "users_get_by_id u (w_db w) = (Inl SNotFound, d)" by (auto simp: on_db_run)
  have "\<forall>e. users_get_by_id u (w_db w) = (e, d) \<longrightarrow> e = Inl SNotFound \<longrightarrow> row_by ur_id u (t_users (w_db w)) = None"
    unfolding users_get_by_id_def
    by (rule pg_run_cases [of "\<lambda>d. (case row_by ur_id u (t_users d) of
          None \<Rightarrow> Inl SNotFound | Some r \<Rightarrow> Inr (scan_user r), d)" "w_db w"])
       (auto dest!: same_tables_fields(1) split: option.splits)
  with d show ?thesis by simp
qed

definition below_quota :: "int \<Rightarrow> uuid \<Rightarrow> db \<Rightarrow> bool" where
  "below_quota m u d \<longleftrightarrow> (0 < m \<longrightarrow> int (length (t_instances d)) < m)
     \<and> (\<forall>r. row_by ur_id u (t_users d) = Some r \<longrightarrow> 0 < ur_quota r \<longrightarrow> int (owned_by u d) < ur_quota r)"

definition within_quota :: "int \<Rightarrow> uuid \<Rightarrow> db \<Rightarrow> bool" where
  "within_quota m u d \<longleftrightarrow> (0 < m \<longrightarrow> int (length (t_instances d)) \<le> m)
     \<and> (\<forall>r. row_by ur_id u (t_users d) = Some r \<longrightarrow> 0 < ur_quota r \<longrightarrow> int (owned_by u d) \<le> ur_quota r)"

lemma quota_same:
  "same_tables d e \<Longrightarrow> below_quota m u e = below_quota m u d"
  "same_tables d e \<Longrightarrow> within_quota m u e = within_quota m u d"
  using same_tables_fields [of d e] by (auto simp: below_quota_def within_quota_def owned_by_def)

lemma check_user_quota_ok:
  assumes "check_user_quota sv u w = (Inr (), w')"
  shows "row_by ur_id u (t_users (w_db w)) = Some r \<Longrightarrow> 0 < ur_quota r \<Longrightarrow> int (owned_by u (w_db w)) < ur_quota r"
proof -
  assume r: "row_by ur_id u (t_users (w_db w)) = Some r" "0 < ur_quota r"
  obtain g w1 where g: "on_db (users_get_by_id u) w = (g, w1)" by fastforce
  from r(1) g have "g \<noteq> Inl SNotFound" using users_get_missing [of u w w1] by auto
  then obtain x where x: "g = Inr x"
    using assms g by (cases g) (auto simp: check_user_quota_def split: if_splits storage_err.splits)
  then have same: "same_tables (w_db w) (w_db w1)" "x = scan_user r"
    using users_get_ok [of u w x w1] g r(1) by auto
  obtain n w2 where n: "on_db (keys_count_by_owner u) w1 = (n, w2)" by fastforce
  then show ?thesis
    using assms g x same r(2) count_by_owner_ok [of u w1 _ w2] same_tables_fields(2) [OF same(1)]
    by (auto simp: check_user_quota_def scan_user_def owned_by_def split: if_splits sum.splits)
qed

lemma check_create_quotas_ok:
  assumes "check_create_quotas sv s u m w = (Inr (), w')"
    and "\<not> require_role s ''admin''" "sc_kind s = scope_user"
  shows "below_quota m u (w_db w)"
proof (cases "0 < m")
  case True
  obtain n w1 where n: "on_db keys_count_all w = (n, w1)" by fastforce
  then obtain k where k: "n = Inr k" "int k < m" "check_user_quota sv u w1 = (Inr (), w')"
    using assms True by (auto simp: check_create_quotas_def split: if_splits sum.splits)
  from n k(1) have c: "k = length (t_instances (w_db w))" "same_tables (w_db w) (w_db w1)"
    using count_all_ok by auto
  show ?thesis
    using check_user_quota_ok [OF k(3)] k(2) c same_tables_fields [OF c(2)]
    by (simp add: below_quota_def owned_by_def)
next
  case False
  then have "check_user_quota sv u w = (Inr (), w')"
    using assms by (auto simp: check_create_quotas_def split: if_splits)
  from check_user_quota_ok [OF this] show ?thesis using False by (simp add: below_quota_def)
qed

text \<open>A user that is no admin owns what it creates, and was below its quota when it did.\<close>

lemma created_by_user:
  assumes ok: "db_ok (w_db w)" and run: "handle_create_instance sv m new_id raw (Some s) b w = (ROk 201 x, w')"
    and role: "\<not> require_role s ''admin''"
  shows "below_quota m (sc_user s) (w_db w)
     \<and> (\<exists>row. ir_owner row = Some (sc_user s)
          \<and> t_instances (w_db w') = t_instances (w_db w) @ [row] \<and> t_users (w_db w') = t_users (w_db w))"
  using run
proof (cases rule: handle_create_cases)
  case (created s' rq owner v1 v2 v3 c key)
  have s': "s' = s" using created(1) by simp
  have kind: "sc_kind s = scope_user" "owner = sc_user s" "v1 = w"
    using created(3) role s' by (auto simp: resolve_owner_def write_forbidden_def split: if_splits)
  have below: "below_quota m (sc_user s) (w_db w)"
    using check_create_quotas_ok [OF created(4)] role kind s' by simp
  have same: "same_tables (w_db w) (w_db v2)"
    using created(4) unfolding kind(3) s' by (rule check_create_quotas_same)
  have "db_ok (w_db v2)" using script_blindD [OF blind same ok] .
  from svc_create_outcome [OF this created(5)] obtain row where
    "ir_owner row = Some (sc_user s)"
    "same_tables ((w_db v2)\<lparr>t_instances := t_instances (w_db v2) @ [row]\<rparr>) (w_db v3)"
    by (auto simp: create_outcome_def create_input_of_def kind(2))
  then show ?thesis
    using below created(7) same_tables_fields [OF same]
    by (auto simp: same_tables_iff store_key_def)
qed (cases x; auto)+

lemma created_within_quota:
  assumes "db_ok (w_db w)" "handle_create_instance sv m new_id raw (Some s) b w = (ROk 201 x, w')"
    and "\<not> require_role s ''admin''"
  shows "within_quota m (sc_user s) (w_db w')"
  using created_by_user [OF assms]
  by (auto simp: below_quota_def within_quota_def owned_by_def)

text \<open>A request of a user leaves every other user's instances alone.\<close>

lemma created_owned_other:
  assumes "db_ok (w_db w)" "handle_create_instance sv m new_id raw (Some s) b w = (ROk 201 x, w')"
    and "\<not> require_role s ''admin''" "u \<noteq> sc_user s"
  shows "owned_by u (w_db w') = owned_by u (w_db w)"
  using created_by_user [OF assms(1-3)] assms(4) by (auto simp: owned_by_def)

section \<open>Dead keys\<close>

text \<open>The hash a request presents selects the instance; a hash no row has selects none.\<close>

lemma authenticate_instance_row:
  assumes "authenticate cr gk hk secret now rq d = (Inr s, d')" "sc_kind s = scope_instance"
    "db_ok d" "row_by ir_id (sc_instance s) (t_instances d) = Some r"
  shows "ir_api_key_hash r = Some (key_hash cr (rq_apikey rq))"
proof -
  have "parse_token cr now t secret = Some s \<Longrightarrow> sc_kind s = scope_user" for t
    by (auto simp: parse_token_def split: option.splits)
  with authenticate_sound [OF assms(1)] assms(2) obtain q where
    q: "q \<in> set (t_instances d)" "ir_api_key_hash q = Some (key_hash cr (rq_apikey rq))"
      "sc_instance s = ir_id q"
    by (auto simp: scope_kinds)
  moreover have "keyed ir_id (t_instances d)" using assms(3) by (simp add: db_ok_def instances_ok_def)
  ultimately have "q = r" using assms(4) by (simp add: row_by_keyed)
  with q show ?thesis by simp
qed

lemma rotated_row:
  assumes ok: "db_ok (w_db w)" and run: "handle_rotate_api_key sv raw sc raw_id w = (ROk 200 (i, key), w')"
  shows "db_ok (w_db w') \<and> (\<exists>r. row_by ir_id i (t_instances (w_db w')) = Some r
           \<and> ir_api_key_hash r = Some (key_hash (sv_crypto sv) key))"
proof -
  show ?thesis
    using run unfolding handle_rotate_api_key_def
  proof (cases rule: with_instance_cases)
    case (away d)
    then show ?thesis by (simp add: turned_away_def write_forbidden_def not_found_instance_def internal_error_def)
  next
    case (acted j r d)
    from acted(6) obtain hash d2 where h: "mint_api_key (sv_crypto sv) raw = Some (key, hash)"
      "keys_set_hash (ir_id r) hash d = (Inr (), d2)" "i = ir_id r" "w_db w' = d2"
      by (auto simp: internal_error_def not_found_instance_def on_db_def store_key_def
          split: option.splits if_splits prod.splits sum.splits storage_err.splits
          elim!: write_key_error.elims)
    have okd: "db_ok d" using script_blindD [OF blind acted(5) ok] .
    then have ok2: "db_ok d2" using db_ok_instance_updates(3) [OF okd, of "ir_id r" hash] h(2) by simp
    from h(2) obtain e where e: "same_tables d e"
      "d2 = e\<lparr>t_instances := update_where (\<lambda>s. ir_id s = ir_id r)
         (\<lambda>s. s\<lparr>ir_api_key_hash := Some hash, ir_updated := pg_now d\<rparr>) (t_instances d)\<rparr>"
      unfolding keys_set_hash_def by (auto elim: exec_instance_ok)
    have "row_by ir_id (ir_id r) (t_instances d) = Some r"
      using acted(3) same_tables_fields(2) [OF acted(5)] row_by_Some [OF acted(3)] by simp
    then have "row_by ir_id i (t_instances d2) = Some (r\<lparr>ir_api_key_hash := Some hash, ir_updated := pg_now d\<rparr>)"
      by (simp add: e(2) h(3) row_by_update)
    then show ?thesis using ok2 h(4) mint_hash [OF h(1)] by auto
  qed
qed

lemma rotated_cache:
  "handle_rotate_api_key sv raw sc raw_id w = (ROk 200 (i, key), w') \<Longrightarrow> cache_get i (w_keys w') = Some key"
  unfolding handle_rotate_api_key_def
  by (erule with_instance_cases)
     (auto simp: turned_away_def write_forbidden_def not_found_instance_def internal_error_def on_db_def
        store_key_def kc.get_store split: option.splits if_splits prod.splits sum.splits storage_err.splits
        elim!: write_key_error.elims)

definition denied :: "'s world \<Rightarrow> 'a resp \<times> 's world \<Rightarrow> bool" where
  "denied w out \<longleftrightarrow> turned_away (fst out) \<and> (\<exists>d. same_tables (w_db w) d \<and> snd out = w\<lparr>w_db := d\<rparr>)"

lemma with_instance_denied:
  assumes "\<And>i r. cr_parse_id cr raw_id = Some i \<Longrightarrow> row_by ir_id i (t_instances (w_db w)) = Some r \<Longrightarrow>
      \<not> permitted sc (scan_instance r)"
  shows "denied w (with_instance cr permitted sc raw_id act w)"
proof -
  obtain resp w' where run: "with_instance cr permitted sc raw_id act w = (resp, w')" by fastforce
  from run show ?thesis
  proof (cases rule: with_instance_cases)
    case (away d)
    then show ?thesis by (auto simp: denied_def run)
  next
    case (acted i r d)
    then show ?thesis using assms by blast
  qed
qed

lemma admin_only_authorized: "admin_only sc inst \<Longrightarrow> authorize_instance sc inst"
  by (auto simp: admin_only_def require_admin_scope_def authorize_instance_def split: option.splits)

section \<open>Properties\<close>

text \<open>
  C28: an instance key used on another instance is answered 403 by every handler under
  \<^verbatim>\<open>/instances/{id}\<close>, whatever the database holds, without a statement sent or anything changed:
  the answer does not tell whether the other instance exists.
\<close>

theorem foreign_key_learns_nothing:
  assumes "cr_parse_id (sv_crypto sv) raw_id = Some i" "sc_kind s = scope_instance" "sc_instance s \<noteq> i"
  shows "handle_get_instance sv (Some s) raw_id w = (write_forbidden, w)
    \<and> handle_update_instance sv (Some s) raw_id ub w = (write_forbidden, w)
    \<and> handle_delete_instance sv (Some s) raw_id w = (write_forbidden, w)
    \<and> handle_rotate_api_key sv raw (Some s) raw_id w = (write_forbidden, w)
    \<and> handle_revoke_api_key sv (Some s) raw_id w = (write_forbidden, w)
    \<and> handle_connect_instance sv (Some s) raw_id w = (write_forbidden, w)
    \<and> handle_qr_instance sv (Some s) raw_id w = (write_forbidden, w)
    \<and> handle_instance_status sv (Some s) raw_id w = (write_forbidden, w)
    \<and> handle_disconnect_instance sv (Some s) raw_id w = (write_forbidden, w)"
proof -
  have "deny_foreign_instance_key (Some s) i"
    using assms by (simp add: deny_foreign_instance_key_def)
  note away = with_instance_foreign_key [OF assms(1) this]
  show ?thesis
    by (simp add: away handle_get_instance_def handle_update_instance_def handle_delete_instance_def
        handle_rotate_api_key_def handle_revoke_api_key_def handle_connect_instance_def
        handle_qr_instance_def handle_instance_status_def handle_disconnect_instance_def)
qed

theorem foreign_key_learns_nothing_witness:
  "handle_delete_instance sample_service (Some (empty_scope\<lparr>sc_kind := scope_instance, sc_instance := 2\<rparr>))
     ''one'' sample_world = (write_forbidden, sample_world)"
  using foreign_key_learns_nothing [of sample_service "''one''" 1
      "empty_scope\<lparr>sc_kind := scope_instance, sc_instance := 2\<rparr>" sample_world]
  by (simp add: sample_service_def sample_crypto_def)

text \<open>
  C2: a request whose scope is not authorized on the stored instance is answered 403, 404 or 500
  and changes neither the tables nor the key cache nor any session.
\<close>

theorem unauthorized_requests_change_nothing:
  assumes "cr_parse_id (sv_crypto sv) raw_id = Some i"
    and "\<forall>r. row_by ir_id i (t_instances (w_db w)) = Some r \<longrightarrow> \<not> authorize_instance sc (scan_instance r)"
  shows "denied w (handle_get_instance sv sc raw_id w)
    \<and> denied w (handle_update_instance sv sc raw_id ub w)
    \<and> denied w (handle_delete_instance sv sc raw_id w)
    \<and> denied w (handle_connect_instance sv sc raw_id w)
    \<and> denied w (handle_qr_instance sv sc raw_id w)
    \<and> denied w (handle_instance_status sv sc raw_id w)
    \<and> denied w (handle_disconnect_instance sv sc raw_id w)
    \<and> denied w (handle_rotate_api_key sv raw sc raw_id w)
    \<and> denied w (handle_revoke_api_key sv sc raw_id w)"
proof -
  have a: "denied w (with_instance (sv_crypto sv) authorize_instance sc raw_id act w)" for act
    by (rule with_instance_denied) (use assms in auto)
  have b: "denied w (with_instance (sv_crypto sv) admin_only sc raw_id act w)" for act
  proof (rule with_instance_denied)
    fix j r assume "cr_parse_id (sv_crypto sv) raw_id = Some j" "row_by ir_id j (t_instances (w_db w)) = Some r"
    then have "\<not> authorize_instance sc (scan_instance r)" using assms by simp
    then show "\<not> admin_only sc (scan_instance r)" using admin_only_authorized by blast
  qed
  show ?thesis
    by (simp add: a b handle_get_instance_def handle_update_instance_def handle_delete_instance_def
        handle_rotate_api_key_def handle_revoke_api_key_def handle_connect_instance_def
        handle_qr_instance_def handle_instance_status_def handle_disconnect_instance_def)
qed

theorem unauthorized_requests_change_nothing_witness:
  "denied sample_world (handle_delete_instance sample_service None ''one'' sample_world)"
  by (rule unauthorized_requests_change_nothing [THEN conjunct2, THEN conjunct2, THEN conjunct1])
     (auto simp: sample_service_def sample_crypto_def authorize_instance_iff)




definition sample_request :: create_request where
  "sample_request = \<lparr>cq_name = ''main'', cq_external_ref = [], cq_owner = None, cq_webhook_url = None,
     cq_webhook_enabled = None, cq_webhook_events = None\<rparr>"

end
