(* ===== verification/Paging.thy ===== *)
theory Paging
  imports StoreMessages StoreInstances
begin

text \<open>
  Keyset pagination, as the list queries of \<^verbatim>\<open>instances.go\<close> and \<^verbatim>\<open>messages.go\<close> do it: the page after a
  cursor is the part of the ordered table that follows the cursor row, so reading page after page reads
  the ordered table, every row once.
\<close>

abbreviation row_key :: "('r \<Rightarrow> instant) \<Rightarrow> ('r \<Rightarrow> uuid) \<Rightarrow> 'r \<Rightarrow> instant \<times> uuid" where
  "row_key created ident r \<equiv> (created r, ident r)"

lemma set_desc_rows [simp]: "set (desc_rows created ident rows) = set rows"
  by (simp add: desc_rows_def)

lemma length_desc_rows [simp]: "length (desc_rows created ident rows) = length rows"
  by (simp add: desc_rows_def)

lemma distinct_desc_rows [simp]: "distinct (map f (desc_rows created ident rows)) \<longleftrightarrow> distinct (map f rows)"
  by (simp add: desc_rows_def distinct_map)

lemma desc_rows_filter:
  "desc_rows created ident (filter P rows) = filter P (desc_rows created ident rows)"
  by (simp add: desc_rows_def filter_sort [symmetric] rev_filter)

lemma desc_rows_order:
  assumes "distinct (map ident rows)"
  shows "sorted_wrt (\<lambda>a b. row_key created ident b < row_key created ident a) (desc_rows created ident rows)"
proof -
  let ?k = "row_key created ident" and ?s = "sort_key (row_key created ident) rows"
  have "distinct (map ident ?s)"
    using assms by (simp add: distinct_map)
  then have "distinct (map ?k ?s)"
    by (auto simp: distinct_map inj_on_def)
  moreover have "sorted (map ?k ?s)" by (rule sorted_sort_key)
  ultimately have "sorted_wrt (<) (map ?k ?s)" by (simp add: strict_sorted_iff)
  then show ?thesis by (simp add: desc_rows_def sorted_wrt_map sorted_wrt_rev)
qed

lemma below_nth:
  fixes f :: "'r \<Rightarrow> 'k :: order"
  assumes "sorted_wrt (\<lambda>a b. f b < f a) xs" "k < length xs"
  shows "filter (\<lambda>r. f r < f (xs ! k)) xs = drop (Suc k) xs"
  using assms
proof (induction xs arbitrary: k)
  case (Cons x xs)
  show ?case
  proof (cases k)
    case 0
    then show ?thesis using Cons.prems by (simp add: filter_True)
  next
    case (Suc j)
    then have j: "j < length xs" using Cons.prems by simp
    then have "f (xs ! j) < f x" using Cons.prems by simp
    then have "\<not> f x < f (xs ! j)" by simp
    then show ?thesis using Cons.IH [OF _ j] Cons.prems Suc by simp
  qed
qed simp

text \<open>What follows the row at position \<open>k\<close> of the ordered table is what a query with its id as cursor sees.\<close>

lemma rows_after:
  fixes created :: "'r \<Rightarrow> instant" and ident :: "'r \<Rightarrow> uuid"
  assumes d: "distinct (map ident table)" and k: "k < length table"
  defines "all_rows \<equiv> desc_rows created ident table"
  shows "desc_rows created ident (rows_before created ident table (ident (all_rows ! k)) table) = drop (Suc k) all_rows"
proof -
  let ?c = "all_rows ! k"
  have "?c \<in> set table" using k by (metis all_rows_def length_desc_rows nth_mem set_desc_rows)
  then have "row_by ident (ident ?c) table = Some ?c" by (intro row_by_keyed) (use d in \<open>simp_all add: keyed_def\<close>)
  then have "rows_before created ident table (ident ?c) table
      = filter (\<lambda>r. row_key created ident r < row_key created ident ?c) table"
    by (simp add: rows_before_def)
  then show ?thesis
    using below_nth [OF desc_rows_order [OF d], of k created] k by (simp add: desc_rows_filter all_rows_def)
qed

lemma page_of_last: "length rows \<le> limit \<Longrightarrow> page_of show_id ident limit rows = (rows, [])"
  by (simp add: page_of_def)

lemma page_of_more:
  assumes "limit < length rows" "0 < limit"
  shows "page_of show_id ident limit rows = (take limit rows, show_id (ident (rows ! (limit - 1))))"
  using assms by (simp add: page_of_def Let_def min_def)

end
