(* ===== verification/SessionService.thy ===== *)
theory SessionService
  imports Session HttpInvariants Paging "HOL-Library.Multiset"
begin

text \<open>
  The instance service on the sessions of \<open>Session\<close>: the manager keeps the contract the service relies
  on, so what \<open>HttpInvariants\<close> shows of the handlers holds of the service as it is wired; and the steps
  of the running system keep the invariant of the sessions.
\<close>

section \<open>The service\<close>

definition wa_sessions :: "session_config \<Rightarrow> (nat, wa_rest) session_iface" where
  "wa_sessions cf =
     \<lparr>sm_create = manager_create cf, sm_remove = manager_remove cf, sm_restore_all = restore_all cf,
      ss_status = (\<lambda>h w. sn_status (the_session h w)), ss_connect = session_connect cf, ss_qr = session_qr cf,
      ss_disconnect = session_disconnect cf\<rparr>"

definition remove_instance_media :: "session_config \<Rightarrow> uuid \<Rightarrow> (string, unit, wa_rest) op" where
  "remove_instance_media cf i w =
     (case media_delete_instance (cf_storage cf) i \<lparr>mw_db = w_db w, mw_fs = wr_files (w_rest w)\<rparr> of
        (r, m) \<Rightarrow> (case r of Inl _ \<Rightarrow> Inl ''delete media'' | Inr _ \<Rightarrow> Inr (),
                   w\<lparr>w_db := mw_db m, w_rest := (w_rest w)\<lparr>wr_files := mw_fs m\<rparr>\<rparr>))"

definition wa_service :: "session_config \<Rightarrow> crypto \<Rightarrow> net_env \<Rightarrow> (nat, wa_rest) service" where
  "wa_service cf cr net =
     \<lparr>sv_sessions = wa_sessions cf, sv_media = Some (remove_instance_media cf), sv_users = True, sv_keys = True,
      sv_crypto = cr, sv_net = net\<rparr>"

section \<open>What a database operation keeps\<close>

definition db_frame :: "db \<Rightarrow> db \<Rightarrow> bool" where
  "db_frame d d' \<longleftrightarrow> key_view d' = key_view d \<and> t_users d' = t_users d \<and> (db_ok d \<longrightarrow> db_ok d')"

lemma service_frame_db: "service_frame w w' \<longleftrightarrow> w_keys w' = w_keys w \<and> db_frame (w_db w) (w_db w')"
  by (simp add: service_frame_def db_frame_def)

lemma db_frame_refl [simp]: "db_frame d d"
  by (simp add: db_frame_def)

lemma db_frame_trans: "db_frame a b \<Longrightarrow> db_frame b c \<Longrightarrow> db_frame a c"
  by (simp add: db_frame_def)

lemma db_frame_same: "same_tables d e \<Longrightarrow> db_frame d e"
  using frame_same_tables [of "\<lparr>w_db = d, w_keys = new_key_cache, w_rest = ()\<rparr>" e] by (simp add: service_frame_db)

lemma db_frame_tables:
  "t_instances d' = t_instances d \<Longrightarrow> t_users d' = t_users d \<Longrightarrow> (db_ok d \<Longrightarrow> db_ok d') \<Longrightarrow> db_frame d d'"
  by (simp add: db_frame_def key_view_def)

lemma db_frame_connection: "db_frame d (snd (instances_set_connection_state i st j le ca d))"
  using frame_set_connection_state [of i st j le ca "\<lparr>w_db = d, w_keys = new_key_cache, w_rest = ()\<rparr>"]
  by (simp add: on_db_eq service_frame_db)

lemma outbox_write_keeps: "db_ok d \<Longrightarrow> db_ok (snd (outbox_write jc subj env d))"
proof (cases "jc_encode jc env")
  case (Some data)
  assume "db_ok d"
  then have "db_ok (snd (events_enqueue (en_id env) subj data d))" by (rule db_ok_events)
  then show ?thesis
    using Some by (cases "events_enqueue (en_id env) subj data d") (auto simp: outbox_write_def split: sum.splits)
qed (simp add: outbox_write_def)

lemma sink_event_keeps: "db_ok d \<Longrightarrow> db_ok (snd (snd (sink_event ec ty inst subj p raw (w, d))))"
  using outbox_write_keeps
  by (auto simp: sink_event_def fanout_write_def Let_def split: option.split prod.split sum.split)
     (metis snd_conv)+

lemma db_frame_sink_event: "db_frame d (snd (snd (sink_event ec ty inst subj p raw (w, d))))"
proof -
  obtain r k d' where s: "sink_event ec ty inst subj p raw (w, d) = (r, k, d')" by (metis prod.collapse)
  then have "events_only d d'" using sink_event_frame [OF s] by simp
  then show ?thesis
    using events_only_fields [of d d'] sink_event_keeps [of d ec ty inst subj p raw w] s by (auto intro: db_frame_tables)
qed

lemma db_frame_on_connection: "db_frame d (snd (on_connection ec i st j reason (w, d)))"
proof -
  obtain r e where a: "apply_connection (ec_now ec) i st j reason d = (r, e)" by fastforce
  then have e: "db_frame d e"
    using db_frame_connection [of d i st j reason] by (metis apply_connection_def snd_conv)
  show ?thesis
  proof (cases r)
    case (Inl x)
    then show ?thesis using a e by (simp add: on_connection_def)
  next
    case (Inr u)
    then show ?thesis
      using a db_frame_trans [OF e db_frame_sink_event] by (simp add: on_connection_def)
  qed
qed

lemma db_frame_receipt: "db_frame d (snd (messages_update_receipt i st t d))"
proof (rule db_frame_tables)
  obtain r e where u: "messages_update_receipt i st t d = (r, e)" by fastforce
  have "t_instances e = t_instances d \<and> t_users e = t_users d"
    using u unfolding messages_update_receipt_def
    by (rule pg_run_inv) (auto simp: same_tables_fields Let_def)
  then show "t_instances (snd (messages_update_receipt i st t d)) = t_instances d"
    "t_users (snd (messages_update_receipt i st t d)) = t_users d" by (simp_all add: u)
qed (rule db_ok_message_updates)

lemma db_frame_receipts: "db_frame d (snd (receipt_updates st t ids d))"
proof (induction ids arbitrary: d)
  case (Cons i ids)
  show ?case
    using db_frame_receipt [of d i st t] Cons.IH
    by (auto split: prod.split sum.split) (metis db_frame_trans snd_conv)+
qed simp

lemma db_frame_receipts_apply: "db_frame d (snd (snd (receipts_apply ec rc (w, d))))"
proof -
  define stamp where "stamp = (if rc_timestamp rc = zero_time then ec_now ec else rc_timestamp rc)"
  obtain q e where u: "receipt_updates (rc_status rc) stamp (rc_ids rc) d = (q, e)" by fastforce
  have e: "db_frame d e" using db_frame_receipts [of d "rc_status rc" stamp "rc_ids rc"] by (simp add: u)
  show ?thesis
    unfolding receipts_apply_def stamp_def [symmetric] Let_def
    using e db_frame_trans [OF e db_frame_sink_event]
    by (auto simp: u split: sum.split prod.split) (metis snd_conv)+
qed

lemma db_frame_media:
  "db_frame d (snd (media_create m d))" "db_frame d (snd (media_delete_by_instance j d))"
  "db_frame d (snd (media_list_by_instance j d))"
proof -
  show "db_frame d (snd (media_create m d))"
  proof (rule db_frame_tables)
    obtain r e where u: "media_create m d = (r, e)" by fastforce
    have "t_instances e = t_instances d \<and> t_users e = t_users d"
      using u unfolding media_create_def
      by (rule pg_run_inv) (auto simp: same_tables_fields Let_def split: if_splits)
    then show "t_instances (snd (media_create m d)) = t_instances d" "t_users (snd (media_create m d)) = t_users d"
      by (simp_all add: u)
  qed (rule db_ok_media)
  show "db_frame d (snd (media_delete_by_instance j d))"
  proof (rule db_frame_tables)
    obtain r e where u: "media_delete_by_instance j d = (r, e)" by fastforce
    have "t_instances e = t_instances d \<and> t_users e = t_users d"
      using u unfolding media_delete_by_instance_def
      by (rule pg_run_inv) (auto simp: same_tables_fields Let_def split: if_splits)
    then show "t_instances (snd (media_delete_by_instance j d)) = t_instances d"
      "t_users (snd (media_delete_by_instance j d)) = t_users d" by (simp_all add: u)
  qed (rule db_ok_media)
  show "db_frame d (snd (media_list_by_instance j d))"
    unfolding media_list_by_instance_def by (rule db_frame_same) (rule pg_run_same, simp)
qed

lemma db_frame_attach: "db_frame (mw_db m) (mw_db (snd (attach_media ec storage msg m)))"
proof -
  have "db_frame (mw_db m) (mw_db (snd (media_save sc fresh tmp now i dir mid mime name data m)))"
    for sc fresh tmp now i dir mid mime name data
    using db_frame_media(1)
    by (auto simp: media_save_def Let_def split: prod.split bool.split sum.split) (metis snd_conv)+
  then show ?thesis
    by (auto simp: attach_media_def split: option.split prod.split sum.split) (metis snd_conv)+
qed

lemma db_frame_inbound: "db_frame (mw_db m) (mw_db (snd (snd (handle_inbound ec url storage msg (k, m)))))"
proof -
  obtain att err v where a: "(if ib_media msg then attach_media ec storage msg m else ((NoMedia, None), m)) = ((att, err), v)"
    by (metis prod.collapse)
  have v: "db_frame (mw_db m) (mw_db v)"
    using a db_frame_attach [of m ec storage msg] by (auto split: if_splits)
  obtain q k' d where s: "sink_event ec ''message'' (ib_instance msg) (subject_message (ec_codec ec) (ib_instance msg))
      (message_payload ec url msg att) (ib_raw msg) (k, mw_db v) = (q, k', d)" by (metis prod.collapse)
  have "mw_db (snd (snd (handle_inbound ec url storage msg (k, m)))) = d"
    by (simp add: handle_inbound_def a s split: sum.split)
  then show ?thesis
    using db_frame_trans [OF v] db_frame_sink_event [of "mw_db v" ec "''message''" "ib_instance msg"] s by (metis snd_conv)
qed

section \<open>What the operations of the sessions keep\<close>

text \<open>
  A relation on worlds that the elementary steps of the session manager keep is kept by its operations.
  \<open>usable h b\<close> says that \<open>h\<close> is a handle of a session in \<open>b\<close>.
\<close>

locale session_world =
  fixes cf :: session_config and related :: "wa_world \<Rightarrow> wa_world \<Rightarrow> bool" and usable :: "nat \<Rightarrow> wa_world \<Rightarrow> bool"
  assumes same [simp]: "related b b"
    and ticked: "related b w \<Longrightarrow> related b (w\<lparr>w_rest := (w_rest w)\<lparr>wr_tick := n\<rparr>\<rparr>)"
    and detail: "related b w \<Longrightarrow> (\<And>s. sn_instance (g s) = sn_instance s \<and> sn_status (g s) = sn_status s
        \<and> sn_reason (g s) = sn_reason s \<and> sn_jid (g s) = sn_jid s \<and> sn_paired (g s) = sn_paired s
        \<and> sn_terminal (g s) = sn_terminal s \<and> sn_run (g s) = sn_run s) \<Longrightarrow> related b (on_session h g w)"
    and status: "related b w \<Longrightarrow> usable h b \<Longrightarrow> related b (set_status cf h st jid reason w)"
    and cancelled: "related b w \<Longrightarrow> related b (on_sessions (cancel_reconnect h) w)"
    and forgotten: "related b w \<Longrightarrow> sn_run (the_session h w) = None \<Longrightarrow>
        related b (on_session h (\<lambda>s. s\<lparr>sn_jid := [], sn_paired := False\<rparr>) w)"
    and registered: "related b w \<Longrightarrow> manager_get i w = None \<Longrightarrow> register i d w = (h, w') \<Longrightarrow> related b w'"
    and unmapped: "related b w \<Longrightarrow> related b (unmap_session i w)"
    and remapped: "manager_get i b = Some h \<Longrightarrow> related b w \<Longrightarrow> related b (remap_session i h w)"
    and mapped: "manager_get i b = Some h \<Longrightarrow> usable h b"
    and emitted: "related b w \<Longrightarrow> related b (emit_connection cf i st jid reason w)"
    and listed: "related b w \<Longrightarrow>
        on_db (instances_list (cf_parse_id cf) (cf_show_id cf) instance_page_size cursor) w = (x, w') \<Longrightarrow> related b w'"
    and ended: "related b w \<Longrightarrow> related b (on_sessions (finish_run q) w)"
    and retried: "related b w \<Longrightarrow> related b (on_sessions (next_attempt q) w)"
    and called: "related b w \<Longrightarrow> related b (sink_message cf c w)"
    and receipt: "related b w \<Longrightarrow> related b (on_sink (\<lambda>s. snd (receipts_apply ec rc s)) w)"
begin

lemma asked: "ask f w = (x, w') \<Longrightarrow> related b w \<Longrightarrow> related b w'"
  using ticked by (auto simp: ask_def)

lemma qr_stored: "related b w \<Longrightarrow> related b (store_qr h code t w)"
  unfolding store_qr_def by (rule detail) simp_all

lemma qr_cancelled: "related b w \<Longrightarrow> related b (cancel_qr h w)"
  unfolding cancel_qr_def by (rule detail) simp_all

lemma pairing_opened: "related b w \<Longrightarrow> related b (on_session h (\<lambda>s. s\<lparr>sn_qr_cancel := True, sn_first := True\<rparr>) w)"
  by (rule detail) simp_all

lemma history_kept: "related b w \<Longrightarrow> related b (on_history cf h f w)"
  by (auto simp: on_history_def split: prod.split intro: detail asked)

lemma delivered: "deliver_first h res w = (r, w') \<Longrightarrow> related b w \<Longrightarrow> related b w'"
  by (auto simp: deliver_first_def split: if_splits intro: detail)

lemmas steps = asked qr_stored qr_cancelled pairing_opened history_kept delivered status cancelled registered
  unmapped emitted ended retried called receipt

lemma pairing_failed: "fail_pairing cf h reason w = (r, w') \<Longrightarrow> related b w \<Longrightarrow> usable h b \<Longrightarrow> related b w'"
  by (auto simp: fail_pairing_def split: prod.splits intro: steps)

lemma monitored:
  assumes "monitor_item cf h it w = (r, w')" "related b w" "usable h b" shows "related b w'"
  using assms
  by (cases it) (auto simp: monitor_item_def Let_def split: prod.splits; blast intro: steps pairing_failed)+

lemma awaited: "related b w \<Longrightarrow> usable h b \<Longrightarrow> await_first cf h items w = (r, w') \<Longrightarrow> related b w'"
proof (induction items arbitrary: w)
  case Nil
  then show ?case by (auto split: prod.splits qr_wait.splits intro: asked)
next
  case (Cons it rest)
  obtain d fin v where m: "monitor_item cf h it w = ((d, fin), v)" by (metis prod.collapse)
  have v: "related b v" using m Cons.prems(1,2) by (rule monitored)
  have stop: "await_first cf h [] v = (r, w') \<Longrightarrow> related b w'"
    using v by (auto split: prod.splits qr_wait.splits intro: asked)
  show ?case
    using Cons.prems(2,3) Cons.IH [OF v] m v stop by (cases d; cases fin) auto
qed

lemma existing_connected: "connect_existing cf w = (r, w') \<Longrightarrow> related b w \<Longrightarrow> related b w'"
  by (auto simp: connect_existing_def split: prod.splits option.splits intro: asked)

lemma paired_open:
  assumes "open_pairing cf h w = (r, w')" "related b w" "usable h b" shows "related b w'"
proof -
  obtain ch v where a: "ask (wl_qr_channel (cf_lib cf)) w = (ch, v)" by fastforce
  define v1 where "v1 = on_session h (\<lambda>s. s\<lparr>sn_qr_cancel := True, sn_first := True\<rparr>) v"
  obtain c v2 where b: "ask (wl_connect (cf_lib cf)) v1 = (c, v2)" by fastforce
  obtain items v3 where q: "ask (wl_qr_items (cf_lib cf)) (set_status cf h status_pairing [] [] v2) = (items, v3)"
    by fastforce
  have f: "related b v" using a assms(2) by (rule asked)
  have f2: "related b v2" using b pairing_opened [OF f] unfolding v1_def by (rule asked)
  have f3: "related b v3" using q status [OF f2 assms(3)] by (rule asked)
  show ?thesis
    using assms(1) a b q f f2 awaited [OF f3 assms(3)]
    by (auto simp: open_pairing_def v1_def split: option.splits)
qed

lemma connected:
  assumes "related b w" "usable h b" "session_connect cf h w = (r, w')" shows "related b w'"
  using assms cancelled [OF assms(1), of h] unfolding session_connect_def Let_def
  by (auto split: prod.splits bool.splits option.splits if_splits) (blast intro: asked paired_open)+

lemma qr_read: "session_qr cf h w = (r, w') \<Longrightarrow> related b w \<Longrightarrow> related b w'"
  by (auto simp: session_qr_def Let_def split: prod.splits if_splits intro: asked)

lemma torn_down: "related b w \<Longrightarrow> related b (teardown cf h w)"
  unfolding teardown_def logout_tolerantly_def
  by (rule asked [OF prod.collapse [symmetric]]) (auto intro: cancelled qr_cancelled)

lemma disconnected:
  assumes "related b w" "usable h b" "session_disconnect cf h w = (r, w')" shows "related b w'"
proof -
  have "sn_run (the_session h (teardown cf h w)) = None"
    by (simp add: teardown_def logout_tolerantly_def ask_def on_sessions_def the_session_def cancel_heap)
  then show ?thesis
    using assms forgotten [OF torn_down [OF assms(1), of h]] status by (auto simp: session_disconnect_def Let_def)
qed

lemma removed_session:
  assumes "related b w" "usable h b" "session_remove cf h w = (r, w')" shows "related b w'"
proof -
  obtain x v1 where a: "ask (wl_store_id (cf_lib cf)) (teardown cf h w) = (x, v1)" by fastforce
  obtain y v2 where b: "ask (wl_store_delete (cf_lib cf)) v1 = (y, v2)" by fastforce
  have f1: "related b v1" using a torn_down [OF assms(1)] by (rule asked)
  have f2: "related b v2" using b f1 by (rule asked)
  show ?thesis
    using assms(2,3) f1 f2
    by (cases x; cases y) (auto simp: session_remove_def Let_def a b status split: if_splits)
qed

lemma device_loaded: "load_device cf jid w = (r, w') \<Longrightarrow> related b w \<Longrightarrow> related b w'"
  by (auto simp: load_device_def split: option.splits prod.splits device_answer.splits intro: asked)

lemma device_keeps_map: "load_device cf jid w = (r, w') \<Longrightarrow> manager_get i w' = manager_get i w"
  by (auto simp: load_device_def ask_def manager_get_def split: option.splits prod.splits device_answer.splits)

lemma created: "manager_create cf inst w = (r, w') \<Longrightarrow> related b w \<Longrightarrow> related b w'"
  by (auto simp: manager_create_def device_for_def device_keeps_map split: option.splits prod.splits sum.splits if_splits
      intro: registered device_loaded)

lemma removed:
  assumes "manager_remove cf i b = (r, w')" shows "related b w'"
proof (cases "manager_get i b")
  case (Some h)
  obtain x v where s: "session_remove cf h (unmap_session i b) = (x, v)" by fastforce
  have "related b v" using unmapped [OF same] mapped [OF Some] s by (rule removed_session)
  then show ?thesis
    using assms Some s remapped [OF Some] by (auto simp: manager_remove_def split: sum.splits)
qed (use assms in \<open>simp add: manager_remove_def\<close>)

lemma attached: "attach_and_connect cf i d w = (r, w') \<Longrightarrow> related b w \<Longrightarrow> related b w'"
  by (auto simp: attach_and_connect_def split: option.splits prod.splits intro: existing_connected registered)

lemma restored: "restore cf inst w = (r, w') \<Longrightarrow> related b w \<Longrightarrow> related b w'"
  by (auto simp: restore_def split: prod.splits sum.splits intro: device_loaded attached)

lemma restored_one: "related b w \<Longrightarrow> related b (restore_one cf inst w)"
  by (auto simp: restore_one_def split: prod.split option.split sum.split intro: asked restored emitted)

lemma pages_listed: "related b w \<Longrightarrow> list_instances cf fuel cursor w = (r, w') \<Longrightarrow> related b w'"
proof (induction fuel arbitrary: cursor w r w')
  case (Suc fuel)
  obtain x v where x: "on_db (instances_list (cf_parse_id cf) (cf_show_id cf) instance_page_size cursor) w = (x, v)"
    by fastforce
  have v: "related b v" using Suc.prems(1) x by (rule listed)
  have rest: "list_instances cf fuel n v = (y, v') \<Longrightarrow> related b v'" for n y v' using v by (rule Suc.IH)
  show ?case
    using Suc.prems(2) x v rest by (auto split: sum.splits prod.splits if_splits)
qed simp

lemma all_restored:
  assumes "related b w" "restore_all cf w = (r, w')" shows "related b w'"
proof -
  have fold: "related b v \<Longrightarrow> related b (fold (restore_one cf) items v)" for items v
    by (induction items arbitrary: v) (auto intro: restored_one)
  obtain x v where x: "list_instances cf (Suc (length (t_instances (w_db w)))) [] w = (x, v)" by fastforce
  have "related b v" using assms(1) x by (rule pages_listed)
  then show ?thesis
    using assms(2) x fold by (auto simp: restore_all_def simp del: list_instances.simps split: sum.splits)
qed

lemma dispatched:
  assumes "related b w" "usable h b" shows "related b (session_dispatch cf h ev w)"
  using assms
  by (cases ev) (auto simp: session_dispatch_def split: prod.split option.split intro: steps)

lemma turned: "related b w \<Longrightarrow> related b (loop_turn cf q slept w)"
  by (auto simp: loop_turn_def split: prod.split sum.split intro: steps existing_connected)

end

section \<open>The contract of the service\<close>

lemma frame_rest: "w_db w' = w_db w \<Longrightarrow> w_keys w' = w_keys w \<Longrightarrow> service_frame w w'"
  by (simp add: service_frame_db)

lemma frame_sessions [simp]: "service_frame w (on_sessions f w)"
  by (rule frame_rest) (simp_all add: on_sessions_def)

lemma frame_session [simp]: "service_frame w (on_session h f w)"
  by (simp add: on_session_def)

lemma frame_ask: "ask f w = (x, w') \<Longrightarrow> service_frame w w'"
  by (rule frame_rest) (auto simp: ask_def)

lemma frame_sink: "(\<And>k d. db_frame d (snd (f (k, d)))) \<Longrightarrow> service_frame w (on_sink f w)"
  unfolding service_frame_db on_sink_def by (auto split: prod.split) (metis snd_conv)

lemma frame_emit: "service_frame w (emit_connection cf i st j reason w)"
proof -
  obtain ec v where a: "ask (cf_context cf) w = (ec, v)" by fastforce
  have "service_frame v (on_sink (on_connection ec i st j reason) v)"
    by (rule frame_sink) (rule db_frame_on_connection)
  then show ?thesis using frame_ask [OF a] by (auto simp: emit_connection_def a intro: service_frame_trans)
qed

lemma frame_set_status: "service_frame w (set_status cf h st j reason w)"
proof (cases "transition st j reason (the_session h w)")
  case (Some s)
  have "service_frame w (emit_connection cf (sn_instance s) st (sn_jid s) reason (on_session h (\<lambda>_. s) w))"
    by (rule service_frame_trans [OF frame_session frame_emit])
  then show ?thesis
    unfolding set_status_def Some option.case Let_def by (rule service_frame_trans) (rule frame_sessions)
qed (simp add: set_status_def)

lemma frame_list_page:
  "on_db (instances_list p s n c) w = (x, w') \<Longrightarrow> service_frame w w'"
proof -
  have "same_tables (w_db w) (snd (instances_list p s n c (w_db w)))"
    unfolding instances_list_def by (auto simp: Let_def intro!: pg_run_same)
  then show "on_db (instances_list p s n c) w = (x, w') \<Longrightarrow> service_frame w w'"
    by (auto simp: on_db_eq intro: frame_same_tables)
qed

lemma frame_tick: "service_frame w (w\<lparr>w_rest := f (w_rest w)\<rparr>)"
  by (rule frame_rest) simp_all

lemma frame_sink_call: "service_frame w (sink_message cf c w)"
proof -
  obtain ec v where a: "ask (cf_context cf) w = (ec, v)" by fastforce
  show ?thesis
  proof (cases c)
    case (SinkMessage msg)
    obtain fresh tmp u where d: "ask (cf_drawn cf) v = ((fresh, tmp), u)" by (metis prod.collapse)
    obtain q k m where h: "handle_inbound ec (cf_public_url cf) (Some (cf_storage cf, fresh, tmp)) msg
        (wr_worker (w_rest u), \<lparr>mw_db = w_db u, mw_fs = wr_files (w_rest u)\<rparr>) = (q, k, m)" by (metis prod.collapse)
    have "db_frame (w_db u) (mw_db m)"
      using db_frame_inbound [of "\<lparr>mw_db = w_db u, mw_fs = wr_files (w_rest u)\<rparr>" ec "cf_public_url cf"
          "Some (cf_storage cf, fresh, tmp)" msg "wr_worker (w_rest u)"] by (simp add: h)
    then show ?thesis
      using frame_ask [OF a] frame_ask [OF d] a d h SinkMessage
      by (simp add: sink_message_def service_frame_db) (metis db_frame_trans)
  next
    case (SinkEdit ch)
    have "service_frame v (on_sink (on_message_edit ec ch) v)"
      by (rule frame_sink) (simp add: on_message_edit_def db_frame_sink_event)
    then show ?thesis using frame_ask [OF a] a SinkEdit by (auto simp: sink_message_def intro: service_frame_trans)
  next
    case (SinkDelete ch)
    have "service_frame v (on_sink (on_message_delete ec ch) v)"
      by (rule frame_sink) (simp add: on_message_delete_def db_frame_sink_event)
    then show ?thesis using frame_ask [OF a] a SinkDelete by (auto simp: sink_message_def intro: service_frame_trans)
  qed
qed

lemma frame_receipts: "service_frame w (on_sink (\<lambda>s. snd (receipts_apply ec rc s)) w)"
  by (rule frame_sink) (rule db_frame_receipts_apply)

interpretation wa: session_world cf service_frame "\<lambda>_ _. True"
proof
  show "service_frame b w \<Longrightarrow> register i d w = (h, w') \<Longrightarrow> service_frame b w'" for b w i d h w'
    by (auto simp: register_def intro: service_frame_trans [OF _ frame_sessions])
qed (auto simp: unmap_session_def remap_session_def on_session_def
    intro: service_frame_trans frame_sessions frame_set_status frame_emit frame_list_page frame_tick frame_sink_call frame_receipts)

lemma frame_media_removal: "remove_instance_media cf i w = (r, w') \<Longrightarrow> service_frame w w'"
proof -
  have "db_frame (mw_db m) (mw_db (snd (media_delete_instance sc j m)))" for sc j m
    using db_frame_media(2,3)
    by (auto simp: media_delete_instance_def split: prod.split sum.split bool.split) (metis db_frame_trans snd_conv)+
  from this [of "\<lparr>mw_db = w_db w, mw_fs = wr_files (w_rest w)\<rparr>" "cf_storage cf" i]
  show "remove_instance_media cf i w = (r, w') \<Longrightarrow> service_frame w w'"
    by (auto simp: remove_instance_media_def service_frame_db split: prod.splits)
qed

interpretation wired: service_contract "wa_service cf cr net"
  by unfold_locales
     (auto simp: wa_service_def wa_sessions_def dest: wa.created [OF _ wa.same] wa.removed wa.all_restored [OF wa.same]
       wa.connected [OF wa.same TrueI] wa.qr_read [OF _ wa.same] wa.disconnected [OF wa.same TrueI] frame_media_removal)

section \<open>The sessions stay in order\<close>

abbreviation sessions_of :: "wa_world \<Rightarrow> sessions" where
  "sessions_of w \<equiv> wr_sessions (w_rest w)"

definition sessions_kept :: "wa_world \<Rightarrow> wa_world \<Rightarrow> bool" where
  "sessions_kept b w \<longleftrightarrow> (sessions_ok (sessions_of b) \<longrightarrow>
     sessions_ok (sessions_of w) \<and> mg_next (sessions_of b) \<le> mg_next (sessions_of w)
     \<and> (\<forall>k<mg_next (sessions_of b). sn_instance (the_session k w) = sn_instance (the_session k b)))"

definition usable_handle :: "nat \<Rightarrow> wa_world \<Rightarrow> bool" where
  "usable_handle h b \<longleftrightarrow> (sessions_ok (sessions_of b) \<longrightarrow> h < mg_next (sessions_of b))"

lemma kept_same: "sessions_kept b w \<Longrightarrow> sessions_of w' = sessions_of w \<Longrightarrow> sessions_kept b w'"
  by (simp add: sessions_kept_def the_session_def)

lemma kept_by:
  assumes "sessions_kept b w" "sessions_of w' = f (sessions_of w)"
    and "sessions_ok (sessions_of b) \<Longrightarrow> sessions_ok (sessions_of w) \<Longrightarrow> sessions_ok (f (sessions_of w))"
    and "mg_next (sessions_of w) \<le> mg_next (f (sessions_of w))"
    and "\<And>k. k < mg_next (sessions_of w) \<Longrightarrow> sn_instance (mg_heap (f (sessions_of w)) k) = sn_instance (mg_heap (sessions_of w) k)"
  shows "sessions_kept b w'"
  using assms by (auto simp: sessions_kept_def the_session_def)

lemma sessions_of_on [simp]: "sessions_of (on_sessions f w) = f (sessions_of w)"
  by (simp add: on_sessions_def)

lemma sessions_of_sink [simp]: "sessions_of (on_sink f w) = sessions_of w"
  by (simp add: on_sink_def split: prod.split)

lemma sessions_of_ask: "ask f w = (x, w') \<Longrightarrow> sessions_of w' = sessions_of w"
  by (auto simp: ask_def)

lemma sessions_of_emit [simp]: "sessions_of (emit_connection cf i st j reason w) = sessions_of w"
  by (auto simp: emit_connection_def sessions_of_ask split: prod.split)

lemma sessions_of_call [simp]: "sessions_of (sink_message cf c w) = sessions_of w"
  by (cases c) (auto simp: sink_message_def sessions_of_ask split: prod.split)

lemma sessions_ok_registered: "sessions_ok m \<Longrightarrow> mg_map m i = None \<Longrightarrow> sessions_ok (snd (register_session i d m))"
  by (rule sessions_ok_register [OF _ _ prod.collapse [symmetric]])

lemma attempt_heap [simp]: "mg_heap (next_attempt q m) = mg_heap m"
  by (simp add: next_attempt_def)

lemma register_fields:
  "mg_next (snd (register_session i d m)) = mg_next m + 1"
  "mg_heap (snd (register_session i d m)) = (mg_heap m)(mg_next m := new_session i d)"
  by (simp_all add: register_session_def)

text \<open>A status change of the running system is the change of the sessions alone.\<close>

lemma set_status_sessions:
  "sessions_of (set_status cf h st j reason w) = set_session_status h st j reason (sessions_of w)"
  by (auto simp: set_status_def set_session_status_def the_session_def on_session_def Let_def split: option.split)

interpretation kept: session_world cf sessions_kept usable_handle
proof
  fix b w :: wa_world and h i q st jid reason g c cursor x w' n ec rc d
  assume kept: "sessions_kept b w"
  show "sessions_kept b (w\<lparr>w_rest := (w_rest w)\<lparr>wr_tick := n\<rparr>\<rparr>)" by (rule kept_same [OF kept]) simp
  show "(\<And>s. sn_instance (g s) = sn_instance s \<and> sn_status (g s) = sn_status s
        \<and> sn_reason (g s) = sn_reason s \<and> sn_jid (g s) = sn_jid s \<and> sn_paired (g s) = sn_paired s
        \<and> sn_terminal (g s) = sn_terminal s \<and> sn_run (g s) = sn_run s) \<Longrightarrow> sessions_kept b (on_session h g w)"
    by (rule kept_by [OF kept, where f = "update_session h g"])
       (auto simp: on_session_def update_session_def sessions_okD(3) session_ok_def
         intro!: sessions_ok_update [unfolded update_session_def] dest: sessions_okD(3) [of _ h])
  show "usable_handle h b \<Longrightarrow> sessions_kept b (set_status cf h st jid reason w)"
    by (rule kept_by [OF kept, where f = "set_session_status h st jid reason"])
       (use kept in \<open>auto simp: set_status_sessions usable_handle_def sessions_kept_def intro: set_session_status_ok\<close>)
  show "sessions_kept b (on_sessions (cancel_reconnect h) w)"
    by (rule kept_by [OF kept, where f = "cancel_reconnect h"]) (auto simp: sessions_ok_cancel cancel_heap_at)
  show "sn_run (the_session h w) = None \<Longrightarrow> sessions_kept b (on_session h (\<lambda>s. s\<lparr>sn_jid := [], sn_paired := False\<rparr>) w)"
    by (rule kept_by [OF kept, where f = "update_session h (\<lambda>s. s\<lparr>sn_jid := [], sn_paired := False\<rparr>)"])
       (auto simp: on_session_def the_session_def update_session_def session_ok_def
         intro!: sessions_ok_update [unfolded update_session_def] dest: sessions_okD(3) [of _ h])
  show "manager_get i w = None \<Longrightarrow> register i d w = (h, w') \<Longrightarrow> sessions_kept b w'"
    by (rule kept_by [OF kept, where f = "\<lambda>m. snd (register_session i d m)"])
       (auto simp: register_def manager_get_def register_fields sessions_ok_registered)
  show "sessions_kept b (unmap_session i w)"
    by (rule kept_by [OF kept, where f = "\<lambda>m. m\<lparr>mg_map := (mg_map m)(i := None)\<rparr>"])
       (auto simp: unmap_session_def sessions_ok_unmap)
  show "manager_get i b = Some h \<Longrightarrow> sessions_kept b (remap_session i h w)"
    by (rule kept_by [OF kept, where f = "\<lambda>m. if mg_map m i = None then m\<lparr>mg_map := (mg_map m)(i \<mapsto> h)\<rparr> else m"])
       (use kept in \<open>auto simp: remap_session_def manager_get_def sessions_kept_def the_session_def
          intro!: sessions_ok_remap dest: sessions_okD(1,2) less_le_trans\<close>)
  show "sessions_kept b (emit_connection cf i st jid reason w)" by (rule kept_same [OF kept]) simp
  show "on_db (instances_list (cf_parse_id cf) (cf_show_id cf) instance_page_size cursor) w = (x, w') \<Longrightarrow> sessions_kept b w'"
    by (rule kept_same [OF kept]) (auto simp: on_db_eq)
  show "sessions_kept b (on_sessions (finish_run q) w)"
    by (rule kept_by [OF kept, where f = "finish_run q"]) (auto simp: sessions_ok_finish finish_heap)
  show "sessions_kept b (on_sessions (next_attempt q) w)"
    by (rule kept_by [OF kept, where f = "next_attempt q"]) (auto simp: sessions_ok_attempt attempt_heap)
  show "sessions_kept b (sink_message cf c w)" by (rule kept_same [OF kept]) simp
  show "sessions_kept b (on_sink (\<lambda>s. snd (receipts_apply ec rc s)) w)" by (rule kept_same [OF kept]) simp
next
  show "sessions_kept b b" for b by (simp add: sessions_kept_def)
  show "manager_get i b = Some h \<Longrightarrow> usable_handle h b" for i b h
    by (auto simp: manager_get_def usable_handle_def dest: sessions_okD(1))
qed

section \<open>The steps of the running system\<close>

text \<open>
  The calls of the service, the events of the library, the items of a pairing channel and the turns of
  the reconnect loops, each acting on a session the manager made; \<open>outside\<close> is whatever the rest of the
  program does in between. A sleep that ends early was cancelled.
\<close>

inductive wa_step :: "session_config \<Rightarrow> wa_world \<Rightarrow> wa_world \<Rightarrow> bool" for cf where
  step_create: "manager_create cf inst w = (r1, w') \<Longrightarrow> wa_step cf w w'"
| step_remove: "manager_remove cf i w = (r2, w') \<Longrightarrow> wa_step cf w w'"
| step_restore: "restore_all cf w = (r2, w') \<Longrightarrow> wa_step cf w w'"
| step_connect: "h < mg_next (sessions_of w) \<Longrightarrow> session_connect cf h w = (r3, w') \<Longrightarrow> wa_step cf w w'"
| step_qr: "session_qr cf h w = (r3, w') \<Longrightarrow> wa_step cf w w'"
| step_disconnect: "h < mg_next (sessions_of w) \<Longrightarrow> session_disconnect cf h w = (r2, w') \<Longrightarrow> wa_step cf w w'"
| step_event: "h < mg_next (sessions_of w) \<Longrightarrow> wa_step cf w (session_dispatch cf h ev w)"
| step_pairing: "h < mg_next (sessions_of w) \<Longrightarrow> monitor_item cf h it w = (r4, w') \<Longrightarrow> wa_step cf w w'"
| step_loop: "mg_runs (sessions_of w) q = Some run \<Longrightarrow> (\<not> slept \<longrightarrow> rn_cancelled run) \<Longrightarrow>
    wa_step cf w (loop_turn cf q slept w)"

inductive wa_reachable :: "session_config \<Rightarrow> wa_world \<Rightarrow> bool" for cf where
  started: "sessions_of w = no_sessions \<Longrightarrow> wa_reachable cf w"
| stepped: "wa_reachable cf w \<Longrightarrow> wa_step cf w w' \<Longrightarrow> wa_reachable cf w'"
| outside: "wa_reachable cf w \<Longrightarrow> sessions_of w' = sessions_of w \<Longrightarrow> wa_reachable cf w'"

lemma usable_below: "h < mg_next (sessions_of w) \<Longrightarrow> usable_handle h w"
  by (simp add: usable_handle_def)

context session_world
begin

lemma any_step: "wa_step cf b w' \<Longrightarrow> (\<And>h. h < mg_next (sessions_of b) \<Longrightarrow> usable h b) \<Longrightarrow> related b w'"
  by (erule wa_step.cases)
     (auto intro: created [OF _ same] removed all_restored [OF same] connected [OF same] qr_read [OF _ same]
       disconnected [OF same] dispatched [OF same] monitored [OF _ same] turned [OF same])

end

lemma step_keeps_sessions: "wa_step cf w w' \<Longrightarrow> sessions_kept w w'"
  by (erule kept.any_step) (rule usable_below)

lemma reachable_sessions_ok: "wa_reachable cf w \<Longrightarrow> sessions_ok (sessions_of w)"
  by (induction rule: wa_reachable.induct)
     (auto simp: sessions_ok_none dest: step_keeps_sessions simp: sessions_kept_def)


text \<open>
  C8: nothing the sessions do, be it a call, an event of the library, a pairing or a reconnect, touches the
  users, the instances' owners, keys or settings, or the key cache, and the database stays consistent: what
  the API was authorized by before the step is what it is authorized by after it.
\<close>

theorem session_work_leaves_the_api_alone:
  assumes "wa_step cf w w'"
  shows "w_keys w' = w_keys w \<and> t_users (w_db w') = t_users (w_db w) \<and> key_view (w_db w') = key_view (w_db w)
    \<and> (http_ok (wa_service cf cr net) w \<longrightarrow> http_ok (wa_service cf cr net) w')"
proof -
  have "service_frame w w'" using assms by (rule wa.any_step) simp
  then show ?thesis using http_ok_frame by (auto simp: service_frame_db db_frame_def)
qed

text \<open>
  C39: a disconnect by request is final: it always succeeds, leaves the session terminal, unpaired and
  without a loop, and the drop of the socket that follows changes nothing.
\<close>

theorem requested_disconnects_are_final:
  assumes "wa_reachable cf w" "h < mg_next (sessions_of w)" "session_disconnect cf h w = (r, w')"
  shows "r = Inr () \<and> sn_status (the_session h w') = status_disconnected \<and> sn_terminal (the_session h w')
    \<and> \<not> sn_paired (the_session h w') \<and> (\<forall>q. \<not> live_run (sessions_of w') q h)
    \<and> session_dispatch cf h (LevConnection EvDisconnected) w' = w'"
proof -
  have ok: "sessions_ok (sessions_of w')"
    using kept.disconnected [OF kept.same usable_below [OF assms(2)] assms(3)] reachable_sessions_ok [OF assms(1)]
    by (simp add: sessions_kept_def)
  define m where "m = sessions_of (on_session h (\<lambda>s. s\<lparr>sn_jid := [], sn_paired := False\<rparr>) (teardown cf h w))"
  have w': "r = Inr ()" "sessions_of w' = set_session_status h status_disconnected [] ''disconnected by request'' m"
    using assms(3) by (auto simp: session_disconnect_def Let_def m_def set_status_sessions)
  have m: "sn_run (mg_heap m h) = None" "\<not> sn_paired (mg_heap m h)"
    by (simp_all add: m_def on_session_def teardown_def logout_tolerantly_def ask_def on_sessions_def update_session_def cancel_heap)
  have s: "sn_status (the_session h w') = status_disconnected"
      "sn_reason (the_session h w') = ''disconnected by request''" "\<not> sn_paired (the_session h w')"
    using m policy_same [of h status_disconnected "''disconnected by request''" "update_session h s m" for s]
    by (auto simp: the_session_def w'(2) set_session_status_def transition_def Let_def connection_policy_def cancel_heap
        update_session_def split: option.split if_splits)
  have so: "session_ok (the_session h w')" using sessions_okD(3) [OF ok] by (simp add: the_session_def)
  then have t: "sn_terminal (the_session h w')" "sn_run (the_session h w') = None"
    using s by (auto simp: session_ok_def terminal_state_def)
  have "set_status cf h status_disconnected [] [] w' = w'"
    using t(1) by (simp add: set_status_def transition_def)
  moreover have "\<not> live_run (sessions_of w') q h" for q
    using t(2) sessions_okD(4) [OF ok, of q h] by (simp add: the_session_def)
  ultimately show ?thesis using w' s t by (simp add: session_dispatch_def status_defs)
qed

section \<open>Restoring after a restart\<close>

text \<open>
  With the database answering and ids that print to themselves, one page more than there are rows is fuel
  enough: the listing of the restore is the ordered table.
\<close>

abbreviation ordered_instances :: "db \<Rightarrow> instance_row list" where
  "ordered_instances d \<equiv> desc_rows ir_created ir_id (t_instances d)"

definition plain_cursors :: "session_config \<Rightarrow> bool" where
  "plain_cursors cf \<longleftrightarrow> (\<forall>i. cf_show_id cf i \<noteq> [] \<and> cf_parse_id cf (cf_show_id cf i) = Some i)"

lemma quiet_page:
  assumes "pg_script (w_db w) = []" "cursor \<noteq> [] \<Longrightarrow> cf_parse_id cf cursor \<noteq> None"
  shows "on_db (instances_list (cf_parse_id cf) (cf_show_id cf) instance_page_size cursor) w =
    (let page = page_of (cf_show_id cf) ir_id 100 (desc_rows ir_created ir_id
       (if cursor = [] then t_instances (w_db w)
        else rows_before ir_created ir_id (t_instances (w_db w)) (the (cf_parse_id cf cursor)) (t_instances (w_db w))))
     in (Inr (map scan_instance (fst page), snd page), w))"
  using assms by (auto simp: on_db_eq instances_list_def instance_page_size_def Let_def)

lemma list_instances_from:
  assumes q: "pg_script (w_db w) = []" "plain_cursors cf" "distinct (map ir_id (t_instances (w_db w)))"
    and "length (t_instances (w_db w)) < n + fuel"
    and "n = 0 \<and> cursor = [] \<or> 0 < n \<and> n < length (t_instances (w_db w))
        \<and> cursor = cf_show_id cf (ir_id (ordered_instances (w_db w) ! (n - 1)))"
  shows "list_instances cf fuel cursor w = (Inr (map scan_instance (drop n (ordered_instances (w_db w)))), w)"
  using assms(4,5)
proof (induction fuel arbitrary: n cursor)
  case 0
  then show ?case by auto
next
  case (Suc fuel)
  let ?all = "ordered_instances (w_db w)"
  have c: "cf_show_id cf i \<noteq> []" "cf_parse_id cf (cf_show_id cf i) = Some i" for i
    using q(2) by (auto simp: plain_cursors_def)
  have rows: "desc_rows ir_created ir_id (if cursor = [] then t_instances (w_db w)
      else rows_before ir_created ir_id (t_instances (w_db w)) (the (cf_parse_id cf cursor)) (t_instances (w_db w)))
    = drop n ?all"
    using Suc.prems(2) c rows_after [OF q(3), of "n - 1" ir_created] by auto
  have page: "on_db (instances_list (cf_parse_id cf) (cf_show_id cf) instance_page_size cursor) w =
      (let page = page_of (cf_show_id cf) ir_id 100 (drop n ?all)
       in (Inr (map scan_instance (fst page), snd page), w))"
    using quiet_page [OF q(1), of cursor cf] Suc.prems(2) c by (auto simp only: rows)
  show ?case
  proof (cases "length (drop n ?all) \<le> 100")
    case True
    then show ?thesis using page by (simp add: page_of_last)
  next
    case False
    let ?next = "cf_show_id cf (ir_id (?all ! (n + 100 - 1)))"
    have p: "page_of (cf_show_id cf) ir_id 100 (drop n ?all) = (take 100 (drop n ?all), ?next)"
      using False by (subst page_of_more) (auto simp: add.commute)
    have "list_instances cf fuel ?next w = (Inr (map scan_instance (drop (n + 100) ?all)), w)"
      by (rule Suc.IH) (use Suc.prems False in auto)
    moreover have "take 100 (drop n ?all) @ drop (n + 100) ?all = drop n ?all"
      using append_take_drop_id [of 100 "drop n ?all"] by (simp add: add.commute)
    ultimately show ?thesis
      using page p c(1) by (simp flip: map_append)
  qed
qed

lemma listing_is_complete:
  assumes "pg_script (w_db w) = []" "plain_cursors cf" "distinct (map ir_id (t_instances (w_db w)))"
  shows "list_instances cf (Suc (length (t_instances (w_db w)))) [] w = (Inr (map scan_instance (ordered_instances (w_db w))), w)"
  using list_instances_from [OF assms, of 0 "Suc (length (t_instances (w_db w)))" "[]"] by simp

text \<open>
  With the database answering, the restore after a restart goes through the pages of the instances table
  to the end: it tries every instance that has been paired and has no session yet, each exactly once, and no other.
\<close>

theorem restore_tries_every_paired_instance:
  assumes "pg_script (w_db w) = []" "plain_cursors cf" "distinct (map ir_id (t_instances (w_db w)))"
    and order: "\<And>items. mset (cf_order cf items) = mset items"
  shows "\<exists>items. restore_all cf w = (Inr (), fold (restore_one cf) items w)
    \<and> distinct (map inst_id items)
    \<and> set items = {scan_instance r | r. r \<in> set (t_instances (w_db w)) \<and> coalesce_empty (ir_jid r) \<noteq> []
        \<and> manager_get (ir_id r) w = None}"
proof -
  let ?items = "cf_order cf (filter (restorable w) (map scan_instance (ordered_instances (w_db w))))"
  have "restore_all cf w = (Inr (), fold (restore_one cf) ?items w)"
    using listing_is_complete [OF assms(1-3)] by (simp add: restore_all_def del: list_instances.simps)
  moreover have "distinct (map inst_id ?items)"
  proof -
    have d: "distinct (map inst_id (filter (restorable w) (map scan_instance (ordered_instances (w_db w)))))"
      by (intro distinct_map_filter) (simp add: comp_def assms(3))
    have "mset (map inst_id ?items) = mset (map inst_id (filter (restorable w) (map scan_instance (ordered_instances (w_db w)))))"
      by (simp only: mset_map order)
    then show ?thesis using d mset_eq_imp_distinct_iff by blast
  qed
  moreover have "set ?items = {scan_instance r | r. r \<in> set (t_instances (w_db w)) \<and> coalesce_empty (ir_jid r) \<noteq> []
        \<and> manager_get (ir_id r) w = None}"
    unfolding mset_eq_setD [OF order] by (auto simp: restorable_def scan_instance_def)
  ultimately show ?thesis by blast
qed

section \<open>Concrete sessions\<close>

definition sample_lib :: wa_lib where
  "sample_lib =
     \<lparr>wl_parse_jid = Some, wl_device = (\<lambda>_ j. DeviceLoaded (Some j)), wl_connected = (\<lambda>_. False),
      wl_connect = (\<lambda>_. None), wl_logout = (\<lambda>_. None), wl_store_id = (\<lambda>_. True), wl_store_jid = (\<lambda>_. ''j''),
      wl_store_deleted = (\<lambda>_. False), wl_store_delete = (\<lambda>_. True), wl_qr_channel = (\<lambda>_. None),
      wl_qr_items = (\<lambda>_. []), wl_wait = (\<lambda>_. WaitTimeout), wl_restore_cut = (\<lambda>_. None)\<rparr>"

definition sample_session_config :: session_config where
  "sample_session_config =
     \<lparr>cf_lib = sample_lib, cf_context = (\<lambda>_. sample_context), cf_sink = False, cf_order = rev, cf_public_url = [],
      cf_storage = sample_storage, cf_drawn = (\<lambda>_. (0, [])), cf_download = None,
      cf_parse_id = (\<lambda>s. Some (length s - 1)), cf_show_id = (\<lambda>i. replicate (Suc i) CHR ''a'')\<rparr>"

definition sample_wa_world :: wa_world where
  "sample_wa_world =
     \<lparr>w_db = blank_db\<lparr>t_instances := [sample_instance]\<rparr>, w_keys = new_key_cache,
      w_rest = \<lparr>wr_sessions = no_sessions, wr_worker = new_worker, wr_files = mw_fs sample_media_world, wr_tick = 0\<rparr>\<rparr>"

text \<open>A session that was made, connected and lost its socket.\<close>

definition sample_made :: wa_world where
  "sample_made = snd (manager_create sample_session_config (scan_instance sample_instance) sample_wa_world)"

definition sample_dropped :: wa_world where
  "sample_dropped = session_dispatch sample_session_config 0 (LevConnection EvDisconnected)
     (session_dispatch sample_session_config 0 (LevConnection EvConnected) sample_made)"

lemmas sample_session_defs = sample_lib_def sample_session_config_def sample_wa_world_def

lemma dispatch_connection_sessions:
  "sessions_of (session_dispatch cf h (LevConnection EvDisconnected) w) = set_session_status h status_disconnected [] [] (sessions_of w)"
  "sessions_of (session_dispatch cf h (LevConnection EvConnected) w)
     = set_session_status h status_connected (wl_store_jid (cf_lib cf) (wr_tick (w_rest w))) [] (sessions_of w)"
  by (simp_all add: session_dispatch_def set_status_sessions ask_def status_defs)

lemma sample_made_sessions:
  "sessions_of sample_made = snd (register_session 1 (Some ''5511988888888@s.whatsapp.net'') no_sessions)"
  by (simp add: sample_made_def sample_session_defs manager_create_def manager_get_def device_for_def load_device_def
      ask_def register_def no_sessions_def scan_instance_def sample_instance_def coalesce_empty_def)

lemma sample_dropped_sessions:
  "sessions_of sample_dropped = set_session_status 0 status_disconnected [] []
     (set_session_status 0 status_connected ''j'' [] (sessions_of sample_made))"
  by (simp add: sample_dropped_def dispatch_connection_sessions) (simp add: sample_session_defs)

lemma sample_made_next: "mg_next (sessions_of sample_made) = 1"
  by (simp add: sample_made_sessions register_session_def no_sessions_def)

lemma sample_dropped_next: "mg_next (sessions_of sample_dropped) = 1"
  by (simp add: sample_dropped_sessions sample_made_next)

lemma sample_made_reachable: "wa_reachable sample_session_config sample_made"
  unfolding sample_made_def
  by (rule stepped [OF started]) (auto simp: sample_wa_world_def intro: step_create prod.collapse [symmetric])

lemma sample_dropped_reachable: "wa_reachable sample_session_config sample_dropped"
  unfolding sample_dropped_def
  by (rule stepped [OF stepped [OF sample_made_reachable step_event] step_event])
     (simp_all add: sample_made_next dispatch_connection_sessions)

lemma sample_dropped_run: "live_run (sessions_of sample_dropped) 0 0"
  unfolding sample_dropped_sessions sample_made_sessions
  by (simp add: live_run_def register_session_def no_sessions_def new_session_def set_session_status_def transition_def
      update_session_def connection_policy_def cancel_reconnect_def schedule_reconnect_def terminal_state_def
      status_defs Let_def)


theorem session_work_leaves_the_api_alone_witness:
  "key_view (w_db sample_made) = key_view (w_db sample_wa_world) \<and> sample_made \<noteq> sample_wa_world"
proof -
  have "wa_step sample_session_config sample_wa_world sample_made"
    unfolding sample_made_def by (auto intro: step_create prod.collapse [symmetric])
  moreover have "mg_next (sessions_of sample_wa_world) = 0" by (simp add: sample_wa_world_def no_sessions_def)
  ultimately show ?thesis
    using session_work_leaves_the_api_alone [of sample_session_config sample_wa_world sample_made] sample_made_next by auto
qed

theorem requested_disconnects_are_final_witness:
  "\<exists>w'. session_disconnect sample_session_config 0 sample_dropped = (Inr (), w') \<and> sn_terminal (the_session 0 w')
     \<and> \<not> live_run (sessions_of w') 0 0"
proof -
  obtain r w' where r: "session_disconnect sample_session_config 0 sample_dropped = (r, w')" by fastforce
  show ?thesis
    using requested_disconnects_are_final [OF sample_dropped_reachable _ r] sample_dropped_next r by auto
qed

lemma sample_cursors: "plain_cursors sample_session_config"
  by (simp add: plain_cursors_def sample_session_config_def)

theorem restore_tries_every_paired_instance_witness:
  "\<exists>items. restore_all sample_session_config sample_wa_world = (Inr (), fold (restore_one sample_session_config) items sample_wa_world)
     \<and> set items = {scan_instance sample_instance}"
proof -
  have m: "mset (cf_order sample_session_config items) = mset items" for items
    by (simp add: sample_session_config_def)
  have d: "pg_script (w_db sample_wa_world) = []" "distinct (map ir_id (t_instances (w_db sample_wa_world)))"
    by (simp_all add: sample_wa_world_def)
  have one: "{scan_instance r | r. r \<in> set (t_instances (w_db sample_wa_world)) \<and> coalesce_empty (ir_jid r) \<noteq> []
      \<and> manager_get (ir_id r) sample_wa_world = None} = {scan_instance sample_instance}"
    by (simp add: sample_wa_world_def manager_get_def no_sessions_def sample_instance_def coalesce_empty_def)
  show ?thesis
    using restore_tries_every_paired_instance [OF d(1) sample_cursors d(2) m] unfolding one by blast
qed

end
