(* ===== verification/Ascii.thy ===== *)
theory Ascii
  imports Prelude
begin

text \<open>The separators the programs put between fields, and decimal digits as \<^verbatim>\<open>%d\<close> and \<^verbatim>\<open>strconv.Itoa\<close> print them.\<close>

definition newline :: char where "newline = CHR 0x0A"
definition nul :: char where "nul = CHR 0x00"

fun decimal :: "nat \<Rightarrow> string" where
  "decimal n = (if n < 10 then [char_of (48 + n)] else decimal (n div 10) @ [char_of (48 + n mod 10)])"

declare decimal.simps [simp del]

fun decimal_value :: "string \<Rightarrow> nat" where
  "decimal_value s = fold (\<lambda>c n. 10 * n + (of_char c - 48)) s 0"

lemma decimal_reads_back: "decimal_value (decimal n) = n"
proof (induction n rule: decimal.induct)
  case (1 n)
  then show ?case by (subst decimal.simps) auto
qed

lemma decimal_inject: "decimal m = decimal n \<Longrightarrow> m = n"
  by (metis decimal_reads_back)

lemma decimal_digits: "c \<in> set (decimal n) \<Longrightarrow> 48 \<le> (of_char c :: nat) \<and> (of_char c :: nat) < 58"
proof (induction n rule: decimal.induct)
  case (1 n)
  then show ?case by (subst (asm) (2) decimal.simps) (auto split: if_splits)
qed

lemma no_colon: "CHR '':'' \<notin> set (decimal n)"
  using decimal_digits [of "CHR '':''" n] by auto

lemma decimal_no_nul: "nul \<notin> set (decimal n)"
  using decimal_digits [of nul n] by (auto simp: nul_def)

lemma split_at_char:
  assumes "xs @ c # us = ys @ c # vs" "c \<notin> set xs" "c \<notin> set ys"
  shows "xs = ys \<and> us = vs"
  using assms
proof (induction xs arbitrary: ys)
  case Nil
  then show ?case by (cases ys) auto
next
  case (Cons x xs)
  then show ?case by (cases ys) auto
qed

end
