(* ===== verification/Idempotency.thy ===== *)
theory Idempotency
  imports Http Ascii "HOL-Library.Multiset"
begin

text \<open>
  The middleware that makes a retried send safe, \<^verbatim>\<open>internal/httpapi/idempotency.go\<close>, over the statements of
  \<open>StoreIdempotency\<close>. The hash, the parsing of the content type and of multipart bodies and the wrapped handler are
  parameters. A body is the bytes that can be read and whether the read after them fails.
\<close>

section \<open>The request\<close>

record http_body =
  bd_bytes :: string
  bd_fails :: bool

record send_request =
  sq_method :: string
  sq_key :: string
  sq_target :: string
  sq_pattern :: string
  sq_path :: string
  sq_media :: "(string \<times> string) option"
  sq_body :: "http_body option"

text \<open>A part without a file name is a field; the name of a file part is not empty.\<close>

datatype form_part = FormField string string | FormFile string string string string

text \<open>What the temporary file of a multipart body lets happen: its creation, the copy, the two rewinds.\<close>

record spool =
  sp_create :: bool
  sp_copy :: bool
  sp_rewind :: bool
  sp_again :: bool

record send_env =
  sx_hash :: "string \<Rightarrow> string"
  sx_parts :: "string \<Rightarrow> string \<Rightarrow> form_part list option"
  sx_spool :: spool
  sx_parse_id :: "string \<Rightarrow> uuid option"
  sx_repo :: bool
  sx_max_upload :: int
  sx_now :: instant

section \<open>Fingerprints\<close>

definition fingerprint_body_limit :: nat where "fingerprint_body_limit = 2 ^ 20"

definition multipart_limit :: "int \<Rightarrow> nat" where
  "multipart_limit max_upload = nat (if max_upload \<le> 0 then 64 * 2 ^ 20 else max_upload + 2 ^ 20)"

definition route_text :: "send_request \<Rightarrow> string" where
  "route_text rq = sq_method rq @ newline # (if sq_pattern rq = [] then sq_path rq else sq_pattern rq) @ [newline]"

definition route_fingerprint :: "send_env \<Rightarrow> send_request \<Rightarrow> string" where
  "route_fingerprint env rq = sx_hash env (route_text rq)"

text \<open>The bytes read, whether they are all of the body, and the body the handler gets; None is a failed read.\<close>

definition read_body_prefix :: "http_body option \<Rightarrow> (string \<times> bool) option \<times> http_body option" where
  "read_body_prefix b =
     (case b of
        None \<Rightarrow> (Some ([], True), None)
      | Some b \<Rightarrow>
          if length (bd_bytes b) > fingerprint_body_limit
          then (Some (take (fingerprint_body_limit + 1) (bd_bytes b), False), Some b)
          else if bd_fails b then (None, Some \<lparr>bd_bytes = [], bd_fails = True\<rparr>)
          else (Some (bd_bytes b, True), Some b))"

fun part_text :: "(string \<Rightarrow> string) \<Rightarrow> form_part \<Rightarrow> string" where
  "part_text hash (FormFile name filename ctype content) =
     ''file'' @ nul # name @ nul # filename @ nul # ctype @ nul # hash content"
| "part_text hash (FormField name v) = ''field'' @ nul # name @ nul # v"

definition multipart_parts :: "send_env \<Rightarrow> string \<Rightarrow> string \<Rightarrow> string list option" where
  "multipart_parts env boundary content = map_option (\<lambda>ps. sort (map (part_text (sx_hash env)) ps)) (sx_parts env boundary content)"

definition parts_text :: "string list \<Rightarrow> string" where
  "parts_text ps = concat (map (\<lambda>p. decimal (length p) @ CHR '':'' # p @ [newline]) ps)"

definition parts_fingerprint :: "send_env \<Rightarrow> send_request \<Rightarrow> string list \<Rightarrow> string" where
  "parts_fingerprint env rq ps = sx_hash env (route_text rq @ parts_text ps)"

text \<open>The fingerprint and the body of the handler; None is the refused body.\<close>

definition fingerprint_multipart :: "send_env \<Rightarrow> send_request \<Rightarrow> string \<Rightarrow> http_body \<Rightarrow> nat \<Rightarrow> (string \<times> http_body) option" where
  "fingerprint_multipart env rq boundary b limit =
     (let sp = sx_spool env; content = bd_bytes b in
      if boundary = [] then None
      else if \<not> sp_create sp then Some (route_fingerprint env rq, b)
      else if \<not> sp_copy sp \<or> length content \<le> limit \<and> bd_fails b then None
      else if length content > limit
      then (if \<not> sp_rewind sp then None else Some (route_fingerprint env rq, b))
      else if \<not> sp_rewind sp then None
      else (case multipart_parts env boundary content of
              None \<Rightarrow> None
            | Some ps \<Rightarrow> if \<not> sp_again sp then None else Some (parts_fingerprint env rq ps, \<lparr>bd_bytes = content, bd_fails = False\<rparr>)))"

definition fingerprint_request :: "send_env \<Rightarrow> send_request \<Rightarrow> (string \<times> http_body option) option" where
  "fingerprint_request env rq =
     (let plain = (case read_body_prefix (sq_body rq) of
                     (None, _) \<Rightarrow> None
                   | (Some (body, whole), restored) \<Rightarrow>
                       if whole then Some (sx_hash env (route_text rq @ body), restored)
                       else Some (route_fingerprint env rq, restored))
      in case sq_media rq of
           None \<Rightarrow> plain
         | Some (media_type, boundary) \<Rightarrow>
             if take 10 media_type = ''multipart/''
             then map_option (\<lambda>(fp, b). (fp, Some b))
                    (fingerprint_multipart env rq boundary
                       (case sq_body rq of None \<Rightarrow> \<lparr>bd_bytes = [], bd_fails = False\<rparr> | Some b \<Rightarrow> b)
                       (multipart_limit (sx_max_upload env)))
             else plain)"

section \<open>The response and its capture\<close>

datatype chunk = ChunkHeader nat | ChunkBody string

record captured =
  cp_wrote :: bool
  cp_status :: nat
  cp_body :: string

definition no_capture :: captured where
  "no_capture = \<lparr>cp_wrote = False, cp_status = 0, cp_body = []\<rparr>"

fun capture_write :: "chunk \<Rightarrow> captured \<Rightarrow> captured" where
  "capture_write (ChunkHeader n) c = (if cp_wrote c then c else c\<lparr>cp_wrote := True, cp_status := n\<rparr>)"
| "capture_write (ChunkBody s) c =
     (let c = (if cp_wrote c then c else c\<lparr>cp_wrote := True, cp_status := 200\<rparr>) in c\<lparr>cp_body := cp_body c @ s\<rparr>)"

definition capture :: "chunk list \<Rightarrow> captured" where
  "capture out = fold capture_write out no_capture"

text \<open>What a request ends in; a handler that panics does so after the key is settled.\<close>

datatype sent = Handled "chunk list" bool | Refused nat string string | Replayed int string

type_synonym 's handler = "http_body option \<Rightarrow> 's world \<Rightarrow> (chunk list \<times> bool) \<times> 's world"

definition idempotency_ttl :: duration where "idempotency_ttl = 24 * hour"
definition idempotency_key_max_len :: nat where "idempotency_key_max_len = 255"

definition freed_status :: "nat \<Rightarrow> bool" where
  "freed_status n \<longleftrightarrow> 400 \<le> n \<and> n < 500 \<or> n = 503"

text \<open>The bytes of an empty buffer are nil, which the column stores as NULL.\<close>

definition settle_key :: "uuid \<Rightarrow> string \<Rightarrow> captured \<Rightarrow> 's world \<Rightarrow> 's world" where
  "settle_key i key c w =
     (if \<not> cp_wrote c \<or> freed_status (cp_status c) then snd (on_db (idem_release i key) w)
      else snd (on_db (idem_complete i key (int (cp_status c)) (if cp_body c = [] then None else Some (cp_body c))) w))"

definition run_handler :: "'s handler \<Rightarrow> http_body option \<Rightarrow> 's world \<Rightarrow> sent \<times> 's world" where
  "run_handler h b w = (case h b w of ((out, panicked), w) \<Rightarrow> (Handled out panicked, w))"

definition idempotency :: "send_env \<Rightarrow> 's handler \<Rightarrow> send_request \<Rightarrow> 's world \<Rightarrow> sent \<times> 's world" where
  "idempotency env h rq w =
     (if sq_method rq \<noteq> ''POST'' then run_handler h (sq_body rq) w
      else let key = trim_space (sq_key rq) in
      if key = [] then run_handler h (sq_body rq) w
      else if \<not> sx_repo env then (Refused 500 ''internal_error'' ''internal server error'', w)
      else if length key > idempotency_key_max_len
      then (Refused 400 ''invalid_request'' ''Idempotency-Key exceeds 255 characters'', w)
      else (case sx_parse_id env (sq_target rq) of
         None \<Rightarrow> run_handler h (sq_body rq) w
       | Some i \<Rightarrow>
           (case fingerprint_request env rq of
              None \<Rightarrow> (Refused 400 ''invalid_request'' ''invalid request body'', w)
            | Some (fp, b) \<Rightarrow>
                (case on_db (idem_acquire i key fp (sx_now env + idempotency_ttl)) w of
                   (Inl SInProgress, w) \<Rightarrow>
                     (Refused 409 ''conflict'' ''request with this Idempotency-Key is already in progress'', w)
                 | (Inl SFingerprintMismatch, w) \<Rightarrow>
                     (Refused 422 ''unprocessable_entity'' ''Idempotency-Key was already used with different content'', w)
                 | (Inl _, w) \<Rightarrow> run_handler h b w
                 | (Inr (rec, False), w) \<Rightarrow> (Replayed (if ik_response_status rec = 0 then 200 else ik_response_status rec)
                                                (ik_response_body rec), w)
                 | (Inr (rec, True), w) \<Rightarrow>
                     (case run_handler h b w of
                        (Handled out panicked, w) \<Rightarrow> (Handled out panicked, settle_key i key (capture out) w)
                      | (other, w) \<Rightarrow> (other, w))))))"

section \<open>The fingerprint of a multipart body\<close>

text \<open>The length in front of each part makes the text of the parts readable in one way only.\<close>

lemma parts_text_inject: "parts_text ps = parts_text qs \<longleftrightarrow> ps = qs"
proof
  show "parts_text ps = parts_text qs \<Longrightarrow> ps = qs"
  proof (induction ps arbitrary: qs)
    case Nil
    then show ?case by (cases qs) (auto simp: parts_text_def)
  next
    case (Cons p ps)
    then obtain q qs' where qs: "qs = q # qs'" by (cases qs) (auto simp: parts_text_def)
    have e: "decimal (length p) @ CHR '':'' # (p @ newline # parts_text ps) = decimal (length q) @ CHR '':'' # (q @ newline # parts_text qs')"
      using Cons.prems by (simp add: qs parts_text_def)
    from split_at_char [OF e no_colon no_colon]
    have d: "decimal (length p) = decimal (length q)" and rest: "p @ newline # parts_text ps = q @ newline # parts_text qs'"
      by simp_all
    have "length p = length q" using d by (rule decimal_inject)
    then have "p = q" "parts_text ps = parts_text qs'" using rest by auto
    then show ?case using Cons.IH qs by simp
  qed
qed simp

lemma sort_eq_iff: "sort xs = sort ys \<longleftrightarrow> mset xs = mset ys"
proof
  assume "sort xs = sort ys"
  then have "mset (sort xs) = mset (sort ys)" by simp
  then show "mset xs = mset ys" by simp
next
  assume "mset xs = mset ys"
  then show "sort xs = sort ys" by (intro properties_for_sort) simp_all
qed

text \<open>
  Two uploads to the same route have the same fingerprint exactly when they have the same parts, in whatever
  order, unless the hash collides on the two texts: no value can imitate other parts.
\<close>

theorem uploads_are_told_apart:
  assumes "sx_parts env boundary a = Some ps" "sx_parts env boundary' b = Some qs" "route_text rq = route_text rq'"
    and collision_free: "sx_hash env (route_text rq @ parts_text (sort (map (part_text (sx_hash env)) ps)))
        = sx_hash env (route_text rq' @ parts_text (sort (map (part_text (sx_hash env)) qs)))
      \<Longrightarrow> route_text rq @ parts_text (sort (map (part_text (sx_hash env)) ps))
        = route_text rq' @ parts_text (sort (map (part_text (sx_hash env)) qs))"
  shows "map_option (parts_fingerprint env rq) (multipart_parts env boundary a)
      = map_option (parts_fingerprint env rq') (multipart_parts env boundary' b)
    \<longleftrightarrow> mset (map (part_text (sx_hash env)) ps) = mset (map (part_text (sx_hash env)) qs)"
proof -
  let ?t = "part_text (sx_hash env)"
  have "parts_fingerprint env rq (sort (map ?t ps)) = parts_fingerprint env rq' (sort (map ?t qs))
      \<longleftrightarrow> route_text rq @ parts_text (sort (map ?t ps)) = route_text rq' @ parts_text (sort (map ?t qs))"
    unfolding parts_fingerprint_def by (rule iffI) (erule collision_free, simp only:)
  also have "\<dots> \<longleftrightarrow> sort (map ?t ps) = sort (map ?t qs)"
    using assms(3) by (simp add: parts_text_inject)
  also have "\<dots> \<longleftrightarrow> mset (map ?t ps) = mset (map ?t qs)"
    by (rule sort_eq_iff)
  finally show ?thesis by (simp add: multipart_parts_def assms(1,2))
qed

section \<open>The body of the handler\<close>

text \<open>Reading the body for the fingerprint never costs the handler its bytes.\<close>

lemma fingerprint_keeps_body:
  assumes "fingerprint_request env rq = Some (fp, b)" "sq_body rq = Some sent"
  shows "b = Some sent"
proof -
  have "fingerprint_multipart env rq bd sent limit = Some (f, b') \<Longrightarrow> b' = sent" for bd limit f b'
    by (auto simp: fingerprint_multipart_def Let_def split: if_splits option.splits)
  then show ?thesis
    using assms by (auto simp: fingerprint_request_def read_body_prefix_def Let_def split: option.splits if_splits)
qed

section \<open>The key\<close>

text \<open>The statements on a database that answers, and what a fingerprint is worth at a stored key.\<close>

definition live_key :: "uuid \<Rightarrow> string \<Rightarrow> idem_row \<Rightarrow> db \<Rightarrow> bool" where
  "live_key i key r d \<longleftrightarrow> filter (is_key i key) (t_idem d) = [r] \<and> pg_now d \<le> kr_expires r"

lemma find_filter_head: "find P xs = (case filter P xs of [] \<Rightarrow> None | r # _ \<Rightarrow> Some r)"
  by (induction xs) auto

lemma live_key_found: "live_key i key r d \<Longrightarrow> idem_of i key d = Some r"
  by (simp add: live_key_def idem_of_def find_filter_head)

lemma live_key_only:
  assumes "live_key i key r d" "s \<in> set (t_idem d)" "is_key i key s" shows "s = r"
proof -
  have "set (filter (is_key i key) (t_idem d)) = {r}" using assms(1) by (simp add: live_key_def del: set_filter)
  then show ?thesis using assms(2,3) by auto
qed

lemma live_key_drop:
  assumes "live_key i key r d" "pg_script d = []"
  shows "acquire_drop i key d = (Inr (), d)"
proof -
  have "filter (\<lambda>r. \<not> (is_key i key r \<and> kr_expires r < pg_now d)) (t_idem d) = t_idem d"
    using assms(1) live_key_only [OF assms(1)] by (auto simp: filter_id_conv live_key_def)
  then show ?thesis using assms(2) by (simp add: acquire_drop_def)
qed

lemma live_key_acquire:
  assumes "live_key i key r d" "pg_script d = []"
  shows "idem_acquire i key fp expires d = (acquire_verdict fp (scan_idem r), d)"
  using assms
  by (simp add: idem_acquire_def live_key_drop acquire_insert_def acquire_read_def live_key_found)

lemma fresh_key_acquire:
  fixes fp :: string and expires :: instant
  assumes "pg_script d = []" "\<And>s. s \<in> set (t_idem d) \<Longrightarrow> is_key i key s \<Longrightarrow> kr_expires s < pg_now d"
    and "i \<in> ir_id ` set (t_instances d)"
  defines "row \<equiv> fresh_key i key fp expires (pg_now d)"
  shows "idem_acquire i key fp expires d
    = (Inr (scan_idem row, True), d\<lparr>t_idem := filter (\<lambda>s. \<not> is_key i key s) (t_idem d) @ [row]\<rparr>)"
proof -
  have "filter (\<lambda>r. \<not> (is_key i key r \<and> kr_expires r < pg_now d)) (t_idem d) = filter (\<lambda>s. \<not> is_key i key s) (t_idem d)"
    using assms(2) by (intro filter_cong) auto
  then have "acquire_drop i key d = (Inr (), d\<lparr>t_idem := filter (\<lambda>s. \<not> is_key i key s) (t_idem d)\<rparr>)"
    using assms(1) by (simp add: acquire_drop_def)
  then show ?thesis
    using assms(1,3) by (simp add: idem_acquire_def acquire_insert_def idem_of_def row_def Let_def)
qed

lemma complete_quiet:
  assumes "live_key i key r d" "pg_script d = []" "\<And>b. body = Some b \<Longrightarrow> pg_jsonb d b \<noteq> None"
  shows "\<exists>d'. idem_complete i key st body d = (Inr (), d')
    \<and> live_key i key (r\<lparr>kr_status := ''completed'', kr_response_status := Some st,
         kr_response_body := (case body of None \<Rightarrow> None | Some b \<Rightarrow> pg_jsonb d b)\<rparr>) d'
    \<and> pg_script d' = [] \<and> pg_now d' = pg_now d"
proof -
  have k: "filter (is_key i key) (update_where (is_key i key) f rows) = map f (filter (is_key i key) rows)"
    if "\<And>s. is_key i key (f s) = is_key i key s" for f and rows :: "idem_row list"
    using that by (induction rows) (auto simp: update_where_def)
  have "is_key i key (r\<lparr>kr_status := a, kr_response_status := b, kr_response_body := c\<rparr>) = is_key i key r" for r a b c
    by (simp add: is_key_def)
  then show ?thesis
    using assms live_key_found [OF assms(1)]
    by (cases body) (auto simp: idem_complete_def live_key_def k split: option.splits)
qed

section \<open>Retries\<close>

text \<open>A request the middleware protects with the key, its fingerprint and the body it hands on.\<close>

definition keyed_request :: "send_env \<Rightarrow> send_request \<Rightarrow> uuid \<Rightarrow> string \<Rightarrow> string \<Rightarrow> http_body option \<Rightarrow> bool" where
  "keyed_request env rq i key fp b \<longleftrightarrow> sq_method rq = ''POST'' \<and> trim_space (sq_key rq) = key \<and> key \<noteq> []
     \<and> length key \<le> idempotency_key_max_len \<and> sx_repo env \<and> sx_parse_id env (sq_target rq) = Some i
     \<and> fingerprint_request env rq = Some (fp, b)"

lemma idempotency_keyed:
  assumes "keyed_request env rq i key fp b"
  shows "idempotency env h rq w =
    (case on_db (idem_acquire i key fp (sx_now env + idempotency_ttl)) w of
       (Inl SInProgress, w) \<Rightarrow>
         (Refused 409 ''conflict'' ''request with this Idempotency-Key is already in progress'', w)
     | (Inl SFingerprintMismatch, w) \<Rightarrow>
         (Refused 422 ''unprocessable_entity'' ''Idempotency-Key was already used with different content'', w)
     | (Inl _, w) \<Rightarrow> run_handler h b w
     | (Inr (rec, False), w) \<Rightarrow> (Replayed (if ik_response_status rec = 0 then 200 else ik_response_status rec)
                                    (ik_response_body rec), w)
     | (Inr (rec, True), w) \<Rightarrow>
         (case run_handler h b w of
            (Handled out panicked, w) \<Rightarrow> (Handled out panicked, settle_key i key (capture out) w)
          | (other, w) \<Rightarrow> (other, w)))"
  using assms by (auto simp: keyed_request_def idempotency_def Let_def)

lemma live_key_answers:
  assumes "keyed_request env rq i key fp b" "live_key i key r (w_db w)" "pg_script (w_db w) = []"
  shows "idempotency env h rq w =
    (if kr_hash r \<noteq> fp
     then Refused 422 ''unprocessable_entity'' ''Idempotency-Key was already used with different content''
     else if kr_status r \<noteq> ''completed''
     then Refused 409 ''conflict'' ''request with this Idempotency-Key is already in progress''
     else Replayed (case kr_response_status r of None \<Rightarrow> 200 | Some n \<Rightarrow> if n = 0 then 200 else n)
       (coalesce_empty (kr_response_body r)), w)"
  using assms(2,3)
  by (simp add: idempotency_keyed [OF assms(1)] on_db_eq live_key_acquire acquire_verdict_def scan_idem_def
      split: option.split)

text \<open>
  C20: a send that was answered, and not refused by a 4xx or a 503, is sent once: until the key expires every retry
  under the same key gets the stored answer when its content is the same and a 422 when it is not, and neither
  runs the handler nor changes anything.
\<close>

theorem retries_replay_the_stored_answer:
  fixes h :: "'s handler" and w :: "'s world"
  assumes key: "keyed_request env rq i key fp b"
    and quiet: "pg_script (w_db w) = []"
    and fresh: "\<forall>s \<in> set (t_idem (w_db w)). is_key i key s \<longrightarrow> kr_expires s < pg_now (w_db w)"
    and inst: "i \<in> ir_id ` set (t_instances (w_db w))"
    and runs: "h b (snd (on_db (idem_acquire i key fp (sx_now env + idempotency_ttl)) w)) = ((out, panicked), w2)"
    and kept: "t_idem (w_db w2) = t_idem (snd (idem_acquire i key fp (sx_now env + idempotency_ttl) (w_db w)))"
      "pg_script (w_db w2) = []" "pg_now (w_db w2) \<le> sx_now env + idempotency_ttl"
    and answered: "cp_wrote (capture out)" "\<not> freed_status (cp_status (capture out))"
      "cp_body (capture out) \<noteq> [] \<Longrightarrow> pg_jsonb (w_db w2) (cp_body (capture out)) \<noteq> None"
  shows "\<exists>w3 r. idempotency env h rq w = (Handled out panicked, w3) \<and> live_key i key r (w_db w3)
    \<and> (\<forall>(w4 :: 's world) env' h' rq' fp' b'. live_key i key r (w_db w4) \<and> pg_script (w_db w4) = []
          \<and> keyed_request env' rq' i key fp' b' \<longrightarrow>
        idempotency env' h' rq' w4 =
          (if fp' = fp
           then Replayed (if cp_status (capture out) = 0 then 200 else int (cp_status (capture out)))
             (if cp_body (capture out) = [] then [] else coalesce_empty (pg_jsonb (w_db w2) (cp_body (capture out))))
           else Refused 422 ''unprocessable_entity'' ''Idempotency-Key was already used with different content'', w4))"
proof -
  define row where "row = fresh_key i key fp (sx_now env + idempotency_ttl) (pg_now (w_db w))"
  define st where "st = cp_status (capture out)"
  define body where "body = (if cp_body (capture out) = [] then None else Some (cp_body (capture out)))"
  define r where "r = row\<lparr>kr_status := ''completed'', kr_response_status := Some (int st),
    kr_response_body := (case body of None \<Rightarrow> None | Some b \<Rightarrow> pg_jsonb (w_db w2) b)\<rparr>"
  note acquired = fresh_key_acquire [OF quiet fresh [rule_format] inst, where fp = fp and expires = "sx_now env + idempotency_ttl", folded row_def]
  have "is_key i key row" by (simp add: row_def fresh_key_def is_key_def)
  then have live: "live_key i key row (w_db w2)"
    using kept by (simp add: acquired live_key_def row_def fresh_key_def)
  have json: "\<And>b. body = Some b \<Longrightarrow> pg_jsonb (w_db w2) b \<noteq> None"
    using answered(3) by (auto simp: body_def split: if_splits)
  obtain d3 where fin: "idem_complete i key (int st) body (w_db w2) = (Inr (), d3)" "live_key i key r d3"
    using complete_quiet [OF live kept(2) json, where st = "int st"] unfolding r_def by blast
  define w3 where "w3 = w2\<lparr>w_db := d3\<rparr>"
  have first: "idempotency env h rq w = (Handled out panicked, w3)"
    using runs answered(1,2) fin
    by (simp add: idempotency_keyed [OF key] on_db_eq acquired run_handler_def settle_key_def w3_def st_def body_def)
  have later: "idempotency env' h' rq' w4 =
      (if fp' = fp then Replayed (if st = 0 then 200 else int st) (coalesce_empty (kr_response_body r))
       else Refused 422 ''unprocessable_entity'' ''Idempotency-Key was already used with different content'', w4)"
    if "live_key i key r (w_db w4)" "pg_script (w_db w4) = []" "keyed_request env' rq' i key fp' b'"
    for w4 :: "'s world" and env' h' rq' fp' b'
    by (simp add: live_key_answers [OF that(3,1,2)]) (simp add: r_def row_def fresh_key_def)
  have stored: "coalesce_empty (kr_response_body r)
      = (if cp_body (capture out) = [] then [] else coalesce_empty (pg_jsonb (w_db w2) (cp_body (capture out))))"
    by (simp add: r_def body_def coalesce_empty_def)
  show ?thesis
    using first fin(2) later unfolding stored st_def w3_def [symmetric]
    by (intro exI [of _ w3] exI [of _ r]) (auto simp: w3_def)
qed

text \<open>A refused send, one without an answer and one that was not ready free the key: a retry runs the handler again.\<close>

lemma refused_sends_free_the_key:
  assumes "pg_script (w_db w) = []" "\<not> cp_wrote c \<or> freed_status (cp_status c)"
  shows "filter (is_key i key) (t_idem (w_db (settle_key i key c w))) = []"
  using assms by (simp add: settle_key_def on_db_eq idem_release_def filter_empty_conv)

section \<open>Concurrent requests with one key\<close>

text \<open>
  The requests that carry the same key for the same instance, each in the middle of its statements; \<open>KeyHeld\<close> is
  the one whose handler runs under the key. Anything else may happen in between, but the clock of the database
  does not pass the expiry of a held key, a day after it was taken.
\<close>

datatype key_phase = KeyStart | KeyDropped | KeyTaken | KeyHeld | KeyLeft

inductive key_step :: "uuid \<Rightarrow> string \<Rightarrow> db \<times> (nat \<Rightarrow> key_phase) \<Rightarrow> db \<times> (nat \<Rightarrow> key_phase) \<Rightarrow> bool"
  for i key where
  key_drop: "ph t = KeyStart \<Longrightarrow> acquire_drop i key d = (Inr (), d') \<Longrightarrow> key_step i key (d, ph) (d', ph(t := KeyDropped))"
| key_insert: "ph t = KeyDropped \<Longrightarrow> acquire_insert i key fp expires d = (Inr (Some rec), d') \<Longrightarrow> pg_now d \<le> expires \<Longrightarrow>
    key_step i key (d, ph) (d', ph(t := KeyHeld))"
| key_conflict: "ph t = KeyDropped \<Longrightarrow> acquire_insert i key fp expires d = (Inr None, d') \<Longrightarrow>
    key_step i key (d, ph) (d', ph(t := KeyTaken))"
| key_read: "ph t = KeyTaken \<Longrightarrow> acquire_read i key d = (res, d') \<Longrightarrow> key_step i key (d, ph) (d', ph(t := KeyLeft))"
| key_failed_drop: "ph t = KeyStart \<Longrightarrow> acquire_drop i key d = (Inl e, d') \<Longrightarrow> key_step i key (d, ph) (d', ph(t := KeyLeft))"
| key_failed_insert: "ph t = KeyDropped \<Longrightarrow> acquire_insert i key fp expires d = (Inl e, d') \<Longrightarrow>
    key_step i key (d, ph) (d', ph(t := KeyLeft))"
| key_complete: "ph t = KeyHeld \<Longrightarrow> idem_complete i key st body d = (res, d') \<Longrightarrow> key_step i key (d, ph) (d', ph(t := KeyLeft))"
| key_release: "ph t = KeyHeld \<Longrightarrow> idem_release i key d = (res, d') \<Longrightarrow> key_step i key (d, ph) (d', ph(t := KeyLeft))"
| key_elsewhere: "filter (is_key i key) (t_idem d') = filter (is_key i key) (t_idem d) \<Longrightarrow>
    (\<And>t r. ph t = KeyHeld \<Longrightarrow> r \<in> set (t_idem d) \<Longrightarrow> is_key i key r \<Longrightarrow> pg_now d' \<le> kr_expires r) \<Longrightarrow>
    key_step i key (d, ph) (d', ph)"

inductive key_reachable :: "uuid \<Rightarrow> string \<Rightarrow> db \<times> (nat \<Rightarrow> key_phase) \<Rightarrow> bool" for i key where
  key_begin: "key_reachable i key (d, \<lambda>_. KeyStart)"
| key_next: "key_reachable i key s \<Longrightarrow> key_step i key s s' \<Longrightarrow> key_reachable i key s'"

definition held_once :: "uuid \<Rightarrow> string \<Rightarrow> db \<times> (nat \<Rightarrow> key_phase) \<Rightarrow> bool" where
  "held_once i key s \<longleftrightarrow> (case s of (d, ph) \<Rightarrow>
     (\<forall>t u. ph t = KeyHeld \<and> ph u = KeyHeld \<longrightarrow> t = u)
     \<and> ((\<exists>t. ph t = KeyHeld) \<longrightarrow> (\<exists>r. live_key i key r d \<and> kr_status r = ''in_progress'')))"

lemma live_key_same: "same_tables d e \<Longrightarrow> live_key i key r e = live_key i key r d"
  using same_tables_fields [of d e] by (simp add: live_key_def)

lemma idem_of_None: "idem_of i key d = None \<longleftrightarrow> filter (is_key i key) (t_idem d) = []"
  by (simp add: idem_of_def find_filter_head split: list.split)

lemma drop_keeps_live:
  assumes "acquire_drop i key d = (r, d')" "live_key i key row d" shows "live_key i key row d'"
proof -
  have kept: "live_key i key row (e\<lparr>t_idem := filter (\<lambda>r. \<not> (is_key i key r \<and> kr_expires r < pg_now e)) (t_idem e)\<rparr>)"
    if e: "same_tables d e" for e
  proof -
    have live: "live_key i key row e" using assms(2) live_key_same [OF e] by simp
    have "filter (is_key i key) (filter (\<lambda>r. \<not> (is_key i key r \<and> kr_expires r < pg_now e)) (t_idem e))
        = filter (is_key i key) (t_idem e)"
      unfolding filter_filter using live_key_only [OF live] live by (intro filter_cong) (auto simp: live_key_def)
    then show ?thesis using live by (simp add: live_key_def)
  qed
  show ?thesis
    using assms(1) unfolding acquire_drop_def
    by (rule pg_run_inv) (use kept assms(2) live_key_same in auto)
qed

lemma insert_conflict_same: "acquire_insert i key fp expires d = (Inr None, d') \<Longrightarrow> same_tables d d'"
  unfolding acquire_insert_def by (erule pg_run_Inr) (auto simp: Let_def split: option.splits if_splits)

lemma insert_failed_same: "acquire_insert i key fp expires d = (Inl e, d') \<Longrightarrow> same_tables d d'"
  unfolding acquire_insert_def by (erule pg_run_Inl_same) (auto simp: Let_def split: option.splits if_splits)

lemma insert_takes:
  assumes "acquire_insert i key fp expires d = (Inr (Some rec), d')" "pg_now d \<le> expires"
  shows "filter (is_key i key) (t_idem d) = []"
    and "\<exists>r. live_key i key r d' \<and> kr_status r = ''in_progress''"
proof -
  from assms(1) obtain e where e: "same_tables d e" "idem_of i key e = None"
    "d' = e\<lparr>t_idem := t_idem e @ [fresh_key i key fp expires (pg_now e)]\<rparr>"
    unfolding acquire_insert_def by (elim pg_run_Inr) (auto simp: Let_def split: option.splits if_splits)
  have none: "filter (is_key i key) (t_idem e) = []" using e(2) by (simp add: idem_of_None)
  then show "filter (is_key i key) (t_idem d) = []" using same_tables_fields(4) [OF e(1)] by simp
  show "\<exists>r. live_key i key r d' \<and> kr_status r = ''in_progress''"
    using none assms(2) same_tables_fields [OF e(1)]
    by (intro exI [of _ "fresh_key i key fp expires (pg_now e)"]) (simp add: e(3) live_key_def fresh_key_def is_key_def)
qed

lemma read_same: "acquire_read i key d = (r, d') \<Longrightarrow> same_tables d d'"
  using pg_run_same [of d "\<lambda>d. (case idem_of i key d of None \<Rightarrow> Inl SNotFound | Some r \<Rightarrow> Inr (scan_idem r), d)"]
  by (simp add: acquire_read_def)

lemma drop_failed_same: "acquire_drop i key d = (Inl e, d') \<Longrightarrow> same_tables d d'"
  unfolding acquire_drop_def by (erule pg_run_Inl_same) simp

lemma held_once_same: "held_once i key (d, ph) \<Longrightarrow> same_tables d d' \<Longrightarrow> p \<noteq> KeyHeld \<Longrightarrow> held_once i key (d', ph(t := p))"
  using live_key_same [of d d'] by (auto simp: held_once_def split: if_splits)

lemma held_once_step: "key_step i key s s' \<Longrightarrow> held_once i key s \<Longrightarrow> held_once i key s'"
proof (induction rule: key_step.induct)
  case (key_drop ph t d d')
  then show ?case using drop_keeps_live [OF key_drop(2)] by (fastforce simp: held_once_def split: if_splits)
next
  case (key_insert ph t fp expires d rec d')
  have "ph u \<noteq> KeyHeld" for u
    using key_insert(4) insert_takes(1) [OF key_insert(2,3)] by (auto simp: held_once_def live_key_def)
  then show ?case using insert_takes(2) [OF key_insert(2,3)] by (auto simp: held_once_def)
next
  case (key_complete ph t st body d res d')
  then show ?case by (auto simp: held_once_def)
next
  case (key_release ph t d res d')
  then show ?case by (auto simp: held_once_def)
next
  case (key_elsewhere d' d ph)
  show ?case
  proof (cases "\<exists>t. ph t = KeyHeld")
    case True
    then obtain t r where r: "ph t = KeyHeld" "live_key i key r d" "kr_status r = ''in_progress''"
      using key_elsewhere(3) by (auto simp: held_once_def)
    then have "r \<in> set (filter (is_key i key) (t_idem d))" by (simp add: live_key_def del: set_filter)
    then have "live_key i key r d'" using key_elsewhere(1,2) r by (auto simp: live_key_def)
    then show ?thesis using key_elsewhere(3) r by (auto simp: held_once_def)
  qed (simp add: held_once_def)
qed (auto intro: held_once_same dest: insert_conflict_same read_same drop_failed_same insert_failed_same)

lemma reachable_held_once: "key_reachable i key s \<Longrightarrow> held_once i key s"
  by (induction rule: key_reachable.induct) (auto simp: held_once_def [of i key "(d, \<lambda>_. KeyStart)" for d] intro: held_once_step)


section \<open>Witnesses\<close>

definition sample_send_env :: send_env where
  "sample_send_env = \<lparr>sx_hash = (\<lambda>s. s), sx_parts = (\<lambda>_ content. Some [FormField ''caption'' content, FormField ''type'' ''image'']),
     sx_spool = \<lparr>sp_create = True, sp_copy = True, sp_rewind = True, sp_again = True\<rparr>, sx_parse_id = (\<lambda>_. Some 1),
     sx_repo = True, sx_max_upload = 0, sx_now = 0\<rparr>"

definition sample_send :: send_request where
  "sample_send = \<lparr>sq_method = ''POST'', sq_key = ''k'', sq_target = ''one'', sq_pattern = ''p'', sq_path = ''p'',
     sq_media = None, sq_body = Some \<lparr>bd_bytes = ''x'', bd_fails = False\<rparr>\<rparr>"

definition sample_send_world :: "unit world" where
  "sample_send_world = sample_world\<lparr>w_db := blank_db\<lparr>t_instances := [sample_instance]\<rparr>\<rparr>"

definition accepting :: "unit handler" where
  "accepting b w = (([ChunkHeader 202, ChunkBody ''queued''], False), w)"

lemma trim_k: "trim_space ''k'' = ''k''"
  by code_simp

lemma sample_keyed: "keyed_request sample_send_env sample_send 1 ''k'' (route_text sample_send @ ''x'') (sq_body sample_send)"
  by (simp add: keyed_request_def sample_send_env_def sample_send_def idempotency_key_max_len_def fingerprint_request_def
      read_body_prefix_def fingerprint_body_limit_def route_text_def trim_k)

theorem retries_replay_the_stored_answer_witness:
  "\<exists>w :: unit world. fst (idempotency sample_send_env accepting sample_send sample_send_world) = Handled [ChunkHeader 202, ChunkBody ''queued''] False
     \<and> idempotency sample_send_env (\<lambda>_ w. (([], True), w)) sample_send w = (Replayed 202 ''queued'', w)"
proof -
  let ?w = sample_send_world and ?out = "[ChunkHeader 202, ChunkBody ''queued'']"
  let ?w2 = "snd (on_db (idem_acquire 1 ''k'' (route_text sample_send @ ''x'') (sx_now sample_send_env + idempotency_ttl)) ?w)"
  have quiet: "pg_script (w_db ?w) = []" and none: "t_idem (w_db ?w) = []" and inst: "1 \<in> ir_id ` set (t_instances (w_db ?w))"
    by (simp_all add: sample_send_world_def sample_instance_def)
  have db2: "w_db ?w2 = (w_db ?w)\<lparr>t_idem := [fresh_key 1 ''k'' (route_text sample_send @ ''x'')
      (sx_now sample_send_env + idempotency_ttl) (pg_now (w_db ?w))]\<rparr>"
    using fresh_key_acquire [OF quiet _ inst, where key = "''k''" and fp = "route_text sample_send @ ''x''"
        and expires = "sx_now sample_send_env + idempotency_ttl"] none
    by (simp add: on_db_eq)
  have out: "capture ?out = \<lparr>cp_wrote = True, cp_status = 202, cp_body = ''queued''\<rparr>"
    by (simp add: capture_def no_capture_def)
  have run: "accepting (sq_body sample_send) ?w2 = ((?out, False), ?w2)" by (simp add: accepting_def)
  have kept: "t_idem (w_db ?w2) = t_idem (snd (idem_acquire 1 ''k'' (route_text sample_send @ ''x'')
      (sx_now sample_send_env + idempotency_ttl) (w_db ?w)))"
    by (simp add: on_db_eq)
  have now: "pg_script (w_db ?w2) = []" "pg_now (w_db ?w2) \<le> sx_now sample_send_env + idempotency_ttl"
    unfolding db2 by (simp_all add: sample_send_world_def sample_send_env_def idempotency_ttl_def duration_defs)
  have json: "pg_jsonb (w_db ?w2) = Some" unfolding db2 by (simp add: sample_send_world_def)
  have answered: "cp_wrote (capture ?out)" "\<not> freed_status (cp_status (capture ?out))"
    by (simp_all add: out freed_status_def)
  have fresh: "\<forall>s \<in> set (t_idem (w_db ?w)). is_key 1 ''k'' s \<longrightarrow> kr_expires s < pg_now (w_db ?w)"
    using none by simp
  have stored: "pg_jsonb (w_db ?w2) (cp_body (capture ?out)) \<noteq> None" by (simp only: json) simp
  from retries_replay_the_stored_answer [where w = ?w and h = accepting and ?w2.0 = ?w2 and env = sample_send_env,
      OF sample_keyed quiet fresh inst run kept now answered stored]
  show ?thesis
  proof (elim exE conjE)
    fix w3 r
    assume first: "idempotency sample_send_env accepting sample_send ?w = (Handled ?out False, w3)"
      and live: "live_key 1 ''k'' r (w_db w3)"
    assume later: "\<forall>(w4 :: unit world) env' h' rq' fp' b'. live_key 1 ''k'' r (w_db w4) \<and> pg_script (w_db w4) = []
          \<and> keyed_request env' rq' 1 ''k'' fp' b' \<longrightarrow>
        idempotency env' h' rq' w4 =
          (if fp' = route_text sample_send @ ''x''
           then Replayed (if cp_status (capture ?out) = 0 then 200 else int (cp_status (capture ?out)))
             (if cp_body (capture ?out) = [] then [] else coalesce_empty (pg_jsonb (w_db ?w2) (cp_body (capture ?out))))
           else Refused 422 ''unprocessable_entity'' ''Idempotency-Key was already used with different content'', w4)"
    define w4 where "w4 = w3\<lparr>w_db := (w_db w3)\<lparr>pg_script := []\<rparr>\<rparr>"
    have "live_key 1 ''k'' r (w_db w4)" "pg_script (w_db w4) = []" using live by (simp_all add: w4_def live_key_def)
    then have "idempotency sample_send_env (\<lambda>_ w. (([], True), w)) sample_send w4 = (Replayed 202 ''queued'', w4)"
      by (subst later [rule_format, OF conjI, OF _ conjI, OF _ _ sample_keyed]) (simp_all only: json, simp_all add: out coalesce_empty_def)
    then show ?thesis using first by (intro exI [of _ w4]) simp
  qed
qed

theorem uploads_are_told_apart_witness:
  "map_option (parts_fingerprint sample_send_env sample_send) (multipart_parts sample_send_env ''b'' ''cat'')
     \<noteq> map_option (parts_fingerprint sample_send_env sample_send) (multipart_parts sample_send_env ''b'' ''dog'')"
proof -
  have p: "sx_parts sample_send_env ''b'' s = Some [FormField ''caption'' s, FormField ''type'' ''image'']" for s
    by (simp add: sample_send_env_def)
  have h: "sx_hash sample_send_env s = s" for s by (simp add: sample_send_env_def)
  show ?thesis
    using uploads_are_told_apart [OF p [of "''cat''"] p [of "''dog''"], of sample_send sample_send]
    by (simp add: h nul_def)
qed


end
