(* ===== verification/HttpUsers.thy ===== *)
theory HttpUsers
  imports Http
begin

text \<open>
  The accounts of the manager: \<^verbatim>\<open>internal/httpapi/users.go\<close> and \<^verbatim>\<open>internal/httpapi/auth.go\<close>. A decoded quota
  is an integer, or something else (null, a number that is none, a string); the credential libraries are
  those of \<open>Auth\<close>. A handler runs on the database alone.
\<close>

section \<open>Accounts\<close>

datatype quota_field = QuotaAbsent | QuotaOther | QuotaInt int

record create_user_request =
  cu_email :: string
  cu_password :: string
  cu_role :: string
  cu_quota :: quota_field

record user_quota_response =
  uq_id :: string
  uq_email :: string
  uq_role :: string
  uq_quota :: int

definition new_user_quota_response :: "crypto \<Rightarrow> user \<Rightarrow> user_quota_response" where
  "new_user_quota_response cr u =
     \<lparr>uq_id = cr_show_id cr (user_id u), uq_email = user_email u, uq_role = user_role u, uq_quota = user_quota u\<rparr>"

definition unprocessable :: "string \<Rightarrow> 'a resp" where
  [http_simps]: "unprocessable msg = RErr 422 ''unprocessable_entity'' msg"

definition user_not_found :: "'a resp" where
  [http_simps]: "user_not_found = RErr 404 ''not_found'' ''user not found''"

definition still_owns :: "'a resp" where
  [http_simps]: "still_owns = RErr 409 ''conflict'' ''user still owns instances''"

text \<open>The quota a field asks for: None is the refused field.\<close>

fun wanted_quota :: "int \<Rightarrow> quota_field \<Rightarrow> int option" where
  "wanted_quota fallback QuotaAbsent = Some fallback"
| "wanted_quota _ QuotaOther = None"
| "wanted_quota _ (QuotaInt n) = (if n < 0 then None else Some n)"

definition handle_create_user ::
    "crypto \<Rightarrow> bool \<Rightarrow> int \<Rightarrow> uuid \<Rightarrow> scope option \<Rightarrow> create_user_request body \<Rightarrow> db \<Rightarrow> user_quota_response resp \<times> db" where
  "handle_create_user cr wired default_quota new_id sc b d =
     (if \<not> require_admin_scope sc then (write_forbidden, d)
      else case b of
        BodyOk rq \<Rightarrow>
          (let email = trim_space (cu_email rq) in
           if email = [] then (unprocessable ''invalid email'', d)
           else if cu_password rq = [] then (unprocessable ''invalid password'', d)
           else if cu_role rq \<noteq> ''admin'' \<and> cu_role rq \<noteq> ''user'' then (unprocessable ''invalid role'', d)
           else (case wanted_quota default_quota (cu_quota rq) of
             None \<Rightarrow> (unprocessable ''invalid instance_quota'', d)
           | Some quota \<Rightarrow>
               if \<not> wired then (internal_error, d)
               else (case hash_password cr (cu_password rq) of
                 None \<Rightarrow> (internal_error, d)
               | Some hash \<Rightarrow>
                   (case users_create \<lparr>user_id = new_id, user_email = email, user_password_hash = hash,
                       user_role = cu_role rq, user_quota = quota, user_created = zero_time, user_updated = zero_time\<rparr> d of
                      (Inl SEmailTaken, d) \<Rightarrow> (RErr 409 ''conflict'' ''email already taken'', d)
                    | (Inl _, d) \<Rightarrow> (internal_error, d)
                    | (Inr created, d) \<Rightarrow> (ROk 201 (new_user_quota_response cr created), d)))))
      | bad \<Rightarrow> (write_json_body_error bad, d))"

definition handle_list_users :: "crypto \<Rightarrow> bool \<Rightarrow> scope option \<Rightarrow> db \<Rightarrow> user_quota_response list resp \<times> db" where
  "handle_list_users cr wired sc d =
     (if \<not> require_admin_scope sc then (write_forbidden, d)
      else if \<not> wired then (internal_error, d)
      else (case users_list d of
              (Inl _, d) \<Rightarrow> (internal_error, d)
            | (Inr stored, d) \<Rightarrow> (ROk 200 (map (new_user_quota_response cr) stored), d)))"

definition handle_get_user :: "crypto \<Rightarrow> bool \<Rightarrow> scope option \<Rightarrow> string \<Rightarrow> db \<Rightarrow> user_quota_response resp \<times> db" where
  "handle_get_user cr wired sc raw_id d =
     (if \<not> require_admin_scope sc then (write_forbidden, d)
      else case cr_parse_id cr raw_id of
        None \<Rightarrow> (user_not_found, d)
      | Some i \<Rightarrow>
          if \<not> wired then (internal_error, d)
          else (case users_get_by_id i d of
                  (Inl SNotFound, d) \<Rightarrow> (user_not_found, d)
                | (Inl _, d) \<Rightarrow> (internal_error, d)
                | (Inr stored, d) \<Rightarrow> (ROk 200 (new_user_quota_response cr stored), d)))"

definition is_foreign_key_violation :: "storage_err \<Rightarrow> bool" where
  "is_foreign_key_violation e \<longleftrightarrow> e = SDriver ''23503''"

definition handle_delete_user :: "crypto \<Rightarrow> bool \<Rightarrow> bool \<Rightarrow> scope option \<Rightarrow> string \<Rightarrow> db \<Rightarrow> unit resp \<times> db" where
  "handle_delete_user cr wired keys_wired sc raw_id d =
     (if \<not> require_admin_scope sc then (write_forbidden, d)
      else case cr_parse_id cr raw_id of
        None \<Rightarrow> (user_not_found, d)
      | Some i \<Rightarrow>
          if \<not> wired \<or> \<not> keys_wired then (internal_error, d)
          else (case keys_count_by_owner i d of
                  (Inl _, d) \<Rightarrow> (internal_error, d)
                | (Inr owned, d) \<Rightarrow>
                    if owned > 0 then (still_owns, d)
                    else (case users_delete i d of
                            (Inl e, d) \<Rightarrow> (if e = SNotFound then user_not_found
                                         else if is_foreign_key_violation e then still_owns
                                         else internal_error, d)
                          | (Inr _, d) \<Rightarrow> (RNoContent, d))))"

text \<open>A field that is absent or null is the same nil pointer.\<close>

definition handle_update_user_quota ::
    "crypto \<Rightarrow> bool \<Rightarrow> scope option \<Rightarrow> string \<Rightarrow> quota_field body \<Rightarrow> db \<Rightarrow> user_quota_response resp \<times> db" where
  "handle_update_user_quota cr wired sc raw_id b d =
     (if \<not> require_admin_scope sc then (write_forbidden, d)
      else case cr_parse_id cr raw_id of
        None \<Rightarrow> (user_not_found, d)
      | Some i \<Rightarrow>
          (case b of
             BodyOk (QuotaInt quota) \<Rightarrow>
               if quota < 0 then (unprocessable ''invalid instance_quota'', d)
               else if \<not> wired then (internal_error, d)
               else (case users_update_quota i quota d of
                       (Inl SNotFound, d) \<Rightarrow> (user_not_found, d)
                     | (Inl _, d) \<Rightarrow> (internal_error, d)
                     | (Inr _, d) \<Rightarrow>
                         (case users_get_by_id i d of
                            (Inl _, d) \<Rightarrow> (internal_error, d)
                          | (Inr updated, d) \<Rightarrow> (ROk 200 (new_user_quota_response cr updated), d)))
           | BodyOk _ \<Rightarrow> (unprocessable ''invalid instance_quota'', d)
           | bad \<Rightarrow> (write_json_body_error bad, d)))"

section \<open>Sessions of the manager\<close>

record login_request =
  lr_email :: string
  lr_password :: string

record identity_response =
  id_user :: string
  id_email :: string
  id_role :: string

record cookie =
  ck_name :: string
  ck_value :: string
  ck_path :: string
  ck_max_age :: int
  ck_expires :: "instant option"
  ck_http_only :: bool
  ck_secure :: bool
  ck_lax :: bool

definition session_cookie_name :: string where "session_cookie_name = ''wzap_session''"

definition new_identity_response :: "crypto \<Rightarrow> user \<Rightarrow> identity_response" where
  "new_identity_response cr u = \<lparr>id_user = cr_show_id cr (user_id u), id_email = user_email u, id_role = user_role u\<rparr>"

definition session_cookie :: "string \<Rightarrow> bool \<Rightarrow> cookie" where
  "session_cookie token secure =
     \<lparr>ck_name = session_cookie_name, ck_value = token, ck_path = ''/'', ck_max_age = token_lifetime div second,
      ck_expires = None, ck_http_only = True, ck_secure = secure, ck_lax = True\<rparr>"

definition cleared_cookie :: "bool \<Rightarrow> cookie" where
  "cleared_cookie secure =
     \<lparr>ck_name = session_cookie_name, ck_value = [], ck_path = ''/'', ck_max_age = -1, ck_expires = Some 0,
      ck_http_only = True, ck_secure = secure, ck_lax = True\<rparr>"

definition secure_cookies :: "string \<Rightarrow> bool" where
  "secure_cookies public_url \<longleftrightarrow> take 8 (to_lower public_url) = ''https://''"

definition invalid_credentials :: "'a resp" where
  [http_simps]: "invalid_credentials = RErr 401 ''unauthorized'' ''invalid credentials''"

definition invalid_session :: "'a resp" where
  [http_simps]: "invalid_session = RErr 401 ''unauthorized'' ''missing or invalid session''"

definition handle_login ::
    "crypto \<Rightarrow> string \<Rightarrow> bool \<Rightarrow> instant \<Rightarrow> login_request body \<Rightarrow> db \<Rightarrow> (identity_response resp \<times> cookie option) \<times> db" where
  "handle_login cr secret secure now b d =
     (case b of
        BodyOk rq \<Rightarrow>
          (case users_get_by_email (lr_email rq) d of
             (Inl SNotFound, d) \<Rightarrow> ((invalid_credentials, None), d)
           | (Inl _, d) \<Rightarrow> ((internal_error, None), d)
           | (Inr u, d) \<Rightarrow>
               if \<not> check_password cr (user_password_hash u) (lr_password rq) then ((invalid_credentials, None), d)
               else (case mint_token cr now (user_id u) (user_role u) secret of
                       None \<Rightarrow> ((internal_error, None), d)
                     | Some token \<Rightarrow> ((ROk 200 (new_identity_response cr u), Some (session_cookie token secure)), d)))
      | bad \<Rightarrow> ((write_json_body_error bad, None), d))"

definition handle_logout :: "bool \<Rightarrow> string resp \<times> cookie" where
  "handle_logout secure = (ROk 200 ''ok'', cleared_cookie secure)"

definition handle_me :: "crypto \<Rightarrow> string \<Rightarrow> instant \<Rightarrow> string option \<Rightarrow> db \<Rightarrow> identity_response resp \<times> db" where
  "handle_me cr secret now presented d =
     (case presented of
        None \<Rightarrow> (invalid_session, d)
      | Some token \<Rightarrow>
          (case parse_token cr now token secret of
             None \<Rightarrow> (invalid_session, d)
           | Some s \<Rightarrow>
               (case users_get_by_id (sc_user s) d of
                  (Inl SNotFound, d) \<Rightarrow> (invalid_session, d)
                | (Inl _, d) \<Rightarrow> (internal_error, d)
                | (Inr u, d) \<Rightarrow> (ROk 200 (new_identity_response cr u), d))))"

section \<open>What the handlers do to the tables\<close>

lemma create_user_ok:
  assumes "handle_create_user cr wired q new_id sc b d = (ROk n v, d')"
  obtains rq hash quota e where "require_admin_scope sc" "b = BodyOk rq" "hash_password cr (cu_password rq) = Some hash"
    "same_tables d e" "cu_role rq = ''admin'' \<or> cu_role rq = ''user''" "trim_space (cu_email rq) \<noteq> []"
    "\<not> (\<exists>r \<in> set (t_users e). same_email e (trim_space (cu_email rq)) r)" "new_id \<notin> ur_id ` set (t_users e)"
    "wanted_quota q (cu_quota rq) = Some quota" "n = 201"
    "v = \<lparr>uq_id = cr_show_id cr new_id, uq_email = trim_space (cu_email rq), uq_role = cu_role rq, uq_quota = quota\<rparr>"
    "d' = e\<lparr>t_users := t_users e @ [\<lparr>ur_id = new_id, ur_email = Some (trim_space (cu_email rq)), ur_password_hash = Some hash,
        ur_role = Some (cu_role rq), ur_quota = quota, ur_created = pg_now e, ur_updated = pg_now e\<rparr>]\<rparr>"
proof -
  obtain rq where rq: "b = BodyOk rq"
    using assms by (cases b) (auto simp: handle_create_user_def http_simps split: if_splits)
  define email where "email = trim_space (cu_email rq)"
  from assms rq obtain quota hash where h: "require_admin_scope sc" "email \<noteq> []" "cu_role rq = ''admin'' \<or> cu_role rq = ''user''"
    "wanted_quota q (cu_quota rq) = Some quota" "hash_password cr (cu_password rq) = Some hash"
    by (auto simp: handle_create_user_def http_simps Let_def email_def split: if_splits option.splits)
  define u where "u = \<lparr>user_id = new_id, user_email = email, user_password_hash = hash, user_role = cu_role rq,
      user_quota = quota, user_created = zero_time, user_updated = zero_time\<rparr>"
  obtain r d1 where c: "users_create u d = (r, d1)" by fastforce
  then obtain created where r: "r = Inr created" "d' = d1" "n = 201" "v = new_user_quota_response cr created"
    using assms rq h
    by (cases r) (auto simp: handle_create_user_def http_simps Let_def email_def [symmetric] u_def split: if_splits storage_err.splits)
  from c [unfolded r] obtain e where e: "same_tables d e" "new_id \<notin> ur_id ` set (t_users e)"
    "\<not> (\<exists>r \<in> set (t_users e). same_email e email r)" "created = scan_user (user_row_of e u)"
    "d1 = e\<lparr>t_users := t_users e @ [user_row_of e u]\<rparr>"
    unfolding users_create_def by (elim pg_run_Inr) (auto simp: Let_def u_def split: if_splits)
  show thesis
    by (rule that [OF h(1) rq h(5) e(1) h(3)])
       (use h e r in \<open>simp_all add: email_def [symmetric] new_user_quota_response_def user_row_of_def u_def scan_user_def coalesce_empty_def\<close>)
qed

lemma users_get_by_email_quiet:
  "pg_script d = [] \<Longrightarrow> users_get_by_email email d =
     (case find (same_email d email) (t_users d) of None \<Rightarrow> Inl SNotFound | Some r \<Rightarrow> Inr (scan_user r), d)"
  by (simp add: users_get_by_email_def)

lemma find_appended: "\<forall>r \<in> set rows. \<not> P r \<Longrightarrow> P x \<Longrightarrow> find P (rows @ [x]) = Some x"
  by (induction rows) auto

text \<open>
  A user that was created can log in with its address, in any case the server folds together, and its
  password, and with no password the hash does not accept; the cookie the login sets opens, until the
  token expires, a session with the identity and the role the user was created with.
\<close>

theorem created_users_can_log_in:
  assumes create: "handle_create_user cr wired q new_id sc (BodyOk rq) d = (ROk 201 v, d1)"
    and later: "t_users d2 = t_users d1" "pg_lower d2 = pg_lower d1" "pg_script d2 = []"
    and bcrypt: "\<And>h. cr_bcrypt cr (cu_password rq) = Some h \<Longrightarrow> cr_compare cr h (cu_password rq)"
    and jwt: "claims = \<lparr>cl_subject = cr_show_id cr new_id, cl_issued_at = numeric_date now,
        cl_expires_at = numeric_date (now + token_lifetime), cl_role = cu_role rq\<rparr>"
      "cr_sign cr claims secret = Some token"
      "\<And>t. numeric_date t < cl_expires_at claims \<Longrightarrow> cr_verify cr token secret t = Some claims"
    and ids: "cr_parse_id cr (cr_show_id cr new_id) = Some new_id"
    and address: "pg_lower d2 email = pg_lower d2 (trim_space (cu_email rq))"
    and in_time: "numeric_date t1 < numeric_date (now + token_lifetime)"
  shows "\<exists>hash. cr_bcrypt cr (cu_password rq) = Some hash
    \<and> handle_login cr secret secure now (BodyOk \<lparr>lr_email = email, lr_password = cu_password rq\<rparr>) d2
      = ((ROk 200 \<lparr>id_user = uq_id v, id_email = uq_email v, id_role = uq_role v\<rparr>, Some (session_cookie token secure)), d2)
    \<and> authenticate cr global_key have_keys secret t1 \<lparr>rq_cookie = Some token, rq_apikey = apikey\<rparr> d2
      = (Inr (empty_scope\<lparr>sc_kind := scope_user, sc_user := new_id, sc_role := cu_role rq\<rparr>) :: 'a resp + scope, d2)
    \<and> fst (handle_me cr secret t1 (Some token) d2) = ROk 200 \<lparr>id_user = uq_id v, id_email = uq_email v, id_role = uq_role v\<rparr>
    \<and> (\<forall>p. \<not> cr_compare cr hash p \<longrightarrow>
          fst (handle_login cr secret secure now (BodyOk \<lparr>lr_email = email, lr_password = p\<rparr>) d2) = (invalid_credentials, None))"
proof -
  obtain hash quota e where e: "hash_password cr (cu_password rq) = Some hash" "same_tables d e"
    "\<not> (\<exists>r \<in> set (t_users e). same_email e (trim_space (cu_email rq)) r)" "new_id \<notin> ur_id ` set (t_users e)"
    "v = \<lparr>uq_id = cr_show_id cr new_id, uq_email = trim_space (cu_email rq), uq_role = cu_role rq, uq_quota = quota\<rparr>"
    "d1 = e\<lparr>t_users := t_users e @ [\<lparr>ur_id = new_id, ur_email = Some (trim_space (cu_email rq)), ur_password_hash = Some hash,
        ur_role = Some (cu_role rq), ur_quota = quota, ur_created = pg_now e, ur_updated = pg_now e\<rparr>]\<rparr>"
    by (rule create_user_ok [OF create], simp only: body.inject, hypsubst, rule that; assumption)
  define row where "row = \<lparr>ur_id = new_id, ur_email = Some (trim_space (cu_email rq)), ur_password_hash = Some hash,
        ur_role = Some (cu_role rq), ur_quota = quota, ur_created = pg_now e, ur_updated = pg_now e\<rparr>"
  have users: "t_users d2 = t_users e @ [row]" "pg_lower d2 = pg_lower e"
    using later e(6) by (simp_all add: row_def)
  have "same_email d2 email = same_email e (trim_space (cu_email rq))"
    using address by (simp add: same_email_def fun_eq_iff users(2))
  then have "find (same_email d2 email) (t_users d2) = Some row"
    using e(3) by (simp add: users) (rule find_appended, auto simp: same_email_def row_def)
  then have found: "users_get_by_email email d2 = (Inr (scan_user row), d2)"
    using later(3) by (simp add: users_get_by_email_quiet)
  have "row_by ur_id new_id (t_users d2) = Some row"
    unfolding row_by_def users(1) by (rule find_appended) (use e(4) in \<open>auto simp: row_def\<close>)
  then have by_id: "users_get_by_id new_id d2 = (Inr (scan_user row), d2)"
    using later(3) by (simp add: users_get_by_id_def)
  have scanned: "ur_id row = new_id" "user_role (scan_user row) = cu_role rq"
    "user_password_hash (scan_user row) = hash" "user_email (scan_user row) = trim_space (cu_email rq)"
    by (simp_all add: scan_user_def row_def coalesce_empty_def)
  have token: "cr_sign cr claims secret = Some token" "cr_verify cr token secret t1 = Some claims"
    using jwt in_time by simp_all
  have parse: "parse_token cr t1 token secret = Some (empty_scope\<lparr>sc_kind := scope_user, sc_user := new_id, sc_role := cu_role rq\<rparr>)"
    using token(2) ids by (simp add: parse_token_def jwt(1))
  have pw: "cr_compare cr hash (cu_password rq)" using bcrypt e(1) by (simp add: hash_password_def)
  have mint: "mint_token cr now new_id (cu_role rq) secret = Some token"
    using token(1) by (simp add: mint_token_def jwt(1))
  show ?thesis
    using e(1,5) pw mint parse by_id
    by (intro exI [of _ hash])
       (simp add: handle_login_def found check_password_def scanned hash_password_def new_identity_response_def
          authenticate_def handle_me_def)
qed

lemma same_tables_users: "same_tables d e \<Longrightarrow> same_tables (d\<lparr>t_users := us\<rparr>) (e\<lparr>t_users := us\<rparr>)"
  by (cases d; cases e) (simp add: same_tables_def)

text \<open>
  Deleting a user never leaves an instance without its owner: it succeeds only for a known user that owns no
  instance and then takes that user's row alone, and whatever else it answers the tables are as before.
\<close>

theorem deleting_users_orphans_nothing:
  assumes "handle_delete_user cr wired keys_wired sc raw d = (resp, d')"
  shows "if resp = RNoContent
    then \<exists>i. cr_parse_id cr raw = Some i \<and> require_admin_scope sc \<and> i \<in> ur_id ` set (t_users d)
        \<and> (\<forall>r \<in> set (t_instances d'). ir_owner r \<noteq> Some i)
        \<and> same_tables (d\<lparr>t_users := filter (\<lambda>r. ur_id r \<noteq> i) (t_users d)\<rparr>) d'
    else same_tables d d'"
proof (cases "require_admin_scope sc \<and> wired \<and> keys_wired \<and> cr_parse_id cr raw \<noteq> None")
  case False
  then show ?thesis using assms by (auto simp: handle_delete_user_def http_simps split: option.splits if_splits)
next
  case True
  then obtain i where i: "cr_parse_id cr raw = Some i" by auto
  obtain x d1 where c: "keys_count_by_owner i d = (x, d1)" by fastforce
  have same: "same_tables d d1"
    using c pg_run_same [of d "\<lambda>d. (Inr (owned_by i d), d)"] by (simp add: keys_count_by_owner_def)
  obtain y d2 where u: "users_delete i d1 = (y, d2)" by fastforce
  have failed: "y = Inl e \<Longrightarrow> same_tables d1 d2" for e
    using u unfolding users_delete_def by (auto elim!: pg_run_Inl_same split: if_splits)
  have gone: "i \<in> ur_id ` set (t_users d1) \<and> (\<forall>r \<in> set (t_instances d2). ir_owner r \<noteq> Some i)
      \<and> same_tables (d1\<lparr>t_users := filter (\<lambda>r. ur_id r \<noteq> i) (t_users d1)\<rparr>) d2" if "y = Inr z" for z
  proof -
    from u [unfolded that] obtain e where e: "same_tables d1 e" "i \<in> ur_id ` set (t_users e)"
      "\<not> (\<exists>r \<in> set (t_instances e). ir_owner r = Some i)" "d2 = e\<lparr>t_users := filter (\<lambda>r. ur_id r \<noteq> i) (t_users e)\<rparr>"
      unfolding users_delete_def by (elim pg_run_Inr) (auto split: if_splits)
    have "same_tables (d1\<lparr>t_users := filter (\<lambda>r. ur_id r \<noteq> i) (t_users d1)\<rparr>) (e\<lparr>t_users := filter (\<lambda>r. ur_id r \<noteq> i) (t_users d1)\<rparr>)"
      using e(1) by (rule same_tables_users)
    then show ?thesis using e(2-4) same_tables_fields(1) [OF e(1)] by simp
  qed
  show ?thesis
  proof (cases "x = Inr 0 \<and> (\<exists>z. y = Inr z)")
    case True
    then have "resp = RNoContent" "d' = d2"
      using assms c u i \<open>require_admin_scope sc \<and> _\<close> by (auto simp: handle_delete_user_def)
    moreover have "same_tables (d\<lparr>t_users := filter (\<lambda>r. ur_id r \<noteq> i) (t_users d)\<rparr>) (d1\<lparr>t_users := filter (\<lambda>r. ur_id r \<noteq> i) (t_users d1)\<rparr>)"
      using same_tables_users [OF same] same_tables_fields(1) [OF same] by simp
    ultimately show ?thesis
      using True gone i \<open>require_admin_scope sc \<and> _\<close> same_tables_fields(1) [OF same] by (auto intro: same_tables_trans)
  next
    case False
    then have "resp \<noteq> RNoContent \<and> same_tables d d'"
      using assms c u i same failed \<open>require_admin_scope sc \<and> _\<close>
      by (cases x; cases y)
         (auto simp: handle_delete_user_def http_simps split: if_splits intro: same_tables_trans)
    then show ?thesis by simp
  qed
qed

text \<open>A password the hash does not take, bcrypt's limit being 72 bytes, is answered as an internal error.\<close>

lemma long_passwords_answer_500:
  assumes "require_admin_scope sc" "trim_space (cu_email rq) \<noteq> []" "cu_password rq \<noteq> []" "cu_role rq = ''user''"
    and "wanted_quota q (cu_quota rq) = Some quota" "cr_bcrypt cr (cu_password rq) = None"
  shows "handle_create_user cr True q new_id sc (BodyOk rq) d = (internal_error, d)"
  using assms by (simp add: handle_create_user_def hash_password_def Let_def)

section \<open>Witnesses\<close>

definition sample_claims :: session_claims where
  "sample_claims = \<lparr>cl_subject = ''nine'', cl_issued_at = 0, cl_expires_at = 43200, cl_role = ''user''\<rparr>"

definition sample_login_crypto :: crypto where
  "sample_login_crypto = sample_crypto\<lparr>cr_sign := (\<lambda>c _. Some (cl_subject c)), cr_verify := (\<lambda>_ _ _. Some sample_claims),
     cr_parse_id := (\<lambda>s. if s = ''nine'' then Some 9 else if s = ''one'' then Some 1 else None), cr_show_id := (\<lambda>_. ''nine'')\<rparr>"

definition sample_account :: create_user_request where
  "sample_account = \<lparr>cu_email = ''bob'', cu_password = ''pw'', cu_role = ''user'', cu_quota = QuotaAbsent\<rparr>"

definition sample_admin :: scope where
  "sample_admin = empty_scope\<lparr>sc_kind := scope_global\<rparr>"

lemma sample_admin_scope: "require_admin_scope (Some sample_admin)"
  by (simp add: require_admin_scope_def require_role_def sample_admin_def)

lemma trim_bob: "trim_space ''bob'' = ''bob''"
  by code_simp

theorem created_users_can_log_in_witness:
  "\<exists>v d1. handle_create_user sample_login_crypto True 5 9 (Some sample_admin) (BodyOk sample_account) sample_db = (ROk 201 v, d1)
     \<and> fst (handle_login sample_login_crypto ''s'' True 0 (BodyOk \<lparr>lr_email = ''bob'', lr_password = ''pw''\<rparr>) d1)
         = (ROk 200 \<lparr>id_user = ''nine'', id_email = ''bob'', id_role = ''user''\<rparr>, Some (session_cookie ''nine'' True))"
proof -
  obtain v d1 where c: "handle_create_user sample_login_crypto True 5 9 (Some sample_admin) (BodyOk sample_account) sample_db
      = (ROk 201 v, d1)" and d1: "pg_script d1 = []" "uq_id v = ''nine''" "uq_email v = ''bob''" "uq_role v = ''user''"
    by (simp add: handle_create_user_def sample_admin_scope sample_account_def trim_bob hash_password_def sample_login_crypto_def
        sample_crypto_def users_create_def int4_def same_email_def sample_defs to_lower_def Let_def new_user_quota_response_def
        user_row_of_def scan_user_def coalesce_empty_def)
  have laws: "cr_bcrypt sample_login_crypto p = Some h \<Longrightarrow> cr_compare sample_login_crypto h p"
    "cr_show_id sample_login_crypto 9 = ''nine''" "cr_parse_id sample_login_crypto ''nine'' = Some 9"
    "cr_sign sample_login_crypto sample_claims ''s'' = Some ''nine''" "cr_verify sample_login_crypto ''nine'' ''s'' t = Some sample_claims"
    for p h t
    by (simp_all add: sample_login_crypto_def sample_crypto_def sample_claims_def)
  have claims: "sample_claims = \<lparr>cl_subject = cr_show_id sample_login_crypto 9, cl_issued_at = numeric_date 0,
      cl_expires_at = numeric_date (0 + token_lifetime), cl_role = cu_role sample_account\<rparr>"
    by (simp add: sample_claims_def laws sample_account_def numeric_date_def token_lifetime_def duration_defs)
  have parse: "cr_parse_id sample_login_crypto (cr_show_id sample_login_crypto 9) = Some 9" by (simp add: laws)
  have address: "pg_lower d1 ''bob'' = pg_lower d1 (trim_space (cu_email sample_account))"
    by (simp add: sample_account_def trim_bob)
  have soon: "numeric_date 0 < numeric_date (0 + token_lifetime)"
    by (simp add: numeric_date_def token_lifetime_def duration_defs)
  from created_users_can_log_in [OF c refl refl d1(1) laws(1) claims laws(4) laws(5) parse address soon, where secure = True and global_key = "[]" and have_keys = False and apikey = "[]"]
  have "fst (handle_login sample_login_crypto ''s'' True 0 (BodyOk \<lparr>lr_email = ''bob'', lr_password = cu_password sample_account\<rparr>) d1)
      = (ROk 200 \<lparr>id_user = uq_id v, id_email = uq_email v, id_role = uq_role v\<rparr>, Some (session_cookie ''nine'' True))"
    by auto
  then show ?thesis using c d1(2-4) by (auto simp: sample_account_def)
qed

theorem deleting_users_orphans_nothing_witness:
  "\<exists>d'. handle_delete_user sample_login_crypto True True (Some sample_admin) ''nine'' (sample_db\<lparr>t_users := [sample_user\<lparr>ur_id := 9\<rparr>]\<rparr>) = (RNoContent, d')
     \<and> t_users d' = []"
proof -
  let ?d = "sample_db\<lparr>t_users := [sample_user\<lparr>ur_id := 9\<rparr>]\<rparr>"
  obtain d' where r: "handle_delete_user sample_login_crypto True True (Some sample_admin) ''nine'' ?d = (RNoContent, d')"
    by (simp add: handle_delete_user_def sample_admin_scope sample_login_crypto_def keys_count_by_owner_def owned_by_def
        users_delete_def sample_defs)
  show ?thesis
    using deleting_users_orphans_nothing [OF r] r same_tables_fields(1)
    by (fastforce simp: sample_login_crypto_def)
qed

end
