(* ===== verification/Json.thy ===== *)
theory Json
  imports Ascii Model
begin

text \<open>
  Reading and writing structs as \<^verbatim>\<open>encoding/json\<close> does, over the JSON values of \<open>Model\<close>, where a number keeps its
  literal. Reading a struct field takes the last value of its key; a missing field or null leaves the zero value,
  a value of another type is the decoding error. (\<^verbatim>\<open>encoding/json\<close> also accepts a key that differs in case; the
  model does not.)
\<close>

text \<open>\<^verbatim>\<open>strconv.FormatInt\<close>, and the integers among the number literals.\<close>

definition show_int :: "int \<Rightarrow> string" where
  "show_int i = (if i < 0 then CHR ''-'' # decimal (nat (- i)) else decimal (nat i))"

definition int_literal :: "string \<Rightarrow> int option" where
  "int_literal s =
     (let digits = (case strip_prefix ''-'' s of Some ds \<Rightarrow> ds | None \<Rightarrow> s);
          n = int (decimal_value digits);
          i = (if digits = s then n else - n)
      in if digits = [] \<or> \<not> list_all is_digit digits \<or> \<not> int64 i then None else Some i)"

definition json_field :: "string \<Rightarrow> (string \<times> json) list \<Rightarrow> json option" where
  "json_field k kvs = map_of (rev kvs) k"

text \<open>\<open>read_field dec zero k kvs\<close>: None is a decoding error.\<close>

definition read_field :: "(json \<Rightarrow> 'a option) \<Rightarrow> 'a \<Rightarrow> string \<Rightarrow> (string \<times> json) list \<Rightarrow> 'a option" where
  "read_field dec z k kvs =
     (case json_field k kvs of None \<Rightarrow> Some z | Some JNull \<Rightarrow> Some z | Some j \<Rightarrow> dec j)"

fun read_string :: "json \<Rightarrow> string option" where
  "read_string (JStr s) = Some s"
| "read_string _ = None"

fun read_bool :: "json \<Rightarrow> bool option" where
  "read_bool (JBool b) = Some b"
| "read_bool _ = None"

fun read_int64 :: "json \<Rightarrow> int option" where
  "read_int64 (JNum s) = int_literal s"
| "read_int64 _ = None"

text \<open>A struct: null is the zero value.\<close>

definition read_struct :: "((string \<times> json) list \<Rightarrow> 'a option) \<Rightarrow> json \<Rightarrow> 'a option" where
  "read_struct dec j = (case j of JObj kvs \<Rightarrow> dec kvs | JNull \<Rightarrow> dec [] | _ \<Rightarrow> None)"

fun read_all :: "('a \<Rightarrow> 'b option) \<Rightarrow> 'a list \<Rightarrow> 'b list option" where
  "read_all f [] = Some []"
| "read_all f (x # xs) =
     (case f x of None \<Rightarrow> None | Some y \<Rightarrow> map_option ((#) y) (read_all f xs))"

text \<open>A slice: null is the nil slice, which the callers treat as the empty one.\<close>

definition read_list :: "(json \<Rightarrow> 'a option) \<Rightarrow> json \<Rightarrow> 'a list option" where
  "read_list dec j = (case j of JArr js \<Rightarrow> read_all dec js | JNull \<Rightarrow> Some [] | _ \<Rightarrow> None)"

text \<open>\<^verbatim>\<open>omitempty\<close> on a string and on a flag.\<close>

definition member_text :: "string \<Rightarrow> string \<Rightarrow> (string \<times> json) list" where
  "member_text k s = (if s = [] then [] else [(k, JStr s)])"

definition member_flag :: "string \<Rightarrow> bool \<Rightarrow> (string \<times> json) list" where
  "member_flag k b = (if b then [(k, JBool b)] else [])"

definition member_int :: "string \<Rightarrow> int \<Rightarrow> (string \<times> json) list" where
  "member_int k i = (if i = 0 then [] else [(k, JNum (show_int i))])"

lemma int_literal_reads_back:
  assumes "int64 i"
  shows "int_literal (show_int i) = Some i"
proof -
  have "is_digit c" if "c \<in> set (decimal n)" for c n
    using decimal_digits [OF that] by (simp add: is_digit_def less_eq_char_def)
  then have d: "list_all is_digit (decimal n)" for n by (simp add: list_all_iff)
  have ne: "decimal n \<noteq> []" for n by (subst decimal.simps) simp
  have hd: "hd (decimal n) \<noteq> CHR ''-''" for n
    using decimal_digits [of "hd (decimal n)" n] ne [of n] by auto
  have plain: "strip_prefix ''-'' (decimal n) = None" for n using hd [of n] ne [of n] by (cases "decimal n") auto
  show ?thesis
    using assms d ne plain by (cases "i < 0") (simp_all add: int_literal_def show_int_def Let_def decimal_reads_back del: decimal_value.simps)
qed

lemma read_all_map: "(\<And>x. x \<in> set xs \<Longrightarrow> f (g x) = Some x) \<Longrightarrow> read_all f (map g xs) = Some xs"
  by (induction xs) auto

end
