(* ===== verification/ChatwootClient.thy ===== *)
theory ChatwootClient
  imports Json
begin

text \<open>
  The Chatwoot client, \<^verbatim>\<open>internal/chatwoot/client/client.go\<close> and \<^verbatim>\<open>models.go\<close>. The Chatwoot server is outside the
  program: \<open>cx_send\<close> answers a request, None for a transport failure, and has a state of its own; the
  world also records the requests sent. \<open>cx_parse\<close> is the JSON parser and \<open>cx_detect\<close> the content sniffer.
\<close>

section \<open>Requests\<close>

datatype cw_body = NoBody | JsonBody json | FormBody "(string \<times> string) list" "(string \<times> string \<times> string) option"

record cw_request =
  hq_method :: string
  hq_url :: string
  hq_token :: string
  hq_body :: cw_body

record 's cw_net =
  cx_send :: "cw_request \<Rightarrow> 's \<Rightarrow> (nat \<times> string) option \<times> 's"
  cx_parse :: "string \<Rightarrow> json option"
  cx_detect :: "string \<Rightarrow> string"

record 's cw_world =
  cw_server :: 's
  cw_sent :: "cw_request list"

record cw_client =
  cc_base :: string
  cc_token :: string
  cc_account :: string

datatype client_err = ClientTransport | ClientDecode | ClientStatus nat string

type_synonym ('a, 's) cw_op = "'s cw_world \<Rightarrow> (client_err + 'a) \<times> 's cw_world"

fun trim_right_char :: "char \<Rightarrow> string \<Rightarrow> string" where
  "trim_right_char c s = rev (dropWhile (\<lambda>x. x = c) (rev s))"

definition new_client :: "string \<Rightarrow> string \<Rightarrow> string \<Rightarrow> cw_client" where
  "new_client base_url token account =
     \<lparr>cc_base = trim_right_char CHR ''/'' base_url, cc_token = token, cc_account = account\<rparr>"

definition account_path :: "cw_client \<Rightarrow> string \<Rightarrow> string" where
  "account_path cl path = ''/api/v1/accounts/'' @ cc_account cl @ path"

definition response_limit :: nat where "response_limit = 4 * 2 ^ 20"

text \<open>\<^verbatim>\<open>url.QueryEscape\<close>.\<close>

definition hex_upper :: "nat \<Rightarrow> char" where
  "hex_upper n = char_of (if n < 10 then 48 + n else 55 + n)"

definition escape_char :: "char \<Rightarrow> string" where
  "escape_char c =
     (let n = of_char c :: nat in
      if (65 \<le> n \<and> n \<le> 90) \<or> (97 \<le> n \<and> n \<le> 122) \<or> is_digit c \<or> c \<in> set ''-_.~'' then [c]
      else if c = CHR '' '' then ''+''
      else [CHR ''%'', hex_upper (n div 16), hex_upper (n mod 16)])"

definition query_escape :: "string \<Rightarrow> string" where
  "query_escape s = concat (map escape_char s)"

text \<open>
  \<^verbatim>\<open>do\<close>: the body of a 2xx answer, of which at most 4 MiB are read. The target is the base followed by the
  path; the server of a malformed one is a transport failure.
\<close>

definition api_do :: "'s cw_net \<Rightarrow> cw_client \<Rightarrow> string \<Rightarrow> string \<Rightarrow> cw_body \<Rightarrow> (string, 's) cw_op" where
  "api_do net cl verb path body w =
     (let rq = \<lparr>hq_method = verb, hq_url = cc_base cl @ path, hq_token = cc_token cl, hq_body = body\<rparr> in
      case cx_send net rq (cw_server w) of
        (answer, s) \<Rightarrow>
          (case answer of
             None \<Rightarrow> Inl ClientTransport
           | Some (status, body) \<Rightarrow>
               (let raw = take response_limit body in
                if status < 200 \<or> 299 < status then Inl (ClientStatus status (take 2000 raw)) else Inr raw),
           \<lparr>cw_server = s, cw_sent = cw_sent w @ [rq]\<rparr>))"

definition client_decode :: "'s cw_net \<Rightarrow> (json \<Rightarrow> 'a option) \<Rightarrow> 'a \<Rightarrow> string \<Rightarrow> client_err + 'a" where
  "client_decode net dec zero raw =
     (if trim_space raw = [] then Inr zero
      else (case cx_parse net raw of
              None \<Rightarrow> Inl ClientDecode
            | Some j \<Rightarrow> (case dec j of None \<Rightarrow> Inl ClientDecode | Some x \<Rightarrow> Inr x)))"

definition client_call :: "'s cw_net \<Rightarrow> cw_client \<Rightarrow> string \<Rightarrow> string \<Rightarrow> cw_body \<Rightarrow> (json \<Rightarrow> 'a option) \<Rightarrow> 'a
      \<Rightarrow> ('a, 's) cw_op" where
  "client_call net cl verb path body dec zero w =
     (case api_do net cl verb (account_path cl path) body w of
        (Inl e, w) \<Rightarrow> (Inl e, w)
      | (Inr raw, w) \<Rightarrow> (client_decode net dec zero raw, w))"

text \<open>A call whose answer is not decoded.\<close>

definition client_send :: "'s cw_net \<Rightarrow> cw_client \<Rightarrow> string \<Rightarrow> string \<Rightarrow> cw_body \<Rightarrow> (unit, 's) cw_op" where
  "client_send net cl verb path body w =
     (case api_do net cl verb (account_path cl path) body w of
        (Inl e, w) \<Rightarrow> (Inl e, w) | (Inr _, w) \<Rightarrow> (Inr (), w))"

section \<open>Models\<close>

record cw_contact =
  ct_id :: int
  ct_name :: string
  ct_phone :: string
  ct_identifier :: string
  ct_email :: string
  ct_avatar :: string

record contact_request =
  cr_name :: string
  cr_phone_number :: string
  cr_identifier :: string
  cr_email :: string
  cr_avatar :: string

record cw_inbox =
  ix_id :: int
  ix_name :: string
  ix_channel :: string
  ix_webhook :: string

record cw_conversation =
  cv_id :: int
  cv_status :: string
  cv_inbox :: int

record conversation_request =
  vr_source :: string
  vr_inbox :: int
  vr_contact :: int
  vr_status :: string

record cw_message =
  cm_id :: int
  cm_content :: string
  cm_type :: string

record message_request =
  mq_content :: string
  mq_type :: string
  mq_private :: bool
  mq_attributes :: "(string \<times> json) list"
  mq_source :: string
  mq_reply :: string

record cw_upload =
  at_name :: string
  at_type :: string
  at_file :: string

definition no_contact_request :: contact_request where
  "no_contact_request = \<lparr>cr_name = [], cr_phone_number = [], cr_identifier = [], cr_email = [], cr_avatar = []\<rparr>"

definition read_contact :: "(string \<times> json) list \<Rightarrow> cw_contact option" where
  "read_contact kvs =
     (case (read_field read_int64 0 ''id'' kvs, read_field read_string [] ''name'' kvs,
            read_field read_string [] ''phone_number'' kvs, read_field read_string [] ''identifier'' kvs,
            read_field read_string [] ''email'' kvs, read_field read_string [] ''avatar_url'' kvs) of
        (Some i, Some n, Some p, Some d, Some e, Some a) \<Rightarrow>
          Some \<lparr>ct_id = i, ct_name = n, ct_phone = p, ct_identifier = d, ct_email = e, ct_avatar = a\<rparr>
      | _ \<Rightarrow> None)"

definition read_inbox :: "(string \<times> json) list \<Rightarrow> cw_inbox option" where
  "read_inbox kvs =
     (case (read_field read_int64 0 ''id'' kvs, read_field read_string [] ''name'' kvs,
            read_field read_string [] ''channel_type'' kvs, read_field read_string [] ''webhook_url'' kvs) of
        (Some i, Some n, Some c, Some u) \<Rightarrow> Some \<lparr>ix_id = i, ix_name = n, ix_channel = c, ix_webhook = u\<rparr>
      | _ \<Rightarrow> None)"

definition read_conversation :: "(string \<times> json) list \<Rightarrow> cw_conversation option" where
  "read_conversation kvs =
     (case (read_field read_int64 0 ''id'' kvs, read_field read_string [] ''status'' kvs,
            read_field read_int64 0 ''inbox_id'' kvs) of
        (Some i, Some s, Some x) \<Rightarrow> Some \<lparr>cv_id = i, cv_status = s, cv_inbox = x\<rparr>
      | _ \<Rightarrow> None)"

definition read_message :: "(string \<times> json) list \<Rightarrow> cw_message option" where
  "read_message kvs =
     (case (read_field read_int64 0 ''id'' kvs, read_field read_string [] ''content'' kvs,
            read_field read_string [] ''message_type'' kvs) of
        (Some i, Some c, Some t) \<Rightarrow> Some \<lparr>cm_id = i, cm_content = c, cm_type = t\<rparr>
      | _ \<Rightarrow> None)"

definition zero_contact :: cw_contact where
  "zero_contact = \<lparr>ct_id = 0, ct_name = [], ct_phone = [], ct_identifier = [], ct_email = [], ct_avatar = []\<rparr>"

definition zero_inbox :: cw_inbox where
  "zero_inbox = \<lparr>ix_id = 0, ix_name = [], ix_channel = [], ix_webhook = []\<rparr>"

definition zero_conversation :: cw_conversation where
  "zero_conversation = \<lparr>cv_id = 0, cv_status = [], cv_inbox = 0\<rparr>"

definition zero_message :: cw_message where
  "zero_message = \<lparr>cm_id = 0, cm_content = [], cm_type = []\<rparr>"

text \<open>An answer of the form \<^verbatim>\<open>{"payload": [...]}\<close>.\<close>

definition read_payload :: "(json \<Rightarrow> 'a option) \<Rightarrow> json \<Rightarrow> 'a list option" where
  "read_payload dec = read_struct (read_field (read_list dec) [] ''payload'')"

definition contact_json :: "contact_request \<Rightarrow> json" where
  "contact_json r =
     JObj (member_text ''name'' (cr_name r) @ member_text ''phone_number'' (cr_phone_number r)
       @ member_text ''identifier'' (cr_identifier r) @ member_text ''email'' (cr_email r)
       @ member_text ''avatar_url'' (cr_avatar r))"

definition conversation_json :: "conversation_request \<Rightarrow> json" where
  "conversation_json r =
     JObj ([(''source_id'', JStr (vr_source r)), (''inbox_id'', JNum (show_int (vr_inbox r)))]
       @ member_int ''contact_id'' (vr_contact r) @ member_text ''status'' (vr_status r))"

definition message_json :: "message_request \<Rightarrow> json" where
  "message_json r =
     JObj (member_text ''content'' (mq_content r) @ member_text ''message_type'' (mq_type r)
       @ member_flag ''private'' (mq_private r)
       @ (if mq_attributes r = [] then [] else [(''content_attributes'', JObj (mq_attributes r))])
       @ member_text ''source_id'' (mq_source r) @ member_text ''source_reply_id'' (mq_reply r))"

section \<open>Calls\<close>

definition find_contact_by_phone :: "'s cw_net \<Rightarrow> cw_client \<Rightarrow> string \<Rightarrow> (cw_contact list, 's) cw_op" where
  "find_contact_by_phone net cl phone =
     client_call net cl ''POST'' ''/contacts/filter''
       (JsonBody (JObj [(''payload'', JArr [JObj [(''attribute_key'', JStr ''phone_number''),
          (''filter_operator'', JStr ''contains''), (''values'', JArr [JStr phone])]])]))
       (read_payload (read_struct read_contact)) []"

definition search_contacts :: "'s cw_net \<Rightarrow> cw_client \<Rightarrow> string \<Rightarrow> (cw_contact list, 's) cw_op" where
  "search_contacts net cl query =
     client_call net cl ''GET'' (''/contacts/search?q='' @ query_escape query) NoBody
       (read_payload (read_struct read_contact)) []"

definition create_contact :: "'s cw_net \<Rightarrow> cw_client \<Rightarrow> contact_request \<Rightarrow> (cw_contact, 's) cw_op" where
  "create_contact net cl rq =
     client_call net cl ''POST'' ''/contacts'' (JsonBody (contact_json rq)) (read_struct read_contact) zero_contact"

definition update_contact :: "'s cw_net \<Rightarrow> cw_client \<Rightarrow> int \<Rightarrow> contact_request \<Rightarrow> (cw_contact, 's) cw_op" where
  "update_contact net cl i rq =
     client_call net cl ''PUT'' (''/contacts/'' @ show_int i) (JsonBody (contact_json rq))
       (read_struct read_contact) zero_contact"

definition merge_contacts :: "'s cw_net \<Rightarrow> cw_client \<Rightarrow> int \<Rightarrow> int \<Rightarrow> (cw_contact, 's) cw_op" where
  "merge_contacts net cl base mergee =
     client_call net cl ''POST'' ''/actions/contact_merge''
       (JsonBody (JObj [(''base_contact_id'', JNum (show_int base)), (''mergee_contact_id'', JNum (show_int mergee))]))
       (read_struct read_contact) zero_contact"

definition list_inboxes :: "'s cw_net \<Rightarrow> cw_client \<Rightarrow> (cw_inbox list, 's) cw_op" where
  "list_inboxes net cl =
     client_call net cl ''GET'' ''/inboxes'' NoBody (read_payload (read_struct read_inbox)) []"

definition create_inbox :: "'s cw_net \<Rightarrow> cw_client \<Rightarrow> string \<Rightarrow> string \<Rightarrow> (cw_inbox, 's) cw_op" where
  "create_inbox net cl name webhook_url =
     client_call net cl ''POST'' ''/inboxes''
       (JsonBody (JObj [(''name'', JStr name),
          (''channel'', JObj [(''type'', JStr ''api''), (''webhook_url'', JStr webhook_url)])]))
       (read_struct read_inbox) zero_inbox"

definition list_contact_conversations :: "'s cw_net \<Rightarrow> cw_client \<Rightarrow> int \<Rightarrow> (cw_conversation list, 's) cw_op" where
  "list_contact_conversations net cl i =
     client_call net cl ''GET'' (''/contacts/'' @ show_int i @ ''/conversations'') NoBody
       (read_list (read_struct read_conversation)) []"

definition get_conversation :: "'s cw_net \<Rightarrow> cw_client \<Rightarrow> int \<Rightarrow> (cw_conversation, 's) cw_op" where
  "get_conversation net cl i =
     client_call net cl ''GET'' (''/conversations/'' @ show_int i) NoBody
       (read_struct read_conversation) zero_conversation"

definition create_conversation :: "'s cw_net \<Rightarrow> cw_client \<Rightarrow> conversation_request \<Rightarrow> (cw_conversation, 's) cw_op" where
  "create_conversation net cl rq =
     client_call net cl ''POST'' ''/conversations'' (JsonBody (conversation_json rq))
       (read_struct read_conversation) zero_conversation"

definition toggle_conversation_status :: "'s cw_net \<Rightarrow> cw_client \<Rightarrow> int \<Rightarrow> string \<Rightarrow> (cw_conversation, 's) cw_op" where
  "toggle_conversation_status net cl i status =
     client_call net cl ''POST'' (''/conversations/'' @ show_int i @ ''/toggle_status'')
       (JsonBody (JObj [(''status'', JStr status)])) (read_struct read_conversation) zero_conversation"

definition messages_path :: "int \<Rightarrow> string" where
  "messages_path conversation = ''/conversations/'' @ show_int conversation @ ''/messages''"

definition create_message :: "'s cw_net \<Rightarrow> cw_client \<Rightarrow> int \<Rightarrow> message_request \<Rightarrow> (cw_message, 's) cw_op" where
  "create_message net cl conversation rq =
     client_call net cl ''POST'' (messages_path conversation) (JsonBody (message_json rq))
       (read_struct read_message) zero_message"

text \<open>
  The multipart form of an attachment. \<open>print_json\<close> of the attributes is \<^verbatim>\<open>json.Marshal\<close>; a nonempty
  file is its last part.
\<close>

definition form_field :: "string \<Rightarrow> string \<Rightarrow> (string \<times> string) list" where
  "form_field k s = (if s = [] then [] else [(k, s)])"

definition escape_quotes :: "string \<Rightarrow> string" where
  "escape_quotes s = concat (map (\<lambda>c. if c = CHR 0x5C \<or> c = CHR 0x22 then [CHR 0x5C, c] else [c]) s)"

definition attachment_form :: "'s cw_net \<Rightarrow> (json \<Rightarrow> string) \<Rightarrow> message_request \<Rightarrow> cw_upload \<Rightarrow> cw_body" where
  "attachment_form net print_json rq a =
     FormBody
       (form_field ''content'' (mq_content rq) @ form_field ''message_type'' (mq_type rq)
        @ (if mq_private rq then [(''private'', ''true'')] else [])
        @ (if mq_attributes rq = [] then [] else [(''content_attributes'', print_json (JObj (mq_attributes rq)))])
        @ form_field ''source_id'' (mq_source rq) @ form_field ''source_reply_id'' (mq_reply rq))
       (if at_file a = [] then None
        else (let name = (if at_name a = [] then ''attachment'' else at_name a);
                  ctype = (if at_type a = [] then
                             (let t = cx_detect net (at_file a) in if t = [] then ''application/octet-stream'' else t)
                           else at_type a)
              in Some (escape_quotes name, ctype, at_file a)))"

definition create_message_with_attachment ::
    "'s cw_net \<Rightarrow> (json \<Rightarrow> string) \<Rightarrow> cw_client \<Rightarrow> int \<Rightarrow> message_request \<Rightarrow> cw_upload \<Rightarrow> (cw_message, 's) cw_op" where
  "create_message_with_attachment net print_json cl conversation rq a =
     client_call net cl ''POST'' (messages_path conversation) (attachment_form net print_json rq a)
       (read_struct read_message) zero_message"

definition api_delete_message :: "'s cw_net \<Rightarrow> cw_client \<Rightarrow> int \<Rightarrow> int \<Rightarrow> (unit, 's) cw_op" where
  "api_delete_message net cl conversation m =
     client_send net cl ''DELETE'' (messages_path conversation @ ''/'' @ show_int m) NoBody"

definition update_last_seen :: "'s cw_net \<Rightarrow> cw_client \<Rightarrow> int \<Rightarrow> (unit, 's) cw_op" where
  "update_last_seen net cl conversation =
     client_send net cl ''POST'' (''/conversations/'' @ show_int conversation @ ''/update_last_seen'') (JsonBody (JObj []))"

section \<open>What a call sends\<close>

lemma api_do_sent:
  "api_do net cl verb path body w = (r, w') \<Longrightarrow>
     cw_sent w' = cw_sent w @ [\<lparr>hq_method = verb, hq_url = cc_base cl @ path, hq_token = cc_token cl, hq_body = body\<rparr>]"
  by (auto simp: api_do_def Let_def split: prod.splits)

lemma client_call_sent:
  "client_call net cl verb path body dec zero w = (r, w') \<Longrightarrow>
     cw_sent w' = cw_sent w @ [\<lparr>hq_method = verb, hq_url = cc_base cl @ account_path cl path, hq_token = cc_token cl, hq_body = body\<rparr>]"
  by (auto simp: client_call_def dest: api_do_sent split: prod.splits sum.splits)

end
