(* ===== verification/ChatwootConversations.thy ===== *)
theory ChatwootConversations
  imports ChatwootClient
begin

text \<open>
  The conversation of a sender, \<^verbatim>\<open>internal/chatwoot/conversations/conversations.go\<close> and \<^verbatim>\<open>locker.go\<close>: a cache
  that is validated before it is used, and a lock per sender that expires. Instants are milliseconds. The first
  part has the operations; the second runs any number of callers, whose steps interleave, over the same operations.
\<close>

section \<open>The lock of a sender\<close>

definition lock_ttl :: int where "lock_ttl = 30000"
definition lock_poll :: int where "lock_poll = 300"
definition lock_timeout :: int where "lock_timeout = 5000"

type_synonym lock_table = "string \<rightharpoonup> int"

text \<open>\<^verbatim>\<open>tryAcquire\<close>: the token is the instant the lock expires.\<close>

definition try_acquire :: "int \<Rightarrow> string \<Rightarrow> lock_table \<Rightarrow> int option \<times> lock_table" where
  "try_acquire now key h =
     (case h key of
        Some t \<Rightarrow> if now < t then (None, h) else (Some (now + lock_ttl), h(key \<mapsto> now + lock_ttl))
      | None \<Rightarrow> (Some (now + lock_ttl), h(key \<mapsto> now + lock_ttl)))"

definition release_lock :: "string \<Rightarrow> int \<Rightarrow> lock_table \<Rightarrow> lock_table" where
  "release_lock key token h = (if h key = Some token then h(key := None) else h)"

section \<open>The cache\<close>

definition conversation_ttl :: int where "conversation_ttl = 30 * 60 * 1000"

type_synonym conv_cache = "string \<rightharpoonup> int \<times> int"

record conv_resolver =
  vz_client :: cw_client
  vz_inbox :: int
  vz_pending :: bool
  vz_reopen :: bool

definition conversation_key :: "string \<Rightarrow> string \<Rightarrow> string" where
  "conversation_key inst jid = inst @ ''|'' @ jid"

definition cached_conversation :: "int \<Rightarrow> string \<Rightarrow> conv_cache \<Rightarrow> int option" where
  "cached_conversation now key c =
     (case c key of None \<Rightarrow> None | Some (i, until) \<Rightarrow> if now < until then Some i else None)"

definition store_conversation :: "int \<Rightarrow> string \<Rightarrow> int \<Rightarrow> conv_cache \<Rightarrow> conv_cache" where
  "store_conversation now key i c = c(key \<mapsto> (i, now + conversation_ttl))"

definition drop_conversation :: "string \<Rightarrow> conv_cache \<Rightarrow> conv_cache" where
  "drop_conversation key c = c(key := None)"

text \<open>\<^verbatim>\<open>Clear\<close>: the entries of one connection.\<close>

definition clear_conversations :: "string \<Rightarrow> conv_cache \<Rightarrow> conv_cache" where
  "clear_conversations inst c = (\<lambda>key. if strip_prefix (inst @ ''|'') key = None then c key else None)"

text \<open>Whether a validated conversation may be used again.\<close>

definition usable_conversation :: "conv_resolver \<Rightarrow> cw_conversation \<Rightarrow> bool" where
  "usable_conversation r cv \<longleftrightarrow> cv_inbox cv = vz_inbox r
     \<and> (cv_status cv = ''open'' \<or> (cv_status cv = ''pending'' \<and> vz_pending r))"

section \<open>The choice among the conversations of a contact\<close>

datatype choice = Reuse int | Reopen int | CreateNew

definition max_id :: "int \<Rightarrow> int \<Rightarrow> int" where
  "max_id a b = (if b > a then b else a)"

definition largest_with :: "conv_resolver \<Rightarrow> string \<Rightarrow> cw_conversation list \<Rightarrow> int" where
  "largest_with r status cvs =
     fold (\<lambda>cv m. if cv_inbox cv = vz_inbox r \<and> cv_status cv = status then max_id m (cv_id cv) else m) cvs 0"

definition choose_conversation :: "conv_resolver \<Rightarrow> cw_conversation list \<Rightarrow> choice" where
  "choose_conversation r cvs =
     (let active = largest_with r ''open'' cvs; waiting = largest_with r ''pending'' cvs;
          resolved = largest_with r ''resolved'' cvs in
      if active \<noteq> 0 then Reuse active
      else if waiting \<noteq> 0 \<and> vz_pending r then Reuse waiting
      else if resolved \<noteq> 0 \<and> vz_reopen r then Reopen resolved
      else CreateNew)"

definition create_status :: "conv_resolver \<Rightarrow> string" where
  "create_status r = (if vz_pending r then ''pending'' else [])"

text \<open>A conversation to use is one of this inbox, and no newer one of the same class is passed over.\<close>

lemma max_id_Max: "finite S \<Longrightarrow> Max (insert (max_id a b) S) = Max (insert a (insert b S))" for a b :: int
  by (cases "S = {}") (auto simp: max_id_def max_def)

lemma largest_with_fold:
  "fold (\<lambda>cv m. if cv_inbox cv = vz_inbox r \<and> cv_status cv = s then max_id m (cv_id cv) else m) cvs a
     = Max (insert a {cv_id cv | cv. cv \<in> set cvs \<and> cv_inbox cv = vz_inbox r \<and> cv_status cv = s})"
proof (induction cvs arbitrary: a)
  case Nil
  then show ?case by simp
next
  case (Cons c cvs)
  let ?S = "\<lambda>cs. {cv_id cv | cv. cv \<in> set cs \<and> cv_inbox cv = vz_inbox r \<and> cv_status cv = s}"
  have fin: "finite (?S cvs)" by simp
  show ?case
  proof (cases "cv_inbox c = vz_inbox r \<and> cv_status c = s")
    case True
    then have "?S (c # cvs) = insert (cv_id c) (?S cvs)" by auto
    moreover have "Max (insert (max_id a (cv_id c)) (?S cvs)) = Max (insert a (insert (cv_id c) (?S cvs)))"
      using fin by (rule max_id_Max)
    ultimately show ?thesis using True Cons by simp
  next
    case False
    then have "?S (c # cvs) = ?S cvs" by auto
    then show ?thesis using False Cons by auto
  qed
qed

section \<open>One caller\<close>

datatype conv_err = LockTimeout | ConvClient client_err

type_synonym ('a, 's) conv_op = "conv_cache \<Rightarrow> 's cw_world \<Rightarrow> 'a \<times> conv_cache \<times> 's cw_world"

definition check_cache :: "'s cw_net \<Rightarrow> conv_resolver \<Rightarrow> int \<Rightarrow> string \<Rightarrow> (int option, 's) conv_op" where
  "check_cache net r now key c w =
     (case cached_conversation now key c of
        None \<Rightarrow> (None, c, w)
      | Some i \<Rightarrow>
          (case get_conversation net (vz_client r) i w of
             (Inl _, w) \<Rightarrow> (None, drop_conversation key c, w)
           | (Inr cv, w) \<Rightarrow>
               if usable_conversation r cv then (Some i, store_conversation now key i c, w)
               else (None, drop_conversation key c, w)))"

definition reuse_conversation :: "'s cw_net \<Rightarrow> conv_resolver \<Rightarrow> cw_conversation list \<Rightarrow> (int option, 's) cw_op" where
  "reuse_conversation net r cvs w =
     (case choose_conversation r cvs of
        Reuse i \<Rightarrow> (Inr (Some i), w)
      | Reopen i \<Rightarrow>
          (case toggle_conversation_status net (vz_client r) i ''open'' w of
             (Inl e, w) \<Rightarrow> (Inl e, w) | (Inr cv, w) \<Rightarrow> (Inr (Some (cv_id cv)), w))
      | CreateNew \<Rightarrow> (Inr None, w))"

text \<open>
  \<^verbatim>\<open>Resolve\<close>, for one caller: \<open>free\<close> says whether the sender's lock is obtained within five seconds, and the
  requests take no time.
\<close>

definition resolve_conversation ::
    "'s cw_net \<Rightarrow> conv_resolver \<Rightarrow> int \<Rightarrow> (string \<Rightarrow> bool) \<Rightarrow> string \<Rightarrow> string \<Rightarrow> int \<Rightarrow> (conv_err + int, 's) conv_op" where
  "resolve_conversation net r now free inst jid contact c w =
     (let key = conversation_key inst jid in
      case check_cache net r now key c w of
        (Some i, c, w) \<Rightarrow> (Inr i, c, w)
      | (None, c, w) \<Rightarrow>
          if \<not> free key then (Inl LockTimeout, c, w)
          else (case cached_conversation now key c of
             Some i \<Rightarrow> (Inr i, c, w)
           | None \<Rightarrow>
               (case list_contact_conversations net (vz_client r) contact w of
                  (Inl e, w) \<Rightarrow> (Inl (ConvClient e), c, w)
                | (Inr cvs, w) \<Rightarrow>
                    (case reuse_conversation net r cvs w of
                       (Inl e, w) \<Rightarrow> (Inl (ConvClient e), c, w)
                     | (Inr (Some i), w) \<Rightarrow> (Inr i, store_conversation now key i c, w)
                     | (Inr None, w) \<Rightarrow>
                         (case create_conversation net (vz_client r)
                            \<lparr>vr_source = jid, vr_inbox = vz_inbox r, vr_contact = contact, vr_status = create_status r\<rparr> w of
                            (Inl e, w) \<Rightarrow> (Inl (ConvClient e), c, w)
                          | (Inr cv, w) \<Rightarrow> (Inr (cv_id cv), store_conversation now key (cv_id cv) c, w))))))"

section \<open>Callers that interleave\<close>

text \<open>
  Every access to the lock table and to the cache is one step, for it holds their mutex, and so is the answer of a
  request; the answers are the events' arguments, None for a failure. A caller is in a phase of \<^verbatim>\<open>Resolve\<close>; the
  token of the lock it holds and the instant its request began go with it. A request ends in less than the
  client's fifteen seconds and computing takes no time, which is what a step of time respects.
\<close>

definition request_timeout :: int where "request_timeout = 15000"

datatype phase =
    Idle
  | Validating int
  | Waiting int
  | Locked int
  | Listing int int
  | Reopening int int
  | Creating int int
  | Leaving int "int option"
  | Returned int
  | Failed

datatype conv_event =
    Arrive nat
  | Validated nat "cw_conversation option"
  | Attempt nat
  | Cancel nat
  | DoubleCheck nat
  | Listed nat "cw_conversation list option"
  | Reopened nat "cw_conversation option"
  | Created nat "cw_conversation option"
  | Leave nat
  | Tick int

record conv_run =
  rz_now :: int
  rz_held :: lock_table
  rz_cache :: conv_cache
  rz_keys :: "string list"
  rz_phase :: "nat \<Rightarrow> phase"
  rz_created :: "(string \<times> int) list"

definition start_run :: "string list \<Rightarrow> conv_run" where
  "start_run keys = \<lparr>rz_now = 0, rz_held = Map.empty, rz_cache = Map.empty, rz_keys = keys,
     rz_phase = (\<lambda>_. Idle), rz_created = []\<rparr>"

definition enter :: "nat \<Rightarrow> phase \<Rightarrow> conv_run \<Rightarrow> conv_run" where
  "enter n p s = s\<lparr>rz_phase := (rz_phase s)(n := p)\<rparr>"

definition settle :: "nat \<Rightarrow> string \<Rightarrow> int \<Rightarrow> int \<Rightarrow> conv_run \<Rightarrow> conv_run" where
  "settle n key token i s =
     enter n (Leaving token (Some i)) (s\<lparr>rz_cache := store_conversation (rz_now s) key i (rz_cache s)\<rparr>)"

fun may_wait :: "int \<Rightarrow> phase \<Rightarrow> bool" where
  "may_wait t (Locked _) = False"
| "may_wait t (Leaving _ _) = False"
| "may_wait t (Listing _ since) = (t < since + request_timeout)"
| "may_wait t (Reopening _ since) = (t < since + request_timeout)"
| "may_wait t (Creating _ since) = (t < since + request_timeout)"
| "may_wait t _ = True"

text \<open>What a caller does on its own event, by its phase.\<close>

definition act :: "conv_resolver \<Rightarrow> conv_event \<Rightarrow> nat \<Rightarrow> conv_run \<Rightarrow> conv_run option" where
  "act r e n s =
     (let key = rz_keys s ! n; now = rz_now s in
      case (e, rz_phase s n) of
        (Arrive _, Idle) \<Rightarrow>
          Some (enter n (case cached_conversation now key (rz_cache s) of
                  Some i \<Rightarrow> Validating i | None \<Rightarrow> Waiting (now + lock_timeout)) s)
      | (Validated _ answer, Validating i) \<Rightarrow>
          Some (if (case answer of Some cv \<Rightarrow> usable_conversation r cv | None \<Rightarrow> False)
                then enter n (Returned i) (s\<lparr>rz_cache := store_conversation now key i (rz_cache s)\<rparr>)
                else enter n (Waiting (now + lock_timeout)) (s\<lparr>rz_cache := drop_conversation key (rz_cache s)\<rparr>))
      | (Attempt _, Waiting deadline) \<Rightarrow>
          (case try_acquire now key (rz_held s) of
             (Some token, h) \<Rightarrow> Some (enter n (Locked token) (s\<lparr>rz_held := h\<rparr>))
           | (None, h) \<Rightarrow> Some (if now < deadline then s else enter n Failed s))
      | (Cancel _, Waiting deadline) \<Rightarrow> Some (enter n Failed s)
      | (DoubleCheck _, Locked token) \<Rightarrow>
          Some (enter n (case cached_conversation now key (rz_cache s) of
                  Some i \<Rightarrow> Leaving token (Some i) | None \<Rightarrow> Listing token now) s)
      | (Listed _ answer, Listing token since) \<Rightarrow>
          Some (case answer of
             None \<Rightarrow> enter n (Leaving token None) s
           | Some cvs \<Rightarrow>
               (case choose_conversation r cvs of
                  Reuse i \<Rightarrow> settle n key token i s
                | Reopen i \<Rightarrow> enter n (Reopening token now) s
                | CreateNew \<Rightarrow> enter n (Creating token now) s))
      | (Reopened _ answer, Reopening token since) \<Rightarrow>
          Some (case answer of
             None \<Rightarrow> enter n (Leaving token None) s
           | Some cv \<Rightarrow> settle n key token (cv_id cv) s)
      | (Created _ answer, Creating token since) \<Rightarrow>
          Some (case answer of
             None \<Rightarrow> enter n (Leaving token None) s
           | Some cv \<Rightarrow> settle n key token (cv_id cv) (s\<lparr>rz_created := rz_created s @ [(key, cv_id cv)]\<rparr>))
      | (Leave _, Leaving token res) \<Rightarrow>
          Some (enter n (case res of Some i \<Rightarrow> Returned i | None \<Rightarrow> Failed)
                  (s\<lparr>rz_held := release_lock key token (rz_held s)\<rparr>))
      | _ \<Rightarrow> None)"

fun caller_of :: "conv_event \<Rightarrow> nat option" where
  "caller_of (Arrive n) = Some n"
| "caller_of (Validated n _) = Some n"
| "caller_of (Attempt n) = Some n"
| "caller_of (Cancel n) = Some n"
| "caller_of (DoubleCheck n) = Some n"
| "caller_of (Listed n _) = Some n"
| "caller_of (Reopened n _) = Some n"
| "caller_of (Created n _) = Some n"
| "caller_of (Leave n) = Some n"
| "caller_of (Tick _) = None"

definition conv_step :: "conv_resolver \<Rightarrow> conv_event \<Rightarrow> conv_run \<Rightarrow> conv_run option" where
  "conv_step r e s =
     (case caller_of e of
        Some n \<Rightarrow> if n < length (rz_keys s) then act r e n s else None
      | None \<Rightarrow>
          (case e of Tick d \<Rightarrow>
             if 0 \<le> d \<and> list_all (\<lambda>n. may_wait (rz_now s + d) (rz_phase s n)) [0..<length (rz_keys s)]
             then Some (s\<lparr>rz_now := rz_now s + d\<rparr>) else None))"

fun conv_steps :: "conv_resolver \<Rightarrow> conv_event list \<Rightarrow> conv_run \<Rightarrow> conv_run option" where
  "conv_steps r [] s = Some s"
| "conv_steps r (e # es) s = (case conv_step r e s of None \<Rightarrow> None | Some s \<Rightarrow> conv_steps r es s)"

section \<open>The invariant of a run\<close>

definition knows :: "conv_cache \<Rightarrow> string \<Rightarrow> int \<Rightarrow> bool" where
  "knows c k i \<longleftrightarrow> map_option fst (c k) = Some i"

fun phase_ok :: "int \<Rightarrow> lock_table \<Rightarrow> conv_cache \<Rightarrow> string \<Rightarrow> phase \<Rightarrow> bool" where
  "phase_ok now h c k (Validating i) = knows c k i"
| "phase_ok now h c k (Locked t) = (h k = Some t \<and> t = now + lock_ttl)"
| "phase_ok now h c k (Listing t since) =
     (h k = Some t \<and> t = since + lock_ttl \<and> now < since + request_timeout \<and> c k = None)"
| "phase_ok now h c k (Reopening t since) =
     (h k = Some t \<and> since + request_timeout < t \<and> now < since + request_timeout \<and> c k = None)"
| "phase_ok now h c k (Creating t since) =
     (h k = Some t \<and> since + request_timeout < t \<and> now < since + request_timeout \<and> c k = None)"
| "phase_ok now h c k (Leaving t res) =
     (h k = Some t \<and> now < t \<and> (case res of Some i \<Rightarrow> knows c k i | None \<Rightarrow> True))"
| "phase_ok now h c k (Returned i) = knows c k i"
| "phase_ok now h c k _ = True"

fun holds_lock :: "phase \<Rightarrow> bool" where
  "holds_lock (Locked _) = True"
| "holds_lock (Listing _ _) = True"
| "holds_lock (Reopening _ _) = True"
| "holds_lock (Creating _ _) = True"
| "holds_lock (Leaving _ _) = True"
| "holds_lock _ = False"

definition run_ok :: "conv_run \<Rightarrow> bool" where
  "run_ok s \<longleftrightarrow> 0 \<le> rz_now s
     \<and> (\<forall>n < length (rz_keys s). phase_ok (rz_now s) (rz_held s) (rz_cache s) (rz_keys s ! n) (rz_phase s n))
     \<and> (\<forall>n < length (rz_keys s). \<forall>m < length (rz_keys s). holds_lock (rz_phase s n) \<longrightarrow> holds_lock (rz_phase s m)
          \<longrightarrow> rz_keys s ! n = rz_keys s ! m \<longrightarrow> n = m)
     \<and> (\<forall>k i until. rz_cache s k = Some (i, until) \<longrightarrow> conversation_ttl \<le> until)
     \<and> (\<forall>(k, i) \<in> set (rz_created s). knows (rz_cache s) k i)
     \<and> distinct (map fst (rz_created s))"

lemma run_ok_start: "run_ok (start_run keys)"
  by (simp add: run_ok_def start_run_def)

text \<open>The lock's thirty seconds cover the two requests of a critical section.\<close>

lemma holder_in_time:
  assumes "phase_ok now h c k p" "holds_lock p"
  shows "\<exists>t. h k = Some t \<and> now < t"
  using assms by (cases p) (auto simp: lock_ttl_def request_timeout_def)

definition validation_ok :: "conv_resolver \<Rightarrow> conv_event \<Rightarrow> bool" where
  "validation_ok r e = (case e of
     Validated _ (Some cv) \<Rightarrow> usable_conversation r cv
   | Validated _ None \<Rightarrow> False
   | _ \<Rightarrow> True)"

lemma phase_ok_cong: "h k = h' k \<Longrightarrow> c k = c' k \<Longrightarrow> phase_ok now h c k p = phase_ok now h' c' k p"
  by (cases p) (simp_all add: knows_def split: option.splits)

text \<open>Another caller's phase, after a change that respects it.\<close>

lemma phase_ok_kept:
  assumes "phase_ok now h c k p" "holds_lock p \<Longrightarrow> h' k = h k"
    "\<And>i. knows c k i \<Longrightarrow> knows c' k i" "holds_lock p \<Longrightarrow> c k = None \<Longrightarrow> c' k = None"
  shows "phase_ok now h' c' k p"
  using assms by (cases p) (auto split: option.splits)

text \<open>One caller's change: its own phase, the entry of its key in the lock table and in the cache.\<close>

lemma run_ok_update:
  assumes "run_ok s" "n < length (rz_keys s)" "k = rz_keys s ! n"
    and p: "phase_ok (rz_now s) h c k p"
    and locks: "\<And>k'. k' \<noteq> k \<Longrightarrow> h k' = rz_held s k'" "\<And>k'. k' \<noteq> k \<Longrightarrow> c k' = rz_cache s k'"
    and keep: "h k = rz_held s k \<or> (\<forall>m < length (rz_keys s). m \<noteq> n \<longrightarrow> rz_keys s ! m = k \<longrightarrow> \<not> holds_lock (rz_phase s m))"
    and sole: "holds_lock p \<Longrightarrow> holds_lock (rz_phase s n) \<or> (\<forall>m < length (rz_keys s). rz_keys s ! m = k \<longrightarrow> \<not> holds_lock (rz_phase s m))"
    and cache: "\<And>i. knows (rz_cache s) k i \<Longrightarrow> knows c k i"
      "\<And>i u. c k = Some (i, u) \<Longrightarrow> conversation_ttl \<le> u"
      "c k = None \<or> rz_cache s k \<noteq> None \<or> holds_lock (rz_phase s n)"
    and made: "made = rz_created s \<or> (\<exists>i. made = rz_created s @ [(k, i)] \<and> rz_cache s k = None \<and> knows c k i)"
  shows "run_ok (s\<lparr>rz_held := h, rz_cache := c, rz_created := made, rz_phase := (rz_phase s)(n := p)\<rparr>)"
proof -
  note ok = assms(1) [unfolded run_ok_def]
  have phases: "phase_ok (rz_now s) (rz_held s) (rz_cache s) (rz_keys s ! m) (rz_phase s m)" if "m < length (rz_keys s)" for m
    using ok that by blast
  have alone: "a = b" if "a < length (rz_keys s)" "b < length (rz_keys s)" "rz_keys s ! a = rz_keys s ! b"
      "holds_lock (rz_phase s a)" "holds_lock (rz_phase s b)" for a b
    using ok that by blast
  have others: "phase_ok (rz_now s) h c (rz_keys s ! m) (rz_phase s m)" if m: "m < length (rz_keys s)" "m \<noteq> n" for m
  proof (cases "rz_keys s ! m = k")
    case False
    then have "h (rz_keys s ! m) = rz_held s (rz_keys s ! m)" "c (rz_keys s ! m) = rz_cache s (rz_keys s ! m)"
      using locks by blast+
    then show ?thesis using phases [OF m(1)] phase_ok_cong by metis
  next
    case True
    have phase: "phase_ok (rz_now s) (rz_held s) (rz_cache s) k (rz_phase s m)" using phases [OF m(1)] True by simp
    show ?thesis unfolding True
    proof (rule phase_ok_kept [OF phase])
      show "h k = rz_held s k" if "holds_lock (rz_phase s m)" using keep m True that by blast
      show "knows c k i" if "knows (rz_cache s) k i" for i by (rule cache(1) [OF that])
      show "c k = None" if "holds_lock (rz_phase s m)" "rz_cache s k = None"
        using alone [OF m(1) assms(2)] m(2) True assms(3) that cache(3) by auto
    qed
  qed
  have known: "knows (rz_cache s) k' i" if "(k', i) \<in> set (rz_created s)" for k' i
    using ok that by blast
  have new: "k \<notin> fst ` set (rz_created s)" if "rz_cache s k = None"
    using known that by (fastforce simp: knows_def)
  have "knows c k' i" if "(k', i) \<in> set made" for k' i
  proof (cases "(k', i) \<in> set (rz_created s)")
    case True
    then show ?thesis using known [OF True] cache(1) locks(2) [of k'] by (cases "k' = k") (auto simp: knows_def)
  next
    case False
    then show ?thesis using that made by auto
  qed
  moreover have "distinct (map fst made)"
    using made ok new by auto
  moreover have "conversation_ttl \<le> u" if "c k' = Some (i, u)" for k' i u
    using that ok cache(2) locks(2) by (cases "k' = k") auto
  moreover have "a = b" if "a < length (rz_keys s)" "b < length (rz_keys s)" "rz_keys s ! a = rz_keys s ! b"
      "holds_lock (((rz_phase s)(n := p)) a)" "holds_lock (((rz_phase s)(n := p)) b)" for a b
  proof (rule ccontr)
    assume "a \<noteq> b"
    then consider "a = n" "b \<noteq> n" | "b = n" "a \<noteq> n" | "a \<noteq> n" "b \<noteq> n" by blast
    then show False
      using that sole alone [of a b] alone [of n b] alone [of a n] assms(2,3) \<open>a \<noteq> b\<close> by cases auto
  qed
  moreover have "phase_ok (rz_now s) h c (rz_keys s ! m) (((rz_phase s)(n := p)) m)" if "m < length (rz_keys s)" for m
    using others p assms(3) that by simp
  moreover have "0 \<le> rz_now s" using ok by blast
  ultimately show ?thesis
    unfolding run_ok_def by (simp del: fun_upd_apply) blast
qed

lemma fresh_hit:
  assumes "run_ok s" "rz_now s < conversation_ttl"
  shows "cached_conversation (rz_now s) k (rz_cache s) = map_option fst (rz_cache s k)"
proof (cases "rz_cache s k")
  case None
  then show ?thesis by (simp add: cached_conversation_def)
next
  case (Some e)
  moreover obtain i u where e: "e = (i, u)" by fastforce
  moreover have "conversation_ttl \<le> u" using Some e assms(1) unfolding run_ok_def by blast
  ultimately show ?thesis using assms(2) by (simp add: cached_conversation_def)
qed

text \<open>The rule above, for a step that changes the phase and none, one or both of the tables.\<close>



lemma created_last: "s\<lparr>rz_created := made, rz_cache := c\<rparr> = s\<lparr>rz_cache := c, rz_created := made\<rparr>"
  by simp

lemma act_ok:
  assumes ok: "run_ok s" and n: "n < length (rz_keys s)" and now: "rz_now s < conversation_ttl"
    and act: "act r e n s = Some s'" and valid: "validation_ok r e"
  shows "run_ok s'"
proof -
  let ?k = "rz_keys s ! n"
  have p: "phase_ok (rz_now s) (rz_held s) (rz_cache s) ?k (rz_phase s n)"
    using ok n unfolding run_ok_def by blast
  note hit = fresh_hit [OF ok now]
  have age: "conversation_ttl \<le> u" if "rz_cache s k = Some (i, u)" for k i u
    using ok that unfolding run_ok_def by blast
  note update = run_ok_update [OF ok n refl]
  have now0: "0 \<le> rz_now s" using ok unfolding run_ok_def by blast
  have locked_out: "\<not> holds_lock (rz_phase s m)"
    if "m < length (rz_keys s)" "rz_keys s ! m = ?k" "try_acquire (rz_now s) ?k (rz_held s) = (Some t, h)" for m t h
  proof
    assume "holds_lock (rz_phase s m)"
    moreover have "phase_ok (rz_now s) (rz_held s) (rz_cache s) ?k (rz_phase s m)"
      using ok that(1,2) unfolding run_ok_def by metis
    ultimately obtain t where "rz_held s ?k = Some t" "rz_now s < t" using holder_in_time by blast
    then show False using that(3) by (simp add: try_acquire_def)
  qed
  have others: "\<not> holds_lock (rz_phase s m)"
    if "holds_lock (rz_phase s n)" "m < length (rz_keys s)" "m \<noteq> n" "rz_keys s ! m = ?k" for m
    using ok n that unfolding run_ok_def by metis
  have plain: "run_ok (enter n p s)"
    if "phase_ok (rz_now s) (rz_held s) (rz_cache s) ?k p" "holds_lock p \<Longrightarrow> holds_lock (rz_phase s n)" for p
    using update [of "rz_held s" "rz_cache s" p "rz_created s"] that age by (cases "rz_cache s ?k") (auto simp: enter_def)
  have in_time: "rz_now s < token" if "phase_ok (rz_now s) (rz_held s) (rz_cache s) ?k (rz_phase s n)"
      "holds_lock (rz_phase s n)" "rz_held s ?k = Some token" for token
    using holder_in_time [OF that(1,2)] that(3) by auto
  have settled: "run_ok (settle n ?k token i (s\<lparr>rz_created := made\<rparr>))"
    if "rz_held s ?k = Some token" "rz_now s < token" "holds_lock (rz_phase s n)" "rz_cache s ?k = None"
      "made = rz_created s \<or> made = rz_created s @ [(?k, i)]" for token i made
    using update [of "rz_held s" "store_conversation (rz_now s) ?k i (rz_cache s)" "Leaving token (Some i)" made] that now0
    by (elim disjE) (auto simp: created_last settle_def enter_def store_conversation_def knows_def conversation_ttl_def)
  show ?thesis
  proof (cases "rz_phase s n")
    case Idle
    then obtain m where e: "e = Arrive m" using act by (cases e) (simp_all add: act_def Let_def)
    show ?thesis
    proof (cases "rz_cache s ?k")
      case None
      then have "s' = enter n (Waiting (rz_now s + lock_timeout)) s" using act Idle e hit by (simp add: act_def Let_def)
      then show ?thesis using plain [of "Waiting (rz_now s + lock_timeout)"] by simp
    next
      case (Some en)
      then have "s' = enter n (Validating (fst en)) s" using act Idle e hit by (simp add: act_def Let_def)
      then show ?thesis using plain [of "Validating (fst en)"] Some by (simp add: knows_def)
    qed
  next
    case (Validating i)
    then obtain m cv where e: "e = Validated m (Some cv)" "usable_conversation r cv"
      using act valid by (cases e) (auto simp: act_def Let_def validation_ok_def split: option.splits)
    then have "s' = enter n (Returned i) (s\<lparr>rz_cache := store_conversation (rz_now s) ?k i (rz_cache s)\<rparr>)"
      using act Validating by (simp add: act_def Let_def)
    moreover obtain u where "rz_cache s ?k = Some (i, u)" using p Validating by (auto simp: knows_def)
    ultimately show ?thesis
      using update [of "rz_held s" "store_conversation (rz_now s) ?k i (rz_cache s)" "Returned i" "rz_created s"] now0
      by (simp add: store_conversation_def knows_def enter_def conversation_ttl_def)
  next
    case (Waiting deadline)
    then consider (again) m where "e = Attempt m" | (give_up) m where "e = Cancel m"
      using act by (cases e) (simp_all add: act_def Let_def)
    then show ?thesis
    proof cases
      case give_up
      then have "s' = enter n Failed s" using act Waiting by (simp add: act_def Let_def)
      then show ?thesis using plain [of Failed] by simp
    next
      case again
      show ?thesis
      proof (cases "try_acquire (rz_now s) ?k (rz_held s)")
        case (Pair a h)
        show ?thesis
        proof (cases a)
          case None
          then have "s' = s \<or> s' = enter n Failed s" using act Waiting again Pair by (auto simp: act_def Let_def split: if_splits)
          then show ?thesis using plain [of Failed] ok by auto
        next
          case (Some token)
          then have s': "s' = enter n (Locked token) (s\<lparr>rz_held := h\<rparr>)" using act Waiting again Pair by (simp add: act_def Let_def)
          have "token = rz_now s + lock_ttl" "h = (rz_held s)(?k \<mapsto> token)"
            using Pair Some by (auto simp: try_acquire_def split: option.splits if_splits)
          then show ?thesis
            using update [of h "rz_cache s" "Locked token" "rz_created s"] locked_out Pair Some age s'
            by (cases "rz_cache s ?k") (auto simp: enter_def)
        qed
      qed
    qed
  next
    case (Locked token)
    then obtain m where e: "e = DoubleCheck m" using act by (cases e) (simp_all add: act_def Let_def)
    show ?thesis
    proof (cases "rz_cache s ?k")
      case None
      then have "s' = enter n (Listing token (rz_now s)) s" using act Locked e hit by (simp add: act_def Let_def)
      then show ?thesis using plain [of "Listing token (rz_now s)"] p Locked None by (simp add: request_timeout_def)
    next
      case (Some en)
      then have "s' = enter n (Leaving token (Some (fst en))) s" using act Locked e hit by (simp add: act_def Let_def)
      then show ?thesis using plain [of "Leaving token (Some (fst en))"] p Locked Some by (simp add: knows_def lock_ttl_def)
    qed
  next
    case (Listing token since)
    then obtain m a where e: "e = Listed m a" using act by (cases e) (simp_all add: act_def Let_def)
    show ?thesis
    proof (cases a)
      case None
      then have "s' = enter n (Leaving token None) s" using act Listing e by (simp add: act_def Let_def)
      then show ?thesis using plain [of "Leaving token None"] in_time Listing p by simp
    next
      case (Some cvs)
      show ?thesis
      proof (cases "choose_conversation r cvs")
        case (Reuse i)
        then have "s' = settle n ?k token i s" using act Listing e Some by (simp add: act_def Let_def)
        then show ?thesis using settled [of token "rz_created s" i] in_time Listing p by simp
      next
        case (Reopen i)
        then have "s' = enter n (Reopening token (rz_now s)) s" using act Listing e Some by (simp add: act_def Let_def)
        then show ?thesis using plain [of "Reopening token (rz_now s)"] Listing p by (simp add: lock_ttl_def request_timeout_def)
      next
        case CreateNew
        then have "s' = enter n (Creating token (rz_now s)) s" using act Listing e Some by (simp add: act_def Let_def)
        then show ?thesis using plain [of "Creating token (rz_now s)"] Listing p by (simp add: lock_ttl_def request_timeout_def)
      qed
    qed
  next
    case (Reopening token since)
    then obtain m a where e: "e = Reopened m a" using act by (cases e) (simp_all add: act_def Let_def)
    then have "s' = (case a of None \<Rightarrow> enter n (Leaving token None) s | Some cv \<Rightarrow> settle n ?k token (cv_id cv) s)"
      using act Reopening by (simp add: act_def Let_def)
    then show ?thesis
      using plain [of "Leaving token None"] settled [of token "rz_created s" _] in_time Reopening p by (cases a) simp_all
  next
    case (Creating token since)
    then obtain m a where e: "e = Created m a" using act by (cases e) (simp_all add: act_def Let_def)
    show ?thesis
    proof (cases a)
      case None
      then have "s' = enter n (Leaving token None) s" using act Creating e by (simp add: act_def Let_def)
      then show ?thesis using plain [of "Leaving token None"] in_time Creating p by simp
    next
      case (Some cv)
      then have "s' = settle n ?k token (cv_id cv) (s\<lparr>rz_created := rz_created s @ [(?k, cv_id cv)]\<rparr>)"
        using act Creating e by (simp add: act_def Let_def)
      then show ?thesis using settled [of token "rz_created s @ [(?k, cv_id cv)]" "cv_id cv"] in_time Creating p by simp
    qed
  next
    case (Leaving token res)
    then obtain m where e: "e = Leave m" using act by (cases e) (simp_all add: act_def Let_def)
    have "phase_ok (rz_now s) h (rz_cache s) ?k (case res of Some i \<Rightarrow> Returned i | None \<Rightarrow> Failed)" for h
      using p Leaving by (cases res) simp_all
    moreover have "s' = enter n (case res of Some i \<Rightarrow> Returned i | None \<Rightarrow> Failed) (s\<lparr>rz_held := release_lock ?k token (rz_held s)\<rparr>)"
      using act Leaving e by (simp add: act_def Let_def)
    moreover have "\<not> holds_lock (case res of Some i \<Rightarrow> Returned i | None \<Rightarrow> Failed)" by (cases res) simp_all
    ultimately show ?thesis
      using update [of "release_lock ?k token (rz_held s)" "rz_cache s" "case res of Some i \<Rightarrow> Returned i | None \<Rightarrow> Failed" "rz_created s"]
        age Leaving others by (cases "rz_cache s ?k") (auto simp: enter_def release_lock_def)
  qed (use act in \<open>cases e; simp add: act_def Let_def\<close>)+
qed

lemma phase_ok_later:
  assumes "phase_ok now h c k p" "may_wait later p"
  shows "phase_ok later h c k p"
  using assms by (cases p) auto

lemma tick_ok: "run_ok s \<Longrightarrow> conv_step r (Tick d) s = Some s' \<Longrightarrow> run_ok s' \<and> rz_now s \<le> rz_now s' \<and> rz_keys s' = rz_keys s"
  unfolding run_ok_def by (auto simp: conv_step_def list_all_iff phase_ok_later split: if_splits)

lemma act_keeps: "act r e n s = Some s' \<Longrightarrow> rz_now s' = rz_now s \<and> rz_keys s' = rz_keys s"
  by (auto simp: act_def Let_def enter_def settle_def split: conv_event.splits phase.splits option.splits choice.splits prod.splits if_splits)

lemma conv_step_ok:
  assumes "run_ok s" "conv_step r e s = Some s'" "rz_now s < conversation_ttl" "validation_ok r e"
  shows "run_ok s' \<and> rz_now s \<le> rz_now s' \<and> rz_keys s' = rz_keys s"
proof (cases "caller_of e")
  case None
  then obtain d where "e = Tick d" by (cases e) auto
  then show ?thesis using tick_ok assms by blast
next
  case (Some n)
  then have "n < length (rz_keys s)" "act r e n s = Some s'" using assms(2) by (auto simp: conv_step_def split: if_splits)
  then show ?thesis using act_ok [OF assms(1) _ assms(3) _ assms(4)] act_keeps by fastforce
qed

lemma conv_steps_mono: "conv_steps r es s = Some s' \<Longrightarrow> rz_now s \<le> rz_now s'"
proof (induction es arbitrary: s)
  case (Cons e es)
  then obtain s1 where s1: "conv_step r e s = Some s1" "conv_steps r es s1 = Some s'" by (auto split: option.splits)
  have "rz_now s \<le> rz_now s1"
    using s1(1) act_keeps by (cases e) (fastforce simp: conv_step_def split: if_splits)+
  then show ?case using Cons.IH [OF s1(2)] by simp
qed simp

lemma conv_steps_ok:
  assumes "run_ok s" "conv_steps r es s = Some s'" "rz_now s' < conversation_ttl" "list_all (validation_ok r) es"
  shows "run_ok s'"
  using assms
proof (induction es arbitrary: s)
  case (Cons e es)
  then obtain s1 where s1: "conv_step r e s = Some s1" "conv_steps r es s1 = Some s'" by (auto split: option.splits)
  have "rz_now s < conversation_ttl"
    using conv_steps_mono [of r "e # es" s s'] Cons.prems by simp
  then show ?case using Cons.IH [OF _ s1(2)] conv_step_ok [OF Cons.prems(1) s1(1)] Cons.prems by simp
qed simp


definition burst :: "conv_event list" where
  "burst = [Arrive 0, Arrive 1, Attempt 0, Attempt 1, DoubleCheck 0, Tick 100, Listed 0 (Some []),
     Created 0 (Some \<lparr>cv_id = 8, cv_status = ''open'', cv_inbox = 42\<rparr>), Leave 0, Tick 300, Attempt 1, DoubleCheck 1, Leave 1]"

definition inbox_42 :: conv_resolver where
  "inbox_42 = \<lparr>vz_client = new_client ''https://cw.example'' ''secret'' ''1'', vz_inbox = 42, vz_pending = False, vz_reopen = True\<rparr>"


end
