(* ===== verification/ChatwootStore.thy ===== *)
theory ChatwootStore
  imports StoreInstances "HOL-Library.Product_Lexorder"
begin

text \<open>
  The connector's tables, \<^verbatim>\<open>internal/storage/postgres/chatwoot.go\<close>, and the validation of a configuration,
  \<^verbatim>\<open>internal/chatwoot/config/config.go\<close>. The tables stand beside the others, whose instances they refer to with
  cascading foreign keys.
\<close>

record chatwoot_config =
  cg_instance :: uuid
  cg_enabled :: bool
  cg_url :: string
  cg_account :: string
  cg_token :: string
  cg_name_inbox :: string
  cg_sign_msg :: bool
  cg_sign_delimiter :: string
  cg_reopen :: bool
  cg_pending :: bool
  cg_merge_brazil :: bool
  cg_import_contacts :: bool
  cg_import_messages :: bool
  cg_days_limit :: int
  cg_auto_create :: bool
  cg_organization :: string
  cg_logo :: string
  cg_ignore_jids :: "string list"
  cg_created :: instant
  cg_updated :: instant

record correlation =
  co_instance :: uuid
  co_wa_key :: string
  co_message :: int
  co_conversation :: int
  co_inbox :: int
  co_contact_source :: string
  co_is_read :: bool
  co_created :: instant

record cw_db =
  cd_base :: db
  cd_configs :: "chatwoot_config list"
  cd_correlations :: "correlation list"

definition cw_run :: "(cw_db \<Rightarrow> 'a result \<times> cw_db) \<Rightarrow> cw_db \<Rightarrow> 'a result \<times> cw_db" where
  "cw_run stmt d =
     (case pg_stmt (cd_base d) of (ok, b) \<Rightarrow>
        let d = d\<lparr>cd_base := b\<rparr> in if ok then stmt d else (Inl (SDriver []), d))"

definition int32 :: "int \<Rightarrow> bool" where
  "int32 i \<longleftrightarrow> - (2 ^ 31) \<le> i \<and> i < 2 ^ 31"

definition has_instance :: "cw_db \<Rightarrow> uuid \<Rightarrow> bool" where
  "has_instance d i \<longleftrightarrow> i \<in> ir_id ` set (t_instances (cd_base d))"

section \<open>Configurations\<close>

definition configs_get :: "uuid \<Rightarrow> cw_db \<Rightarrow> chatwoot_config result \<times> cw_db" where
  "configs_get i = cw_run (\<lambda>d.
     (case find (\<lambda>r. cg_instance r = i) (cd_configs d) of None \<Rightarrow> Inl SNotFound | Some r \<Rightarrow> Inr r, d))"

text \<open>
  The upsert keeps the creation time. A limit that does not fit its column fails, and so does a connection that
  does not exist.
\<close>

definition configs_put :: "chatwoot_config \<Rightarrow> cw_db \<Rightarrow> chatwoot_config result \<times> cw_db" where
  "configs_put cfg = cw_run (\<lambda>d.
     let now = pg_now (cd_base d) in
     if \<not> int32 (cg_days_limit cfg) then (Inl (SDriver []), d)
     else case find (\<lambda>r. cg_instance r = cg_instance cfg) (cd_configs d) of
       Some old \<Rightarrow>
         (let row = cfg\<lparr>cg_created := cg_created old, cg_updated := now\<rparr> in
          (Inr row, d\<lparr>cd_configs := map (\<lambda>r. if cg_instance r = cg_instance cfg then row else r) (cd_configs d)\<rparr>))
     | None \<Rightarrow>
         if \<not> has_instance d (cg_instance cfg) then (Inl (SDriver ''23503''), d)
         else (let row = cfg\<lparr>cg_created := now, cg_updated := now\<rparr> in
               (Inr row, d\<lparr>cd_configs := cd_configs d @ [row]\<rparr>)))"

definition configs_delete :: "uuid \<Rightarrow> cw_db \<Rightarrow> unit result \<times> cw_db" where
  "configs_delete i = cw_run (\<lambda>d.
     if i \<notin> cg_instance ` set (cd_configs d) then (Inl SNotFound, d)
     else (Inr (), d\<lparr>cd_configs := filter (\<lambda>r. cg_instance r \<noteq> i) (cd_configs d)\<rparr>))"

section \<open>Correlations\<close>

definition same_key :: "correlation \<Rightarrow> correlation \<Rightarrow> bool" where
  "same_key a b \<longleftrightarrow> co_instance a = co_instance b \<and> co_wa_key a = co_wa_key b"

definition correlations_put :: "correlation \<Rightarrow> cw_db \<Rightarrow> correlation result \<times> cw_db" where
  "correlations_put m = cw_run (\<lambda>d.
     case find (same_key m) (cd_correlations d) of
       Some old \<Rightarrow>
         (let row = m\<lparr>co_created := co_created old\<rparr> in
          (Inr row, d\<lparr>cd_correlations := map (\<lambda>r. if same_key m r then row else r) (cd_correlations d)\<rparr>))
     | None \<Rightarrow>
         if \<not> has_instance d (co_instance m) then (Inl (SDriver ''23503''), d)
         else (let row = m\<lparr>co_created := pg_now (cd_base d)\<rparr> in
               (Inr row, d\<lparr>cd_correlations := cd_correlations d @ [row]\<rparr>)))"

definition correlations_by_wa_key :: "uuid \<Rightarrow> string \<Rightarrow> cw_db \<Rightarrow> correlation result \<times> cw_db" where
  "correlations_by_wa_key i key = cw_run (\<lambda>d.
     (case find (\<lambda>r. co_instance r = i \<and> co_wa_key r = key) (cd_correlations d) of
        None \<Rightarrow> Inl SNotFound | Some r \<Rightarrow> Inr r, d))"

definition correlations_delete_by_instance :: "uuid \<Rightarrow> cw_db \<Rightarrow> int result \<times> cw_db" where
  "correlations_delete_by_instance i = cw_run (\<lambda>d.
     (Inr (int (length (filter (\<lambda>r. co_instance r = i) (cd_correlations d)))),
      d\<lparr>cd_correlations := filter (\<lambda>r. co_instance r \<noteq> i) (cd_correlations d)\<rparr>))"

text \<open>\<^verbatim>\<open>LIMIT 1\<close> without an order: the first row in the order of the table.\<close>

definition correlations_by_chatwoot :: "uuid \<Rightarrow> int \<Rightarrow> cw_db \<Rightarrow> correlation result \<times> cw_db" where
  "correlations_by_chatwoot i m = cw_run (\<lambda>d.
     (case find (\<lambda>r. co_instance r = i \<and> co_message r = m) (cd_correlations d) of
        None \<Rightarrow> Inl SNotFound | Some r \<Rightarrow> Inr r, d))"

definition latest_of :: "uuid \<Rightarrow> int \<Rightarrow> correlation list \<Rightarrow> correlation list" where
  "latest_of i conversation rows =
     rev (sort_key (\<lambda>r. (co_created r, co_message r)) (filter (\<lambda>r. co_instance r = i \<and> co_conversation r = conversation) rows))"

definition correlations_latest :: "uuid \<Rightarrow> int \<Rightarrow> cw_db \<Rightarrow> correlation result \<times> cw_db" where
  "correlations_latest i conversation = cw_run (\<lambda>d.
     (case latest_of i conversation (cd_correlations d) of [] \<Rightarrow> Inl SNotFound | r # _ \<Rightarrow> Inr r, d))"

text \<open>The cascade of the foreign keys, when a connection is deleted.\<close>

definition cw_instances_delete :: "uuid \<Rightarrow> cw_db \<Rightarrow> unit result \<times> cw_db" where
  "cw_instances_delete i d =
     (case instances_delete i (cd_base d) of
        (Inl e, b) \<Rightarrow> (Inl e, d\<lparr>cd_base := b\<rparr>)
      | (Inr u, b) \<Rightarrow> (Inr u, d\<lparr>cd_base := b,
            cd_configs := filter (\<lambda>r. cg_instance r \<noteq> i) (cd_configs d),
            cd_correlations := filter (\<lambda>r. co_instance r \<noteq> i) (cd_correlations d)\<rparr>))"

section \<open>Validation of a configuration\<close>

record chatwoot_url =
  cu_scheme :: string
  cu_host :: string

text \<open>The field that rejects the write, and why.\<close>

definition validate_chatwoot :: "(string \<Rightarrow> chatwoot_url option) \<Rightarrow> chatwoot_config \<Rightarrow> (string \<times> string) option" where
  "validate_chatwoot parse cfg =
     (if \<not> cg_enabled cfg then None
      else (let raw = trim_space (cg_url cfg) in
        if raw = [] then Some (''url'', ''url is required'')
        else case parse raw of
          None \<Rightarrow> Some (''url'', ''malformed url'')
        | Some u \<Rightarrow>
            if to_lower (cu_scheme u) \<noteq> ''http'' \<and> to_lower (cu_scheme u) \<noteq> ''https''
            then Some (''url'', ''scheme must be http or https'')
            else if cu_host u = [] then Some (''url'', ''url has no host'')
            else if trim_space (cg_account cfg) = [] then Some (''account_id'', ''account_id is required'')
            else if trim_space (cg_token cfg) = [] then Some (''token'', ''token is required'')
            else None))"

definition default_inbox :: "string \<Rightarrow> string" where
  "default_inbox name = name"

definition default_delimiter :: string where
  "default_delimiter = [CHR 0x0A]"

section \<open>What the tables keep\<close>

definition correlation_key :: "correlation \<Rightarrow> uuid \<times> string" where
  "correlation_key r = (co_instance r, co_wa_key r)"

definition chatwoot_rows_ok :: "cw_db \<Rightarrow> bool" where
  "chatwoot_rows_ok d \<longleftrightarrow> distinct (map cg_instance (cd_configs d)) \<and> distinct (map correlation_key (cd_correlations d))
     \<and> cg_instance ` set (cd_configs d) \<union> co_instance ` set (cd_correlations d) \<subseteq> ir_id ` set (t_instances (cd_base d))"

datatype cw_stmt =
    PutConfig chatwoot_config
  | DeleteConfig uuid
  | PutCorrelation correlation
  | DeleteCorrelations uuid
  | DeleteInstance uuid

fun cw_exec :: "cw_stmt \<Rightarrow> cw_db \<Rightarrow> cw_db" where
  "cw_exec (PutConfig c) d = snd (configs_put c d)"
| "cw_exec (DeleteConfig i) d = snd (configs_delete i d)"
| "cw_exec (PutCorrelation m) d = snd (correlations_put m d)"
| "cw_exec (DeleteCorrelations i) d = snd (correlations_delete_by_instance i d)"
| "cw_exec (DeleteInstance i) d = snd (cw_instances_delete i d)"

lemma pg_stmt_tables: "pg_stmt b = (ok, b') \<Longrightarrow> same_tables b b'"
  by (auto simp: pg_stmt_def split: list.splits)

lemma cw_run_cases:
  obtains (ok) b where "cw_run f d = f (d\<lparr>cd_base := b\<rparr>)" "same_tables (cd_base d) b"
        | (failed) b where "cw_run f d = (Inl (SDriver []), d\<lparr>cd_base := b\<rparr>)" "same_tables (cd_base d) b"
proof (cases "pg_stmt (cd_base d)")
  case (Pair fine b)
  then have "same_tables (cd_base d) b" by (rule pg_stmt_tables)
  then show thesis using Pair ok [of b] failed [of b] by (cases fine) (simp_all add: cw_run_def)
qed

lemma rows_ok_base: "same_tables (cd_base d) b \<Longrightarrow> chatwoot_rows_ok (d\<lparr>cd_base := b\<rparr>) = chatwoot_rows_ok d"
  by (simp add: chatwoot_rows_ok_def same_tables_iff)

lemma cw_run_ok:
  assumes "chatwoot_rows_ok d" "\<And>e. chatwoot_rows_ok e \<Longrightarrow> chatwoot_rows_ok (snd (f e))"
  shows "chatwoot_rows_ok (snd (cw_run f d))"
  using assms by (cases rule: cw_run_cases [of f d]) (auto simp: rows_ok_base)

lemma map_row_keeps_keys:
  assumes "\<And>r. P r \<Longrightarrow> key r = key row"
  shows "map key (map (\<lambda>r. if P r then row else r) rows) = map key rows"
  using assms by (induction rows) auto

lemma rows_ok_same_configs:
  assumes "chatwoot_rows_ok e" "map cg_instance rows = map cg_instance (cd_configs e)"
  shows "chatwoot_rows_ok (e\<lparr>cd_configs := rows\<rparr>)"
proof -
  have "cg_instance ` set rows = cg_instance ` set (cd_configs e)" using assms(2) by (metis list.set_map)
  then show ?thesis using assms by (simp add: chatwoot_rows_ok_def)
qed

lemma rows_ok_new_config:
  "chatwoot_rows_ok e \<Longrightarrow> cg_instance row \<notin> cg_instance ` set (cd_configs e) \<Longrightarrow> has_instance e (cg_instance row)
     \<Longrightarrow> chatwoot_rows_ok (e\<lparr>cd_configs := cd_configs e @ [row]\<rparr>)"
  by (auto simp: chatwoot_rows_ok_def has_instance_def)

lemma rows_ok_same_correlations:
  assumes "chatwoot_rows_ok e" "map correlation_key rows = map correlation_key (cd_correlations e)"
  shows "chatwoot_rows_ok (e\<lparr>cd_correlations := rows\<rparr>)"
proof -
  have "(fst \<circ> correlation_key) ` set rows = (fst \<circ> correlation_key) ` set (cd_correlations e)"
    using assms(2) by (metis list.set_map image_comp)
  then have "co_instance ` set rows = co_instance ` set (cd_correlations e)"
    by (simp add: correlation_key_def comp_def)
  then show ?thesis using assms by (simp add: chatwoot_rows_ok_def)
qed

lemma rows_ok_new_correlation:
  "chatwoot_rows_ok e \<Longrightarrow> correlation_key row \<notin> correlation_key ` set (cd_correlations e) \<Longrightarrow> has_instance e (co_instance row)
     \<Longrightarrow> chatwoot_rows_ok (e\<lparr>cd_correlations := cd_correlations e @ [row]\<rparr>)"
  by (auto simp: chatwoot_rows_ok_def has_instance_def)

lemma configs_put_ok: "chatwoot_rows_ok d \<Longrightarrow> chatwoot_rows_ok (snd (configs_put c d))"
  unfolding configs_put_def
proof (erule cw_run_ok)
  fix e assume e: "chatwoot_rows_ok e"
  let ?find = "find (\<lambda>r. cg_instance r = cg_instance c) (cd_configs e)"
  have kept: "chatwoot_rows_ok (e\<lparr>cd_configs := map (\<lambda>r. if cg_instance r = cg_instance c then row else r) (cd_configs e)\<rparr>)"
    if "cg_instance row = cg_instance c" for row
    using e that by (intro rows_ok_same_configs map_row_keeps_keys) simp_all
  have new: "chatwoot_rows_ok (e\<lparr>cd_configs := cd_configs e @ [row]\<rparr>)"
    if "cg_instance row = cg_instance c" "?find = None" "has_instance e (cg_instance c)" for row
    using e that by (intro rows_ok_new_config) (auto simp: find_None_iff)
  show "chatwoot_rows_ok (snd (let now = pg_now (cd_base e) in
     if \<not> int32 (cg_days_limit c) then (Inl (SDriver []), e)
     else case ?find of
       Some old \<Rightarrow>
         (let row = c\<lparr>cg_created := cg_created old, cg_updated := now\<rparr> in
          (Inr row, e\<lparr>cd_configs := map (\<lambda>r. if cg_instance r = cg_instance c then row else r) (cd_configs e)\<rparr>))
     | None \<Rightarrow>
         if \<not> has_instance e (cg_instance c) then (Inl (SDriver ''23503''), e)
         else (let row = c\<lparr>cg_created := now, cg_updated := now\<rparr> in
               (Inr row, e\<lparr>cd_configs := cd_configs e @ [row]\<rparr>))))"
    using e kept new by (cases ?find) (simp_all add: Let_def)
qed

lemma correlations_put_ok: "chatwoot_rows_ok d \<Longrightarrow> chatwoot_rows_ok (snd (correlations_put m d))"
  unfolding correlations_put_def
proof (erule cw_run_ok)
  fix e assume e: "chatwoot_rows_ok e"
  let ?find = "find (same_key m) (cd_correlations e)"
  have kept: "chatwoot_rows_ok (e\<lparr>cd_correlations := map (\<lambda>r. if same_key m r then row else r) (cd_correlations e)\<rparr>)"
    if "correlation_key row = correlation_key m" for row
    using e that by (intro rows_ok_same_correlations map_row_keeps_keys) (simp_all add: same_key_def correlation_key_def)
  have new: "chatwoot_rows_ok (e\<lparr>cd_correlations := cd_correlations e @ [row]\<rparr>)"
    if "correlation_key row = correlation_key m" "co_instance row = co_instance m" "?find = None" "has_instance e (co_instance m)" for row
    using e that by (intro rows_ok_new_correlation) (auto simp: find_None_iff same_key_def correlation_key_def)
  show "chatwoot_rows_ok (snd (case ?find of
       Some old \<Rightarrow>
         (let row = m\<lparr>co_created := co_created old\<rparr> in
          (Inr row, e\<lparr>cd_correlations := map (\<lambda>r. if same_key m r then row else r) (cd_correlations e)\<rparr>))
     | None \<Rightarrow>
         if \<not> has_instance e (co_instance m) then (Inl (SDriver ''23503''), e)
         else (let row = m\<lparr>co_created := pg_now (cd_base e)\<rparr> in
               (Inr row, e\<lparr>cd_correlations := cd_correlations e @ [row]\<rparr>))))"
    using e kept [of "m\<lparr>co_created := _\<rparr>"] new [of "m\<lparr>co_created := _\<rparr>"]
    by (cases ?find) (simp_all add: Let_def correlation_key_def)
qed

lemma configs_delete_ok: "chatwoot_rows_ok d \<Longrightarrow> chatwoot_rows_ok (snd (configs_delete i d))"
  unfolding configs_delete_def
  by (erule cw_run_ok) (auto simp: chatwoot_rows_ok_def distinct_map_filter)

lemma correlations_delete_ok: "chatwoot_rows_ok d \<Longrightarrow> chatwoot_rows_ok (snd (correlations_delete_by_instance i d))"
  unfolding correlations_delete_by_instance_def
  by (erule cw_run_ok) (auto simp: chatwoot_rows_ok_def distinct_map_filter)

lemma cw_instances_delete_ok:
  assumes "chatwoot_rows_ok d"
  shows "chatwoot_rows_ok (snd (cw_instances_delete i d))"
proof (cases "instances_delete i (cd_base d)")
  case (Pair r b)
  show ?thesis
  proof (cases r)
    case (Inl e)
    then have "same_tables (cd_base d) b" using Pair instances_delete_err by blast
    then show ?thesis using assms Pair Inl by (simp add: cw_instances_delete_def rows_ok_base)
  next
    case (Inr u)
    then obtain e where e: "same_tables (cd_base d) e" "b = cascade_instance i e"
      using Pair by (auto elim: instances_delete_ok)
    then show ?thesis
      using assms Pair Inr
      by (auto simp: cw_instances_delete_def chatwoot_rows_ok_def distinct_map_filter cascade_instance_def same_tables_iff)
  qed
qed

text \<open>
  C31: whatever statements run, and whichever of them the server fails, a connection has at most one Chatwoot
  configuration, a WhatsApp message at most one correlation, and no row outlives its connection.
\<close>

theorem chatwoot_rows_stay_consistent:
  assumes "chatwoot_rows_ok d"
  shows "chatwoot_rows_ok (fold cw_exec stmts d)"
  using assms
proof (induction stmts arbitrary: d)
  case (Cons s stmts)
  have "chatwoot_rows_ok (cw_exec s d)"
    using Cons.prems by (cases s) (simp_all add: configs_put_ok configs_delete_ok correlations_put_ok
        correlations_delete_ok cw_instances_delete_ok)
  then show ?case using Cons.IH by simp
qed simp

definition no_statement_fails :: "cw_db \<Rightarrow> bool" where
  "no_statement_fails d \<longleftrightarrow> pg_script (cd_base d) = []"

text \<open>What a put stored is what the lookups by its keys give, with the instant of the first put.\<close>

lemma correlation_reads_back:
  assumes "no_statement_fails d" "correlations_put m d = (Inr row, d')"
  shows "correlations_by_wa_key (co_instance m) (co_wa_key m) d' = (Inr row, d')"
proof -
  have s: "pg_script (cd_base d) = []" using assms(1) by (simp add: no_statement_fails_def)
  then have run: "cw_run f d = f d" for f :: "cw_db \<Rightarrow> 'a result \<times> cw_db" by (simp add: cw_run_def pg_stmt_def)
  have key: "(\<lambda>r. co_instance r = co_instance m \<and> co_wa_key r = co_wa_key m) = same_key m"
    by (auto simp: same_key_def fun_eq_iff)
  have found: "find (same_key m) (map (\<lambda>r. if same_key m r then row else r) rows) = Some row"
    if "same_key m row" "find (same_key m) rows \<noteq> None" for row rows
    using that by (induction rows) auto
  have appended: "find (same_key m) (rows @ [row]) = Some row" if "same_key m row" "find (same_key m) rows = None" for row rows
    using that by (induction rows) (auto split: if_splits)
  have self: "same_key m (m\<lparr>co_created := t\<rparr>)" for t by (simp add: same_key_def)
  have "find (same_key m) (cd_correlations d') = Some row \<and> pg_script (cd_base d') = []"
    using assms(2) s found [OF self] appended [OF self] unfolding correlations_put_def run
    by (cases "find (same_key m) (cd_correlations d)") (auto simp: Let_def split: if_splits)
  then show ?thesis by (simp add: correlations_by_wa_key_def cw_run_def pg_stmt_def key)
qed

lemma latest_is_newest:
  assumes "latest_of i conversation rows = r # rest" "x \<in> set rows" "co_instance x = i" "co_conversation x = conversation"
  shows "(co_created x, co_message x) \<le> (co_created r, co_message r)"
proof -
  let ?f = "\<lambda>r. (co_created r, co_message r)"
  let ?mine = "filter (\<lambda>r. co_instance r = i \<and> co_conversation r = conversation) rows"
  have s: "sort_key ?f ?mine = rev rest @ [r]" using assms(1) unfolding latest_of_def by (metis rev_rev_ident rev.simps(2))
  have "sorted (map ?f (sort_key ?f ?mine))" by simp
  moreover have "x \<in> set (sort_key ?f ?mine)" using assms(2-4) by simp
  ultimately show ?thesis unfolding s by (auto simp: sorted_append)
qed

definition sample_config :: chatwoot_config where
  "sample_config =
     \<lparr>cg_instance = 9, cg_enabled = True, cg_url = ''https://cw.example'', cg_account = ''1'', cg_token = ''secret'',
      cg_name_inbox = ''Loja'', cg_sign_msg = True, cg_sign_delimiter = [], cg_reopen = True, cg_pending = False,
      cg_merge_brazil = False, cg_import_contacts = False, cg_import_messages = False, cg_days_limit = 0,
      cg_auto_create = True, cg_organization = [], cg_logo = [], cg_ignore_jids = [], cg_created = 0, cg_updated = 0\<rparr>"

definition sample_correlation :: correlation where
  "sample_correlation =
     \<lparr>co_instance = 9, co_wa_key = ''3EB0'', co_message = 70, co_conversation = 8, co_inbox = 42,
      co_contact_source = ''5511987654321@s.whatsapp.net'', co_is_read = False, co_created = 0\<rparr>"

definition sample_cw_db :: cw_db where
  "sample_cw_db = \<lparr>cd_base = sample_db, cd_configs = [], cd_correlations = []\<rparr>"

theorem chatwoot_rows_stay_consistent_witness:
  "chatwoot_rows_ok (fold cw_exec [PutConfig sample_config, PutCorrelation sample_correlation, PutConfig sample_config, DeleteInstance 9] sample_cw_db)"
  by (rule chatwoot_rows_stay_consistent) (simp add: chatwoot_rows_ok_def sample_cw_db_def)

end
