(* ===== verification/ChatwootMapper.thy ===== *)
theory ChatwootMapper
  imports Ascii
begin

text \<open>
  The conversions between WhatsApp and Chatwoot texts, \<^verbatim>\<open>internal/chatwoot/mapper/content.go\<close>. Its regular
  expressions all have the shape of a delimiter, a run of characters of a class and the delimiter again,
  where the class excludes the delimiter's character: \<open>match_span\<close> is the match of such an expression at the
  start of a string and \<open>split_spans\<close> the leftmost matches, one after the other. The characters the classes
  exclude are ASCII, so matching bytes agrees with matching runes.
\<close>

section \<open>Spans\<close>

definition match_span :: "string \<Rightarrow> (char \<Rightarrow> bool) \<Rightarrow> string \<Rightarrow> (string \<times> string) option" where
  "match_span d ok s =
     (case strip_prefix d s of
        None \<Rightarrow> None
      | Some r \<Rightarrow>
          (let inner = takeWhile ok r in
           if inner = [] then None
           else map_option (Pair inner) (strip_prefix d (dropWhile ok r))))"

lemma match_span_Some: "match_span d ok s = Some (inner, r) \<Longrightarrow> s = d @ inner @ d @ r \<and> inner \<noteq> []"
proof -
  assume "match_span d ok s = Some (inner, r)"
  then obtain t where t: "s = d @ t" "inner = takeWhile ok t" "inner \<noteq> []" "dropWhile ok t = d @ r"
    by (auto simp: match_span_def Let_def split: option.splits if_splits)
  have "t = takeWhile ok t @ dropWhile ok t" by simp
  then show ?thesis using t by simp
qed

datatype piece = Ch char | Span string

function split_spans :: "string \<Rightarrow> (char \<Rightarrow> bool) \<Rightarrow> string \<Rightarrow> piece list" where
  "split_spans d ok [] = []"
| "split_spans d ok (c # cs) =
     (case match_span d ok (c # cs) of
        Some (inner, rest) \<Rightarrow> Span inner # split_spans d ok rest
      | None \<Rightarrow> Ch c # split_spans d ok cs)"
  by pat_completeness auto
termination
  by (relation "measure (\<lambda>(_, _, s). length s)") (auto dest!: match_span_Some arg_cong [of "_ # _" _ length])

text \<open>\<^verbatim>\<open>ReplaceAllString\<close> with the group wrapped, and \<open>protect\<close>, which numbers the matches.\<close>

definition replace_spans :: "string \<Rightarrow> (char \<Rightarrow> bool) \<Rightarrow> (string \<Rightarrow> string) \<Rightarrow> string \<Rightarrow> string" where
  "replace_spans d ok f s = concat (map (case_piece (\<lambda>c. [c]) f) (split_spans d ok s))"

definition placeholder :: "string \<Rightarrow> nat \<Rightarrow> string" where
  "placeholder tag n = nul # tag @ decimal n @ [nul]"

fun number_spans :: "string \<Rightarrow> nat \<Rightarrow> piece list \<Rightarrow> string \<times> string list" where
  "number_spans tag n [] = ([], [])"
| "number_spans tag n (Ch c # ps) = apfst ((#) c) (number_spans tag n ps)"
| "number_spans tag n (Span inner # ps) =
     (case number_spans tag (Suc n) ps of (out, inners) \<Rightarrow> (placeholder tag n @ out, inner # inners))"

definition protect :: "string \<Rightarrow> string \<Rightarrow> string \<Rightarrow> (char \<Rightarrow> bool) \<Rightarrow> string \<times> string list" where
  "protect s tag d ok = number_spans tag 0 (split_spans d ok s)"

text \<open>\<^verbatim>\<open>strings.ReplaceAll\<close> of a nonempty text.\<close>

function replace_all :: "string \<Rightarrow> string \<Rightarrow> string \<Rightarrow> string" where
  "replace_all p q [] = []"
| "replace_all p q (c # cs) =
     (if p = [] then c # cs
      else case strip_prefix p (c # cs) of
        Some r \<Rightarrow> q @ replace_all p q r
      | None \<Rightarrow> c # replace_all p q cs)"
  by pat_completeness auto
termination
  by (relation "measure (\<lambda>(_, _, s). length s)") (auto dest!: arg_cong [of "_ # _" _ length])

fun restore_from :: "string \<Rightarrow> nat \<Rightarrow> string list \<Rightarrow> (string \<Rightarrow> string) \<Rightarrow> string \<Rightarrow> string" where
  "restore_from tag n [] wrap s = s"
| "restore_from tag n (inner # inners) wrap s =
     restore_from tag (Suc n) inners wrap (replace_all (placeholder tag n) (wrap inner) s)"

definition restore_spans :: "string \<Rightarrow> string \<Rightarrow> string list \<Rightarrow> (string \<Rightarrow> string) \<Rightarrow> string" where
  "restore_spans s tag inners wrap = restore_from tag 0 inners wrap s"

section \<open>Formatting\<close>

definition star :: char where "star = CHR ''*''"
definition underscore :: char where "underscore = CHR ''_''"
definition tilde :: char where "tilde = CHR ''~''"

definition in_line :: "char \<Rightarrow> char \<Rightarrow> bool" where
  "in_line d c \<longleftrightarrow> c \<noteq> d \<and> c \<noteq> newline"

definition around :: "string \<Rightarrow> string \<Rightarrow> string" where
  "around d s = d @ s @ d"

definition markdown_to_chatwoot :: "string \<Rightarrow> string" where
  "markdown_to_chatwoot s =
     (case protect s ''B'' [star, star] (\<lambda>c. c \<noteq> star) of (p, bolds) \<Rightarrow>
      case protect p ''S'' [tilde, tilde] (in_line tilde) of (p, strikes) \<Rightarrow>
        let p = replace_spans [star] (in_line star) (around [star, star]) p;
            p = replace_spans [underscore] (in_line underscore) (around [star]) p;
            p = replace_spans [tilde] (in_line tilde) (around [tilde, tilde]) p;
            p = restore_spans p ''S'' strikes (around [tilde, tilde])
        in restore_spans p ''B'' bolds (around [star, star]))"

definition markdown_to_whatsapp :: "string \<Rightarrow> string" where
  "markdown_to_whatsapp s =
     (case protect s ''S'' [tilde, tilde] (in_line tilde) of (p, strikes) \<Rightarrow>
      case protect p ''B'' [star, star] (\<lambda>c. c \<noteq> star) of (p, bolds) \<Rightarrow>
        let p = replace_spans [star] (in_line star) (around [underscore]) p;
            p = restore_spans p ''B'' bolds (around [star])
        in restore_spans p ''S'' strikes (around [tilde]))"

section \<open>Texts of messages\<close>

definition join_lines :: "string list \<Rightarrow> string" where
  "join_lines ls = concat (case ls of [] \<Rightarrow> [] | l # rest \<Rightarrow> l # map ((#) newline) rest)"

definition given :: "string \<Rightarrow> string list" where
  "given s = (if s = [] then [] else [s])"

definition em_dash :: string where "em_dash = [CHR 0x20, CHR 0xE2, CHR 0x80, CHR 0x94, CHR 0x20]"
definition bullet :: string where "bullet = [CHR 0xE2, CHR 0x80, CHR 0xA2, CHR 0x20]"

definition mapper_text :: "string \<Rightarrow> string \<Rightarrow> string" where
  "mapper_text body caption = (if body \<noteq> [] then body else caption)"

text \<open>The coordinates come as \<^verbatim>\<open>strconv.FormatFloat\<close> prints them.\<close>

definition mapper_location :: "string \<Rightarrow> string \<Rightarrow> string \<Rightarrow> string \<Rightarrow> string" where
  "mapper_location lat lng name addr =
     join_lines (given name @ given addr @ [''https://maps.google.com/?q='' @ lat @ '','' @ lng])"

definition mapper_contact :: "string \<Rightarrow> string list \<Rightarrow> string" where
  "mapper_contact fn tels = join_lines (given fn @ filter (\<lambda>t. t \<noteq> []) tels)"

definition group_prefix :: "string \<Rightarrow> string \<Rightarrow> string \<Rightarrow> string" where
  "group_prefix phone name body =
     (let prefix = (if name \<noteq> [] then phone @ em_dash @ name else phone)
      in if body = [] then prefix else prefix @ newline # body)"

record list_row =
  lr_title :: string
  lr_description :: string

record list_section =
  ls_title :: string
  ls_rows :: "list_row list"

definition row_line :: "list_row \<Rightarrow> string list" where
  "row_line r =
     (if lr_title r = [] \<and> lr_description r = [] then []
      else [bullet @ lr_title r @ (if lr_description r \<noteq> [] then em_dash @ lr_description r else [])])"

definition section_lines :: "list_section \<Rightarrow> string list" where
  "section_lines s = (if ls_title s \<noteq> [] then [ls_title s @ '':''] else []) @ concat (map row_line (ls_rows s))"

definition mapper_list :: "string \<Rightarrow> string \<Rightarrow> string \<Rightarrow> string \<Rightarrow> list_section list \<Rightarrow> string" where
  "mapper_list title description button footer sections =
     join_lines (given title @ given description @ concat (map section_lines sections)
       @ (if button \<noteq> [] then [''['' @ button @ '']''] else []) @ given footer)"

definition list_response :: "string \<Rightarrow> string \<Rightarrow> string" where
  "list_response title selected =
     (if title \<noteq> [] \<and> selected \<noteq> [] then title @ newline # ''Resposta: '' @ selected
      else if title \<noteq> [] then title
      else ''Resposta: '' @ selected)"

definition reacao :: string where
  "reacao = ''Rea'' @ [CHR 0xC3, CHR 0xA7, CHR 0xC3, CHR 0xA3] @ ''o''"

definition mapper_reaction :: "string \<Rightarrow> string \<Rightarrow> string" where
  "mapper_reaction emoji original =
     (if emoji = [] then
        (if original = [] then reacao @ '' removida'' else reacao @ '' removida da mensagem '' @ original)
      else if original = [] then ''Reagiu com '' @ emoji
      else ''Reagiu com '' @ emoji @ '' '' @ [CHR 0xC3, CHR 0xA0] @ '' mensagem '' @ original)"

definition mapper_interactive :: "string \<Rightarrow> string \<Rightarrow> string \<Rightarrow> string list \<Rightarrow> string" where
  "mapper_interactive header body footer buttons =
     join_lines (given header @ given body @ map (\<lambda>b. bullet @ b) (filter (\<lambda>b. b \<noteq> []) buttons) @ given footer)"

definition mapper_order :: "string \<Rightarrow> string \<Rightarrow> string" where
  "mapper_order order_id title =
     join_lines (given title @ (if order_id \<noteq> [] then [''Pedido '' @ order_id] else []))"

definition mapper_product :: "string \<Rightarrow> string \<Rightarrow> string" where
  "mapper_product title description = join_lines (given title @ given description)"

definition mapper_ad :: "string \<Rightarrow> string \<Rightarrow> string \<Rightarrow> string" where
  "mapper_ad title body source_url = join_lines (given title @ given body @ given source_url)"

definition drawing_exts :: "string list" where
  "drawing_exts = [''.svg'', ''.svgz'', ''.ai'', ''.eps'', ''.psd'']"

definition starts :: "string \<Rightarrow> string \<Rightarrow> bool" where
  "starts p s \<longleftrightarrow> strip_prefix p s \<noteq> None"

definition attachment_kind :: "string \<Rightarrow> string \<Rightarrow> string \<times> bool" where
  "attachment_kind mime ext =
     (let mime = (case cut_at CHR '';'' mime of Some (before, _) \<Rightarrow> before | None \<Rightarrow> mime);
          mime = to_lower (trim_space mime);
          ext = to_lower ext;
          ext = (if ext \<noteq> [] \<and> \<not> starts ''.'' ext then CHR ''.'' # ext else ext)
      in if ext \<in> set drawing_exts then (''file'', True)
         else if starts ''audio/'' mime then (''audio'', False)
         else if starts ''video/'' mime then (''video'', False)
         else if starts ''image/'' mime then (''image'', False)
         else (''file'', True))"

section \<open>Spans in a text\<close>

text \<open>
  A text as tokens, each followed by plain characters. A token is clear for an expression when,
  with anything harmless after it, the matches are those of the token alone.
\<close>

definition flat :: "string \<Rightarrow> (string \<times> string) list \<Rightarrow> string" where
  "flat p ts = p @ concat (map (\<lambda>(t, p). t @ p) ts)"

lemma flat_simps [simp]: "flat p [] = p" "flat p ((t, q) # ts) = p @ t @ flat q ts"
  by (simp_all add: flat_def)

definition token_pieces :: "string \<Rightarrow> (char \<Rightarrow> bool) \<Rightarrow> string \<Rightarrow> piece list" where
  "token_pieces d ok t = (case match_span d ok t of Some (inner, []) \<Rightarrow> [Span inner] | _ \<Rightarrow> map Ch t)"

definition clear_token :: "string \<Rightarrow> (char \<Rightarrow> bool) \<Rightarrow> string \<Rightarrow> bool" where
  "clear_token d ok t \<longleftrightarrow>
     (\<forall>s. s = [] \<or> hd s \<noteq> hd d \<longrightarrow> split_spans d ok (t @ s) = token_pieces d ok t @ split_spans d ok s)"

lemma match_span_head: "match_span d ok (c # cs) \<noteq> None \<Longrightarrow> d \<noteq> [] \<Longrightarrow> c = hd d"
  by (cases d) (auto simp: match_span_def split: option.splits if_splits)

lemma split_inert: "d \<noteq> [] \<Longrightarrow> hd d \<notin> set t \<Longrightarrow> split_spans d ok (t @ s) = map Ch t @ split_spans d ok s"
  by (induction t) (use match_span_head in \<open>fastforce split: option.split\<close>)+

lemma split_plain: "d \<noteq> [] \<Longrightarrow> hd d \<notin> set t \<Longrightarrow> split_spans d ok t = map Ch t"
  using split_inert [of d t ok "[]"] by simp

lemma match_span_plain: "d \<noteq> [] \<Longrightarrow> hd d \<notin> set t \<Longrightarrow> match_span d ok t = None"
  by (cases t; cases d) (auto simp: match_span_def)

lemma clear_inert: "d \<noteq> [] \<Longrightarrow> hd d \<notin> set t \<Longrightarrow> clear_token d ok t \<and> token_pieces d ok t = map Ch t"
  by (simp add: clear_token_def token_pieces_def split_inert match_span_plain)

lemma match_span_around:
  assumes "d \<noteq> []" "inner \<noteq> []" "\<forall>c \<in> set inner. ok c" "\<not> ok (hd d)"
  shows "match_span d ok (around d inner @ s) = Some (inner, s)"
proof -
  have "takeWhile ok (inner @ d @ s) = inner" "dropWhile ok (inner @ d @ s) = d @ s"
    using assms by (cases d; simp add: takeWhile_append)+
  then show ?thesis using assms(2) by (simp add: match_span_def around_def)
qed

lemma clear_around:
  assumes "d \<noteq> []" "inner \<noteq> []" "\<forall>c \<in> set inner. ok c" "\<not> ok (hd d)"
  shows "clear_token d ok (around d inner) \<and> token_pieces d ok (around d inner) = [Span inner]"
proof -
  have m: "match_span d ok (around d inner @ s) = Some (inner, s)" for s
    using assms by (rule match_span_around)
  have "split_spans d ok (around d inner @ s) = Span inner # split_spans d ok s" for s
  proof (cases "around d inner @ s")
    case Nil
    then show ?thesis using assms(1) by (simp add: around_def)
  next
    case (Cons c cs)
    then show ?thesis using m [of s] by simp
  qed
  moreover have "token_pieces d ok (around d inner) = [Span inner]" using m [of "[]"] by (simp add: token_pieces_def)
  ultimately show ?thesis by (simp add: clear_token_def)
qed

text \<open>A doubled delimiter does not match a token with a single one.\<close>

lemma clear_single:
  assumes "inner \<noteq> []" "c \<notin> set inner"
  shows "clear_token [c, c] ok (around [c] inner) \<and> token_pieces [c, c] ok (around [c] inner) = map Ch (around [c] inner)"
proof -
  have n: "match_span [c, c] ok (c # inner @ s) = None" for s
    using assms by (cases inner) (auto simp: match_span_def)
  have e: "match_span [c, c] ok (c # s) = None" if "s = [] \<or> hd s \<noteq> c" for s
    using that by (cases s) (auto simp: match_span_def)
  have "split_spans [c, c] ok (c # inner @ c # s) = Ch c # map Ch inner @ Ch c # split_spans [c, c] ok s"
    if "s = [] \<or> hd s \<noteq> c" for s
    using n [of "c # s"] e [OF that] split_inert [of "[c, c]" inner ok "c # s"] assms(2) by simp
  then show ?thesis
    using n [of "[c]"] by (simp add: clear_token_def around_def token_pieces_def)
qed

text \<open>Plain texts between two tokens are not empty.\<close>

fun apart :: "(char \<Rightarrow> bool) \<Rightarrow> ('t \<times> string) list \<Rightarrow> bool" where
  "apart ok [] = True"
| "apart ok [(t, q)] = (\<forall>c \<in> set q. ok c)"
| "apart ok ((t, q) # ts) = (q \<noteq> [] \<and> (\<forall>c \<in> set q. ok c) \<and> apart ok ts)"

lemma apart_chars: "apart ok ts \<Longrightarrow> (t, q) \<in> set ts \<Longrightarrow> c \<in> set q \<Longrightarrow> ok c"
  by (induction ok ts rule: apart.induct) auto

lemma apart_map: "apart ok (map (\<lambda>(t, q). (f t, q)) ts) = apart ok ts"
  by (induction ok ts rule: apart.induct) auto

lemma split_flat:
  assumes d: "d \<noteq> []" "\<not> ok' (hd d)" and "apart ok' ts" "hd d \<notin> set p" "\<forall>(t, q) \<in> set ts. clear_token d ok t"
  shows "split_spans d ok (flat p ts) = map Ch p @ concat (map (\<lambda>(t, q). token_pieces d ok t @ map Ch q) ts)"
  using assms(3-)
proof (induction ts arbitrary: p)
  case Nil
  then show ?case using split_inert [OF d(1), of p ok "[]"] by simp
next
  case (Cons tq ts)
  obtain t q where tq: "tq = (t, q)" by fastforce
  have q: "\<forall>c \<in> set q. ok' c" using Cons.prems(1) tq by (cases ts) auto
  then have hq: "hd d \<notin> set q" using d(2) by auto
  have "flat q ts = [] \<or> hd (flat q ts) \<noteq> hd d"
  proof (cases ts)
    case Nil
    then show ?thesis using hq by (cases q) auto
  next
    case (Cons a list)
    then have "q \<noteq> []" using Cons.prems(1) tq by (cases a) auto
    then show ?thesis using hq by (cases q) (auto simp: flat_def)
  qed
  then have "split_spans d ok (t @ flat q ts) = token_pieces d ok t @ split_spans d ok (flat q ts)"
    using Cons.prems(3) tq by (auto simp: clear_token_def)
  moreover have "apart ok' ts" using Cons.prems(1) tq by (cases ts) auto
  ultimately show ?case
    using Cons.IH [of q] hq Cons.prems(2,3) d tq by (simp add: split_inert)
qed

definition replaced :: "string \<Rightarrow> (char \<Rightarrow> bool) \<Rightarrow> (string \<Rightarrow> string) \<Rightarrow> string \<Rightarrow> string" where
  "replaced d ok f t = concat (map (case_piece (\<lambda>c. [c]) f) (token_pieces d ok t))"

lemma concat_chars [simp]: "concat (map (case_piece (\<lambda>c. [c]) f) (map Ch s)) = s"
  by (induction s) simp_all

lemma replaced_simps [simp]:
  "token_pieces d ok t = map Ch t \<Longrightarrow> replaced d ok f t = t"
  "token_pieces d ok t = [Span inner] \<Longrightarrow> replaced d ok f t = f inner"
  unfolding replaced_def by (simp_all only: concat_chars) simp

lemma replace_flat:
  assumes "d \<noteq> []" "\<not> ok' (hd d)" "apart ok' ts" "hd d \<notin> set p" "\<forall>(t, q) \<in> set ts. clear_token d ok t"
  shows "replace_spans d ok f (flat p ts) = flat p (map (\<lambda>(t, q). (replaced d ok f t, q)) ts)"
proof -
  have "concat (map (case_piece (\<lambda>c. [c]) f) (concat (map (\<lambda>(t, q). token_pieces d ok t @ map Ch q) ts)))
      = concat (map (\<lambda>(t, p). t @ p) (map (\<lambda>(t, q). (replaced d ok f t, q)) ts))"
    by (induction ts) (auto simp: replaced_def simp del: map_map)
  then show ?thesis
    unfolding replace_spans_def split_flat [OF assms] by (simp add: flat_def del: map_map)
qed

fun number_tokens :: "string \<Rightarrow> string \<Rightarrow> (char \<Rightarrow> bool) \<Rightarrow> nat \<Rightarrow> (string \<times> string) list \<Rightarrow> (string \<times> string) list \<times> string list" where
  "number_tokens tag d ok n [] = ([], [])"
| "number_tokens tag d ok n ((t, q) # ts) =
     (case token_pieces d ok t of
        [Span inner] \<Rightarrow> (case number_tokens tag d ok (Suc n) ts of (us, inners) \<Rightarrow> ((placeholder tag n, q) # us, inner # inners))
      | _ \<Rightarrow> apfst ((#) (t, q)) (number_tokens tag d ok n ts))"

lemma number_chars: "number_spans tag n (map Ch s @ ps) = apfst ((@) s) (number_spans tag n ps)"
  by (induction s) (simp_all add: apfst_def map_prod_def split_beta)

lemma token_pieces_cases: "(\<exists>inner. token_pieces d ok t = [Span inner]) \<or> token_pieces d ok t = map Ch t"
  by (auto simp: token_pieces_def split: option.split list.split)

lemma number_flat:
  "number_spans tag n (map Ch p @ concat (map (\<lambda>(t, q). token_pieces d ok t @ map Ch q) ts))
     = (case number_tokens tag d ok n ts of (us, inners) \<Rightarrow> (flat p us, inners))"
proof (induction ts arbitrary: n p)
  case Nil
  then show ?case using number_chars [of tag n p "[]"] by simp
next
  case (Cons tq ts)
  obtain t q where tq: "tq = (t, q)" by fastforce
  show ?case
  proof (cases "\<exists>inner. token_pieces d ok t = [Span inner]")
    case True
    then obtain inner where "token_pieces d ok t = [Span inner]" by blast
    then show ?thesis using Cons.IH [of "Suc n" q] tq by (simp add: number_chars split: prod.splits)
  next
    case False
    then have t: "token_pieces d ok t = map Ch t" using token_pieces_cases by blast
    then have "number_tokens tag d ok n (tq # ts) = apfst ((#) (t, q)) (number_tokens tag d ok n ts)"
      using tq by (cases t) (auto split: list.split piece.split)
    then show ?thesis using Cons.IH [of n q] tq t by (simp add: number_chars split: prod.splits)
  qed
qed

lemma protect_flat:
  assumes "d \<noteq> []" "\<not> ok' (hd d)" "apart ok' ts" "hd d \<notin> set p" "\<forall>(t, q) \<in> set ts. clear_token d ok t"
  shows "protect (flat p ts) tag d ok = (case number_tokens tag d ok 0 ts of (us, inners) \<Rightarrow> (flat p us, inners))"
  unfolding protect_def split_flat [OF assms] by (rule number_flat)

lemma number_none: "\<forall>(t, q) \<in> set ts. token_pieces d ok t = map Ch t \<Longrightarrow> number_tokens tag d ok n ts = (ts, [])"
proof (induction ts)
  case (Cons tq ts)
  then obtain t q where "tq = (t, q)" "token_pieces d ok t = map Ch t" by (cases tq) auto
  then show ?case using Cons by (cases t) (auto split: list.split piece.split)
qed simp

section \<open>Formatted texts\<close>

datatype fmt = Bold string | Italic string | Strike string

fun whatsapp_form :: "fmt \<Rightarrow> string" where
  "whatsapp_form (Bold s) = around [star] s"
| "whatsapp_form (Italic s) = around [underscore] s"
| "whatsapp_form (Strike s) = around [tilde] s"

fun chatwoot_form :: "fmt \<Rightarrow> string" where
  "chatwoot_form (Bold s) = around [star, star] s"
| "chatwoot_form (Italic s) = around [star] s"
| "chatwoot_form (Strike s) = around [tilde, tilde] s"

definition plain_char :: "char \<Rightarrow> bool" where
  "plain_char c \<longleftrightarrow> c \<noteq> star \<and> c \<noteq> underscore \<and> c \<noteq> tilde \<and> c \<noteq> nul"

fun inner_text :: "fmt \<Rightarrow> string" where
  "inner_text (Bold s) = s"
| "inner_text (Italic s) = s"
| "inner_text (Strike s) = s"

definition fmt_ok :: "fmt \<Rightarrow> bool" where
  "fmt_ok x \<longleftrightarrow> inner_text x \<noteq> [] \<and> (\<forall>c \<in> set (inner_text x). plain_char c \<and> c \<noteq> newline)"

text \<open>A text: plain characters, then formatted runs, each followed by plain characters.\<close>

type_synonym doc = "string \<times> (fmt \<times> string) list"

definition render :: "(fmt \<Rightarrow> string) \<Rightarrow> doc \<Rightarrow> string" where
  "render r x = flat (fst x) (map (\<lambda>(t, q). (r t, q)) (snd x))"

definition doc_ok :: "doc \<Rightarrow> bool" where
  "doc_ok x \<longleftrightarrow> (\<forall>c \<in> set (fst x). plain_char c) \<and> (\<forall>(t, q) \<in> set (snd x). fmt_ok t)
     \<and> apart plain_char (snd x)"

lemma apart_render: "doc_ok x \<Longrightarrow> apart plain_char (map (\<lambda>(t, q). (f t, q)) (snd x))"
  by (simp add: doc_ok_def apart_map)

lemma special_chars [simp]:
  "star \<noteq> underscore" "underscore \<noteq> star" "star \<noteq> tilde" "tilde \<noteq> star" "underscore \<noteq> tilde" "tilde \<noteq> underscore"
  "nul \<noteq> star" "nul \<noteq> underscore" "nul \<noteq> tilde" "star \<noteq> nul" "underscore \<noteq> nul" "tilde \<noteq> nul"
  "\<not> plain_char star" "\<not> plain_char underscore" "\<not> plain_char tilde" "\<not> plain_char nul"
  "star \<noteq> newline" "underscore \<noteq> newline" "tilde \<noteq> newline"
  by (simp_all add: star_def underscore_def tilde_def nul_def newline_def plain_char_def)

lemma plain_inner:
  assumes "fmt_ok x"
  shows "inner_text x \<noteq> []" "star \<notin> set (inner_text x)" "underscore \<notin> set (inner_text x)" "tilde \<notin> set (inner_text x)"
    "nul \<notin> set (inner_text x)" "\<forall>c \<in> set (inner_text x). c \<noteq> star"
    "\<forall>c \<in> set (inner_text x). in_line star c" "\<forall>c \<in> set (inner_text x). in_line underscore c"
    "\<forall>c \<in> set (inner_text x). in_line tilde c"
  using assms by (auto simp: fmt_ok_def plain_char_def in_line_def)

lemma around_chars [simp]: "set (around d s) = set d \<union> set s"
  by (auto simp: around_def)

text \<open>How each expression reads each form.\<close>

definition reads :: "string \<Rightarrow> (char \<Rightarrow> bool) \<Rightarrow> string \<Rightarrow> piece list \<Rightarrow> bool" where
  "reads d ok t ps \<longleftrightarrow> clear_token d ok t \<and> token_pieces d ok t = ps"

lemma reads_inert: "d \<noteq> [] \<Longrightarrow> hd d \<notin> set t \<Longrightarrow> reads d ok t (map Ch t)"
  by (simp add: reads_def clear_inert)

lemma reads_around:
  "d \<noteq> [] \<Longrightarrow> inner \<noteq> [] \<Longrightarrow> \<forall>c \<in> set inner. ok c \<Longrightarrow> \<not> ok (hd d) \<Longrightarrow> reads d ok (around d inner) [Span inner]"
  by (simp add: reads_def clear_around)

lemma reads_single: "inner \<noteq> [] \<Longrightarrow> c \<notin> set inner \<Longrightarrow> reads [c, c] ok (around [c] inner) (map Ch (around [c] inner))"
  by (simp add: reads_def clear_single)

lemma in_line_self [simp]: "\<not> in_line d d"
  by (simp add: in_line_def)

lemma read_whatsapp_forms:
  assumes "fmt_ok x"
  shows "reads [star, star] ok (whatsapp_form x) (map Ch (whatsapp_form x))"
    "reads [tilde, tilde] ok (whatsapp_form x) (map Ch (whatsapp_form x))"
    "reads [star] (in_line star) (whatsapp_form x) (case x of Bold s \<Rightarrow> [Span s] | _ \<Rightarrow> map Ch (whatsapp_form x))"
proof -
  note i = plain_inner [OF assms]
  show "reads [star, star] ok (whatsapp_form x) (map Ch (whatsapp_form x))"
    using i by (cases x) (simp_all add: reads_single reads_inert)
  show "reads [tilde, tilde] ok (whatsapp_form x) (map Ch (whatsapp_form x))"
    using i by (cases x) (simp_all add: reads_single reads_inert)
  show "reads [star] (in_line star) (whatsapp_form x) (case x of Bold s \<Rightarrow> [Span s] | _ \<Rightarrow> map Ch (whatsapp_form x))"
    using i by (cases x) (simp_all add: reads_around reads_inert)
qed

lemma flat_replace:
  assumes "d \<noteq> []" "\<not> plain_char (hd d)" "apart plain_char ts" "\<forall>c \<in> set p. plain_char c"
    and r: "\<And>t q. (t, q) \<in> set ts \<Longrightarrow> reads d ok (h t) (map Ch (h t)) \<and> g t = h t
           \<or> reads d ok (h t) [Span (inner t)] \<and> g t = f (inner t)"
  shows "replace_spans d ok f (flat p (map (\<lambda>(t, q). (h t, q)) ts)) = flat p (map (\<lambda>(t, q). (g t, q)) ts)"
proof -
  have c: "clear_token d ok (h t) \<and> replaced d ok f (h t) = g t" if "(t, q) \<in> set ts" for t q
    using r [OF that] by (auto simp: reads_def)
  have "replace_spans d ok f (flat p (map (\<lambda>(t, q). (h t, q)) ts))
      = flat p (map (\<lambda>(t, q). (replaced d ok f t, q)) (map (\<lambda>(t, q). (h t, q)) ts))"
    using assms(1-4) c by (intro replace_flat [where ok' = plain_char]) (fastforce simp: apart_map)+
  also have "map (\<lambda>(t, q). (replaced d ok f t, q)) (map (\<lambda>(t, q). (h t, q)) ts) = map (\<lambda>(t, q). (g t, q)) ts"
    using c by auto
  finally show ?thesis .
qed

lemma flat_protect:
  assumes "d \<noteq> []" "\<not> plain_char (hd d)" "apart plain_char ts" "\<forall>c \<in> set p. plain_char c"
    and "\<And>t q. (t, q) \<in> set ts \<Longrightarrow> \<exists>ps. reads d ok (h t) ps"
    and "number_tokens tag d ok 0 (map (\<lambda>(t, q). (h t, q)) ts) = (us, inners)"
  shows "protect (flat p (map (\<lambda>(t, q). (h t, q)) ts)) tag d ok = (flat p us, inners)"
proof -
  have "protect (flat p (map (\<lambda>(t, q). (h t, q)) ts)) tag d ok =
      (case number_tokens tag d ok 0 (map (\<lambda>(t, q). (h t, q)) ts) of (us, inners) \<Rightarrow> (flat p us, inners))"
    using assms(1-5) by (intro protect_flat [where ok' = plain_char]) (fastforce simp: apart_map reads_def)+
  then show ?thesis using assms(6) by simp
qed

lemma number_nothing:
  "\<forall>(t, q) \<in> set ts. reads d ok (h t) (map Ch (h t)) \<Longrightarrow>
     number_tokens tag d ok n (map (\<lambda>(t, q). (h t, q)) ts) = (map (\<lambda>(t, q). (h t, q)) ts, [])"
  by (intro number_none) (auto simp: reads_def)

fun bold_done :: "fmt \<Rightarrow> string" where
  "bold_done (Bold s) = around [star, star] s"
| "bold_done x = whatsapp_form x"

fun italic_done :: "fmt \<Rightarrow> string" where
  "italic_done (Italic s) = around [star] s"
| "italic_done x = bold_done x"

lemma doc_okD:
  assumes "doc_ok (p, ts)"
  shows "apart plain_char ts" "\<forall>c \<in> set p. plain_char c" "\<And>t q. (t, q) \<in> set ts \<Longrightarrow> fmt_ok t" "nul \<notin> set p"
  using assms by (auto simp: doc_ok_def plain_char_def)

lemma to_chatwoot_render:
  assumes "doc_ok x"
  shows "markdown_to_chatwoot (render whatsapp_form x) = render chatwoot_form x"
proof -
  obtain p ts where x: "x = (p, ts)" by fastforce
  note ok = doc_okD [OF assms [unfolded x]]
  note w = read_whatsapp_forms [OF ok(3)]
  let ?at = "\<lambda>h. flat p (map (\<lambda>(t, q). (h t, q)) ts)"
  have 1: "protect (?at whatsapp_form) ''B'' [star, star] (\<lambda>c. c \<noteq> star) = (?at whatsapp_form, [])"
    using w(1) by (intro flat_protect ok(1,2) number_nothing) auto
  have 2: "protect (?at whatsapp_form) ''S'' [tilde, tilde] (in_line tilde) = (?at whatsapp_form, [])"
    using w(2) by (intro flat_protect ok(1,2) number_nothing) auto
  have b: "reads [star] (in_line star) (whatsapp_form t) (map Ch (whatsapp_form t)) \<and> bold_done t = whatsapp_form t
      \<or> reads [star] (in_line star) (whatsapp_form t) [Span (inner_text t)] \<and> bold_done t = around [star, star] (inner_text t)"
    if "fmt_ok t" for t
    using read_whatsapp_forms(3) [OF that] by (cases t) auto
  have 3: "replace_spans [star] (in_line star) (around [star, star]) (?at whatsapp_form) = ?at bold_done"
    using b [OF ok(3)] by (intro flat_replace ok(1,2)) auto
  have i: "reads [underscore] (in_line underscore) (bold_done t) (map Ch (bold_done t)) \<and> italic_done t = bold_done t
      \<or> reads [underscore] (in_line underscore) (bold_done t) [Span (inner_text t)] \<and> italic_done t = around [star] (inner_text t)"
    if "fmt_ok t" for t
    using plain_inner [OF that] by (cases t) (auto simp: reads_around reads_inert)
  have 4: "replace_spans [underscore] (in_line underscore) (around [star]) (?at bold_done) = ?at italic_done"
    using i [OF ok(3)] by (intro flat_replace ok(1,2)) auto
  have s: "reads [tilde] (in_line tilde) (italic_done t) (map Ch (italic_done t)) \<and> chatwoot_form t = italic_done t
      \<or> reads [tilde] (in_line tilde) (italic_done t) [Span (inner_text t)] \<and> chatwoot_form t = around [tilde, tilde] (inner_text t)"
    if "fmt_ok t" for t
    using plain_inner [OF that] by (cases t) (auto simp: reads_around reads_inert)
  have 5: "replace_spans [tilde] (in_line tilde) (around [tilde, tilde]) (?at italic_done) = ?at chatwoot_form"
    using s [OF ok(3)] by (intro flat_replace ok(1,2)) auto
  show ?thesis
    using 1 2 3 4 5 by (simp add: markdown_to_chatwoot_def render_def x restore_spans_def)
qed

section \<open>Placeholders\<close>

text \<open>
  A placeholder is found again where it was put, unless plain characters between two of them spell one:
  a NUL closes the first, another opens the second.
\<close>

definition tagged :: "string \<Rightarrow> bool" where
  "tagged tag \<longleftrightarrow> tag = ''B'' \<or> tag = ''S''"

definition spells_placeholder :: "string \<Rightarrow> bool" where
  "spells_placeholder q \<longleftrightarrow> (\<exists>tag n. tagged tag \<and> q = tag @ decimal n)"

definition token_ok :: "string \<Rightarrow> bool" where
  "token_ok t \<longleftrightarrow> (nul \<notin> set t \<and> t \<noteq> [] \<and> hd t \<in> {star, underscore, tilde}) \<or> (\<exists>tag n. tagged tag \<and> t = placeholder tag n)"

lemma tag_chars: "tagged tag \<Longrightarrow> nul \<notin> set (tag @ decimal n) \<and> star \<notin> set (tag @ decimal n)
    \<and> underscore \<notin> set (tag @ decimal n) \<and> tilde \<notin> set (tag @ decimal n) \<and> tag @ decimal n \<noteq> []"
  using decimal_digits [of nul n] decimal_digits [of star n] decimal_digits [of underscore n] decimal_digits [of tilde n]
  by (auto simp: tagged_def nul_def star_def underscore_def tilde_def)

lemma placeholder_inject:
  assumes "placeholder tag n = placeholder tag' m" "tagged tag" "tagged tag'"
  shows "tag = tag' \<and> n = m"
proof -
  have "tag @ decimal n = tag' @ decimal m" using assms(1) by (simp add: placeholder_def)
  then show ?thesis using assms(2,3) decimal_inject by (auto simp: tagged_def)
qed

lemma placeholder_eq: "placeholder tag n = nul # (tag @ decimal n) @ nul # []"
  by (simp add: placeholder_def)

lemma replace_all_inert: "nul \<notin> set u \<Longrightarrow> replace_all (nul # p) q (u @ s) = u @ replace_all (nul # p) q s"
  by (induction u) (auto split: option.split)

lemma replace_all_hit: "replace_all (nul # p) q ((nul # p) @ s) = q @ replace_all (nul # p) q s"
  by simp

lemma replace_all_miss:
  "strip_prefix p s = None \<Longrightarrow> replace_all (nul # p) q (nul # s) = nul # replace_all (nul # p) q s"
  by simp

lemma replace_all_skip:
  assumes body: "nul \<notin> set body" "nul \<notin> set body'" "body \<noteq> body'" and s: "strip_prefix (body @ [nul]) s = None"
  shows "replace_all (nul # body @ [nul]) q ((nul # body' @ [nul]) @ s) = (nul # body' @ [nul]) @ replace_all (nul # body @ [nul]) q s"
proof -
  have "strip_prefix (body @ [nul]) (body' @ nul # s) = None"
  proof (rule ccontr)
    assume "\<not> ?thesis"
    then obtain r where "body' @ nul # s = body @ nul # r" by auto
    from split_at_char [OF this body(2,1)] show False using body(3) by simp
  qed
  then have "replace_all (nul # body @ [nul]) q (nul # body' @ nul # s) = nul # replace_all (nul # body @ [nul]) q (body' @ nul # s)"
    by (rule replace_all_miss)
  also have "\<dots> = nul # body' @ nul # replace_all (nul # body @ [nul]) q s"
    using replace_all_inert [OF body(2)] replace_all_miss [OF s] by simp
  finally show ?thesis by simp
qed

text \<open>What follows a token does not look like the rest of a placeholder.\<close>

fun unspelled :: "('t \<times> string) list \<Rightarrow> bool" where
  "unspelled [] = True"
| "unspelled [(t, q)] = True"
| "unspelled ((t, q) # ts) = (\<not> spells_placeholder q \<and> unspelled ts)"

lemma unspelled_map: "unspelled (map (\<lambda>(t, q). (f t, q)) ts) = unspelled ts"
  by (induction ts rule: unspelled.induct) auto

lemma not_continued:
  assumes tag: "tagged tag" and q: "nul \<notin> set q" and ts: "ts = [] \<or> \<not> spells_placeholder q" "\<forall>(t, q) \<in> set ts. token_ok t"
  shows "strip_prefix ((tag @ decimal n) @ [nul]) (flat q ts) = None"
proof (rule ccontr)
  define body where "body = tag @ decimal n"
  assume "\<not> ?thesis"
  then obtain r where r: "flat q ts = body @ nul # r" by (auto simp: body_def)
  show False
  proof (cases ts)
    case Nil
    then have "nul \<in> set q" using r by simp
    then show False using q by simp
  next
    case (Cons tq us)
    obtain t q' where tq: "tq = (t, q')" by fastforce
    have e: "q @ t @ flat q' us = body @ nul # r" using r Cons tq by simp
    have tok: "token_ok t" using ts(2) Cons tq by simp
    note c = tag_chars [OF tag, of n, folded body_def]
    from e have "(\<exists>m. q = body @ m \<and> m @ t @ flat q' us = nul # r) \<or> (\<exists>m. q @ m = body \<and> t @ flat q' us = m @ nul # r)"
      by (auto simp: append_eq_append_conv2)
    then show False
    proof (elim disjE exE conjE)
      fix m assume m: "q = body @ m" "m @ t @ flat q' us = nul # r"
      then have "m = []" using q by (cases m) auto
      then show False using m(1) ts(1) Cons tag by (auto simp: spells_placeholder_def body_def)
    next
      fix m assume m: "q @ m = body" "t @ flat q' us = m @ nul # r"
      show False
      proof (cases m)
        case Nil
        then show False using m(1) ts(1) Cons tag by (auto simp: spells_placeholder_def body_def)
      next
        case (Cons a m')
        then have "hd t = a" "a \<in> set body" using m tok by (cases t; auto simp: token_ok_def placeholder_def dest: arg_cong [of _ _ set])+
        then show False using tok c by (auto simp: token_ok_def placeholder_def)
      qed
    qed
  qed
qed

lemma replace_placeholder:
  assumes tag: "tagged tag" and "nul \<notin> set p" "\<forall>(t, q) \<in> set ts. token_ok t" "apart plain_char ts" "unspelled ts"
  shows "replace_all (placeholder tag n) u (flat p ts) = flat p (map (\<lambda>(t, q). (if t = placeholder tag n then u else t, q)) ts)"
  using assms(2-)
proof (induction ts arbitrary: p)
  case Nil
  then show ?case using replace_all_inert [of p _ u "[]"] by (simp add: placeholder_def)
next
  case (Cons tq ts)
  obtain t q where tq: "tq = (t, q)" by fastforce
  have q: "nul \<notin> set q" using apart_chars [OF Cons.prems(3), of t q nul] tq by auto
  have rest: "apart plain_char ts" "unspelled ts" "ts = [] \<or> \<not> spells_placeholder q"
    using Cons.prems(3,4) tq by (cases ts; auto)+
  have tok: "token_ok t" "\<forall>(t, q) \<in> set ts. token_ok t" using Cons.prems(2) tq by auto
  have IH: "replace_all (placeholder tag n) u (flat q ts) = flat q (map (\<lambda>(t, q). (if t = placeholder tag n then u else t, q)) ts)"
    using Cons.IH [OF q tok(2) rest(1,2)] .
  let ?r = "replace_all (placeholder tag n) u"
  have p: "?r (p @ s) = p @ ?r s" for s
    using replace_all_inert [OF Cons.prems(1)] by (simp add: placeholder_def)
  have "?r (t @ flat q ts) = (if t = placeholder tag n then u else t) @ ?r (flat q ts)"
  proof (cases "t = placeholder tag n")
    case True
    then show ?thesis using replace_all_hit [of "(tag @ decimal n) @ [nul]" u "flat q ts"] by (simp add: placeholder_def)
  next
    case False
    from tok(1) consider "nul \<notin> set t" | tag' m where "tagged tag'" "t = placeholder tag' m" by (auto simp: token_ok_def)
    then show ?thesis
    proof cases
      case 1
      then show ?thesis using replace_all_inert False by (simp add: placeholder_def)
    next
      case 2
      have "tag @ decimal n \<noteq> tag' @ decimal m" using False 2(2) by (auto simp: placeholder_def)
      then show ?thesis
        using replace_all_skip [of "tag @ decimal n" "tag' @ decimal m" "flat q ts" u]
          not_continued [OF tag q rest(3) tok(2)] tag_chars [OF tag] tag_chars [OF 2(1)] False 2(2)
        by (simp add: placeholder_def)
    qed
  qed
  then show ?case using p IH tq by simp
qed

text \<open>Restoring a list of texts, token by token.\<close>

fun restored :: "string \<Rightarrow> nat \<Rightarrow> string list \<Rightarrow> (string \<Rightarrow> string) \<Rightarrow> string \<Rightarrow> string" where
  "restored tag n [] wrap t = t"
| "restored tag n (i # is) wrap t = (if t = placeholder tag n then wrap i else restored tag (Suc n) is wrap t)"

lemma restored_other: "nul \<notin> set t \<Longrightarrow> restored tag n is wrap t = t"
  by (induction tag n "is" wrap t rule: restored.induct) (auto simp: placeholder_def)

lemma restored_at:
  assumes "tagged tag" "n \<le> m" "m - n < length is"
  shows "restored tag n is wrap (placeholder tag m) = wrap (is ! (m - n))"
  using assms(2,3)
proof (induction "is" arbitrary: n)
  case (Cons i "is")
  then show ?case
    using placeholder_inject [OF _ assms(1,1), of m n] Cons.IH [of "Suc n"] by (cases "m = n") (auto simp: nth_Cons')
qed simp

lemma restored_other_tag:
  assumes "tagged tag" "tagged tag'" "tag \<noteq> tag'"
  shows "restored tag n is wrap (placeholder tag' m) = placeholder tag' m"
proof -
  have "placeholder tag' m \<noteq> placeholder tag k" for k
    using placeholder_inject [OF _ assms(2,1)] assms(3) by auto
  then show ?thesis by (induction "is" arbitrary: n) auto
qed

lemma restore_flat:
  assumes tag: "tagged tag" and p: "nul \<notin> set p" and d: "d \<in> {star, underscore, tilde}"
    and "\<forall>i \<in> set is. nul \<notin> set i" "\<forall>(t, q) \<in> set ts. token_ok t" "apart plain_char ts" "unspelled ts"
  shows "restore_from tag n is (around [d]) (flat p ts) = flat p (map (\<lambda>(t, q). (restored tag n is (around [d]) t, q)) ts)"
  using assms(4-)
proof (induction "is" arbitrary: n ts)
  case Nil
  then show ?case by simp
next
  case (Cons i "is")
  let ?f = "\<lambda>t. if t = placeholder tag n then around [d] i else t"
  let ?ts = "map (\<lambda>(t, q). (?f t, q)) ts"
  have i: "nul \<notin> set (around [d] i)" using d Cons.prems(1) by auto
  have ok: "token_ok (around [d] i)" using d i by (auto simp: token_ok_def around_def)
  have "restore_from tag n (i # is) (around [d]) (flat p ts) = restore_from tag (Suc n) is (around [d]) (flat p ?ts)"
    using replace_placeholder [OF tag p Cons.prems(2-4)] by simp
  also have "\<dots> = flat p (map (\<lambda>(t, q). (restored tag (Suc n) is (around [d]) t, q)) ?ts)"
    using Cons.prems ok by (intro Cons.IH) (auto simp: apart_map unspelled_map)
  also have "map (\<lambda>(t, q). (restored tag (Suc n) is (around [d]) t, q)) ?ts
      = map (\<lambda>(t, q). (restored tag n (i # is) (around [d]) t, q)) ts"
    using restored_other [OF i] by auto
  finally show ?case .
qed

section \<open>Back to WhatsApp\<close>

text \<open>Every run with its number among those of its kind.\<close>

fun numbered :: "nat \<Rightarrow> nat \<Rightarrow> (fmt \<times> string) list \<Rightarrow> ((fmt \<times> nat) \<times> string) list" where
  "numbered b k [] = []"
| "numbered b k ((Bold s, q) # ts) = ((Bold s, b), q) # numbered (Suc b) k ts"
| "numbered b k ((Strike s, q) # ts) = ((Strike s, k), q) # numbered b (Suc k) ts"
| "numbered b k ((Italic s, q) # ts) = ((Italic s, 0), q) # numbered b k ts"

fun bolds :: "(fmt \<times> string) list \<Rightarrow> string list" where
  "bolds [] = []"
| "bolds ((Bold s, q) # ts) = s # bolds ts"
| "bolds (_ # ts) = bolds ts"

fun strikes :: "(fmt \<times> string) list \<Rightarrow> string list" where
  "strikes [] = []"
| "strikes ((Strike s, q) # ts) = s # strikes ts"
| "strikes (_ # ts) = strikes ts"

fun strike_hidden :: "fmt \<times> nat \<Rightarrow> string" where
  "strike_hidden (Strike s, k) = placeholder ''S'' k"
| "strike_hidden (x, _) = chatwoot_form x"

fun both_hidden :: "fmt \<times> nat \<Rightarrow> string" where
  "both_hidden (Bold s, b) = placeholder ''B'' b"
| "both_hidden x = strike_hidden x"

fun italic_back :: "fmt \<times> nat \<Rightarrow> string" where
  "italic_back (Italic s, _) = around [underscore] s"
| "italic_back x = both_hidden x"

fun bold_back :: "fmt \<times> nat \<Rightarrow> string" where
  "bold_back (Bold s, _) = around [star] s"
| "bold_back x = italic_back x"

lemma numbered_map: "map (\<lambda>(t, q). (f (fst t), q)) (numbered b k ts) = map (\<lambda>(t, q). (f t, q)) ts"
  by (induction b k ts rule: numbered.induct) auto

lemma numbered_entries:
  "((t, m), q) \<in> set (numbered b k ts) \<Longrightarrow> (t, q) \<in> set ts
     \<and> (\<forall>s. t = Bold s \<longrightarrow> b \<le> m \<and> m - b < length (bolds ts) \<and> bolds ts ! (m - b) = s)
     \<and> (\<forall>s. t = Strike s \<longrightarrow> k \<le> m \<and> m - k < length (strikes ts) \<and> strikes ts ! (m - k) = s)"
  by (induction b k ts rule: numbered.induct) (auto simp: Suc_diff_le nth_Cons' le_Suc_eq)

lemma read_chatwoot_forms:
  assumes "fmt_ok x"
  shows "reads [tilde, tilde] (in_line tilde) (chatwoot_form x) (case x of Strike s \<Rightarrow> [Span s] | _ \<Rightarrow> map Ch (chatwoot_form x))"
  using plain_inner [OF assms] by (cases x) (simp_all add: reads_around reads_inert)

lemma placeholder_chars:
  assumes "tagged tag"
  shows "star \<notin> set (placeholder tag n)" "underscore \<notin> set (placeholder tag n)" "tilde \<notin> set (placeholder tag n)"
  using tag_chars [OF assms, of n] by (auto simp: placeholder_def)

lemma tags [simp]: "tagged ''B''" "tagged ''S''"
  by (simp_all add: tagged_def)

lemma read_hidden_forms:
  assumes "fmt_ok x"
  shows "reads [star, star] (\<lambda>c. c \<noteq> star) (strike_hidden (x, n)) (case x of Bold s \<Rightarrow> [Span s] | _ \<Rightarrow> map Ch (strike_hidden (x, n)))"
    "reads [star] (in_line star) (both_hidden (x, n)) (case x of Italic s \<Rightarrow> [Span s] | _ \<Rightarrow> map Ch (both_hidden (x, n)))"
  using plain_inner [OF assms] by (cases x; simp add: reads_around reads_single reads_inert placeholder_chars)+

lemma number_hit: "token_pieces d ok t = [Span s] \<Longrightarrow> number_tokens tag d ok n ((t, q) # ts) =
    (case number_tokens tag d ok (Suc n) ts of (us, inners) \<Rightarrow> ((placeholder tag n, q) # us, s # inners))"
  by simp

lemma number_miss: "token_pieces d ok t = map Ch t \<Longrightarrow> number_tokens tag d ok n ((t, q) # ts) =
    apfst ((#) (t, q)) (number_tokens tag d ok n ts)"
  by (cases t) (auto split: list.split piece.split)

lemma number_strikes:
  "\<forall>(t, q) \<in> set ts. fmt_ok t \<Longrightarrow> number_tokens ''S'' [tilde, tilde] (in_line tilde) k (map (\<lambda>(t, q). (chatwoot_form t, q)) ts)
     = (map (\<lambda>(t, q). (strike_hidden t, q)) (numbered b k ts), strikes ts)"
proof (induction b k ts rule: numbered.induct)
  case (2 b k s q ts)
  then show ?case using read_chatwoot_forms [of "Bold s"] by (simp add: reads_def number_miss del: number_tokens.simps)
next
  case (3 b k s q ts)
  then show ?case using read_chatwoot_forms [of "Strike s"] by (simp add: reads_def number_hit del: number_tokens.simps)
next
  case (4 b k s q ts)
  then show ?case using read_chatwoot_forms [of "Italic s"] by (simp add: reads_def number_miss del: number_tokens.simps)
qed simp

lemma number_bolds:
  "\<forall>(t, q) \<in> set ts. fmt_ok t \<Longrightarrow> number_tokens ''B'' [star, star] (\<lambda>c. c \<noteq> star) b (map (\<lambda>(t, q). (strike_hidden t, q)) (numbered b k ts))
     = (map (\<lambda>(t, q). (both_hidden t, q)) (numbered b k ts), bolds ts)"
proof (induction b k ts rule: numbered.induct)
  case (2 b k s q ts)
  then show ?case using read_hidden_forms(1) [of "Bold s" b] by (simp add: reads_def number_hit del: number_tokens.simps)
next
  case (3 b k s q ts)
  then show ?case using read_hidden_forms(1) [of "Strike s" k] by (simp add: reads_def number_miss del: number_tokens.simps)
next
  case (4 b k s q ts)
  then show ?case using read_hidden_forms(1) [of "Italic s" 0] by (simp add: reads_def number_miss del: number_tokens.simps)
qed simp

lemma numbered_fmt: "\<forall>(t, q) \<in> set ts. fmt_ok t \<Longrightarrow> ((t, m), q) \<in> set (numbered b k ts) \<Longrightarrow> fmt_ok t"
  using numbered_entries by fastforce

lemma numbered_apart: "apart ok (numbered b k ts) = apart ok ts" "unspelled (numbered b k ts) = unspelled ts"
proof -
  have "map (\<lambda>(t, q). (fst t, q)) (numbered b k ts) = ts"
    using numbered_map [of "\<lambda>t. t" b k ts] by (simp add: case_prod_unfold)
  then show "apart ok (numbered b k ts) = apart ok ts" "unspelled (numbered b k ts) = unspelled ts"
    using apart_map [of ok fst "numbered b k ts"] unspelled_map [of fst "numbered b k ts"] by simp_all
qed

lemma hidden_token_ok:
  assumes "fmt_ok t"
  shows "token_ok (italic_back (t, n))" "token_ok (bold_back (t, n))"
proof -
  have a: "token_ok (around [c] (inner_text t))" if "c \<in> {star, underscore, tilde}" for c
    using that plain_inner(5) [OF assms] by (auto simp: token_ok_def around_def)
  have p: "token_ok (placeholder tag n)" if "tagged tag" for tag
    using that by (auto simp: token_ok_def)
  show "token_ok (italic_back (t, n))" "token_ok (bold_back (t, n))"
    using a [of star] a [of underscore] p [of "''B''"] p [of "''S''"] by (cases t; simp)+
qed

lemma inner_no_nul: "(\<And>t q. (t, q) \<in> set ts \<Longrightarrow> fmt_ok t) \<Longrightarrow> \<forall>i \<in> set (bolds ts) \<union> set (strikes ts). nul \<notin> set i"
proof (induction ts)
  case (Cons u ts)
  obtain t q where u: "u = (t, q)" by (cases u)
  then have ok: "fmt_ok t" using Cons.prems by auto
  have rest: "\<forall>i \<in> set (bolds ts) \<union> set (strikes ts). nul \<notin> set i"
    using Cons.IH Cons.prems by (meson list.set_intros(2))
  show ?case using rest plain_inner(5) [OF ok] ok unfolding u by (cases t) auto
qed simp

lemma restore_tokens:
  assumes "tagged tag" "nul \<notin> set p" "d \<in> {star, underscore, tilde}" "\<forall>i \<in> set is. nul \<notin> set i"
    and "apart plain_char ts" "unspelled ts"
    and "\<And>t q. (t, q) \<in> set ts \<Longrightarrow> token_ok (h t)"
    and "\<And>t q. (t, q) \<in> set ts \<Longrightarrow> restored tag 0 is (around [d]) (h t) = g t"
  shows "restore_spans (flat p (map (\<lambda>(t, q). (h t, q)) ts)) tag is (around [d]) = flat p (map (\<lambda>(t, q). (g t, q)) ts)"
proof -
  have "restore_from tag 0 is (around [d]) (flat p (map (\<lambda>(t, q). (h t, q)) ts))
      = flat p (map (\<lambda>(t, q). (restored tag 0 is (around [d]) t, q)) (map (\<lambda>(t, q). (h t, q)) ts))"
    using assms(1-7) by (intro restore_flat) (auto simp: apart_map unspelled_map)
  also have "map (\<lambda>(t, q). (restored tag 0 is (around [d]) t, q)) (map (\<lambda>(t, q). (h t, q)) ts) = map (\<lambda>(t, q). (g t, q)) ts"
    using assms(8) by auto
  finally show ?thesis by (simp add: restore_spans_def)
qed

lemma bolds_come_back:
  assumes "((t, m), q) \<in> set (numbered b 0 ts)" "fmt_ok t" "b = 0"
  shows "restored ''B'' 0 (bolds ts) (around [star]) (italic_back (t, m)) = bold_back (t, m)"
    "restored ''S'' 0 (strikes ts) (around [tilde]) (bold_back (t, m)) = whatsapp_form t"
  using plain_inner(5) [OF assms(2)] numbered_entries [OF assms(1)] assms(3)
  by (cases t; auto simp: restored_other restored_at restored_other_tag)+

lemma to_whatsapp_render:
  assumes "doc_ok x" "unspelled (snd x)"
  shows "markdown_to_whatsapp (render chatwoot_form x) = render whatsapp_form x"
proof -
  obtain p ts where x: "x = (p, ts)" by fastforce
  note ok = doc_okD [OF assms(1) [unfolded x]]
  have all: "\<forall>(t, q) \<in> set ts. fmt_ok t" using ok(3) by auto
  define ns where "ns = numbered 0 0 ts"
  have ns: "apart plain_char ns" "unspelled ns" using ok(1) assms(2) x by (simp_all add: ns_def numbered_apart)
  have fmt: "fmt_ok t" if "((t, m), q) \<in> set ns" for t m q using that numbered_fmt [OF all] by (simp add: ns_def)
  let ?at = "\<lambda>h. flat p (map (\<lambda>(t, q). (h t, q)) ns)"
  have 1: "protect (render chatwoot_form x) ''S'' [tilde, tilde] (in_line tilde) = (?at strike_hidden, strikes ts)"
    using read_chatwoot_forms [OF ok(3)] number_strikes [OF all, of 0 0]
    unfolding render_def x fst_conv snd_conv by (intro flat_protect ok(1,2)) (auto simp: ns_def)
  have 2: "protect (?at strike_hidden) ''B'' [star, star] (\<lambda>c. c \<noteq> star) = (?at both_hidden, bolds ts)"
    using read_hidden_forms(1) [OF fmt] number_bolds [OF all, of 0 0]
    by (intro flat_protect ns(1) ok(2)) (auto simp: ns_def, blast)
  have r: "reads [star] (in_line star) (both_hidden t) (map Ch (both_hidden t)) \<and> italic_back t = both_hidden t
      \<or> reads [star] (in_line star) (both_hidden t) [Span (inner_text (fst t))] \<and> italic_back t = around [underscore] (inner_text (fst t))"
    if "(t, q) \<in> set ns" for t q
    using read_hidden_forms(2) [OF fmt, of "fst t" "snd t" q "snd t"] that by (cases t; cases "fst t") auto
  have 3: "replace_spans [star] (in_line star) (around [underscore]) (?at both_hidden) = ?at italic_back"
    using r by (intro flat_replace [where inner = "\<lambda>t. inner_text (fst t)"] ns(1) ok(2)) auto
  have 4: "restore_spans (?at italic_back) ''B'' (bolds ts) (around [star]) = ?at bold_back"
    using inner_no_nul [OF ok(3)] hidden_token_ok(1) [OF fmt] bolds_come_back(1) [OF _ fmt] ok(4)
    by (intro restore_tokens ns) (auto simp: ns_def)
  have 5: "restore_spans (?at bold_back) ''S'' (strikes ts) (around [tilde]) = ?at (\<lambda>t. whatsapp_form (fst t))"
    using inner_no_nul [OF ok(3)] hidden_token_ok(2) [OF fmt] bolds_come_back(2) [OF _ fmt] ok(4)
    by (intro restore_tokens ns) (auto simp: ns_def)
  have "?at (\<lambda>t. whatsapp_form (fst t)) = render whatsapp_form x"
    using numbered_map [of whatsapp_form 0 0 ts] by (simp add: render_def x ns_def)
  then show ?thesis
    using 1 2 3 4 5 by (simp add: markdown_to_whatsapp_def)
qed

section \<open>Properties\<close>



text \<open>
  Two texts outside that form. Plain characters between two struck runs that spell a placeholder are taken
  for one, and the NULs of the others stay in the text; and bold inside a struck run keeps its marks.
\<close>

lemma spelled_placeholders_corrupt_the_text:
  "nul \<in> set (markdown_to_whatsapp ''~~a~~B0~~b~~ **c**'')"
  by code_simp

lemma bold_inside_strike_keeps_its_marks:
  "markdown_to_whatsapp ''~~**a**~~'' = ''~**a**~''"
  by code_simp

end
