(* ===== verification/ChatwootInbound.thy ===== *)
theory ChatwootInbound
  imports ChatwootStore ChatwootMapper Json MessageService
begin

text \<open>
  The webhook that turns an attendant's reply into a WhatsApp message, \<^verbatim>\<open>internal/chatwoot/inbound/webhook.go\<close>.
  \<open>inbound_deps\<close> has the interfaces of \<^verbatim>\<open>Deps\<close> over any world; the errors the handler only prints are their texts.
\<close>

section \<open>Payloads\<close>

record cw_sender =
  sn_name :: string
  sn_type :: string

record cw_attachment =
  ax_url :: string
  ax_filename :: string

record cw_event_message =
  em_id :: int
  em_content :: string
  em_type :: string
  em_private :: bool
  em_source :: string
  em_sender :: "cw_sender option"
  em_attachments :: "cw_attachment list"
  em_reply_to :: "int option"
  em_attributes :: "(string \<times> json) list"
  em_conversation :: int
  em_deleted :: bool

record cw_contact_sender =
  cn_phone :: string
  cn_identifier :: string

record cw_event_conversation =
  ec_id :: int
  ec_inbox_source :: "string option"
  ec_contact :: "cw_contact_sender option"

record cw_event =
  ep_event :: string
  ep_message :: "cw_event_message option"
  ep_conversation :: "cw_event_conversation option"

record chatwoot_global =
  gl_enabled :: bool
  gl_message_delete :: bool
  gl_message_read :: bool
  gl_bot_contact :: string

record ('h, 'w) inbound_deps =
  id_global :: chatwoot_global
  id_config :: "uuid \<Rightarrow> 'w \<Rightarrow> chatwoot_config result \<times> 'w"
  id_by_chatwoot :: "uuid \<Rightarrow> int \<Rightarrow> 'w \<Rightarrow> correlation result \<times> 'w"
  id_latest :: "uuid \<Rightarrow> int \<Rightarrow> 'w \<Rightarrow> correlation result \<times> 'w"
  id_instance :: "uuid \<Rightarrow> 'w \<Rightarrow> wa_instance result \<times> 'w"
  id_enqueue :: "uuid \<Rightarrow> enqueue_input \<Rightarrow> 'w \<Rightarrow> (string + uuid) \<times> 'w"
  id_save :: "uuid \<Rightarrow> string \<Rightarrow> string \<Rightarrow> string \<Rightarrow> string \<Rightarrow> string \<Rightarrow> 'w \<Rightarrow> (string + media) \<times> 'w"
  id_session :: "uuid \<Rightarrow> 'w \<Rightarrow> 'h option"
  id_delete_message :: "'h \<Rightarrow> string \<Rightarrow> string \<Rightarrow> 'w \<Rightarrow> (string + unit) \<times> 'w"
  id_mark_read :: "'h \<Rightarrow> string \<Rightarrow> string \<Rightarrow> string \<Rightarrow> 'w \<Rightarrow> (string + unit) \<times> 'w"
  id_pair_phone :: "'h \<Rightarrow> string \<Rightarrow> 'w \<Rightarrow> (string + string) \<times> 'w"
  id_connect :: "'h \<Rightarrow> 'w \<Rightarrow> (string + string) \<times> 'w"
  id_disconnect :: "'h \<Rightarrow> 'w \<Rightarrow> (string + unit) \<times> 'w"
  id_chat :: "chatwoot_config \<Rightarrow> int \<Rightarrow> string \<Rightarrow> bool \<Rightarrow> 'w \<Rightarrow> (string + int) \<times> 'w"
  id_download :: "string \<Rightarrow> string \<Rightarrow> 'w \<Rightarrow> (string + string \<times> string) \<times> 'w"
  id_clear :: "uuid \<Rightarrow> 'w \<Rightarrow> 'w"
  id_print_error :: "storage_err \<Rightarrow> string"

definition operational_contact :: string where "operational_contact = ''123456''"
definition echo_prefix :: string where "echo_prefix = ''WAID:''"

definition a_acute :: string where "a_acute = [CHR 0xC3, CHR 0xA1]"
definition a_tilde :: string where "a_tilde = [CHR 0xC3, CHR 0xA3]"
definition a_circ :: string where "a_circ = [CHR 0xC3, CHR 0xA2]"
definition o_acute :: string where "o_acute = [CHR 0xC3, CHR 0xB3]"
definition i_acute :: string where "i_acute = [CHR 0xC3, CHR 0xAD]"
definition c_cedil :: string where "c_cedil = [CHR 0xC3, CHR 0xA7]"

section \<open>Reading a payload\<close>

definition conversation_id_of :: "cw_event \<Rightarrow> int" where
  "conversation_id_of p =
     (let own = (case ep_message p of Some m \<Rightarrow> em_conversation m | None \<Rightarrow> 0) in
      if own \<noteq> 0 then own
      else (case ep_conversation p of Some c \<Rightarrow> ec_id c | None \<Rightarrow> 0))"

definition is_deleted :: "cw_event_message \<Rightarrow> bool" where
  "is_deleted m \<longleftrightarrow> em_deleted m \<or> json_field ''deleted'' (em_attributes m) = Some (JBool True)"

definition operational_id :: "chatwoot_global \<Rightarrow> string" where
  "operational_id g = (if trim_space (gl_bot_contact g) \<noteq> [] then trim_space (gl_bot_contact g) else operational_contact)"

definition is_operational :: "chatwoot_global \<Rightarrow> cw_event \<Rightarrow> bool" where
  "is_operational g p =
     (case ep_conversation p of
        None \<Rightarrow> False
      | Some c \<Rightarrow> ec_inbox_source c = Some (operational_id g)
          \<or> (case ec_contact c of Some s \<Rightarrow> cn_identifier s = operational_id g | None \<Rightarrow> False))"

definition signed_text :: "chatwoot_config \<Rightarrow> cw_event_message \<Rightarrow> string" where
  "signed_text cfg m =
     (let converted = markdown_to_whatsapp (trim_space (em_content m)) in
      if em_type m = ''template'' then converted
      else if \<not> cg_sign_msg cfg then converted
      else if converted = [] then []
      else (let name = (case em_sender m of
                  Some s \<Rightarrow> if trim_space (sn_name s) \<noteq> [] then trim_space (sn_name s) else ''Atendente''
                | None \<Rightarrow> ''Atendente'');
                delim = (if cg_sign_delimiter cfg = [] then default_delimiter else cg_sign_delimiter cfg)
            in ''*'' @ name @ '':*'' @ delim @ converted))"

section \<open>Notes and read marks\<close>

definition post_private_note :: "('h, 'w) inbound_deps \<Rightarrow> chatwoot_config \<Rightarrow> int \<Rightarrow> string \<Rightarrow> 'w \<Rightarrow> 'w" where
  "post_private_note d cfg conversation content w =
     (if conversation = 0 \<or> trim_space content = [] then w
      else snd (id_chat d cfg conversation content True w))"

definition post_confirm :: "('h, 'w) inbound_deps \<Rightarrow> chatwoot_config \<Rightarrow> int \<Rightarrow> string \<Rightarrow> 'w \<Rightarrow> 'w" where
  "post_confirm d cfg conversation content w =
     (if conversation = 0 then w else snd (id_chat d cfg conversation content False w))"

definition mark_read_best_effort :: "('h, 'w) inbound_deps \<Rightarrow> uuid \<Rightarrow> int \<Rightarrow> 'w \<Rightarrow> 'w" where
  "mark_read_best_effort d i conversation w =
     (if \<not> gl_message_read (id_global d) \<or> conversation = 0 then w
      else case id_latest d i conversation w of
        (Inl _, w) \<Rightarrow> w
      | (Inr corr, w) \<Rightarrow>
          (case id_session d i w of
             None \<Rightarrow> w
           | Some h \<Rightarrow> snd (id_mark_read d h (co_contact_source corr) [] (co_wa_key corr) w)))"

section \<open>Replies\<close>

definition find_recipient :: "('h, 'w) inbound_deps \<Rightarrow> uuid \<Rightarrow> cw_event \<Rightarrow> 'w \<Rightarrow> (storage_err + string) \<times> 'w" where
  "find_recipient d i p w =
     (let fallback =
        (case ep_conversation p of
           None \<Rightarrow> []
         | Some c \<Rightarrow>
             (let inbox = (case ec_inbox_source c of Some s \<Rightarrow> trim_space s | None \<Rightarrow> []) in
              case ec_contact c of
                None \<Rightarrow> inbox
              | Some s \<Rightarrow>
                  if trim_space (cn_phone s) \<noteq> [] then trim_space (cn_phone s)
                  else if trim_space (cn_identifier s) \<noteq> [] then trim_space (cn_identifier s)
                  else inbox)) in
      if conversation_id_of p = 0 then (Inr fallback, w)
      else case id_latest d i (conversation_id_of p) w of
        (Inr corr, w) \<Rightarrow>
          (Inr (if trim_space (co_contact_source corr) \<noteq> [] then co_contact_source corr else fallback), w)
      | (Inl e, w) \<Rightarrow> (if e = SNotFound then Inr fallback else Inl e, w))"

text \<open>The correlation of the quoted message: a missing one is no quote, another error ends the webhook.\<close>

definition find_quoted :: "('h, 'w) inbound_deps \<Rightarrow> uuid \<Rightarrow> int option \<Rightarrow> 'w \<Rightarrow> (storage_err + string) \<times> 'w" where
  "find_quoted d i reply w =
     (case reply of
        None \<Rightarrow> (Inr [], w)
      | Some m \<Rightarrow>
          (case id_by_chatwoot d i m w of
             (Inl e, w) \<Rightarrow> (if e = SNotFound then Inr [] else Inl e, w)
           | (Inr corr, w) \<Rightarrow> (Inr (co_wa_key corr), w)))"

definition reply_input :: "string \<Rightarrow> string \<Rightarrow> string \<Rightarrow> enqueue_input" where
  "reply_input recipient body quoted =
     \<lparr>ei_type = ''text'', ei_to = recipient, ei_text = body, ei_caption = [], ei_filename = [], ei_ptt = False,
      ei_latitude = FFin 0, ei_longitude = FFin 0, ei_display_name = [], ei_vcard = [], ei_media = None, ei_quoted = quoted\<rparr>"

definition media_input :: "string \<Rightarrow> string \<Rightarrow> media \<Rightarrow> string \<Rightarrow> enqueue_input" where
  "media_input recipient caption stored quoted =
     \<lparr>ei_type = ''media'', ei_to = recipient, ei_text = [], ei_caption = caption, ei_filename = md_filename stored,
      ei_ptt = False, ei_latitude = FFin 0, ei_longitude = FFin 0, ei_display_name = [], ei_vcard = [],
      ei_media = Some (md_id stored), ei_quoted = quoted\<rparr>"

text \<open>One attachment; the flag says whether it was enqueued.\<close>

definition send_attachment ::
    "('h, 'w) inbound_deps \<Rightarrow> uuid \<Rightarrow> chatwoot_config \<Rightarrow> cw_event \<Rightarrow> int \<Rightarrow> string \<Rightarrow> string \<Rightarrow> string
      \<Rightarrow> nat \<Rightarrow> cw_attachment \<Rightarrow> 'w \<Rightarrow> bool \<times> 'w" where
  "send_attachment d i cfg p msg_id recipient body quoted n att w =
     (let note = (\<lambda>s w. post_private_note d cfg (conversation_id_of p) s w) in
      if trim_space (ax_url att) = [] then (False, w)
      else case id_download d (ax_url att) (cg_url cfg) w of
        (Inl e, w) \<Rightarrow> (False, note (''Falha ao baixar anexo: '' @ e) w)
      | (Inr (data, mime), w) \<Rightarrow>
          (let filename = (if trim_space (ax_filename att) = [] then ''attachment'' else trim_space (ax_filename att)) in
           case id_save d i ''outbound'' (''chatwoot-'' @ show_int msg_id @ ''-'' @ decimal n) mime filename data w of
             (Inl e, w) \<Rightarrow> (False, note (''Falha ao armazenar anexo: '' @ e) w)
           | (Inr stored, w) \<Rightarrow>
               (case id_enqueue d i (media_input recipient body stored quoted) w of
                  (Inl e, w) \<Rightarrow> (False, note (''Falha ao enviar m'' @ i_acute @ ''dia ao WhatsApp: '' @ e) w)
                | (Inr _, w) \<Rightarrow> (True, w))))"

fun send_attachments ::
    "('h, 'w) inbound_deps \<Rightarrow> uuid \<Rightarrow> chatwoot_config \<Rightarrow> cw_event \<Rightarrow> int \<Rightarrow> string \<Rightarrow> string \<Rightarrow> string
      \<Rightarrow> nat \<Rightarrow> cw_attachment list \<Rightarrow> 'w \<Rightarrow> nat \<times> 'w" where
  "send_attachments d i cfg p msg_id recipient body quoted n [] w = (0, w)"
| "send_attachments d i cfg p msg_id recipient body quoted n (a # as) w =
     (case send_attachment d i cfg p msg_id recipient body quoted n a w of
        (sent, w) \<Rightarrow>
          (case send_attachments d i cfg p msg_id recipient body quoted (Suc n) as w of
             (k, w) \<Rightarrow> (if sent then Suc k else k, w)))"

definition send_text_reply :: "('h, 'w) inbound_deps \<Rightarrow> uuid \<Rightarrow> chatwoot_config \<Rightarrow> cw_event \<Rightarrow> string \<Rightarrow> string \<Rightarrow> string
      \<Rightarrow> 'w \<Rightarrow> bool \<times> 'w" where
  "send_text_reply d i cfg p recipient body quoted w =
     (case id_enqueue d i (reply_input recipient body quoted) w of
        (Inl e, w) \<Rightarrow> (False, post_private_note d cfg (conversation_id_of p) (''Falha ao enviar ao WhatsApp: '' @ e) w)
      | (Inr _, w) \<Rightarrow> (True, w))"

definition mark_if :: "('h, 'w) inbound_deps \<Rightarrow> uuid \<Rightarrow> cw_event \<Rightarrow> bool \<Rightarrow> 'w \<Rightarrow> 'w" where
  "mark_if d i p sent w = (if sent then mark_read_best_effort d i (conversation_id_of p) w else w)"

definition handle_outgoing ::
    "('h, 'w) inbound_deps \<Rightarrow> uuid \<Rightarrow> chatwoot_config \<Rightarrow> cw_event \<Rightarrow> cw_event_message \<Rightarrow> 'w \<Rightarrow> nat \<times> 'w" where
  "handle_outgoing d i cfg p m w =
     (let note = (\<lambda>s w. post_private_note d cfg (conversation_id_of p) s w) in
      case find_recipient d i p w of
        (Inl e, w) \<Rightarrow> (200, note (''Falha ao resolver destinat'' @ a_acute @ ''rio: '' @ id_print_error d e) w)
      | (Inr recipient, w) \<Rightarrow>
          if trim_space recipient = [] then
            (200, note (''Falha ao enviar: destinat'' @ a_acute @ ''rio desconhecido.'') w)
          else (case find_quoted d i (em_reply_to m) w of
            (Inl e, w) \<Rightarrow> (500, w)
          | (Inr quoted, w) \<Rightarrow>
              (let body = signed_text cfg m in
               if em_attachments m \<noteq> [] then
                 (case send_attachments d i cfg p (em_id m) recipient body quoted 0 (em_attachments m) w of
                    (k, w) \<Rightarrow>
                      if k = 0 \<and> trim_space body \<noteq> [] then
                        (case send_text_reply d i cfg p recipient body quoted w of
                           (sent, w) \<Rightarrow> (200, mark_if d i p sent w))
                      else (200, mark_if d i p (k > 0) w))
               else if trim_space body = [] then (200, w)
               else (case send_text_reply d i cfg p recipient body quoted w of
                       (sent, w) \<Rightarrow> (200, mark_if d i p sent w)))))"

section \<open>The webhook\<close>

definition handle_message_updated ::
    "('h, 'w) inbound_deps \<Rightarrow> uuid \<Rightarrow> chatwoot_config \<Rightarrow> cw_event \<Rightarrow> cw_event_message \<Rightarrow> 'w \<Rightarrow> nat \<times> 'w" where
  "handle_message_updated d i cfg p m w =
     (if \<not> is_deleted m then (200, w)
      else if \<not> gl_message_delete (id_global d) then (200, w)
      else case id_by_chatwoot d i (em_id m) w of
        (Inl e, w) \<Rightarrow> (if e = SNotFound then 200 else 500, w)
      | (Inr corr, w) \<Rightarrow>
          (case id_session d i w of
             None \<Rightarrow> (200, w)
           | Some h \<Rightarrow>
               (case id_delete_message d h (co_contact_source corr) (co_wa_key corr) w of
                  (Inl e, w) \<Rightarrow>
                    (200, post_private_note d cfg (conversation_id_of p) (''Falha ao apagar no WhatsApp: '' @ e) w)
                | (Inr _, w) \<Rightarrow> (200, w))))"

definition handle_event :: "('h, 'w) inbound_deps \<Rightarrow> uuid \<Rightarrow> cw_event \<Rightarrow> 'w \<Rightarrow> nat \<times> 'w" where
  "handle_event d i p w =
     (if \<not> gl_enabled (id_global d) then (400, w)
      else case id_config d i w of
        (Inl e, w) \<Rightarrow> (if e = SNotFound then 200 else 500, w)
      | (Inr cfg, w) \<Rightarrow>
          if \<not> cg_enabled cfg then (200, w)
          else (case ep_message p of
            None \<Rightarrow> (200, w)
          | Some m \<Rightarrow>
              if em_private m then (200, w)
              else if (case em_sender m of Some s \<Rightarrow> sn_type s = ''agent_bot'' | None \<Rightarrow> False) then (200, w)
              else if strip_prefix echo_prefix (em_source m) \<noteq> None then (200, w)
              else if ep_event p = ''message_updated'' then handle_message_updated d i cfg p m w
              else if ep_event p \<noteq> ''message_created'' then (200, w)
              else if em_type m \<noteq> ''outgoing'' \<and> em_type m \<noteq> ''template'' then (200, w)
              else if is_operational (id_global d) p then (200, w)
              else handle_outgoing d i cfg p m w))"

section \<open>Operational commands\<close>

definition after_colon :: "string \<Rightarrow> string" where
  "after_colon s = (case cut_at CHR '':'' s of Some (_, r) \<Rightarrow> trim_space r | None \<Rightarrow> [])"

definition pair_by_phone :: "('h, 'w) inbound_deps \<Rightarrow> chatwoot_config \<Rightarrow> int \<Rightarrow> 'h \<Rightarrow> string \<Rightarrow> 'w \<Rightarrow> 'w" where
  "pair_by_phone d cfg conversation h number w =
     (case id_pair_phone d h number w of
        (Inl e, w) \<Rightarrow> post_confirm d cfg conversation (''Falha ao parear '' @ number @ '': '' @ e) w
      | (Inr code, w) \<Rightarrow>
          post_confirm d cfg conversation (''C'' @ o_acute @ ''digo de pareamento para '' @ number @ '': '' @ code) w)"

definition pair_by_qr :: "('h, 'w) inbound_deps \<Rightarrow> chatwoot_config \<Rightarrow> int \<Rightarrow> 'h \<Rightarrow> 'w \<Rightarrow> 'w" where
  "pair_by_qr d cfg conversation h w =
     (case id_connect d h w of
        (Inl e, w) \<Rightarrow> post_confirm d cfg conversation (''Falha ao iniciar pareamento: '' @ e) w
      | (Inr qr, w) \<Rightarrow>
          post_confirm d cfg conversation
            (''Pareamento pendente. Escaneie o QR Code para conectar o WhatsApp.''
             @ (if trim_space qr = [] then [] else '' QR: '' @ trim_space qr)) w)"

definition run_operational :: "('h, 'w) inbound_deps \<Rightarrow> uuid \<Rightarrow> chatwoot_config \<Rightarrow> string \<Rightarrow> int \<Rightarrow> 'w \<Rightarrow> 'w" where
  "run_operational d i cfg command conversation w =
     (let content = trim_space command; lower = to_lower content; confirm = post_confirm d cfg conversation in
      if lower = ''status'' then
        (case id_instance d i w of
           (Inl _, w) \<Rightarrow> confirm (''Falha ao obter estado da inst'' @ a_circ @ ''ncia.'') w
         | (Inr inst, w) \<Rightarrow>
             confirm (''Inst'' @ a_circ @ ''ncia '' @ inst_name inst @ '': '' @ inst_status inst @ ''.''
               @ (if trim_space (inst_jid inst) = [] then [] else '' JID: '' @ trim_space (inst_jid inst))) w)
      else if lower = ''init'' \<or> strip_prefix ''init:'' lower \<noteq> None then
        (case id_session d i w of
           None \<Rightarrow> confirm (''Sess'' @ a_tilde @ ''o n'' @ a_tilde @ ''o encontrada para parear.'') w
         | Some h \<Rightarrow>
             if after_colon content \<noteq> [] then pair_by_phone d cfg conversation h (after_colon content) w
             else pair_by_qr d cfg conversation h w)
      else if lower = ''clearcache'' then confirm ''Cache limpo.'' (id_clear d i w)
      else if lower = ''disconnect'' then
        (case id_session d i w of
           None \<Rightarrow> confirm (''Sess'' @ a_tilde @ ''o n'' @ a_tilde @ ''o encontrada para desconectar.'') w
         | Some h \<Rightarrow>
             (case id_disconnect d h w of
                (Inl e, w) \<Rightarrow> confirm (''Falha ao desconectar: '' @ e) w
              | (Inr _, w) \<Rightarrow> confirm (''WhatsApp desconectado pela opera'' @ c_cedil @ a_tilde @ ''o.'') w))
      else confirm ''Comandos: status, init[:number], clearcache, disconnect.'' w)"

definition handle_command :: "('h, 'w) inbound_deps \<Rightarrow> uuid \<Rightarrow> string \<Rightarrow> int \<Rightarrow> 'w \<Rightarrow> nat \<times> 'w" where
  "handle_command d i command conversation w =
     (if \<not> gl_enabled (id_global d) then (400, w)
      else case id_config d i w of
        (Inl e, w) \<Rightarrow> (if e = SNotFound then 200 else 500, w)
      | (Inr cfg, w) \<Rightarrow>
          if \<not> cg_enabled cfg then (200, w)
          else (200, run_operational d i cfg command conversation w))"

section \<open>What a webhook queues\<close>

text \<open>The replies: what makes an event one, and what may be queued for it.\<close>

definition is_reply :: "chatwoot_global \<Rightarrow> cw_event \<Rightarrow> cw_event_message \<Rightarrow> bool" where
  "is_reply g p m \<longleftrightarrow> gl_enabled g \<and> ep_message p = Some m \<and> ep_event p = ''message_created'' \<and> \<not> em_private m
     \<and> em_type m \<in> {''outgoing'', ''template''} \<and> (case em_sender m of Some s \<Rightarrow> sn_type s \<noteq> ''agent_bot'' | None \<Rightarrow> True)
     \<and> strip_prefix echo_prefix (em_source m) = None \<and> \<not> is_operational g p"

definition reply_inputs :: "string \<Rightarrow> nat \<Rightarrow> string \<Rightarrow> string \<Rightarrow> enqueue_input list \<Rightarrow> bool" where
  "reply_inputs body attachments recipient quoted inps \<longleftrightarrow>
     inps = [reply_input recipient body quoted]
     \<or> (\<exists>stored. inps = map (\<lambda>s. media_input recipient body s quoted) stored \<and> length stored \<le> attachments)"

text \<open>
  The contract the handler has with its surroundings, for a queue: only an enqueue changes it, by the message of
  its input when it succeeds.
\<close>

locale inbound_queue =
  fixes d :: "('h, 'w) inbound_deps" and queue :: "'w \<Rightarrow> 'm list" and sent_as :: "uuid \<Rightarrow> enqueue_input \<Rightarrow> 'm \<Rightarrow> bool"
  assumes reads: "queue (snd (id_config d i w)) = queue w" "queue (snd (id_by_chatwoot d i n w)) = queue w"
      "queue (snd (id_latest d i n w)) = queue w"
    and calls: "queue (snd (id_chat d cfg n s b w)) = queue w" "queue (snd (id_download d s t w)) = queue w"
      "queue (snd (id_save d i a1 a2 a3 a4 a5 w)) = queue w" "queue (snd (id_delete_message d h s t w)) = queue w"
      "queue (snd (id_mark_read d h s t u w)) = queue w"
    and enqueue: "id_enqueue d i inp w = (r, w') \<Longrightarrow>
      (case r of Inl _ \<Rightarrow> queue w' = queue w | Inr _ \<Rightarrow> \<exists>m. queue w' = queue w @ [m] \<and> sent_as i inp m)"
begin

lemma reads_fst:
  "id_config d i w = (r1, w') \<Longrightarrow> queue w' = queue w" "id_by_chatwoot d i n w = (r2, w') \<Longrightarrow> queue w' = queue w"
  "id_latest d i n w = (r3, w') \<Longrightarrow> queue w' = queue w" "id_download d s t w = (r4, w') \<Longrightarrow> queue w' = queue w"
  "id_save d i a1 a2 a3 a4 a5 w = (r5, w') \<Longrightarrow> queue w' = queue w" "id_delete_message d h s t w = (r6, w') \<Longrightarrow> queue w' = queue w"
  using reads calls by (metis snd_conv)+

lemma queue_notes [simp]:
  "queue (post_private_note d cfg n s w) = queue w" "queue (mark_read_best_effort d i n w) = queue w"
  "queue (mark_if d i p sent w) = queue w"
proof -
  show "queue (post_private_note d cfg n s w) = queue w" by (simp add: post_private_note_def calls)
  have *: "queue (mark_read_best_effort d i n w) = queue w" for n
  proof (cases "id_latest d i n w")
    case (Pair r w1)
    then show ?thesis using reads(3) [of i n w]
      by (cases r) (auto simp: mark_read_best_effort_def calls split: option.splits)
  qed
  show "queue (mark_read_best_effort d i n w) = queue w" by (rule *)
  show "queue (mark_if d i p sent w) = queue w" by (simp add: mark_if_def *)
qed

lemma attachment_queues:
  assumes "send_attachment d i cfg p k recipient body quoted n a w = (sent, w')"
  shows "if sent then \<exists>m stored. queue w' = queue w @ [m] \<and> sent_as i (media_input recipient body stored quoted) m
    else queue w' = queue w"
proof (cases "trim_space (ax_url a) = []")
  case True
  then show ?thesis using assms by (auto simp: send_attachment_def)
next
  case False
  obtain r1 w1 where dl: "id_download d (ax_url a) (cg_url cfg) w = (r1, w1)" by fastforce
  show ?thesis
  proof (cases r1)
    case (Inl e)
    then show ?thesis using assms False dl reads_fst(4) [OF dl] by (auto simp: send_attachment_def Let_def)
  next
    case (Inr content)
    obtain data mime where content: "content = (data, mime)" by fastforce
    let ?name = "if trim_space (ax_filename a) = [] then ''attachment'' else trim_space (ax_filename a)"
    obtain r2 w2 where sv: "id_save d i ''outbound'' (''chatwoot-'' @ show_int k @ ''-'' @ decimal n) mime ?name data w1 = (r2, w2)"
      by fastforce
    show ?thesis
    proof (cases r2)
      case (Inl e)
      then show ?thesis
        using assms False dl Inr content sv reads_fst(4) [OF dl] reads_fst(5) [OF sv] by (auto simp: send_attachment_def Let_def)
    next
      case stored: (Inr stored)
      obtain r3 w3 where en: "id_enqueue d i (media_input recipient body stored quoted) w2 = (r3, w3)" by fastforce
      show ?thesis
        using assms False dl Inr content sv stored en reads_fst(4) [OF dl] reads_fst(5) [OF sv] enqueue [OF en]
        by (cases r3) (auto simp: send_attachment_def Let_def)
    qed
  qed
qed

lemma attachments_queue:
  "send_attachments d i cfg p k recipient body quoted n as w = (sent, w') \<Longrightarrow>
     \<exists>stored ms. queue w' = queue w @ ms \<and> list_all2 (sent_as i) (map (\<lambda>s. media_input recipient body s quoted) stored) ms
       \<and> length stored = sent \<and> sent \<le> length as"
proof (induction as arbitrary: n w w' sent)
  case Nil
  then show ?case by auto
next
  case (Cons a as)
  obtain s w1 where a: "send_attachment d i cfg p k recipient body quoted n a w = (s, w1)" by fastforce
  obtain l w2 where as: "send_attachments d i cfg p k recipient body quoted (Suc n) as w1 = (l, w2)" by fastforce
  obtain stored ms where rest: "queue w2 = queue w1 @ ms"
    "list_all2 (sent_as i) (map (\<lambda>s. media_input recipient body s quoted) stored) ms" "length stored = l" "l \<le> length as"
    using Cons.IH [OF as] by blast
  have r: "sent = (if s then Suc l else l)" "w' = w2" using Cons.prems a as by auto
  show ?case
  proof (cases s)
    case True
    then obtain m st where "queue w1 = queue w @ [m]" "sent_as i (media_input recipient body st quoted) m"
      using attachment_queues [OF a] by auto
    then show ?thesis using rest r True by (intro exI [of _ "st # stored"] exI [of _ "m # ms"]) simp
  next
    case False
    then show ?thesis using attachment_queues [OF a] rest r by (intro exI [of _ stored] exI [of _ ms]) simp
  qed
qed

lemma text_queues:
  assumes "send_text_reply d i cfg p recipient body quoted w = (sent, w')"
  shows "if sent then \<exists>m. queue w' = queue w @ [m] \<and> sent_as i (reply_input recipient body quoted) m else queue w' = queue w"
proof (cases "id_enqueue d i (reply_input recipient body quoted) w")
  case (Pair r w1)
  then show ?thesis using assms enqueue [OF Pair] by (cases r) (auto simp: send_text_reply_def)
qed

lemma recipient_reads: "find_recipient d i p w = (r, w') \<Longrightarrow> queue w' = queue w"
  by (auto simp: find_recipient_def Let_def dest: reads_fst split: if_splits prod.splits sum.splits)

lemma quoted_reads: "find_quoted d i q w = (r, w') \<Longrightarrow> queue w' = queue w"
  by (auto simp: find_quoted_def dest: reads_fst split: option.splits if_splits prod.splits sum.splits)

lemma updates_queue_nothing: "handle_message_updated d i cfg p m w = (s, w') \<Longrightarrow> queue w' = queue w"
  by (auto simp: handle_message_updated_def dest!: reads_fst split: option.splits if_splits prod.splits sum.splits)

end

context inbound_queue
begin

definition queued_reply :: "uuid \<Rightarrow> chatwoot_config \<Rightarrow> cw_event_message \<Rightarrow> 'w \<Rightarrow> nat \<Rightarrow> 'w \<Rightarrow> bool" where
  "queued_reply i cfg m w s w' \<longleftrightarrow>
     (\<exists>recipient quoted inps ms. queue w' = queue w @ ms \<and> list_all2 (sent_as i) inps ms
        \<and> (ms \<noteq> [] \<longrightarrow> s = 200 \<and> reply_inputs (signed_text cfg m) (length (em_attachments m)) recipient quoted inps))"

lemma outgoing_queues:
  assumes "handle_outgoing d i cfg p m w = (s, w')"
  shows "queued_reply i cfg m w s w'"
proof -
  let ?body = "signed_text cfg m" and ?n = "length (em_attachments m)"
  have unchanged: "queued_reply i cfg m w s w'" if "queue w' = queue w" for s w'
    unfolding queued_reply_def using that by (intro exI [of _ "[]"]) simp
  obtain r1 w1 where rc: "find_recipient d i p w = (r1, w1)" by fastforce
  note q1 = recipient_reads [OF rc]
  show ?thesis
  proof (cases r1)
    case (Inl e)
    then have "queue w' = queue w" using assms rc q1 by (auto simp: handle_outgoing_def Let_def)
    then show ?thesis by (rule unchanged)
  next
    case recipient: (Inr recipient)
    show ?thesis
    proof (cases "trim_space recipient = []")
      case True
      then show ?thesis using assms rc q1 recipient by (intro unchanged) (auto simp: handle_outgoing_def Let_def)
    next
      case False
      obtain r2 w2 where qt: "find_quoted d i (em_reply_to m) w1 = (r2, w2)" by fastforce
      have q2: "queue w2 = queue w" using quoted_reads [OF qt] q1 by simp
      show ?thesis
      proof (cases r2)
        case (Inl e)
        then show ?thesis using assms rc q2 recipient False qt by (intro unchanged) (auto simp: handle_outgoing_def Let_def)
      next
        case quoted: (Inr quoted)
        have texted: "queued_reply i cfg m w 200 (mark_if d i p sent w4)"
          if "send_text_reply d i cfg p recipient ?body quoted w3 = (sent, w4)" "queue w3 = queue w" for w3 sent w4
        proof -
          note tr = that(1) and same = that(2)
          show ?thesis
          proof (cases sent)
            case True
            then obtain m1 where "queue w4 = queue w @ [m1]" "sent_as i (reply_input recipient ?body quoted) m1"
              using text_queues [OF tr] same by auto
            then show ?thesis unfolding queued_reply_def
              by (intro exI [of _ recipient] exI [of _ quoted] exI [of _ "[reply_input recipient ?body quoted]"] exI [of _ "[m1]"])
                 (simp add: reply_inputs_def)
          next
            case False
            then show ?thesis using text_queues [OF tr] same by (intro unchanged) simp
          qed
        qed
        obtain sent w4 where tx: "send_text_reply d i cfg p recipient ?body quoted w2 = (sent, w4)" by fastforce
        show ?thesis
        proof (cases "em_attachments m = []")
          case True
          then show ?thesis
            using assms rc recipient False qt quoted tx q2 texted [OF tx q2] unchanged [of w2 200]
            by (auto simp: handle_outgoing_def Let_def split: if_splits)
        next
          case attached: False
          obtain k w3 where at: "send_attachments d i cfg p (em_id m) recipient ?body quoted 0 (em_attachments m) w2 = (k, w3)"
            by fastforce
          obtain stored ms where ms: "queue w3 = queue w2 @ ms"
            "list_all2 (sent_as i) (map (\<lambda>s. media_input recipient ?body s quoted) stored) ms"
            "length stored = k" "k \<le> ?n"
            using attachments_queue [OF at] by blast
          obtain sent5 w5 where tx3: "send_text_reply d i cfg p recipient ?body quoted w3 = (sent5, w5)" by fastforce
          show ?thesis
          proof (cases "k = 0 \<and> trim_space ?body \<noteq> []")
            case True
            then have "ms = []" using ms by auto
            then have q3: "queue w3 = queue w" using ms q2 by simp
            show ?thesis
              using assms rc recipient False qt quoted attached at True tx3 texted [OF tx3 q3]
              by (auto simp: handle_outgoing_def Let_def)
          next
            case media: False
            then have "s = 200 \<and> queue w' = queue w @ ms"
              using assms rc recipient False qt quoted attached at ms q2 by (auto simp: handle_outgoing_def Let_def)
            then show ?thesis unfolding queued_reply_def
              using ms by (intro exI [of _ recipient] exI [of _ quoted] exI [of _ "map (\<lambda>s. media_input recipient ?body s quoted) stored"]
                  exI [of _ ms]) (auto simp: reply_inputs_def)
          qed
        qed
      qed
    qed
  qed
qed

lemma event_queues:
  assumes "handle_event d i p w = (s, w')"
  shows "queue w' = queue w \<or>
    (\<exists>cfg w1 m recipient quoted inps ms. id_config d i w = (Inr cfg, w1) \<and> cg_enabled cfg \<and> is_reply (id_global d) p m
       \<and> s = 200 \<and> queue w' = queue w @ ms \<and> list_all2 (sent_as i) inps ms
       \<and> reply_inputs (signed_text cfg m) (length (em_attachments m)) recipient quoted inps)"
proof (cases "\<exists>cfg w1 m. id_config d i w = (Inr cfg, w1) \<and> cg_enabled cfg \<and> is_reply (id_global d) p m")
  case True
  then obtain cfg w1 m where c: "id_config d i w = (Inr cfg, w1)" "cg_enabled cfg" "is_reply (id_global d) p m" by blast
  then have "handle_outgoing d i cfg p m w1 = (s, w')"
    using assms by (auto simp: handle_event_def is_reply_def split: option.splits if_splits)
  then obtain recipient quoted inps ms where ms: "queue w' = queue w @ ms" "list_all2 (sent_as i) inps ms"
    "ms \<noteq> [] \<Longrightarrow> s = 200 \<and> reply_inputs (signed_text cfg m) (length (em_attachments m)) recipient quoted inps"
    using outgoing_queues reads_fst(1) [OF c(1)] unfolding queued_reply_def by metis
  then show ?thesis using c by (cases "ms = []") (simp, blast)
next
  case False
  obtain r w1 where c: "id_config d i w = (r, w1)" by fastforce
  have "queue w' = queue w"
  proof (cases r)
    case (Inl e)
    then show ?thesis using assms c reads_fst(1) [OF c] by (auto simp: handle_event_def split: if_splits)
  next
    case (Inr cfg)
    show ?thesis
    proof (cases "\<exists>m. ep_message p = Some m \<and> handle_event d i p w = handle_message_updated d i cfg p m w1")
      case True
      then show ?thesis using assms updates_queue_nothing reads_fst(1) [OF c] by metis
    next
      case other: False
      have "w' = w \<or> w' = w1"
        using assms c Inr False other
        by (auto simp: handle_event_def is_reply_def split: option.splits if_splits)
      then show ?thesis using reads_fst(1) [OF c] by auto
    qed
  qed
  then show ?thesis by blast
qed

end

section \<open>The open webhook and the commands\<close>

text \<open>Rewriting inside the branches.\<close>

lemmas branch_congs = sum.case_cong prod.case_cong option.case_cong if_cong

text \<open>
  C34: the open webhook cannot pair, connect, disconnect or clear anything, nor read the state of a connection: with
  any other operations in the place of these it does exactly the same.
\<close>

theorem open_webhook_never_commands:
  "handle_event (d\<lparr>id_instance := x1, id_pair_phone := x2, id_connect := x3, id_disconnect := x4, id_clear := x5\<rparr>) i p w
     = handle_event d i p w"
proof -
  let ?d = "d\<lparr>id_instance := x1, id_pair_phone := x2, id_connect := x3, id_disconnect := x4, id_clear := x5\<rparr>"
  have same_notes: "post_private_note ?d = post_private_note d" "mark_if ?d = mark_if d"
    by (intro ext, simp add: post_private_note_def mark_if_def mark_read_best_effort_def cong: branch_congs)+
  have reads: "find_recipient ?d = find_recipient d" "find_quoted ?d = find_quoted d"
    by (intro ext, simp add: find_recipient_def find_quoted_def Let_def cong: branch_congs)+
  have one: "send_attachment ?d = send_attachment d" "send_text_reply ?d = send_text_reply d"
    by (intro ext, simp add: send_attachment_def send_text_reply_def same_notes Let_def cong: branch_congs)+
  have "send_attachments ?d i cfg p k r b q n as w = send_attachments d i cfg p k r b q n as w" for i cfg p k r b q n as w
    by (induction as arbitrary: n w) (simp_all add: one)
  then have all: "send_attachments ?d = send_attachments d" by (intro ext)
  have "handle_outgoing ?d = handle_outgoing d" "handle_message_updated ?d = handle_message_updated d"
    by (intro ext, simp add: handle_outgoing_def handle_message_updated_def same_notes reads one all Let_def cong: branch_congs)+
  then show ?thesis by (simp add: handle_event_def cong: branch_congs)
qed

text \<open>
  C18: an event answers 200, 400 or 500, and 500 only when a read of the store failed: no send, download, storing
  of an attachment, note, deletion or read mark that fails makes the webhook fail.
\<close>

theorem failing_sends_do_not_fail_the_webhook:
  assumes "fst (handle_event d i p w) \<notin> {200, 400}"
  shows "fst (handle_event d i p w) = 500 \<and>
    (\<exists>e. e \<noteq> SNotFound \<and> (fst (id_config d i w) = Inl e \<or> (\<exists>n w1. fst (id_by_chatwoot d i n w1) = Inl e)))"
proof -
  let ?failed = "\<exists>e n w1. e \<noteq> SNotFound \<and> fst (id_by_chatwoot d i n w1) = Inl e"
  have quoted: ?failed if "find_quoted d i q w1 = (Inl e, w2)" for q w1 e w2
    using that by (auto simp: find_quoted_def split: option.splits prod.splits sum.splits if_splits) (metis fst_conv)
  have out: "fst (handle_outgoing d i cfg p m w1) = 200 \<or> fst (handle_outgoing d i cfg p m w1) = 500 \<and> ?failed" for cfg m w1
  proof (cases "find_recipient d i p w1")
    case (Pair r1 w2)
    show ?thesis
    proof (cases r1)
      case (Inl e)
      then show ?thesis using Pair by (simp add: handle_outgoing_def)
    next
      case (Inr recipient)
      show ?thesis
      proof (cases "find_quoted d i (em_reply_to m) w2")
        case two: (Pair r2 w3)
        show ?thesis
        proof (cases r2)
          case (Inl e)
          then show ?thesis using Pair \<open>r1 = _\<close> two quoted by (simp add: handle_outgoing_def)
        next
          case (Inr q)
          then show ?thesis using Pair \<open>r1 = _\<close> two by (simp add: handle_outgoing_def Let_def split_beta)
        qed
      qed
    qed
  qed
  have upd: "fst (handle_message_updated d i cfg p m w1) = 200 \<or> fst (handle_message_updated d i cfg p m w1) = 500 \<and> ?failed" for cfg m w1
  proof (cases "id_by_chatwoot d i (em_id m) w1")
    case (Pair r w2)
    then show ?thesis
      by (cases r) (auto simp: handle_message_updated_def split: prod.splits sum.splits option.splits, metis fst_conv)
  qed
  show ?thesis
  proof (cases "id_config d i w")
    case (Pair r w1)
    show ?thesis
    proof (cases r)
      case (Inl e)
      then show ?thesis using assms Pair by (auto simp: handle_event_def split: if_splits)
    next
      case (Inr cfg)
      have "fst (handle_event d i p w) \<in> {200, 400}" if "ep_message p = None"
        using Pair Inr that by (simp add: handle_event_def)
      moreover have "fst (handle_event d i p w) \<in> {200, 400} \<or> handle_event d i p w = handle_message_updated d i cfg p m w1
        \<or> handle_event d i p w = handle_outgoing d i cfg p m w1" if "ep_message p = Some m" for m
        using Pair Inr that by (auto simp: handle_event_def)
      ultimately obtain m where "handle_event d i p w = handle_message_updated d i cfg p m w1
        \<or> handle_event d i p w = handle_outgoing d i cfg p m w1"
        using assms by (cases "ep_message p") blast+
      then show ?thesis using assms out [of cfg m w1] upd [of cfg m w1] by auto
    qed
  qed
qed

definition broken_store :: "(unit, unit) inbound_deps" where
  "broken_store =
     \<lparr>id_global = \<lparr>gl_enabled = True, gl_message_delete = True, gl_message_read = True, gl_bot_contact = []\<rparr>,
      id_config = (\<lambda>_ w. (Inl (SDriver []), w)), id_by_chatwoot = (\<lambda>_ _ w. (Inl SNotFound, w)),
      id_latest = (\<lambda>_ _ w. (Inl SNotFound, w)), id_instance = (\<lambda>_ w. (Inl SNotFound, w)),
      id_enqueue = (\<lambda>_ _ w. (Inl [], w)), id_save = (\<lambda>_ _ _ _ _ _ w. (Inl [], w)), id_session = (\<lambda>_ _. None),
      id_delete_message = (\<lambda>_ _ _ w. (Inl [], w)), id_mark_read = (\<lambda>_ _ _ _ w. (Inl [], w)),
      id_pair_phone = (\<lambda>_ _ w. (Inl [], w)), id_connect = (\<lambda>_ w. (Inl [], w)), id_disconnect = (\<lambda>_ w. (Inl [], w)),
      id_chat = (\<lambda>_ _ _ _ w. (Inl [], w)), id_download = (\<lambda>_ _ w. (Inl [], w)), id_clear = (\<lambda>_ w. w),
      id_print_error = (\<lambda>_. [])\<rparr>"

theorem failing_sends_do_not_fail_the_webhook_witness:
  "fst (handle_event broken_store 1 \<lparr>ep_event = [], ep_message = None, ep_conversation = None\<rparr> ()) = 500"
  by (rule failing_sends_do_not_fail_the_webhook [THEN conjunct1]) (simp add: handle_event_def broken_store_def)

end
