(* ===== verification/AttachmentGate.thy ===== *)
theory AttachmentGate
  imports Ssrf
begin

text \<open>
  The download of a Chatwoot attachment, \<^verbatim>\<open>internal/chatwoot/inbound/ssrf.go\<close> and the downloader of
  \<^verbatim>\<open>adapters.go\<close>. The gate's address lists are those of the webhooks. \<open>env n\<close> is what the resolver knows at the
  \<open>n\<close>-th moment: the gate asks it before a request and the transport asks it again to connect. Names are looked up
  in lower case without a final dot; the server at an address is a parameter.
\<close>

definition max_attachment_redirects :: nat where
  "max_attachment_redirects = 3"

definition resolve_attachment_host :: "net_env \<Rightarrow> string \<Rightarrow> ip list option" where
  "resolve_attachment_host env host =
     (case parse_ip env host of
        Some a \<Rightarrow> Some [a]
      | None \<Rightarrow> (case lookup_ip env host of None \<Rightarrow> None | Some ips \<Rightarrow> if ips = [] then None else Some ips))"

definition is_always_blocked :: "ip \<Rightarrow> bool" where
  "is_always_blocked a \<longleftrightarrow> a \<in> set metadata_ipv4 \<or> in_link_local_nets a"

definition is_blocked_ip :: "ip \<Rightarrow> bool" where
  "is_blocked_ip a \<longleftrightarrow> ip_is_unspecified a \<or> ip_is_loopback a \<or> ip_is_link_local_unicast a
     \<or> ip_is_link_local_multicast a \<or> ip_is_multicast a \<or> ip_is_private a \<or> in_carrier_grade_nat a"

definition chatwoot_host_matches :: "net_env \<Rightarrow> string \<Rightarrow> ip list \<Rightarrow> string \<Rightarrow> bool" where
  "chatwoot_host_matches env host ips chatwoot_url =
     (let trimmed = trim_space chatwoot_url in
      if trimmed = [] then False
      else case url_parse env trimmed of
        None \<Rightarrow> False
      | Some u \<Rightarrow>
          let wanted = normal_host u in
          if wanted = [] then False
          else if host = wanted then True
          else case resolve_attachment_host env wanted of
            None \<Rightarrow> False
          | Some resolved \<Rightarrow> list_ex (\<lambda>a. list_ex (\<lambda>b. a = b) resolved) ips)"

definition validate_attachment_url :: "net_env \<Rightarrow> string \<Rightarrow> string \<Rightarrow> ssrf_err + unit" where
  "validate_attachment_url env raw chatwoot_url =
     (let trimmed = trim_space raw in
      if trimmed = [] then Inl EmptyUrl
      else case url_parse env trimmed of
        None \<Rightarrow> Inl (UnparseableUrl trimmed)
      | Some u \<Rightarrow>
          if url_scheme u \<noteq> ''http'' \<and> url_scheme u \<noteq> ''https'' then Inl (BadScheme (url_scheme u))
          else if url_has_user u then Inl UserinfoNotAllowed
          else let host = normal_host u in
            if host = [] then Inl EmptyHost
            else case resolve_attachment_host env host of
              None \<Rightarrow> Inl (CannotResolve host)
            | Some ips \<Rightarrow>
                if list_ex is_always_blocked ips then Inl (BlockedAddress host)
                else if chatwoot_host_matches env host ips chatwoot_url then Inr ()
                else if list_ex is_blocked_ip ips then Inl (NonPublicAddress host)
                else Inr ())"

section \<open>The download\<close>

datatype http_answer = Redirect string | Answer nat string string

datatype download_err =
    AttachmentRejected ssrf_err | DownloadFailed | DownloadRedirects | DownloadStatus nat

text \<open>The transport connects to the first address of the host it resolves itself.\<close>

definition dial_address :: "net_env \<Rightarrow> string \<Rightarrow> ip option" where
  "dial_address env target =
     (case url_parse env (trim_space target) of
        None \<Rightarrow> None
      | Some u \<Rightarrow> map_option hd (resolve_attachment_host env (normal_host u)))"

definition read_limit :: "int \<Rightarrow> nat" where
  "read_limit max_bytes = (let limit = wrap64 (max_bytes + 1) in if limit \<le> 1 then 2 ^ 26 else nat limit)"

definition content_type :: "(string \<Rightarrow> string) \<Rightarrow> string \<Rightarrow> string \<Rightarrow> string" where
  "content_type detect header_type body =
     (let mime = trim_space header_type;
          mime = (case cut_at CHR '';'' mime of Some (kind, _) \<Rightarrow> trim_space kind | None \<Rightarrow> mime)
      in if mime = [] then detect body else mime)"

text \<open>\<open>via\<close> requests were made before this one; the result has the addresses connected to.\<close>

function fetch_attachment ::
    "(nat \<Rightarrow> net_env) \<Rightarrow> (ip \<Rightarrow> string \<Rightarrow> http_answer option) \<Rightarrow> (string \<Rightarrow> string) \<Rightarrow> int \<Rightarrow> string \<Rightarrow> nat \<Rightarrow> string
      \<Rightarrow> (download_err + string \<times> string) \<times> ip list" where
  "fetch_attachment env server detect max_bytes allow via target =
     (case dial_address (env (2 * via + 1)) target of
        None \<Rightarrow> (Inl DownloadFailed, [])
      | Some a \<Rightarrow>
          (case server a target of
             None \<Rightarrow> (Inl DownloadFailed, [a])
           | Some (Answer status ctype body) \<Rightarrow>
               (if status < 200 \<or> 299 < status then Inl (DownloadStatus status)
                else (let got = take (read_limit max_bytes) body in Inr (got, content_type detect ctype got)), [a])
           | Some (Redirect next_url) \<Rightarrow>
               if Suc via > max_attachment_redirects then (Inl DownloadRedirects, [a])
               else (case validate_attachment_url (env (2 * Suc via)) next_url allow of
                  Inl e \<Rightarrow> (Inl (AttachmentRejected e), [a])
                | Inr _ \<Rightarrow> apsnd ((#) a) (fetch_attachment env server detect max_bytes allow (Suc via) next_url))))"
  by pat_completeness auto
termination
  by (relation "measure (\<lambda>(_, _, _, _, _, via, _). Suc max_attachment_redirects - via)") auto

declare fetch_attachment.simps [simp del]

definition download_attachment where
  "download_attachment env server detect max_bytes target allow =
     (case validate_attachment_url (env 0) target allow of
        Inl e \<Rightarrow> (Inl (AttachmentRejected e), [])
      | Inr _ \<Rightarrow> fetch_attachment env server detect max_bytes allow 0 target)"

section \<open>What is reached\<close>

text \<open>The two gates, of the webhooks and of the attachments, have the same lists.\<close>

lemma same_blocked_lists:
  "is_always_blocked a = is_webhook_always_blocked a" "is_blocked_ip a = is_webhook_blocked_ip a"
  by (auto simp: is_always_blocked_def is_webhook_always_blocked_def is_blocked_ip_def is_webhook_blocked_ip_def)

lemma resolve_attachment_nonempty: "resolve_attachment_host env host = Some ips \<Longrightarrow> ips \<noteq> []"
  by (auto simp: resolve_attachment_host_def split: option.splits if_splits)

lemma validated_address:
  assumes "validate_attachment_url env target allow = Inr ()" "dial_address env target = Some a"
  obtains u ips where "url_parse env (trim_space target) = Some u" "resolve_attachment_host env (normal_host u) = Some ips"
    "a \<in> set ips" "\<not> is_always_blocked a"
    "chatwoot_host_matches env (normal_host u) ips allow \<or> \<not> is_blocked_ip a"
  using assms resolve_attachment_nonempty [of env]
  by (auto simp: validate_attachment_url_def dial_address_def Let_def list_ex_iff split: if_splits option.splits)

definition reachable_address :: "net_env \<Rightarrow> string \<Rightarrow> ip \<Rightarrow> bool" where
  "reachable_address env allow a \<longleftrightarrow> \<not> is_always_blocked a
     \<and> (\<not> is_blocked_ip a \<or> (\<exists>u ips. resolve_attachment_host env (normal_host u) = Some ips
          \<and> chatwoot_host_matches env (normal_host u) ips allow \<and> a \<in> set ips))"

lemma fetched_addresses:
  "validate_attachment_url env target allow = Inr () \<Longrightarrow>
   set (snd (fetch_attachment (\<lambda>_. env) server detect max_bytes allow via target)) \<subseteq> {a. reachable_address env allow a}"
proof (induction "\<lambda>_ :: nat. env" server detect max_bytes allow via target rule: fetch_attachment.induct)
  case (1 server detect max_bytes allow via target)
  show ?case
  proof (cases "dial_address env target")
    case None
    then show ?thesis by (subst fetch_attachment.simps) simp
  next
    case (Some a)
    have here: "reachable_address env allow a"
      using validated_address [OF 1(2) Some] unfolding reachable_address_def by metis
    show ?thesis
    proof (cases "server a target")
      case None
      then show ?thesis using Some here by (subst fetch_attachment.simps) simp
    next
      case (Some ans)
      show ?thesis
      proof (cases ans)
        case (Answer status ctype body)
        then show ?thesis using \<open>dial_address env target = Some a\<close> Some here by (subst fetch_attachment.simps) simp
      next
        case (Redirect next_url)
        have "set (snd (fetch_attachment (\<lambda>_. env) server detect max_bytes allow (Suc via) next_url)) \<subseteq> {a. reachable_address env allow a}"
          if "\<not> Suc via > max_attachment_redirects" "validate_attachment_url env next_url allow = Inr ()"
          using 1(1) [OF \<open>dial_address env target = Some a\<close> Some Redirect that(1)] that by simp
        then show ?thesis
          using \<open>dial_address env target = Some a\<close> Some here Redirect
          by (subst fetch_attachment.simps) (auto split: sum.splits)
      qed
    qed
  qed
qed


text \<open>
  The gate's answer is not the one the transport connects to: a name whose answer changes between the two
  lookups reaches the metadata address.
\<close>

definition rebinding :: "nat \<Rightarrow> net_env" where
  "rebinding n = sample_env\<lparr>lookup_ip := (\<lambda>_. Some [if n = 0 then of_ip4 0x08080808 else ipv4 169 254 169 254])\<rparr>"

lemma rebinding_reaches_the_metadata_address:
  "download_attachment rebinding (\<lambda>_ _. Some (Answer 200 ''text/plain'' ''keys'')) (\<lambda>_. []) 10 ''https://a.example'' []
     = (Inr (''keys'', ''text/plain''), [ipv4 169 254 169 254])"
proof -
  have "is_always_blocked (of_ip4 0x08080808) = False" "is_blocked_ip (of_ip4 0x08080808) = False"
    using public_sample by (simp_all add: same_blocked_lists)
  moreover have "trim_space ''https://a.example'' = ''https://a.example''" "trim_space ''text/plain'' = ''text/plain''" by code_simp+
  moreover have "normal_host \<lparr>url_scheme = ''https'', url_has_user = False, url_hostname = ''https://a.example''\<rparr> \<noteq> []" by code_simp
  moreover have "wrap64 11 = 11" by code_simp
  ultimately show ?thesis
    by (simp add: download_attachment_def validate_attachment_url_def rebinding_def sample_env_def resolve_attachment_host_def
        chatwoot_host_matches_def fetch_attachment.simps dial_address_def content_type_def read_limit_def trim_space_def)
qed

end
