(* ===== verification/ChatwootContacts.thy ===== *)
theory ChatwootContacts
  imports ChatwootClient JidResolver
begin

text \<open>
  The contact of a sender, \<^verbatim>\<open>internal/chatwoot/contacts/contacts.go\<close>: found by phone in both Brazilian forms,
  merged, refreshed or created; a group by its JID.
\<close>

section \<open>Numbers and names\<close>

definition group_suffix :: string where "group_suffix = '' (GROUP)''"

definition strip_digits :: "string \<Rightarrow> string" where
  "strip_digits s = filter is_digit s"

definition brazilian_alternate :: "string \<Rightarrow> string" where
  "brazilian_alternate digits =
     (if strip_prefix ''55'' digits = None then []
      else if length digits = 13 then
        (if digits ! 4 \<noteq> CHR ''9'' then [] else take 4 digits @ drop 5 digits)
      else if length digits = 12 then
        (if digits ! 4 < CHR ''6'' \<or> digits ! 4 > CHR ''9'' then []
         else take 4 digits @ ''9'' @ drop 4 digits)
      else [])"

definition contact_variants :: "string \<Rightarrow> string list" where
  "contact_variants phone =
     (let digits = strip_digits phone in
      if digits = [] then [phone]
      else if brazilian_alternate digits \<noteq> [] then [CHR ''+'' # digits, CHR ''+'' # brazilian_alternate digits]
      else [CHR ''+'' # digits])"

definition is_brazilian :: "string \<Rightarrow> bool" where
  "is_brazilian digits \<longleftrightarrow> strip_prefix ''55'' digits \<noteq> None"

definition fallback_name :: "string \<Rightarrow> string \<Rightarrow> string" where
  "fallback_name name fallback = (if trim_space name = [] then fallback else name)"

definition ends_with :: "string \<Rightarrow> string \<Rightarrow> bool" where
  "ends_with s suf \<longleftrightarrow> strip_prefix (rev suf) (rev s) \<noteq> None"

definition group_name :: "string \<Rightarrow> string \<Rightarrow> string" where
  "group_name name jid =
     (let display = fallback_name name jid in
      if ends_with display group_suffix then display else display @ group_suffix)"

text \<open>The both copies of the ninth-digit rule, of the message resolver and of this one, agree.\<close>

lemma brazilian_forms_agree: "brazilian_alternate digits = brazilian_variant digits"
  by (simp add: brazilian_alternate_def brazilian_variant_def)

section \<open>Resolution\<close>

datatype contact_err = EmptyPhone | EmptyGroup | ContactClient client_err

record contact_resolver =
  cs_net_merge :: bool
  cs_client :: cw_client

type_synonym 's contact_op = "'s cw_world \<Rightarrow> (contact_err + cw_contact) \<times> 's cw_world"

definition longer_phone :: "cw_contact \<Rightarrow> cw_contact \<Rightarrow> bool" where
  "longer_phone c base \<longleftrightarrow> length (ct_phone c) > length (ct_phone base)
     \<or> (length (ct_phone c) = length (ct_phone base) \<and> ct_id c < ct_id base)"

fun longest_phone :: "cw_contact \<Rightarrow> cw_contact list \<Rightarrow> cw_contact" where
  "longest_phone base [] = base"
| "longest_phone base (c # cs) = longest_phone (if longer_phone c base then c else base) cs"

definition is_unprocessable :: "client_err \<Rightarrow> bool" where
  "is_unprocessable e = (case e of ClientStatus s _ \<Rightarrow> s = 422 | _ \<Rightarrow> False)"

definition ensure_fresh :: "'s cw_net \<Rightarrow> contact_resolver \<Rightarrow> cw_contact \<Rightarrow> string \<Rightarrow> string \<Rightarrow> 's contact_op" where
  "ensure_fresh net r existing name avatar w =
     (let rq = no_contact_request
            \<lparr>cr_name := (if name \<noteq> [] \<and> ct_name existing \<noteq> name then name else []),
             cr_avatar := (if avatar \<noteq> [] \<and> ct_avatar existing \<noteq> avatar then avatar else [])\<rparr> in
      if rq = no_contact_request then (Inr existing, w)
      else case update_contact net (cs_client r) (ct_id existing) rq w of
        (Inl _, w) \<Rightarrow> (Inr existing, w)
      | (Inr updated, w) \<Rightarrow> (Inr updated, w))"

definition create_individual :: "'s cw_net \<Rightarrow> contact_resolver \<Rightarrow> string \<Rightarrow> string \<Rightarrow> string \<Rightarrow> string \<Rightarrow> 's contact_op" where
  "create_individual net r e164 name avatar jid w =
     (case create_contact net (cs_client r)
        (no_contact_request\<lparr>cr_name := fallback_name name e164, cr_phone_number := e164, cr_avatar := avatar\<rparr>) w of
        (Inr created, w) \<Rightarrow> (Inr created, w)
      | (Inl e, w) \<Rightarrow>
          if is_unprocessable e \<and> trim_space jid \<noteq> [] then
            (case search_contacts net (cs_client r) jid w of
               (Inr (m # _), w) \<Rightarrow> ensure_fresh net r m name avatar w
             | (_, w) \<Rightarrow> (Inl (ContactClient e), w))
          else (Inl (ContactClient e), w))"

definition create_group :: "'s cw_net \<Rightarrow> contact_resolver \<Rightarrow> string \<Rightarrow> string \<Rightarrow> string \<Rightarrow> 's contact_op" where
  "create_group net r name avatar jid w =
     (case create_contact net (cs_client r)
        (no_contact_request\<lparr>cr_name := group_name name jid, cr_identifier := jid, cr_avatar := avatar\<rparr>) w of
        (Inr created, w) \<Rightarrow> (Inr created, w)
      | (Inl e, w) \<Rightarrow> (Inl (ContactClient e), w))"

definition resolve_group :: "'s cw_net \<Rightarrow> contact_resolver \<Rightarrow> string \<Rightarrow> string \<Rightarrow> string \<Rightarrow> 's contact_op" where
  "resolve_group net r name avatar jid w =
     (if trim_space jid = [] then (Inl EmptyGroup, w)
      else case search_contacts net (cs_client r) jid w of
        (Inl e, w) \<Rightarrow> (Inl (ContactClient e), w)
      | (Inr [], w) \<Rightarrow> create_group net r name avatar jid w
      | (Inr (m # _), w) \<Rightarrow> ensure_fresh net r m (group_name name jid) avatar w)"

fun merge_duplicates :: "'s cw_net \<Rightarrow> contact_resolver \<Rightarrow> cw_contact \<Rightarrow> cw_contact list \<Rightarrow> 's cw_world
      \<Rightarrow> cw_contact \<times> 's cw_world" where
  "merge_duplicates net r base [] w = (base, w)"
| "merge_duplicates net r base (other # rest) w =
     (if ct_id other = ct_id base then merge_duplicates net r base rest w
      else case merge_contacts net (cs_client r) (ct_id base) (ct_id other) w of
        (Inl _, w) \<Rightarrow> merge_duplicates net r base rest w
      | (Inr merged, w) \<Rightarrow> merge_duplicates net r merged rest w)"

text \<open>The matches not seen yet.\<close>

fun add_unseen :: "cw_contact list \<Rightarrow> cw_contact list \<Rightarrow> cw_contact list" where
  "add_unseen found [] = found"
| "add_unseen found (m # ms) =
     add_unseen (if ct_id m \<in> ct_id ` set found then found else found @ [m]) ms"

fun find_variants :: "'s cw_net \<Rightarrow> contact_resolver \<Rightarrow> cw_contact list \<Rightarrow> string list \<Rightarrow> 's cw_world
      \<Rightarrow> (client_err + cw_contact list) \<times> 's cw_world" where
  "find_variants net r found [] w = (Inr found, w)"
| "find_variants net r found (v # vs) w =
     (case find_contact_by_phone net (cs_client r) (case strip_prefix ''+'' v of Some s \<Rightarrow> s | None \<Rightarrow> v) w of
        (Inl e, w) \<Rightarrow> (Inl e, w)
      | (Inr ms, w) \<Rightarrow> find_variants net r (add_unseen found ms) vs w)"

definition resolve_contact :: "'s cw_net \<Rightarrow> contact_resolver \<Rightarrow> string \<Rightarrow> bool \<Rightarrow> string \<Rightarrow> string \<Rightarrow> string \<Rightarrow> 's contact_op" where
  "resolve_contact net r phone is_group name avatar jid w =
     (if is_group then resolve_group net r name avatar jid w
      else
        (let digits = strip_digits phone; e164 = CHR ''+'' # digits in
         if digits = [] then (Inl EmptyPhone, w)
         else (case find_variants net r [] (contact_variants e164) w of
           (Inl e, w) \<Rightarrow> (Inl (ContactClient e), w)
         | (Inr [], w) \<Rightarrow> create_individual net r e164 name avatar jid w
         | (Inr (c # cs), w) \<Rightarrow>
             (let base = longest_phone c cs in
              if cs \<noteq> [] \<and> cs_net_merge r \<and> is_brazilian digits then
                (case merge_duplicates net r base (c # cs) w of
                   (base, w) \<Rightarrow> ensure_fresh net r base name avatar w)
              else ensure_fresh net r base name avatar w))))"

section \<open>The base of a merge\<close>

lemma longer_trans: "longer_phone a b \<Longrightarrow> longer_phone b c \<Longrightarrow> longer_phone a c"
  by (auto simp: longer_phone_def)

lemma not_longer_trans: "\<not> longer_phone a b \<Longrightarrow> \<not> longer_phone b c \<Longrightarrow> \<not> longer_phone a c"
  by (auto simp: longer_phone_def)

lemma longest_phone_max:
  "longest_phone base cs \<in> insert base (set cs) \<and> (\<forall>c \<in> insert base (set cs). \<not> longer_phone c (longest_phone base cs))"
proof (induction cs arbitrary: base)
  case Nil
  then show ?case by (simp add: longer_phone_def)
next
  case (Cons c cs)
  let ?b = "if longer_phone c base then c else base"
  have *: "\<not> longer_phone ?b (longest_phone ?b cs)" using Cons.IH [of ?b] by blast
  have "\<not> longer_phone base (longest_phone ?b cs)" "\<not> longer_phone c (longest_phone ?b cs)"
    using * longer_trans [of c base] not_longer_trans [of c base] by (metis (full_types))+
  moreover have "longest_phone ?b cs \<in> insert base (insert c (set cs))" using Cons.IH [of ?b] by auto
  ultimately show ?case using Cons.IH [of ?b] by simp
qed

lemma add_unseen_ids:
  "distinct (map ct_id found) \<Longrightarrow> distinct (map ct_id (add_unseen found ms))
     \<and> ct_id ` set (add_unseen found ms) = ct_id ` set found \<union> ct_id ` set ms"
proof (induction ms arbitrary: found)
  case (Cons m ms)
  let ?f = "if ct_id m \<in> ct_id ` set found then found else found @ [m]"
  have "distinct (map ct_id ?f)" using Cons.prems by auto
  then show ?case using Cons.IH [of ?f] by auto
qed simp

lemma find_variants_distinct:
  "find_variants net r found vs w = (Inr res, w') \<Longrightarrow> distinct (map ct_id found) \<Longrightarrow> distinct (map ct_id res)"
  by (induction net r found vs w rule: find_variants.induct) (auto split: prod.splits sum.splits simp: add_unseen_ids)

section \<open>What a resolution sends\<close>

definition lookup_request :: "contact_resolver \<Rightarrow> string \<Rightarrow> cw_request" where
  "lookup_request r phone =
     \<lparr>hq_method = ''POST'', hq_url = cc_base (cs_client r) @ account_path (cs_client r) ''/contacts/filter'',
      hq_token = cc_token (cs_client r),
      hq_body = JsonBody (JObj [(''payload'', JArr [JObj [(''attribute_key'', JStr ''phone_number''),
          (''filter_operator'', JStr ''contains''), (''values'', JArr [JStr phone])]])])\<rparr>"

definition merge_request :: "contact_resolver \<Rightarrow> int \<Rightarrow> int \<Rightarrow> cw_request" where
  "merge_request r base mergee =
     \<lparr>hq_method = ''POST'', hq_url = cc_base (cs_client r) @ account_path (cs_client r) ''/actions/contact_merge'',
      hq_token = cc_token (cs_client r),
      hq_body = JsonBody (JObj [(''base_contact_id'', JNum (show_int base)), (''mergee_contact_id'', JNum (show_int mergee))])\<rparr>"

text \<open>The forms of a number a lookup asks for.\<close>

definition lookup_forms :: "string \<Rightarrow> string list" where
  "lookup_forms digits = digits # (if brazilian_alternate digits = [] then [] else [brazilian_alternate digits])"

lemma strip_digits_plus: "strip_digits (CHR ''+'' # digits) = strip_digits digits"
  by (simp add: strip_digits_def is_digit_def)

lemma strip_digits_idem: "strip_digits (strip_digits s) = strip_digits s"
  by (simp add: strip_digits_def)

lemma find_variants_sent:
  "find_variants net r found vs w = (res, w') \<Longrightarrow> \<exists>n. n \<le> length vs \<and>
     cw_sent w' = cw_sent w @ map (lookup_request r) (take n (map (\<lambda>v. case strip_prefix ''+'' v of Some s \<Rightarrow> s | None \<Rightarrow> v) vs))
     \<and> ((\<exists>x. res = Inr x) \<longrightarrow> n = length vs)"
proof (induction net r found vs w rule: find_variants.induct)
  case (1 net r found w)
  then show ?case by simp
next
  case (2 net r found v vs w)
  let ?v = "case strip_prefix ''+'' v of Some s \<Rightarrow> s | None \<Rightarrow> v"
  obtain a w1 where a: "find_contact_by_phone net (cs_client r) ?v w = (a, w1)" by fastforce
  have s: "cw_sent w1 = cw_sent w @ [lookup_request r ?v]"
    using a unfolding find_contact_by_phone_def by (auto dest!: client_call_sent simp: lookup_request_def)
  show ?case
  proof (cases a)
    case (Inl e)
    then show ?thesis using 2(2) a s by (intro exI [of _ "Suc 0"]) auto
  next
    case (Inr ms)
    then have "find_variants net r (add_unseen found ms) vs w1 = (res, w')" using 2(2) a by simp
    from 2(1) [OF a [symmetric] Inr this] obtain n where n: "n \<le> length vs"
      "cw_sent w' = cw_sent w1 @ map (lookup_request r) (take n (map (\<lambda>v. case strip_prefix ''+'' v of Some s \<Rightarrow> s | None \<Rightarrow> v) vs))"
      "(\<exists>x. res = Inr x) \<longrightarrow> n = length vs"
      by blast
    then show ?thesis using s by (intro exI [of _ "Suc n"]) auto
  qed
qed

lemma contact_variants_forms:
  assumes "strip_digits digits = digits" "digits \<noteq> []"
  shows "map (\<lambda>v. case strip_prefix ''+'' v of Some s \<Rightarrow> s | None \<Rightarrow> v) (contact_variants (CHR ''+'' # digits)) = lookup_forms digits"
  using assms by (simp add: contact_variants_def strip_digits_plus lookup_forms_def)

section \<open>Duplicates\<close>

definition update_request :: "contact_resolver \<Rightarrow> int \<Rightarrow> contact_request \<Rightarrow> cw_request" where
  "update_request r i rq =
     \<lparr>hq_method = ''PUT'', hq_url = cc_base (cs_client r) @ account_path (cs_client r) (''/contacts/'' @ show_int i),
      hq_token = cc_token (cs_client r), hq_body = JsonBody (contact_json rq)\<rparr>"

lemma ensure_fresh_sent:
  "ensure_fresh net r c name avatar w = (res, w') \<Longrightarrow>
     (\<exists>c'. res = Inr c') \<and>
     (\<exists>rqs. length rqs \<le> 1 \<and> cw_sent w' = cw_sent w @ map (update_request r (ct_id c)) rqs \<and> (name = [] \<and> avatar = [] \<longrightarrow> res = Inr c \<and> rqs = []))"
proof -
  assume e: "ensure_fresh net r c name avatar w = (res, w')"
  define rq where "rq = no_contact_request
            \<lparr>cr_name := (if name \<noteq> [] \<and> ct_name c \<noteq> name then name else []),
             cr_avatar := (if avatar \<noteq> [] \<and> ct_avatar c \<noteq> avatar then avatar else [])\<rparr>"
  show ?thesis
  proof (cases "rq = no_contact_request")
    case True
    then show ?thesis using e by (auto simp: ensure_fresh_def Let_def rq_def [symmetric])
  next
    case False
    then obtain a w1 where a: "update_contact net (cs_client r) (ct_id c) rq w = (a, w1)"
      "w1 = w'" "\<exists>c'. res = Inr c'"
      using e by (auto simp: ensure_fresh_def Let_def rq_def [symmetric] split: prod.splits sum.splits)
    have "cw_sent w1 = cw_sent w @ [update_request r (ct_id c) rq]"
      using a(1) unfolding update_contact_def by (auto dest!: client_call_sent simp: update_request_def)
    moreover have "\<not> (name = [] \<and> avatar = [])" using False by (auto simp: rq_def no_contact_request_def)
    ultimately show ?thesis using a by (intro conjI exI [of _ "[rq]"]) auto
  qed
qed

text \<open>Chatwoot answers a merge with the base contact.\<close>

definition merges_keep_the_base :: "'s cw_net \<Rightarrow> cw_client \<Rightarrow> bool" where
  "merges_keep_the_base net cl \<longleftrightarrow>
     (\<forall>b m w c w'. merge_contacts net cl b m w = (Inr c, w') \<longrightarrow> ct_id c = b)"

lemma merge_duplicates_sent:
  assumes keeps: "merges_keep_the_base net (cs_client r)"
    and m: "merge_duplicates net r base cs w = (b, w')"
  shows "ct_id b = ct_id base \<and>
    cw_sent w' = cw_sent w @ map (merge_request r (ct_id base)) (filter (\<lambda>i. i \<noteq> ct_id base) (map ct_id cs))"
  using assms
proof (induction net r base cs w rule: merge_duplicates.induct [case_names Nil Cons])
  case (Nil net r base w)
  then show ?case by simp
next
  case (Cons net r base c cs w)
  show ?case
  proof (cases "ct_id c = ct_id base")
    case True
    then show ?thesis using Cons by simp
  next
    case False
    obtain a w1 where a: "merge_contacts net (cs_client r) (ct_id base) (ct_id c) w = (a, w1)" by fastforce
    have s: "cw_sent w1 = cw_sent w @ [merge_request r (ct_id base) (ct_id c)]"
      using a unfolding merge_contacts_def by (auto dest!: client_call_sent simp: merge_request_def)
    show ?thesis
    proof (cases a)
      case (Inl e)
      then show ?thesis using Cons.IH(2) [OF False a [symmetric] Inl] Cons.prems False a s by auto
    next
      case (Inr d)
      have "ct_id d = ct_id base" using Cons.prems(1) a Inr unfolding merges_keep_the_base_def by blast
      then show ?thesis using Cons.IH(3) [OF False a [symmetric] Inr] Cons.prems False a s Inr by auto
    qed
  qed
qed


text \<open>A server with the two Brazilian forms of one number as contacts 4 and 7, and the connector's client of it.\<close>

definition two_forms_net :: "unit cw_net" where
  "two_forms_net =
     \<lparr>cx_send = (\<lambda>rq s.
        (case hq_body rq of
           JsonBody (JObj ((k, j) # _)) \<Rightarrow>
             if k = ''payload'' then Some (200, ''F'')
             else if k = ''base_contact_id'' \<and> j = JNum ''7'' then Some (200, ''7'')
             else None
         | _ \<Rightarrow> None, s)),
      cx_parse = (\<lambda>raw.
        if raw = ''F'' then Some (JObj [(''payload'', JArr
          [JObj [(''id'', JNum ''4''), (''phone_number'', JStr ''+551187654321'')],
           JObj [(''id'', JNum ''7''), (''phone_number'', JStr ''+5511987654321'')]])])
        else Some (JObj [(''id'', JNum ''7'')])),
      cx_detect = (\<lambda>_. [])\<rparr>"

definition demo_resolver :: contact_resolver where
  "demo_resolver = \<lparr>cs_net_merge = True, cs_client = new_client ''https://cw.example/'' ''secret'' ''1''\<rparr>"

definition no_traffic :: "unit cw_world" where
  "no_traffic = \<lparr>cw_server = (), cw_sent = []\<rparr>"

lemma show_int_inject: "show_int i = show_int j \<Longrightarrow> i = j"
proof -
  have "decimal n \<noteq> CHR ''-'' # s" for n s using decimal_digits [of "CHR ''-''" n] by auto
  then show "show_int i = show_int j \<Longrightarrow> i = j"
    by (auto simp: show_int_def split: if_splits dest: decimal_inject) metis+
qed

lemma show_seven: "show_int b = ''7'' \<longleftrightarrow> b = 7"
proof -
  have "show_int 7 = ''7''" by code_simp
  then show ?thesis using show_int_inject by metis
qed

lemma four: "int_literal ''4'' = Some 4" and seven: "int_literal ''7'' = Some 7"
  by (simp_all add: int_literal_def int64_def is_digit_def)

lemma trim_f: "trim_space ''F'' = ''F''"
  by code_simp

lemma trim_seven: "trim_space ''7'' = ''7''"
  by code_simp

lemma two_forms_merge:
  "merge_contacts two_forms_net cl b m w0 = (Inr d, w1) \<Longrightarrow> ct_id d = b"
  by (auto simp: merge_contacts_def client_call_def api_do_def client_decode_def two_forms_net_def show_seven trim_seven
        read_struct_def read_contact_def read_field_def json_field_def int_literal_def int64_def response_limit_def is_digit_def
        split: if_splits prod.splits)


text \<open>
  The contact of the operational notices has the number 123456, and the lookup filter is \<^verbatim>\<open>contains\<close>: a single
  customer whose number contains these digits is taken for it and renamed.
\<close>

lemma operational_contact_takes_over_a_customer:
  assumes "find_variants net r [] (contact_variants ''+123456'') w = (Inr [c], w1)" "ct_name c \<noteq> ''Operacional''"
  shows "\<exists>res w'. resolve_contact net r ''123456'' False ''Operacional'' [] ''123456'' w = (Inr res, w')
    \<and> cw_sent w' = cw_sent w1 @ [update_request r (ct_id c) (no_contact_request\<lparr>cr_name := ''Operacional''\<rparr>)]"
proof -
  let ?rq = "no_contact_request\<lparr>cr_name := ''Operacional''\<rparr>"
  have d: "strip_digits ''123456'' = ''123456''" by code_simp
  obtain a w2 where u: "update_contact net (cs_client r) (ct_id c) ?rq w1 = (a, w2)" by fastforce
  have "cw_sent w2 = cw_sent w1 @ [update_request r (ct_id c) ?rq]"
    using u unfolding update_contact_def by (auto dest!: client_call_sent simp: update_request_def)
  moreover have "?rq \<noteq> no_contact_request" by (simp add: no_contact_request_def)
  moreover have "no_contact_request\<lparr>cr_name := ''Operacional'', cr_avatar := []\<rparr> = ?rq" by (simp add: no_contact_request_def)
  ultimately show ?thesis
    using assms u d by (cases a) (simp_all add: resolve_contact_def ensure_fresh_def Let_def)
qed

end
