(* ===== verification/HttpMessages.thy ===== *)
theory HttpMessages
  imports HttpInvariants MessageService
begin

text \<open>
  The message, number and media handlers: \<^verbatim>\<open>internal/httpapi/messages.go\<close>, \<^verbatim>\<open>numbers.go\<close> and
  \<^verbatim>\<open>media.go\<close>, over the services of \<open>MessageService\<close>, \<open>JidResolver\<close> and \<open>MediaStorage\<close>.

  The world of a request holds the resolver and the media files next to the database. What a request
  draws or asks from outside, the clock, the new identifiers, the probe of an instance's session and the
  parsers of the standard library, are the fields of \<open>msg_env\<close>. A multipart form is read behind a limit:
  the request carries the outcome of the parser for each limit.
\<close>

record msg_rest =
  hm_resolver :: resolver
  hm_files :: files

type_synonym msg_world = "msg_rest world"

record msg_env =
  me_crypto :: crypto
  me_fresh :: uuid
  me_clock :: "nat \<Rightarrow> instant"
  me_probe :: "uuid \<Rightarrow> probe option"
  me_storage :: storage_config
  me_media_id :: uuid
  me_tmp :: string
  me_now :: instant
  me_max_bytes :: int
  me_media_type :: "string \<Rightarrow> string option"
  me_format :: "string \<Rightarrow> string"

definition messages_enqueue :: "msg_env \<Rightarrow> uuid \<Rightarrow> enqueue_input \<Rightarrow> msg_world \<Rightarrow> (message_err + uuid) \<times> msg_world" where
  "messages_enqueue e i inp w =
     (case message_enqueue (me_fresh e) (me_clock e) (me_probe e i) i inp (hm_resolver (w_rest w), w_db w) of
        (r, rs, d) \<Rightarrow> (r, w\<lparr>w_db := d, w_rest := (w_rest w)\<lparr>hm_resolver := rs\<rparr>\<rparr>))"

definition on_media :: "(media_world \<Rightarrow> 'a \<times> media_world) \<Rightarrow> msg_world \<Rightarrow> 'a \<times> msg_world" where
  "on_media op w =
     (case op \<lparr>mw_db = w_db w, mw_fs = hm_files (w_rest w)\<rparr> of
        (r, m) \<Rightarrow> (r, w\<lparr>w_db := mw_db m, w_rest := (w_rest w)\<lparr>hm_files := mw_fs m\<rparr>\<rparr>))"

section \<open>Answers\<close>

definition default_messages_limit :: int where "default_messages_limit = 50"
definition max_messages_limit :: int where "max_messages_limit = 100"
definition media_direction_outbound :: string where "media_direction_outbound = ''outbound''"
definition media_form_overhead :: int where "media_form_overhead = 2 ^ 20"

record message_accepted_response =
  ma_id :: string
  ma_status :: string

record message_response =
  ms_id :: string
  ms_instance :: string
  ms_type :: string
  ms_recipient :: string
  ms_status :: string
  ms_whatsapp_id :: string
  ms_last_error :: string
  ms_attempts :: int
  ms_delivered_at :: "instant option"
  ms_read_at :: "instant option"
  ms_created_at :: instant
  ms_updated_at :: instant

definition new_message_accepted_response :: "crypto \<Rightarrow> uuid \<Rightarrow> message_accepted_response" where
  "new_message_accepted_response cr i = \<lparr>ma_id = cr_show_id cr i, ma_status = ''queued''\<rparr>"

definition new_message_response :: "crypto \<Rightarrow> outbound_message \<Rightarrow> message_response" where
  "new_message_response cr m =
     \<lparr>ms_id = cr_show_id cr (om_id m), ms_instance = cr_show_id cr (om_instance m), ms_type = om_type m,
      ms_recipient = om_recipient m, ms_status = om_status m, ms_whatsapp_id = om_whatsapp_id m,
      ms_last_error = om_last_error m, ms_attempts = om_attempts m, ms_delivered_at = om_delivered_at m,
      ms_read_at = om_read_at m, ms_created_at = om_created m, ms_updated_at = om_updated m\<rparr>"

definition unprocessable_entity :: "string \<Rightarrow> 'a resp" where
  [http_simps]: "unprocessable_entity msg = RErr 422 ''unprocessable_entity'' msg"

definition resolution_unavailable :: "'a resp" where
  [http_simps]: "resolution_unavailable = RErr 503 ''unavailable'' ''number resolution unavailable''"

fun write_message_error :: "message_err \<Rightarrow> 'a resp" where
  "write_message_error MessageInstanceNotFound = not_found_instance"
| "write_message_error MessageNotFound = RErr 404 ''not_found'' ''message not found''"
| "write_message_error InstanceNotConnected = RErr 409 ''conflict'' ''instance not connected''"
| "write_message_error (MessageResolve NumberNotFound) =
     unprocessable_entity ''recipient number is not on WhatsApp''"
| "write_message_error InvalidInput = unprocessable_entity ''invalid message content''"
| "write_message_error (MessageResolve ResolverUnavailable) = resolution_unavailable"
| "write_message_error MessageInvalidCursor = RErr 400 ''invalid_request'' ''invalid cursor''"
| "write_message_error _ = internal_error"

definition parse_messages_limit :: "string \<Rightarrow> int" where
  "parse_messages_limit raw = parse_limit raw default_messages_limit max_messages_limit"

section \<open>Sends with a JSON body\<close>

record send_text_request =
  tx_to :: string
  tx_text :: string

record send_location_request =
  lo_to :: string
  lo_latitude :: "float64 option"
  lo_longitude :: "float64 option"

record send_contact_request =
  co_to :: string
  co_name :: string
  co_vcard :: string

text \<open>The input the fields of a Go struct literal leave at their zero values.\<close>

definition enqueue_zero :: enqueue_input where
  "enqueue_zero =
     \<lparr>ei_type = [], ei_to = [], ei_text = [], ei_caption = [], ei_filename = [], ei_ptt = False,
      ei_latitude = FFin 0, ei_longitude = FFin 0, ei_display_name = [], ei_vcard = [],
      ei_media = None, ei_quoted = []\<rparr>"

text \<open>The end of every send: enqueue and answer 202, or the error.\<close>

definition accept_message :: "msg_env \<Rightarrow> uuid \<Rightarrow> enqueue_input \<Rightarrow> msg_world
      \<Rightarrow> message_accepted_response resp \<times> msg_world" where
  "accept_message e i inp w =
     (case messages_enqueue e i inp w of
        (Inl err, w) \<Rightarrow> (write_message_error err, w)
      | (Inr m, w) \<Rightarrow> (ROk 202 (new_message_accepted_response (me_crypto e) m), w))"

definition handle_send_text :: "msg_env \<Rightarrow> scope option \<Rightarrow> string \<Rightarrow> send_text_request body \<Rightarrow> msg_world
      \<Rightarrow> message_accepted_response resp \<times> msg_world" where
  "handle_send_text e sc raw_id b =
     with_instance (me_crypto e) authorize_instance sc raw_id (\<lambda>i _ w.
       case b of
         BodyOk rq \<Rightarrow> accept_message e i
           (enqueue_zero\<lparr>ei_type := ''text'', ei_to := tx_to rq, ei_text := tx_text rq\<rparr>) w
       | bad \<Rightarrow> (write_json_body_error bad, w))"

definition handle_send_location :: "msg_env \<Rightarrow> scope option \<Rightarrow> string \<Rightarrow> send_location_request body \<Rightarrow> msg_world
      \<Rightarrow> message_accepted_response resp \<times> msg_world" where
  "handle_send_location e sc raw_id b =
     with_instance (me_crypto e) authorize_instance sc raw_id (\<lambda>i _ w.
       case b of
         BodyOk rq \<Rightarrow>
           (case (lo_latitude rq, lo_longitude rq) of
              (Some lat, Some lon) \<Rightarrow> accept_message e i
                (enqueue_zero\<lparr>ei_type := ''location'', ei_to := lo_to rq, ei_latitude := lat, ei_longitude := lon\<rparr>) w
            | _ \<Rightarrow> (unprocessable_entity ''latitude and longitude are required'', w))
       | bad \<Rightarrow> (write_json_body_error bad, w))"

definition handle_send_contact :: "msg_env \<Rightarrow> scope option \<Rightarrow> string \<Rightarrow> send_contact_request body \<Rightarrow> msg_world
      \<Rightarrow> message_accepted_response resp \<times> msg_world" where
  "handle_send_contact e sc raw_id b =
     with_instance (me_crypto e) authorize_instance sc raw_id (\<lambda>i _ w.
       case b of
         BodyOk rq \<Rightarrow> accept_message e i
           (enqueue_zero\<lparr>ei_type := ''contact'', ei_to := co_to rq, ei_display_name := co_name rq,
              ei_vcard := co_vcard rq\<rparr>) w
       | bad \<Rightarrow> (write_json_body_error bad, w))"

section \<open>Uploads\<close>

text \<open>
  The file part: its declared type and name, its content, and after how many bytes reading it fails.
\<close>

record upload =
  up_content_type :: string
  up_filename :: string
  up_data :: string
  up_fails :: "nat option"

record media_form =
  mf_value :: "string \<Rightarrow> string"
  mf_file :: "upload option"

datatype form_outcome = FormOk media_form | FormTooLarge | FormMalformed

definition valid_media_kind :: "string \<Rightarrow> bool" where
  "valid_media_kind kind \<longleftrightarrow> kind \<in> {''image'', ''video'', ''audio'', ''document''}"

definition parse_form_bool :: "string \<Rightarrow> bool option" where
  "parse_form_bool raw =
     (let s = to_lower (trim_space raw) in
      if s = [] \<or> s = ''false'' \<or> s = ''0'' then Some False
      else if s = ''true'' \<or> s = ''1'' then Some True
      else None)"

definition read_part :: "nat option \<Rightarrow> upload \<Rightarrow> string option" where
  "read_part limit up =
     (case (limit, up_fails up) of
        (None, None) \<Rightarrow> Some (up_data up)
      | (None, Some _) \<Rightarrow> None
      | (Some n, None) \<Rightarrow> Some (take n (up_data up))
      | (Some n, Some k) \<Rightarrow> if k < n then None else Some (take n (up_data up)))"

definition read_media_upload :: "int \<Rightarrow> upload \<Rightarrow> media_err + string" where
  "read_media_upload max_bytes up =
     (if max_bytes \<le> 0 then (case read_part None up of None \<Rightarrow> Inl MediaFs | Some data \<Rightarrow> Inr data)
      else (case read_part (Some (nat (wrap64 (max_bytes + 1)))) up of
              None \<Rightarrow> Inl MediaFs
            | Some data \<Rightarrow> if int (length data) > max_bytes then Inl MediaTooLarge else Inr data))"

fun write_media_upload_error :: "media_err \<Rightarrow> 'a resp" where
  "write_media_upload_error MediaEmpty = unprocessable_entity ''invalid media file''"
| "write_media_upload_error MediaTooLarge = unprocessable_entity ''invalid media file''"
| "write_media_upload_error MediaNotFound = not_found_instance"
| "write_media_upload_error _ = internal_error"

text \<open>What the form asks for: the fields the handler keeps, or the answer that refuses it.\<close>

record upload_request =
  ud_to :: string
  ud_caption :: string
  ud_filename :: string
  ud_ptt :: bool
  ud_mimetype :: string
  ud_data :: string

definition check_upload :: "msg_env \<Rightarrow> media_form \<Rightarrow> 'a resp + upload_request" where
  "check_upload e f =
     (let dest = trim_space (mf_value f ''to''); kind = trim_space (mf_value f ''type'');
          filename = trim_space (mf_value f ''filename'') in
      if dest = [] then Inl (unprocessable_entity ''to is required'')
      else if \<not> valid_media_kind kind
      then Inl (unprocessable_entity ''type must be image, video, audio or document'')
      else (case parse_form_bool (mf_value f ''ptt'') of
        None \<Rightarrow> Inl (unprocessable_entity ''ptt must be a boolean'')
      | Some ptt \<Rightarrow>
          (case mf_file f of
             None \<Rightarrow> Inl (unprocessable_entity ''file is required'')
           | Some up \<Rightarrow>
               (case me_media_type e (up_content_type up) of
                  None \<Rightarrow> Inl (unprocessable_entity ''file type is not supported'')
                | Some mimetype \<Rightarrow>
                    (case media_kind mimetype of
                       None \<Rightarrow> Inl (unprocessable_entity ''file type is not supported'')
                     | Some file_kind \<Rightarrow>
                         if file_kind \<noteq> kind
                         then Inl (unprocessable_entity ''type does not match the file content type'')
                         else (case read_media_upload (me_max_bytes e) up of
                                 Inl err \<Rightarrow> Inl (if err = MediaTooLarge
                                   then unprocessable_entity ''file exceeds the size limit'' else internal_error)
                               | Inr data \<Rightarrow>
                                   if data = [] then Inl (unprocessable_entity ''file is empty'')
                                   else Inr \<lparr>ud_to = dest, ud_caption = mf_value f ''caption'',
                                     ud_filename = (if filename = [] then up_filename up else filename),
                                     ud_ptt = ptt, ud_mimetype = mimetype, ud_data = data\<rparr>))))))"

text \<open>\<open>form\<close> answers the limit of the body: None when there is none.\<close>

definition form_limit :: "int \<Rightarrow> int option" where
  "form_limit max_bytes = (if max_bytes > 0 then Some (wrap64 (max_bytes + media_form_overhead)) else None)"

definition handle_send_media :: "msg_env \<Rightarrow> scope option \<Rightarrow> string \<Rightarrow> (int option \<Rightarrow> form_outcome) \<Rightarrow> msg_world
      \<Rightarrow> message_accepted_response resp \<times> msg_world" where
  "handle_send_media e sc raw_id form =
     with_instance (me_crypto e) authorize_instance sc raw_id (\<lambda>i _ w.
       case form (form_limit (me_max_bytes e)) of
         FormTooLarge \<Rightarrow> (unprocessable_entity ''file exceeds the size limit'', w)
       | FormMalformed \<Rightarrow> (RErr 400 ''invalid_request'' ''invalid multipart body'', w)
       | FormOk f \<Rightarrow>
           (case check_upload e f of
              Inl resp \<Rightarrow> (resp, w)
            | Inr u \<Rightarrow>
                (case on_media (media_save (me_storage e) (me_media_id e) (me_tmp e) (me_now e) i
                         media_direction_outbound [] (ud_mimetype u) (ud_filename u) (ud_data u)) w of
                   (Inl err, w) \<Rightarrow> (write_media_upload_error err, w)
                 | (Inr stored, w) \<Rightarrow> accept_message e i
                     (enqueue_zero\<lparr>ei_type := ''media'', ei_to := ud_to u, ei_caption := ud_caption u,
                        ei_filename := md_filename stored, ei_ptt := ud_ptt u,
                        ei_media := Some (md_id stored)\<rparr>) w)))"

section \<open>Reads\<close>

definition handle_get_message :: "msg_env \<Rightarrow> scope option \<Rightarrow> string \<Rightarrow> string \<Rightarrow> msg_world
      \<Rightarrow> message_response resp \<times> msg_world" where
  "handle_get_message e sc raw_id raw_message =
     with_instance (me_crypto e) authorize_instance sc raw_id (\<lambda>i _ w.
       case cr_parse_id (me_crypto e) raw_message of
         None \<Rightarrow> (RErr 404 ''not_found'' ''message not found'', w)
       | Some m \<Rightarrow>
           (case message_get i m (w_db w) of
              (Inl err, d) \<Rightarrow> (write_message_error err, w\<lparr>w_db := d\<rparr>)
            | (Inr found, d) \<Rightarrow> (ROk 200 (new_message_response (me_crypto e) found), w\<lparr>w_db := d\<rparr>)))"

definition handle_list_messages :: "msg_env \<Rightarrow> scope option \<Rightarrow> string \<Rightarrow> string \<Rightarrow> string \<Rightarrow> msg_world
      \<Rightarrow> (message_response list \<times> string) resp \<times> msg_world" where
  "handle_list_messages e sc raw_id raw_limit cursor =
     with_instance (me_crypto e) authorize_instance sc raw_id (\<lambda>i _ w.
       case message_list (cr_parse_id (me_crypto e)) (cr_show_id (me_crypto e)) i
              (parse_messages_limit raw_limit) cursor (w_db w) of
         (Inl err, d) \<Rightarrow> (write_message_error err, w\<lparr>w_db := d\<rparr>)
       | (Inr (items, next), d) \<Rightarrow>
           (ROk 200 (map (new_message_response (me_crypto e)) items, next), w\<lparr>w_db := d\<rparr>))"

section \<open>Numbers\<close>

record number_check_response =
  nc_exists :: bool
  nc_jid :: string
  nc_normalized :: string

definition handle_check_number :: "msg_env \<Rightarrow> scope option \<Rightarrow> string \<Rightarrow> string body \<Rightarrow> msg_world
      \<Rightarrow> number_check_response resp \<times> msg_world" where
  "handle_check_number e sc raw_id b =
     path_instance (me_crypto e) sc raw_id (\<lambda>i w.
       case b of
         BodyOk raw_phone \<Rightarrow>
           (let phone = trim_space raw_phone in
            if phone = [] then (RErr 400 ''invalid_request'' ''phone is required'', w)
            else (case svc_get i w of
              (Inl err, w) \<Rightarrow> (write_instance_error err, w)
            | (Inr stored, w) \<Rightarrow>
                if \<not> authorize_instance sc stored then (write_forbidden, w)
                else (case jid_resolve (me_clock e) (me_probe e i) phone (hm_resolver (w_rest w), w_db w) of
                  ((r, _), rs, d) \<Rightarrow>
                    (case r of
                       Inr jid \<Rightarrow> ROk 200 \<lparr>nc_exists = True, nc_jid = jid, nc_normalized = normalize_phone phone\<rparr>
                     | Inl NumberNotFound \<Rightarrow>
                         ROk 200 \<lparr>nc_exists = False, nc_jid = [], nc_normalized = normalize_phone phone\<rparr>
                     | Inl ResolverUnavailable \<Rightarrow> resolution_unavailable,
                     w\<lparr>w_db := d, w_rest := (w_rest w)\<lparr>hm_resolver := rs\<rparr>\<rparr>))))
       | bad \<Rightarrow> (write_json_body_error bad, w))"

section \<open>Downloads\<close>

text \<open>
  The name of a stored media is valid UTF-8 (a text column), in which the bytes below 0x20 and 0x7F are
  exactly the control runes \<^verbatim>\<open>strings.Map\<close> drops.
\<close>

definition control_char :: "char \<Rightarrow> bool" where
  "control_char c \<longleftrightarrow> c < CHR 0x20 \<or> c = CHR 0x7F"

definition sanitize_media_filename :: "string \<Rightarrow> string" where
  "sanitize_media_filename raw =
     (let name = map (\<lambda>c. if c = CHR 0x5C then CHR ''/'' else c) raw;
          name = trim_space (filter (\<lambda>c. \<not> control_char c) (path_base name))
      in if name \<in> {[], ''.'', ''..'', ''/''} then [] else name)"

text \<open>\<open>me_format\<close> is \<^verbatim>\<open>mime.FormatMediaType\<close> of an attachment with that name, empty when it cannot.\<close>

definition media_content_disposition :: "msg_env \<Rightarrow> media \<Rightarrow> string" where
  "media_content_disposition e m =
     (let name = sanitize_media_filename (md_filename m);
          name = (if name = [] then cr_show_id (me_crypto e) (md_id m) else name);
          disposition = me_format e name
      in if disposition = [] then ''attachment'' else disposition)"

record download =
  dl_content_type :: string
  dl_sniff :: string
  dl_disposition :: string
  dl_length :: int
  dl_body :: string

definition media_not_found :: "'a resp" where
  [http_simps]: "media_not_found = RErr 404 ''not_found'' ''media not found''"

fun write_media_error :: "media_err \<Rightarrow> 'a resp" where
  "write_media_error MediaNotFound = media_not_found"
| "write_media_error MediaExpired = media_not_found"
| "write_media_error _ = internal_error"

definition handle_get_media :: "msg_env \<Rightarrow> scope option \<Rightarrow> string \<Rightarrow> msg_world \<Rightarrow> download resp \<times> msg_world" where
  "handle_get_media e sc raw_id w =
     (case cr_parse_id (me_crypto e) raw_id of
        None \<Rightarrow> (media_not_found, w)
      | Some i \<Rightarrow>
          (case on_media (media_open (me_storage e) (me_now e) i) w of
             (Inl err, w) \<Rightarrow> (write_media_error err, w)
           | (Inr (content, rec), w) \<Rightarrow>
               if deny_foreign_instance_key sc (md_instance rec) then (write_forbidden, w)
               else (case svc_get (md_instance rec) w of
                 (Inl err, w) \<Rightarrow> (write_instance_error err, w)
               | (Inr owner, w) \<Rightarrow>
                   if \<not> authorize_instance sc owner then (write_forbidden, w)
                   else (ROk 200 \<lparr>dl_content_type = md_mimetype rec, dl_sniff = ''nosniff'',
                           dl_disposition = media_content_disposition e rec, dl_length = md_size rec,
                           dl_body = content\<rparr>, w))))"

section \<open>What a send leaves\<close>

text \<open>The four routes, as one function of the request the router picked.\<close>

datatype message_send =
    SendText "send_text_request body"
  | SendLocation "send_location_request body"
  | SendContact "send_contact_request body"
  | SendMedia "int option \<Rightarrow> form_outcome"

fun handle_send :: "msg_env \<Rightarrow> scope option \<Rightarrow> string \<Rightarrow> message_send \<Rightarrow> msg_world
      \<Rightarrow> message_accepted_response resp \<times> msg_world" where
  "handle_send e sc raw (SendText b) = handle_send_text e sc raw b"
| "handle_send e sc raw (SendLocation b) = handle_send_location e sc raw b"
| "handle_send e sc raw (SendContact b) = handle_send_contact e sc raw b"
| "handle_send e sc raw (SendMedia f) = handle_send_media e sc raw f"

fun send_type :: "message_send \<Rightarrow> string" where
  "send_type (SendText _) = ''text''"
| "send_type (SendLocation _) = ''location''"
| "send_type (SendContact _) = ''contact''"
| "send_type (SendMedia _) = ''media''"

lemma write_message_error_not_ok: "write_message_error e \<noteq> ROk c a"
proof (cases e)
  case (MessageResolve r)
  then show ?thesis by (cases r) (simp_all add: http_simps)
qed (simp_all add: http_simps)

lemma write_media_upload_error_not_ok: "write_media_upload_error e \<noteq> ROk c a"
  by (cases e) (simp_all add: http_simps)

lemma write_json_body_error_not_ok: "write_json_body_error b \<noteq> ROk c a"
  by (cases b) simp_all

lemma turned_away_not_ok: "turned_away (resp :: 'a resp) \<Longrightarrow> resp \<noteq> ROk c a"
  by (auto simp: turned_away_def http_simps)

definition queued_by :: "msg_env \<Rightarrow> scope option \<Rightarrow> string \<Rightarrow> string \<Rightarrow> message_accepted_response \<Rightarrow> db \<Rightarrow> db \<Rightarrow> bool" where
  "queued_by e sc raw t a d d' \<longleftrightarrow>
     a = \<lparr>ma_id = cr_show_id (me_crypto e) (me_fresh e), ma_status = ''queued''\<rparr> \<and>
     (\<exists>i r row. cr_parse_id (me_crypto e) raw = Some i \<and> row_by ir_id i (t_instances d) = Some r
        \<and> authorize_instance sc (scan_instance r) \<and> ir_status r = ''connected''
        \<and> t_messages d' = t_messages d @ [row] \<and> mr_id row = me_fresh e
        \<and> me_fresh e \<notin> mr_id ` set (t_messages d)
        \<and> mr_instance row = i \<and> mr_type row = t \<and> mr_status row = ''queued'' \<and> mr_retries row = 0)"

text \<open>What an answer says of the queue; \<open>d\<close> and \<open>d'\<close> are the tables before and after.\<close>

definition queue_agrees :: "msg_env \<Rightarrow> scope option \<Rightarrow> string \<Rightarrow> string \<Rightarrow> message_accepted_response resp \<Rightarrow> db \<Rightarrow> db \<Rightarrow> bool" where
  "queue_agrees e sc raw t resp d d' \<longleftrightarrow>
     (case resp of ROk c a \<Rightarrow> c = 202 \<and> queued_by e sc raw t a d d' | _ \<Rightarrow> t_messages d' = t_messages d)"

lemma queue_agrees_refused:
  "\<forall>c a. resp \<noteq> ROk c a \<Longrightarrow> t_messages d' = t_messages d \<Longrightarrow> queue_agrees e sc raw t resp d d'"
  by (cases resp) (auto simp: queue_agrees_def)

lemma accept_message_agrees:
  assumes a: "accept_message e i inp w = (resp, w')"
    and i: "cr_parse_id (me_crypto e) raw = Some i" "row_by ir_id i (t_instances d0) = Some r"
      "authorize_instance sc (scan_instance r)"
    and d: "t_messages (w_db w) = t_messages d0" "t_instances (w_db w) = t_instances d0"
  shows "queue_agrees e sc raw (ei_type inp) resp d0 (w_db w')"
proof -
  obtain q rs d' where q: "message_enqueue (me_fresh e) (me_clock e) (me_probe e i) i inp
      (hm_resolver (w_rest w), w_db w) = (q, rs, d')"
    by (metis prod_cases3)
  have m: "messages_enqueue e i inp w = (q, w\<lparr>w_db := d', w_rest := (w_rest w)\<lparr>hm_resolver := rs\<rparr>\<rparr>)"
    by (simp add: messages_enqueue_def q)
  show ?thesis
  proof (cases q)
    case (Inl err)
    then have "resp = write_message_error err" "w_db w' = d'" using a m by (auto simp: accept_message_def)
    then show ?thesis
      using enqueue_outcome [OF q] Inl d
      by (intro queue_agrees_refused) (simp_all add: write_message_error_not_ok)
  next
    case (Inr k)
    then have "resp = ROk 202 (new_message_accepted_response (me_crypto e) k)" "w_db w' = d'"
      using a m by (auto simp: accept_message_def)
    then show ?thesis
      using enqueue_outcome [OF q] Inr d i
      by (auto simp: queue_agrees_def queued_by_def new_message_accepted_response_def)
  qed
qed

lemma media_create_queue:
  "media_create m d = (res, d') \<Longrightarrow> t_messages d' = t_messages d \<and> t_instances d' = t_instances d"
  unfolding media_create_def by (rule pg_run_inv) (auto simp: same_tables_fields Let_def split: if_splits)

lemma media_save_queue:
  assumes "media_save sc fresh tmp now inst dir mid mime name data m = (res, m')"
  shows "t_messages (mw_db m') = t_messages (mw_db m) \<and> t_instances (mw_db m') = t_instances (mw_db m)"
  using assms
  by (auto simp: media_save_def Let_def dest!: media_create_queue split: if_splits prod.splits bool.splits sum.splits)

lemma media_send_agrees:
  assumes a: "(case on_media (media_save (me_storage e) (me_media_id e) (me_tmp e) (me_now e) i
                         media_direction_outbound [] (ud_mimetype u) (ud_filename u) (ud_data u)) w of
                   (Inl err, w) \<Rightarrow> (write_media_upload_error err, w)
                 | (Inr stored, w) \<Rightarrow> accept_message e i
                     (enqueue_zero\<lparr>ei_type := ''media'', ei_to := ud_to u, ei_caption := ud_caption u,
                        ei_filename := md_filename stored, ei_ptt := ud_ptt u,
                        ei_media := Some (md_id stored)\<rparr>) w) = (resp, w')"
    and i: "cr_parse_id (me_crypto e) raw = Some i" "row_by ir_id i (t_instances d0) = Some r"
      "authorize_instance sc (scan_instance r)"
    and d: "t_messages (w_db w) = t_messages d0" "t_instances (w_db w) = t_instances d0"
  shows "queue_agrees e sc raw ''media'' resp d0 (w_db w')"
proof -
  obtain q m where q: "media_save (me_storage e) (me_media_id e) (me_tmp e) (me_now e) i
      media_direction_outbound [] (ud_mimetype u) (ud_filename u) (ud_data u)
      \<lparr>mw_db = w_db w, mw_fs = hm_files (w_rest w)\<rparr> = (q, m)" by fastforce
  have m: "t_messages (mw_db m) = t_messages d0" "t_instances (mw_db m) = t_instances d0"
    using media_save_queue [OF q] d by simp_all
  show ?thesis
  proof (cases q)
    case (Inl err)
    then have "resp = write_media_upload_error err" "w_db w' = mw_db m" using a q by (auto simp: on_media_def)
    then show ?thesis using m(1) by (intro queue_agrees_refused) (simp_all add: write_media_upload_error_not_ok)
  next
    case (Inr stored)
    then have "accept_message e i
        (enqueue_zero\<lparr>ei_type := ''media'', ei_to := ud_to u, ei_caption := ud_caption u,
           ei_filename := md_filename stored, ei_ptt := ud_ptt u, ei_media := Some (md_id stored)\<rparr>)
        (w\<lparr>w_db := mw_db m, w_rest := (w_rest w)\<lparr>hm_files := mw_fs m\<rparr>\<rparr>) = (resp, w')"
      using a q by (simp add: on_media_def)
    from accept_message_agrees [OF this i] m show ?thesis by simp
  qed
qed

lemma check_upload_not_ok: "check_upload e f \<noteq> Inl (ROk c a)"
  by (auto simp: check_upload_def Let_def http_simps split: option.splits sum.splits)

lemma sent_body_agrees:
  assumes "(case b of BodyOk rq \<Rightarrow> act rq | bad \<Rightarrow> (write_json_body_error bad, w)) = (resp, w')"
    and "t_messages (w_db w) = t_messages d0"
    and "\<And>rq. act rq = (resp, w') \<Longrightarrow> queue_agrees e sc raw t resp d0 (w_db w')"
  shows "queue_agrees e sc raw t resp d0 (w_db w')"
  using assms by (cases b) (auto intro: queue_agrees_refused)

lemma with_instance_agrees:
  assumes w: "with_instance (me_crypto e) authorize_instance sc raw act w = (resp, w')"
    and act: "\<And>i r d. cr_parse_id (me_crypto e) raw = Some i \<Longrightarrow> row_by ir_id i (t_instances (w_db w)) = Some r
      \<Longrightarrow> authorize_instance sc (scan_instance r) \<Longrightarrow> t_messages d = t_messages (w_db w)
      \<Longrightarrow> t_instances d = t_instances (w_db w) \<Longrightarrow> act i (scan_instance r) (w\<lparr>w_db := d\<rparr>) = (resp, w')
      \<Longrightarrow> queue_agrees e sc raw t resp (w_db w) (w_db w')"
  shows "queue_agrees e sc raw t resp (w_db w) (w_db w')"
  using w
proof (cases rule: with_instance_cases)
  case (away d)
  then show ?thesis
    by (intro queue_agrees_refused) (auto simp: turned_away_def http_simps same_tables_fields(3))
next
  case (acted i r d)
  show ?thesis
    by (rule act [OF acted(1,3,4) _ _ acted(6)]) (simp_all add: same_tables_fields [OF acted(5)])
qed

lemma with_body_agrees:
  assumes "with_instance (me_crypto e) authorize_instance sc raw
      (\<lambda>i _ w. case b of BodyOk rq \<Rightarrow> act i rq w | bad \<Rightarrow> (write_json_body_error bad, w)) w = (resp, w')"
    and "\<And>i rq w1. \<forall>inp. accept_message e i inp w1 = (resp, w') \<longrightarrow> ei_type inp = t \<longrightarrow>
            queue_agrees e sc raw t resp (w_db w) (w_db w') \<Longrightarrow> t_messages (w_db w1) = t_messages (w_db w)
        \<Longrightarrow> act i rq w1 = (resp, w') \<Longrightarrow> queue_agrees e sc raw t resp (w_db w) (w_db w')"
  shows "queue_agrees e sc raw t resp (w_db w) (w_db w')"
  using assms(1)
proof (rule with_instance_agrees)
  fix i r d
  assume i: "cr_parse_id (me_crypto e) raw = Some i" "row_by ir_id i (t_instances (w_db w)) = Some r"
      "authorize_instance sc (scan_instance r)"
    and d: "t_messages d = t_messages (w_db w)" "t_instances d = t_instances (w_db w)"
    and a: "(case b of BodyOk rq \<Rightarrow> act i rq (w\<lparr>w_db := d\<rparr>)
        | bad \<Rightarrow> (write_json_body_error bad, w\<lparr>w_db := d\<rparr>)) = (resp, w')"
  have accepted: "\<forall>inp. accept_message e i inp (w\<lparr>w_db := d\<rparr>) = (resp, w') \<longrightarrow> ei_type inp = t \<longrightarrow>
      queue_agrees e sc raw t resp (w_db w) (w_db w')"
    by (intro allI impI) (erule subst, erule accept_message_agrees [OF _ i], simp_all add: d)
  show "queue_agrees e sc raw t resp (w_db w) (w_db w')"
    using a
  proof (rule sent_body_agrees)
    show "t_messages (w_db (w\<lparr>w_db := d\<rparr>)) = t_messages (w_db w)" using d by simp
    then show "queue_agrees e sc raw t resp (w_db w) (w_db w')" if "act i rq (w\<lparr>w_db := d\<rparr>) = (resp, w')" for rq
      using accepted that by (intro assms(2))
  qed
qed

lemma handle_send_agrees:
  assumes "handle_send e sc raw rq w = (resp, w')"
  shows "queue_agrees e sc raw (send_type rq) resp (w_db w) (w_db w')"
proof (cases rq)
  case (SendText b)
  show ?thesis
    using assms unfolding SendText handle_send.simps handle_send_text_def send_type.simps
    by (rule with_body_agrees) (force simp: enqueue_zero_def)
next
  case (SendContact b)
  show ?thesis
    using assms unfolding SendContact handle_send.simps handle_send_contact_def send_type.simps
    by (rule with_body_agrees) (force simp: enqueue_zero_def)
next
  case (SendLocation b)
  show ?thesis
    using assms unfolding SendLocation handle_send.simps handle_send_location_def send_type.simps
    by (rule with_body_agrees)
      (force simp: enqueue_zero_def http_simps intro: queue_agrees_refused split: option.splits)
next
  case (SendMedia form)
  show ?thesis
    using assms unfolding SendMedia handle_send.simps handle_send_media_def send_type.simps
  proof (rule with_instance_agrees)
    fix i r d
    assume i: "cr_parse_id (me_crypto e) raw = Some i" "row_by ir_id i (t_instances (w_db w)) = Some r"
        "authorize_instance sc (scan_instance r)"
      and d: "t_messages d = t_messages (w_db w)" "t_instances d = t_instances (w_db w)"
      and a: "(case form (form_limit (me_max_bytes e)) of
         FormTooLarge \<Rightarrow> (unprocessable_entity ''file exceeds the size limit'', w\<lparr>w_db := d\<rparr>)
       | FormMalformed \<Rightarrow> (RErr 400 ''invalid_request'' ''invalid multipart body'', w\<lparr>w_db := d\<rparr>)
       | FormOk f \<Rightarrow>
           (case check_upload e f of
              Inl resp \<Rightarrow> (resp, w\<lparr>w_db := d\<rparr>)
            | Inr u \<Rightarrow>
                (case on_media (media_save (me_storage e) (me_media_id e) (me_tmp e) (me_now e) i
                         media_direction_outbound [] (ud_mimetype u) (ud_filename u) (ud_data u)) (w\<lparr>w_db := d\<rparr>) of
                   (Inl err, w) \<Rightarrow> (write_media_upload_error err, w)
                 | (Inr stored, w) \<Rightarrow> accept_message e i
                     (enqueue_zero\<lparr>ei_type := ''media'', ei_to := ud_to u, ei_caption := ud_caption u,
                        ei_filename := md_filename stored, ei_ptt := ud_ptt u,
                        ei_media := Some (md_id stored)\<rparr>) w))) = (resp, w')"
    have d': "t_messages (w_db (w\<lparr>w_db := d\<rparr>)) = t_messages (w_db w)"
      "t_instances (w_db (w\<lparr>w_db := d\<rparr>)) = t_instances (w_db w)" using d by simp_all
    show "queue_agrees e sc raw ''media'' resp (w_db w) (w_db w')"
    proof (cases "\<exists>f u. form (form_limit (me_max_bytes e)) = FormOk f
        \<and> check_upload e f = (Inr u :: message_accepted_response resp + upload_request)")
      case True
      then obtain f u where "form (form_limit (me_max_bytes e)) = FormOk f"
        "check_upload e f = (Inr u :: message_accepted_response resp + upload_request)" by blast
      then show ?thesis using a by (intro media_send_agrees [OF _ i d']) simp
    next
      case False
      then have "\<forall>c m. resp \<noteq> ROk c m" "w' = w\<lparr>w_db := d\<rparr>"
        using a by (auto simp: http_simps check_upload_not_ok split: form_outcome.splits sum.splits)
      then show ?thesis using d by (intro queue_agrees_refused) simp_all
    qed
  qed
qed

text \<open>
  C21: what an accepted send means. A send of any of the four types answers 202 exactly when it put one new
  message of that type, queued, on the queue of an instance the scope may act on and that is connected, and
  the answer carries that message's id. After every other answer the queue is what it was.
\<close>

theorem accepted_sends_queue_one_message:
  assumes "handle_send e sc raw rq w = (resp, w')"
  shows "case resp of
      ROk c a \<Rightarrow> c = 202 \<and> queued_by e sc raw (send_type rq) a (w_db w) (w_db w')
    | _ \<Rightarrow> t_messages (w_db w') = t_messages (w_db w)"
  using handle_send_agrees [OF assms] by (simp add: queue_agrees_def)

definition sample_env_msg :: msg_env where
  "sample_env_msg =
     \<lparr>me_crypto = sample_crypto, me_fresh = 9, me_clock = (\<lambda>_. 0), me_probe = (\<lambda>_. None),
      me_storage = sample_storage, me_media_id = 4, me_tmp = ''t'', me_now = 0, me_max_bytes = 10,
      me_media_type = Some, me_format = (\<lambda>n. n)\<rparr>"

definition sample_files :: files where
  "sample_files = \<lparr>fs_content = (\<lambda>_. None), fs_script = [], fs_torn = (\<lambda>s. s), fs_survives = (\<lambda>_. False)\<rparr>"

definition sample_msg_world :: msg_world where
  "sample_msg_world = \<lparr>w_db = sample_db, w_keys = new_key_cache,
     w_rest = \<lparr>hm_resolver = new_resolver, hm_files = sample_files\<rparr>\<rparr>"

definition global_scope :: scope where
  "global_scope = empty_scope\<lparr>sc_kind := scope_global\<rparr>"

lemma global_scope_may: "authorize_instance (Some global_scope) inst" "\<not> deny_foreign_instance_key (Some global_scope) i"
  by (simp_all add: authorize_instance_iff global_scope_def deny_foreign_instance_key_def scope_kinds)

theorem accepted_sends_queue_one_message_witness:
  "\<exists>w'. handle_send sample_env_msg (Some global_scope) ''one''
      (SendText (BodyOk \<lparr>tx_to = ''a@b'', tx_text = ''hi''\<rparr>)) sample_msg_world
        = (ROk 202 \<lparr>ma_id = ''one'', ma_status = ''queued''\<rparr>, w')
     \<and> length (t_messages (w_db w')) = 2"
proof -
  let ?rq = "SendText (BodyOk \<lparr>tx_to = ''a@b'', tx_text = ''hi''\<rparr>)"
  obtain resp w' where h: "handle_send sample_env_msg (Some global_scope) ''one'' ?rq sample_msg_world = (resp, w')"
    by fastforce
  have t: "trim_space ''a@b'' = ''a@b''" "trim_space ''hi'' \<noteq> []" by code_simp+
  have r: "resp = ROk 202 \<lparr>ma_id = ''one'', ma_status = ''queued''\<rparr>"
    using h t
    by (simp add: handle_send_text_def with_instance_def path_instance_def sample_env_msg_def sample_crypto_def
        global_scope_may svc_get_def on_db_def sample_msg_world_def instances_get_def sample_defs scan_instance_def
        accept_message_def messages_enqueue_def message_enqueue_def enqueue_zero_def build_payload_def
        jid_resolve_def messages_create_def Let_def outbound_of_def scan_message_def message_row_of_def
        new_message_accepted_response_def split: prod.splits)
  show ?thesis
    using h r accepted_sends_queue_one_message [OF h]
    by (auto simp: queued_by_def sample_msg_world_def sample_defs)
qed

section \<open>File names and downloads\<close>

lemma strip_any_suffix: "strip_any ps s = Some r \<Longrightarrow> \<exists>p. s = p @ r"
  by (induction ps) (auto split: option.splits)

lemma trim_front_suffix: "\<exists>p. s = p @ trim_front n ps s"
proof (induction n arbitrary: s)
  case (Suc n)
  show ?case
  proof (cases "strip_any ps s")
    case (Some r)
    then obtain p q where "s = p @ r" "r = q @ trim_front n ps r" using strip_any_suffix Suc.IH by blast
    then show ?thesis using Some by (metis append.assoc option.simps(5) trim_front.simps(2))
  qed simp
qed simp

lemma trim_space_chars: "set (trim_space s) \<subseteq> set s"
proof -
  have l: "set (trim_left t) \<subseteq> set t" for t
    unfolding trim_left_def by (metis Un_upper2 set_append trim_front_suffix)
  have r: "set (trim_right t) \<subseteq> set t" for t
    unfolding trim_right_def set_rev by (metis Un_upper2 set_append set_rev trim_front_suffix)
  show ?thesis unfolding trim_space_def using l r by blast
qed

lemma path_base_cases: "path_base p = ''/'' \<or> CHR ''/'' \<notin> set (path_base p) \<and> (path_base p = ''.'' \<or> set (path_base p) \<subseteq> set p)"
proof -
  let ?segs = "filter (\<lambda>s. s \<noteq> []) (split_slash p)"
  have sub: "seg \<in> set (split_slash s) \<Longrightarrow> set seg \<subseteq> set s" for seg s
    by (induction s arbitrary: seg) (auto split: list.splits if_splits, blast+)
  show ?thesis
  proof (cases "p = [] \<or> ?segs = []")
    case True
    then show ?thesis by (auto simp: path_base_def Let_def)
  next
    case False
    then have "last ?segs \<in> set ?segs" by (intro last_in_set) simp
    then have "last ?segs \<in> set (split_slash p)" by simp
    then show ?thesis using False split_slash_no_slash sub by (auto simp: path_base_def Let_def)
  qed
qed

text \<open>
  The name a download suggests comes from the sender of the media. Whatever it is, what goes into the
  header has no slash, no backslash and no control character, so neither a path nor a second header line,
  is not one of the dot names, and no character that was not in it.
\<close>

theorem suggested_names_are_plain:
  "CHR ''/'' \<notin> set (sanitize_media_filename raw) \<and> CHR 0x5C \<notin> set (sanitize_media_filename raw)
     \<and> set (sanitize_media_filename raw) \<subseteq> {c \<in> set raw. \<not> control_char c}
     \<and> sanitize_media_filename raw \<noteq> ''.'' \<and> sanitize_media_filename raw \<noteq> ''..''"
proof -
  let ?flat = "map (\<lambda>c. if c = CHR 0x5C then CHR ''/'' else c) raw"
  let ?base = "path_base ?flat"
  let ?name = "trim_space (filter (\<lambda>c. \<not> control_char c) ?base)"
  have out: "sanitize_media_filename raw = (if ?name \<in> {[], ''.'', ''..'', ''/''} then [] else ?name)"
    by (simp add: sanitize_media_filename_def)
  have name: "set ?name \<subseteq> {c \<in> set ?base. \<not> control_char c}"
    using trim_space_chars [of "filter (\<lambda>c. \<not> control_char c) ?base"] by auto
  consider "?base = ''/''" | "?base = ''.''" | "CHR ''/'' \<notin> set ?base" "set ?base \<subseteq> set ?flat"
    using path_base_cases [of ?flat] by blast
  then show ?thesis
  proof cases
    case 1
    have "trim_space (filter (\<lambda>c. \<not> control_char c) ''/'') = ''/''" by code_simp
    then show ?thesis using 1 by (simp add: out)
  next
    case 2
    have "trim_space (filter (\<lambda>c. \<not> control_char c) ''.'') = ''.''" by code_simp
    then show ?thesis using 2 by (simp add: out)
  next
    case 3
    then have "set ?base \<subseteq> set raw" "CHR 0x5C \<notin> set ?base" by (auto split: if_splits)
    then show ?thesis using 3 name by (auto simp: out)
  qed
qed

lemma media_open_found:
  assumes "media_open sc now i w = (Inr (content, rec), w')"
  obtains row p where "row_by dr_id i (t_media (mw_db w)) = Some row" "rec = scan_media row" "now < dr_expires row"
    "safe_path (st_dir sc) (dr_path row) = Some p" "fs_content (mw_fs w) p = Some content"
    "same_tables (mw_db w) (mw_db w')"
proof -
  obtain q d where q: "media_get i (mw_db w) = (q, d)" by fastforce
  have s: "same_tables (mw_db w) d" using q unfolding media_get_def by (rule pg_run_inv) auto
  have row: "q = Inr x \<Longrightarrow> \<exists>r. row_by dr_id i (t_media (mw_db w)) = Some r \<and> x = scan_media r" for x
    using q unfolding media_get_def by (auto elim!: pg_run_Inr simp: same_tables_fields split: option.splits)
  obtain p f where p: "q = Inr rec" "now < md_expires rec" "safe_path (st_dir sc) (md_path rec) = Some p"
      "fs_stat p (mw_fs w) = (Inr (), f)" "fst (fs_open p f) = Inr content" "mw_db w' = d"
    using assms q by (auto simp: media_open_def media_path_def Let_def
        split: sum.splits prod.splits if_splits option.splits fs_err.splits)
  obtain r where r: "row_by dr_id i (t_media (mw_db w)) = Some r" "rec = scan_media r" using row p(1) by blast
  have "fs_content f = fs_content (mw_fs w)"
    using p(4) by (auto simp: fs_stat_def dest: fs_next_content split: prod.splits)
  then have "fs_content (mw_fs w) p = Some content"
    using p(5) by (auto simp: fs_open_def dest: fs_next_content split: prod.splits if_splits option.splits)
  then show thesis using that [of r p] r p(2,3,6) s by (auto simp: scan_media_def)
qed

text \<open>
  Downloads are scoped and bounded in time. A content is answered only for a media that has not expired
  and whose owning instance the scope may act on, and it is the content of the file below the data
  directory its row names; the declared type is the stored one and sniffing is off.
\<close>

theorem downloads_are_scoped:
  assumes "handle_get_media e sc raw w = (ROk c dl, w')"
  shows "c = 200 \<and> same_tables (w_db w) (w_db w') \<and>
    (\<exists>i row r p. cr_parse_id (me_crypto e) raw = Some i \<and> row_by dr_id i (t_media (w_db w)) = Some row
      \<and> me_now e < dr_expires row
      \<and> row_by ir_id (dr_instance row) (t_instances (w_db w)) = Some r
      \<and> authorize_instance sc (scan_instance r) \<and> \<not> deny_foreign_instance_key sc (dr_instance row)
      \<and> safe_path (st_dir (me_storage e)) (dr_path row) = Some p
      \<and> fs_content (hm_files (w_rest w)) p = Some (dl_body dl)
      \<and> dl_content_type dl = dr_mimetype row \<and> dl_sniff dl = ''nosniff'' \<and> dl_disposition dl \<noteq> [])"
proof -
  obtain i where i: "cr_parse_id (me_crypto e) raw = Some i"
    using assms by (auto simp: handle_get_media_def http_simps split: option.splits)
  obtain q m where q: "media_open (me_storage e) (me_now e) i \<lparr>mw_db = w_db w, mw_fs = hm_files (w_rest w)\<rparr> = (q, m)"
    by fastforce
  have err: "write_media_error x \<noteq> ROk c dl" for x by (cases x) (simp_all add: http_simps)
  have ierr: "write_instance_error x \<noteq> ROk c dl" for x by (cases x) (simp_all add: http_simps)
  obtain content rec where o: "q = Inr (content, rec)"
    using assms i q err by (cases q) (auto simp: handle_get_media_def on_media_def)
  from media_open_found [OF q [unfolded o]]
  obtain row p where row: "row_by dr_id i (t_media (w_db w)) = Some row" "rec = scan_media row" "me_now e < dr_expires row"
      "safe_path (st_dir (me_storage e)) (dr_path row) = Some p"
      "fs_content (hm_files (w_rest w)) p = Some content" "same_tables (w_db w) (mw_db m)"
    by auto
  let ?w = "w\<lparr>w_db := mw_db m, w_rest := (w_rest w)\<lparr>hm_files := mw_fs m\<rparr>\<rparr>"
  have inst: "md_instance rec = dr_instance row" using row(2) by (simp add: scan_media_def)
  have rest: "(if deny_foreign_instance_key sc (md_instance rec) then (write_forbidden, ?w)
       else (case svc_get (md_instance rec) ?w of
                 (Inl err, w) \<Rightarrow> (write_instance_error err, w)
               | (Inr owner, w) \<Rightarrow>
                   if \<not> authorize_instance sc owner then (write_forbidden, w)
                   else (ROk 200 \<lparr>dl_content_type = md_mimetype rec, dl_sniff = ''nosniff'',
                           dl_disposition = media_content_disposition e rec, dl_length = md_size rec,
                           dl_body = content\<rparr>, w))) = (ROk c dl, w')"
    using assms i q o by (simp add: handle_get_media_def on_media_def)
  show ?thesis
  proof (cases rule: svc_get_cases [of "md_instance rec" ?w])
    case (found r d)
    have "same_tables (w_db w) d" using row(6) found(2) same_tables_trans by simp
    then show ?thesis
      using rest found i row inst same_tables_fields [OF row(6)]
      by (auto simp: http_simps scan_media_def media_content_disposition_def Let_def split: if_splits)
  next
    case (failed err d)
    then show ?thesis using rest ierr by (auto simp: http_simps split: if_splits)
  qed
qed

definition sample_media_row :: media_row where
  "sample_media_row =
     \<lparr>dr_id = 1, dr_instance = 1, dr_direction = ''inbound'', dr_message = None, dr_mimetype = ''image/png'',
      dr_filename = None, dr_size = 3, dr_path = ''media/x'', dr_sha256 = [], dr_created = 0, dr_expires = 5\<rparr>"

definition sample_download_world :: msg_world where
  "sample_download_world = sample_msg_world\<lparr>w_db := sample_db\<lparr>t_media := [sample_media_row]\<rparr>,
     w_rest := \<lparr>hm_resolver = new_resolver,
       hm_files = sample_files\<lparr>fs_content := (\<lambda>p. if p = ''/data/media/x'' then Some ''xyz'' else None)\<rparr>\<rparr>\<rparr>"

theorem downloads_are_scoped_witness:
  "\<exists>dl w'. handle_get_media sample_env_msg (Some global_scope) ''one'' sample_download_world = (ROk 200 dl, w')
     \<and> dl_body dl = ''xyz'' \<and> dl_sniff dl = ''nosniff'' \<and> dl_disposition dl \<noteq> []"
proof -
  have s: "safe_path ''/data'' ''media/x'' = Some ''/data/media/x''" by code_simp
  have "fst (handle_get_media sample_env_msg (Some global_scope) ''one'' sample_download_world)
      = ROk 200 \<lparr>dl_content_type = ''image/png'', dl_sniff = ''nosniff'',
          dl_disposition = media_content_disposition sample_env_msg (scan_media sample_media_row), dl_length = 3, dl_body = ''xyz''\<rparr>"
    by (simp add: handle_get_media_def sample_env_msg_def sample_crypto_def on_media_def sample_download_world_def
        media_open_def media_path_def media_get_def sample_msg_world_def sample_defs sample_media_row_def scan_media_def
        sample_storage_def s fs_stat_def fs_open_def sample_files_def Let_def global_scope_may svc_get_def on_db_def
        instances_get_def)
  then obtain dl w' where h: "handle_get_media sample_env_msg (Some global_scope) ''one'' sample_download_world = (ROk 200 dl, w')"
    and b: "dl_body dl = ''xyz''"
    by (cases "handle_get_media sample_env_msg (Some global_scope) ''one'' sample_download_world") auto
  from downloads_are_scoped [OF h] h b show ?thesis by blast
qed

end
