(* ===== verification/ChatwootWiring.thy ===== *)
theory ChatwootWiring
  imports ChatwootInbound AttachmentGate ChatwootContacts HttpMessages
begin

text \<open>
  The inbound handler over the real parts, as \<^verbatim>\<open>serve\<close> of \<^verbatim>\<open>cmd/wzap/main.go\<close> wires it: the message service, the
  media storage, the connector's tables, the Chatwoot client and the attachment gate. The sessions and the mirror's
  caches are the state \<open>hc_rest\<close>. What is drawn from outside depends on a counter of the draws.
\<close>

section \<open>The world of the connector\<close>

record ('s, 'x) chat_rest =
  hc_resolver :: resolver
  hc_files :: files
  hc_configs :: "chatwoot_config list"
  hc_correlations :: "correlation list"
  hc_net :: "'s cw_world"
  hc_rest :: 'x
  hc_tick :: nat

type_synonym ('s, 'x) chat_world = "('s, 'x) chat_rest world"

record ('h, 's, 'x) chat_env =
  ce_global :: chatwoot_global
  ce_crypto :: crypto
  ce_fresh :: "nat \<Rightarrow> uuid"
  ce_clock :: "nat \<Rightarrow> nat \<Rightarrow> instant"
  ce_probe :: "nat \<Rightarrow> uuid \<Rightarrow> probe option"
  ce_storage :: storage_config
  ce_tmp :: "nat \<Rightarrow> string"
  ce_now :: "nat \<Rightarrow> instant"
  ce_max_bytes :: int
  ce_net :: "'s cw_net"
  ce_dns :: "nat \<Rightarrow> nat \<Rightarrow> net_env"
  ce_web :: "nat \<Rightarrow> ip \<Rightarrow> string \<Rightarrow> http_answer option"
  ce_session :: "uuid \<Rightarrow> 'x \<Rightarrow> 'h option"
  ce_delete_message :: "'h \<Rightarrow> string \<Rightarrow> string \<Rightarrow> 'x \<Rightarrow> (string + unit) \<times> 'x"
  ce_mark_read :: "'h \<Rightarrow> string \<Rightarrow> string \<Rightarrow> string \<Rightarrow> 'x \<Rightarrow> (string + unit) \<times> 'x"
  ce_pair_phone :: "'h \<Rightarrow> string \<Rightarrow> 'x \<Rightarrow> (string + string) \<times> 'x"
  ce_connect :: "'h \<Rightarrow> 'x \<Rightarrow> (string + string) \<times> 'x"
  ce_disconnect :: "'h \<Rightarrow> 'x \<Rightarrow> (string + unit) \<times> 'x"
  ce_clear :: "uuid \<Rightarrow> 'x \<Rightarrow> 'x"
  ce_print_storage :: "storage_err \<Rightarrow> string"
  ce_print_message :: "message_err \<Rightarrow> string"
  ce_print_media :: "media_err \<Rightarrow> string"
  ce_print_client :: "client_err \<Rightarrow> string"
  ce_print_download :: "download_err \<Rightarrow> string"

definition on_cw :: "(cw_db \<Rightarrow> 'a \<times> cw_db) \<Rightarrow> ('s, 'x) chat_world \<Rightarrow> 'a \<times> ('s, 'x) chat_world" where
  "on_cw op w =
     (case op \<lparr>cd_base = w_db w, cd_configs = hc_configs (w_rest w), cd_correlations = hc_correlations (w_rest w)\<rparr> of
        (r, d) \<Rightarrow> (r, w\<lparr>w_db := cd_base d,
          w_rest := (w_rest w)\<lparr>hc_configs := cd_configs d, hc_correlations := cd_correlations d\<rparr>\<rparr>))"

definition on_net :: "('s cw_world \<Rightarrow> 'a \<times> 's cw_world) \<Rightarrow> ('s, 'x) chat_world \<Rightarrow> 'a \<times> ('s, 'x) chat_world" where
  "on_net op w = (case op (hc_net (w_rest w)) of (r, n) \<Rightarrow> (r, w\<lparr>w_rest := (w_rest w)\<lparr>hc_net := n\<rparr>\<rparr>))"

definition on_rest :: "('x \<Rightarrow> 'a \<times> 'x) \<Rightarrow> ('s, 'x) chat_world \<Rightarrow> 'a \<times> ('s, 'x) chat_world" where
  "on_rest op w = (case op (hc_rest (w_rest w)) of (r, x) \<Rightarrow> (r, w\<lparr>w_rest := (w_rest w)\<lparr>hc_rest := x\<rparr>\<rparr>))"

definition draw :: "(nat \<Rightarrow> ('s, 'x) chat_world \<Rightarrow> 'b) \<Rightarrow> ('s, 'x) chat_world \<Rightarrow> 'b" where
  "draw op w = op (hc_tick (w_rest w)) (w\<lparr>w_rest := (w_rest w)\<lparr>hc_tick := Suc (hc_tick (w_rest w))\<rparr>\<rparr>)"

definition printed :: "('e \<Rightarrow> string) \<Rightarrow> ('e + 'a) \<times> 'w \<Rightarrow> (string + 'a) \<times> 'w" where
  "printed show_error = apfst (map_sum show_error id)"

section \<open>The wired operations\<close>

definition wired_enqueue :: "('h, 's, 'x) chat_env \<Rightarrow> uuid \<Rightarrow> enqueue_input \<Rightarrow> ('s, 'x) chat_world
      \<Rightarrow> (message_err + uuid) \<times> ('s, 'x) chat_world" where
  "wired_enqueue e i inp = draw (\<lambda>n w.
     case message_enqueue (ce_fresh e n) (ce_clock e n) (ce_probe e n i) i inp (hc_resolver (w_rest w), w_db w) of
       (r, rs, d) \<Rightarrow> (r, w\<lparr>w_db := d, w_rest := (w_rest w)\<lparr>hc_resolver := rs\<rparr>\<rparr>))"

definition wired_save :: "('h, 's, 'x) chat_env \<Rightarrow> uuid \<Rightarrow> string \<Rightarrow> string \<Rightarrow> string \<Rightarrow> string \<Rightarrow> string
      \<Rightarrow> ('s, 'x) chat_world \<Rightarrow> (media_err + media) \<times> ('s, 'x) chat_world" where
  "wired_save e i direction message_id mime filename content = draw (\<lambda>n w.
     case media_save (ce_storage e) (ce_fresh e n) (ce_tmp e n) (ce_now e n) i direction message_id mime filename content
       \<lparr>mw_db = w_db w, mw_fs = hc_files (w_rest w)\<rparr> of
       (r, m) \<Rightarrow> (r, w\<lparr>w_db := mw_db m, w_rest := (w_rest w)\<lparr>hc_files := mw_fs m\<rparr>\<rparr>))"

text \<open>\<^verbatim>\<open>APIChats\<close>: a note is an outgoing message of the connection's own account.\<close>

definition config_client :: "chatwoot_config \<Rightarrow> cw_client" where
  "config_client cfg = new_client (cg_url cfg) (cg_token cfg) (cg_account cfg)"

definition wired_chat :: "('h, 's, 'x) chat_env \<Rightarrow> chatwoot_config \<Rightarrow> int \<Rightarrow> string \<Rightarrow> bool \<Rightarrow> ('s, 'x) chat_world
      \<Rightarrow> (client_err + int) \<times> ('s, 'x) chat_world" where
  "wired_chat e cfg conversation content priv w =
     (case on_net (create_message (ce_net e) (config_client cfg) conversation
         \<lparr>mq_content = content, mq_type = ''outgoing'', mq_private = priv, mq_attributes = [], mq_source = [], mq_reply = []\<rparr>) w of
        (Inl x, w) \<Rightarrow> (Inl x, w) | (Inr m, w) \<Rightarrow> (Inr (cm_id m), w))"

definition wired_download :: "('h, 's, 'x) chat_env \<Rightarrow> string \<Rightarrow> string \<Rightarrow> ('s, 'x) chat_world
      \<Rightarrow> (download_err + string \<times> string) \<times> ('s, 'x) chat_world" where
  "wired_download e target allow = draw (\<lambda>n w.
     (fst (download_attachment (ce_dns e n) (ce_web e n) (cx_detect (ce_net e)) (ce_max_bytes e) target allow), w))"

definition wired_deps :: "('h, 's, 'x) chat_env \<Rightarrow> ('h, ('s, 'x) chat_world) inbound_deps" where
  "wired_deps e =
     \<lparr>id_global = ce_global e,
      id_config = (\<lambda>i. on_cw (configs_get i)),
      id_by_chatwoot = (\<lambda>i m. on_cw (correlations_by_chatwoot i m)),
      id_latest = (\<lambda>i c. on_cw (correlations_latest i c)),
      id_instance = (\<lambda>i. on_db (instances_get i)),
      id_enqueue = (\<lambda>i inp w. printed (ce_print_message e) (wired_enqueue e i inp w)),
      id_save = (\<lambda>i dr m t f c w. printed (ce_print_media e) (wired_save e i dr m t f c w)),
      id_session = (\<lambda>i w. ce_session e i (hc_rest (w_rest w))),
      id_delete_message = (\<lambda>h chat m. on_rest (ce_delete_message e h chat m)),
      id_mark_read = (\<lambda>h chat s m. on_rest (ce_mark_read e h chat s m)),
      id_pair_phone = (\<lambda>h number. on_rest (ce_pair_phone e h number)),
      id_connect = (\<lambda>h. on_rest (ce_connect e h)),
      id_disconnect = (\<lambda>h. on_rest (ce_disconnect e h)),
      id_chat = (\<lambda>cfg c s b w. printed (ce_print_client e) (wired_chat e cfg c s b w)),
      id_download = (\<lambda>u a w. printed (ce_print_download e) (wired_download e u a w)),
      id_clear = (\<lambda>i w. w\<lparr>w_rest := (w_rest w)\<lparr>hc_rest := ce_clear e i (hc_rest (w_rest w))\<rparr>\<rparr>),
      id_print_error = ce_print_storage e\<rparr>"

section \<open>The queue\<close>

definition queued_as :: "uuid \<Rightarrow> enqueue_input \<Rightarrow> message_row \<Rightarrow> bool" where
  "queued_as i inp row \<longleftrightarrow> mr_instance row = i \<and> mr_type row = ei_type inp \<and> build_payload inp = Inr (mr_payload row)
     \<and> mr_status row = ''queued'' \<and> mr_retries row = 0 \<and> mr_media row = ei_media inp
     \<and> (\<exists>clock probe rs d. fst (fst (jid_resolve clock probe (ei_to inp) (rs, d))) = Inr (mr_recipient row))"

definition world_queue :: "('s, 'x) chat_world \<Rightarrow> message_row list" where
  "world_queue w = t_messages (w_db w)"

lemma on_cw_queue:
  assumes "\<And>d. t_messages (cd_base (snd (op d))) = t_messages (cd_base d)"
  shows "world_queue (snd (on_cw op w)) = world_queue w"
  using assms [of "\<lparr>cd_base = w_db w, cd_configs = hc_configs (w_rest w), cd_correlations = hc_correlations (w_rest w)\<rparr>"]
  by (auto simp: on_cw_def world_queue_def split: prod.splits)

lemma cw_run_queue:
  assumes "\<And>d. cd_base (snd (f d)) = cd_base d"
  shows "t_messages (cd_base (snd (cw_run f d))) = t_messages (cd_base d)"
  using assms by (cases rule: cw_run_cases [of f d]) (auto simp: same_tables_fields)

lemma on_net_queue: "world_queue (snd (on_net op w)) = world_queue w"
  by (simp add: on_net_def world_queue_def split: prod.splits)

lemma on_rest_queue: "world_queue (snd (on_rest op w)) = world_queue w"
  by (simp add: on_rest_def world_queue_def split: prod.splits)

lemma printed_world [simp]: "snd (printed f p) = snd p"
  by (simp add: printed_def)

lemma wired_chat_queue: "world_queue (snd (wired_chat e cfg c s b w)) = world_queue w"
  using on_net_queue [of "create_message (ce_net e) (config_client cfg) c
         \<lparr>mq_content = s, mq_type = ''outgoing'', mq_private = b, mq_attributes = [], mq_source = [], mq_reply = []\<rparr>" w]
  by (auto simp: wired_chat_def split: prod.splits sum.splits)

lemma wired_save_queue: "world_queue (snd (wired_save e i a b c f g w)) = world_queue w"
  by (auto simp: wired_save_def draw_def world_queue_def dest!: media_save_queue split: prod.splits)

lemma wired_download_queue: "world_queue (snd (wired_download e u a w)) = world_queue w"
  by (simp add: wired_download_def draw_def world_queue_def)

lemma wired_enqueue_queue:
  assumes "wired_enqueue e i inp w = (r, w')"
  shows "case r of Inl _ \<Rightarrow> world_queue w' = world_queue w
    | Inr _ \<Rightarrow> \<exists>m. world_queue w' = world_queue w @ [m] \<and> queued_as i inp m"
proof -
  let ?n = "hc_tick (w_rest w)"
  obtain res rs d where q: "message_enqueue (ce_fresh e ?n) (ce_clock e ?n) (ce_probe e ?n i) i inp (hc_resolver (w_rest w), w_db w) = (res, rs, d)"
    by (cases "message_enqueue (ce_fresh e ?n) (ce_clock e ?n) (ce_probe e ?n i) i inp (hc_resolver (w_rest w), w_db w)") auto
  have r: "r = res" "world_queue w' = t_messages d"
    using assms q by (auto simp: wired_enqueue_def draw_def world_queue_def)
  show ?thesis
    using enqueue_outcome [OF q] r by (cases res) (auto simp: world_queue_def queued_as_def)
qed

interpretation inb: inbound_queue "wired_deps e" world_queue queued_as for e :: "('h, 's, 'x) chat_env"
proof (unfold_locales, goal_cases)
  case (9 i inp w r w')
  then obtain q where q: "wired_enqueue e i inp w = (q, w')" "r = map_sum (ce_print_message e) id q"
    by (cases "wired_enqueue e i inp w") (auto simp: wired_deps_def printed_def)
  show ?case using wired_enqueue_queue [OF q(1)] q(2) by (cases q) auto
qed (simp_all add: wired_deps_def wired_chat_queue wired_save_queue wired_download_queue on_rest_queue,
     (rule on_cw_queue, simp add: configs_get_def correlations_by_chatwoot_def correlations_latest_def cw_run_queue)+)


definition sample_chat_env :: "(unit, unit, unit) chat_env" where
  "sample_chat_env =
     \<lparr>ce_global = \<lparr>gl_enabled = True, gl_message_delete = True, gl_message_read = False, gl_bot_contact = []\<rparr>,
      ce_crypto = sample_crypto, ce_fresh = (\<lambda>n. 9 + n), ce_clock = (\<lambda>_ _. 0), ce_probe = (\<lambda>_ _. None),
      ce_storage = sample_storage, ce_tmp = (\<lambda>_. ''t''), ce_now = (\<lambda>_. 0), ce_max_bytes = 10,
      ce_net = \<lparr>cx_send = (\<lambda>_ s. (None, s)), cx_parse = (\<lambda>_. None), cx_detect = (\<lambda>_. [])\<rparr>,
      ce_dns = (\<lambda>_ _. sample_env), ce_web = (\<lambda>_ _ _. None),
      ce_session = (\<lambda>_ _. None), ce_delete_message = (\<lambda>_ _ _ x. (Inr (), x)), ce_mark_read = (\<lambda>_ _ _ _ x. (Inr (), x)),
      ce_pair_phone = (\<lambda>_ _ x. (Inl [], x)), ce_connect = (\<lambda>_ x. (Inl [], x)), ce_disconnect = (\<lambda>_ x. (Inr (), x)),
      ce_clear = (\<lambda>_ x. x), ce_print_storage = (\<lambda>_. []), ce_print_message = (\<lambda>_. []), ce_print_media = (\<lambda>_. []),
      ce_print_client = (\<lambda>_. []), ce_print_download = (\<lambda>_. [])\<rparr>"

definition sample_chat_world :: "(unit, unit) chat_world" where
  "sample_chat_world =
     \<lparr>w_db = sample_db, w_keys = new_key_cache,
      w_rest = \<lparr>hc_resolver = new_resolver, hc_files = sample_files, hc_configs = [sample_config\<lparr>cg_instance := 1\<rparr>],
        hc_correlations = [], hc_net = no_traffic, hc_rest = (), hc_tick = 0\<rparr>\<rparr>"

definition sample_reply :: cw_event where
  "sample_reply =
     \<lparr>ep_event = ''message_created'',
      ep_message = Some \<lparr>em_id = 5, em_content = ''ola'', em_type = ''outgoing'', em_private = False, em_source = [],
        em_sender = Some \<lparr>sn_name = ''Ana'', sn_type = ''user''\<rparr>, em_attachments = [], em_reply_to = None,
        em_attributes = [], em_conversation = 0, em_deleted = False\<rparr>,
      ep_conversation = Some \<lparr>ec_id = 0, ec_inbox_source = None, ec_contact = Some \<lparr>cn_phone = ''a@b'', cn_identifier = []\<rparr>\<rparr>\<rparr>"


end
