(* ===== verification/HttpChatwoot.thy ===== *)
theory HttpChatwoot
  imports ChatwootWiring
begin

text \<open>
  The connector's handlers, \<^verbatim>\<open>internal/httpapi/chatwoot.go\<close>, and the limiter of its open webhook,
  \<^verbatim>\<open>chatwoot_ratelimit.go\<close>. Instants are milliseconds.
\<close>

section \<open>The limiter\<close>

record limiter =
  li_limit :: int
  li_window :: int
  li_hits :: "uuid \<rightharpoonup> int \<times> int"

definition new_limiter :: "int \<Rightarrow> int \<Rightarrow> limiter" where
  "new_limiter limit window =
     \<lparr>li_limit = limit, li_window = (if window \<le> 0 then 60000 else window), li_hits = Map.empty\<rparr>"

text \<open>A window of an instance is its count and the instant it ends.\<close>

definition limiter_allow :: "int \<Rightarrow> uuid \<Rightarrow> limiter \<Rightarrow> bool \<times> limiter" where
  "limiter_allow now i l =
     (if li_limit l \<le> 0 then (True, l)
      else case li_hits l i of
        Some (count, reset) \<Rightarrow>
          if \<not> now < reset then (True, l\<lparr>li_hits := (li_hits l)(i \<mapsto> (1, now + li_window l))\<rparr>)
          else if count \<ge> li_limit l then (False, l)
          else (True, l\<lparr>li_hits := (li_hits l)(i \<mapsto> (count + 1, reset))\<rparr>)
      | None \<Rightarrow> (True, l\<lparr>li_hits := (li_hits l)(i \<mapsto> (1, now + li_window l))\<rparr>))"

section \<open>Requests and answers\<close>

record chatwoot_set_request =
  sq_enabled :: bool
  sq_url :: string
  sq_account :: string
  sq_token :: string
  sq_name_inbox :: string
  sq_sign_msg :: bool
  sq_sign_delimiter :: string
  sq_reopen :: bool
  sq_pending :: bool
  sq_merge_brazil :: bool
  sq_import_contacts :: bool
  sq_import_messages :: bool
  sq_days_limit :: int
  sq_auto_create :: bool
  sq_organization :: string
  sq_logo :: string
  sq_ignore_jids :: "string list"

record chatwoot_response =
  wr_instance :: string
  wr_enabled :: bool
  wr_url :: string
  wr_account :: string
  wr_token :: string
  wr_name_inbox :: string
  wr_sign_msg :: bool
  wr_sign_delimiter :: string
  wr_reopen :: bool
  wr_pending :: bool
  wr_merge_brazil :: bool
  wr_import_contacts :: bool
  wr_import_messages :: bool
  wr_days_limit :: int
  wr_auto_create :: bool
  wr_organization :: string
  wr_logo :: string
  wr_ignore_jids :: "string list"
  wr_webhook_url :: string

definition chatwoot_webhook_url :: "crypto \<Rightarrow> string \<Rightarrow> uuid \<Rightarrow> string" where
  "chatwoot_webhook_url cr public_url i =
     (let path = ''/chatwoot/webhook/'' @ cr_show_id cr i; base = trim_suffix (trim_space public_url) ''/''
      in if base = [] then path else base @ path)"

definition new_chatwoot_response :: "crypto \<Rightarrow> chatwoot_config \<Rightarrow> string \<Rightarrow> chatwoot_response" where
  "new_chatwoot_response cr c webhook_url =
     \<lparr>wr_instance = cr_show_id cr (cg_instance c), wr_enabled = cg_enabled c, wr_url = cg_url c, wr_account = cg_account c,
      wr_token = [], wr_name_inbox = cg_name_inbox c, wr_sign_msg = cg_sign_msg c, wr_sign_delimiter = cg_sign_delimiter c,
      wr_reopen = cg_reopen c, wr_pending = cg_pending c, wr_merge_brazil = cg_merge_brazil c,
      wr_import_contacts = cg_import_contacts c, wr_import_messages = cg_import_messages c, wr_days_limit = cg_days_limit c,
      wr_auto_create = cg_auto_create c, wr_organization = cg_organization c, wr_logo = cg_logo c,
      wr_ignore_jids = cg_ignore_jids c, wr_webhook_url = webhook_url\<rparr>"

definition chatwoot_disabled :: "'a resp" where
  "chatwoot_disabled = RErr 400 ''chatwoot_disabled'' ''chatwoot connector is disabled''"

definition not_configured :: "'a resp" where
  "not_configured = RErr 404 ''not_found'' ''chatwoot not configured''"

text \<open>A configuration never written is the zero value of this connection.\<close>

definition zero_config :: "uuid \<Rightarrow> chatwoot_config" where
  "zero_config i =
     \<lparr>cg_instance = i, cg_enabled = False, cg_url = [], cg_account = [], cg_token = [], cg_name_inbox = [], cg_sign_msg = False,
      cg_sign_delimiter = [], cg_reopen = False, cg_pending = False, cg_merge_brazil = False, cg_import_contacts = False,
      cg_import_messages = False, cg_days_limit = 0, cg_auto_create = False, cg_organization = [], cg_logo = [],
      cg_ignore_jids = [], cg_created = 0, cg_updated = 0\<rparr>"

section \<open>Writing and reading the configuration\<close>

datatype 'a set_body = SetBody "'a body" | SetWrongType string

definition requested_config :: "uuid \<Rightarrow> string \<Rightarrow> chatwoot_set_request \<Rightarrow> chatwoot_config" where
  "requested_config i own_name q =
     (let name = trim_space (sq_name_inbox q) in
      \<lparr>cg_instance = i, cg_enabled = sq_enabled q, cg_url = trim_space (sq_url q), cg_account = trim_space (sq_account q),
       cg_token = sq_token q, cg_name_inbox = (if name = [] then default_inbox own_name else name),
       cg_sign_msg = sq_sign_msg q,
       cg_sign_delimiter = (if sq_sign_delimiter q = [] then default_delimiter else sq_sign_delimiter q),
       cg_reopen = sq_reopen q, cg_pending = sq_pending q, cg_merge_brazil = sq_merge_brazil q,
       cg_import_contacts = sq_import_contacts q, cg_import_messages = sq_import_messages q, cg_days_limit = sq_days_limit q,
       cg_auto_create = sq_auto_create q, cg_organization = trim_space (sq_organization q), cg_logo = trim_space (sq_logo q),
       cg_ignore_jids = sq_ignore_jids q, cg_created = 0, cg_updated = 0\<rparr>)"

text \<open>\<^verbatim>\<open>ensureChatwootInbox\<close>: best effort, the inbox of this name is reused.\<close>

definition ensure_chatwoot_inbox :: "'s cw_net \<Rightarrow> chatwoot_config \<Rightarrow> string \<Rightarrow> 's cw_world \<Rightarrow> unit \<times> 's cw_world" where
  "ensure_chatwoot_inbox net cfg webhook_url w =
     (case list_inboxes net (config_client cfg) w of
        (Inl _, w) \<Rightarrow> ((), w)
      | (Inr inboxes, w) \<Rightarrow>
          if list_ex (\<lambda>x. ix_name x = cg_name_inbox cfg) inboxes then ((), w)
          else ((), snd (create_inbox net (config_client cfg) (cg_name_inbox cfg) webhook_url w)))"

definition store_chatwoot ::
    "('h, 's, 'x) chat_env \<Rightarrow> (string \<Rightarrow> chatwoot_url option) \<Rightarrow> string \<Rightarrow> uuid \<Rightarrow> wa_instance
      \<Rightarrow> chatwoot_set_request set_body \<Rightarrow> ('s, 'x) chat_world \<Rightarrow> chatwoot_response resp \<times> ('s, 'x) chat_world" where
  "store_chatwoot e parse public_url i stored body w =
     (case body of
        SetWrongType field \<Rightarrow>
          (RErr 422 ''unprocessable_entity'' (''invalid chatwoot config: '' @ field @ '' has wrong type''), w)
      | SetBody (BodyOk q) \<Rightarrow>
          (let cfg = requested_config i (inst_name stored) q in
           case validate_chatwoot parse cfg of
             Some (field, message) \<Rightarrow>
               (RErr 422 ''unprocessable_entity'' (''invalid chatwoot config: '' @ field @ '' '' @ message), w)
           | None \<Rightarrow>
               (case on_cw (configs_put cfg) w of
                  (Inl _, w) \<Rightarrow> (internal_error, w)
                | (Inr saved, w) \<Rightarrow>
                    (let webhook_url = chatwoot_webhook_url (ce_crypto e) public_url i;
                         w = (if cg_enabled saved \<and> cg_auto_create saved
                              then snd (on_net (ensure_chatwoot_inbox (ce_net e) saved webhook_url) w) else w)
                     in (ROk 200 (new_chatwoot_response (ce_crypto e) saved webhook_url), w))))
      | SetBody b \<Rightarrow> (write_json_body_error b, w))"

definition handle_chatwoot_set ::
    "('h, 's, 'x) chat_env \<Rightarrow> (string \<Rightarrow> chatwoot_url option) \<Rightarrow> string \<Rightarrow> scope option \<Rightarrow> string
      \<Rightarrow> chatwoot_set_request set_body \<Rightarrow> ('s, 'x) chat_world \<Rightarrow> chatwoot_response resp \<times> ('s, 'x) chat_world" where
  "handle_chatwoot_set e parse public_url sc raw_id body w =
     (if \<not> gl_enabled (ce_global e) then (chatwoot_disabled, w)
      else with_instance (ce_crypto e) authorize_instance sc raw_id
        (\<lambda>i stored. store_chatwoot e parse public_url i stored body) w)"

definition config_answer :: "crypto \<Rightarrow> string \<Rightarrow> uuid \<Rightarrow> chatwoot_config result \<Rightarrow> chatwoot_response resp" where
  "config_answer cr public_url i r =
     (let webhook_url = chatwoot_webhook_url cr public_url i in
      case r of
        Inr cfg \<Rightarrow> ROk 200 (new_chatwoot_response cr cfg webhook_url)
      | Inl x \<Rightarrow> if x = SNotFound then ROk 200 (new_chatwoot_response cr (zero_config i) webhook_url) else internal_error)"

definition handle_chatwoot_get ::
    "('h, 's, 'x) chat_env \<Rightarrow> string \<Rightarrow> scope option \<Rightarrow> string \<Rightarrow> ('s, 'x) chat_world
      \<Rightarrow> chatwoot_response resp \<times> ('s, 'x) chat_world" where
  "handle_chatwoot_get e public_url sc raw_id w =
     (if \<not> gl_enabled (ce_global e) then (chatwoot_disabled, w)
      else with_instance (ce_crypto e) authorize_instance sc raw_id (\<lambda>i stored w.
        case on_cw (configs_get i) w of (r, w) \<Rightarrow> (config_answer (ce_crypto e) public_url i r, w)) w)"

section \<open>The open webhook and the guarded routes\<close>

fun chatwoot_webhook_error :: "nat \<Rightarrow> 'a resp" where
  "chatwoot_webhook_error s =
     (if s = 400 then RErr s ''chatwoot_disabled'' ''chatwoot connector is disabled''
      else if s = 404 then RErr s ''not_found'' ''instance not found''
      else if s = 429 then RErr s ''rate_limited'' ''rate limited''
      else if s = 500 then RErr s ''internal_error'' ''internal server error''
      else RErr s ''chatwoot_error'' ''chatwoot webhook failed'')"

text \<open>An answer of the inbound handler: 500 comes with an error.\<close>

definition inbound_answer :: "nat \<Rightarrow> 'a \<Rightarrow> 'a resp" where
  "inbound_answer s x = (if s = 200 then ROk 200 x else chatwoot_webhook_error s)"

definition handle_chatwoot_webhook ::
    "('h, 's, 'x) chat_env \<Rightarrow> int \<Rightarrow> string \<Rightarrow> cw_event body \<Rightarrow> limiter \<Rightarrow> ('s, 'x) chat_world
      \<Rightarrow> unit resp \<times> limiter \<times> ('s, 'x) chat_world" where
  "handle_chatwoot_webhook e now raw_id body l w =
     (case cr_parse_id (ce_crypto e) raw_id of
        None \<Rightarrow> (not_found_instance, l, w)
      | Some i \<Rightarrow>
          (case limiter_allow now i l of
             (False, l) \<Rightarrow> (RErr 429 ''rate_limited'' ''rate limited'', l, w)
           | (True, l) \<Rightarrow>
               (case svc_get i w of
                  (Inl x, w) \<Rightarrow> (write_instance_error x, l, w)
                | (Inr _, w) \<Rightarrow>
                    if \<not> gl_enabled (ce_global e) then (chatwoot_disabled, l, w)
                    else (case body of
                      BodyOk p \<Rightarrow>
                        (case handle_event (wired_deps e) i p w of (s, w) \<Rightarrow> (inbound_answer s (), l, w))
                    | _ \<Rightarrow> (RErr 400 ''invalid_request'' ''invalid request body'', l, w)))))"

definition handle_chatwoot_import ::
    "('h, 's, 'x) chat_env \<Rightarrow> (uuid \<Rightarrow> ('s, 'x) chat_world \<Rightarrow> (storage_err + int) \<times> ('s, 'x) chat_world)
      \<Rightarrow> scope option \<Rightarrow> string \<Rightarrow> ('s, 'x) chat_world \<Rightarrow> int resp \<times> ('s, 'x) chat_world" where
  "handle_chatwoot_import e import_history sc raw_id w =
     (if \<not> gl_enabled (ce_global e) then (chatwoot_disabled, w)
      else with_instance (ce_crypto e) authorize_instance sc raw_id (\<lambda>i stored w.
        case on_cw (configs_get i) w of
          (Inl x, w) \<Rightarrow> (if x = SNotFound then not_configured else internal_error, w)
        | (Inr _, w) \<Rightarrow>
            (case import_history i w of
               (Inl x, w) \<Rightarrow> (if x = SNotFound then not_configured else internal_error, w)
             | (Inr n, w) \<Rightarrow> (ROk 202 n, w))) w)"

definition handle_chatwoot_command ::
    "('h, 's, 'x) chat_env \<Rightarrow> scope option \<Rightarrow> string \<Rightarrow> (string \<times> int) body \<Rightarrow> ('s, 'x) chat_world
      \<Rightarrow> unit resp \<times> ('s, 'x) chat_world" where
  "handle_chatwoot_command e sc raw_id body w =
     (if \<not> gl_enabled (ce_global e) then (chatwoot_disabled, w)
      else with_instance (ce_crypto e) authorize_instance sc raw_id (\<lambda>i stored w.
        case on_cw (configs_get i) w of
          (Inl x, w) \<Rightarrow> (if x = SNotFound then not_configured else internal_error, w)
        | (Inr _, w) \<Rightarrow>
            (case body of
               BodyOk (command, conversation) \<Rightarrow>
                 if trim_space command = [] then (RErr 400 ''invalid_request'' ''invalid request body'', w)
                 else (case handle_command (wired_deps e) i command conversation w of
                         (s, w) \<Rightarrow> (inbound_answer s (), w))
             | b \<Rightarrow> (write_json_body_error b, w))) w)"

section \<open>How many requests the limiter lets through\<close>

fun limiter_run :: "(int \<times> uuid) list \<Rightarrow> limiter \<Rightarrow> limiter" where
  "limiter_run [] l = l"
| "limiter_run ((t, j) # cs) l = limiter_run cs (snd (limiter_allow t j l))"

fun allowed_count :: "uuid \<Rightarrow> (int \<times> uuid) list \<Rightarrow> limiter \<Rightarrow> nat" where
  "allowed_count i [] l = 0"
| "allowed_count i ((t, j) # cs) l =
     (case limiter_allow t j l of (ok, l) \<Rightarrow> (if ok \<and> j = i then 1 else 0) + allowed_count i cs l)"

definition counts_ok :: "limiter \<Rightarrow> bool" where
  "counts_ok l \<longleftrightarrow> (\<forall>i p. li_hits l i = Some p \<longrightarrow> 0 \<le> fst p)"

text \<open>What the current window of an instance still lets through.\<close>

definition room :: "uuid \<Rightarrow> limiter \<Rightarrow> nat" where
  "room i l = (case li_hits l i of None \<Rightarrow> 0 | Some p \<Rightarrow> nat (li_limit l - fst p))"

lemma room_simps: "li_hits l i = None \<Longrightarrow> room i l = 0" "li_hits l i = Some p \<Longrightarrow> room i l = nat (li_limit l - fst p)"
  by (simp_all add: room_def)

lemma allow_keeps:
  assumes "limiter_allow t j l = (ok, l')"
  shows "li_limit l' = li_limit l \<and> li_window l' = li_window l \<and> (counts_ok l \<longrightarrow> counts_ok l')
    \<and> (i \<noteq> j \<longrightarrow> li_hits l' i = li_hits l i)"
proof -
  have step: "counts_ok (m\<lparr>li_hits := (li_hits m)(j \<mapsto> (c, r))\<rparr>)" if "counts_ok m" "0 \<le> c" for m c r
    using that by (auto simp: counts_ok_def)
  have "0 \<le> c" if "counts_ok l" "li_hits l j = Some (c, r)" for c r using that by (fastforce simp: counts_ok_def)
  then show ?thesis
    using assms step by (auto simp: limiter_allow_def split: if_splits option.splits)
qed

lemma run_keeps: "li_limit (limiter_run cs l) = li_limit l \<and> li_window (limiter_run cs l) = li_window l \<and> (counts_ok l \<longrightarrow> counts_ok (limiter_run cs l))"
proof (induction cs l rule: limiter_run.induct)
  case (2 t j cs l)
  obtain ok l1 where "limiter_allow t j l = (ok, l1)" by fastforce
  then show ?case using 2 allow_keeps [of t j l ok l1] by simp
qed simp

lemma allowed_in_window:
  assumes "0 < li_limit l" "li_hits l i = Some (c, r)" "\<forall>(t, j) \<in> set cs. t < r"
  shows "allowed_count i cs l \<le> nat (li_limit l - c)"
  using assms
proof (induction cs arbitrary: l c)
  case (Cons call cs)
  obtain t j where call: "call = (t, j)" by fastforce
  obtain ok l1 where l1: "limiter_allow t j l = (ok, l1)" by fastforce
  show ?case
  proof (cases "j = i")
    case False
    then have "li_hits l1 i = Some (c, r)" "li_limit l1 = li_limit l" using allow_keeps [OF l1, of i] Cons.prems by auto
    then show ?thesis using Cons.IH [of l1 c] Cons.prems call l1 False by auto
  next
    case True
    have t: "t < r" using Cons.prems(3) call by simp
    show ?thesis
    proof (cases "c \<ge> li_limit l")
      case True
      then have "ok = False" "l1 = l" using l1 t \<open>j = i\<close> Cons.prems by (auto simp: limiter_allow_def)
      then show ?thesis using Cons.IH [of l c] Cons.prems call l1 by simp
    next
      case False
      then have "ok = True" "li_hits l1 i = Some (c + 1, r)" "li_limit l1 = li_limit l"
        using l1 t \<open>j = i\<close> Cons.prems by (auto simp: limiter_allow_def)
      then show ?thesis using Cons.IH [of l1 "c + 1"] Cons.prems call l1 \<open>j = i\<close> False by simp
    qed
  qed
qed simp

lemma allowed_in_span:
  assumes "0 < li_limit l" "counts_ok l" "sorted (map fst cs)" "fst ` set cs \<subseteq> {a..<a + li_window l}"
  shows "allowed_count i cs l \<le> room i l + nat (li_limit l)"
  using assms
proof (induction cs arbitrary: l)
  case (Cons call cs)
  obtain t j where call: "call = (t, j)" by fastforce
  obtain ok l1 where l1: "limiter_allow t j l = (ok, l1)" by fastforce
  note keeps = allow_keeps [OF l1, of i]
  have IH: "allowed_count i cs l1 \<le> room i l1 + nat (li_limit l1)"
    using Cons.prems keeps call by (intro Cons.IH) auto
  show ?case
  proof (cases "j = i")
    case False
    then have "room i l1 = room i l" using keeps by (simp add: room_def split: option.splits)
    then show ?thesis using IH keeps call l1 False by simp
  next
    case True
    show ?thesis
    proof (cases "\<exists>c r. li_hits l i = Some (c, r) \<and> t < r")
      case inside: True
      then obtain c r where c: "li_hits l i = Some (c, r)" "t < r" by blast
      show ?thesis
      proof (cases "c \<ge> li_limit l")
        case True
        then have "ok = False" "l1 = l" using l1 c \<open>j = i\<close> Cons.prems by (auto simp: limiter_allow_def)
        then show ?thesis using IH call l1 by simp
      next
        case False
        then have "ok = True" "li_hits l1 i = Some (c + 1, r)" "li_limit l1 = li_limit l"
          using l1 c \<open>j = i\<close> Cons.prems by (auto simp: limiter_allow_def)
        then show ?thesis using IH call l1 c \<open>j = i\<close> False by (simp add: room_simps)
      qed
    next
      case False
      then have new: "ok = True" "li_hits l1 i = Some (1, t + li_window l)" "li_limit l1 = li_limit l"
        using l1 \<open>j = i\<close> Cons.prems by (auto simp: limiter_allow_def split: option.splits if_splits)
      have "\<forall>(u, k) \<in> set cs. u < t + li_window l" using Cons.prems(4) call by fastforce
      then have "allowed_count i cs l1 \<le> nat (li_limit l - 1)"
        using allowed_in_window [of l1 i 1 "t + li_window l" cs] new Cons.prems by auto
      then show ?thesis using new call l1 \<open>j = i\<close> Cons.prems by simp
    qed
  qed
qed simp



text \<open>
  The limiter is asked before the connection is known to exist and never forgets: every new identifier is let
  through and stays in its table.
\<close>

lemma unknown_instances_fill_the_limiter:
  assumes "0 < limit" "distinct ids"
  shows "dom (li_hits (limiter_run (map (Pair t) ids) (new_limiter limit window))) = set ids"
proof -
  have "dom (li_hits (limiter_run (map (Pair t) ids) l)) = dom (li_hits l) \<union> set ids"
    if "0 < li_limit l" for l
    using that
  proof (induction ids arbitrary: l)
    case (Cons j ids)
    obtain ok l1 where l1: "limiter_allow t j l = (ok, l1)" by fastforce
    then have "dom (li_hits l1) = insert j (dom (li_hits l))" "li_limit l1 = li_limit l"
      using Cons.prems by (auto simp: limiter_allow_def dom_def split: if_splits option.splits)
    then show ?case using Cons.IH [of l1] Cons.prems l1 by auto
  qed simp
  from this [of "new_limiter limit window"] show ?thesis using assms by (simp add: new_limiter_def)
qed

section \<open>Configurations\<close>

text \<open>A world in which every stored token is another one.\<close>

definition with_tokens :: "(chatwoot_config \<Rightarrow> string) \<Rightarrow> ('s, 'x) chat_world \<Rightarrow> ('s, 'x) chat_world" where
  "with_tokens f w = w\<lparr>w_rest := (w_rest w)\<lparr>hc_configs := map (\<lambda>c. c\<lparr>cg_token := f c\<rparr>) (hc_configs (w_rest w))\<rparr>\<rparr>"

lemma find_tokens:
  "find (\<lambda>c. cg_instance c = i) (map (\<lambda>c. c\<lparr>cg_token := f c\<rparr>) cs)
     = map_option (\<lambda>c. c\<lparr>cg_token := f c\<rparr>) (find (\<lambda>c. cg_instance c = i) cs)"
  by (induction cs) auto

lemma configs_get_tokens:
  "fst (on_cw (configs_get i) (with_tokens f w)) = map_sum id (\<lambda>c. c\<lparr>cg_token := f c\<rparr>) (fst (on_cw (configs_get i) w))"
  by (simp add: on_cw_def with_tokens_def configs_get_def cw_run_def Let_def find_tokens pg_stmt_def split: list.splits option.splits)

lemma response_hides_token: "new_chatwoot_response cr (c\<lparr>cg_token := x\<rparr>) u = new_chatwoot_response cr c u"
  by (simp add: new_chatwoot_response_def)

text \<open>
  No answer of a read tells anything of a stored token: with other tokens stored, the answer to every caller is the same.
\<close>

theorem reads_reveal_no_token:
  "fst (handle_chatwoot_get e public_url sc raw_id (with_tokens f w)) = fst (handle_chatwoot_get e public_url sc raw_id w)"
proof -
  have svc: "svc_get i (with_tokens f w) = (fst (svc_get i w), with_tokens f (snd (svc_get i w)))" for i
    by (auto simp: svc_get_def on_db_def with_tokens_def split: prod.splits sum.splits)
  have answer: "config_answer cr public_url i (fst (on_cw (configs_get i) (with_tokens f w1)))
      = config_answer cr public_url i (fst (on_cw (configs_get i) w1))" for i w1 cr
    unfolding configs_get_tokens
    by (cases "fst (on_cw (configs_get i) w1)") (simp_all add: config_answer_def response_hides_token)
  show ?thesis
    by (auto simp: handle_chatwoot_get_def with_instance_def path_instance_def svc answer split_beta
        split: option.splits sum.splits)
qed

lemma put_stores:
  assumes "on_cw (configs_put cfg) w = (r, w')"
  shows "case r of Inl _ \<Rightarrow> hc_configs (w_rest w') = hc_configs (w_rest w)
    | Inr saved \<Rightarrow> saved \<in> set (hc_configs (w_rest w')) \<and> saved = cfg\<lparr>cg_created := cg_created saved, cg_updated := cg_updated saved\<rparr>"
proof -
  have kept: "row \<in> set (map (\<lambda>r. if cg_instance r = i then row else r) rows)" if "find (\<lambda>r. cg_instance r = i) rows = Some old" for row rows i old
    using that by (induction rows) (auto split: if_splits)
  obtain fine b where s: "pg_stmt (w_db w) = (fine, b)" by fastforce
  show ?thesis
  proof (cases "find (\<lambda>r. cg_instance r = cg_instance cfg) (hc_configs (w_rest w))")
    case None
    then show ?thesis
      using assms s by (auto simp: on_cw_def configs_put_def cw_run_def Let_def split: if_splits)
  next
    case (Some old)
    then show ?thesis
      using assms s kept [OF Some, of "cfg\<lparr>cg_created := cg_created old, cg_updated := pg_now b\<rparr>"]
      by (auto simp: on_cw_def configs_put_def cw_run_def Let_def simp del: set_map list.set_map split: if_splits)
  qed
qed

lemma svc_get_rest: "svc_get i w = (r, w') \<Longrightarrow> w_rest w' = w_rest w"
  by (auto simp: svc_get_def on_db_def split: prod.splits sum.splits)

lemma validate_ignores_times: "validate_chatwoot parse (cfg\<lparr>cg_created := a, cg_updated := b\<rparr>) = validate_chatwoot parse cfg"
  by (simp add: validate_chatwoot_def)

lemma on_net_configs: "hc_configs (w_rest (snd (on_net op w))) = hc_configs (w_rest w)"
  by (simp add: on_net_def split: prod.splits)

lemma store_chatwoot_outcome:
  assumes "store_chatwoot e parse public_url i stored body w = (resp, w')"
  shows "case resp of
      ROk c r \<Rightarrow> c = 200 \<and> (\<exists>cfg. cfg \<in> set (hc_configs (w_rest w')) \<and> cg_instance cfg = i \<and> validate_chatwoot parse cfg = None)
    | _ \<Rightarrow> hc_configs (w_rest w') = hc_configs (w_rest w)"
proof (cases "\<exists>q. body = SetBody (BodyOk q) \<and> validate_chatwoot parse (requested_config i (inst_name stored) q) = None")
  case False
  then have "w' = w \<and> (\<forall>c r. resp \<noteq> ROk c r)"
    using assms by (auto simp: store_chatwoot_def Let_def split: set_body.splits body.splits option.splits)
  then show ?thesis by (cases resp) auto
next
  case True
  then obtain q where q: "body = SetBody (BodyOk q)" "validate_chatwoot parse (requested_config i (inst_name stored) q) = None" by blast
  let ?cfg = "requested_config i (inst_name stored) q"
  obtain r w1 where put: "on_cw (configs_put ?cfg) w = (r, w1)" by fastforce
  show ?thesis
  proof (cases r)
    case (Inl x)
    then show ?thesis using assms q put put_stores [OF put] by (auto simp: store_chatwoot_def internal_error_def)
  next
    case (Inr saved)
    then have s: "saved \<in> set (hc_configs (w_rest w1))" "saved = ?cfg\<lparr>cg_created := cg_created saved, cg_updated := cg_updated saved\<rparr>"
      using put_stores [OF put] by auto
    have "cg_instance saved = i" by (subst s(2)) (simp add: requested_config_def Let_def)
    moreover have "validate_chatwoot parse saved = None" by (subst s(2)) (simp only: validate_ignores_times q(2))
    ultimately show ?thesis
      using assms q put Inr s(1) by (auto simp: on_net_configs store_chatwoot_def Let_def split: if_splits)
  qed
qed

text \<open>
  C19: a write that is not answered 200 leaves every configuration as it was, and one answered 200 was made by a caller
  allowed to the connection and leaves there a configuration that validates.
\<close>

theorem refused_writes_store_nothing:
  assumes "handle_chatwoot_set e parse public_url sc raw_id body w = (resp, w')"
  shows "case resp of
      ROk c r \<Rightarrow> c = 200 \<and> (\<exists>i stored cfg. cr_parse_id (ce_crypto e) raw_id = Some i \<and> \<not> deny_foreign_instance_key sc i
          \<and> fst (svc_get i w) = Inr stored \<and> authorize_instance sc stored
          \<and> cfg \<in> set (hc_configs (w_rest w')) \<and> cg_instance cfg = i \<and> validate_chatwoot parse cfg = None)
    | _ \<Rightarrow> hc_configs (w_rest w') = hc_configs (w_rest w)"
proof (cases "gl_enabled (ce_global e)")
  case False
  then show ?thesis using assms by (auto simp: handle_chatwoot_set_def chatwoot_disabled_def)
next
  case on: True
  show ?thesis
  proof (cases "\<exists>i stored w1. cr_parse_id (ce_crypto e) raw_id = Some i \<and> \<not> deny_foreign_instance_key sc i
      \<and> svc_get i w = (Inr stored, w1) \<and> authorize_instance sc stored")
    case False
    then have "(\<forall>c r. resp \<noteq> ROk c r) \<and> w_rest w' = w_rest w"
      using assms on
      by (auto simp: handle_chatwoot_set_def with_instance_def path_instance_def not_found_instance_def write_forbidden_def
          dest: svc_get_rest split: option.splits if_splits prod.splits sum.splits)
    then show ?thesis by (cases resp) auto
  next
    case True
    then obtain i stored w1 where i: "cr_parse_id (ce_crypto e) raw_id = Some i" "\<not> deny_foreign_instance_key sc i"
      "svc_get i w = (Inr stored, w1)" "authorize_instance sc stored" by blast
    have "store_chatwoot e parse public_url i stored body w1 = (resp, w')"
      using assms on i by (simp add: handle_chatwoot_set_def with_instance_def path_instance_def)
    from store_chatwoot_outcome [OF this] show ?thesis
      using i svc_get_rest [OF i(3)] by (cases resp) auto
  qed
qed

definition sample_set :: chatwoot_set_request where
  "sample_set =
     \<lparr>sq_enabled = True, sq_url = ''https://cw.example'', sq_account = ''1'', sq_token = ''secret'', sq_name_inbox = [],
      sq_sign_msg = True, sq_sign_delimiter = [], sq_reopen = True, sq_pending = False, sq_merge_brazil = False,
      sq_import_contacts = False, sq_import_messages = False, sq_days_limit = 3, sq_auto_create = False,
      sq_organization = [], sq_logo = [], sq_ignore_jids = []\<rparr>"

definition sample_url_parse :: "string \<Rightarrow> chatwoot_url option" where
  "sample_url_parse s = Some \<lparr>cu_scheme = ''https'', cu_host = ''cw.example''\<rparr>"

theorem refused_writes_store_nothing_witness:
  "\<exists>r w'. handle_chatwoot_set sample_chat_env sample_url_parse [] (Some global_scope) ''one'' (SetBody (BodyOk sample_set)) sample_chat_world
       = (ROk 200 r, w') \<and> cg_instance ` set (hc_configs (w_rest w')) \<inter> {1} \<noteq> {}"
proof -
  obtain resp w' where h: "handle_chatwoot_set sample_chat_env sample_url_parse [] (Some global_scope) ''one''
      (SetBody (BodyOk sample_set)) sample_chat_world = (resp, w')" by fastforce
  have v: "trim_space ''https://cw.example'' \<noteq> []" "trim_space (trim_space ''https://cw.example'') \<noteq> []" "to_lower ''https'' = ''https''"
    "trim_space (trim_space ''1'') \<noteq> []" "trim_space ''secret'' \<noteq> []" by code_simp+
  have "\<exists>r. resp = ROk 200 r"
    using h v global_scope_may
    by (auto simp: handle_chatwoot_set_def with_instance_def path_instance_def sample_chat_env_def sample_crypto_def svc_get_def
        on_db_def sample_chat_world_def instances_get_def sample_defs scan_instance_def store_chatwoot_def validate_chatwoot_def
        requested_config_def sample_set_def sample_url_parse_def on_cw_def configs_put_def cw_run_def pg_stmt_def sample_config_def
        int32_def Let_def split: prod.splits)
  then obtain r where r: "resp = ROk 200 r" by blast
  have "cr_parse_id (ce_crypto sample_chat_env) ''one'' = Some 1" by (simp add: sample_chat_env_def sample_crypto_def)
  then show ?thesis using refused_writes_store_nothing [OF h] h r by (auto intro: rev_image_eqI)
qed

end
