(* ===== verification/MirrorText.thy ===== *)
theory MirrorText
  imports ChatwootMapper Json
begin

text \<open>
  The display text of structured WhatsApp content, \<^verbatim>\<open>structuredText\<close> and its helpers of
  \<^verbatim>\<open>internal/chatwoot/mirror/worker.go\<close>: the upstream event is decoded into untyped values and every known shape
  is probed in a fixed order. \<open>tx_parse\<close> is the JSON parser, \<open>tx_float\<close> the text \<^verbatim>\<open>strconv.FormatFloat\<close>
  gives to the \<^verbatim>\<open>float64\<close> of a number literal, None when the literal does not fit one.
\<close>

record text_lib =
  tx_parse :: "string \<Rightarrow> json option"
  tx_float :: "string \<Rightarrow> string option"

type_synonym members = "(string \<times> json) list"

section \<open>Untyped values\<close>

text \<open>Decoding into \<^verbatim>\<open>any\<close> fails when a number does not fit \<^verbatim>\<open>float64\<close>.\<close>

fun numbers_fit :: "text_lib \<Rightarrow> json \<Rightarrow> bool" where
  "numbers_fit tx (JNum s) = (tx_float tx s \<noteq> None)"
| "numbers_fit tx (JArr js) = list_all (numbers_fit tx) js"
| "numbers_fit tx (JObj ms) = list_all (\<lambda>(_, j). numbers_fit tx j) ms"
| "numbers_fit tx _ = True"

definition text_at :: "string \<Rightarrow> members \<Rightarrow> string" where
  "text_at k m = (case json_field k m of Some (JStr s) \<Rightarrow> s | _ \<Rightarrow> [])"

definition map_at :: "string \<Rightarrow> members \<Rightarrow> members option" where
  "map_at k m = (case json_field k m of Some (JObj n) \<Rightarrow> Some n | _ \<Rightarrow> None)"

text \<open>A nil map reads as the empty one.\<close>

definition child_map :: "string \<Rightarrow> members \<Rightarrow> members" where
  "child_map k m = (case map_at k m of Some n \<Rightarrow> n | None \<Rightarrow> [])"

definition child_list :: "string \<Rightarrow> members \<Rightarrow> json list" where
  "child_list k m = (case json_field k m of Some (JArr js) \<Rightarrow> js | _ \<Rightarrow> [])"

text \<open>The objects of an array; other elements are passed over.\<close>

definition child_maps :: "string \<Rightarrow> members \<Rightarrow> members list" where
  "child_maps k m = concat (map (\<lambda>j. case j of JObj n \<Rightarrow> [n] | _ \<Rightarrow> []) (child_list k m))"

definition is_upper :: "char \<Rightarrow> bool" where
  "is_upper c \<longleftrightarrow> CHR ''A'' \<le> c \<and> c \<le> CHR ''Z''"

definition to_snake :: "string \<Rightarrow> string" where
  "to_snake s = concat (map (\<lambda>(i, c).
     if is_upper c then (if 0 < i then ''_'' else []) @ to_lower [c] else [c]) (enumerate 0 s))"

text \<open>The value of a field under its name or its snake_case form.\<close>

definition string_field :: "string \<Rightarrow> string \<Rightarrow> members \<Rightarrow> string" where
  "string_field outer inner m =
     (case map_at outer m of None \<Rightarrow> []
      | Some n \<Rightarrow> (case json_field inner n of Some (JStr s) \<Rightarrow> s | _ \<Rightarrow> text_at (to_snake inner) n))"

definition number_field :: "text_lib \<Rightarrow> string \<Rightarrow> string \<Rightarrow> members \<Rightarrow> string option" where
  "number_field tx outer inner m =
     (case map_at outer m of None \<Rightarrow> None
      | Some n \<Rightarrow> (case json_field inner n of Some (JNum s) \<Rightarrow> tx_float tx s
          | _ \<Rightarrow> (case json_field (to_snake inner) n of Some (JNum s) \<Rightarrow> tx_float tx s | _ \<Rightarrow> None)))"

section \<open>Base64 and vCards\<close>

definition base64_digit :: "char \<Rightarrow> nat option" where
  "base64_digit c =
     (let n = of_char c :: nat in
      if is_upper c then Some (n - 65)
      else if CHR ''a'' \<le> c \<and> c \<le> CHR ''z'' then Some (n - 71)
      else if is_digit c then Some (n + 4)
      else if c = CHR ''+'' then Some 62
      else if c = CHR ''/'' then Some 63
      else None)"

definition bytes_of :: "nat \<Rightarrow> string" where
  "bytes_of n = [char_of (n div 65536), char_of (n div 256), char_of n]"

text \<open>\<^verbatim>\<open>StdEncoding\<close> without line breaks: padding only at the end, its spare bits ignored.\<close>

fun base64_quads :: "string \<Rightarrow> string option" where
  "base64_quads [] = Some []"
| "base64_quads (a # b # c # d # r) =
     (case (base64_digit a, base64_digit b, base64_digit c, base64_digit d) of
        (Some x, Some y, Some z, Some u) \<Rightarrow>
          map_option ((@) (bytes_of (((x * 64 + y) * 64 + z) * 64 + u))) (base64_quads r)
      | (Some x, Some y, Some z, None) \<Rightarrow>
          if d = CHR ''='' \<and> r = [] then Some (take 2 (bytes_of (((x * 64 + y) * 64 + z) * 64))) else None
      | (Some x, Some y, None, None) \<Rightarrow>
          if c = CHR ''='' \<and> d = CHR ''='' \<and> r = [] then Some (take 1 (bytes_of ((x * 64 + y) * 4096))) else None
      | _ \<Rightarrow> None)"
| "base64_quads _ = None"

definition base64_decode :: "string \<Rightarrow> string option" where
  "base64_decode s = base64_quads (filter (\<lambda>c. c \<noteq> CHR 0x0D \<and> c \<noteq> newline) s)"

text \<open>The bytes of a thumbnail; empty for a nil slice.\<close>

definition decode_thumb :: "json option \<Rightarrow> string" where
  "decode_thumb v =
     (case v of Some (JStr s) \<Rightarrow> if s = [] then [] else (case base64_decode s of None \<Rightarrow> [] | Some d \<Rightarrow> d) | _ \<Rightarrow> [])"

fun split_char :: "char \<Rightarrow> string \<Rightarrow> string list" where
  "split_char c [] = [[]]"
| "split_char c (x # xs) =
     (if x = c then [] # split_char c xs
      else case split_char c xs of [] \<Rightarrow> [[x]] | l # ls \<Rightarrow> (x # l) # ls)"

definition vcard_phones :: "string \<Rightarrow> string list" where
  "vcard_phones vcard = concat (map (\<lambda>line.
     case cut_at CHR '':'' (trim_space line) of
       None \<Rightarrow> []
     | Some (name, v) \<Rightarrow>
         if starts ''tel'' (to_lower name) \<and> trim_space v \<noteq> [] then [trim_space v] else [])
     (split_char newline vcard))"

section \<open>The shapes\<close>

definition location_text :: "text_lib \<Rightarrow> members \<Rightarrow> string" where
  "location_text tx m =
     (case (number_field tx ''locationMessage'' ''degreesLatitude'' m,
            number_field tx ''locationMessage'' ''degreesLongitude'' m) of
        (Some lat, Some lng) \<Rightarrow>
          mapper_location lat lng (string_field ''locationMessage'' ''name'' m) (string_field ''locationMessage'' ''address'' m)
      | _ \<Rightarrow> [])"

fun join_with :: "string \<Rightarrow> string list \<Rightarrow> string" where
  "join_with sep [] = []"
| "join_with sep [s] = s"
| "join_with sep (s # ss) = s @ sep @ join_with sep ss"

definition contact_text :: "members \<Rightarrow> string" where
  "contact_text m =
     (if json_field ''contactMessage'' m \<noteq> None
      then mapper_contact (string_field ''contactMessage'' ''displayName'' m)
             (vcard_phones (string_field ''contactMessage'' ''vcard'' m))
      else (case map_at ''contactsArrayMessage'' m of
        None \<Rightarrow> []
      | Some a \<Rightarrow>
          join_with [newline, newline] (filter (\<lambda>s. s \<noteq> [])
            (map (\<lambda>c. mapper_contact (text_at ''displayName'' c) (vcard_phones (text_at ''vcard'' c)))
               (child_maps ''contacts'' a)))))"

definition list_rows :: "members \<Rightarrow> list_row list" where
  "list_rows section =
     filter (\<lambda>r. lr_title r \<noteq> [] \<or> lr_description r \<noteq> [])
       (map (\<lambda>row. \<lparr>lr_title = text_at ''title'' row, lr_description = text_at ''description'' row\<rparr>)
          (child_maps ''rows'' section))"

definition list_text :: "members \<Rightarrow> string" where
  "list_text m =
     (case map_at ''listMessage'' m of
        Some l \<Rightarrow>
          mapper_list (text_at ''title'' l) (text_at ''description'' l) (text_at ''buttonText'' l) (text_at ''footerText'' l)
            (map (\<lambda>s. \<lparr>ls_title = text_at ''title'' s, ls_rows = list_rows s\<rparr>) (child_maps ''sections'' l))
      | None \<Rightarrow>
          (case map_at ''listResponseMessage'' m of
             None \<Rightarrow> []
           | Some r \<Rightarrow>
               (let selected = text_at ''selectedRowId'' (child_map ''singleSelectReply'' r);
                    title = (if text_at ''title'' r = [] then text_at ''description'' r else text_at ''title'' r)
                in if title \<noteq> [] \<or> selected \<noteq> [] then list_response title selected else [])))"

definition reaction_text :: "members \<Rightarrow> string" where
  "reaction_text m =
     (case map_at ''reactionMessage'' m of
        None \<Rightarrow> []
      | Some r \<Rightarrow>
          (let emoji = text_at ''text'' r; key = text_at ''id'' (child_map ''key'' r) in
           if emoji = [] \<and> key = [] then [] else mapper_reaction emoji key))"

text \<open>The first label that is not blank, under the known names.\<close>

definition native_flow_label :: "text_lib \<Rightarrow> string \<Rightarrow> string" where
  "native_flow_label tx params =
     (if trim_space params = [] then []
      else case tx_parse tx params of
        Some (JObj m) \<Rightarrow>
          if \<not> numbers_fit tx (JObj m) then []
          else (case filter (\<lambda>s. s \<noteq> []) (map (\<lambda>k. trim_space (text_at k m))
              [''display_text'', ''displayText'', ''title'', ''text'']) of [] \<Rightarrow> [] | s # _ \<Rightarrow> s)
      | _ \<Rightarrow> [])"

definition native_flow_buttons :: "text_lib \<Rightarrow> members \<Rightarrow> string list" where
  "native_flow_buttons tx flow =
     filter (\<lambda>s. s \<noteq> []) (map (\<lambda>b.
       let label = native_flow_label tx (text_at ''buttonParamsJson'' b)
       in if label = [] then text_at ''name'' b else label) (child_maps ''buttons'' flow))"

definition button_label :: "members \<Rightarrow> string" where
  "button_label b =
     (let label = text_at ''displayText'' (child_map ''buttonText'' b)
      in if label = [] then text_at ''buttonId'' b else label)"

definition interactive_text :: "text_lib \<Rightarrow> members \<Rightarrow> string" where
  "interactive_text tx m =
     (case map_at ''interactiveMessage'' m of
        Some i \<Rightarrow>
          (let header = child_map ''header'' i;
               head_text = (if text_at ''text'' header = [] then text_at ''title'' header else text_at ''text'' header);
               buttons = (case map_at ''nativeFlowMessage'' i of None \<Rightarrow> [] | Some flow \<Rightarrow> native_flow_buttons tx flow)
           in mapper_interactive head_text (text_at ''text'' (child_map ''body'' i)) (text_at ''text'' (child_map ''footer'' i)) buttons)
      | None \<Rightarrow>
      case map_at ''buttonsMessage'' m of
        Some b \<Rightarrow>
          mapper_interactive [] (text_at ''contentText'' b) (text_at ''footerText'' b) (map button_label (child_maps ''buttons'' b))
      | None \<Rightarrow>
          (let selected = (case map_at ''buttonsResponseMessage'' m of None \<Rightarrow> [] | Some r \<Rightarrow> text_at ''selectedButtonId'' r)
           in if selected \<noteq> [] then list_response [] selected
              else (case map_at ''interactiveResponseMessage'' m of
                      None \<Rightarrow> [] | Some r \<Rightarrow> text_at ''text'' (child_map ''body'' r))))"

definition order_text :: "members \<Rightarrow> string" where
  "order_text m =
     (case map_at ''orderMessage'' m of
        None \<Rightarrow> []
      | Some r \<Rightarrow>
          if text_at ''orderId'' r = [] \<and> text_at ''orderTitle'' r = [] then []
          else mapper_order (text_at ''orderId'' r) (text_at ''orderTitle'' r))"

definition product_text :: "members \<Rightarrow> string" where
  "product_text m =
     (case map_at ''productMessage'' m of
        None \<Rightarrow> []
      | Some p \<Rightarrow>
          (let snapshot = child_map ''product'' p;
               title = text_at ''title'' snapshot; description = text_at ''description'' snapshot
           in mapper_product (if title = [] then text_at ''body'' p else title)
                (if description = [] then text_at ''footer'' p else description)))"

definition ad_text :: "members \<Rightarrow> string \<times> string" where
  "ad_text m =
     (case map_at ''extendedTextMessage'' m of
        None \<Rightarrow> ([], [])
      | Some x \<Rightarrow>
          (case map_at ''externalAdReply'' (child_map ''contextInfo'' x) of
             None \<Rightarrow> ([], [])
           | Some reply \<Rightarrow>
               (let thumb = decode_thumb (json_field ''thumbnail'' reply) in
                (mapper_ad (text_at ''title'' reply) (text_at ''body'' reply) (text_at ''sourceUrl'' reply),
                 if thumb = [] then decode_thumb (json_field ''JPEGThumbnail'' x) else thumb))))"

section \<open>The first shape that has a text\<close>

definition shape_texts :: "text_lib \<Rightarrow> members \<Rightarrow> string list" where
  "shape_texts tx m =
     [location_text tx m, contact_text m, list_text m, reaction_text m, interactive_text tx m, order_text m, product_text m]"

text \<open>The text and the thumbnail; a document that does not decode, or has no message, has neither.\<close>

definition structured_text :: "text_lib \<Rightarrow> string \<Rightarrow> string \<times> string" where
  "structured_text tx raw =
     (case tx_parse tx raw of
        Some (JObj env) \<Rightarrow>
          (case json_field ''Message'' env of
             Some (JObj m) \<Rightarrow>
               if \<not> numbers_fit tx (JObj m) then ([], [])
               else (case filter (\<lambda>s. s \<noteq> []) (shape_texts tx m) of
                       s # _ \<Rightarrow> (s, []) | [] \<Rightarrow> ad_text m)
           | _ \<Rightarrow> ([], []))
      | _ \<Rightarrow> ([], []))"

end
