(* ===== verification/Mirror.thy ===== *)
theory Mirror
  imports MirrorText ChatwootWiring ChatwootConversations Runtime "HOL-Library.AList"
begin

text \<open>
  The mirror of WhatsApp events into Chatwoot, \<^verbatim>\<open>internal/chatwoot/mirror/worker.go\<close> and \<^verbatim>\<open>qrcode.go\<close>: the
  worker's own state, the stack of a connection, the handler of each event and the routing of a broker message. The
  worker is the first part of \<open>hc_rest\<close>; the broker hands it one message after the other. The factories
  are those \<^verbatim>\<open>cmd/wzap/main.go\<close> passes.
\<close>

section \<open>State\<close>

record chat_stack =
  rk_config :: chatwoot_config
  rk_client :: cw_client
  rk_contacts :: contact_resolver
  rk_convs :: conv_resolver
  rk_cache :: conv_cache
  rk_inbox :: int

text \<open>\<open>wk_fired\<close> records the auto-imports that were started, which run on their own.\<close>

record mirror_worker =
  wk_stacks :: "uuid \<rightharpoonup> chat_stack"
  wk_seen :: "(uuid \<times> instant) list"
  wk_notices :: "uuid \<rightharpoonup> string \<times> instant"
  wk_imported :: "uuid list"
  wk_fired :: "uuid list"

definition new_mirror :: mirror_worker where
  "new_mirror = \<lparr>wk_stacks = Map.empty, wk_seen = [], wk_notices = Map.empty, wk_imported = [], wk_fired = []\<rparr>"

type_synonym ('s, 'y) mirror_world = "('s, mirror_worker \<times> 'y) chat_world"

text \<open>
  \<open>me_free\<close> says whether a sender's lock is obtained, \<open>me_qr\<close> is the session manager's code of a pairing, None
  when there is no provider or it fails, and \<open>me_qrcode\<close> the QR encoder. \<open>me_uuid\<close> and \<open>me_stamp\<close>
  parse the text of ids and instants.
\<close>

record ('s, 'y) mirror_env =
  me_global :: chatwoot_global
  me_net :: "'s cw_net"
  me_print_json :: "json \<Rightarrow> string"
  me_storage :: storage_config
  me_text :: text_lib
  me_clock :: "nat \<Rightarrow> nat \<Rightarrow> instant"
  me_free :: "nat \<Rightarrow> string \<Rightarrow> bool"
  me_fresh :: "nat \<Rightarrow> string"
  me_qr :: "uuid \<Rightarrow> 'y \<Rightarrow> string option"
  me_qrcode :: "string \<Rightarrow> string option"
  me_auto_import :: bool
  me_codec :: codec
  me_uuid :: "string \<Rightarrow> uuid option"
  me_stamp :: "string \<Rightarrow> instant option"

datatype mirror_err = MirrorStorage storage_err | MirrorClient client_err | MirrorConversation conv_err

type_synonym ('s, 'y) mirror_step = "('s, 'y) mirror_world \<Rightarrow> (mirror_err + unit) \<times> ('s, 'y) mirror_world"

definition the_worker :: "('s, 'y) mirror_world \<Rightarrow> mirror_worker" where
  "the_worker w = fst (hc_rest (w_rest w))"

definition on_worker :: "(mirror_worker \<Rightarrow> mirror_worker) \<Rightarrow> ('s, 'y) mirror_world \<Rightarrow> ('s, 'y) mirror_world" where
  "on_worker f w = w\<lparr>w_rest := (w_rest w)\<lparr>hc_rest := apfst f (hc_rest (w_rest w))\<rparr>\<rparr>"

section \<open>Payloads\<close>

record media_ref =
  rf_media :: uuid
  rf_mime :: string
  rf_name :: string
  rf_size :: int

record mirrored_message =
  mp_from :: string
  mp_chat :: string
  mp_group :: bool
  mp_id :: string
  mp_type :: string
  mp_text :: string
  mp_media :: "media_ref option"
  mp_omitted :: "string option"
  mp_raw :: string

record mirrored_change =
  cp_from :: string
  cp_chat :: string
  cp_group :: bool
  cp_id :: string
  cp_text :: string

record mirrored_read =
  rp_status :: string
  rp_chat :: string

text \<open>The image and the code of a pairing travel out of band.\<close>

record connection_notice =
  nt_status :: string
  nt_jid :: string
  nt_reason :: string
  nt_image :: string
  nt_code :: string

definition read_stamp :: "('s, 'y) mirror_env \<Rightarrow> json \<Rightarrow> instant option" where
  "read_stamp e j = (case j of JStr s \<Rightarrow> me_stamp e s | _ \<Rightarrow> None)"

definition read_uuid :: "('s, 'y) mirror_env \<Rightarrow> json \<Rightarrow> uuid option" where
  "read_uuid e j = (case j of JStr s \<Rightarrow> me_uuid e s | _ \<Rightarrow> None)"

definition read_media_ref :: "('s, 'y) mirror_env \<Rightarrow> members \<Rightarrow> media_ref option" where
  "read_media_ref e m =
     (case (read_field (read_uuid e) 0 ''media_id'' m, read_field read_string [] ''mimetype'' m,
            read_field read_string [] ''filename'' m, read_field read_int64 0 ''size'' m,
            read_field read_string [] ''url'' m, read_field (read_stamp e) zero_time ''expires_at'' m) of
        (Some i, Some t, Some f, Some s, Some _, Some _) \<Rightarrow>
          Some \<lparr>rf_media = i, rf_mime = t, rf_name = f, rf_size = s\<rparr>
      | _ \<Rightarrow> None)"

text \<open>A pointer field: null and a missing key are nil.\<close>

definition read_pointer :: "(members \<Rightarrow> 'a option) \<Rightarrow> string \<Rightarrow> members \<Rightarrow> 'a option option" where
  "read_pointer dec = read_field (\<lambda>j. map_option Some (read_struct dec j)) None"

definition read_message_payload :: "('s, 'y) mirror_env \<Rightarrow> members \<Rightarrow> mirrored_message option" where
  "read_message_payload e m =
     (case (read_field read_string [] ''from_jid'' m, read_field read_string [] ''chat_jid'' m,
            read_field read_bool False ''is_group'' m, read_field read_string [] ''message_id'' m,
            read_field (read_stamp e) zero_time ''timestamp'' m, read_field read_string [] ''type'' m,
            read_field read_string [] ''text'' m, read_pointer (read_media_ref e) ''media'' m,
            read_pointer (read_field read_string [] ''reason'') ''media_omitted'' m) of
        (Some f, Some c, Some g, Some i, Some _, Some t, Some x, Some md, Some om) \<Rightarrow>
          Some \<lparr>mp_from = f, mp_chat = c, mp_group = g, mp_id = i, mp_type = t, mp_text = x, mp_media = md,
            mp_omitted = om, mp_raw = []\<rparr>
      | _ \<Rightarrow> None)"

text \<open>The struct of a deletion has no text.\<close>

definition read_change_payload :: "('s, 'y) mirror_env \<Rightarrow> bool \<Rightarrow> members \<Rightarrow> mirrored_change option" where
  "read_change_payload e edit m =
     (case (read_field read_string [] ''from_jid'' m, read_field read_string [] ''chat_jid'' m,
            read_field read_bool False ''is_group'' m, read_field read_string [] ''message_id'' m,
            if edit then read_field read_string [] ''text'' m else Some [],
            read_field (read_stamp e) zero_time ''timestamp'' m) of
        (Some f, Some c, Some g, Some i, Some x, Some _) \<Rightarrow>
          Some \<lparr>cp_from = f, cp_chat = c, cp_group = g, cp_id = i, cp_text = x\<rparr>
      | _ \<Rightarrow> None)"

definition read_receipt_payload :: "('s, 'y) mirror_env \<Rightarrow> members \<Rightarrow> mirrored_read option" where
  "read_receipt_payload e m =
     (case (read_field (read_list (\<lambda>j. if j = JNull then Some [] else read_string j)) [] ''message_ids'' m,
            read_field read_string [] ''status'' m,
            read_field read_string [] ''chat_jid'' m, read_field (read_stamp e) zero_time ''timestamp'' m) of
        (Some _, Some s, Some c, Some _) \<Rightarrow> Some \<lparr>rp_status = s, rp_chat = c\<rparr>
      | _ \<Rightarrow> None)"

definition read_notice :: "members \<Rightarrow> connection_notice option" where
  "read_notice m =
     (case (read_field read_string [] ''status'' m, read_field read_string [] ''whatsapp_jid'' m,
            read_field read_string [] ''reason'' m) of
        (Some s, Some j, Some r) \<Rightarrow> Some \<lparr>nt_status = s, nt_jid = j, nt_reason = r, nt_image = [], nt_code = []\<rparr>
      | _ \<Rightarrow> None)"

section \<open>Filters and texts\<close>

definition ignored_jid :: "chatwoot_config \<Rightarrow> string \<Rightarrow> string \<Rightarrow> bool" where
  "ignored_jid cfg from chat \<longleftrightarrow> list_ex (\<lambda>jid. jid \<noteq> [] \<and> (from = jid \<or> chat = jid)) (cg_ignore_jids cfg)"

definition is_status_traffic :: "string \<Rightarrow> string \<Rightarrow> bool" where
  "is_status_traffic from chat \<longleftrightarrow>
     list_ex (\<lambda>jid. ends_with jid ''@broadcast'' \<or> ends_with jid ''@newsletter'') [from, chat]"

definition is_group_jid :: "string \<Rightarrow> bool" where
  "is_group_jid jid \<longleftrightarrow> (case cut_at CHR ''@'' jid of Some (_, server) \<Rightarrow> server = ''g.us'' | None \<Rightarrow> False)"

definition sender_phone :: "string \<Rightarrow> string" where
  "sender_phone jid = (case cut_at CHR ''@'' jid of Some (user, _) \<Rightarrow> user | None \<Rightarrow> jid)"

definition contact_source :: "mirrored_message \<Rightarrow> string" where
  "contact_source msg = (if mp_group msg then mp_chat msg else mp_from msg)"

definition wa_source_id :: "string \<Rightarrow> string" where
  "wa_source_id key = ''WAID:'' @ key"

definition same_connector :: "chatwoot_config \<Rightarrow> chatwoot_config \<Rightarrow> bool" where
  "same_connector a b \<longleftrightarrow> cg_url a = cg_url b \<and> cg_account a = cg_account b \<and> cg_token a = cg_token b
     \<and> cg_name_inbox a = cg_name_inbox b \<and> cg_pending a = cg_pending b \<and> cg_reopen a = cg_reopen b
     \<and> cg_merge_brazil a = cg_merge_brazil b"

text \<open>The attributes, in the order of their names, as \<^verbatim>\<open>encoding/json\<close> writes a map.\<close>

definition message_attributes :: "mirrored_message \<Rightarrow> members" where
  "message_attributes msg = [(''wa_chat_jid'', JStr (mp_chat msg)), (''wa_from_jid'', JStr (mp_from msg)),
     (''wa_message_id'', JStr (mp_id msg)), (''wa_type'', JStr (mp_type msg))]"

definition edit_attributes :: "mirrored_change \<Rightarrow> members" where
  "edit_attributes ch = [(''edited'', JBool True), (''wa_chat_jid'', JStr (cp_chat ch)), (''wa_from_jid'', JStr (cp_from ch)),
     (''wa_message_id'', JStr (cp_id ch))]"

definition connection_attributes :: "connection_notice \<Rightarrow> members" where
  "connection_attributes n = [(''wa_status'', JStr (nt_status n))]"

definition connection_text :: "connection_notice \<Rightarrow> string" where
  "connection_text n =
     (let reason = (if nt_reason n = [] then [] else '' Motivo: '' @ nt_reason n) in
      if nt_status n = ''connected'' then
        [CHR 0xE2, CHR 0x9C, CHR 0x85] @ '' WhatsApp conectado'' @ (if nt_jid n = [] then [] else '' como '' @ nt_jid n) @ ''.''
      else if nt_status n = ''pairing'' then
        [CHR 0xF0, CHR 0x9F, CHR 0x93, CHR 0xB1] @ '' Pareamento pendente. Escaneie o QR Code para conectar o WhatsApp.''
        @ (if nt_code n = [] then [] else newline # ''C'' @ [CHR 0xC3, CHR 0xB3] @ ''digo de pareamento: '' @ nt_code n)
      else if nt_status n = ''disconnected'' then
        [CHR 0xE2, CHR 0x9A, CHR 0xA0, CHR 0xEF, CHR 0xB8, CHR 0x8F] @ '' WhatsApp desconectado.'' @ reason @ '' Tentando reconectar'' @ [CHR 0xE2, CHR 0x80, CHR 0xA6]
      else if nt_status n = ''error'' then [CHR 0xE2, CHR 0x9D, CHR 0x8C] @ '' Erro na conex'' @ [CHR 0xC3, CHR 0xA3] @ ''o do WhatsApp.'' @ reason
      else [CHR 0xE2, CHR 0x84, CHR 0xB9, CHR 0xEF, CHR 0xB8, CHR 0x8F] @ '' Estado da conex'' @ [CHR 0xC3, CHR 0xA3] @ ''o: '' @ nt_status n @ ''.''
        @ (if nt_reason n = [] then [] else CHR 0x20 # nt_reason n))"

definition missing_media_text :: "string \<Rightarrow> string" where
  "missing_media_text reason = ''(m'' @ [CHR 0xC3, CHR 0xAD] @ ''dia n'' @ [CHR 0xC3, CHR 0xA3] @ ''o espelhada: '' @ reason @ '')''"

definition message_content :: "text_lib \<Rightarrow> mirrored_message \<Rightarrow> string \<times> string" where
  "message_content tx msg =
     (case (if mp_text msg = [] \<and> mp_raw msg \<noteq> [] then structured_text tx (mp_raw msg) else (mp_text msg, [])) of
        (s, thumbnail) \<Rightarrow>
          (let content = markdown_to_chatwoot s
           in (if mp_group msg then group_prefix (sender_phone (mp_from msg)) [] content else content, thumbnail)))"

definition edit_content :: "mirrored_change \<Rightarrow> string" where
  "edit_content ch =
     (let s = markdown_to_chatwoot (cp_text ch);
          s = (if cp_group ch then group_prefix (sender_phone (cp_from ch)) [] s else s)
      in if trim_space s = [] then ''(mensagem editada)'' else trim_space s @ newline # ''(editada)'')"

section \<open>Bookkeeping\<close>

definition seen_ttl :: duration where "seen_ttl = 60 * minute"
definition seen_cap :: nat where "seen_cap = 10000"
definition reconnect_throttle :: duration where "reconnect_throttle = 30 * second"

definition already_seen :: "uuid \<Rightarrow> mirror_worker \<Rightarrow> bool" where
  "already_seen ev k \<longleftrightarrow> map_of (wk_seen k) ev \<noteq> None"

definition record_seen :: "uuid \<Rightarrow> instant \<Rightarrow> instant \<Rightarrow> mirror_worker \<Rightarrow> mirror_worker" where
  "record_seen ev now later k =
     (let seen = AList.update ev now (wk_seen k)
      in k\<lparr>wk_seen := (if length seen < seen_cap then seen else filter (\<lambda>(_, since). \<not> since < later - seen_ttl) seen)\<rparr>)"

definition mark_seen :: "('s, 'y) mirror_env \<Rightarrow> uuid \<Rightarrow> ('s, 'y) mirror_world \<Rightarrow> ('s, 'y) mirror_world" where
  "mark_seen e ev = draw (\<lambda>n. on_worker (record_seen ev (me_clock e n 0) (me_clock e n 1)))"

definition throttled :: "instant \<Rightarrow> uuid \<Rightarrow> string \<Rightarrow> mirror_worker \<Rightarrow> bool" where
  "throttled now i status k \<longleftrightarrow>
     (case wk_notices k i of Some (s, since) \<Rightarrow> s = status \<and> now - since < reconnect_throttle | None \<Rightarrow> False)"

definition stamp_notice :: "('s, 'y) mirror_env \<Rightarrow> uuid \<Rightarrow> string \<Rightarrow> ('s, 'y) mirror_world \<Rightarrow> ('s, 'y) mirror_world" where
  "stamp_notice e i status = draw (\<lambda>n. on_worker (\<lambda>k. k\<lparr>wk_notices := (wk_notices k)(i \<mapsto> (status, me_clock e n 0))\<rparr>))"

definition mirror_clear :: "uuid \<Rightarrow> mirror_worker \<Rightarrow> mirror_worker" where
  "mirror_clear i k = k\<lparr>wk_stacks := (wk_stacks k)(i := None)\<rparr>"

section \<open>The stack of a connection\<close>

definition connector_config :: "uuid \<Rightarrow> ('s, 'y) mirror_world \<Rightarrow> (mirror_err + chatwoot_config option) \<times> ('s, 'y) mirror_world" where
  "connector_config i w =
     (case on_cw (configs_get i) w of
        (Inl SNotFound, w) \<Rightarrow> (Inr None, w)
      | (Inl x, w) \<Rightarrow> (Inl (MirrorStorage x), w)
      | (Inr cfg, w) \<Rightarrow> (Inr (if cg_enabled cfg then Some cfg else None), w))"

text \<open>None skips the event.\<close>

definition resolve_inbox :: "('s, 'y) mirror_env \<Rightarrow> cw_client \<Rightarrow> chatwoot_config \<Rightarrow> ('s, 'y) mirror_world
      \<Rightarrow> (mirror_err + int option) \<times> ('s, 'y) mirror_world" where
  "resolve_inbox e cl cfg w =
     (let name = trim_space (cg_name_inbox cfg) in
      if name = [] then (Inr None, w)
      else (case on_net (list_inboxes (me_net e) cl) w of
        (Inl x, w) \<Rightarrow> (Inl (MirrorClient x), w)
      | (Inr inboxes, w) \<Rightarrow> (Inr (map_option ix_id (find (\<lambda>ix. ix_name ix = name) inboxes)), w)))"

definition new_stack :: "chatwoot_config \<Rightarrow> int \<Rightarrow> chat_stack" where
  "new_stack cfg inbox =
     (let cl = config_client cfg in
      \<lparr>rk_config = cfg, rk_client = cl, rk_contacts = \<lparr>cs_net_merge = cg_merge_brazil cfg, cs_client = cl\<rparr>,
       rk_convs = \<lparr>vz_client = cl, vz_inbox = inbox, vz_pending = cg_pending cfg, vz_reopen = cg_reopen cfg\<rparr>,
       rk_cache = Map.empty, rk_inbox = inbox\<rparr>)"

definition store_stack :: "uuid \<Rightarrow> chat_stack \<Rightarrow> ('s, 'y) mirror_world \<Rightarrow> ('s, 'y) mirror_world" where
  "store_stack i rt = on_worker (\<lambda>k. k\<lparr>wk_stacks := (wk_stacks k)(i \<mapsto> rt)\<rparr>)"

definition cached_stack :: "chatwoot_config \<Rightarrow> mirror_worker \<Rightarrow> chat_stack option" where
  "cached_stack cfg k =
     (case wk_stacks k (cg_instance cfg) of
        Some rt \<Rightarrow> if same_connector (rk_config rt) cfg then Some rt else None
      | None \<Rightarrow> None)"

definition runtime_for :: "('s, 'y) mirror_env \<Rightarrow> chatwoot_config \<Rightarrow> ('s, 'y) mirror_world
      \<Rightarrow> (mirror_err + chat_stack option) \<times> ('s, 'y) mirror_world" where
  "runtime_for e cfg w =
     (case cached_stack cfg (the_worker w) of
        Some rt \<Rightarrow> (Inr (Some rt), w)
      | None \<Rightarrow>
          (case resolve_inbox e (config_client cfg) cfg w of
             (Inl x, w) \<Rightarrow> (Inl x, w)
           | (Inr None, w) \<Rightarrow> (Inr None, w)
           | (Inr (Some inbox), w) \<Rightarrow>
               (let rt = new_stack cfg inbox in (Inr (Some rt), store_stack (cg_instance cfg) rt w))))"

text \<open>Resolving a conversation updates the cache of the stack, which the worker's table shares.\<close>

definition resolve_conv :: "('s, 'y) mirror_env \<Rightarrow> chat_stack \<Rightarrow> uuid \<Rightarrow> string \<Rightarrow> int \<Rightarrow> ('s, 'y) mirror_world
      \<Rightarrow> (mirror_err + int) \<times> ('s, 'y) mirror_world" where
  "resolve_conv e rt i jid contact = draw (\<lambda>n w.
     case resolve_conversation (me_net e) (rk_convs rt) (me_clock e n 0 div millisecond) (me_free e n)
            (jc_show_id (me_codec e) i) jid contact (rk_cache rt) (hc_net (w_rest w)) of
       (r, c, net) \<Rightarrow>
         (map_sum MirrorConversation id r,
          store_stack i (rt\<lparr>rk_cache := c\<rparr>) (w\<lparr>w_rest := (w_rest w)\<lparr>hc_net := net\<rparr>\<rparr>)))"

text \<open>A contact that cannot be resolved skips the event.\<close>

definition resolve_sender :: "('s, 'y) mirror_env \<Rightarrow> chat_stack \<Rightarrow> string \<Rightarrow> string \<Rightarrow> bool \<Rightarrow> ('s, 'y) mirror_world
      \<Rightarrow> cw_contact option \<times> ('s, 'y) mirror_world" where
  "resolve_sender e rt sender chat is_group w =
     (case on_net (resolve_contact (me_net e) (rk_contacts rt) (if is_group then [] else sender) is_group [] []
                     (if is_group then chat else sender)) w of
        (Inl _, w) \<Rightarrow> (None, w) | (Inr c, w) \<Rightarrow> (Some c, w))"

definition operational_contact_id :: "('s, 'y) mirror_env \<Rightarrow> string" where
  "operational_contact_id e =
     (let bot = trim_space (gl_bot_contact (me_global e)) in if bot \<noteq> [] then bot else ''123456'')"

definition operational_contact :: "('s, 'y) mirror_env \<Rightarrow> chat_stack \<Rightarrow> ('s, 'y) mirror_world
      \<Rightarrow> cw_contact option \<times> ('s, 'y) mirror_world" where
  "operational_contact e rt w =
     (let c = operational_contact_id e in
      case on_net (resolve_contact (me_net e) (rk_contacts rt) c False ''Operacional'' [] c) w of
        (Inl _, w) \<Rightarrow> (None, w) | (Inr c, w) \<Rightarrow> (Some c, w))"

section \<open>Messages\<close>

definition mirror_request :: "string \<Rightarrow> members \<Rightarrow> string \<Rightarrow> string \<Rightarrow> message_request" where
  "mirror_request content attributes source reply =
     \<lparr>mq_content = content, mq_type = ''incoming'', mq_private = False, mq_attributes = attributes, mq_source = source,
      mq_reply = reply\<rparr>"

definition post :: "('s, 'y) mirror_env \<Rightarrow> chat_stack \<Rightarrow> int \<Rightarrow> message_request \<Rightarrow> cw_upload option
      \<Rightarrow> ('s, 'y) mirror_world \<Rightarrow> (mirror_err + cw_message) \<times> ('s, 'y) mirror_world" where
  "post e rt conversation rq file w =
     (case on_net (case file of
          None \<Rightarrow> create_message (me_net e) (rk_client rt) conversation rq
        | Some a \<Rightarrow> create_message_with_attachment (me_net e) (me_print_json e) (rk_client rt) conversation rq a) w of
        (Inl x, w) \<Rightarrow> (Inl (MirrorClient x), w) | (Inr m, w) \<Rightarrow> (Inr m, w))"

text \<open>The stored bytes with their content type and name.\<close>

definition open_media :: "('s, 'y) mirror_env \<Rightarrow> media_ref \<Rightarrow> ('s, 'y) mirror_world
      \<Rightarrow> cw_upload option \<times> ('s, 'y) mirror_world" where
  "open_media e ref = draw (\<lambda>n w.
     case media_open (me_storage e) (me_clock e n 0) (rf_media ref) \<lparr>mw_db = w_db w, mw_fs = hc_files (w_rest w)\<rparr> of
       (r, m) \<Rightarrow>
         (case r of
            Inl _ \<Rightarrow> None
          | Inr (content, rec) \<Rightarrow>
              (let name = trim_space (if md_filename rec \<noteq> [] then md_filename rec else rf_name ref) in
               Some \<lparr>at_name = (if name = [] then ''attachment'' else name),
                     at_type = (if md_mimetype rec \<noteq> [] then md_mimetype rec else rf_mime ref), at_file = content\<rparr>),
          w\<lparr>w_db := mw_db m, w_rest := (w_rest w)\<lparr>hc_files := mw_fs m\<rparr>\<rparr>))"

definition mirror_attachment :: "('s, 'y) mirror_env \<Rightarrow> chat_stack \<Rightarrow> int \<Rightarrow> mirrored_message \<Rightarrow> media_ref \<Rightarrow> string
      \<Rightarrow> ('s, 'y) mirror_world \<Rightarrow> (mirror_err + cw_message) \<times> ('s, 'y) mirror_world" where
  "mirror_attachment e rt conversation msg ref content w =
     (let source = wa_source_id (mp_id msg) in
      case open_media e ref w of
        (Some a, w) \<Rightarrow> post e rt conversation (mirror_request content (message_attributes msg) source []) (Some a) w
      | (None, w) \<Rightarrow>
          (let reason = (case mp_omitted msg of Some r \<Rightarrow> if r \<noteq> [] then r else ''unavailable'' | None \<Rightarrow> ''unavailable'');
               content = (if trim_space content = [] then missing_media_text reason else content)
           in post e rt conversation (mirror_request content (message_attributes msg) source []) None w))"

text \<open>\<^verbatim>\<open>storeCorrelation\<close>: the upsert, and after its failure the look at the row and one more attempt.\<close>

definition store_correlation :: "('s, 'y) mirror_env \<Rightarrow> cw_client \<Rightarrow> correlation \<Rightarrow> ('s, 'y) mirror_step" where
  "store_correlation e cl co w =
     (case on_cw (correlations_put co) w of
        (Inr _, w) \<Rightarrow> (Inr (), w)
      | (Inl put_err, w) \<Rightarrow>
          (case on_cw (correlations_by_wa_key (co_instance co) (co_wa_key co)) w of
             (Inr row, w) \<Rightarrow>
               if co_message row \<noteq> co_message co
               then (Inr (), snd (on_net (api_delete_message (me_net e) cl (co_conversation co) (co_message co)) w))
               else (Inr (), w)
           | (Inl SNotFound, w) \<Rightarrow> (Inr (), snd (on_cw (correlations_put co) w))
           | (Inl _, w) \<Rightarrow> (Inl (MirrorStorage put_err), w)))"

definition new_correlation :: "uuid \<Rightarrow> string \<Rightarrow> int \<Rightarrow> int \<Rightarrow> int \<Rightarrow> string \<Rightarrow> correlation" where
  "new_correlation i key m conversation inbox source =
     \<lparr>co_instance = i, co_wa_key = key, co_message = m, co_conversation = conversation, co_inbox = inbox,
      co_contact_source = source, co_is_read = False, co_created = zero_time\<rparr>"

text \<open>The end of a message or an edit: what was created is correlated and the event marked.\<close>

definition settle_created :: "('s, 'y) mirror_env \<Rightarrow> chat_stack \<Rightarrow> uuid \<Rightarrow> uuid \<Rightarrow> string \<Rightarrow> int \<Rightarrow> string
      \<Rightarrow> (mirror_err + cw_message) \<times> ('s, 'y) mirror_world \<Rightarrow> (mirror_err + unit) \<times> ('s, 'y) mirror_world" where
  "settle_created e rt i ev key conversation source created =
     (case created of
        (Inl x, w) \<Rightarrow> (Inl x, w)
      | (Inr m, w) \<Rightarrow>
          (case store_correlation e (rk_client rt) (new_correlation i key (cm_id m) conversation (rk_inbox rt) source) w of
             (Inl x, w) \<Rightarrow> (Inl x, w)
           | (Inr _, w) \<Rightarrow> (Inr (), mark_seen e ev w)))"

definition send_mirrored :: "('s, 'y) mirror_env \<Rightarrow> chat_stack \<Rightarrow> int \<Rightarrow> mirrored_message \<Rightarrow> string \<Rightarrow> string
      \<Rightarrow> ('s, 'y) mirror_world \<Rightarrow> (mirror_err + cw_message) \<times> ('s, 'y) mirror_world" where
  "send_mirrored e rt conversation msg content thumbnail w =
     (case mp_media msg of
        Some ref \<Rightarrow> mirror_attachment e rt conversation msg ref content w
      | None \<Rightarrow>
          post e rt conversation (mirror_request content (message_attributes msg) (wa_source_id (mp_id msg)) [])
            (if thumbnail \<noteq> [] then Some \<lparr>at_name = ''ad-thumbnail.jpg'', at_type = ''image/jpeg'', at_file = thumbnail\<rparr>
             else None) w)"

text \<open>The part of a handler that the configuration and the filters let through.\<close>

definition with_connector :: "('s, 'y) mirror_env \<Rightarrow> uuid \<Rightarrow> uuid \<Rightarrow> (chatwoot_config \<Rightarrow> bool)
      \<Rightarrow> (chatwoot_config \<Rightarrow> ('s, 'y) mirror_step) \<Rightarrow> ('s, 'y) mirror_step" where
  "with_connector e i ev filtered go w =
     (if \<not> gl_enabled (me_global e) then (Inr (), w)
      else case connector_config i w of
        (Inl x, w) \<Rightarrow> (Inl x, w)
      | (Inr None, w) \<Rightarrow> (Inr (), w)
      | (Inr (Some cfg), w) \<Rightarrow>
          if filtered cfg \<or> already_seen ev (the_worker w) then (Inr (), w) else go cfg w)"

definition with_stack :: "('s, 'y) mirror_env \<Rightarrow> chatwoot_config \<Rightarrow> (chat_stack \<Rightarrow> ('s, 'y) mirror_step) \<Rightarrow> ('s, 'y) mirror_step" where
  "with_stack e cfg go w =
     (case runtime_for e cfg w of
        (Inl x, w) \<Rightarrow> (Inl x, w) | (Inr None, w) \<Rightarrow> (Inr (), w) | (Inr (Some rt), w) \<Rightarrow> go rt w)"

definition dropped_sender :: "string \<Rightarrow> string \<Rightarrow> chatwoot_config \<Rightarrow> bool" where
  "dropped_sender from chat cfg \<longleftrightarrow> ignored_jid cfg from chat \<or> is_status_traffic from chat"

text \<open>An event that was correlated is done; a lookup that fails is retried by the broker.\<close>

definition unless_correlated :: "('s, 'y) mirror_env \<Rightarrow> uuid \<Rightarrow> string \<Rightarrow> uuid \<Rightarrow> ('s, 'y) mirror_step \<Rightarrow> ('s, 'y) mirror_step" where
  "unless_correlated e i key ev go w =
     (case on_cw (correlations_by_wa_key i key) w of
        (Inr _, w) \<Rightarrow> (Inr (), mark_seen e ev w)
      | (Inl SNotFound, w) \<Rightarrow> go w
      | (Inl x, w) \<Rightarrow> (Inl (MirrorStorage x), w))"

text \<open>The sender's contact and conversation; a contact that cannot be resolved skips the event.\<close>

definition with_sender :: "('s, 'y) mirror_env \<Rightarrow> chat_stack \<Rightarrow> uuid \<Rightarrow> string \<Rightarrow> string \<Rightarrow> bool \<Rightarrow> (int \<Rightarrow> ('s, 'y) mirror_step)
      \<Rightarrow> ('s, 'y) mirror_step" where
  "with_sender e rt i sender chat is_group go w =
     (case resolve_sender e rt sender chat is_group w of
        (None, w) \<Rightarrow> (Inr (), w)
      | (Some contact, w) \<Rightarrow>
          (case resolve_conv e rt i chat (ct_id contact) w of
             (Inl x, w) \<Rightarrow> (Inl x, w)
           | (Inr conversation, w) \<Rightarrow> go conversation w))"

definition mirror_new :: "('s, 'y) mirror_env \<Rightarrow> chat_stack \<Rightarrow> uuid \<Rightarrow> uuid \<Rightarrow> mirrored_message \<Rightarrow> int \<Rightarrow> ('s, 'y) mirror_step" where
  "mirror_new e rt i ev msg conversation = unless_correlated e i (mp_id msg) ev (\<lambda>w.
     let content = fst (message_content (me_text e) msg); thumbnail = snd (message_content (me_text e) msg) in
     if content = [] \<and> mp_media msg = None \<and> thumbnail = [] then (Inr (), w)
     else settle_created e rt i ev (mp_id msg) conversation (contact_source msg)
            (send_mirrored e rt conversation msg content thumbnail w))"

definition handle_message :: "('s, 'y) mirror_env \<Rightarrow> uuid \<Rightarrow> uuid \<Rightarrow> mirrored_message \<Rightarrow> ('s, 'y) mirror_step" where
  "handle_message e i ev msg =
     with_connector e i ev (dropped_sender (mp_from msg) (mp_chat msg)) (\<lambda>cfg. with_stack e cfg (\<lambda>rt.
       with_sender e rt i (mp_from msg) (mp_chat msg) (mp_group msg) (mirror_new e rt i ev msg)))"

definition edit_key :: "('s, 'y) mirror_env \<Rightarrow> uuid \<Rightarrow> mirrored_change \<Rightarrow> string" where
  "edit_key e ev ch = cp_id ch @ ''/edit/'' @ jc_show_id (me_codec e) ev"

definition mirror_edit :: "('s, 'y) mirror_env \<Rightarrow> chat_stack \<Rightarrow> uuid \<Rightarrow> uuid \<Rightarrow> mirrored_change \<Rightarrow> correlation \<Rightarrow> ('s, 'y) mirror_step" where
  "mirror_edit e rt i ev ch original w =
     settle_created e rt i ev (edit_key e ev ch) (co_conversation original) (co_contact_source original)
       (post e rt (co_conversation original)
          (mirror_request (edit_content ch) (edit_attributes ch) (wa_source_id (edit_key e ev ch)) (show_int (co_message original)))
          None w)"

text \<open>What is done to the mirrored original; without one the event is skipped.\<close>

definition with_original :: "uuid \<Rightarrow> string \<Rightarrow> (correlation \<Rightarrow> ('s, 'y) mirror_step) \<Rightarrow> ('s, 'y) mirror_step" where
  "with_original i key go w =
     (case on_cw (correlations_by_wa_key i key) w of
        (Inl SNotFound, w) \<Rightarrow> (Inr (), w)
      | (Inl x, w) \<Rightarrow> (Inl (MirrorStorage x), w)
      | (Inr original, w) \<Rightarrow> go original w)"

definition handle_edit :: "('s, 'y) mirror_env \<Rightarrow> uuid \<Rightarrow> uuid \<Rightarrow> mirrored_change \<Rightarrow> ('s, 'y) mirror_step" where
  "handle_edit e i ev ch =
     with_connector e i ev (dropped_sender (cp_from ch) (cp_chat ch)) (\<lambda>cfg.
       unless_correlated e i (edit_key e ev ch) ev (with_original i (cp_id ch) (\<lambda>original.
         with_stack e cfg (\<lambda>rt. mirror_edit e rt i ev ch original))))"

text \<open>A request after which the event is marked.\<close>

definition sync_event :: "('s, 'y) mirror_env \<Rightarrow> uuid \<Rightarrow> (unit, 's) cw_op \<Rightarrow> ('s, 'y) mirror_step" where
  "sync_event e ev op w =
     (case on_net op w of (Inl x, w) \<Rightarrow> (Inl (MirrorClient x), w) | (Inr _, w) \<Rightarrow> (Inr (), mark_seen e ev w))"

definition handle_delete :: "('s, 'y) mirror_env \<Rightarrow> uuid \<Rightarrow> uuid \<Rightarrow> mirrored_change \<Rightarrow> ('s, 'y) mirror_step" where
  "handle_delete e i ev ch w =
     (if \<not> gl_message_delete (me_global e) then (Inr (), w)
      else with_connector e i ev (dropped_sender (cp_from ch) (cp_chat ch)) (\<lambda>cfg.
        with_original i (cp_id ch) (\<lambda>original. with_stack e cfg (\<lambda>rt.
          sync_event e ev (api_delete_message (me_net e) (rk_client rt) (co_conversation original) (co_message original))))) w)"

definition handle_read :: "('s, 'y) mirror_env \<Rightarrow> uuid \<Rightarrow> uuid \<Rightarrow> mirrored_read \<Rightarrow> ('s, 'y) mirror_step" where
  "handle_read e i ev rd w =
     (if \<not> gl_message_read (me_global e) \<or> (rp_status rd \<noteq> ''read'' \<and> rp_status rd \<noteq> ''played'') then (Inr (), w)
      else with_connector e i ev (dropped_sender (rp_chat rd) (rp_chat rd)) (\<lambda>cfg. with_stack e cfg (\<lambda>rt.
        with_sender e rt i (rp_chat rd) (rp_chat rd) (is_group_jid (rp_chat rd)) (\<lambda>conversation.
          sync_event e ev (update_last_seen (me_net e) (rk_client rt) conversation)))) w)"

section \<open>Connection notices\<close>

definition encode_qr :: "('s, 'y) mirror_env \<Rightarrow> string \<Rightarrow> string option" where
  "encode_qr e code = (if code = [] then None else me_qrcode e code)"

definition pairing_qr :: "('s, 'y) mirror_env \<Rightarrow> uuid \<Rightarrow> ('s, 'y) mirror_world \<Rightarrow> string" where
  "pairing_qr e i w =
     (case me_qr e i (snd (hc_rest (w_rest w))) of
        None \<Rightarrow> []
      | Some code \<Rightarrow> (case encode_qr e code of None \<Rightarrow> [] | Some png \<Rightarrow> png))"

definition maybe_auto_import :: "('s, 'y) mirror_env \<Rightarrow> uuid \<Rightarrow> mirror_worker \<Rightarrow> mirror_worker" where
  "maybe_auto_import e i k =
     (if \<not> me_auto_import e \<or> i \<in> set (wk_imported k) then k
      else k\<lparr>wk_imported := i # wk_imported k, wk_fired := wk_fired k @ [i]\<rparr>)"

definition rearm_import :: "uuid \<Rightarrow> string \<Rightarrow> mirror_worker \<Rightarrow> mirror_worker" where
  "rearm_import i status k =
     (if status = ''connected'' then k else k\<lparr>wk_imported := removeAll i (wk_imported k)\<rparr>)"

text \<open>The operational conversation: None skips.\<close>

definition with_operational :: "('s, 'y) mirror_env \<Rightarrow> uuid \<Rightarrow> chatwoot_config \<Rightarrow> (chat_stack \<Rightarrow> int \<Rightarrow> ('s, 'y) mirror_step)
      \<Rightarrow> ('s, 'y) mirror_step" where
  "with_operational e i cfg go = with_stack e cfg (\<lambda>rt w.
     case operational_contact e rt w of
       (None, w) \<Rightarrow> (Inr (), w)
     | (Some contact, w) \<Rightarrow>
         (case resolve_conv e rt i ''operational'' (ct_id contact) w of
            (Inl x, w) \<Rightarrow> (Inl x, w)
          | (Inr conversation, w) \<Rightarrow> go rt conversation w))"

definition post_notice :: "('s, 'y) mirror_env \<Rightarrow> uuid \<Rightarrow> uuid \<Rightarrow> connection_notice \<Rightarrow> chat_stack \<Rightarrow> int \<Rightarrow> ('s, 'y) mirror_step" where
  "post_notice e i ev n rt conversation w =
     (let image = (if nt_image n = [] \<and> nt_status n = ''pairing'' then pairing_qr e i w else nt_image n);
          rq = mirror_request (connection_text n) (connection_attributes n)
                 (wa_source_id (''connection/'' @ jc_show_id (me_codec e) ev)) [] in
      case post e rt conversation rq
             (if image \<noteq> [] then Some \<lparr>at_name = ''qrcode.png'', at_type = ''image/png'', at_file = image\<rparr> else None) w of
        (Inl x, w) \<Rightarrow> (Inl x, w)
      | (Inr _, w) \<Rightarrow>
          (let w = mark_seen e ev (stamp_notice e i (nt_status n) w) in
           (Inr (), if nt_status n = ''connected'' then on_worker (maybe_auto_import e i) w else w)))"

definition handle_connection :: "('s, 'y) mirror_env \<Rightarrow> uuid \<Rightarrow> uuid \<Rightarrow> connection_notice \<Rightarrow> ('s, 'y) mirror_step" where
  "handle_connection e i ev n =
     with_connector e i ev (\<lambda>_. False) (\<lambda>cfg w.
       let w = on_worker (rearm_import i (nt_status n)) w in
       draw (\<lambda>t w.
         if throttled (me_clock e t 0) i (nt_status n) (the_worker w) then (Inr (), mark_seen e ev w)
         else with_operational e i cfg (post_notice e i ev n) w) w)"

definition notify_operational :: "('s, 'y) mirror_env \<Rightarrow> uuid \<Rightarrow> string \<Rightarrow> ('s, 'y) mirror_step" where
  "notify_operational e i s w =
     (if \<not> gl_enabled (me_global e) then (Inr (), w)
      else case connector_config i w of
        (Inl x, w) \<Rightarrow> (Inl x, w)
      | (Inr None, w) \<Rightarrow> (Inr (), w)
      | (Inr (Some cfg), w) \<Rightarrow>
          with_operational e i cfg (\<lambda>rt conversation. draw (\<lambda>n w.
            case post e rt conversation (mirror_request s [] (wa_source_id (''operational/'' @ me_fresh e n)) []) None w of
              (Inl x, w) \<Rightarrow> (Inl x, w) | (Inr _, w) \<Rightarrow> (Inr (), w))) w)"

section \<open>Routing\<close>

datatype verdict = MsgAck | MsgNak | MsgTerm

definition settle_msg :: "(mirror_err + unit) \<times> 'w \<Rightarrow> verdict \<times> 'w" where
  "settle_msg = apfst (case_sum (\<lambda>_. MsgNak) (\<lambda>_. MsgAck))"

definition with_decoded :: "('s, 'y) mirror_env \<Rightarrow> (members \<Rightarrow> 'p option) \<Rightarrow> string \<Rightarrow> ('p \<Rightarrow> ('s, 'y) mirror_step)
      \<Rightarrow> ('s, 'y) mirror_world \<Rightarrow> verdict \<times> ('s, 'y) mirror_world" where
  "with_decoded e dec body go w =
     (case Option.bind (tx_parse (me_text e) body) (read_struct dec) of
        None \<Rightarrow> (MsgTerm, w) | Some p \<Rightarrow> settle_msg (go p w))"

definition handle_nats_message :: "('s, 'y) mirror_env \<Rightarrow> string \<Rightarrow> ('s, 'y) mirror_world \<Rightarrow> verdict \<times> ('s, 'y) mirror_world" where
  "handle_nats_message e data w =
     (case jc_decode (me_codec e) data of
        None \<Rightarrow> (MsgTerm, w)
      | Some env \<Rightarrow>
          (let i = en_instance env; ev = en_id env; body = en_payload env in
           if en_type env = ''message'' then
             with_decoded e (read_message_payload e) body (\<lambda>p. handle_message e i ev (p\<lparr>mp_raw := en_event env\<rparr>)) w
           else if en_type env = ''message.edit'' then with_decoded e (read_change_payload e True) body (handle_edit e i ev) w
           else if en_type env = ''message.delete'' then with_decoded e (read_change_payload e False) body (handle_delete e i ev) w
           else if en_type env = ''receipt'' then with_decoded e (read_receipt_payload e) body (handle_read e i ev) w
           else if en_type env = ''connection'' then with_decoded e read_notice body (handle_connection e i ev) w
           else (MsgAck, w)))"

end
