(* ===== verification/MirrorDelivery.thy ===== *)
theory MirrorDelivery
  imports Mirror
begin

text \<open>
  What the broker's redeliveries do to Chatwoot: however often, and in whatever order, the messages of a connection
  are delivered, one WhatsApp message becomes at most one Chatwoot message. The Chatwoot server is a
  parameter; \<open>counts_created\<close> is what is assumed of it, that a message appears only when the creation was answered.
\<close>

section \<open>Creations\<close>

definition body_source :: "cw_body \<Rightarrow> string" where
  "body_source b =
     (case b of JsonBody (JObj m) \<Rightarrow> text_at ''source_id'' m
      | FormBody fs _ \<Rightarrow> (case map_of fs ''source_id'' of Some s \<Rightarrow> s | None \<Rightarrow> [])
      | _ \<Rightarrow> [])"

definition is_creation :: "cw_request \<Rightarrow> bool" where
  "is_creation rq \<longleftrightarrow> hq_method rq = ''POST'' \<and> ends_with (hq_url rq) ''/messages''"

definition is_accepted :: "'s cw_net \<Rightarrow> (nat \<times> string) option \<Rightarrow> bool" where
  "is_accepted net answer \<longleftrightarrow>
     (case answer of
        None \<Rightarrow> False
      | Some (status, body) \<Rightarrow> 200 \<le> status \<and> status \<le> 299
          \<and> (\<exists>m. client_decode net (read_struct read_message) zero_message (take response_limit body) = Inr m))"

text \<open>\<open>made s st\<close> is the number of messages with the source id \<open>s\<close> on the server.\<close>

definition counts_created :: "'s cw_net \<Rightarrow> (string \<Rightarrow> 's \<Rightarrow> nat) \<Rightarrow> bool" where
  "counts_created net made \<longleftrightarrow> (\<forall>rq st s. case cx_send net rq st of (answer, st') \<Rightarrow>
     made s st' \<le> made s st + (if is_creation rq \<and> body_source (hq_body rq) = s \<and> is_accepted net answer then 1 else 0))"

definition calm :: "(string \<Rightarrow> 's \<Rightarrow> nat) \<Rightarrow> string \<Rightarrow> 's cw_world \<Rightarrow> 's cw_world \<Rightarrow> bool" where
  "calm made s w w' \<longleftrightarrow> made s (cw_server w') \<le> made s (cw_server w)"

lemma calm_refl [simp]: "calm made s w w"
  by (simp add: calm_def)

lemma calm_trans [trans]: "calm made s w w' \<Longrightarrow> calm made s w' w'' \<Longrightarrow> calm made s w w''"
  by (simp add: calm_def)

lemma ends_with_append: "length suf \<le> length b \<Longrightarrow> ends_with (a @ b) suf = ends_with b suf"
proof -
  have "strip_prefix p (q @ r) \<noteq> None \<longleftrightarrow> strip_prefix p q \<noteq> None" if "length p \<le> length q" for p q r :: string
    using that by (induction p q rule: strip_prefix.induct) auto
  from this [of "rev suf" "rev b" "rev a"] show ?thesis if "length suf \<le> length b" using that by (simp add: ends_with_def)
qed

lemma api_do_made:
  assumes "counts_created net made" "api_do net cl verb path body w = (r, w')"
  shows "made s (cw_server w') \<le> made s (cw_server w)
    + (if verb = ''POST'' \<and> ends_with (cc_base cl @ path) ''/messages'' \<and> body_source body = s
          \<and> (\<exists>raw m. r = Inr raw \<and> client_decode net (read_struct read_message) zero_message raw = Inr m) then 1 else 0)"
proof -
  let ?rq = "\<lparr>hq_method = verb, hq_url = cc_base cl @ path, hq_token = cc_token cl, hq_body = body\<rparr>"
  obtain answer st where q: "cx_send net ?rq (cw_server w) = (answer, st)" by fastforce
  have le: "made s st \<le> made s (cw_server w)
      + (if is_creation ?rq \<and> body_source body = s \<and> is_accepted net answer then 1 else 0)"
    using assms(1) [unfolded counts_created_def, THEN spec, of ?rq, THEN spec, of "cw_server w", THEN spec, of s] q by simp
  have w': "cw_server w' = st" using assms(2) q by (auto simp: api_do_def)
  have r: "is_accepted net answer \<Longrightarrow> \<exists>raw m. r = Inr raw \<and> client_decode net (read_struct read_message) zero_message raw = Inr m"
    using assms(2) q by (auto simp: api_do_def is_accepted_def Let_def split: option.splits)
  show ?thesis using le r unfolding w' by (auto simp: is_creation_def split: if_splits)
qed

lemma calm_call:
  assumes "counts_created net made" "client_call net cl verb path body dec z w = (r, w')"
    and "verb \<noteq> ''POST'' \<or> \<not> ends_with (cc_base cl @ account_path cl path) ''/messages''"
  shows "calm made s w w'"
proof -
  obtain r1 w1 where q: "api_do net cl verb (account_path cl path) body w = (r1, w1)" by fastforce
  then have "w' = w1" using assms(2) by (auto simp: client_call_def split: sum.splits)
  then show ?thesis using api_do_made [OF assms(1) q, of s] assms(3) by (auto simp: calm_def split: if_splits)
qed

lemma calm_send:
  assumes "counts_created net made" "client_send net cl verb path body w = (r, w')"
    and "verb \<noteq> ''POST'' \<or> \<not> ends_with (cc_base cl @ account_path cl path) ''/messages''"
  shows "calm made s w w'"
proof -
  obtain r1 w1 where q: "api_do net cl verb (account_path cl path) body w = (r1, w1)" by fastforce
  then have "w' = w1" using assms(2) by (auto simp: client_send_def split: sum.splits)
  then show ?thesis using api_do_made [OF assms(1) q, of s] assms(3) by (auto simp: calm_def split: if_splits)
qed

text \<open>The paths of the other posts end in another word.\<close>

lemma other_paths:
  "\<not> ends_with (a @ account_path cl ''/contacts/filter'') ''/messages''"
  "\<not> ends_with (a @ account_path cl ''/contacts'') ''/messages''"
  "\<not> ends_with (a @ account_path cl ''/actions/contact_merge'') ''/messages''"
  "\<not> ends_with (a @ account_path cl ''/conversations'') ''/messages''"
  by (simp_all add: ends_with_def account_path_def)

lemma calm_calls:
  assumes "counts_created net made"
  shows "find_contact_by_phone net cl p w = (r1, w') \<Longrightarrow> calm made s w w'"
    and "search_contacts net cl p w = (r1, w') \<Longrightarrow> calm made s w w'"
    and "create_contact net cl crq w = (r2, w') \<Longrightarrow> calm made s w w'"
    and "update_contact net cl i crq w = (r2, w') \<Longrightarrow> calm made s w w'"
    and "merge_contacts net cl i j w = (r2, w') \<Longrightarrow> calm made s w w'"
    and "list_inboxes net cl w = (r3, w') \<Longrightarrow> calm made s w w'"
    and "list_contact_conversations net cl i w = (r4, w') \<Longrightarrow> calm made s w w'"
    and "get_conversation net cl i w = (r5, w') \<Longrightarrow> calm made s w w'"
    and "create_conversation net cl vrq w = (r5, w') \<Longrightarrow> calm made s w w'"
    and "toggle_conversation_status net cl i p w = (r5, w') \<Longrightarrow> calm made s w w'"
    and "api_delete_message net cl i j w = (r6, w') \<Longrightarrow> calm made s w w'"
    and "update_last_seen net cl i w = (r6, w') \<Longrightarrow> calm made s w w'"
  by (auto simp: find_contact_by_phone_def search_contacts_def create_contact_def update_contact_def merge_contacts_def
      list_inboxes_def list_contact_conversations_def get_conversation_def create_conversation_def
      toggle_conversation_status_def api_delete_message_def update_last_seen_def other_paths
      elim!: calm_call [OF assms] calm_send [OF assms]) (simp_all add: ends_with_def account_path_def)

lemma calm_ensure_fresh:
  assumes "counts_created net made" "ensure_fresh net r c name avatar w = (res, w')"
  shows "calm made s w w'"
  using assms(2) by (auto simp: ensure_fresh_def Let_def dest: calm_calls(4) [OF assms(1), where s = s]
      split: if_splits prod.splits sum.splits)

lemma calm_find_variants:
  assumes "counts_created net made"
  shows "find_variants net r found vs w = (res, w') \<Longrightarrow> calm made s w w'"
proof (induction vs arbitrary: found w)
  case (Cons v vs)
  obtain q w1 where q: "find_contact_by_phone net (cs_client r) (case strip_prefix ''+'' v of Some t \<Rightarrow> t | None \<Rightarrow> v) w = (q, w1)"
    by fastforce
  have "calm made s w w1" by (rule calm_calls(1) [OF assms q])
  then show ?case using Cons q by (cases q) (auto intro: calm_trans)
qed simp

lemma calm_merge:
  assumes "counts_created net made"
  shows "merge_duplicates net r base cs w = (res, w') \<Longrightarrow> calm made s w w'"
proof (induction cs arbitrary: base w)
  case (Cons c cs)
  obtain q w1 where q: "merge_contacts net (cs_client r) (ct_id base) (ct_id c) w = (q, w1)" by fastforce
  have "calm made s w w1" by (rule calm_calls(5) [OF assms q])
  then show ?case using Cons q by (cases q) (auto intro: calm_trans split: if_splits)
qed simp

lemma calm_resolve_contact:
  assumes "counts_created net made" "resolve_contact net r p g name avatar jid w = (res, w')"
  shows "calm made s w w'"
proof -
  note calls = calm_calls(2,3,5) [OF assms(1), where s = s] calm_ensure_fresh [OF assms(1), where s = s]
  have group: "calm made s w w'" if "create_group net r name avatar jid w = (res, w')" for w res w'
    using that by (auto simp: create_group_def dest: calls split: prod.splits sum.splits)
  have individual: "calm made s w w'" if "create_individual net r e name avatar jid w = (res, w')" for e w res w'
    using that by (auto simp: create_individual_def dest!: calls intro: calm_trans
        split: prod.splits sum.splits if_splits list.splits)
  show ?thesis
    using assms(2)
    by (auto simp: resolve_contact_def resolve_group_def Let_def intro: calm_trans
        dest!: group individual calls calm_find_variants [OF assms(1), where s = s] calm_merge [OF assms(1), where s = s]
        split: prod.splits sum.splits if_splits list.splits)
qed

lemma calm_check_cache:
  assumes "counts_created net made" "check_cache net r now key c w = (res, c', w')"
  shows "calm made s w w'"
  using assms(2) by (auto simp: check_cache_def dest!: calm_calls(8) [OF assms(1), where s = s]
      split: prod.splits sum.splits if_splits option.splits)

lemma calm_resolve_conversation:
  assumes "counts_created net made" "resolve_conversation net r now free inst jid contact c w = (res, c', w')"
  shows "calm made s w w'"
proof -
  have reuse: "calm made s w w'" if "reuse_conversation net r cvs w = (res, w')" for cvs w res w'
    using that by (auto simp: reuse_conversation_def dest!: calm_calls(10) [OF assms(1), where s = s]
        split: choice.splits prod.splits sum.splits)
  show ?thesis
    using assms(2)
    by (auto simp: resolve_conversation_def Let_def intro: calm_trans
        dest!: reuse calm_check_cache [OF assms(1), where s = s] calm_calls(7) [OF assms(1), where s = s]
          calm_calls(9) [OF assms(1), where s = s]
        split: prod.splits sum.splits if_splits option.splits)
qed

section \<open>What a step keeps\<close>

definition server_of :: "('s, 'y) mirror_world \<Rightarrow> 's" where
  "server_of w = cw_server (hc_net (w_rest w))"

definition tables_of :: "('s, 'y) mirror_world \<Rightarrow> cw_db" where
  "tables_of w = \<lparr>cd_base = w_db w, cd_configs = hc_configs (w_rest w), cd_correlations = hc_correlations (w_rest w)\<rparr>"

definition answering :: "('s, 'y) mirror_world \<Rightarrow> bool" where
  "answering w \<longleftrightarrow> pg_script (w_db w) = []"

definition correlated :: "uuid \<Rightarrow> string \<Rightarrow> ('s, 'y) mirror_world \<Rightarrow> bool" where
  "correlated i key w \<longleftrightarrow> (i, key) \<in> correlation_key ` set (hc_correlations (w_rest w))"

definition hosted :: "uuid \<Rightarrow> ('s, 'y) mirror_world \<Rightarrow> bool" where
  "hosted i w \<longleftrightarrow> has_instance (tables_of w) i"

text \<open>While the database answers, a quiet step changes no table and creates no message.\<close>

definition quiet :: "(string \<Rightarrow> 's \<Rightarrow> nat) \<Rightarrow> ('s, 'y) mirror_world \<Rightarrow> ('s, 'y) mirror_world \<Rightarrow> bool" where
  "quiet made w w' \<longleftrightarrow> (answering w \<longrightarrow> tables_of w' = tables_of w) \<and> (\<forall>s. made s (server_of w') \<le> made s (server_of w))"

lemma quiet_refl [simp]: "quiet made w w"
  by (simp add: quiet_def)

lemma answering_tables: "tables_of w' = tables_of w \<Longrightarrow> answering w \<Longrightarrow> answering w'"
  by (simp add: tables_of_def answering_def)

lemma quiet_trans [trans]: "quiet made w w' \<Longrightarrow> quiet made w' w'' \<Longrightarrow> quiet made w w''"
  unfolding quiet_def by (metis answering_tables le_trans)

lemma worker_fields [simp]:
  "tables_of (on_worker f w) = tables_of w" "server_of (on_worker f w) = server_of w"
  by (simp_all add: on_worker_def tables_of_def server_of_def)

lemma tick_fields [simp]:
  "tables_of (w\<lparr>w_rest := (w_rest w)\<lparr>hc_tick := n\<rparr>\<rparr>) = tables_of w"
  "server_of (w\<lparr>w_rest := (w_rest w)\<lparr>hc_tick := n\<rparr>\<rparr>) = server_of w"
  by (simp_all add: tables_of_def server_of_def)

lemma quiet_worker [simp]: "quiet made w (on_worker f w)" "quiet made w (mark_seen e ev w)"
  "quiet made w (stamp_notice e i status w)" "quiet made w (store_stack i rt w)"
  by (simp_all add: quiet_def mark_seen_def stamp_notice_def store_stack_def draw_def)

lemma quiet_draw:
  assumes "draw op w = (r, w')" "\<And>n w r w'. op n w = (r, w') \<Longrightarrow> quiet made w w'"
  shows "quiet made w w'"
proof -
  have "quiet made (w\<lparr>w_rest := (w_rest w)\<lparr>hc_tick := Suc (hc_tick (w_rest w))\<rparr>\<rparr>) w'"
    using assms by (simp add: draw_def)
  then show ?thesis by (simp add: quiet_def answering_def tables_of_def server_of_def)
qed

lemma quiet_net:
  assumes "on_net op w = (r, w')" "\<And>s n r n'. op n = (r, n') \<Longrightarrow> calm made s n n'"
  shows "quiet made w w'"
  using assms by (auto simp: on_net_def quiet_def tables_of_def server_of_def calm_def split: prod.splits)

lemma config_read:
  assumes "answering w"
  shows "on_cw (configs_get i) w =
    (case find (\<lambda>r. cg_instance r = i) (hc_configs (w_rest w)) of None \<Rightarrow> Inl SNotFound | Some r \<Rightarrow> Inr r, w)"
  using assms by (simp add: on_cw_def configs_get_def cw_run_def pg_stmt_def answering_def split: option.splits)

lemma correlation_read:
  assumes "answering w"
  shows "on_cw (correlations_by_wa_key i key) w =
    (case find (\<lambda>r. co_instance r = i \<and> co_wa_key r = key) (hc_correlations (w_rest w)) of
       None \<Rightarrow> Inl SNotFound | Some r \<Rightarrow> Inr r, w)"
  using assms by (simp add: on_cw_def correlations_by_wa_key_def cw_run_def pg_stmt_def answering_def split: option.splits)

lemma correlation_missing:
  "answering w \<Longrightarrow> on_cw (correlations_by_wa_key i key) w = (Inl x, w') \<Longrightarrow> x = SNotFound \<and> w' = w \<and> \<not> correlated i key w"
  by (auto simp: correlation_read correlated_def correlation_key_def find_None_iff split: option.splits)

lemma quiet_runtime:
  assumes "counts_created (me_net e) made" "runtime_for e cfg w = (r, w')"
  shows "quiet made w w'"
proof -
  have inbox: "quiet made w w'" if "resolve_inbox e cl cfg w = (r, w')" for cl w r w'
    using that by (auto simp: resolve_inbox_def Let_def elim!: quiet_net dest: calm_calls(6) [OF assms(1)]
        split: if_splits prod.splits sum.splits)
  show ?thesis using assms(2) by (auto simp: runtime_for_def Let_def dest!: inbox elim: quiet_trans
      split: option.splits prod.splits sum.splits)
qed

lemma quiet_contacts:
  assumes "counts_created (me_net e) made"
  shows "resolve_sender e rt sender chat g w = (c, w') \<Longrightarrow> quiet made w w'"
    and "operational_contact e rt w = (c, w') \<Longrightarrow> quiet made w w'"
  by (auto simp: resolve_sender_def operational_contact_def Let_def elim!: quiet_net dest: calm_resolve_contact [OF assms]
      split: prod.splits sum.splits)

lemma quiet_resolve_conv:
  assumes "counts_created (me_net e) made" "resolve_conv e rt i jid contact w = (r, w')"
  shows "quiet made w w'"
proof (rule quiet_draw [OF assms(2) [unfolded resolve_conv_def]])
  fix n r and w w' :: "('a, 'b) mirror_world"
  obtain q c net where q: "resolve_conversation (me_net e) (rk_convs rt) (me_clock e n 0 div millisecond) (me_free e n)
      (jc_show_id (me_codec e) i) jid contact (rk_cache rt) (hc_net (w_rest w)) = (q, c, net)" by (metis prod.exhaust)
  assume "(case resolve_conversation (me_net e) (rk_convs rt) (me_clock e n 0 div millisecond) (me_free e n)
      (jc_show_id (me_codec e) i) jid contact (rk_cache rt) (hc_net (w_rest w)) of
       (r, c, net) \<Rightarrow> (map_sum MirrorConversation id r,
          store_stack i (rt\<lparr>rk_cache := c\<rparr>) (w\<lparr>w_rest := (w_rest w)\<lparr>hc_net := net\<rparr>\<rparr>))) = (r, w')"
  then have "w' = store_stack i (rt\<lparr>rk_cache := c\<rparr>) (w\<lparr>w_rest := (w_rest w)\<lparr>hc_net := net\<rparr>\<rparr>)" using q by simp
  moreover have "calm made s (hc_net (w_rest w)) net" for s by (rule calm_resolve_conversation [OF assms(1) q])
  ultimately show "quiet made w w'"
    by (simp add: quiet_def store_stack_def) (simp add: tables_of_def server_of_def calm_def)
qed

lemma media_open_base: "pg_script (mw_db m) = [] \<Longrightarrow> media_open sc now i m = (r, m') \<Longrightarrow> mw_db m' = mw_db m"
  by (auto simp: media_open_def media_path_def media_get_def Let_def split: prod.splits sum.splits option.splits if_splits fs_err.splits)

lemma quiet_open_media:
  assumes "open_media e ref w = (r, w')"
  shows "quiet made w w'"
proof (rule quiet_draw [OF assms [unfolded open_media_def]])
  fix n r and w w' :: "('a, 'b) mirror_world"
  obtain q m where q: "media_open (me_storage e) (me_clock e n 0) (rf_media ref)
      \<lparr>mw_db = w_db w, mw_fs = hc_files (w_rest w)\<rparr> = (q, m)" by fastforce
  have "answering w \<Longrightarrow> mw_db m = w_db w" using media_open_base [OF _ q] by (simp add: answering_def)
  moreover assume "(case media_open (me_storage e) (me_clock e n 0) (rf_media ref)
      \<lparr>mw_db = w_db w, mw_fs = hc_files (w_rest w)\<rparr> of (r, m) \<Rightarrow>
         (case r of
            Inl _ \<Rightarrow> None
          | Inr (content, rec) \<Rightarrow>
              (let name = trim_space (if md_filename rec \<noteq> [] then md_filename rec else rf_name ref) in
               Some \<lparr>at_name = (if name = [] then ''attachment'' else name),
                     at_type = (if md_mimetype rec \<noteq> [] then md_mimetype rec else rf_mime ref), at_file = content\<rparr>),
          w\<lparr>w_db := mw_db m, w_rest := (w_rest w)\<lparr>hc_files := mw_fs m\<rparr>\<rparr>)) = (r, w')"
  then have "w' = w\<lparr>w_db := mw_db m, w_rest := (w_rest w)\<lparr>hc_files := mw_fs m\<rparr>\<rparr>" using q by simp
  ultimately show "quiet made w w'" by (simp add: quiet_def tables_of_def server_of_def)
qed

section \<open>Posting\<close>

text \<open>A post leaves the tables alone; a message of its source may appear when it was answered.\<close>

definition posted :: "(string \<Rightarrow> 's \<Rightarrow> nat) \<Rightarrow> string \<Rightarrow> ('s, 'y) mirror_world \<Rightarrow> ('e + cw_message) \<Rightarrow> ('s, 'y) mirror_world \<Rightarrow> bool" where
  "posted made source w res w' \<longleftrightarrow> (answering w \<longrightarrow> tables_of w' = tables_of w)
     \<and> (\<forall>s. made s (server_of w') \<le> made s (server_of w) + (if s = source \<and> \<not> isl res then 1 else 0))"

lemma message_source: "text_at ''source_id'' m = mq_source rq" if "message_json rq = JObj m"
  using that by (auto simp: message_json_def text_at_def json_field_def member_text_def member_flag_def)

lemma form_source: "body_source (attachment_form net print_json rq a) = mq_source rq"
  by (simp add: body_source_def attachment_form_def form_field_def)

lemma body_source_message: "body_source (JsonBody (message_json rq)) = mq_source rq"
  using message_source by (auto simp: body_source_def message_json_def)

lemma call_made:
  assumes "counts_created net made"
    and "client_call net cl verb path body (read_struct read_message) zero_message w = (r, w')"
  shows "made s (cw_server w') \<le> made s (cw_server w) + (if s = body_source body \<and> \<not> isl r then 1 else 0)"
proof -
  obtain r1 w1 where q: "api_do net cl verb (account_path cl path) body w = (r1, w1)" by fastforce
  then have "w' = w1" "\<And>raw. r1 = Inr raw \<Longrightarrow> r = client_decode net (read_struct read_message) zero_message raw"
    using assms(2) by (auto simp: client_call_def split: sum.splits)
  then show ?thesis using api_do_made [OF assms(1) q, of s] by (auto split: if_splits)
qed

lemma post_posted:
  assumes "counts_created (me_net e) made" "post e rt conversation rq a w = (r, w')"
  shows "posted made (mq_source rq) w r w'"
proof -
  let ?op = "case a of
      None \<Rightarrow> create_message (me_net e) (rk_client rt) conversation rq
    | Some a \<Rightarrow> create_message_with_attachment (me_net e) (me_print_json e) (rk_client rt) conversation rq a"
  obtain q n where q: "?op (hc_net (w_rest w)) = (q, n)" by fastforce
  have "made s (cw_server n) \<le> made s (server_of w) + (if s = mq_source rq \<and> \<not> isl q then 1 else 0)" for s
    using q by (cases a) (auto simp: create_message_def create_message_with_attachment_def server_of_def
        body_source_message form_source dest!: call_made [OF assms(1), where s = s])
  moreover have "w' = w\<lparr>w_rest := (w_rest w)\<lparr>hc_net := n\<rparr>\<rparr>" "isl r = isl q"
    using assms(2) q by (auto simp: post_def on_net_def split: sum.splits)
  ultimately show ?thesis by (simp add: posted_def tables_of_def server_of_def)
qed

lemma quiet_posted: "quiet made w w1 \<Longrightarrow> posted made source w1 r w' \<Longrightarrow> posted made source w r w'"
  unfolding quiet_def posted_def by (smt (verit) answering_tables add_le_mono1 order_trans)

lemma posted_quiet: "posted made source w r w' \<Longrightarrow> isl r \<Longrightarrow> quiet made w w'"
  by (simp add: quiet_def posted_def)

lemma source_of_request [simp]: "mq_source (mirror_request content attributes source reply) = source"
  by (simp add: mirror_request_def)

lemma send_mirrored_posted:
  assumes "counts_created (me_net e) made" "send_mirrored e rt conversation msg content thumbnail w = (r, w')"
  shows "posted made (wa_source_id (mp_id msg)) w r w'"
proof (cases "mp_media msg")
  case None
  then show ?thesis using assms(2) post_posted [OF assms(1)] unfolding send_mirrored_def by (metis option.simps(4) source_of_request)
next
  case (Some ref)
  obtain q w1 where q: "open_media e ref w = (q, w1)" by fastforce
  have "\<exists>content a. post e rt conversation (mirror_request content (message_attributes msg) (wa_source_id (mp_id msg)) []) a w1 = (r, w')"
    using assms(2) q Some by (cases q) (simp_all add: send_mirrored_def mirror_attachment_def Let_def, blast+)
  then have "posted made (wa_source_id (mp_id msg)) w1 r w'" using post_posted [OF assms(1)] by (metis source_of_request)
  then show ?thesis by (rule quiet_posted [OF quiet_open_media [OF q]])
qed

lemma correlation_put_stores:
  assumes "answering w" "hosted (co_instance co) w"
  obtains row rows where "on_cw (correlations_put co) w = (Inr row, w\<lparr>w_rest := (w_rest w)\<lparr>hc_correlations := rows\<rparr>\<rparr>)"
    "correlation_key ` set rows = insert (correlation_key co) (correlation_key ` set (hc_correlations (w_rest w)))"
proof (cases "find (same_key co) (hc_correlations (w_rest w))")
  case None
  then show thesis using assms
    by (intro that) (auto simp: on_cw_def correlations_put_def cw_run_def pg_stmt_def answering_def hosted_def tables_of_def
        has_instance_def correlation_key_def Let_def)
next
  case (Some old)
  let ?row = "co\<lparr>co_created := co_created old\<rparr>"
  let ?rows = "map (\<lambda>r. if same_key co r then ?row else r) (hc_correlations (w_rest w))"
  have old: "old \<in> set (hc_correlations (w_rest w))" "same_key co old" using Some by (auto simp: find_Some_iff)
  have key: "correlation_key r = correlation_key co" if "same_key co r" for r using that by (simp add: correlation_key_def same_key_def)
  have row: "correlation_key ?row = correlation_key co" by (simp add: correlation_key_def)
  have "correlation_key (if same_key co r then ?row else r) = correlation_key r" for r using key [of r] row by auto
  then have "correlation_key ` set ?rows = correlation_key ` set (hc_correlations (w_rest w))"
    unfolding set_map image_image by (rule image_cong [OF refl])
  also have "\<dots> = insert (correlation_key co) (correlation_key ` set (hc_correlations (w_rest w)))"
    using old key by (metis imageI insert_absorb)
  finally have keys: "correlation_key ` set ?rows = insert (correlation_key co) (correlation_key ` set (hc_correlations (w_rest w)))" .
  have "on_cw (correlations_put co) w = (Inr ?row, w\<lparr>w_rest := (w_rest w)\<lparr>hc_correlations := ?rows\<rparr>\<rparr>)"
    using assms Some by (simp add: on_cw_def correlations_put_def cw_run_def pg_stmt_def answering_def Let_def)
  then show thesis using keys by (rule that)
qed

section \<open>The invariant of redeliveries\<close>

definition delivered_once :: "(string \<Rightarrow> 's \<Rightarrow> nat) \<Rightarrow> uuid \<Rightarrow> string \<Rightarrow> ('s, 'y) mirror_world \<Rightarrow> bool" where
  "delivered_once made i key w \<longleftrightarrow> answering w \<and> chatwoot_rows_ok (tables_of w)
     \<and> made (wa_source_id key) (server_of w) \<le> (if correlated i key w then 1 else 0)"

lemma correlated_tables: "tables_of w' = tables_of w \<Longrightarrow> correlated i key w' = correlated i key w"
  by (simp add: tables_of_def correlated_def)

lemma hosted_tables: "tables_of w' = tables_of w \<Longrightarrow> hosted i w' = hosted i w"
  by (simp add: hosted_def)

lemma quiet_keeps:
  assumes "quiet made w w'" "delivered_once made i key w"
  shows "delivered_once made i key w'"
proof -
  have t: "tables_of w' = tables_of w" using assms by (simp add: quiet_def delivered_once_def)
  then have "answering w'" using assms answering_tables by (auto simp: delivered_once_def)
  moreover have "made (wa_source_id key) (server_of w') \<le> made (wa_source_id key) (server_of w)"
    using assms(1) by (simp add: quiet_def)
  ultimately show ?thesis
    using assms(2) t unfolding delivered_once_def correlated_tables [OF t] by (metis order_trans)
qed

lemma quiet_hosted: "quiet made w w' \<Longrightarrow> answering w \<Longrightarrow> hosted i w \<Longrightarrow> hosted i w'"
  by (simp add: quiet_def hosted_def)

lemma once_answering: "delivered_once made i key w \<Longrightarrow> answering w"
  by (simp add: delivered_once_def)

lemma source_inject [simp]: "wa_source_id a = wa_source_id b \<longleftrightarrow> a = b"
  by (simp add: wa_source_id_def)

lemma on_cw_tables:
  assumes "on_cw op w = (r, w')"
  shows "op (tables_of w) = (r, tables_of w')"
proof -
  obtain q d where q: "op (tables_of w) = (q, d)" by fastforce
  then have "tables_of w' = d" "q = r" using assms by (auto simp: on_cw_def tables_of_def)
  then show ?thesis using q by simp
qed

text \<open>A creation that was answered is correlated; after any other the messages are as many as before.\<close>

lemma settle_keeps:
  assumes "delivered_once made i key w" "hosted i w" "\<not> correlated i k w"
    and "posted made (wa_source_id k) w created w1"
    and "settle_created e rt i ev k conversation source (created, w1) = (r, w')"
  shows "delivered_once made i key w'"
proof (cases created)
  case (Inl x)
  then have "w' = w1" "quiet made w w1" using assms(4,5) posted_quiet [OF assms(4)] by (simp_all add: settle_created_def)
  then show ?thesis using quiet_keeps [OF _ assms(1)] by simp
next
  case (Inr m)
  let ?co = "new_correlation i k (cm_id m) conversation (rk_inbox rt) source"
  have key: "correlation_key ?co = (i, k)" "co_instance ?co = i" by (simp_all add: new_correlation_def correlation_key_def)
  have t: "tables_of w1 = tables_of w" using assms(4) once_answering [OF assms(1)] by (simp add: posted_def)
  have w1: "answering w1" "hosted i w1" using answering_tables [OF t once_answering [OF assms(1)]] hosted_tables [OF t] assms(2) by simp_all
  obtain row rows where put: "on_cw (correlations_put ?co) w1 = (Inr row, w1\<lparr>w_rest := (w_rest w1)\<lparr>hc_correlations := rows\<rparr>\<rparr>)"
    and rows: "correlation_key ` set rows = insert (i, k) (correlation_key ` set (hc_correlations (w_rest w1)))"
    using correlation_put_stores [of w1 ?co] w1 key by metis
  let ?w2 = "w1\<lparr>w_rest := (w_rest w1)\<lparr>hc_correlations := rows\<rparr>\<rparr>"
  have w': "w' = mark_seen e ev ?w2" using assms(5) Inr put by (simp add: settle_created_def store_correlation_def)
  have "correlations_put ?co (tables_of w1) = (Inr row, tables_of ?w2)"
    by (rule on_cw_tables [OF put])
  then have "chatwoot_rows_ok (tables_of ?w2)"
    using correlations_put_ok [of "tables_of w1" ?co] assms(1) t by (simp add: delivered_once_def)
  moreover have corr: "correlated i key ?w2 \<longleftrightarrow> key = k \<or> correlated i key w"
    using rows t by (auto simp: correlated_def tables_of_def)
  moreover have "made (wa_source_id key) (server_of ?w2) \<le> (if correlated i key ?w2 then 1 else 0)"
  proof -
    have "made (wa_source_id key) (server_of w1) \<le> made (wa_source_id key) (server_of w) + (if key = k then 1 else 0)"
      using assms(4) [unfolded posted_def, THEN conjunct2, THEN spec, of "wa_source_id key"] Inr by (auto split: if_splits)
    moreover have "server_of ?w2 = server_of w1" by (simp add: server_of_def)
    ultimately show ?thesis using assms(1,3) corr unfolding delivered_once_def by (cases "key = k") simp_all
  qed
  moreover have "answering ?w2" using w1 by (simp add: answering_def)
  ultimately have "delivered_once made i key ?w2"
    by (simp add: delivered_once_def)
  then show ?thesis using quiet_keeps [of made ?w2 w'] w' by simp
qed

text \<open>The combinators of the handlers.\<close>

lemma config_hosted:
  assumes "chatwoot_rows_ok (tables_of w)" "find (\<lambda>r. cg_instance r = i) (hc_configs (w_rest w)) = Some cfg"
  shows "hosted i w"
  using assms by (force simp: chatwoot_rows_ok_def tables_of_def hosted_def has_instance_def find_Some_iff)

lemma connector_keeps:
  assumes "delivered_once made i key w" "with_connector e i ev f go w = (r, w')"
    and "\<And>cfg r w'. hosted i w \<Longrightarrow> go cfg w = (r, w') \<Longrightarrow> delivered_once made i key w'"
  shows "delivered_once made i key w'"
proof (cases "find (\<lambda>r. cg_instance r = i) (hc_configs (w_rest w))")
  case None
  then show ?thesis using assms(1,2) once_answering [OF assms(1)]
    by (auto simp: with_connector_def connector_config_def config_read split: if_splits)
next
  case (Some cfg)
  have "hosted i w" using config_hosted [OF _ Some] assms(1) by (simp add: delivered_once_def)
  then show ?thesis using assms Some once_answering [OF assms(1)]
    by (auto simp: with_connector_def connector_config_def config_read split: if_splits)
qed

lemma stack_keeps:
  assumes "counts_created (me_net e) made" "delivered_once made i key w" "with_stack e cfg go w = (r, w')"
    and "\<And>rt w1 r w'. quiet made w w1 \<Longrightarrow> go rt w1 = (r, w') \<Longrightarrow> delivered_once made i key w'"
  shows "delivered_once made i key w'"
proof -
  obtain q w1 where q: "runtime_for e cfg w = (q, w1)" by fastforce
  have "quiet made w w1" by (rule quiet_runtime [OF assms(1) q])
  then show ?thesis using assms(3,4) q quiet_keeps [OF _ assms(2)] by (auto simp: with_stack_def split: sum.splits option.splits)
qed

lemma unless_keeps:
  assumes "delivered_once made i key w" "unless_correlated e i k ev go w = (r, w')"
    and "\<And>r w'. \<not> correlated i k w \<Longrightarrow> go w = (r, w') \<Longrightarrow> delivered_once made i key w'"
  shows "delivered_once made i key w'"
proof (cases "on_cw (correlations_by_wa_key i k) w")
  case (Pair q w1)
  show ?thesis
  proof (cases q)
    case (Inl x)
    then have "x = SNotFound" "w1 = w" "\<not> correlated i k w"
      using Pair correlation_missing [OF once_answering [OF assms(1)]] by blast+
    then show ?thesis using assms(2,3) Pair Inl by (auto simp: unless_correlated_def)
  next
    case (Inr row)
    then have "w1 = w" using Pair once_answering [OF assms(1)] by (auto simp: correlation_read)
    then have "w' = mark_seen e ev w" using assms(2) Pair Inr by (simp add: unless_correlated_def)
    then show ?thesis using quiet_keeps [OF quiet_worker(2) assms(1)] by simp
  qed
qed

lemma sender_keeps:
  assumes "counts_created (me_net e) made" "delivered_once made i key w" "with_sender e rt i sender chat g go w = (r, w')"
    and "\<And>conversation w1 r w'. quiet made w w1 \<Longrightarrow> go conversation w1 = (r, w') \<Longrightarrow> delivered_once made i key w'"
  shows "delivered_once made i key w'"
proof -
  obtain c w1 where c: "resolve_sender e rt sender chat g w = (c, w1)" by fastforce
  have q1: "quiet made w w1" by (rule quiet_contacts(1) [OF assms(1) c])
  show ?thesis
  proof (cases c)
    case None
    then show ?thesis using assms(3) c quiet_keeps [OF q1 assms(2)] by (simp add: with_sender_def)
  next
    case (Some contact)
    obtain v w2 where v: "resolve_conv e rt i chat (ct_id contact) w1 = (v, w2)" by fastforce
    have q2: "quiet made w w2" by (rule quiet_trans [OF q1 quiet_resolve_conv [OF assms(1) v]])
    show ?thesis
      using assms(3,4) c Some v q2 quiet_keeps [OF q2 assms(2)] by (cases v) (simp_all add: with_sender_def)
  qed
qed

lemma original_keeps:
  assumes "delivered_once made i key w" "with_original i k go w = (r, w')"
    and "\<And>original r w'. go original w = (r, w') \<Longrightarrow> delivered_once made i key w'"
  shows "delivered_once made i key w'"
  using assms once_answering [OF assms(1)] by (auto simp: with_original_def correlation_read split: option.splits)

lemma sync_keeps:
  assumes "delivered_once made i key w" "sync_event e ev op w = (r, w')"
    and "\<And>s n r n'. op n = (r, n') \<Longrightarrow> calm made s n n'"
  shows "delivered_once made i key w'"
proof -
  obtain q w1 where q: "on_net op w = (q, w1)" by fastforce
  have "quiet made w w1" by (rule quiet_net [OF q assms(3)])
  then have "quiet made w w'"
    using assms(2) q by (cases q) (auto simp: sync_event_def intro: quiet_trans quiet_worker)
  then show ?thesis by (rule quiet_keeps [OF _ assms(1)])
qed

section \<open>The handlers\<close>

lemma message_keeps:
  assumes "counts_created (me_net e) made" "delivered_once made i key w" "handle_message e i ev msg w = (r, w')"
  shows "delivered_once made i key w'"
  using assms(3) unfolding handle_message_def
proof (rule connector_keeps [OF assms(2)], elim stack_keeps [OF assms(1,2)])
  fix rt w1 r w'
  assume h: "hosted i w" and q1: "quiet made w w1"
  assume "with_sender e rt i (mp_from msg) (mp_chat msg) (mp_group msg) (mirror_new e rt i ev msg) w1 = (r, w')"
  then show "delivered_once made i key w'"
  proof (rule sender_keeps [OF assms(1) quiet_keeps [OF q1 assms(2)]])
    fix conversation w2 r w'
    assume "quiet made w1 w2"
    then have q2: "quiet made w w2" by (rule quiet_trans [OF q1])
    have ok: "delivered_once made i key w2" and h2: "hosted i w2"
      using quiet_keeps [OF q2 assms(2)] quiet_hosted [OF q2 once_answering [OF assms(2)] h] .
    assume "mirror_new e rt i ev msg conversation w2 = (r, w')"
    then show "delivered_once made i key w'" unfolding mirror_new_def
    proof (rule unless_keeps [OF ok])
      fix r w'
      let ?sent = "send_mirrored e rt conversation msg (fst (message_content (me_text e) msg)) (snd (message_content (me_text e) msg)) w2"
      obtain created w3 where s: "?sent = (created, w3)" by fastforce
      assume "\<not> correlated i (mp_id msg) w2"
      note keeps = settle_keeps [OF ok h2 this send_mirrored_posted [OF assms(1) s]]
      assume "(let content = fst (message_content (me_text e) msg); thumbnail = snd (message_content (me_text e) msg) in
          if content = [] \<and> mp_media msg = None \<and> thumbnail = [] then (Inr (), w2)
          else settle_created e rt i ev (mp_id msg) conversation (contact_source msg)
            (send_mirrored e rt conversation msg content thumbnail w2)) = (r, w')"
      then show "delivered_once made i key w'" using ok keeps s by (auto simp: Let_def split: if_splits)
    qed
  qed
qed

lemma edit_keeps:
  assumes "counts_created (me_net e) made" "delivered_once made i key w" "handle_edit e i ev ch w = (r, w')"
  shows "delivered_once made i key w'"
  using assms(3) unfolding handle_edit_def
proof (rule connector_keeps [OF assms(2)], elim unless_keeps [OF assms(2)] original_keeps [OF assms(2)])
  fix cfg original r w'
  assume h: "hosted i w" and fresh: "\<not> correlated i (edit_key e ev ch) w"
  assume "with_stack e cfg (\<lambda>rt. mirror_edit e rt i ev ch original) w = (r, w')"
  then show "delivered_once made i key w'"
  proof (rule stack_keeps [OF assms(1,2)])
    fix rt w1 r w'
    assume q: "quiet made w w1"
    have ok: "delivered_once made i key w1" by (rule quiet_keeps [OF q assms(2)])
    have t: "tables_of w1 = tables_of w" using q once_answering [OF assms(2)] by (simp add: quiet_def)
    let ?rq = "mirror_request (edit_content ch) (edit_attributes ch) (wa_source_id (edit_key e ev ch)) (show_int (co_message original))"
    obtain created w2 where p: "post e rt (co_conversation original) ?rq None w1 = (created, w2)" by fastforce
    have "posted made (wa_source_id (edit_key e ev ch)) w1 created w2" using post_posted [OF assms(1) p] by simp
    note keeps = settle_keeps [OF ok _ _ this]
    assume "mirror_edit e rt i ev ch original w1 = (r, w')"
    then show "delivered_once made i key w'"
      using keeps p h fresh correlated_tables [OF t] hosted_tables [OF t] by (auto simp: mirror_edit_def)
  qed
qed

lemma delete_keeps:
  assumes "counts_created (me_net e) made" "delivered_once made i key w" "handle_delete e i ev ch w = (r, w')"
  shows "delivered_once made i key w'"
proof (cases "gl_message_delete (me_global e)")
  case True
  then have on: "\<not> \<not> gl_message_delete (me_global e)" by simp
  show ?thesis using assms(3) unfolding handle_delete_def if_not_P [OF on]
  proof (rule connector_keeps [OF assms(2)], elim original_keeps [OF assms(2)] stack_keeps [OF assms(1,2)])
    fix original rt w1 r w'
    assume q: "quiet made w w1"
    assume "sync_event e ev (api_delete_message (me_net e) (rk_client rt) (co_conversation original) (co_message original)) w1 = (r, w')"
    then show "delivered_once made i key w'"
      by (rule sync_keeps [OF quiet_keeps [OF q assms(2)]]) (rule calm_calls(11) [OF assms(1)])
  qed
qed (use assms in \<open>simp add: handle_delete_def\<close>)

lemma read_keeps:
  assumes "counts_created (me_net e) made" "delivered_once made i key w" "handle_read e i ev rd w = (r, w')"
  shows "delivered_once made i key w'"
proof (cases "\<not> gl_message_read (me_global e) \<or> (rp_status rd \<noteq> ''read'' \<and> rp_status rd \<noteq> ''played'')")
  case True
  then show ?thesis using assms by (simp add: handle_read_def)
next
  case False
  show ?thesis using assms(3) unfolding handle_read_def if_not_P [OF False]
  proof (rule connector_keeps [OF assms(2)], elim stack_keeps [OF assms(1,2)])
    fix rt w1 r w'
    assume q: "quiet made w w1"
    note ok = quiet_keeps [OF q assms(2)]
    assume "with_sender e rt i (rp_chat rd) (rp_chat rd) (is_group_jid (rp_chat rd))
        (\<lambda>conversation. sync_event e ev (update_last_seen (me_net e) (rk_client rt) conversation)) w1 = (r, w')"
    then show "delivered_once made i key w'"
    proof (rule sender_keeps [OF assms(1) ok])
      fix conversation w2 r w'
      assume q: "quiet made w1 w2"
      assume "sync_event e ev (update_last_seen (me_net e) (rk_client rt) conversation) w2 = (r, w')"
      then show "delivered_once made i key w'"
        by (rule sync_keeps [OF quiet_keeps [OF q ok]]) (rule calm_calls(12) [OF assms(1)])
    qed
  qed
qed

text \<open>Notices have sources of their own.\<close>

definition notice_key :: "string \<Rightarrow> bool" where
  "notice_key key \<longleftrightarrow> strip_prefix ''connection/'' key \<noteq> None"

lemma quiet_stamped:
  "quiet made w (mark_seen e ev (stamp_notice e' i status w))"
  "quiet made w (on_worker f (mark_seen e ev (stamp_notice e' i status w)))"
  using quiet_trans [OF quiet_worker(3) quiet_worker(2)] quiet_trans [OF _ quiet_worker(1)] by blast+

lemma notice_keeps:
  assumes "counts_created (me_net e) made" "\<not> notice_key key" "delivered_once made i key w" "post_notice e i ev n rt conversation w = (r, w')"
  shows "delivered_once made i key w'"
proof -
  let ?src = "wa_source_id (''connection/'' @ jc_show_id (me_codec e) ev)"
  obtain rq a q w1 where p: "post e rt conversation rq a w = (q, w1)" "mq_source rq = ?src"
    and w': "w' = w1 \<or> quiet made w1 w'"
  proof -
    define image where "image = (if nt_image n = [] \<and> nt_status n = ''pairing'' then pairing_qr e i w else nt_image n)"
    define a where "a = (if image \<noteq> [] then Some \<lparr>at_name = ''qrcode.png'', at_type = ''image/png'', at_file = image\<rparr> else None)"
    define rq where "rq = mirror_request (connection_text n) (connection_attributes n) ?src []"
    obtain q w1 where p: "post e rt conversation rq a w = (q, w1)" by fastforce
    have "w' = w1 \<or> quiet made w1 w'"
      using assms(4) p unfolding post_notice_def Let_def image_def [symmetric] a_def [symmetric] rq_def [symmetric]
      by (cases q) (auto simp: quiet_stamped split: if_splits)
    moreover have "mq_source rq = ?src" unfolding rq_def by (rule source_of_request)
    ultimately show thesis using p that by blast
  qed
  have "posted made ?src w q w1" using post_posted [OF assms(1) p(1)] p(2) by simp
  moreover have "key \<noteq> ''connection/'' @ jc_show_id (me_codec e) ev"
    using assms(2) by (auto simp: notice_key_def)
  ultimately have t: "tables_of w1 = tables_of w"
    and m: "made (wa_source_id key) (server_of w1) \<le> made (wa_source_id key) (server_of w)"
    using once_answering [OF assms(3)] by (auto simp: posted_def dest: spec [of _ "wa_source_id key"])
  have "delivered_once made i key w1"
    using assms(3) m t correlated_tables [OF t] answering_tables [OF t] by (simp add: delivered_once_def)
  then show ?thesis using w' quiet_keeps by blast
qed

lemma connection_keeps:
  assumes "counts_created (me_net e) made" "\<not> notice_key key" "delivered_once made i key w" "handle_connection e i ev n w = (r, w')"
  shows "delivered_once made i key w'"
  using assms(4) unfolding handle_connection_def
proof (rule connector_keeps [OF assms(3)])
  fix cfg r w'
  assume go: "(let w = on_worker (rearm_import i (nt_status n)) w in
       draw (\<lambda>t w.
         if throttled (me_clock e t 0) i (nt_status n) (the_worker w) then (Inr (), mark_seen e ev w)
         else with_operational e i cfg (post_notice e i ev n) w) w) = (r, w')"
  define w1 where "w1 = (let w = on_worker (rearm_import i (nt_status n)) w in w\<lparr>w_rest := (w_rest w)\<lparr>hc_tick := Suc (hc_tick (w_rest w))\<rparr>\<rparr>)"
  have "quiet made w w1" by (simp add: w1_def Let_def quiet_def)
  then have ok: "delivered_once made i key w1" by (rule quiet_keeps [OF _ assms(3)])
  have rest: "(\<exists>t. throttled t i (nt_status n) (the_worker w1)) \<and> (r, w') = (Inr (), mark_seen e ev w1)
      \<or> with_operational e i cfg (post_notice e i ev n) w1 = (r, w')"
    using go by (auto simp: w1_def draw_def Let_def split: if_splits)
  show "delivered_once made i key w'"
  proof (cases "with_operational e i cfg (post_notice e i ev n) w1 = (r, w')")
    case True
    then show ?thesis unfolding with_operational_def
    proof (rule stack_keeps [OF assms(1) ok])
      fix rt w2 r w'
      assume q2: "quiet made w1 w2"
      assume step: "(case operational_contact e rt w2 of
         (None, w) \<Rightarrow> (Inr (), w)
       | (Some contact, w) \<Rightarrow>
           (case resolve_conv e rt i ''operational'' (ct_id contact) w of
              (Inl x, w) \<Rightarrow> (Inl x, w)
            | (Inr conversation, w) \<Rightarrow> post_notice e i ev n rt conversation w)) = (r, w')"
      obtain c w3 where c: "operational_contact e rt w2 = (c, w3)" by fastforce
      have q3: "quiet made w1 w3" by (rule quiet_trans [OF q2 quiet_contacts(2) [OF assms(1) c]])
      show "delivered_once made i key w'"
      proof (cases c)
        case (Some contact)
        obtain v w4 where v: "resolve_conv e rt i ''operational'' (ct_id contact) w3 = (v, w4)" by fastforce
        have "quiet made w1 w4" by (rule quiet_trans [OF q3 quiet_resolve_conv [OF assms(1) v]])
        then have "delivered_once made i key w4" by (rule quiet_keeps [OF _ ok])
        then show ?thesis using step c Some v notice_keeps [OF assms(1,2)] by (cases v) auto
      qed (use step c quiet_keeps [OF q3 ok] in simp)
    qed
  next
    case False
    then show ?thesis using rest quiet_keeps [OF quiet_worker(2) ok] by auto
  qed
qed

section \<open>Any number of deliveries\<close>

definition for_instance :: "('s, 'y) mirror_env \<Rightarrow> uuid \<Rightarrow> string \<Rightarrow> bool" where
  "for_instance e i data \<longleftrightarrow> (case jc_decode (me_codec e) data of None \<Rightarrow> True | Some env \<Rightarrow> en_instance env = i)"

definition deliver_all :: "('s, 'y) mirror_env \<Rightarrow> string list \<Rightarrow> ('s, 'y) mirror_world \<Rightarrow> ('s, 'y) mirror_world" where
  "deliver_all e datas w = fold (\<lambda>data w. snd (handle_nats_message e data w)) datas w"

lemma decoded_keeps:
  assumes "delivered_once made i key w" "with_decoded e dec body go w = (v, w')"
    and "\<And>p r w'. go p w = (r, w') \<Longrightarrow> delivered_once made i key w'"
  shows "delivered_once made i key w'"
proof (cases "Option.bind (tx_parse (me_text e) body) (read_struct dec)")
  case (Some p)
  moreover obtain r w1 where g: "go p w = (r, w1)" by fastforce
  ultimately have "w' = w1" using assms(2) by (simp add: with_decoded_def settle_msg_def)
  then show ?thesis using assms(3) [OF g] by simp
qed (use assms(1,2) in \<open>simp add: with_decoded_def\<close>)

lemma nats_keeps:
  assumes "counts_created (me_net e) made" "\<not> notice_key key" "for_instance e i data" "delivered_once made i key w"
  shows "delivered_once made i key (snd (handle_nats_message e data w))"
proof (cases "jc_decode (me_codec e) data")
  case None
  then show ?thesis using assms(4) by (simp add: handle_nats_message_def)
next
  case (Some env)
  then have i: "en_instance env = i" using assms(3) by (simp add: for_instance_def)
  obtain v w' where "handle_nats_message e data w = (v, w')" by fastforce
  then show ?thesis
    using Some assms(4)
    by (auto simp: handle_nats_message_def Let_def i split: if_splits
        elim!: decoded_keeps [OF assms(4)] message_keeps [OF assms(1,4)] edit_keeps [OF assms(1,4)] delete_keeps [OF assms(1,4)]
          read_keeps [OF assms(1,4)] connection_keeps [OF assms(1,2,4)])
qed


text \<open>A server that lists the sources of its messages, newest first, and an event of the message \<^verbatim>\<open>k\<close>.\<close>

definition listing_net :: "string list cw_net" where
  "listing_net =
     \<lparr>cx_send = (\<lambda>rq st. if is_creation rq then (Some (200, ''m''), body_source (hq_body rq) # st)
        else (Some (200, if hq_method rq = ''GET'' \<and> ends_with (hq_url rq) ''/conversations'' then ''l'' else ''m''), st)),
      cx_parse = (\<lambda>s. if s = ''l'' then Some (JArr [])
        else Some (JObj [(''id'', JNum ''7''), (''payload'', JArr [JObj [(''id'', JNum ''7''), (''name'', JStr ''Loja'')]])])),
      cx_detect = (\<lambda>_. [])\<rparr>"

definition sample_text_lib :: text_lib where
  "sample_text_lib =
     \<lparr>tx_parse = (\<lambda>s. if s = ''p'' then Some (JObj [(''from_jid'', JStr ''551@s''), (''chat_jid'', JStr ''551@s''),
        (''message_id'', JStr ''k''), (''type'', JStr ''text''), (''text'', JStr ''oi'')]) else None), tx_float = Some\<rparr>"

definition sample_mirror_env :: "(string list, unit) mirror_env" where
  "sample_mirror_env =
     \<lparr>me_global = \<lparr>gl_enabled = True, gl_message_delete = True, gl_message_read = True, gl_bot_contact = []\<rparr>,
      me_net = listing_net, me_print_json = (\<lambda>_. []), me_storage = sample_storage, me_text = sample_text_lib,
      me_clock = (\<lambda>_ _. 0), me_free = (\<lambda>_ _. True), me_fresh = (\<lambda>_. []), me_qr = (\<lambda>_ _. None),
      me_qrcode = (\<lambda>_. None), me_auto_import = True,
      me_codec = \<lparr>jc_encode = (\<lambda>_. None),
        jc_decode = (\<lambda>s. Some \<lparr>en_id = length s, en_version = 1, en_type = ''message'', en_instance = 1,
          en_occurred = 0, en_payload = ''p'', en_event = []\<rparr>), jc_show_id = (\<lambda>i. replicate i CHR ''i'')\<rparr>,
      me_uuid = (\<lambda>_. None), me_stamp = (\<lambda>_. None)\<rparr>"

definition sample_mirror_world :: "(string list, unit) mirror_world" where
  "sample_mirror_world =
     \<lparr>w_db = sample_db, w_keys = new_key_cache,
      w_rest = \<lparr>hc_resolver = new_resolver, hc_files = sample_files, hc_configs = [sample_config\<lparr>cg_instance := 1\<rparr>],
        hc_correlations = [], hc_net = \<lparr>cw_server = [], cw_sent = []\<rparr>, hc_rest = (new_mirror, ()), hc_tick = 0\<rparr>\<rparr>"

lemma listing_counts: "counts_created listing_net (\<lambda>s st. count_list st s)"
proof -
  have seven: "int_literal ''7'' = Some 7" by code_simp
  have t: "trim_space ''m'' = ''m''" by code_simp
  have "is_accepted listing_net (Some (200, ''m''))"
    using seven t by (auto simp: is_accepted_def client_decode_def listing_net_def response_limit_def read_struct_def read_message_def
        read_field_def json_field_def)
  then show ?thesis by (auto simp: counts_created_def listing_net_def)
qed


section \<open>The bookkeeping\<close>

definition untouched :: "('s, 'y) mirror_world \<Rightarrow> ('s, 'y) mirror_world \<Rightarrow> bool" where
  "untouched w w' \<longleftrightarrow> hc_net (w_rest w') = hc_net (w_rest w) \<and> hc_rest (w_rest w') = hc_rest (w_rest w)
     \<and> hc_configs (w_rest w') = hc_configs (w_rest w) \<and> hc_correlations (w_rest w') = hc_correlations (w_rest w)
     \<and> same_tables (w_db w) (w_db w')"

definition connector_off :: "('s, 'y) mirror_env \<Rightarrow> uuid \<Rightarrow> ('s, 'y) mirror_world \<Rightarrow> bool" where
  "connector_off e i w \<longleftrightarrow> \<not> gl_enabled (me_global e)
     \<or> \<not> list_ex (\<lambda>cfg. cg_instance cfg = i \<and> cg_enabled cfg) (hc_configs (w_rest w))"

lemma untouched_refl [simp]: "untouched w w"
  by (simp add: untouched_def)

lemma config_read_untouched:
  assumes "on_cw (configs_get i) w = (r, w')"
  shows "untouched w w'" "r = Inr cfg \<Longrightarrow> cfg \<in> set (hc_configs (w_rest w)) \<and> cg_instance cfg = i"
proof -
  let ?f = "\<lambda>d. (case find (\<lambda>r. cg_instance r = i) (cd_configs d) of None \<Rightarrow> Inl SNotFound | Some r \<Rightarrow> Inr r, d)"
  have rest: "hc_net (w_rest w') = hc_net (w_rest w)" "hc_rest (w_rest w') = hc_rest (w_rest w)"
    using assms by (auto simp: on_cw_def split: prod.splits)
  have "cw_run ?f (tables_of w) = (r, tables_of w')" using on_cw_tables [OF assms] by (simp add: configs_get_def)
  then have "same_tables (w_db w) (w_db w') \<and> hc_configs (w_rest w') = hc_configs (w_rest w)
      \<and> hc_correlations (w_rest w') = hc_correlations (w_rest w)
      \<and> (r = Inr cfg \<longrightarrow> cfg \<in> set (hc_configs (w_rest w)) \<and> cg_instance cfg = i)" for cfg
    by (cases rule: cw_run_cases [of ?f "tables_of w"]) (auto simp: tables_of_def find_Some_iff split: option.splits)
  then show "untouched w w'" "r = Inr cfg \<Longrightarrow> cfg \<in> set (hc_configs (w_rest w)) \<and> cg_instance cfg = i"
    using rest by (auto simp: untouched_def)
qed

lemma connector_skips:
  assumes "already_seen ev (the_worker w) \<or> connector_off e i w" "with_connector e i ev f go w = (r, w')"
  shows "untouched w w'"
proof (cases "gl_enabled (me_global e)")
  case True
  obtain q w1 where q: "on_cw (configs_get i) w = (q, w1)" by fastforce
  note u = config_read_untouched(1) [OF q]
  have k: "the_worker w1 = the_worker w" using u by (simp add: untouched_def the_worker_def)
  show ?thesis
  proof (cases q)
    case (Inl x)
    then show ?thesis using assms(2) True q u by (cases x) (auto simp: with_connector_def connector_config_def)
  next
    case (Inr cfg)
    then have "\<not> cg_enabled cfg \<or> already_seen ev (the_worker w1)"
      using assms(1) True config_read_untouched(2) [OF q] k by (auto simp: connector_off_def list_ex_iff)
    then show ?thesis using assms(2) True q u Inr by (auto simp: with_connector_def connector_config_def split: if_splits)
  qed
qed (use assms(2) in \<open>simp add: with_connector_def\<close>)

text \<open>
  An event that was marked, or one of a connection whose connector is missing or off, sends nothing to Chatwoot and
  changes neither the worker nor a table, whatever its type.
\<close>

theorem handled_events_do_nothing:
  assumes "jc_decode (me_codec e) data = Some env"
    and "already_seen (en_id env) (the_worker w) \<or> connector_off e (en_instance env) w"
  shows "untouched w (snd (handle_nats_message e data w))"
proof -
  note skips = connector_skips [OF assms(2)]
  have d: "untouched w (snd (with_decoded e dec body go w))" if "\<And>p. untouched w (snd (go p w))" for dec :: "members \<Rightarrow> 'p option" and body go
    using that by (auto simp: with_decoded_def settle_msg_def split: option.splits)
  have c: "untouched w (snd (with_connector e (en_instance env) (en_id env) f go w))" for f go
    using skips by (metis prod.collapse)
  show ?thesis
    using assms(1) c
    by (auto simp: handle_nats_message_def Let_def handle_message_def handle_edit_def handle_delete_def handle_read_def
        handle_connection_def intro!: d)
qed

theorem handled_events_do_nothing_witness:
  "untouched (on_worker (record_seen 2 0 0) sample_mirror_world)
     (snd (handle_nats_message sample_mirror_env ''bb'' (on_worker (record_seen 2 0 0) sample_mirror_world)))"
  by (rule handled_events_do_nothing [where env = "the (jc_decode (me_codec sample_mirror_env) ''bb'')"])
    (simp_all add: sample_mirror_env_def already_seen_def the_worker_def on_worker_def record_seen_def sample_mirror_world_def
      new_mirror_def seen_cap_def)

text \<open>
  A notice of the state that was announced less than thirty seconds ago posts nothing, and its event is marked, so
  that a later delivery of it posts nothing either. The two readings of the clock are less than an hour apart.
\<close>

theorem repeated_notices_are_silent:
  assumes "gl_enabled (me_global e)" "answering w" "find (\<lambda>r. cg_instance r = i) (hc_configs (w_rest w)) = Some cfg" "cg_enabled cfg"
    and "wk_notices (the_worker w) i = Some (nt_status n, since)" "me_clock e (hc_tick (w_rest w)) 0 - since < reconnect_throttle"
    and "me_clock e (Suc (hc_tick (w_rest w))) 1 - me_clock e (Suc (hc_tick (w_rest w))) 0 \<le> seen_ttl"
    and "handle_connection e i ev n w = (r, w')"
  shows "r = Inr () \<and> hc_net (w_rest w') = hc_net (w_rest w) \<and> already_seen ev (the_worker w')"
proof -
  have kept: "already_seen ev (record_seen ev now later k)" if "later - now \<le> seen_ttl" for now later k
  proof -
    have "(ev, now) \<in> set (AList.update ev now (wk_seen k))" by (metis AList.update_conv' fun_upd_same map_of_SomeD)
    moreover have "\<not> now < later - seen_ttl" using that by simp
    ultimately show ?thesis by (force simp: already_seen_def record_seen_def Let_def map_of_eq_None_iff AList.update_conv')
  qed
  show ?thesis
    using assms(1-6,8) kept [OF assms(7)]
    by (auto simp: handle_connection_def with_connector_def connector_config_def config_read Let_def draw_def throttled_def
        mark_seen_def on_worker_def the_worker_def rearm_import_def split: if_splits)
qed

definition announced_world :: "(string list, unit) mirror_world" where
  "announced_world = on_worker (\<lambda>k. k\<lparr>wk_notices := (wk_notices k)(1 \<mapsto> (''connected'', 0))\<rparr>) sample_mirror_world"

definition sample_notice :: connection_notice where
  "sample_notice = \<lparr>nt_status = ''connected'', nt_jid = [], nt_reason = [], nt_image = [], nt_code = []\<rparr>"

theorem repeated_notices_are_silent_witness:
  "\<exists>w'. handle_connection sample_mirror_env 1 5 sample_notice announced_world = (Inr (), w')
     \<and> server_of w' = [] \<and> already_seen 5 (the_worker w')"
proof -
  obtain r w' where h: "handle_connection sample_mirror_env 1 5 sample_notice announced_world = (r, w')" by fastforce
  note defs = sample_mirror_env_def announced_world_def sample_mirror_world_def on_worker_def the_worker_def sample_notice_def
    new_mirror_def answering_def sample_defs reconnect_throttle_def seen_ttl_def second_def minute_def
  have "r = Inr () \<and> hc_net (w_rest w') = hc_net (w_rest announced_world) \<and> already_seen 5 (the_worker w')"
    by (rule repeated_notices_are_silent [where cfg = "sample_config\<lparr>cg_instance := 1\<rparr>" and since = 0, OF _ _ _ _ _ _ _ h])
      (simp_all add: defs, simp add: sample_config_def)
  then show ?thesis using h by (simp add: server_of_def defs)
qed

text \<open>
  The note of \<^verbatim>\<open>storeCorrelation\<close> says that a database that is down cannot lead to a duplicate. When it is down
  for the upsert and the look after it, the delivery is retried with nothing stored: if it is up again by then, the message is
  created a second time.
\<close>

lemma outage_leaves_no_correlation:
  assumes "pg_script (w_db w) = False # False # rest"
  shows "\<exists>w'. store_correlation e cl co w = (Inl (MirrorStorage (SDriver [])), w') \<and> tables_of w' = tables_of (w\<lparr>w_db := (w_db w)\<lparr>pg_script := rest\<rparr>\<rparr>)"
  using assms
  by (simp add: store_correlation_def on_cw_def correlations_put_def correlations_by_wa_key_def cw_run_def pg_stmt_def tables_of_def)

end
