(* ===== verification/MirrorEvents.thy ===== *)
theory MirrorEvents
  imports MirrorDelivery
begin

text \<open>
  The two ends of the broker: the payloads the event sink of the sessions writes (\<open>Runtime\<close>) are those the mirror reads.
\<close>

definition mirrored_media :: "attachment \<Rightarrow> media_ref option" where
  "mirrored_media att =
     (case att of MediaStored m \<Rightarrow> Some \<lparr>rf_media = md_id m, rf_mime = md_mimetype m, rf_name = md_filename m, rf_size = md_size m\<rparr>
      | _ \<Rightarrow> None)"

definition mirrored_of :: "inbound_message \<Rightarrow> attachment \<Rightarrow> string \<Rightarrow> mirrored_message" where
  "mirrored_of msg att raw =
     \<lparr>mp_from = ib_sender msg, mp_chat = ib_chat msg, mp_group = ib_group msg, mp_id = ib_id msg, mp_type = ib_type msg,
      mp_text = ib_text msg, mp_media = mirrored_media att,
      mp_omitted = (case att of MediaOmitted r \<Rightarrow> Some r | _ \<Rightarrow> None), mp_raw = raw\<rparr>"

definition change_of :: "bool \<Rightarrow> message_change \<Rightarrow> mirrored_change" where
  "change_of edit ch =
     \<lparr>cp_from = ch_sender ch, cp_chat = ch_chat ch, cp_group = ch_group ch, cp_id = ch_id ch,
      cp_text = (if edit then ch_text ch else [])\<rparr>"

text \<open>\<^verbatim>\<open>encoding/json\<close> reads back what it wrote: values, ids, instants and integers.\<close>

definition reads_back :: "event_context \<Rightarrow> ('s, 'y) mirror_env \<Rightarrow> bool" where
  "reads_back ec e \<longleftrightarrow>
     (\<forall>j s. jl_encode (ec_json ec) j = Some s \<longrightarrow> tx_parse (me_text e) s = Some j)
     \<and> (\<forall>i. me_uuid e (jc_show_id (ec_codec ec) i) = Some i)
     \<and> (\<forall>t. me_stamp e (jl_time (ec_json ec) t) \<noteq> None)
     \<and> (\<forall>n. int64 n \<longrightarrow> int_literal (jl_number (ec_json ec) n) = Some n)"

lemma stamp_reads: "reads_back ec e \<Longrightarrow> \<exists>t'. me_stamp e (jl_time (ec_json ec) t) = Some t'"
  by (auto simp: reads_back_def)

lemmas payload_simps = json_members_def omit_empty_def read_struct_def read_field_def json_field_def read_pointer_def
  read_stamp_def read_uuid_def

lemma media_reads:
  assumes "reads_back ec e" "int64 (md_size m)"
  shows "\<exists>kvs. media_json ec url m = JObj kvs \<and> read_media_ref e kvs
    = Some \<lparr>rf_media = md_id m, rf_mime = md_mimetype m, rf_name = md_filename m, rf_size = md_size m\<rparr>"
proof -
  obtain t where "me_stamp e (jl_time (ec_json ec) (md_expires m)) = Some t" using stamp_reads [OF assms(1)] by blast
  moreover have "me_uuid e (jc_show_id (ec_codec ec) (md_id m)) = Some (md_id m)"
    "int_literal (jl_number (ec_json ec) (md_size m)) = Some (md_size m)"
    using assms by (simp_all add: reads_back_def)
  ultimately show ?thesis by (simp add: media_json_def read_media_ref_def payload_simps)
qed

lemma message_payload_reads:
  assumes "reads_back ec e" "\<And>m. att = MediaStored m \<Longrightarrow> int64 (md_size m)"
  shows "read_struct (read_message_payload e) (message_payload ec url msg att) = Some (mirrored_of msg att [])"
proof -
  obtain t where t: "me_stamp e (jl_time (ec_json ec) (if ib_timestamp msg = zero_time then ec_now ec else ib_timestamp msg)) = Some t"
    using stamp_reads [OF assms(1)] by blast
  show ?thesis
  proof (cases att)
    case NoMedia
    then show ?thesis using t by (simp add: message_payload_def mirrored_of_def mirrored_media_def read_message_payload_def payload_simps)
  next
    case (MediaStored m)
    obtain kvs where "media_json ec url m = JObj kvs" "read_media_ref e kvs
        = Some \<lparr>rf_media = md_id m, rf_mime = md_mimetype m, rf_name = md_filename m, rf_size = md_size m\<rparr>"
      using media_reads [OF assms(1) assms(2) [OF MediaStored]] by blast
    then show ?thesis using t MediaStored
      by (simp add: message_payload_def mirrored_of_def mirrored_media_def read_message_payload_def payload_simps)
  next
    case (MediaOmitted r)
    then show ?thesis using t by (simp add: message_payload_def mirrored_of_def mirrored_media_def read_message_payload_def payload_simps)
  qed
qed

lemma change_payload_reads:
  assumes "reads_back ec e"
  shows "read_struct (read_change_payload e edit) (change_payload ec edit ch) = Some (change_of edit ch)"
  using stamp_reads [OF assms, of "if ch_timestamp ch = zero_time then ec_now ec else ch_timestamp ch"]
  by (auto simp: change_payload_def change_of_def read_change_payload_def payload_simps)

lemma receipt_payload_reads:
  assumes "reads_back ec e"
  shows "read_struct (read_receipt_payload e) (receipt_payload (ec_json ec) ids status chat stamp)
    = Some \<lparr>rp_status = status, rp_chat = chat\<rparr>"
proof -
  have "read_list (\<lambda>j. if j = JNull then Some [] else read_string j) (JArr (map JStr ids)) = Some ids"
    unfolding read_list_def by (simp add: read_all_map)
  then show ?thesis using stamp_reads [OF assms, of stamp]
    by (auto simp: receipt_payload_def read_receipt_payload_def payload_simps)
qed

lemma connection_payload_reads:
  "read_struct read_notice (connection_payload status jid reason)
    = Some \<lparr>nt_status = status, nt_jid = jid, nt_reason = reason, nt_image = [], nt_code = []\<rparr>"
  by (auto simp: connection_payload_def read_notice_def payload_simps)

text \<open>
  C22: what the sink of the sessions announces is what the mirror handles: a received message with its media or the reason it was left
  out, an edit, a deletion, a receipt and a connection change each reach their handler with the values the session
  reported.
\<close>

theorem the_mirror_handles_what_the_sink_announces:
  assumes "reads_back ec e" "jc_decode (me_codec e) data = Some env"
    and "jl_encode (ec_json ec) payload = Some (en_payload env)"
  shows "(en_type env = ''message'' \<and> payload = message_payload ec url msg att \<and> (\<forall>m. att = MediaStored m \<longrightarrow> int64 (md_size m)) \<longrightarrow>
        handle_nats_message e data w
          = settle_msg (handle_message e (en_instance env) (en_id env) (mirrored_of msg att (en_event env)) w))
    \<and> (en_type env = ''message.edit'' \<and> payload = change_payload ec True ch \<longrightarrow>
        handle_nats_message e data w = settle_msg (handle_edit e (en_instance env) (en_id env) (change_of True ch) w))
    \<and> (en_type env = ''message.delete'' \<and> payload = change_payload ec False ch \<longrightarrow>
        handle_nats_message e data w = settle_msg (handle_delete e (en_instance env) (en_id env) (change_of False ch) w))
    \<and> (en_type env = ''receipt'' \<and> payload = receipt_payload (ec_json ec) ids status chat stamp \<longrightarrow>
        handle_nats_message e data w
          = settle_msg (handle_read e (en_instance env) (en_id env) \<lparr>rp_status = status, rp_chat = chat\<rparr> w))
    \<and> (en_type env = ''connection'' \<and> payload = connection_payload status jid reason \<longrightarrow>
        handle_nats_message e data w = settle_msg (handle_connection e (en_instance env) (en_id env)
          \<lparr>nt_status = status, nt_jid = jid, nt_reason = reason, nt_image = [], nt_code = []\<rparr> w))"
proof -
  have p: "tx_parse (me_text e) (en_payload env) = Some payload" using assms(1,3) by (simp add: reads_back_def)
  have raw: "(mirrored_of msg att [])\<lparr>mp_raw := en_event env\<rparr> = mirrored_of msg att (en_event env)" by (simp add: mirrored_of_def)
  note reads = message_payload_reads [OF assms(1)] change_payload_reads [OF assms(1)] receipt_payload_reads [OF assms(1)]
    connection_payload_reads
  show ?thesis using assms(2) p
    by (simp add: handle_nats_message_def with_decoded_def Let_def reads raw)
qed

definition announced_payload :: json where
  "announced_payload =
     JObj [(''from_jid'', JStr ''551@s''), (''chat_jid'', JStr ''551@s''), (''is_group'', JBool False), (''message_id'', JStr ''k''),
       (''timestamp'', JStr ''t''), (''type'', JStr ''text''), (''text'', JStr ''oi'')]"

definition announcing_context :: event_context where
  "announcing_context =
     \<lparr>ec_codec = me_codec sample_mirror_env,
      ec_json = \<lparr>jl_decode = (\<lambda>_. None), jl_encode = (\<lambda>j. if j = announced_payload then Some ''p'' else None),
        jl_number = show_int, jl_time = (\<lambda>_. ''t'')\<rparr>,
      ec_fresh = 1, ec_now = 0, ec_raw_limit = 0\<rparr>"

definition announced_message :: inbound_message where
  "announced_message =
     \<lparr>ib_instance = 1, ib_id = ''k'', ib_chat = ''551@s'', ib_sender = ''551@s'', ib_group = False, ib_type = ''text'', ib_text = ''oi'',
      ib_timestamp = 0, ib_media = False, ib_mime = [], ib_filename = [], ib_length = 0, ib_download = None, ib_raw = []\<rparr>"

definition reading_env :: "(string list, unit) mirror_env" where
  "reading_env = sample_mirror_env
     \<lparr>me_text := \<lparr>tx_parse = (\<lambda>s. if s = ''p'' then Some announced_payload else None), tx_float = Some\<rparr>,
      me_uuid := (\<lambda>s. Some (length s)), me_stamp := (\<lambda>_. Some 0)\<rparr>"

theorem the_mirror_handles_what_the_sink_announces_witness:
  "handle_nats_message reading_env ''a'' sample_mirror_world
     = settle_msg (handle_message reading_env 1 1 (mirrored_of announced_message NoMedia []) sample_mirror_world)"
proof -
  let ?env = "\<lparr>en_id = 1, en_version = 1, en_type = ''message'', en_instance = 1, en_occurred = 0, en_payload = ''p'', en_event = []\<rparr>"
  have r: "reads_back announcing_context reading_env"
    by (simp add: reads_back_def announcing_context_def reading_env_def sample_mirror_env_def int_literal_reads_back)
  have p: "message_payload announcing_context [] announced_message NoMedia = announced_payload"
    by (simp add: message_payload_def announced_message_def announced_payload_def announcing_context_def json_members_def omit_empty_def)
  have d: "jc_decode (me_codec reading_env) ''a'' = Some ?env" by (simp add: reading_env_def sample_mirror_env_def)
  have e: "jl_encode (ec_json announcing_context) announced_payload = Some (en_payload ?env)" by (simp add: announcing_context_def)
  show ?thesis
    using the_mirror_handles_what_the_sink_announces [OF r d e, where msg = announced_message and att = NoMedia and url = "[]"] p by simp
qed

end
