(* ===== verification/ChatwootImport.thy ===== *)
theory ChatwootImport
  imports ChatwootStore Json HistorySync "HOL-Library.List_Lexorder" "HOL-Library.Char_ord"
begin

text \<open>
  The import of the WhatsApp history into Chatwoot's own database, \<^verbatim>\<open>internal/chatwoot/import/import.go\<close>. That
  database belongs to another program, which writes to it at any moment: every statement consumes an entry of a
  script, None when it fails, Some of what was written since the statement before. A transaction is one entry. The tables
  hold the columns and the keys the statements rely on.
\<close>

section \<open>Chatwoot's tables\<close>

record rails_contact =
  rc_id :: int
  rc_account :: int
  rc_identifier :: string
  rc_name :: string
  rc_phone :: "string option"

record rails_link =
  rl_id :: int
  rl_contact :: int
  rl_inbox :: int

record rails_conversation =
  rv_id :: int
  rv_account :: int
  rv_inbox :: int
  rv_contact :: int
  rv_link :: int
  rv_display :: int

record rails_message =
  rm_account :: int
  rm_inbox :: int
  rm_conversation :: int
  rm_type :: int
  rm_source :: string
  rm_content :: string
  rm_at :: instant
  rm_sender_type :: string
  rm_sender :: "int option"

text \<open>\<open>ra_tokens\<close> are the access tokens of users, \<open>ra_taggings\<close> those of contacts with the context of tags.\<close>

record rails =
  ra_tokens :: "(string \<times> int) list"
  ra_contacts :: "rails_contact list"
  ra_labels :: "(int \<times> string) list"
  ra_tags :: "(int \<times> string) list"
  ra_taggings :: "(int \<times> int) list"
  ra_links :: "rails_link list"
  ra_conversations :: "rails_conversation list"
  ra_messages :: "rails_message list"
  ra_next :: int

record rails_db =
  rb_tables :: rails
  rb_script :: "(rails \<Rightarrow> rails) option list"

datatype import_err = ImportAccount | ImportDriver | ImportUnique | ImportConflict | ImportCancelled | ImportSetup

type_synonym 'a rails_op = "rails_db \<Rightarrow> (import_err + 'a) \<times> rails_db"

definition rails_run :: "(rails \<Rightarrow> (import_err + 'a) \<times> rails) \<Rightarrow> 'a rails_op" where
  "rails_run stmt d =
     (case rb_script d of
        None # rest \<Rightarrow> (Inl ImportDriver, d\<lparr>rb_script := rest\<rparr>)
      | Some f # rest \<Rightarrow> (case stmt (f (rb_tables d)) of (r, t) \<Rightarrow> (r, \<lparr>rb_tables = t, rb_script = rest\<rparr>))
      | [] \<Rightarrow> (case stmt (rb_tables d) of (r, t) \<Rightarrow> (r, d\<lparr>rb_tables := t\<rparr>)))"

text \<open>The next step, unless this one failed.\<close>

definition rails_bind :: "'a rails_op \<Rightarrow> ('a \<Rightarrow> 'b rails_op) \<Rightarrow> 'b rails_op" where
  "rails_bind m go d = (case m d of (Inl e, d) \<Rightarrow> (Inl e, d) | (Inr x, d) \<Rightarrow> go x d)"

definition rails_return :: "'a \<Rightarrow> 'a rails_op" where
  "rails_return x d = (Inr x, d)"

definition rails_query :: "(rails \<Rightarrow> 'a) \<Rightarrow> 'a rails_op" where
  "rails_query q = rails_run (\<lambda>t. (Inr (q t), t))"

section \<open>Contacts\<close>

record contact_row =
  ci_identifier :: string
  ci_name :: string
  ci_phone :: "string option"

text \<open>\<^verbatim>\<open>splitJID\<close> cuts at the last at sign.\<close>

definition split_jid :: "string \<Rightarrow> string \<times> string" where
  "split_jid jid =
     (case cut_at CHR ''@'' (rev jid) of None \<Rightarrow> (jid, []) | Some (host, user) \<Rightarrow> (rev user, rev host))"

definition all_digits :: "string \<Rightarrow> bool" where
  "all_digits s \<longleftrightarrow> s \<noteq> [] \<and> list_all is_digit s"

definition contact_row_of :: "string \<Rightarrow> string \<Rightarrow> string \<Rightarrow> contact_row" where
  "contact_row_of user host name =
     \<lparr>ci_identifier = user, ci_name = (if host = ''g.us'' then name @ '' (GROUP)'' else name),
      ci_phone = (if host \<noteq> ''g.us'' \<and> all_digits user then Some (CHR ''+'' # user) else None)\<rparr>"

text \<open>A row takes the place of the one with its identifier.\<close>

fun place_row :: "contact_row \<Rightarrow> contact_row list \<Rightarrow> contact_row list" where
  "place_row row [] = [row]"
| "place_row row (r # rs) = (if ci_identifier r = ci_identifier row then row # rs else r # place_row row rs)"

definition normalize_contact :: "hist_contact \<Rightarrow> contact_row list \<Rightarrow> contact_row list" where
  "normalize_contact c rows =
     (case split_jid (hk_jid c) of (user, host) \<Rightarrow>
      if user = [] then rows
      else place_row (contact_row_of user host (if hk_name c = [] then user else hk_name c)) rows)"

definition normalize_contacts :: "hist_contact list \<Rightarrow> contact_row list" where
  "normalize_contacts cs = fold normalize_contact cs []"

fun chunks_of :: "nat \<Rightarrow> 'a list \<Rightarrow> 'a list list" where
  "chunks_of n [] = []"
| "chunks_of n (x # xs) = take (Suc (n - 1)) (x # xs) # chunks_of n (drop (n - 1) xs)"

text \<open>The upsert of one row, by account and identifier.\<close>

definition same_contact :: "int \<Rightarrow> contact_row \<Rightarrow> rails_contact \<Rightarrow> bool" where
  "same_contact account row c \<longleftrightarrow> rc_account c = account \<and> rc_identifier c = ci_identifier row"

definition upsert_contact :: "int \<Rightarrow> contact_row \<Rightarrow> rails \<Rightarrow> rails" where
  "upsert_contact account row t =
     (if list_ex (same_contact account row) (ra_contacts t)
      then t\<lparr>ra_contacts := map (\<lambda>c. if same_contact account row c
          then c\<lparr>rc_name := ci_name row, rc_phone := ci_phone row\<rparr> else c) (ra_contacts t)\<rparr>
      else t\<lparr>ra_contacts := ra_contacts t @ [\<lparr>rc_id = ra_next t, rc_account = account, rc_identifier = ci_identifier row,
          rc_name = ci_name row, rc_phone = ci_phone row\<rparr>], ra_next := ra_next t + 1\<rparr>)"

definition contact_ids :: "int \<Rightarrow> string list \<Rightarrow> rails \<Rightarrow> (string \<times> int) list" where
  "contact_ids account identifiers t =
     map (\<lambda>c. (rc_identifier c, rc_id c))
       (filter (\<lambda>c. rc_account c = account \<and> rc_identifier c \<in> set identifiers) (ra_contacts t))"

definition add_tagging :: "int \<Rightarrow> int \<Rightarrow> rails \<Rightarrow> rails" where
  "add_tagging tag contact t =
     (if (tag, contact) \<in> set (ra_taggings t) then t else t\<lparr>ra_taggings := ra_taggings t @ [(tag, contact)]\<rparr>)"

text \<open>
  One chunk in a transaction: the upsert of all rows, which fails when two of them have one identifier, and the
  taggings of the contacts it reads back.
\<close>

definition import_contact_chunk :: "int \<Rightarrow> int option \<Rightarrow> contact_row list \<Rightarrow> unit rails_op" where
  "import_contact_chunk account tag chunk = rails_run (\<lambda>t.
     if \<not> distinct (map ci_identifier chunk) then (Inl ImportConflict, t)
     else
       (let t = fold (upsert_contact account) chunk t;
            ids = contact_ids account (map ci_identifier chunk) t
        in (Inr (), case tag of None \<Rightarrow> t
              | Some g \<Rightarrow> fold (\<lambda>row t. case map_of ids (ci_identifier row) of None \<Rightarrow> t | Some i \<Rightarrow> add_tagging g i t) chunk t)))"

definition ensure_label :: "int \<Rightarrow> string \<Rightarrow> unit rails_op" where
  "ensure_label account title = rails_run (\<lambda>t.
     (Inr (), if (account, title) \<in> set (ra_labels t) then t else t\<lparr>ra_labels := ra_labels t @ [(account, title)]\<rparr>))"

definition find_tag :: "string \<Rightarrow> rails \<Rightarrow> int option" where
  "find_tag name t = map_option fst (find (\<lambda>(_, n). n = name) (ra_tags t))"

definition ensure_tag :: "string \<Rightarrow> int rails_op" where
  "ensure_tag name = rails_bind
     (rails_run (\<lambda>t. (Inr (), if find_tag name t \<noteq> None then t
        else t\<lparr>ra_tags := ra_tags t @ [(ra_next t, name)], ra_next := ra_next t + 1\<rparr>)))
     (\<lambda>_. rails_run (\<lambda>t. (case find_tag name t of None \<Rightarrow> Inl ImportDriver | Some i \<Rightarrow> Inr i, t)))"

text \<open>The chunks in order: how many contacts were written, with the error of the one that failed.\<close>

fun import_contact_chunks :: "int \<Rightarrow> int option \<Rightarrow> contact_row list list \<Rightarrow> nat \<Rightarrow> rails_db
      \<Rightarrow> (nat \<times> import_err option) \<times> rails_db" where
  "import_contact_chunks account tag [] n d = ((n, None), d)"
| "import_contact_chunks account tag (c # cs) n d =
     (case import_contact_chunk account tag c d of
        (Inl e, d) \<Rightarrow> ((n, Some e), d)
      | (Inr _, d) \<Rightarrow> import_contact_chunks account tag cs (n + length c) d)"

text \<open>\<^verbatim>\<open>strconv.ParseInt\<close> in base 10, which takes a sign.\<close>

definition parse_int :: "string \<Rightarrow> int option" where
  "parse_int s =
     (case strip_prefix ''+'' s of
        None \<Rightarrow> int_literal s
      | Some r \<Rightarrow> if strip_prefix ''-'' r = None then int_literal r else None)"

definition contact_chunk_size :: nat where "contact_chunk_size = 3000"
definition message_chunk_size :: nat where "message_chunk_size = 500"

definition import_contacts :: "string \<Rightarrow> string \<Rightarrow> hist_contact list \<Rightarrow> rails_db \<Rightarrow> (nat \<times> import_err option) \<times> rails_db" where
  "import_contacts account_id inbox_name contacts d =
     (case parse_int (trim_space account_id) of
        None \<Rightarrow> ((0, Some ImportAccount), d)
      | Some account \<Rightarrow>
          (let rows = normalize_contacts contacts; tag = trim_space inbox_name;
               chunks = chunks_of contact_chunk_size rows in
           if rows = [] then ((0, None), d)
           else if tag = [] then import_contact_chunks account None chunks 0 d
           else (case ensure_label account tag d of
             (Inl e, d) \<Rightarrow> ((0, Some e), d)
           | (Inr _, d) \<Rightarrow>
               (case ensure_tag tag d of
                  (Inl e, d) \<Rightarrow> ((0, Some e), d)
                | (Inr g, d) \<Rightarrow> import_contact_chunks account (Some g) chunks 0 d))))"

section \<open>Messages\<close>

record message_line =
  ml_identifier :: string
  ml_host :: string
  ml_source :: string
  ml_content :: string
  ml_from_me :: bool
  ml_at :: instant

definition import_placeholder :: string where
  "import_placeholder = ''(m'' @ [CHR 0xC3, CHR 0xAD] @ ''dia n'' @ [CHR 0xC3, CHR 0xA3] @ ''o importada)''"

definition day :: duration where "day = 24 * 60 * minute"

text \<open>The instants before which history is cut; \<open>zero_time\<close> is no cut.\<close>

definition is_cut :: "instant \<Rightarrow> int \<Rightarrow> instant \<Rightarrow> instant \<Rightarrow> bool" where
  "is_cut now days newer stamp \<longleftrightarrow>
     stamp \<noteq> zero_time \<and> ((0 < days \<and> stamp < now - days * day) \<or> (newer \<noteq> zero_time \<and> stamp < newer))"

definition normalize_message :: "instant \<Rightarrow> int \<Rightarrow> instant \<Rightarrow> bool \<Rightarrow> hist_message \<Rightarrow> message_line option" where
  "normalize_message now days newer placeholder m =
     (let key = trim_space (hm_id m); identifier = fst (split_jid (hm_chat m)); content = trim_space (hm_text m) in
      if key = [] \<or> identifier = [] \<or> is_cut now days newer (hm_time m) \<or> (content = [] \<and> \<not> placeholder) then None
      else Some \<lparr>ml_identifier = identifier, ml_host = snd (split_jid (hm_chat m)), ml_source = ''WAID:'' @ key,
        ml_content = (if content = [] then import_placeholder else content), ml_from_me = hm_from_me m,
        ml_at = (if hm_time m = zero_time then now else hm_time m)\<rparr>)"

definition line_key :: "message_line \<Rightarrow> string \<times> instant \<times> string" where
  "line_key l = (ml_identifier l, ml_at l, ml_source l)"

definition normalize_messages :: "instant \<Rightarrow> int \<Rightarrow> instant \<Rightarrow> bool \<Rightarrow> hist_message list \<Rightarrow> message_line list" where
  "normalize_messages now days newer placeholder ms =
     sort_key line_key (List.map_filter (normalize_message now days newer placeholder) ms)"

text \<open>The lines whose source is new, the first of each source.\<close>

fun first_of_source :: "string set \<Rightarrow> message_line list \<Rightarrow> message_line list" where
  "first_of_source seen [] = []"
| "first_of_source seen (l # ls) =
     (if ml_source l \<in> seen then first_of_source seen ls else l # first_of_source (insert (ml_source l) seen) ls)"

definition existing_sources :: "int \<Rightarrow> string list \<Rightarrow> rails \<Rightarrow> string list" where
  "existing_sources account sources t =
     map rm_source (filter (\<lambda>m. rm_account m = account \<and> rm_source m \<in> set sources) (ra_messages t))"

definition find_conversation :: "int \<Rightarrow> int \<Rightarrow> int \<Rightarrow> rails \<Rightarrow> int option" where
  "find_conversation account inbox contact t =
     (case sort_key (\<lambda>i. i) (map rv_id (filter (\<lambda>v. rv_account v = account \<and> rv_inbox v = inbox \<and> rv_contact v = contact)
         (ra_conversations t))) of [] \<Rightarrow> None | i # _ \<Rightarrow> Some i)"

definition link_ids :: "int \<Rightarrow> int \<Rightarrow> rails \<Rightarrow> int list" where
  "link_ids contact inbox t =
     sort_key (\<lambda>i. i) (map rl_id (filter (\<lambda>l. rl_contact l = contact \<and> rl_inbox l = inbox) (ra_links t)))"

definition insert_link :: "int \<Rightarrow> int \<Rightarrow> int rails_op" where
  "insert_link contact inbox = rails_run (\<lambda>t.
     (Inr (ra_next t), t\<lparr>ra_links := ra_links t @ [\<lparr>rl_id = ra_next t, rl_contact = contact, rl_inbox = inbox\<rparr>],
        ra_next := ra_next t + 1\<rparr>))"

definition ensure_link :: "int \<Rightarrow> int \<Rightarrow> int rails_op" where
  "ensure_link contact inbox = rails_bind (rails_query (link_ids contact inbox))
     (\<lambda>ids. case ids of i # _ \<Rightarrow> rails_return i | [] \<Rightarrow> insert_link contact inbox)"

definition next_display :: "int \<Rightarrow> rails \<Rightarrow> int" where
  "next_display account t =
     (case map rv_display (filter (\<lambda>v. rv_account v = account) (ra_conversations t)) of
        [] \<Rightarrow> 1 | n # ns \<Rightarrow> fold max ns n + 1)"

definition insert_conversation :: "int \<Rightarrow> int \<Rightarrow> int \<Rightarrow> int \<Rightarrow> int \<Rightarrow> int rails_op" where
  "insert_conversation account inbox contact link display = rails_run (\<lambda>t.
     if list_ex (\<lambda>v. rv_account v = account \<and> rv_display v = display) (ra_conversations t) then (Inl ImportUnique, t)
     else (Inr (ra_next t), t\<lparr>ra_conversations := ra_conversations t @ [\<lparr>rv_id = ra_next t, rv_account = account, rv_inbox = inbox,
         rv_contact = contact, rv_link = link, rv_display = display\<rparr>], ra_next := ra_next t + 1\<rparr>))"

definition display_attempts :: nat where "display_attempts = 5"

text \<open>The attempts that are left, at least one.\<close>

definition retry_unique :: "'a rails_op \<Rightarrow> 'a rails_op \<Rightarrow> 'a rails_op" where
  "retry_unique go again d = (case go d of (Inl ImportUnique, d) \<Rightarrow> again d | res \<Rightarrow> res)"

fun allocate_conversation :: "nat \<Rightarrow> int \<Rightarrow> int \<Rightarrow> int \<Rightarrow> int \<Rightarrow> int rails_op" where
  "allocate_conversation left account inbox contact link =
     retry_unique
       (rails_bind (rails_query (next_display account)) (insert_conversation account inbox contact link))
       (case left of
          0 \<Rightarrow> (\<lambda>d. (Inl ImportUnique, d))
        | Suc left \<Rightarrow> rails_bind (rails_query (find_conversation account inbox contact))
            (\<lambda>found. case found of Some i \<Rightarrow> rails_return i
                | None \<Rightarrow> allocate_conversation left account inbox contact link))"

declare allocate_conversation.simps [simp del]

definition ensure_conversation :: "int \<Rightarrow> int \<Rightarrow> int \<Rightarrow> int rails_op" where
  "ensure_conversation account inbox contact = rails_bind (rails_query (find_conversation account inbox contact))
     (\<lambda>found. case found of Some i \<Rightarrow> rails_return i
        | None \<Rightarrow> rails_bind (ensure_link contact inbox)
            (allocate_conversation (display_attempts - 1) account inbox contact))"

text \<open>
  \<open>order\<close> is the order in which Go walks the map of contacts. The conversation of each contact is ensured one
  after the other, under the mutex of the process.
\<close>

fun ensure_conversations :: "int \<Rightarrow> int \<Rightarrow> (string \<times> int) list \<Rightarrow> (string \<times> int) list rails_op" where
  "ensure_conversations account inbox [] = rails_return []"
| "ensure_conversations account inbox ((identifier, contact) # cs) =
     rails_bind (ensure_conversation account inbox contact) (\<lambda>v.
       rails_bind (ensure_conversations account inbox cs) (\<lambda>vs. rails_return ((identifier, v) # vs)))"

definition new_lines :: "string list \<Rightarrow> message_line list \<Rightarrow> message_line list" where
  "new_lines existing chunk = filter (\<lambda>l. ml_source l \<notin> set existing) chunk"

text \<open>The authors the chunk needs and the contacts lack, in the order of their identifiers; the first host counts.\<close>

definition missing_authors :: "message_line list \<Rightarrow> (string \<times> int) list \<Rightarrow> contact_row list" where
  "missing_authors lines contacts =
     map (\<lambda>(identifier, host). contact_row_of identifier host identifier)
       (sort_key fst (filter (\<lambda>(identifier, _). map_of contacts identifier = None)
          (foldr (\<lambda>l hosts. (ml_identifier l, ml_host l) # filter (\<lambda>(i, _). i \<noteq> ml_identifier l) hosts) lines [])))"

definition query_contacts :: "int \<Rightarrow> string list \<Rightarrow> (string \<times> int) list rails_op" where
  "query_contacts account identifiers =
     (if identifiers = [] then rails_return [] else rails_query (contact_ids account identifiers))"

definition ensure_message_contacts :: "int \<Rightarrow> message_line list \<Rightarrow> (string \<times> int) list \<Rightarrow> (string \<times> int) list rails_op" where
  "ensure_message_contacts account lines contacts =
     (let missing = missing_authors lines contacts in
      if missing = [] then rails_return contacts
      else rails_bind (import_contact_chunk account None missing) (\<lambda>_.
        rails_bind (query_contacts account (map ci_identifier missing)) (\<lambda>found.
          rails_return (found @ filter (\<lambda>(i, _). map_of found i = None) contacts))))"

definition message_of_line :: "int \<Rightarrow> int \<Rightarrow> int option \<Rightarrow> int \<Rightarrow> int \<Rightarrow> message_line \<Rightarrow> rails_message" where
  "message_of_line account inbox sender contact conversation l =
     \<lparr>rm_account = account, rm_inbox = inbox, rm_conversation = conversation, rm_type = (if ml_from_me l then 1 else 0),
      rm_source = ml_source l, rm_content = ml_content l, rm_at = ml_at l,
      rm_sender_type = (if ml_from_me l then ''User'' else ''Contact''),
      rm_sender = (if ml_from_me l then sender else Some contact)\<rparr>"

text \<open>The messages of the fresh lines: those whose author has a conversation.\<close>

definition fresh_messages :: "int \<Rightarrow> int \<Rightarrow> int option \<Rightarrow> (string \<times> int) list \<Rightarrow> (string \<times> int) list
      \<Rightarrow> message_line list \<Rightarrow> rails_message list" where
  "fresh_messages account inbox sender contacts conversations ls = List.map_filter (\<lambda>l.
     case map_of conversations (ml_identifier l) of
       None \<Rightarrow> None
     | Some v \<Rightarrow> Some (message_of_line account inbox sender (case map_of contacts (ml_identifier l) of None \<Rightarrow> 0 | Some c \<Rightarrow> c) v l)) ls"

definition insert_messages :: "rails_message list \<Rightarrow> nat rails_op" where
  "insert_messages fresh =
     (if fresh = [] then rails_return 0
      else rails_run (\<lambda>t. (Inr (length fresh), t\<lparr>ra_messages := ra_messages t @ fresh\<rparr>)))"

text \<open>The conversations of the authors of the new lines.\<close>

definition ensure_homes :: "((string \<times> int) list \<Rightarrow> (string \<times> int) list) \<Rightarrow> int \<Rightarrow> int \<Rightarrow> message_line list
      \<Rightarrow> ((string \<times> int) list \<times> (string \<times> int) list) rails_op" where
  "ensure_homes order account inbox lines =
     rails_bind (query_contacts account (map ml_identifier lines)) (\<lambda>known.
     rails_bind (ensure_message_contacts account lines known) (\<lambda>contacts.
     rails_bind (ensure_conversations account inbox (order contacts)) (\<lambda>conversations.
       rails_return (contacts, conversations))))"

definition import_message_chunk :: "((string \<times> int) list \<Rightarrow> (string \<times> int) list) \<Rightarrow> int \<Rightarrow> int \<Rightarrow> int option
      \<Rightarrow> message_line list \<Rightarrow> nat rails_op" where
  "import_message_chunk order account inbox sender chunk =
     rails_bind (rails_query (existing_sources account (map ml_source chunk))) (\<lambda>existing.
     rails_bind (ensure_homes order account inbox (new_lines existing chunk)) (\<lambda>(contacts, conversations).
       insert_messages (fresh_messages account inbox sender contacts conversations
         (first_of_source (set existing) chunk))))"

fun import_message_chunks :: "((string \<times> int) list \<Rightarrow> (string \<times> int) list) \<Rightarrow> int \<Rightarrow> int \<Rightarrow> int option
      \<Rightarrow> message_line list list \<Rightarrow> nat \<Rightarrow> rails_db \<Rightarrow> (nat \<times> import_err option) \<times> rails_db" where
  "import_message_chunks order account inbox sender [] n d = ((n, None), d)"
| "import_message_chunks order account inbox sender (c # cs) n d =
     (case import_message_chunk order account inbox sender c d of
        (Inl e, d) \<Rightarrow> ((n, Some e), d)
      | (Inr k, d) \<Rightarrow> import_message_chunks order account inbox sender cs (n + k) d)"

definition lookup_token_owner :: "string \<Rightarrow> int option rails_op" where
  "lookup_token_owner token = rails_query (\<lambda>t. map_option snd (find (\<lambda>(s, _). s = token) (ra_tokens t)))"

record messages_deps =
  ms_account :: string
  ms_token :: string
  ms_days :: int
  ms_newer :: instant
  ms_placeholder :: bool

definition import_messages :: "((string \<times> int) list \<Rightarrow> (string \<times> int) list) \<Rightarrow> instant \<Rightarrow> messages_deps \<Rightarrow> int
      \<Rightarrow> hist_message list \<Rightarrow> rails_db \<Rightarrow> (nat \<times> import_err option) \<times> rails_db" where
  "import_messages order now deps inbox msgs d =
     (case parse_int (trim_space (ms_account deps)) of
        None \<Rightarrow> ((0, Some ImportAccount), d)
      | Some account \<Rightarrow>
          (let lines = normalize_messages now (ms_days deps) (ms_newer deps) (ms_placeholder deps) msgs;
               token = trim_space (ms_token deps); chunks = chunks_of message_chunk_size lines in
           if lines = [] then ((0, None), d)
           else if token = [] then import_message_chunks order account inbox None chunks 0 d
           else (case lookup_token_owner token d of
             (Inl e, d) \<Rightarrow> ((0, Some e), d)
           | (Inr sender, d) \<Rightarrow> import_message_chunks order account inbox sender chunks 0 d)))"

end
