(* ===== verification/ImportFrame.thy ===== *)
theory ImportFrame
  imports ChatwootImport
begin

text \<open>
  What every step of an import leaves alone. A frame is a relation on Chatwoot's tables that each write of the import keeps;
  the locale lifts it from the single statements to the steps, whatever fails and whatever else keeps it meanwhile.
\<close>

section \<open>Frames\<close>

definition calm_under :: "(rails \<Rightarrow> rails \<Rightarrow> bool) \<Rightarrow> rails_db \<Rightarrow> bool" where
  "calm_under h d \<longleftrightarrow> (\<forall>f. Some f \<in> set (rb_script d) \<longrightarrow> (\<forall>t. h t (f t)))"

definition framed :: "(rails \<Rightarrow> rails \<Rightarrow> bool) \<Rightarrow> rails_db \<Rightarrow> rails_db \<Rightarrow> bool" where
  "framed h d d' \<longleftrightarrow> (calm_under h d \<longrightarrow> calm_under h d' \<and> h (rb_tables d) (rb_tables d'))"

lemma bind_cases:
  assumes "rails_bind m go d = (r, d')"
  obtains (failed) e where "m d = (Inl e, d')" "r = Inl e" | (went) x d1 where "m d = (Inr x, d1)" "go x d1 = (r, d')"
  using assms by (auto simp: rails_bind_def split: prod.splits sum.splits)

locale rails_frame =
  fixes h :: "rails \<Rightarrow> rails \<Rightarrow> bool" and account :: int
  assumes h_refl: "h t t"
    and h_trans: "h t t' \<Longrightarrow> h t' t'' \<Longrightarrow> h t t''"
    and h_contact: "h t (upsert_contact account row t)"
    and h_tagging: "h t (add_tagging g i t)"
    and h_label: "h t (t\<lparr>ra_labels := ra_labels t @ [(account, title)]\<rparr>)"
    and h_tag: "h t (t\<lparr>ra_tags := ra_tags t @ [x], ra_next := n\<rparr>)"
    and h_link: "h t (t\<lparr>ra_links := ra_links t @ [l], ra_next := n\<rparr>)"
    and h_conversation: "rv_account v = account \<Longrightarrow> h t (t\<lparr>ra_conversations := ra_conversations t @ [v], ra_next := n\<rparr>)"
begin

lemma framed_refl: "framed h d d"
  by (simp add: framed_def h_refl)

lemma framed_trans: "framed h d d' \<Longrightarrow> framed h d' d'' \<Longrightarrow> framed h d d''"
  unfolding framed_def using h_trans by blast

lemma framed_run:
  assumes "rails_run stmt d = (r, d')" "\<And>t. h t (snd (stmt t))"
  shows "framed h d d'"
proof (cases "rb_script d")
  case Nil
  then show ?thesis using assms(1) assms(2) [of "rb_tables d"] by (auto simp: rails_run_def framed_def calm_under_def split: prod.splits)
next
  case (Cons o1 rest)
  show ?thesis
  proof (cases o1)
    case None
    then show ?thesis using Cons assms(1) by (auto simp: rails_run_def framed_def calm_under_def h_refl)
  next
    case (Some f)
    have "h (rb_tables d) (snd (stmt (f (rb_tables d))))" if "calm_under h d"
      by (rule h_trans [OF _ assms(2)]) (use that Cons Some in \<open>simp add: calm_under_def\<close>)
    then show ?thesis using Cons Some assms(1)
      by (auto simp: rails_run_def framed_def calm_under_def split: prod.splits)
  qed
qed

lemma framed_query: "rails_query q d = (r, d') \<Longrightarrow> framed h d d'"
  unfolding rails_query_def by (erule framed_run) (simp add: h_refl)

lemma framed_return: "rails_return x d = (r, d') \<Longrightarrow> framed h d d'"
  by (simp add: rails_return_def framed_refl)

lemma framed_bind:
  assumes "rails_bind m go d = (r, d')" "\<And>r d'. m d = (r, d') \<Longrightarrow> framed h d d'" "\<And>x d1 r d'. go x d1 = (r, d') \<Longrightarrow> framed h d1 d'"
  shows "framed h d d'"
  using assms(1) by (cases rule: bind_cases) (auto dest: assms(2,3) intro: framed_trans)

lemma h_fold: "(\<And>x t. h t (f x t)) \<Longrightarrow> h t (fold f xs t)"
proof (induction xs arbitrary: t)
  case (Cons x xs)
  then show ?case using h_trans by (metis fold_simps(2))
qed (simp add: h_refl)

lemma framed_contact_chunk: "import_contact_chunk account tag chunk d = (r, d') \<Longrightarrow> framed h d d'"
  unfolding import_contact_chunk_def
proof (erule framed_run)
  fix t
  have u: "h t (fold (upsert_contact account) chunk t)" for t by (rule h_fold) (rule h_contact)
  have g: "h t (fold (\<lambda>row t. case map_of ids (ci_identifier row) of None \<Rightarrow> t | Some i \<Rightarrow> add_tagging g i t) chunk t)" for ids g t
    by (rule h_fold) (simp add: h_refl h_tagging split: option.splits)
  show "h t (snd (if \<not> distinct (map ci_identifier chunk) then (Inl ImportConflict, t)
     else let t = fold (upsert_contact account) chunk t; ids = contact_ids account (map ci_identifier chunk) t
        in (Inr (), case tag of None \<Rightarrow> t | Some g \<Rightarrow>
          fold (\<lambda>row t. case map_of ids (ci_identifier row) of None \<Rightarrow> t | Some i \<Rightarrow> add_tagging g i t) chunk t)))"
    by (auto simp: Let_def h_refl u intro: h_trans [OF u g] split: option.splits)
qed

lemma framed_contact_chunks: "import_contact_chunks account tag cs n d = (r, d') \<Longrightarrow> framed h d d'"
proof (induction cs arbitrary: n d)
  case (Cons c cs)
  obtain q d1 where q: "import_contact_chunk account tag c d = (q, d1)" by fastforce
  then have "framed h d d1" by (rule framed_contact_chunk)
  then show ?case using Cons q framed_trans by (cases q) auto
qed (simp add: framed_refl)

lemma framed_label: "ensure_label account title d = (r, d') \<Longrightarrow> framed h d d'"
  unfolding ensure_label_def by (erule framed_run) (simp add: h_refl h_label)

lemma framed_tag: "ensure_tag name d = (r, d') \<Longrightarrow> framed h d d'"
  unfolding ensure_tag_def by (erule framed_bind; erule framed_run) (simp_all add: h_refl h_tag)

lemma framed_link: "ensure_link contact inbox d = (r, d') \<Longrightarrow> framed h d d'"
  unfolding ensure_link_def insert_link_def
  by (erule framed_bind) (auto elim: framed_query framed_return framed_run simp: h_link split: list.splits)

lemma framed_insert: "insert_conversation account inbox contact link display d = (r, d') \<Longrightarrow> framed h d d'"
  unfolding insert_conversation_def by (erule framed_run) (simp add: h_refl h_conversation)

lemma framed_retry:
  assumes "retry_unique go again d = (r, d')" "\<And>r d'. go d = (r, d') \<Longrightarrow> framed h d d'" "\<And>d1 r d'. again d1 = (r, d') \<Longrightarrow> framed h d1 d'"
  shows "framed h d d'"
proof -
  obtain q d1 where q: "go d = (q, d1)" by fastforce
  show ?thesis
  proof (cases "q = Inl ImportUnique")
    case True
    then show ?thesis using assms q by (auto simp: retry_unique_def intro: framed_trans)
  next
    case False
    then have "d' = d1" using assms(1) q by (auto simp: retry_unique_def split: sum.splits import_err.splits)
    then show ?thesis using assms(2) q by blast
  qed
qed

lemma framed_allocate: "allocate_conversation left account inbox contact link d = (r, d') \<Longrightarrow> framed h d d'"
proof (induction left arbitrary: d r d')
  case 0
  show ?case using 0 unfolding allocate_conversation.simps [of 0]
    by (rule framed_retry) (auto elim!: framed_bind framed_query framed_insert simp: framed_refl)
next
  case (Suc left)
  show ?case using Suc.prems unfolding allocate_conversation.simps [of "Suc left"] nat.case
    by (rule framed_retry) (auto elim!: framed_bind framed_query framed_insert framed_return Suc.IH split: option.splits)
qed

lemma framed_conversation: "ensure_conversation account inbox contact d = (r, d') \<Longrightarrow> framed h d d'"
  unfolding ensure_conversation_def
  by (erule framed_bind) (auto elim!: framed_bind framed_query framed_return framed_link framed_allocate split: option.splits)

lemma framed_conversations: "ensure_conversations account inbox cs d = (r, d') \<Longrightarrow> framed h d d'"
proof (induction cs arbitrary: r d d')
  case (Cons c cs)
  show ?case using Cons.prems
    by (cases c) (auto elim!: framed_bind framed_conversation Cons.IH framed_return)
qed (simp add: framed_return)

lemma framed_query_contacts: "query_contacts account identifiers d = (r, d') \<Longrightarrow> framed h d d'"
  by (auto simp: query_contacts_def dest: framed_query framed_return split: if_splits)

lemma framed_message_contacts: "ensure_message_contacts account ls contacts d = (r, d') \<Longrightarrow> framed h d d'"
  by (auto simp: ensure_message_contacts_def Let_def elim!: framed_bind framed_query_contacts framed_contact_chunk framed_return
      split: if_splits)

lemma framed_homes: "ensure_homes order account inbox ls d = (r, d') \<Longrightarrow> framed h d d'"
  unfolding ensure_homes_def
  by (auto elim!: framed_bind framed_query_contacts framed_message_contacts framed_conversations framed_return)

lemma framed_contacts:
  assumes "import_contacts acct inbox cs d = (r, d')" "parse_int (trim_space acct) = Some account"
  shows "framed h d d'"
proof (cases "normalize_contacts cs = [] \<or> trim_space inbox = []")
  case True
  then show ?thesis using assms by (auto simp: import_contacts_def Let_def framed_refl dest: framed_contact_chunks split: if_splits)
next
  case False
  obtain q d1 where l: "ensure_label account (trim_space inbox) d = (q, d1)" by fastforce
  obtain g d2 where t: "ensure_tag (trim_space inbox) d1 = (g, d2)" by fastforce
  note fl = framed_label [OF l] and ft = framed_trans [OF framed_label [OF l] framed_tag [OF t]]
  show ?thesis using assms False l t fl ft
    by (cases q; cases g) (auto simp: import_contacts_def Let_def dest: framed_contact_chunks intro: framed_trans)
qed

end

section \<open>Only the account's own rows\<close>

text \<open>The rows of the other accounts; tags are shared, links and taggings hang on a contact.\<close>

definition same_elsewhere :: "int \<Rightarrow> rails \<Rightarrow> rails \<Rightarrow> bool" where
  "same_elsewhere account t t' \<longleftrightarrow>
     filter (\<lambda>c. rc_account c \<noteq> account) (ra_contacts t') = filter (\<lambda>c. rc_account c \<noteq> account) (ra_contacts t)
   \<and> filter (\<lambda>v. rv_account v \<noteq> account) (ra_conversations t') = filter (\<lambda>v. rv_account v \<noteq> account) (ra_conversations t)
   \<and> filter (\<lambda>m. rm_account m \<noteq> account) (ra_messages t') = filter (\<lambda>m. rm_account m \<noteq> account) (ra_messages t)
   \<and> filter (\<lambda>l. fst l \<noteq> account) (ra_labels t') = filter (\<lambda>l. fst l \<noteq> account) (ra_labels t)
   \<and> ra_tokens t' = ra_tokens t"

lemma mapped_elsewhere:
  assumes "\<And>x. P x \<Longrightarrow> f x = x" "\<And>x. \<not> P x \<Longrightarrow> \<not> P (f x)"
  shows "filter P (map f xs) = filter P xs"
  using assms by (induction xs) auto

lemma upsert_elsewhere: "same_elsewhere account t (upsert_contact account row t)"
proof -
  have "filter (\<lambda>c. rc_account c \<noteq> account) (map (\<lambda>c. if same_contact account row c
      then c\<lparr>rc_name := ci_name row, rc_phone := ci_phone row\<rparr> else c) cs) = filter (\<lambda>c. rc_account c \<noteq> account) cs" for cs
    by (rule mapped_elsewhere) (auto simp: same_contact_def)
  then show ?thesis by (simp add: same_elsewhere_def upsert_contact_def)
qed

interpretation elsewhere: rails_frame "same_elsewhere account" account for account
proof
  show "same_elsewhere account t (upsert_contact account row t)" for t row by (rule upsert_elsewhere)
  show "same_elsewhere account t t''" if "same_elsewhere account t t'" "same_elsewhere account t' t''" for t t' t''
    using that unfolding same_elsewhere_def by (elim conjE) (intro conjI; erule (1) trans)
  show "same_elsewhere account t (t\<lparr>ra_conversations := ra_conversations t @ [v], ra_next := n\<rparr>)" if "rv_account v = account" for t v n
    using that by (simp add: same_elsewhere_def)
qed (simp_all add: same_elsewhere_def add_tagging_def)

lemma fresh_accounts: "m \<in> set (fresh_messages account inbox sender contacts conversations ls) \<Longrightarrow> rm_account m = account"
proof (induction ls)
  case (Cons l ls)
  then show ?case
    by (cases "map_of conversations (ml_identifier l)")
      (auto simp: fresh_messages_def List.map_filter_def message_of_line_def simp del: split_paired_All)
qed (simp add: fresh_messages_def List.map_filter_def)

lemma insert_elsewhere:
  assumes "insert_messages fresh d = (r, d')" "\<And>m. m \<in> set fresh \<Longrightarrow> rm_account m = account"
  shows "framed (same_elsewhere account) d d'"
proof (cases "fresh = []")
  case True
  then show ?thesis using assms(1) by (auto simp: insert_messages_def dest: elsewhere.framed_return)
next
  case False
  have run: "rails_run (\<lambda>t. (Inr (length fresh), t\<lparr>ra_messages := ra_messages t @ fresh\<rparr>)) d = (r, d')"
    using assms(1) False by (simp add: insert_messages_def)
  have "filter (\<lambda>m. rm_account m \<noteq> account) fresh = []" using assms(2) by (simp add: filter_empty_conv)
  then show ?thesis by (intro elsewhere.framed_run [OF run]) (simp add: same_elsewhere_def)
qed

lemma message_chunk_elsewhere:
  "import_message_chunk order account inbox sender chunk d = (r, d') \<Longrightarrow> framed (same_elsewhere account) d d'"
  unfolding import_message_chunk_def
  by (erule elsewhere.framed_bind)
    (auto elim!: elsewhere.framed_bind elsewhere.framed_query elsewhere.framed_homes insert_elsewhere dest: fresh_accounts)

lemma message_chunks_elsewhere:
  "import_message_chunks order account inbox sender cs n d = (r, d') \<Longrightarrow> framed (same_elsewhere account) d d'"
proof (induction cs arbitrary: n d)
  case (Cons c cs)
  obtain q d1 where q: "import_message_chunk order account inbox sender c d = (q, d1)" by fastforce
  then have "framed (same_elsewhere account) d d1" by (rule message_chunk_elsewhere)
  then show ?case using Cons q elsewhere.framed_trans by (cases q) auto
qed (simp add: elsewhere.framed_refl)

lemma messages_elsewhere:
  assumes "import_messages order now deps inbox msgs d = (r, d')" "parse_int (trim_space (ms_account deps)) = Some account"
  shows "framed (same_elsewhere account) d d'"
proof -
  obtain q d1 where q: "lookup_token_owner (trim_space (ms_token deps)) d = (q, d1)" by fastforce
  then have k: "framed (same_elsewhere account) d d1" unfolding lookup_token_owner_def by (rule elsewhere.framed_query)
  show ?thesis using assms q k
    by (cases q) (auto simp: import_messages_def Let_def elsewhere.framed_refl dest: message_chunks_elsewhere
        intro: elsewhere.framed_trans split: if_splits)
qed

end
