(* ===== verification/ImportSafety.thy ===== *)
theory ImportSafety
  imports ImportFrame
begin

text \<open>
  What an import writes: no message twice, whatever fails meanwhile.
\<close>

section \<open>Messages are only added by the insert\<close>

text \<open>Chatwoot itself adds no message while the import runs; it may write anything else.\<close>

definition calm_script :: "rails_db \<Rightarrow> bool" where
  "calm_script d \<longleftrightarrow> (\<forall>f. Some f \<in> set (rb_script d) \<longrightarrow> (\<forall>t. ra_messages (f t) = ra_messages t))"

definition rails_kept :: "rails_db \<Rightarrow> rails_db \<Rightarrow> bool" where
  "rails_kept d d' \<longleftrightarrow> (calm_script d \<longrightarrow> calm_script d' \<and> ra_messages (rb_tables d') = ra_messages (rb_tables d))"

interpretation messages: rails_frame "\<lambda>t t'. ra_messages t' = ra_messages t" account for account
  by unfold_locales (simp_all add: upsert_contact_def add_tagging_def)

lemma framed_messages: "framed (\<lambda>t t'. ra_messages t' = ra_messages t) = rails_kept"
  by (simp add: fun_eq_iff framed_def rails_kept_def calm_under_def calm_script_def)

lemmas rails_kept_trans = messages.framed_trans [unfolded framed_messages]
lemmas kept_query = messages.framed_query [unfolded framed_messages]
lemmas kept_contact_chunk = messages.framed_contact_chunk [unfolded framed_messages]
lemmas kept_homes = messages.framed_homes [unfolded framed_messages]

section \<open>No message twice\<close>

lemma first_of_source_facts:
  "distinct (map ml_source (first_of_source seen ls)) \<and> ml_source ` set (first_of_source seen ls) = ml_source ` set ls - seen
    \<and> set (first_of_source seen ls) \<subseteq> set ls"
  by (induction seen ls rule: first_of_source.induct) auto

definition sources_in :: "int \<Rightarrow> rails \<Rightarrow> string set" where
  "sources_in account t = rm_source ` {m \<in> set (ra_messages t). rm_account m = account}"

text \<open>The messages an import adds to those of an account.\<close>

definition adds :: "int \<Rightarrow> string set \<Rightarrow> nat \<Rightarrow> rails \<Rightarrow> rails \<Rightarrow> bool" where
  "adds account allowed n t t' \<longleftrightarrow>
     (\<exists>new. ra_messages t' = ra_messages t @ new \<and> length new = n \<and> distinct (map rm_source new)
        \<and> (\<forall>m \<in> set new. rm_account m = account \<and> rm_source m \<in> allowed - sources_in account t))"

lemma adds_none: "ra_messages t' = ra_messages t \<Longrightarrow> adds account allowed 0 t t'"
  by (simp add: adds_def)

lemma adds_trans:
  assumes "adds account a n t t'" "adds account b k t' t''"
  shows "adds account (a \<union> b) (n + k) t t''"
proof -
  obtain new where new: "ra_messages t' = ra_messages t @ new" "length new = n" "distinct (map rm_source new)"
    "\<And>m. m \<in> set new \<Longrightarrow> rm_account m = account \<and> rm_source m \<in> a - sources_in account t" using assms(1) by (auto simp: adds_def)
  obtain more where more: "ra_messages t'' = ra_messages t' @ more" "length more = k" "distinct (map rm_source more)"
    "\<And>m. m \<in> set more \<Longrightarrow> rm_account m = account \<and> rm_source m \<in> b - sources_in account t'" using assms(2) by (auto simp: adds_def)
  have "sources_in account t' = sources_in account t \<union> rm_source ` set new"
    using new(1,4) by (auto simp: sources_in_def)
  then have late: "rm_account m = account \<and> rm_source m \<in> b - sources_in account t - rm_source ` set new" if "m \<in> set more" for m
    using more(4) [OF that] by auto
  show ?thesis unfolding adds_def
  proof (intro exI [of _ "new @ more"] conjI ballI)
    show "ra_messages t'' = ra_messages t @ new @ more" "length (new @ more) = n + k"
      using new(1,2) more(1,2) by simp_all
    have "rm_source m \<notin> rm_source ` set new" if "m \<in> set more" for m using late [OF that] by simp
    then have "rm_source ` set more \<inter> rm_source ` set new = {}" unfolding disjoint_iff by (metis (no_types) imageE)
    then have "rm_source ` set new \<inter> rm_source ` set more = {}" by (simp add: Int_commute)
    then show "distinct (map rm_source (new @ more))" using new(3) more(3) by simp
    fix m assume "m \<in> set (new @ more)"
    then show "rm_account m = account" "rm_source m \<in> a \<union> b - sources_in account t" using new(4) late by auto
  qed
qed

lemma fresh_message_facts:
  "\<exists>ls'. map rm_source (fresh_messages account inbox sender contacts conversations ls) = map ml_source ls'
     \<and> set ls' \<subseteq> set ls \<and> (distinct (map ml_source ls) \<longrightarrow> distinct (map ml_source ls'))
     \<and> rm_account ` set (fresh_messages account inbox sender contacts conversations ls) \<subseteq> {account}"
proof (induction ls)
  case Nil
  then show ?case by (simp add: fresh_messages_def List.map_filter_def)
next
  case (Cons l ls)
  then obtain ls' where ls': "map rm_source (fresh_messages account inbox sender contacts conversations ls) = map ml_source ls'"
    "set ls' \<subseteq> set ls" "distinct (map ml_source ls) \<longrightarrow> distinct (map ml_source ls')"
    "rm_account ` set (fresh_messages account inbox sender contacts conversations ls) \<subseteq> {account}" by blast
  show ?case
  proof (cases "map_of conversations (ml_identifier l)")
    case None
    then have "fresh_messages account inbox sender contacts conversations (l # ls) = fresh_messages account inbox sender contacts conversations ls"
      by (simp add: fresh_messages_def List.map_filter_def)
    then show ?thesis using ls' by (intro exI [of _ ls']) auto
  next
    case (Some v)
    then have "fresh_messages account inbox sender contacts conversations (l # ls)
        = message_of_line account inbox sender (case map_of contacts (ml_identifier l) of None \<Rightarrow> 0 | Some c \<Rightarrow> c) v l
          # fresh_messages account inbox sender contacts conversations ls"
      by (simp add: fresh_messages_def List.map_filter_def)
    then show ?thesis using ls' by (intro exI [of _ "l # ls'"]) (auto simp: message_of_line_def)
  qed
qed

lemma query_read: "rails_query q d = (Inr x, d') \<Longrightarrow> x = q (rb_tables d')"
  by (auto simp: rails_query_def rails_run_def split: list.splits option.splits)

lemma existing_set: "set (existing_sources account ss t) = sources_in account t \<inter> set ss"
  by (auto simp: existing_sources_def sources_in_def)

lemma insert_adds:
  assumes "insert_messages fresh d = (r, d')" "calm_script d" "distinct (map rm_source fresh)"
    and "\<And>m. m \<in> set fresh \<Longrightarrow> rm_account m = account \<and> rm_source m \<in> allowed - sources_in account (rb_tables d)"
  shows "calm_script d' \<and> adds account allowed (case r of Inl _ \<Rightarrow> 0 | Inr n \<Rightarrow> n) (rb_tables d) (rb_tables d')"
proof (cases "fresh = []")
  case True
  then show ?thesis using assms(1,2) by (auto simp: insert_messages_def rails_return_def adds_none)
next
  case False
  have new: "adds account allowed (length fresh) (rb_tables d) t'"
    if "ra_messages t = ra_messages (rb_tables d)" "t' = t\<lparr>ra_messages := ra_messages t @ fresh\<rparr>" for t t'
    using that assms(3,4) by (simp add: adds_def)
  show ?thesis
  proof (cases "rb_script d")
    case Nil
    then show ?thesis using assms(1) False new by (auto simp: insert_messages_def rails_run_def calm_script_def)
  next
    case (Cons o1 rest)
    then show ?thesis using assms(1,2) False new
      by (cases o1) (auto simp: insert_messages_def rails_run_def calm_script_def intro: adds_none)
  qed
qed

lemma message_chunk_adds:
  assumes "import_message_chunk order account inbox sender chunk d = (r, d')" "calm_script d"
  shows "calm_script d' \<and> adds account (ml_source ` set chunk) (case r of Inl _ \<Rightarrow> 0 | Inr n \<Rightarrow> n) (rb_tables d) (rb_tables d')"
proof -
  have stop: "calm_script d1 \<and> adds account a 0 (rb_tables d) (rb_tables d1)" if "rails_kept d d1" for d1 a
    using that assms(2) by (simp add: rails_kept_def adds_none)
  show ?thesis using assms(1) unfolding import_message_chunk_def
  proof (cases rule: bind_cases)
    case (failed e)
    then show ?thesis using stop [OF kept_query] by simp
  next
    case (went existing d1)
    note q1 = went(1) and k1 = kept_query [OF went(1)]
    from went(2) show ?thesis
    proof (cases rule: bind_cases)
      case (failed e)
      then show ?thesis using stop [OF rails_kept_trans [OF k1 kept_homes]] by simp
    next
      case (went homes d2)
      obtain contacts conversations where h: "homes = (contacts, conversations)" by (cases homes)
      have k2: "rails_kept d d2" by (rule rails_kept_trans [OF k1 kept_homes [OF went(1)]])
      have m: "ra_messages (rb_tables d1) = ra_messages (rb_tables d)" "ra_messages (rb_tables d2) = ra_messages (rb_tables d)" "calm_script d2"
        using k1 k2 assms(2) by (simp_all add: rails_kept_def)
      have ex: "set existing = sources_in account (rb_tables d) \<inter> ml_source ` set chunk"
        using query_read [OF q1] m(1) existing_set [of account "map ml_source chunk" "rb_tables d1"] by (simp add: sources_in_def)
      let ?fresh = "fresh_messages account inbox sender contacts conversations (first_of_source (set existing) chunk)"
      obtain ls where ls: "map rm_source ?fresh = map ml_source ls" "set ls \<subseteq> set (first_of_source (set existing) chunk)"
          "distinct (map ml_source ls)" "rm_account ` set ?fresh \<subseteq> {account}"
        using fresh_message_facts [of account inbox sender contacts conversations "first_of_source (set existing) chunk"]
          first_of_source_facts [of "set existing" chunk] by auto
      have "rm_source ` set ?fresh = ml_source ` set ls" using arg_cong [OF ls(1), of set] by simp
      then have "rm_source ` set ?fresh \<subseteq> ml_source ` set chunk - set existing"
        using image_mono [OF ls(2), of ml_source] first_of_source_facts [of "set existing" chunk] by simp
      then have fresh: "rm_source ` set ?fresh \<subseteq> ml_source ` set chunk - sources_in account (rb_tables d)" unfolding ex by auto
      have "rm_account m = account \<and> rm_source m \<in> ml_source ` set chunk - sources_in account (rb_tables d)" if "m \<in> set ?fresh" for m
        using subsetD [OF fresh imageI [OF that]] subsetD [OF ls(4) imageI [OF that]] by simp
      then have src: "rm_account m = account \<and> rm_source m \<in> ml_source ` set chunk - sources_in account (rb_tables d2)" if "m \<in> set ?fresh" for m
        using that m(2) by (simp add: sources_in_def)
      have dist: "distinct (map rm_source ?fresh)" unfolding ls(1) by (rule ls(3))
      have ins: "insert_messages ?fresh d2 = (r, d')" using went(2) h by simp
      have "calm_script d' \<and> adds account (ml_source ` set chunk) (case r of Inl _ \<Rightarrow> 0 | Inr n \<Rightarrow> n) (rb_tables d2) (rb_tables d')"
        by (rule insert_adds [OF ins m(3) dist src])
      then show ?thesis using m(2) by (simp add: adds_def sources_in_def)
    qed
  qed
qed

lemma chunks_concat: "concat (chunks_of n xs) = xs"
proof (induction n xs rule: chunks_of.induct)
  case (2 n x xs)
  then show ?case by (simp add: append_take_drop_id)
qed simp

lemma chunk_length: "c \<in> set (chunks_of n xs) \<Longrightarrow> length c \<le> max 1 n"
  by (induction n xs rule: chunks_of.induct) auto

lemma message_chunks_add:
  assumes "import_message_chunks order account inbox sender cs n d = ((k, e), d')" "calm_script d"
  shows "n \<le> k \<and> calm_script d' \<and> adds account (ml_source ` set (concat cs)) (k - n) (rb_tables d) (rb_tables d')"
  using assms
proof (induction cs arbitrary: n d)
  case Nil
  then show ?case by (simp add: adds_none)
next
  case (Cons c cs)
  obtain r d1 where q: "import_message_chunk order account inbox sender c d = (r, d1)" by fastforce
  note one = message_chunk_adds [OF q Cons.prems(2)]
  show ?case
  proof (cases r)
    case (Inl x)
    then have "k = n" "d' = d1" using Cons.prems(1) q by simp_all
    then show ?thesis using one Inl by (auto simp: adds_def)
  next
    case (Inr j)
    then have "import_message_chunks order account inbox sender cs (n + j) d1 = ((k, e), d')" using Cons.prems(1) q by simp
    then have rest: "n + j \<le> k" "calm_script d'" "adds account (ml_source ` set (concat cs)) (k - (n + j)) (rb_tables d1) (rb_tables d')"
      using Cons.IH one by simp_all
    have "adds account (ml_source ` set c \<union> ml_source ` set (concat cs)) (j + (k - (n + j))) (rb_tables d) (rb_tables d')"
      using adds_trans [OF _ rest(3)] one Inr by simp
    moreover have "j + (k - (n + j)) = k - n" using rest(1) by simp
    ultimately show ?thesis using rest by (simp add: image_Un)
  qed
qed

definition history_sources :: "hist_message list \<Rightarrow> string set" where
  "history_sources msgs = (\<lambda>m. ''WAID:'' @ trim_space (hm_id m)) ` set msgs"

lemma normalized_sources: "ml_source ` set (normalize_messages now days newer placeholder msgs) \<subseteq> history_sources msgs"
  by (auto simp: normalize_messages_def history_sources_def List.map_filter_def normalize_message_def Let_def split: if_splits)


section \<open>A history of three messages\<close>

definition sample_rails :: rails where
  "sample_rails = \<lparr>ra_tokens = [(''tok'', 5)], ra_contacts = [], ra_labels = [], ra_tags = [], ra_taggings = [], ra_links = [],
     ra_conversations = [], ra_messages = [], ra_next = 1\<rparr>"

definition sample_history :: "hist_message list" where
  "sample_history =
     [\<lparr>hm_id = ''A1'', hm_chat = ''5511@s.whatsapp.net'', hm_sender = ''5511@s.whatsapp.net'', hm_from_me = False, hm_time = 7, hm_text = ''hi''\<rparr>,
      \<lparr>hm_id = ''A2'', hm_chat = ''5511@s.whatsapp.net'', hm_sender = ''5511@s.whatsapp.net'', hm_from_me = True, hm_time = 9, hm_text = ''hello''\<rparr>,
      \<lparr>hm_id = ''A1'', hm_chat = ''5511@s.whatsapp.net'', hm_sender = ''5511@s.whatsapp.net'', hm_from_me = False, hm_time = 7, hm_text = ''hi''\<rparr>]"

definition sample_messages_deps :: messages_deps where
  "sample_messages_deps = \<lparr>ms_account = ''3'', ms_token = ''tok'', ms_days = 0, ms_newer = zero_time, ms_placeholder = False\<rparr>"

lemma sample_account: "parse_int (trim_space (ms_account sample_messages_deps)) = Some 3"
  by code_simp

lemma sample_import:
  "fst (import_messages id 100 sample_messages_deps 2 sample_history \<lparr>rb_tables = sample_rails, rb_script = []\<rparr>) = (2, None)"
  by code_simp

lemma sample_failure:
  "fst (import_messages id 100 sample_messages_deps 2 sample_history
     \<lparr>rb_tables = sample_rails, rb_script = [Some (\<lambda>t. t), Some (\<lambda>t. t), None]\<rparr>) = (0, Some ImportDriver)"
  by code_simp


end
