(* ===== verification/ImportProgress.thy ===== *)
theory ImportProgress
  imports ImportSafety
begin

text \<open>
  An undisturbed import: it writes every new message of the history, and the second time it writes nothing.
\<close>

section \<open>Every step succeeds\<close>

lemma run_quiet [simp]:
  "rb_script d = [] \<Longrightarrow> rails_run stmt d = (case stmt (rb_tables d) of (r, t) \<Rightarrow> (r, d\<lparr>rb_tables := t\<rparr>))"
  by (simp add: rails_run_def)

definition smooth :: "rails_db \<Rightarrow> rails_db \<Rightarrow> bool" where
  "smooth d d' \<longleftrightarrow> rb_script d' = [] \<and> ra_messages (rb_tables d') = ra_messages (rb_tables d)"

lemma fold_max_bound: "(\<forall>x \<in> set xs. x \<le> fold max xs n) \<and> n \<le> fold max xs n" for n :: int
proof (induction xs arbitrary: n)
  case (Cons y ys)
  have "max y n \<le> fold max ys (max y n)" using Cons.IH by blast
  then show ?case using Cons.IH [of "max y n"] by simp
qed simp

lemma displays_bound: "x \<in> set xs \<union> {n} \<Longrightarrow> x \<le> fold max xs n" for n :: int
  using fold_max_bound [of xs n] by blast

lemma next_display_fresh: "v \<in> set (ra_conversations t) \<Longrightarrow> rv_account v = account \<Longrightarrow> rv_display v < next_display account t"
proof -
  assume "v \<in> set (ra_conversations t)" "rv_account v = account"
  then have "rv_display v \<in> set (map rv_display (filter (\<lambda>v. rv_account v = account) (ra_conversations t)))" by auto
  then show ?thesis using displays_bound [of "rv_display v"]
    by (cases "map rv_display (filter (\<lambda>v. rv_account v = account) (ra_conversations t))") (auto simp: next_display_def)
qed

lemma allocate_quiet:
  assumes "rb_script d = []"
  shows "\<exists>i d'. allocate_conversation left account inbox contact link d = (Inr i, d') \<and> smooth d d'"
proof -
  have "\<not> list_ex (\<lambda>v. rv_account v = account \<and> rv_display v = next_display account (rb_tables d)) (ra_conversations (rb_tables d))"
    using next_display_fresh [of _ "rb_tables d" account] by (fastforce simp: list_ex_iff)
  then show ?thesis using assms
    by (subst allocate_conversation.simps)
      (simp add: retry_unique_def rails_bind_def rails_query_def insert_conversation_def smooth_def)
qed

lemma conversation_quiet:
  assumes "rb_script d = []"
  shows "\<exists>i d'. ensure_conversation account inbox contact d = (Inr i, d') \<and> smooth d d'"
proof (cases "find_conversation account inbox contact (rb_tables d)")
  case (Some i)
  then show ?thesis using assms by (simp add: ensure_conversation_def rails_bind_def rails_query_def rails_return_def smooth_def)
next
  case None
  have "\<exists>link d1. ensure_link contact inbox d = (Inr link, d1) \<and> smooth d d1"
    using assms by (cases "link_ids contact inbox (rb_tables d)")
      (simp_all add: ensure_link_def insert_link_def rails_bind_def rails_query_def rails_return_def smooth_def)
  then obtain link d1 where link: "ensure_link contact inbox d = (Inr link, d1)" "smooth d d1" by blast
  have "rb_script d1 = []" using link(2) by (simp add: smooth_def)
  then obtain i d2 where "allocate_conversation (display_attempts - 1) account inbox contact link d1 = (Inr i, d2)" "smooth d1 d2"
    using allocate_quiet by blast
  then show ?thesis using assms None link
    by (simp add: ensure_conversation_def rails_bind_def rails_query_def smooth_def)
qed

lemma conversations_quiet:
  assumes "rb_script d = []"
  shows "\<exists>vs d'. ensure_conversations account inbox cs d = (Inr vs, d') \<and> smooth d d' \<and> map fst vs = map fst cs"
  using assms
proof (induction cs arbitrary: d)
  case Nil
  then show ?case by (simp add: rails_return_def smooth_def)
next
  case (Cons c cs)
  obtain i k where c: "c = (i, k)" by (cases c)
  obtain v d1 where v: "ensure_conversation account inbox k d = (Inr v, d1)" "smooth d d1" using conversation_quiet [OF Cons.prems] by blast
  then obtain vs d2 where "ensure_conversations account inbox cs d1 = (Inr vs, d2)" "smooth d1 d2" "map fst vs = map fst cs"
    using Cons.IH [of d1] by (auto simp: smooth_def)
  then show ?case using v by (simp add: c rails_bind_def rails_return_def smooth_def)
qed

lemma upsert_keeps:
  assumes "list_ex (same_contact account row) (ra_contacts t)"
  shows "list_ex (same_contact account row) (ra_contacts (upsert_contact account r t))"
proof (cases "list_ex (same_contact account r) (ra_contacts t)")
  case True
  let ?up = "\<lambda>c. if same_contact account r c then c\<lparr>rc_name := ci_name r, rc_phone := ci_phone r\<rparr> else c"
  obtain c where c: "c \<in> set (ra_contacts t)" "same_contact account row c" using assms by (auto simp: list_ex_iff)
  then have "same_contact account row (?up c)" by (simp add: same_contact_def)
  moreover have "?up c \<in> set (map ?up (ra_contacts t))" unfolding set_map using c(1) by (rule imageI)
  moreover have "ra_contacts (upsert_contact account r t) = map ?up (ra_contacts t)" using True by (simp add: upsert_contact_def)
  ultimately show ?thesis unfolding list_ex_iff by (intro bexI [of _ "?up c"]) (simp_all only:)
next
  case False
  then show ?thesis using assms by (simp add: upsert_contact_def)
qed

lemma upsert_places: "list_ex (same_contact account r) (ra_contacts (upsert_contact account r t))"
proof (cases "list_ex (same_contact account r) (ra_contacts t)")
  case True
  then show ?thesis by (rule upsert_keeps)
next
  case False
  then show ?thesis by (simp add: upsert_contact_def same_contact_def)
qed

lemma upserts_keep:
  "list_ex (same_contact account row) (ra_contacts t)
   \<Longrightarrow> list_ex (same_contact account row) (ra_contacts (fold (upsert_contact account) rows t))"
  by (induction rows arbitrary: t) (simp_all add: upsert_keeps)

lemma upserted: "row \<in> set rows \<Longrightarrow> list_ex (same_contact account row) (ra_contacts (fold (upsert_contact account) rows t))"
  by (induction rows arbitrary: t) (auto simp: upserts_keep upsert_places)

lemma contact_ids_found:
  assumes "list_ex (same_contact account row) (ra_contacts t)" "ci_identifier row \<in> set identifiers"
  shows "map_of (contact_ids account identifiers t) (ci_identifier row) \<noteq> None"
proof -
  obtain c where c: "c \<in> set (ra_contacts t)" "rc_account c = account" "rc_identifier c = ci_identifier row"
    using assms(1) by (auto simp: list_ex_iff same_contact_def)
  then have "c \<in> set (filter (\<lambda>c. rc_account c = account \<and> rc_identifier c \<in> set identifiers) (ra_contacts t))"
    using assms(2) by simp
  then have "(rc_identifier c, rc_id c) \<in> set (contact_ids account identifiers t)"
    unfolding contact_ids_def set_map by (rule imageI)
  then have "ci_identifier row \<in> fst ` set (contact_ids account identifiers t)" using c(3) by (metis fst_conv imageI)
  then show ?thesis by (simp add: map_of_eq_None_iff)
qed

lemma hosts_facts:
  "distinct (map fst (foldr (\<lambda>l hosts. (ml_identifier l, ml_host l) # filter (\<lambda>(i, _). i \<noteq> ml_identifier l) hosts) ls []))
   \<and> fst ` set (foldr (\<lambda>l hosts. (ml_identifier l, ml_host l) # filter (\<lambda>(i, _). i \<noteq> ml_identifier l) hosts) ls []) = ml_identifier ` set ls"
proof (induction ls)
  case (Cons l ls)
  then show ?case by (force simp: distinct_map inj_on_def)
qed simp

lemma missing_facts:
  "distinct (map ci_identifier (missing_authors ls contacts))
   \<and> ci_identifier ` set (missing_authors ls contacts) = {i \<in> ml_identifier ` set ls. map_of contacts i = None}"
proof -
  let ?hosts = "foldr (\<lambda>l hosts. (ml_identifier l, ml_host l) # filter (\<lambda>(i, _). i \<noteq> ml_identifier l) hosts) ls []"
  let ?kept = "filter (\<lambda>(i, _). map_of contacts i = None) ?hosts"
  have ids: "map ci_identifier (missing_authors ls contacts) = map fst (sort_key fst ?kept)"
    by (simp add: missing_authors_def contact_row_of_def case_prod_unfold comp_def)
  have "distinct (map fst ?kept)" using hosts_facts [of ls] by (meson distinct_map_filter)
  then have d: "distinct (map fst (sort_key fst ?kept))"
    by (metis (no_types, lifting) distinct_map distinct_sort set_sort)
  have "fst ` set (sort_key fst ?kept) = {i \<in> fst ` set ?hosts. map_of contacts i = None}" by force
  then have "ci_identifier ` set (missing_authors ls contacts) = {i \<in> ml_identifier ` set ls. map_of contacts i = None}"
    using hosts_facts [of ls] arg_cong [OF ids, of set] by simp
  then show ?thesis using d unfolding ids by simp
qed

lemma map_of_filtered: "map_of xs i = Some k \<Longrightarrow> P i \<Longrightarrow> map_of (filter (\<lambda>(i, _). P i) xs) i = Some k"
  by (induction xs) (auto split: if_splits)

lemma message_contacts_quiet:
  assumes "rb_script d = []"
  shows "\<exists>cs d'. ensure_message_contacts account ls contacts d = (Inr cs, d') \<and> smooth d d'
    \<and> ml_identifier ` set ls \<subseteq> dom (map_of cs)"
proof (cases "missing_authors ls contacts = []")
  case True
  then have "ml_identifier ` set ls \<subseteq> dom (map_of contacts)" using missing_facts [of ls contacts] by auto
  then show ?thesis using True assms by (simp add: ensure_message_contacts_def rails_return_def smooth_def)
next
  case False
  let ?missing = "missing_authors ls contacts"
  let ?t = "fold (upsert_contact account) ?missing (rb_tables d)"
  let ?found = "contact_ids account (map ci_identifier ?missing) ?t"
  have chunk: "import_contact_chunk account None ?missing d = (Inr (), d\<lparr>rb_tables := ?t\<rparr>)"
    using assms missing_facts [of ls contacts] by (simp add: import_contact_chunk_def Let_def)
  have "ra_messages ?t = ra_messages (rb_tables d)" by (rule messages.h_fold) (simp add: upsert_contact_def)
  then have s: "smooth d (d\<lparr>rb_tables := ?t\<rparr>)" using assms by (simp add: smooth_def)
  have found: "map_of ?found (ci_identifier row) \<noteq> None" if "row \<in> set ?missing" for row
    using contact_ids_found [OF upserted [OF that]] that by simp
  have "map_of (?found @ filter (\<lambda>(i, _). map_of ?found i = None) contacts) i \<noteq> None" if "i \<in> ml_identifier ` set ls" for i
  proof (cases "map_of ?found i")
    case None
    have "i \<notin> ci_identifier ` set ?missing"
    proof
      assume "i \<in> ci_identifier ` set ?missing"
      then obtain row where "row \<in> set ?missing" "i = ci_identifier row" by (rule imageE)
      then show False using found [of row] None by simp
    qed
    then have "i \<notin> {i \<in> ml_identifier ` set ls. map_of contacts i = None}" unfolding missing_facts [THEN conjunct2] .
    then have "map_of contacts i \<noteq> None" using that by simp
    then obtain k where "map_of contacts i = Some k" by blast
    then have "map_of (filter (\<lambda>(i, _). map_of ?found i = None) contacts) i = Some k" using None by (rule map_of_filtered)
    then show ?thesis by (simp add: map_add_def None)
  qed (simp add: map_add_def)
  then have "ml_identifier ` set ls \<subseteq> dom (map_of (?found @ filter (\<lambda>(i, _). map_of ?found i = None) contacts))" by blast
  moreover have "ensure_message_contacts account ls contacts d
      = (Inr (?found @ filter (\<lambda>(i, _). map_of ?found i = None) contacts), d\<lparr>rb_tables := ?t\<rparr>)"
    using False assms chunk
    by (simp add: ensure_message_contacts_def Let_def rails_bind_def query_contacts_def rails_query_def rails_return_def)
  ultimately show ?thesis using s by (intro exI conjI)
qed

lemma fresh_messages_all:
  assumes "ml_identifier ` set ls \<subseteq> dom (map_of conversations)"
  shows "map rm_source (fresh_messages account inbox sender contacts conversations ls) = map ml_source ls"
  using assms by (induction ls) (auto simp: fresh_messages_def List.map_filter_def message_of_line_def)

text \<open>The walk over the map visits each of its entries.\<close>

definition walks :: "((string \<times> int) list \<Rightarrow> (string \<times> int) list) \<Rightarrow> bool" where
  "walks order \<longleftrightarrow> (\<forall>cs. set (order cs) = set cs)"

lemma message_chunk_quiet:
  assumes "rb_script d = []" "walks order"
  shows "\<exists>new d'. import_message_chunk order account inbox sender chunk d = (Inr (length new), d') \<and> rb_script d' = []
    \<and> ra_messages (rb_tables d') = ra_messages (rb_tables d) @ new
    \<and> map rm_source new = map ml_source (first_of_source (sources_in account (rb_tables d) \<inter> ml_source ` set chunk) chunk)
    \<and> rm_account ` set new \<subseteq> {account}"
proof -
  let ?existing = "existing_sources account (map ml_source chunk) (rb_tables d)"
  let ?ls = "new_lines ?existing chunk"
  obtain known where known: "query_contacts account (map ml_identifier ?ls) d = (Inr known, d)"
    using assms(1) by (cases "?ls = []") (simp_all add: query_contacts_def rails_query_def rails_return_def)
  obtain contacts d2 where c: "ensure_message_contacts account ?ls known d = (Inr contacts, d2)" "smooth d d2"
      "ml_identifier ` set ?ls \<subseteq> dom (map_of contacts)"
    using message_contacts_quiet [OF assms(1)] by meson
  obtain conversations d3 where v: "ensure_conversations account inbox (order contacts) d2 = (Inr conversations, d3)" "smooth d2 d3"
      "map fst conversations = map fst (order contacts)"
    using conversations_quiet [of d2] c(2) unfolding smooth_def by meson
  have "fst ` set conversations = fst ` set contacts"
    using arg_cong [OF v(3), of set] assms(2) by (simp add: walks_def)
  then have homes: "dom (map_of conversations) = dom (map_of contacts)" by (simp add: dom_map_of_conv_image_fst)
  let ?first = "first_of_source (set ?existing) chunk"
  let ?fresh = "fresh_messages account inbox sender contacts conversations ?first"
  have "ml_identifier ` set ?first \<subseteq> ml_identifier ` set ?ls"
  proof -
    have "set ?first \<subseteq> set ?ls" using first_of_source_facts [of "set ?existing" chunk] unfolding new_lines_def by auto
    then show ?thesis by blast
  qed
  then have src: "map rm_source ?fresh = map ml_source ?first" using c(3) homes by (intro fresh_messages_all) blast
  have acct: "rm_account ` set ?fresh \<subseteq> {account}" using fresh_message_facts by meson
  have q: "rails_query (existing_sources account (map ml_source chunk)) d = (Inr ?existing, d)"
    using assms(1) by (simp add: rails_query_def)
  have h: "ensure_homes order account inbox ?ls d = (Inr (contacts, conversations), d3)"
    using known c(1) v(1) by (simp add: ensure_homes_def rails_bind_def rails_return_def)
  have i: "insert_messages ?fresh d3 = (Inr (length ?fresh), d3\<lparr>rb_tables := (rb_tables d3)\<lparr>ra_messages := ra_messages (rb_tables d3) @ ?fresh\<rparr>\<rparr>)"
    using v(2) by (simp add: insert_messages_def rails_return_def smooth_def)
  show ?thesis
    using c(2) v(2) src acct q h i existing_set [of account "map ml_source chunk" "rb_tables d"]
    by (intro exI [of _ ?fresh]) (simp add: import_message_chunk_def rails_bind_def smooth_def)
qed

lemma sources_after:
  assumes "ra_messages t' = ra_messages t @ new" "rm_account ` set new \<subseteq> {account}"
  shows "sources_in account t' = sources_in account t \<union> rm_source ` set new"
  using assms by (auto simp: sources_in_def)

lemma message_chunks_quiet:
  assumes "rb_script d = []" "walks order"
  shows "\<exists>new d'. import_message_chunks order account inbox sender cs n d = ((n + length new, None), d') \<and> rb_script d' = []
    \<and> ra_messages (rb_tables d') = ra_messages (rb_tables d) @ new \<and> rm_account ` set new \<subseteq> {account}
    \<and> rm_source ` set new = ml_source ` set (concat cs) - sources_in account (rb_tables d)"
  using assms(1)
proof (induction cs arbitrary: n d)
  case Nil
  then show ?case by simp
next
  case (Cons c cs)
  obtain one d1 where one: "import_message_chunk order account inbox sender c d = (Inr (length one), d1)" "rb_script d1 = []"
      "ra_messages (rb_tables d1) = ra_messages (rb_tables d) @ one" "rm_account ` set one \<subseteq> {account}"
      "map rm_source one = map ml_source (first_of_source (sources_in account (rb_tables d) \<inter> ml_source ` set c) c)"
    using message_chunk_quiet [OF Cons.prems assms(2)] by blast
  obtain more d2 where more: "import_message_chunks order account inbox sender cs (n + length one) d1 = ((n + length one + length more, None), d2)"
      "rb_script d2 = []" "ra_messages (rb_tables d2) = ra_messages (rb_tables d1) @ more" "rm_account ` set more \<subseteq> {account}"
      "rm_source ` set more = ml_source ` set (concat cs) - sources_in account (rb_tables d1)"
    using Cons.IH [OF one(2), of "n + length one"] by blast
  have src: "rm_source ` set one = ml_source ` set c - sources_in account (rb_tables d)"
    using arg_cong [OF one(5), of set] first_of_source_facts [of "sources_in account (rb_tables d) \<inter> ml_source ` set c" c] by auto
  have "rm_source ` set (one @ more) = ml_source ` set (concat (c # cs)) - sources_in account (rb_tables d)"
    using src more(5) sources_after [OF one(3,4)] by (auto simp: image_Un)
  then show ?case using one more by (intro exI [of _ "one @ more"] exI [of _ d2]) (simp add: add.assoc image_Un)
qed

lemma import_messages_quiet:
  assumes "rb_script d = []" "walks order" "parse_int (trim_space (ms_account deps)) = Some account"
  shows "\<exists>new d'. import_messages order now deps inbox msgs d = ((length new, None), d') \<and> rb_script d' = []
    \<and> ra_messages (rb_tables d') = ra_messages (rb_tables d) @ new \<and> rm_account ` set new \<subseteq> {account}
    \<and> rm_source ` set new = ml_source ` set (normalize_messages now (ms_days deps) (ms_newer deps) (ms_placeholder deps) msgs)
        - sources_in account (rb_tables d)"
proof -
  let ?ls = "normalize_messages now (ms_days deps) (ms_newer deps) (ms_placeholder deps) msgs"
  have none: ?thesis if "?ls = []"
    using that assms by (intro exI [of _ "[]"] exI [of _ d]) (simp add: import_messages_def)
  have token: "lookup_token_owner s d = (Inr (map_option snd (find (\<lambda>(k, _). k = s) (ra_tokens (rb_tables d)))), d)" for s
    using assms(1) by (simp add: lookup_token_owner_def rails_query_def)
  let ?owner = "if trim_space (ms_token deps) = [] then None
      else map_option snd (find (\<lambda>(k, _). k = trim_space (ms_token deps)) (ra_tokens (rb_tables d)))"
  have "import_messages order now deps inbox msgs d
      = import_message_chunks order account inbox ?owner (chunks_of message_chunk_size ?ls) 0 d" if "?ls \<noteq> []"
    using that assms(3) token by (simp add: import_messages_def Let_def)
  then show ?thesis using none
      message_chunks_quiet [OF assms(1,2), of account inbox ?owner "chunks_of message_chunk_size ?ls" 0]
    by (cases "?ls = []") (simp_all add: chunks_concat)
qed



end
