(* ===== verification/ImportContacts.thy ===== *)
theory ImportContacts
  imports ImportProgress
begin

text \<open>
  The contacts of an undisturbed import: the normalized rows have distinct identifiers, so no chunk conflicts and the import succeeds.
\<close>

section \<open>Contacts of an undisturbed import\<close>

lemma placed_rows:
  "distinct (map ci_identifier rows) \<Longrightarrow> distinct (map ci_identifier (place_row row rows))
    \<and> ci_identifier ` set (place_row row rows) = insert (ci_identifier row) (ci_identifier ` set rows)"
  by (induction rows) auto

lemma normalized_contacts_distinct: "distinct (map ci_identifier (normalize_contacts cs))"
proof -
  have "distinct (map ci_identifier (fold normalize_contact cs rows))" if "distinct (map ci_identifier rows)" for rows
    using that
  proof (induction cs arbitrary: rows)
    case (Cons c cs)
    have "distinct (map ci_identifier (normalize_contact c rows))"
      using placed_rows [OF Cons.prems] Cons.prems by (simp add: normalize_contact_def Let_def split: prod.splits)
    then show ?case using Cons.IH by simp
  qed simp
  then show ?thesis by (simp add: normalize_contacts_def)
qed

lemma distinct_part: "distinct (map f (concat cs)) \<Longrightarrow> c \<in> set cs \<Longrightarrow> distinct (map f c)"
  by (induction cs) auto

lemma contact_chunk_quiet:
  assumes "rb_script d = []" "distinct (map ci_identifier chunk)"
  shows "\<exists>d'. import_contact_chunk account tag chunk d = (Inr (), d') \<and> smooth d d'"
proof -
  obtain r d' where c: "import_contact_chunk account tag chunk d = (r, d')" by fastforce
  then have "rails_kept d d'" by (rule kept_contact_chunk)
  moreover have "r = Inr () \<and> rb_script d' = []"
    using c assms by (auto simp: import_contact_chunk_def Let_def)
  ultimately show ?thesis using c assms(1) by (simp add: smooth_def rails_kept_def calm_script_def)
qed

lemma contact_chunks_quiet:
  assumes "rb_script d = []" "\<And>c. c \<in> set cs \<Longrightarrow> distinct (map ci_identifier c)"
  shows "\<exists>k d'. import_contact_chunks account tag cs n d = ((k, None), d') \<and> smooth d d'"
  using assms
proof (induction cs arbitrary: n d)
  case Nil
  then show ?case by (simp add: smooth_def)
next
  case (Cons c cs)
  obtain d1 where one: "import_contact_chunk account tag c d = (Inr (), d1)" "smooth d d1"
    using contact_chunk_quiet [OF Cons.prems(1) Cons.prems(2) [of c], of account tag] by auto
  then obtain k d2 where "import_contact_chunks account tag cs (n + length c) d1 = ((k, None), d2)" "smooth d1 d2"
    using Cons.IH [of d1] Cons.prems(2) unfolding smooth_def by (metis list.set_intros(2))
  then show ?case using one by (simp add: smooth_def)
qed

lemma tag_quiet:
  assumes "rb_script d = []"
  shows "\<exists>g d'. ensure_tag name d = (Inr g, d') \<and> smooth d d'"
proof (cases "find_tag name (rb_tables d)")
  case None
  then have "find_tag name ((rb_tables d)\<lparr>ra_tags := ra_tags (rb_tables d) @ [(ra_next (rb_tables d), name)],
      ra_next := ra_next (rb_tables d) + 1\<rparr>) = Some (ra_next (rb_tables d))"
    by (induction "ra_tags (rb_tables d)") (auto simp: find_tag_def find_append)
  then show ?thesis using assms None by (simp add: ensure_tag_def rails_bind_def smooth_def)
next
  case (Some i)
  then show ?thesis using assms by (simp add: ensure_tag_def rails_bind_def smooth_def)
qed

lemma import_contacts_quiet:
  assumes "rb_script d = []" "parse_int (trim_space acct) = Some account"
  shows "\<exists>k d'. import_contacts acct inbox cs d = ((k, None), d') \<and> smooth d d'"
proof -
  let ?chunks = "chunks_of contact_chunk_size (normalize_contacts cs)"
  have d: "distinct (map ci_identifier c)" if "c \<in> set ?chunks" for c
    by (rule distinct_part [OF _ that]) (simp add: chunks_concat normalized_contacts_distinct)
  have run: "\<exists>k d'. import_contact_chunks account tag ?chunks 0 d1 = ((k, None), d') \<and> smooth d1 d'" if "rb_script d1 = []" for tag d1
    by (rule contact_chunks_quiet [OF that d])
  consider (none) "normalize_contacts cs = []" | (untagged) "normalize_contacts cs \<noteq> []" "trim_space inbox = []"
    | (tagged) "normalize_contacts cs \<noteq> []" "trim_space inbox \<noteq> []" by blast
  then show ?thesis
  proof cases
    case none
    then show ?thesis using assms by (simp add: import_contacts_def smooth_def)
  next
    case untagged
    then show ?thesis using assms run [of d None] by (simp add: import_contacts_def Let_def)
  next
    case tagged
    obtain d1 where l: "ensure_label account (trim_space inbox) d = (Inr (), d1)" "smooth d d1"
      using assms(1) by (auto simp: ensure_label_def smooth_def)
    obtain g d2 where g: "ensure_tag (trim_space inbox) d1 = (Inr g, d2)" "smooth d1 d2"
      using tag_quiet [of d1] l(2) unfolding smooth_def by blast
    have "rb_script d2 = []" using g(2) by (simp add: smooth_def)
    then obtain k d3 where "import_contact_chunks account (Some g) ?chunks 0 d2 = ((k, None), d3)" "smooth d2 d3"
      using run by blast
    then show ?thesis using tagged assms l g by (simp add: import_contacts_def Let_def smooth_def)
  qed
qed

end
