(* ===== verification/ImportRun.thy ===== *)
theory ImportRun
  imports ImportContacts ChatwootWiring Paging
begin

text \<open>
  The runs of the history import: one run over the feed of a connection, \<^verbatim>\<open>internal/chatwoot/import/run.go\<close>, the triggers
  that lead to it, \<^verbatim>\<open>chatwootHistoryImporter\<close> of \<^verbatim>\<open>cmd/wzap/main.go\<close>, and a cycle of the cron,
  \<^verbatim>\<open>internal/chatwoot/import/scheduler.go\<close>. What the session observes while a run writes is in the environment.
\<close>

section \<open>The world of a run\<close>

record 's import_world =
  iw_db :: cw_db
  iw_net :: "'s cw_world"
  iw_rails :: rails_db
  iw_feeds :: "uuid \<Rightarrow> hist_feed option"
  iw_notices :: "(uuid \<times> string) list"
  iw_cleared :: "uuid list"
  iw_tick :: nat

text \<open>
  \<open>ie_feeding\<close> are the chunks a session observes while its run writes, \<open>ie_waits\<close> whether the wait for the lock of a
  connection ends before its context, \<open>ie_pool\<close> whether the import database is configured.
\<close>

record 's import_env =
  ie_net :: "'s cw_net"
  ie_order :: "(string \<times> int) list \<Rightarrow> (string \<times> int) list"
  ie_clock :: "nat \<Rightarrow> instant"
  ie_pool :: bool
  ie_waits :: "uuid \<Rightarrow> bool"
  ie_cancelled :: bool
  ie_notify :: bool
  ie_placeholder :: bool
  ie_feeding :: "uuid \<Rightarrow> (instant \<times> hist_chunk) list"

datatype run_err =
    RunLock | RunCancelled | RunStorage storage_err | RunNoSession | RunNoFeed | RunNoInbox | RunInboxes client_err | RunImport import_err

section \<open>One run\<close>

definition resolve_import_inbox :: "'s import_env \<Rightarrow> chatwoot_config \<Rightarrow> 's import_world \<Rightarrow> (run_err + int) \<times> 's import_world" where
  "resolve_import_inbox e cfg w =
     (let want = trim_space (cg_name_inbox cfg) in
      if want = [] then (Inl RunNoInbox, w)
      else (case list_inboxes (ie_net e) (config_client cfg) (iw_net w) of
        (Inl x, n) \<Rightarrow> (Inl (RunInboxes x), w\<lparr>iw_net := n\<rparr>)
      | (Inr inboxes, n) \<Rightarrow>
          (case find (\<lambda>ix. ix_name ix = want) inboxes of
             None \<Rightarrow> Inl RunNoInbox | Some ix \<Rightarrow> Inr (ix_id ix), w\<lparr>iw_net := n\<rparr>)))"

definition post_import_notice :: "'s import_env \<Rightarrow> uuid \<Rightarrow> string \<Rightarrow> 's import_world \<Rightarrow> 's import_world" where
  "post_import_notice e i s w = (if ie_notify e then w\<lparr>iw_notices := iw_notices w @ [(i, s)]\<rparr> else w)"

definition import_started :: string where
  "import_started = [CHR 0xE2, CHR 0x8F, CHR 0xB3] @ '' Importa'' @ [CHR 0xC3, CHR 0xA7, CHR 0xC3, CHR 0xA3] @ ''o do hist''
     @ [CHR 0xC3, CHR 0xB3] @ ''rico iniciada. Isso pode levar alguns minutos.''"

definition import_finished :: "nat \<Rightarrow> string" where
  "import_finished n = [CHR 0xE2, CHR 0x9C, CHR 0x85] @ '' Importa'' @ [CHR 0xC3, CHR 0xA7, CHR 0xC3, CHR 0xA3] @ ''o do hist''
     @ [CHR 0xC3, CHR 0xB3] @ ''rico conclu'' @ [CHR 0xC3, CHR 0xAD] @ ''da: '' @ show_int (int n) @ '' mensagem(ns) importada(s).''"

definition on_feed :: "uuid \<Rightarrow> (hist_feed \<Rightarrow> hist_feed) \<Rightarrow> 's import_world \<Rightarrow> 's import_world" where
  "on_feed i f w = w\<lparr>iw_feeds := (iw_feeds w)(i := map_option f (iw_feeds w i))\<rparr>"

text \<open>The chunks that come in while the run writes.\<close>

definition feed_meanwhile :: "'s import_env \<Rightarrow> uuid \<Rightarrow> hist_feed \<Rightarrow> hist_feed" where
  "feed_meanwhile e i = fold (\<lambda>(t, x). feed_observe t x) (ie_feeding e i)"

definition write_contacts :: "chatwoot_config \<Rightarrow> hist_snapshot \<Rightarrow> 's import_world \<Rightarrow> import_err option \<times> 's import_world" where
  "write_contacts cfg snap w =
     (if \<not> cg_import_contacts cfg then (None, w)
      else (case import_contacts (cg_account cfg) (cg_name_inbox cfg) (hn_contacts snap) (iw_rails w) of
        ((_, x), d) \<Rightarrow> (x, w\<lparr>iw_rails := d\<rparr>)))"

definition write_messages :: "'s import_env \<Rightarrow> chatwoot_config \<Rightarrow> instant \<Rightarrow> int \<Rightarrow> hist_snapshot \<Rightarrow> 's import_world
      \<Rightarrow> (nat \<times> import_err option) \<times> 's import_world" where
  "write_messages e cfg newer inbox snap w =
     (if \<not> cg_import_messages cfg then ((0, None), w)
      else (case import_messages (ie_order e) (ie_clock e (iw_tick w))
          \<lparr>ms_account = cg_account cfg, ms_token = cg_token cfg, ms_days = cg_days_limit cfg, ms_newer = newer,
             ms_placeholder = ie_placeholder e\<rparr>
          inbox (concat (map hc_messages (hn_conversations snap))) (iw_rails w) of
        (r, d) \<Rightarrow> (r, w\<lparr>iw_rails := d, iw_tick := Suc (iw_tick w)\<rparr>)))"

definition write_snapshot :: "'s import_env \<Rightarrow> chatwoot_config \<Rightarrow> instant \<Rightarrow> int \<Rightarrow> hist_snapshot \<Rightarrow> 's import_world
      \<Rightarrow> (nat \<times> import_err option) \<times> 's import_world" where
  "write_snapshot e cfg newer inbox snap w =
     (case write_contacts cfg snap w of
        (Some x, w) \<Rightarrow> ((0, Some x), w)
      | (None, w) \<Rightarrow> write_messages e cfg newer inbox snap w)"

text \<open>The writes, and the feed that is cleared only after all of them.\<close>

definition import_snapshot :: "'s import_env \<Rightarrow> chatwoot_config \<Rightarrow> uuid \<Rightarrow> instant \<Rightarrow> int \<Rightarrow> hist_feed \<Rightarrow> 's import_world
      \<Rightarrow> (nat \<times> run_err option) \<times> 's import_world" where
  "import_snapshot e cfg i newer inbox feed w =
     (case write_snapshot e cfg newer inbox (feed_snapshot feed) w of
        ((n, Some x), w) \<Rightarrow> ((n, Some (RunImport x)), on_feed i (feed_meanwhile e i) w)
      | ((n, None), w) \<Rightarrow>
          ((n, None), post_import_notice e i (import_finished n) (on_feed i feed_reset (on_feed i (feed_meanwhile e i) w))))"

definition run_import :: "'s import_env \<Rightarrow> chatwoot_config \<Rightarrow> uuid \<Rightarrow> instant \<Rightarrow> 's import_world
      \<Rightarrow> (nat \<times> run_err option) \<times> 's import_world" where
  "run_import e cfg i newer w =
     (if \<not> ie_pool e then ((0, None), w)
      else if ie_cancelled e then ((0, Some RunCancelled), w)
      else if \<not> cg_import_contacts cfg \<and> \<not> cg_import_messages cfg then ((0, None), w)
      else (case iw_feeds w i of
        None \<Rightarrow> ((0, Some RunNoFeed), w)
      | Some feed \<Rightarrow>
          (case resolve_import_inbox e cfg w of
             (Inl x, w) \<Rightarrow> ((0, Some x), w)
           | (Inr inbox, w) \<Rightarrow> import_snapshot e cfg i newer inbox feed (post_import_notice e i import_started w))))"

section \<open>The triggers\<close>

definition on_store :: "(cw_db \<Rightarrow> 'a \<times> cw_db) \<Rightarrow> 's import_world \<Rightarrow> 'a \<times> 's import_world" where
  "on_store op w = (case op (iw_db w) of (r, d) \<Rightarrow> (r, w\<lparr>iw_db := d\<rparr>))"

text \<open>\<open>newer\<close> is \<open>zero_time\<close> for the manual import and the one after a pairing.\<close>

definition importer_run :: "'s import_env \<Rightarrow> uuid \<Rightarrow> instant \<Rightarrow> 's import_world \<Rightarrow> (nat \<times> run_err option) \<times> 's import_world" where
  "importer_run e i newer w =
     (if \<not> ie_waits e i then ((0, Some RunLock), w)
      else if \<not> ie_pool e then ((0, None), w)
      else (case on_store (configs_get i) w of
        (Inl x, w) \<Rightarrow> ((0, Some (RunStorage x)), w)
      | (Inr cfg, w) \<Rightarrow>
          if \<not> cg_enabled cfg then ((0, None), w)
          else if iw_feeds w i = None then ((0, Some RunNoSession), w)
          else run_import e cfg i newer w))"

definition import_history :: "'s import_env \<Rightarrow> uuid \<Rightarrow> 's import_world \<Rightarrow> (nat \<times> run_err option) \<times> 's import_world" where
  "import_history e i = importer_run e i zero_time"

section \<open>The cron\<close>

definition lost_window :: duration where "lost_window = 6 * 60 * minute"

definition sync_page_limit :: int where "sync_page_limit = 100"

text \<open>\<^verbatim>\<open>syncInstance\<close>; None for a connection that is skipped or fails.\<close>

definition sync_instance :: "'s import_env \<Rightarrow> uuid \<Rightarrow> instant \<Rightarrow> 's import_world \<Rightarrow> nat option \<times> 's import_world" where
  "sync_instance e i since w =
     (case on_store (configs_get i) w of
        (Inl _, w) \<Rightarrow> (None, w)
      | (Inr cfg, w) \<Rightarrow>
          if \<not> cg_enabled cfg \<or> \<not> cg_import_messages cfg then (None, w)
          else if iw_feeds w i = None then (None, w)
          else (case importer_run e i since w of
            ((_, Some _), w) \<Rightarrow> (None, w)
          | ((n, None), w) \<Rightarrow> (Some n, if 0 < n then w\<lparr>iw_cleared := iw_cleared w @ [i]\<rparr> else w)))"

fun sync_page :: "'s import_env \<Rightarrow> instant \<Rightarrow> uuid list \<Rightarrow> nat \<Rightarrow> 's import_world \<Rightarrow> nat \<times> 's import_world" where
  "sync_page e since [] n w = (n, w)"
| "sync_page e since (i # is) n w =
     (case sync_instance e i since w of (r, w) \<Rightarrow> sync_page e since is (n + (case r of None \<Rightarrow> 0 | Some k \<Rightarrow> k)) w)"

definition cw_instances_list ::
    "(string \<Rightarrow> uuid option) \<Rightarrow> (uuid \<Rightarrow> string) \<Rightarrow> int \<Rightarrow> string \<Rightarrow> cw_db \<Rightarrow> (wa_instance list \<times> string) result \<times> cw_db" where
  "cw_instances_list parse_id show_id limit cursor d =
     (case instances_list parse_id show_id limit cursor (cd_base d) of (r, b) \<Rightarrow> (r, d\<lparr>cd_base := b\<rparr>))"

text \<open>
  The pages of a cycle, with the sum so far; None is out of fuel. One more than there are rows is enough, see
  \<open>a_cycle_visits_every_connection\<close>.
\<close>

fun sync_pages :: "'s import_env \<Rightarrow> (string \<Rightarrow> uuid option) \<Rightarrow> (uuid \<Rightarrow> string) \<Rightarrow> instant \<Rightarrow> nat \<Rightarrow> string \<Rightarrow> nat \<Rightarrow> 's import_world
      \<Rightarrow> (nat \<times> storage_err option) option \<times> 's import_world" where
  "sync_pages e parse_id show_id since 0 cursor n w = (None, w)"
| "sync_pages e parse_id show_id since (Suc fuel) cursor n w =
     (case on_store (cw_instances_list parse_id show_id sync_page_limit cursor) w of
        (Inl x, w) \<Rightarrow> (Some (n, Some x), w)
      | (Inr (page, next), w) \<Rightarrow>
          (case sync_page e since (map inst_id page) n w of
             (n, w) \<Rightarrow> if next = [] then (Some (n, None), w) else sync_pages e parse_id show_id since fuel next n w))"

definition run_once :: "'s import_env \<Rightarrow> (string \<Rightarrow> uuid option) \<Rightarrow> (uuid \<Rightarrow> string) \<Rightarrow> 's import_world
      \<Rightarrow> (nat \<times> storage_err option) option \<times> 's import_world" where
  "run_once e parse_id show_id w =
     sync_pages e parse_id show_id (ie_clock e (iw_tick w) - lost_window) (Suc (length (t_instances (cd_base (iw_db w))))) [] 0
       (w\<lparr>iw_tick := Suc (iw_tick w)\<rparr>)"

section \<open>What a run does to the feeds\<close>

lemma feed_simps [simp]:
  "iw_feeds (post_import_notice e i s w) = iw_feeds w"
  "iw_rails (post_import_notice e i s w) = iw_rails w" "iw_rails (on_feed i f w) = iw_rails w"
  "iw_db (post_import_notice e i s w) = iw_db w" "iw_db (on_feed i f w) = iw_db w"
  "iw_tick (post_import_notice e i s w) = iw_tick w" "iw_tick (on_feed i f w) = iw_tick w"
  "iw_feeds (on_feed i f w) j = (if j = i then map_option f (iw_feeds w j) else iw_feeds w j)"
  by (simp_all add: post_import_notice_def on_feed_def)

lemma resolve_inbox_keeps:
  "resolve_import_inbox e cfg w = (r, w') \<Longrightarrow>
    iw_feeds w' = iw_feeds w \<and> iw_db w' = iw_db w \<and> iw_rails w' = iw_rails w \<and> iw_tick w' = iw_tick w"
  by (auto simp: resolve_import_inbox_def Let_def split: if_splits prod.splits sum.splits option.splits)

lemma write_snapshot_keeps:
  "write_snapshot e cfg newer inbox snap w = (r, w') \<Longrightarrow> iw_feeds w' = iw_feeds w \<and> iw_db w' = iw_db w"
  by (auto simp: write_snapshot_def write_contacts_def write_messages_def split: if_splits prod.splits option.splits)

text \<open>The feed of the connection as a run leaves it.\<close>

definition feed_after :: "'s import_env \<Rightarrow> uuid \<Rightarrow> run_err option \<Rightarrow> 's import_world \<Rightarrow> 's import_world \<Rightarrow> bool" where
  "feed_after e i err w w' \<longleftrightarrow> iw_feeds w' i = iw_feeds w i
     \<or> (if err = None then iw_feeds w' i = Some empty_feed else iw_feeds w' i = map_option (feed_meanwhile e i) (iw_feeds w i))"

lemma import_snapshot_feeds:
  assumes "import_snapshot e cfg i newer inbox feed w = ((n, err), w')" "iw_feeds w i \<noteq> None"
  shows "feed_after e i err w w' \<and> (\<forall>j. j \<noteq> i \<longrightarrow> iw_feeds w' j = iw_feeds w j) \<and> iw_db w' = iw_db w"
proof -
  obtain m x w1 where s: "write_snapshot e cfg newer inbox (feed_snapshot feed) w = ((m, x), w1)" by (metis surj_pair)
  note keeps = write_snapshot_keeps [OF s]
  show ?thesis
  proof (cases x)
    case None
    then have "err = None" "w' = post_import_notice e i (import_finished m) (on_feed i feed_reset (on_feed i (feed_meanwhile e i) w1))"
      using assms(1) s by (auto simp: import_snapshot_def)
    then show ?thesis using keeps assms(2) by (auto simp: feed_after_def feed_reset_def)
  next
    case (Some y)
    then have "err = Some (RunImport y)" "w' = on_feed i (feed_meanwhile e i) w1"
      using assms(1) s by (auto simp: import_snapshot_def)
    then show ?thesis using keeps by (auto simp: feed_after_def)
  qed
qed

lemma run_import_feeds:
  assumes "run_import e cfg i newer w = ((n, err), w')"
  shows "feed_after e i err w w' \<and> (\<forall>j. j \<noteq> i \<longrightarrow> iw_feeds w' j = iw_feeds w j) \<and> iw_db w' = iw_db w"
proof (cases "iw_feeds w i = None \<or> \<not> ie_pool e \<or> ie_cancelled e \<or> (\<not> cg_import_contacts cfg \<and> \<not> cg_import_messages cfg)")
  case True
  then show ?thesis using assms by (auto simp: run_import_def feed_after_def split: if_splits)
next
  case False
  then obtain feed where feed: "iw_feeds w i = Some feed" by auto
  obtain r w1 where r: "resolve_import_inbox e cfg w = (r, w1)" by fastforce
  note keeps = resolve_inbox_keeps [OF r]
  show ?thesis
  proof (cases r)
    case (Inl x)
    then show ?thesis using assms False feed r keeps by (auto simp: run_import_def feed_after_def)
  next
    case (Inr inbox)
    then have s: "import_snapshot e cfg i newer inbox feed (post_import_notice e i import_started w1) = ((n, err), w')"
      using assms False feed r by (auto simp: run_import_def)
    have "iw_feeds (post_import_notice e i import_started w1) i \<noteq> None" using feed keeps by simp
    then show ?thesis using import_snapshot_feeds [OF s] keeps by (auto simp: feed_after_def split: if_splits)
  qed
qed

lemma store_keeps:
  "on_store (configs_get i) w = (r, w') \<Longrightarrow> iw_feeds w' = iw_feeds w \<and> iw_rails w' = iw_rails w \<and> iw_tick w' = iw_tick w
     \<and> cd_configs (iw_db w') = cd_configs (iw_db w) \<and> cd_base (iw_db w') = snd (pg_stmt (cd_base (iw_db w)))"
  by (auto simp: on_store_def configs_get_def cw_run_def Let_def split: prod.splits if_splits)

lemma store_reads: "on_store (configs_get i) w = (Inr cfg, w') \<Longrightarrow> cfg \<in> set (cd_configs (iw_db w)) \<and> cg_instance cfg = i"
  by (auto simp: on_store_def configs_get_def cw_run_def Let_def find_Some_iff split: prod.splits if_splits option.splits)

lemma importer_feeds:
  assumes "importer_run e i newer w = ((n, err), w')"
  shows "feed_after e i err w w' \<and> (\<forall>j. j \<noteq> i \<longrightarrow> iw_feeds w' j = iw_feeds w j) \<and> cd_configs (iw_db w') = cd_configs (iw_db w)"
proof (cases "ie_waits e i \<and> ie_pool e")
  case False
  then show ?thesis using assms by (auto simp: importer_run_def feed_after_def split: if_splits)
next
  case True
  obtain r w1 where r: "on_store (configs_get i) w = (r, w1)" by fastforce
  note keeps = store_keeps [OF r]
  show ?thesis
  proof (cases "\<exists>cfg. r = Inr cfg \<and> cg_enabled cfg \<and> iw_feeds w1 i \<noteq> None")
    case False
    then show ?thesis using assms True r keeps
      by (cases r) (auto simp: importer_run_def feed_after_def split: if_splits)
  next
    case go: True
    then obtain cfg where "run_import e cfg i newer w1 = ((n, err), w')" using assms True r by (auto simp: importer_run_def)
    then show ?thesis using run_import_feeds keeps by (fastforce simp: feed_after_def)
  qed
qed


section \<open>What a run does to Chatwoot's tables\<close>

lemma write_snapshot_elsewhere:
  assumes "write_snapshot e cfg newer inbox snap w = (r, w')" "parse_int (trim_space (cg_account cfg)) = Some account"
  shows "framed (same_elsewhere account) (iw_rails w) (iw_rails w')"
proof -
  obtain x w1 where c: "write_contacts cfg snap w = (x, w1)" by fastforce
  have first: "framed (same_elsewhere account) (iw_rails w) (iw_rails w1)"
    using c assms(2) by (auto simp: write_contacts_def elsewhere.framed_refl dest: elsewhere.framed_contacts split: if_splits prod.splits)
  have rest: "framed (same_elsewhere account) (iw_rails w1) (iw_rails w2)" if "write_messages e cfg newer inbox snap w1 = (q, w2)" for q w2
    using that assms(2) messages_elsewhere
    by (fastforce simp: write_messages_def elsewhere.framed_refl split: if_splits prod.splits)
  show ?thesis using assms(1) c first elsewhere.framed_trans [OF first rest]
    by (cases x) (auto simp: write_snapshot_def)
qed

lemma run_import_elsewhere:
  assumes "run_import e cfg i newer w = (r, w')" "parse_int (trim_space (cg_account cfg)) = Some account"
  shows "framed (same_elsewhere account) (iw_rails w) (iw_rails w')"
proof -
  have snapshot: "framed (same_elsewhere account) (iw_rails u) (iw_rails u')"
    if "import_snapshot e cfg i newer inbox feed u = (q, u')" for inbox feed u q u'
  proof -
    obtain n x u1 where s: "write_snapshot e cfg newer inbox (feed_snapshot feed) u = ((n, x), u1)" by (metis surj_pair)
    have "iw_rails u' = iw_rails u1" using that s by (cases x) (auto simp: import_snapshot_def)
    then show ?thesis using write_snapshot_elsewhere [OF s assms(2)] by simp
  qed
  obtain q w1 where q: "resolve_import_inbox e cfg w = (q, w1)" by fastforce
  note keeps = resolve_inbox_keeps [OF q]
  show ?thesis
  proof (cases "\<exists>feed inbox. q = Inr inbox \<and> import_snapshot e cfg i newer inbox feed (post_import_notice e i import_started w1) = (r, w')")
    case True
    then obtain feed inbox where
      "import_snapshot e cfg i newer inbox feed (post_import_notice e i import_started w1) = (r, w')" by blast
    from snapshot [OF this] show ?thesis using keeps by simp
  next
    case False
    then have "iw_rails w' = iw_rails w" using assms(1) q keeps
      by (cases q) (auto simp: run_import_def split: if_splits option.splits)
    then show ?thesis by (simp add: elsewhere.framed_refl)
  qed
qed

text \<open>
  C12: an import writes no contact, conversation, message or label of another account of Chatwoot than the one its connection is configured
  for, at whatever statement it fails, as long as nothing else writes them meanwhile.
\<close>

theorem imports_stay_in_their_account:
  assumes "importer_run e i newer w = (r, w')" "calm_under (same_elsewhere account) (iw_rails w)"
    and "\<And>cfg. cfg \<in> set (cd_configs (iw_db w)) \<Longrightarrow> cg_instance cfg = i \<Longrightarrow> parse_int (trim_space (cg_account cfg)) = Some account"
  shows "same_elsewhere account (rb_tables (iw_rails w)) (rb_tables (iw_rails w'))"
proof -
  obtain q w1 where q: "on_store (configs_get i) w = (q, w1)" by fastforce
  note keeps = store_keeps [OF q]
  have "framed (same_elsewhere account) (iw_rails w) (iw_rails w')"
  proof (cases "\<exists>cfg. q = Inr cfg \<and> run_import e cfg i newer w1 = (r, w')")
    case True
    then obtain cfg where cfg: "q = Inr cfg" "run_import e cfg i newer w1 = (r, w')" by blast
    then have "parse_int (trim_space (cg_account cfg)) = Some account" using assms(3) store_reads q by blast
    then show ?thesis using run_import_elsewhere [OF cfg(2)] keeps by simp
  next
    case False
    then have "iw_rails w' = iw_rails w" using assms(1) q keeps
      by (cases q) (auto simp: importer_run_def split: if_splits)
    then show ?thesis by (simp add: elsewhere.framed_refl)
  qed
  then show ?thesis using assms(2) by (simp add: framed_def)
qed

section \<open>An undisturbed run\<close>

lemma write_contacts_quiet:
  assumes "rb_script (iw_rails w) = []" "parse_int (trim_space (cg_account cfg)) = Some account"
  shows "\<exists>w'. write_contacts cfg snap w = (None, w') \<and> smooth (iw_rails w) (iw_rails w')
    \<and> iw_tick w' = iw_tick w"
proof (cases "cg_import_contacts cfg")
  case True
  obtain k d where "import_contacts (cg_account cfg) (cg_name_inbox cfg) (hn_contacts snap) (iw_rails w) = ((k, None), d)"
      "smooth (iw_rails w) d"
    using import_contacts_quiet [OF assms] by blast
  then show ?thesis using True by (simp add: write_contacts_def)
next
  case False
  then show ?thesis using assms(1) by (simp add: write_contacts_def smooth_def)
qed

text \<open>The sources of the messages a run would write.\<close>

definition run_sources :: "'s import_env \<Rightarrow> chatwoot_config \<Rightarrow> instant \<Rightarrow> instant \<Rightarrow> hist_feed \<Rightarrow> string set" where
  "run_sources e cfg now newer feed = ml_source ` set
     (normalize_messages now (cg_days_limit cfg) newer (ie_placeholder e) (concat (map hc_messages (hf_convs feed))))"

lemma write_snapshot_quiet:
  assumes "rb_script (iw_rails w) = []" "parse_int (trim_space (cg_account cfg)) = Some account" "walks (ie_order e)"
    and "cg_import_messages cfg"
  shows "\<exists>n w'. write_snapshot e cfg newer inbox (feed_snapshot feed) w = ((n, None), w')
    \<and> run_sources e cfg (ie_clock e (iw_tick w)) newer feed \<subseteq> sources_in account (rb_tables (iw_rails w'))"
proof -
  obtain w1 where w1: "write_contacts cfg (feed_snapshot feed) w = (None, w1)" "smooth (iw_rails w) (iw_rails w1)" "iw_tick w1 = iw_tick w"
    using write_contacts_quiet [OF assms(1,2)] by blast
  let ?deps = "\<lparr>ms_account = cg_account cfg, ms_token = cg_token cfg, ms_days = cg_days_limit cfg, ms_newer = newer,
      ms_placeholder = ie_placeholder e\<rparr>"
  let ?msgs = "concat (map hc_messages (hf_convs feed))"
  have s: "rb_script (iw_rails w1) = []" using w1(2) by (simp add: smooth_def)
  have a: "parse_int (trim_space (ms_account ?deps)) = Some account" using assms(2) by simp
  obtain new d where new: "import_messages (ie_order e) (ie_clock e (iw_tick w)) ?deps inbox ?msgs (iw_rails w1) = ((length new, None), d)"
      "ra_messages (rb_tables d) = ra_messages (rb_tables (iw_rails w1)) @ new" "rm_account ` set new \<subseteq> {account}"
      "rm_source ` set new = ml_source ` set (normalize_messages (ie_clock e (iw_tick w)) (ms_days ?deps) (ms_newer ?deps)
        (ms_placeholder ?deps) ?msgs) - sources_in account (rb_tables (iw_rails w1))"
    using import_messages_quiet [OF s assms(3) a, of "ie_clock e (iw_tick w)" inbox ?msgs] by (elim exE conjE) (rule that)
  have "run_sources e cfg (ie_clock e (iw_tick w)) newer feed \<subseteq> sources_in account (rb_tables d)"
    unfolding sources_after [OF new(2,3)] new(4) run_sources_def by auto
  moreover have "write_snapshot e cfg newer inbox (feed_snapshot feed) w
      = ((length new, None), w1\<lparr>iw_rails := d, iw_tick := Suc (iw_tick w1)\<rparr>)"
    using w1(1,3) new(1) assms(4) by (simp add: write_snapshot_def write_messages_def feed_snapshot_def)
  ultimately show ?thesis by simp
qed

text \<open>
  C14: an undisturbed run of a connection whose inbox exists succeeds and clears the feed, and by then Chatwoot holds every message of
  it that the limits let through.
\<close>

theorem the_feed_is_cleared_once_written:
  assumes "rb_script (iw_rails w) = []" "walks (ie_order e)" "ie_pool e" "\<not> ie_cancelled e" "cg_import_messages cfg"
    and "parse_int (trim_space (cg_account cfg)) = Some account"
    and "iw_feeds w i = Some feed" "resolve_import_inbox e cfg w = (Inr inbox, w1)"
  shows "\<exists>n w'. run_import e cfg i newer w = ((n, None), w') \<and> iw_feeds w' i = Some empty_feed
    \<and> run_sources e cfg (ie_clock e (iw_tick w)) newer feed \<subseteq> sources_in account (rb_tables (iw_rails w'))"
proof -
  let ?w = "post_import_notice e i import_started w1"
  note keeps = resolve_inbox_keeps [OF assms(8)]
  obtain n w2 where s: "write_snapshot e cfg newer inbox (feed_snapshot feed) ?w = ((n, None), w2)"
      "run_sources e cfg (ie_clock e (iw_tick w)) newer feed \<subseteq> sources_in account (rb_tables (iw_rails w2))"
    using write_snapshot_quiet [of ?w cfg account e newer inbox feed] assms(1,2,5,6) keeps by auto
  have "iw_feeds w2 i = Some feed" using write_snapshot_keeps [OF s(1)] keeps assms(7) by simp
  then show ?thesis using assms(3,4,5,7,8) s by (simp add: run_import_def import_snapshot_def feed_reset_def)
qed

section \<open>The cron\<close>

lemma sync_instance_keeps:
  assumes "sync_instance e i since w = (r, w')"
  shows "(\<forall>j. j \<noteq> i \<longrightarrow> iw_feeds w' j = iw_feeds w j) \<and> cd_configs (iw_db w') = cd_configs (iw_db w)
    \<and> ((\<forall>cfg \<in> set (cd_configs (iw_db w)). cg_instance cfg = i \<longrightarrow> \<not> (cg_enabled cfg \<and> cg_import_messages cfg)) \<longrightarrow> iw_feeds w' i = iw_feeds w i)"
proof -
  obtain q w1 where q: "on_store (configs_get i) w = (q, w1)" by fastforce
  note keeps = store_keeps [OF q]
  show ?thesis
  proof (cases "\<exists>cfg. q = Inr cfg \<and> cg_enabled cfg \<and> cg_import_messages cfg \<and> iw_feeds w1 i \<noteq> None")
    case False
    then show ?thesis using assms q keeps by (cases q) (auto simp: sync_instance_def split: if_splits)
  next
    case True
    then obtain cfg where cfg: "q = Inr cfg" "cg_enabled cfg" "cg_import_messages cfg" "iw_feeds w1 i \<noteq> None" by blast
    obtain n err w2 where run: "importer_run e i since w1 = ((n, err), w2)" by (metis surj_pair)
    have "iw_feeds w' = iw_feeds w2 \<and> cd_configs (iw_db w') = cd_configs (iw_db w2)"
      using assms q cfg run by (auto simp: sync_instance_def split: option.splits if_splits)
    moreover have "cfg \<in> set (cd_configs (iw_db w)) \<and> cg_instance cfg = i" using store_reads q cfg(1) by simp
    ultimately show ?thesis using importer_feeds [OF run] keeps cfg(2,3) by auto
  qed
qed

lemma sync_page_keeps:
  assumes "sync_page e since is n w = (m, w')" 
    "\<forall>cfg \<in> set (cd_configs (iw_db w)). cg_instance cfg = i \<longrightarrow> \<not> (cg_enabled cfg \<and> cg_import_messages cfg)"
  shows "iw_feeds w' i = iw_feeds w i \<and> cd_configs (iw_db w') = cd_configs (iw_db w)"
  using assms
proof (induction "is" arbitrary: n w)
  case (Cons j js)
  obtain r w1 where one: "sync_instance e j since w = (r, w1)" by fastforce
  note keeps = sync_instance_keeps [OF one]
  have k: "iw_feeds w1 i = iw_feeds w i \<and> cd_configs (iw_db w1) = cd_configs (iw_db w)"
    using keeps Cons.prems(2) by (cases "i = j") auto
  have "sync_page e since js (n + (case r of None \<Rightarrow> 0 | Some k \<Rightarrow> k)) w1 = (m, w')" using Cons.prems(1) one by simp
  then show ?case using Cons.IH k Cons.prems(2) by simp
qed simp

lemma pages_keep:
  assumes "on_store (cw_instances_list p s l c) w = (r, w')"
  shows "iw_feeds w' = iw_feeds w \<and> cd_configs (iw_db w') = cd_configs (iw_db w)"
  using assms by (auto simp: on_store_def cw_instances_list_def split: prod.splits)

lemma sync_pages_keep:
  assumes "sync_pages e p s since fuel cursor n w = (r, w')"
    "\<forall>cfg \<in> set (cd_configs (iw_db w)). cg_instance cfg = i \<longrightarrow> \<not> (cg_enabled cfg \<and> cg_import_messages cfg)"
  shows "iw_feeds w' i = iw_feeds w i"
  using assms
proof (induction fuel arbitrary: cursor n w)
  case (Suc fuel)
  obtain q w1 where q: "on_store (cw_instances_list p s sync_page_limit cursor) w = (q, w1)" by fastforce
  note pk = pages_keep [OF q]
  show ?case
  proof (cases q)
    case (Inl x)
    then show ?thesis using Suc.prems(1) q pk by simp
  next
    case (Inr pg)
    obtain page next_cursor where pg: "pg = (page, next_cursor)" by (cases pg)
    obtain m w2 where page: "sync_page e since (map inst_id page) n w1 = (m, w2)" by fastforce
    have k: "iw_feeds w2 i = iw_feeds w1 i \<and> cd_configs (iw_db w2) = cd_configs (iw_db w1)"
      using sync_page_keeps [OF page] pk Suc.prems(2) by simp
    show ?thesis
    proof (cases "next_cursor = []")
      case True
      then show ?thesis using Suc.prems(1) q Inr pg page k pk by simp
    next
      case False
      then have "sync_pages e p s since fuel next_cursor m w2 = (r, w')" using Suc.prems(1) q Inr pg page by simp
      then show ?thesis using Suc.IH k pk Suc.prems(2) by simp
    qed
  qed
qed simp

text \<open>
  A cycle of the cron takes nothing from the feed of a connection whose Chatwoot import is off, whatever fails.
\<close>

theorem the_cron_respects_the_switches:
  assumes "run_once e p s w = (r, w')"
    and "\<forall>cfg \<in> set (cd_configs (iw_db w)). cg_instance cfg = i \<longrightarrow> \<not> (cg_enabled cfg \<and> cg_import_messages cfg)"
  shows "iw_feeds w' i = iw_feeds w i"
  using sync_pages_keep [OF assms(1) [unfolded run_once_def]] assms(2) by simp

section \<open>A whole cycle\<close>

lemma store_quiet:
  "pg_script (cd_base (iw_db w)) = [] \<Longrightarrow> on_store (configs_get i) w = (r, w') \<Longrightarrow> w' = w"
  by (auto simp: on_store_def configs_get_def cw_run_def pg_stmt_def split: prod.splits)

lemma importer_quiet:
  assumes "pg_script (cd_base (iw_db w)) = []" "importer_run e i newer w = (r, w')"
  shows "iw_db w' = iw_db w"
proof -
  obtain q w1 where q: "on_store (configs_get i) w = (q, w1)" by fastforce
  then have "w1 = w" using store_quiet assms(1) by blast
  then show ?thesis using assms(2) q run_import_feeds [of e _ i newer w "fst r" "snd r" w']
    by (auto simp: importer_run_def split: if_splits sum.splits)
qed

lemma sync_instance_quiet:
  assumes "pg_script (cd_base (iw_db w)) = []" "sync_instance e i since w = (r, w')"
  shows "iw_db w' = iw_db w"
proof -
  obtain q w1 where q: "on_store (configs_get i) w = (q, w1)" by fastforce
  then have "w1 = w" using store_quiet assms(1) by blast
  moreover obtain n err w2 where run: "importer_run e i since w = ((n, err), w2)" by (metis surj_pair)
  moreover have "iw_db w2 = iw_db w" by (rule importer_quiet [OF assms(1) run])
  ultimately show ?thesis using assms(2) q by (auto simp: sync_instance_def split: if_splits sum.splits option.splits)
qed

lemma sync_page_quiet:
  "pg_script (cd_base (iw_db w)) = [] \<Longrightarrow> sync_page e since is n w = (m, w') \<Longrightarrow> iw_db w' = iw_db w"
proof (induction "is" arbitrary: n w)
  case (Cons j js)
  obtain r w1 where one: "sync_instance e j since w = (r, w1)" by fastforce
  then have same: "iw_db w1 = iw_db w" using sync_instance_quiet Cons.prems(1) by blast
  have "sync_page e since js (n + (case r of None \<Rightarrow> 0 | Some k \<Rightarrow> k)) w1 = (m, w')" using Cons.prems(2) one by simp
  then show ?case using Cons.IH [of w1] Cons.prems(1) same by simp
qed simp

lemma sync_page_append:
  "sync_page e since (xs @ ys) n w = (case sync_page e since xs n w of (m, w1) \<Rightarrow> sync_page e since ys m w1)"
  by (induction xs arbitrary: n w) (auto split: prod.splits)

lemma cw_page:
  assumes "pg_script (cd_base (iw_db w)) = []" "cursor \<noteq> [] \<Longrightarrow> p cursor \<noteq> None"
  shows "on_store (cw_instances_list p s sync_page_limit cursor) w =
    (let rows = t_instances (cd_base (iw_db w));
         page = page_of s ir_id 100 (desc_rows ir_created ir_id
           (if cursor = [] then rows else rows_before ir_created ir_id rows (the (p cursor)) rows))
     in (Inr (map scan_instance (fst page), snd page), w))"
  using assms by (auto simp: on_store_def cw_instances_list_def instances_list_def sync_page_limit_def pg_run_def pg_stmt_def Let_def)

abbreviation newest_first :: "'s import_world \<Rightarrow> uuid list" where
  "newest_first w \<equiv> map ir_id (desc_rows ir_created ir_id (t_instances (cd_base (iw_db w))))"

lemma sync_pages_from:
  assumes q: "\<And>i. s i \<noteq> [] \<and> p (s i) = Some i" "distinct (map ir_id (t_instances (cd_base (iw_db w))))"
    and "pg_script (cd_base (iw_db w)) = []"
    and "length (t_instances (cd_base (iw_db w))) < n + fuel"
    and "n = 0 \<and> cursor = [] \<or> 0 < n \<and> n < length (t_instances (cd_base (iw_db w))) \<and> cursor = s (newest_first w ! (n - 1))"
  shows "\<exists>m w'. sync_pages e p s since fuel cursor k w = (Some (m, None), w')
    \<and> sync_page e since (drop n (newest_first w)) k w = (m, w')"
  using assms(2-5)
proof (induction fuel arbitrary: n cursor k w)
  case 0
  then show ?case by auto
next
  case (Suc fuel)
  let ?rows = "t_instances (cd_base (iw_db w))"
  let ?all = "desc_rows ir_created ir_id ?rows"
  have rows: "desc_rows ir_created ir_id (if cursor = [] then ?rows else rows_before ir_created ir_id ?rows (the (p cursor)) ?rows)
    = drop n ?all"
  proof (cases "n = 0")
    case True
    then show ?thesis using Suc.prems(4) by simp
  next
    case False
    then have n: "n - 1 < length ?rows" "cursor = s (ir_id (?all ! (n - 1)))" "Suc (n - 1) = n" using Suc.prems(4) by auto
    then show ?thesis using q(1) rows_after [OF Suc.prems(1) n(1), of ir_created] by simp
  qed
  have c: "cursor \<noteq> [] \<Longrightarrow> p cursor \<noteq> None" using Suc.prems(4) q(1) by auto
  have page: "on_store (cw_instances_list p s sync_page_limit cursor) w =
      (let page = page_of s ir_id 100 (drop n ?all) in (Inr (map scan_instance (fst page), snd page), w))"
    using cw_page [of w cursor p s, OF Suc.prems(2) c] by (simp add: rows Let_def)
  have ids: "inst_id \<circ> scan_instance = ir_id" by (simp add: fun_eq_iff scan_instance_def)
  show ?case
  proof (cases "length ?all \<le> n + 100")
    case True
    then have "page_of s ir_id 100 (drop n ?all) = (drop n ?all, [])" by (intro page_of_last) simp
    then show ?thesis using page ids by (auto simp: drop_map Let_def split: prod.splits)
  next
    case False
    let ?next = "s (ir_id (?all ! (n + 100 - 1)))"
    have pg: "page_of s ir_id 100 (drop n ?all) = (take 100 (drop n ?all), ?next)"
      using False by (subst page_of_more) (auto simp: add.commute)
    obtain m w1 where first: "sync_page e since (map ir_id (take 100 (drop n ?all))) k w = (m, w1)" by fastforce
    have same: "iw_db w1 = iw_db w" by (rule sync_page_quiet [OF Suc.prems(2) first])
    have "\<exists>m' w'. sync_pages e p s since fuel ?next m w1 = (Some (m', None), w')
        \<and> sync_page e since (drop (n + 100) (newest_first w1)) m w1 = (m', w')"
      by (rule Suc.IH) (use Suc.prems False in \<open>auto simp: same\<close>)
    then obtain m' w' where rest: "sync_pages e p s since fuel ?next m w1 = (Some (m', None), w')"
        "sync_page e since (drop (n + 100) (map ir_id ?all)) m w1 = (m', w')" unfolding same by blast
    have "drop n (map ir_id ?all) = map ir_id (take 100 (drop n ?all)) @ drop (n + 100) (map ir_id ?all)"
      using append_take_drop_id [of 100 "drop n (map ir_id ?all)"] by (simp add: add.commute drop_map take_map)
    then have "sync_page e since (drop n (newest_first w)) k w = (m', w')" using first rest(2) by (simp add: sync_page_append)
    moreover have "sync_pages e p s since (Suc fuel) cursor k w = (Some (m', None), w')"
      using page pg first rest(1) q(1) ids by (simp add: Let_def)
    ultimately show ?thesis by blast
  qed
qed


section \<open>One connection and its runs\<close>

definition sample_import_config :: chatwoot_config where
  "sample_import_config = sample_config\<lparr>cg_account := ''3'', cg_token := ''tok'', cg_import_contacts := True, cg_import_messages := True\<rparr>"

definition sample_import_env :: "(instant \<times> hist_chunk) list \<Rightarrow> unit import_env" where
  "sample_import_env feeding =
     \<lparr>ie_net = \<lparr>cx_send = (\<lambda>_ s. (Some (200, ''b''), s)),
        cx_parse = (\<lambda>_. Some (JObj [(''payload'', JArr [JObj [(''id'', JNum ''2''), (''name'', JStr ''Loja'')]])])), cx_detect = (\<lambda>_. [])\<rparr>,
      ie_order = id, ie_clock = (\<lambda>_. 100), ie_pool = True, ie_waits = (\<lambda>_. True), ie_cancelled = False, ie_notify = True,
      ie_placeholder = False, ie_feeding = (\<lambda>_. feeding)\<rparr>"

definition sample_chunk :: "hist_message list \<Rightarrow> hist_chunk" where
  "sample_chunk ms = \<lparr>hx_type = ''RECENT'', hx_progress = 50,
     hx_conversations = [\<lparr>hc_chat = ''5511@s.whatsapp.net'', hc_name = ''Ana'', hc_messages = ms\<rparr>],
     hx_contacts = [\<lparr>hk_jid = ''5511@s.whatsapp.net'', hk_name = ''Ana''\<rparr>]\<rparr>"

definition sample_feed :: hist_feed where
  "sample_feed = feed_observe 5 (sample_chunk sample_history) empty_feed"

definition sample_import_world :: "(rails \<Rightarrow> rails) option list \<Rightarrow> unit import_world" where
  "sample_import_world script =
     \<lparr>iw_db = \<lparr>cd_base = empty_db id Some 0 [], cd_configs = [sample_import_config], cd_correlations = []\<rparr>,
      iw_net = \<lparr>cw_server = (), cw_sent = []\<rparr>, iw_rails = \<lparr>rb_tables = sample_rails, rb_script = script\<rparr>,
      iw_feeds = [9 \<mapsto> sample_feed], iw_notices = [], iw_cleared = [], iw_tick = 0\<rparr>"

definition sources_written :: "'s import_world \<Rightarrow> string list" where
  "sources_written w = map rm_source (ra_messages (rb_tables (iw_rails w)))"

lemma sample_inbox:
  "\<exists>n. resolve_import_inbox (sample_import_env f) sample_import_config w = (Inr 2, w\<lparr>iw_net := n\<rparr>)"
proof -
  have t: "trim_space ''Loja'' = ''Loja''" "trim_space ''b'' = ''b''" "int_literal ''2'' = Some 2" by code_simp+
  show ?thesis
    by (simp add: resolve_import_inbox_def sample_import_env_def sample_import_config_def sample_config_def list_inboxes_def
        client_call_def api_do_def client_decode_def response_limit_def read_payload_def read_struct_def read_list_def read_inbox_def
        read_field_def json_field_def t Let_def)
      (rule exI, rule refl)?
qed

lemma write_snapshot_frame:
  "write_snapshot e cfg newer inbox snap (w\<lparr>iw_net := n, iw_notices := m\<rparr>)
    = (case write_snapshot e cfg newer inbox snap w of (r, w') \<Rightarrow> (r, w'\<lparr>iw_net := n, iw_notices := m\<rparr>))"
  by (simp add: write_snapshot_def write_contacts_def write_messages_def split: prod.splits option.splits)

lemma sample_runs:
  assumes "write_snapshot (sample_import_env f) sample_import_config newer 2 (feed_snapshot sample_feed) (sample_import_world script)
    = ((k, x), w1)"
  shows "\<exists>w'. importer_run (sample_import_env f) 9 newer (sample_import_world script) = ((k, map_option RunImport x), w')
    \<and> sources_written w' = sources_written w1
    \<and> iw_feeds w' 9 = Some (if x = None then empty_feed else feed_meanwhile (sample_import_env f) 9 sample_feed)"
proof -
  let ?e = "sample_import_env f" and ?w = "sample_import_world script"
  obtain n where inbox: "resolve_import_inbox ?e sample_import_config ?w = (Inr 2, ?w\<lparr>iw_net := n\<rparr>)" using sample_inbox by blast
  have cfg: "on_store (configs_get 9) ?w = (Inr sample_import_config, ?w)"
    by (simp add: on_store_def configs_get_def cw_run_def pg_stmt_def sample_import_world_def empty_db_def sample_import_config_def sample_config_def)
  have feed: "iw_feeds ?w 9 = Some sample_feed" by (simp add: sample_import_world_def)
  have on: "ie_pool ?e" "ie_waits ?e 9" "\<not> ie_cancelled ?e" "ie_notify ?e" "cg_enabled sample_import_config"
      "cg_import_messages sample_import_config"
    by (simp_all add: sample_import_env_def sample_import_config_def sample_config_def)
  have feeds: "iw_feeds w1 9 = Some sample_feed" using write_snapshot_keeps [OF assms] feed by simp
  let ?u = "?w\<lparr>iw_net := n, iw_notices := iw_notices ?w @ [(9, import_started)]\<rparr>"
  have s: "write_snapshot ?e sample_import_config newer 2 (feed_snapshot sample_feed) ?u
      = ((k, x), w1\<lparr>iw_net := n, iw_notices := iw_notices ?w @ [(9, import_started)]\<rparr>)"
    unfolding write_snapshot_frame assms by simp
  have u: "post_import_notice ?e 9 import_started (?w\<lparr>iw_net := n\<rparr>) = ?u" using on(4) by (simp add: post_import_notice_def)
  have "importer_run ?e 9 newer ?w = import_snapshot ?e sample_import_config 9 newer 2 sample_feed ?u"
    using on feed by (simp add: importer_run_def cfg run_import_def inbox u)
  then show ?thesis
    by (cases x) (simp_all add: import_snapshot_def s feeds feed_reset_def sources_written_def)
qed

lemma sample_writes:
  "case write_snapshot (sample_import_env []) sample_import_config zero_time 2 (feed_snapshot sample_feed) (sample_import_world [])
     of (r, w) \<Rightarrow> r = (2, None) \<and> sources_written w = [''WAID:A1'', ''WAID:A2'']"
  by code_simp

lemma sample_cron_writes:
  "case write_snapshot (sample_import_env []) sample_import_config 8 2 (feed_snapshot sample_feed) (sample_import_world [])
     of (r, w) \<Rightarrow> r = (1, None) \<and> sources_written w = [''WAID:A2'']"
  by code_simp

lemma sample_failing_writes:
  "fst (write_snapshot (sample_import_env []) sample_import_config zero_time 2 (feed_snapshot sample_feed)
     (sample_import_world [Some (\<lambda>t. t), Some (\<lambda>t. t), Some (\<lambda>t. t), Some (\<lambda>t. t), None])) = (0, Some ImportDriver)"
  by code_simp

definition late_message :: hist_message where
  "late_message = (sample_history ! 0)\<lparr>hm_id := ''A3''\<rparr>"

lemma sample_late_writes:
  "case write_snapshot (sample_import_env [(50, sample_chunk [late_message])]) sample_import_config zero_time 2
       (feed_snapshot sample_feed) (sample_import_world [])
     of (r, w) \<Rightarrow> r = (2, None) \<and> sources_written w = [''WAID:A1'', ''WAID:A2'']"
  by code_simp

lemma runs_as_written:
  assumes "case write_snapshot (sample_import_env f) sample_import_config newer 2 (feed_snapshot sample_feed) (sample_import_world script)
    of (r, w) \<Rightarrow> r = (k, None) \<and> sources_written w = sources"
  shows "\<exists>w'. importer_run (sample_import_env f) 9 newer (sample_import_world script) = ((k, None), w')
    \<and> sources_written w' = sources \<and> iw_feeds w' 9 = Some empty_feed"
proof -
  obtain n x w1 where s: "write_snapshot (sample_import_env f) sample_import_config newer 2 (feed_snapshot sample_feed) (sample_import_world script)
      = ((n, x), w1)" by (metis surj_pair)
  then have "n = k" "x = None" "sources_written w1 = sources" using assms by simp_all
  then show ?thesis using sample_runs [OF s] by simp
qed

text \<open>
  A run of the cron clears the whole feed although it writes only what the window lets through: the older message, which
  a manual import writes, is in neither place afterwards.
\<close>

lemma the_cron_discards_older_history:
  "\<exists>manual cron. importer_run (sample_import_env []) 9 zero_time (sample_import_world []) = ((2, None), manual)
     \<and> sources_written manual = [''WAID:A1'', ''WAID:A2'']
     \<and> importer_run (sample_import_env []) 9 8 (sample_import_world []) = ((1, None), cron)
     \<and> sources_written cron = [''WAID:A2''] \<and> iw_feeds cron 9 = Some empty_feed"
  using runs_as_written [OF sample_writes] runs_as_written [OF sample_cron_writes] by blast

text \<open>A chunk that comes in while a run writes is cleared with the others, and is not written.\<close>

lemma chunks_during_a_run_are_lost:
  "\<exists>w'. importer_run (sample_import_env [(50, sample_chunk [late_message])]) 9 zero_time (sample_import_world []) = ((2, None), w')
     \<and> sources_written w' = [''WAID:A1'', ''WAID:A2''] \<and> iw_feeds w' 9 = Some empty_feed"
  by (rule runs_as_written [OF sample_late_writes])

section \<open>Witnesses\<close>


theorem the_feed_is_cleared_once_written_witness:
  "\<exists>n w'. run_import (sample_import_env []) sample_import_config 9 zero_time (sample_import_world []) = ((n, None), w')
     \<and> iw_feeds w' 9 = Some empty_feed
     \<and> run_sources (sample_import_env []) sample_import_config 100 zero_time sample_feed \<subseteq> sources_in 3 (rb_tables (iw_rails w'))"
proof -
  let ?w = "sample_import_world []"
  obtain n where inbox: "resolve_import_inbox (sample_import_env []) sample_import_config ?w = (Inr 2, ?w\<lparr>iw_net := n\<rparr>)"
    using sample_inbox by blast
  have acct: "parse_int (trim_space (cg_account sample_import_config)) = Some 3" by code_simp
  have "rb_script (iw_rails ?w) = []" "walks (ie_order (sample_import_env []))" "ie_pool (sample_import_env [])"
      "\<not> ie_cancelled (sample_import_env [])" "cg_import_messages sample_import_config" "iw_feeds ?w 9 = Some sample_feed"
    by (simp_all add: sample_import_world_def sample_import_env_def sample_import_config_def walks_def)
  from the_feed_is_cleared_once_written [OF this(1-5) acct this(6) inbox, of zero_time]
  show ?thesis by (simp add: sample_import_env_def)
qed

text \<open>A connection whose import is off.\<close>

definition sample_idle_world :: "unit import_world" where
  "sample_idle_world = (sample_import_world [])\<lparr>iw_db := \<lparr>cd_base = (empty_db id Some 0 [])\<lparr>t_instances := [sample_instance\<lparr>ir_id := 9\<rparr>, sample_instance\<lparr>ir_created := 4\<rparr>]\<rparr>,
       cd_configs = [sample_config], cd_correlations = []\<rparr>\<rparr>"

theorem the_cron_respects_the_switches_witness:
  "iw_feeds (snd (run_once (sample_import_env []) (\<lambda>_. None) (\<lambda>_. []) sample_idle_world)) 9 = Some sample_feed"
proof -
  obtain r w' where run: "run_once (sample_import_env []) (\<lambda>_. None) (\<lambda>_. []) sample_idle_world = (r, w')" by fastforce
  have "iw_feeds w' 9 = iw_feeds sample_idle_world 9"
    by (rule the_cron_respects_the_switches [OF run]) (simp add: sample_idle_world_def sample_config_def)
  then show ?thesis using run by (simp add: sample_idle_world_def sample_import_world_def)
qed


theorem imports_stay_in_their_account_witness:
  "same_elsewhere 3 sample_rails
     (rb_tables (iw_rails (snd (importer_run (sample_import_env []) 9 zero_time (sample_import_world [Some (\<lambda>t. t), None])))))"
proof -
  let ?w = "sample_import_world [Some (\<lambda>t. t), None]"
  obtain r w' where run: "importer_run (sample_import_env []) 9 zero_time ?w = (r, w')" by fastforce
  have calm: "calm_under (same_elsewhere 3) (iw_rails ?w)" by (simp add: calm_under_def sample_import_world_def elsewhere.h_refl)
  have acct: "parse_int (trim_space (cg_account sample_import_config)) = Some 3" by code_simp
  have "same_elsewhere 3 (rb_tables (iw_rails ?w)) (rb_tables (iw_rails w'))"
    by (rule imports_stay_in_their_account [OF run calm]) (simp add: sample_import_world_def acct)
  then show ?thesis using run by (simp add: sample_import_world_def)
qed

end
