(* ===== verification/Boot.thy ===== *)
theory Boot
  imports InstanceService ChatwootImport
begin

text \<open>
  What happens before the service answers: the configuration, \<^verbatim>\<open>internal/config/config.go\<close>, the first administrator,
  \<^verbatim>\<open>cmd/wzap/seed.go\<close>, and the readiness probes, \<^verbatim>\<open>internal/httpapi/health.go\<close>. The environment maps an unset
  variable to the empty string; the messages of the problems are their constructors.
\<close>

section \<open>The configuration\<close>

datatype config_problem = Required string | NotInteger string string | NotPositive string string
  | NotNonNegative string string | NotBoolean string string

record service_config =
  sc_http_addr :: string
  sc_public_url :: string
  sc_api_key :: string
  sc_admin_email :: string
  sc_admin_password :: string
  sc_jwt_secret :: string
  sc_max_instances :: int
  sc_user_quota :: int
  sc_database_url :: string
  sc_nats_url :: string
  sc_nats_stream :: string
  sc_retention_days :: int
  sc_data_dir :: string
  sc_media_ttl :: int
  sc_max_media :: int
  sc_workers :: int
  sc_humanize :: bool
  sc_log_level :: string
  sc_log_format :: string
  sc_auto_migrate :: bool
  sc_chatwoot :: bool
  sc_bot_contact :: string
  sc_message_read :: bool
  sc_message_delete :: bool
  sc_import_url :: string
  sc_import_placeholder :: bool

type_synonym environment = "string \<Rightarrow> string"

definition env_or_default :: "environment \<Rightarrow> string \<Rightarrow> string \<Rightarrow> string" where
  "env_or_default env name fallback = (if env name = [] then fallback else env name)"

text \<open>A value with the problems it has.\<close>

definition positive_value :: "environment \<Rightarrow> string \<Rightarrow> int \<Rightarrow> config_problem list \<times> int" where
  "positive_value env name fallback =
     (let raw = env name in
      if raw = [] then ([], fallback)
      else case parse_int raw of
        None \<Rightarrow> ([NotInteger name raw], fallback)
      | Some v \<Rightarrow> if v \<le> 0 then ([NotPositive name raw], fallback) else ([], v))"

definition non_negative_value :: "environment \<Rightarrow> string \<Rightarrow> int \<Rightarrow> config_problem list \<times> int" where
  "non_negative_value env name fallback =
     (let raw = env name in
      if raw = [] then ([], fallback)
      else case parse_int raw of
        None \<Rightarrow> ([NotInteger name raw], fallback)
      | Some v \<Rightarrow> if v < 0 then ([NotNonNegative name raw], fallback) else ([], v))"

text \<open>\<^verbatim>\<open>strconv.ParseBool\<close>.\<close>

definition parse_bool :: "string \<Rightarrow> bool option" where
  "parse_bool s =
     (if s \<in> {''1'', ''t'', ''T'', ''true'', ''TRUE'', ''True''} then Some True
      else if s \<in> {''0'', ''f'', ''F'', ''false'', ''FALSE'', ''False''} then Some False
      else None)"

definition bool_value :: "environment \<Rightarrow> string \<Rightarrow> bool \<Rightarrow> config_problem list \<times> bool" where
  "bool_value env name fallback =
     (let raw = env name in
      if raw = [] then ([], fallback)
      else case parse_bool raw of None \<Rightarrow> ([NotBoolean name raw], fallback) | Some b \<Rightarrow> ([], b))"

definition required_names :: "string list" where
  "required_names = [''WZAP_API_KEY'', ''WZAP_JWT_SECRET'', ''WZAP_DATABASE_URL'', ''WZAP_NATS_URL'']"

text \<open>The numbers and switches, each with its problems.\<close>

definition config_problems :: "environment \<Rightarrow> config_problem list" where
  "config_problems env =
     map Required (filter (\<lambda>n. env n = []) required_names)
     @ fst (positive_value env ''WZAP_EVENT_RETENTION_DAYS'' 7) @ fst (positive_value env ''WZAP_MEDIA_TTL_SECONDS'' 7200)
     @ fst (positive_value env ''WZAP_MAX_MEDIA_BYTES'' 16777216) @ fst (positive_value env ''WZAP_OUTBOX_WORKERS'' 4)
     @ fst (non_negative_value env ''WZAP_MAX_INSTANCES'' 0) @ fst (non_negative_value env ''WZAP_DEFAULT_USER_INSTANCE_QUOTA'' 0)
     @ fst (bool_value env ''WZAP_HUMANIZE'' False) @ fst (bool_value env ''WZAP_AUTO_MIGRATE'' True)
     @ fst (bool_value env ''WZAP_CHATWOOT_ENABLED'' False) @ fst (bool_value env ''WZAP_CHATWOOT_MESSAGE_READ'' False)
     @ fst (bool_value env ''WZAP_CHATWOOT_MESSAGE_DELETE'' False) @ fst (bool_value env ''WZAP_CHATWOOT_IMPORT_PLACEHOLDER'' False)"

definition config_values :: "environment \<Rightarrow> service_config" where
  "config_values env =
     \<lparr>sc_http_addr = env_or_default env ''WZAP_HTTP_ADDR'' '':8080'', sc_public_url = env ''WZAP_PUBLIC_URL'',
      sc_api_key = env ''WZAP_API_KEY'', sc_admin_email = env ''WZAP_ADMIN_EMAIL'',
      sc_admin_password = env ''WZAP_ADMIN_PASSWORD'', sc_jwt_secret = env ''WZAP_JWT_SECRET'',
      sc_max_instances = snd (non_negative_value env ''WZAP_MAX_INSTANCES'' 0),
      sc_user_quota = snd (non_negative_value env ''WZAP_DEFAULT_USER_INSTANCE_QUOTA'' 0),
      sc_database_url = env ''WZAP_DATABASE_URL'', sc_nats_url = env ''WZAP_NATS_URL'',
      sc_nats_stream = env_or_default env ''WZAP_NATS_STREAM'' ''WZAP'',
      sc_retention_days = snd (positive_value env ''WZAP_EVENT_RETENTION_DAYS'' 7),
      sc_data_dir = env_or_default env ''WZAP_DATA_DIR'' ''/data'',
      sc_media_ttl = snd (positive_value env ''WZAP_MEDIA_TTL_SECONDS'' 7200),
      sc_max_media = snd (positive_value env ''WZAP_MAX_MEDIA_BYTES'' 16777216),
      sc_workers = snd (positive_value env ''WZAP_OUTBOX_WORKERS'' 4),
      sc_humanize = snd (bool_value env ''WZAP_HUMANIZE'' False),
      sc_log_level = env_or_default env ''WZAP_LOG_LEVEL'' ''info'',
      sc_log_format = env_or_default env ''WZAP_LOG_FORMAT'' ''json'',
      sc_auto_migrate = snd (bool_value env ''WZAP_AUTO_MIGRATE'' True),
      sc_chatwoot = snd (bool_value env ''WZAP_CHATWOOT_ENABLED'' False), sc_bot_contact = env ''WZAP_CHATWOOT_BOT_CONTACT'',
      sc_message_read = snd (bool_value env ''WZAP_CHATWOOT_MESSAGE_READ'' False),
      sc_message_delete = snd (bool_value env ''WZAP_CHATWOOT_MESSAGE_DELETE'' False),
      sc_import_url = env ''WZAP_CHATWOOT_IMPORT_DB_URL'',
      sc_import_placeholder = snd (bool_value env ''WZAP_CHATWOOT_IMPORT_PLACEHOLDER'' False)\<rparr>"

definition load_config :: "environment \<Rightarrow> config_problem list + service_config" where
  "load_config env = (if config_problems env \<noteq> [] then Inl (config_problems env) else Inr (config_values env))"

section \<open>The first administrator\<close>

datatype seed_err = SeedCount storage_err | SeedHash | SeedCreate storage_err | SeedBackfill storage_err "storage_err option"

text \<open>None when there is nothing to do, else how many instances were claimed.\<close>

definition seed_admin :: "crypto \<Rightarrow> service_config \<Rightarrow> uuid \<Rightarrow> db \<Rightarrow> (seed_err + nat option) \<times> db" where
  "seed_admin cr cfg new_id d =
     (case users_count d of
        (Inl x, d) \<Rightarrow> (Inl (SeedCount x), d)
      | (Inr n, d) \<Rightarrow>
          if 0 < n \<or> sc_admin_email cfg = [] \<or> sc_admin_password cfg = [] then (Inr None, d)
          else (case hash_password cr (sc_admin_password cfg) of
            None \<Rightarrow> (Inl SeedHash, d)
          | Some hash \<Rightarrow>
              (case users_create \<lparr>user_id = new_id, user_email = sc_admin_email cfg, user_password_hash = hash,
                   user_role = ''admin'', user_quota = sc_user_quota cfg, user_created = zero_time, user_updated = zero_time\<rparr> d of
                 (Inl x, d) \<Rightarrow> (Inl (SeedCreate x), d)
               | (Inr admin, d) \<Rightarrow>
                   (case instances_backfill_owner (user_id admin) d of
                      (Inr k, d) \<Rightarrow> (Inr (Some k), d)
                    | (Inl x, d) \<Rightarrow>
                        (case users_delete (user_id admin) d of
                           (Inl y, d) \<Rightarrow> (Inl (SeedBackfill x (Some y)), d)
                         | (Inr _, d) \<Rightarrow> (Inl (SeedBackfill x None), d))))))"

section \<open>Readiness\<close>

text \<open>A migration file is \<open>NNN_name.sql\<close>; a file without a version fails the probe. The result is their number and the highest.\<close>

definition is_sql :: "string \<Rightarrow> bool" where
  "is_sql name \<longleftrightarrow> 4 \<le> length name \<and> drop (length name - 4) name = ''.sql''"

fun embedded_migrations :: "string list \<Rightarrow> nat \<Rightarrow> int \<Rightarrow> (nat \<times> int) option" where
  "embedded_migrations [] found latest = (if found = 0 then None else Some (found, latest))"
| "embedded_migrations (name # names) found latest =
     (if \<not> is_sql name then embedded_migrations names found latest
      else case cut_at CHR ''_'' name of
        None \<Rightarrow> None
      | Some (digits, _) \<Rightarrow>
          (case parse_int digits of
             None \<Rightarrow> None
           | Some version \<Rightarrow> embedded_migrations names (Suc found) (max latest version)))"

text \<open>\<open>table\<close> holds the versions and whether they are applied, None when the table cannot be read.\<close>

definition migrations_applied :: "string list \<Rightarrow> (int \<times> bool) list option \<Rightarrow> bool" where
  "migrations_applied files table =
     (case embedded_migrations files 0 0 of
        None \<Rightarrow> False
      | Some (found, latest) \<Rightarrow>
          (case table of
             None \<Rightarrow> False
           | Some rows \<Rightarrow>
               (let versions = map fst (filter (\<lambda>(v, applied). applied \<and> 0 < v) rows) in
                \<not> (card (set versions) < found \<or> foldr max versions 0 < latest))))"

text \<open>The probes by name; the answer names each dependency, whether it is ready, and nothing of the error.\<close>

definition checker_probes :: "bool \<Rightarrow> string list \<Rightarrow> (int \<times> bool) list option \<Rightarrow> (string \<times> bool) list \<Rightarrow> (string \<times> bool) list" where
  "checker_probes ping files table extra = [(''postgres'', ping), (''migrations'', migrations_applied files table)] @ extra"

datatype checker = NoChecker | Detailed "(string \<times> bool) list" | Plain bool

fun checker_results :: "checker \<Rightarrow> (string \<times> bool) list" where
  "checker_results NoChecker = []"
| "checker_results (Detailed probes) = probes"
| "checker_results (Plain ok) = [(''dependencies'', ok)]"

definition readyz :: "checker \<Rightarrow> nat \<times> string \<times> (string \<times> string) list" where
  "readyz c =
     (let results = checker_results c;
          checks = map (\<lambda>(n, ok). (n, if ok then ''ok'' else ''failed'')) results in
      if c \<noteq> NoChecker \<and> list_all snd results then (200, ''ready'', checks) else (503, ''unready'', checks))"

section \<open>What a loaded configuration guarantees\<close>

lemma int_literal_range: "int_literal s = Some v \<Longrightarrow> int64 v"
  by (auto simp: int_literal_def Let_def split: if_splits)

lemma parse_int_range: "parse_int s = Some v \<Longrightarrow> int64 v"
  by (auto simp: parse_int_def int_literal_range split: option.splits if_splits)

lemma positive_ok: "fst (positive_value env n k) = [] \<Longrightarrow> 0 < k \<Longrightarrow> int64 k \<Longrightarrow> 0 < snd (positive_value env n k) \<and> int64 (snd (positive_value env n k))"
  by (auto simp: positive_value_def Let_def parse_int_range split: if_splits option.splits)

lemma non_negative_ok:
  "fst (non_negative_value env n k) = [] \<Longrightarrow> 0 \<le> k \<Longrightarrow> int64 k \<Longrightarrow> 0 \<le> snd (non_negative_value env n k) \<and> int64 (snd (non_negative_value env n k))"
  by (auto simp: non_negative_value_def Let_def parse_int_range split: if_splits option.splits)

text \<open>
  A configuration that loads has a key, a token secret and both addresses, a positive retention, media lifetime, media size and
  number of workers, and limits that are not negative; so the credential checks never compare with an empty secret.
\<close>

theorem loaded_configurations_are_usable:
  assumes "load_config env = Inr cfg"
  shows "sc_api_key cfg \<noteq> [] \<and> sc_jwt_secret cfg \<noteq> [] \<and> sc_database_url cfg \<noteq> [] \<and> sc_nats_url cfg \<noteq> []
    \<and> 0 < sc_retention_days cfg \<and> 0 < sc_media_ttl cfg \<and> 0 < sc_max_media cfg \<and> sc_max_media cfg < 2 ^ 63 \<and> 0 < sc_workers cfg
    \<and> 0 \<le> sc_max_instances cfg \<and> 0 \<le> sc_user_quota cfg
    \<and> sc_http_addr cfg \<noteq> [] \<and> sc_nats_stream cfg \<noteq> [] \<and> sc_data_dir cfg \<noteq> []"
proof -
  have p: "config_problems env = []" and cfg: "cfg = config_values env"
    using assms by (simp_all add: load_config_def split: if_splits)
  have req: "env ''WZAP_API_KEY'' \<noteq> [] \<and> env ''WZAP_JWT_SECRET'' \<noteq> [] \<and> env ''WZAP_DATABASE_URL'' \<noteq> [] \<and> env ''WZAP_NATS_URL'' \<noteq> []"
    and pos: "fst (positive_value env ''WZAP_EVENT_RETENTION_DAYS'' 7) = []" "fst (positive_value env ''WZAP_MEDIA_TTL_SECONDS'' 7200) = []"
      "fst (positive_value env ''WZAP_MAX_MEDIA_BYTES'' 16777216) = []" "fst (positive_value env ''WZAP_OUTBOX_WORKERS'' 4) = []"
    and neg: "fst (non_negative_value env ''WZAP_MAX_INSTANCES'' 0) = []"
      "fst (non_negative_value env ''WZAP_DEFAULT_USER_INSTANCE_QUOTA'' 0) = []"
    using p by (simp_all add: config_problems_def required_names_def split: if_splits)
  have d: "env_or_default env n k \<noteq> []" if "k \<noteq> []" for n k using that by (simp add: env_or_default_def)
  show ?thesis
    using req positive_ok [OF pos(1)] positive_ok [OF pos(2)] positive_ok [OF pos(3)] positive_ok [OF pos(4)]
      non_negative_ok [OF neg(1)] non_negative_ok [OF neg(2)]
    by (simp add: cfg config_values_def d int64_def)
qed

theorem loaded_configurations_are_usable_witness:
  "\<exists>cfg. load_config (\<lambda>n. if n \<in> set required_names then ''x'' else if n = ''WZAP_OUTBOX_WORKERS'' then ''8'' else []) = Inr cfg
     \<and> sc_api_key cfg \<noteq> [] \<and> 0 < sc_workers cfg"
proof -
  let ?env = "\<lambda>n. if n \<in> set required_names then ''x'' else if n = ''WZAP_OUTBOX_WORKERS'' then ''8'' else []"
  have "\<not> isl (load_config ?env)" by code_simp
  then obtain cfg where "load_config ?env = Inr cfg" by (cases "load_config ?env") simp_all
  then show ?thesis using loaded_configurations_are_usable by blast
qed

section \<open>What the seed leaves behind\<close>

definition seeded_admin :: "service_config \<Rightarrow> uuid \<Rightarrow> string \<Rightarrow> instant \<Rightarrow> user_row" where
  "seeded_admin cfg i hash now = \<lparr>ur_id = i, ur_email = Some (sc_admin_email cfg), ur_password_hash = Some hash,
     ur_role = Some ''admin'', ur_quota = sc_user_quota cfg, ur_created = now, ur_updated = now\<rparr>"

abbreviation same_rows :: "db \<Rightarrow> db \<Rightarrow> bool" where
  "same_rows d d' \<equiv> t_users d' = t_users d \<and> t_instances d' = t_instances d"

lemma seed_counted:
  assumes "users_count d = (r, d')"
  shows "same_rows d d' \<and> pg_now d' = pg_now d \<and> (case r of Inl _ \<Rightarrow> True | Inr n \<Rightarrow> n = length (t_users d))"
  using assms unfolding users_count_def
  by (rule pg_run_inv) (auto simp: same_tables_fields)

lemma seed_created:
  assumes "users_create u d = (r, d')"
  shows "case r of Inl _ \<Rightarrow> same_rows d d'
    | Inr v \<Rightarrow> t_users d' = t_users d @ [user_row_of d u] \<and> t_instances d' = t_instances d \<and> user_id v = user_id u"
  using assms unfolding users_create_def
proof (rule pg_run_inv)
  fix e r e'
  assume e: "same_tables d e"
    and body: "(if \<not> int4 (user_quota u) then (Inl (map_user_error (SDriver []) []), e)
      else if user_role u \<notin> {''admin'', ''user''} then (Inl (map_user_error (SDriver ''23514'') ''users_role_check''), e)
      else if user_id u \<in> ur_id ` set (t_users e) then (Inl (map_user_error (SDriver ''23505'') ''users_pkey''), e)
      else if \<exists>r\<in>set (t_users e). same_email e (user_email u) r
      then (Inl (map_user_error (SDriver ''23505'') ''users_email_lower_idx''), e)
      else let row = user_row_of e u in (Inr (scan_user row), e\<lparr>t_users := t_users e @ [row]\<rparr>)) = (r, e')"
  have row: "user_row_of e u = user_row_of d u" by (simp add: user_row_of_def same_tables_fields [OF e])
  show "case r of Inl _ \<Rightarrow> same_rows d e'
      | Inr v \<Rightarrow> t_users e' = t_users d @ [user_row_of d u] \<and> t_instances e' = t_instances d \<and> user_id v = user_id u"
    using body same_tables_fields(1,2,8) [OF e] by (auto simp: Let_def row scan_user_def user_row_of_def split: if_splits)
qed (simp add: same_tables_fields)

lemma seed_claimed:
  assumes "instances_backfill_owner i d = (r, d')" "list_all (\<lambda>x. ir_owner x = None) (t_instances d)"
  shows "t_users d' = t_users d \<and> (case r of Inl _ \<Rightarrow> t_instances d' = t_instances d
    | Inr k \<Rightarrow> k = length (t_instances d) \<and> map ir_id (t_instances d') = map ir_id (t_instances d)
        \<and> list_all (\<lambda>x. ir_owner x = Some i) (t_instances d'))"
  using assms(1) unfolding instances_backfill_owner_def
proof (rule pg_run_inv)
  fix e r e'
  assume e: "same_tables d e"
    and body: "(let legacy = filter (\<lambda>r. ir_owner r = None) (t_instances e) in
      if legacy \<noteq> [] \<and> i \<notin> ur_id ` set (t_users e) then (Inl (SDriver ''23503''), e)
      else (Inr (length legacy), e\<lparr>t_instances := update_where (\<lambda>r. ir_owner r = None)
        (\<lambda>r. r\<lparr>ir_owner := Some i, ir_updated := pg_now e\<rparr>) (t_instances e)\<rparr>)) = (r, e')"
  have all: "filter (\<lambda>r. ir_owner r = None) (t_instances d) = t_instances d"
    "update_where (\<lambda>r. ir_owner r = None) f (t_instances d) = map f (t_instances d)" for f
    using assms(2) by (auto simp: list_all_iff filter_id_conv update_where_def)
  show "t_users e' = t_users d \<and> (case r of Inl _ \<Rightarrow> t_instances e' = t_instances d
    | Inr k \<Rightarrow> k = length (t_instances d) \<and> map ir_id (t_instances e') = map ir_id (t_instances d)
        \<and> list_all (\<lambda>x. ir_owner x = Some i) (t_instances e'))"
    using body same_tables_fields(1,2) [OF e] by (auto simp: Let_def all comp_def list_all_iff split: if_splits)
qed (simp add: same_tables_fields)

lemma seed_deleted:
  assumes "users_delete i d = (r, d')"
  shows "t_instances d' = t_instances d \<and> (case r of Inl _ \<Rightarrow> t_users d' = t_users d
    | Inr _ \<Rightarrow> t_users d' = filter (\<lambda>r. ur_id r \<noteq> i) (t_users d))"
  using assms unfolding users_delete_def
  by (rule pg_run_inv) (auto simp: same_tables_fields split: if_splits)

text \<open>
  The seed of the first administrator is all or nothing: on a database without users, it ends with one administrator who owns every
  instance, or with the tables as they were, so that the next boot tries again; only when the claim and the deletion that
  compensates for it both fail is the administrator left without them. A database with users is not touched.
\<close>

theorem the_seed_is_all_or_nothing:
  assumes "seed_admin cr cfg i d = (r, d')" "list_all (\<lambda>x. ir_owner x = None \<or> t_users d \<noteq> []) (t_instances d)"
  shows "case r of
      Inr (Some k) \<Rightarrow> t_users d = [] \<and> k = length (t_instances d)
        \<and> (\<exists>hash. hash_password cr (sc_admin_password cfg) = Some hash \<and> t_users d' = [seeded_admin cfg i hash (pg_now d)])
        \<and> map ir_id (t_instances d') = map ir_id (t_instances d) \<and> list_all (\<lambda>x. ir_owner x = Some i) (t_instances d')
    | Inl (SeedBackfill _ (Some _)) \<Rightarrow> t_users d = [] \<and> length (t_users d') = 1 \<and> t_instances d' = t_instances d
    | _ \<Rightarrow> t_users d' = t_users d \<and> t_instances d' = t_instances d"
proof -
  obtain n d1 where n: "users_count d = (n, d1)" by fastforce
  note c = seed_counted [OF n]
  show ?thesis
  proof (cases "\<exists>hash. n = Inr 0 \<and> sc_admin_email cfg \<noteq> [] \<and> sc_admin_password cfg \<noteq> [] \<and> hash_password cr (sc_admin_password cfg) = Some hash")
    case False
    then show ?thesis using assms(1) n c
      by (cases n; cases "hash_password cr (sc_admin_password cfg)") (auto simp: seed_admin_def split: if_splits)
  next
    case True
    then obtain hash where hash: "n = Inr 0" "sc_admin_email cfg \<noteq> []" "sc_admin_password cfg \<noteq> []"
      "hash_password cr (sc_admin_password cfg) = Some hash" by blast
    have none: "t_users d = []" using c hash(1) by simp
    define u where "u = \<lparr>user_id = i, user_email = sc_admin_email cfg, user_password_hash = hash, user_role = ''admin'',
      user_quota = sc_user_quota cfg, user_created = zero_time, user_updated = zero_time\<rparr>"
    obtain v d2 where v: "users_create u d1 = (v, d2)" by fastforce
    note made = seed_created [OF v]
    show ?thesis
    proof (cases v)
      case (Inl x)
      then show ?thesis using assms(1) n hash v made c by (auto simp: seed_admin_def u_def)
    next
      case (Inr admin)
      have row: "t_users d2 = [seeded_admin cfg i hash (pg_now d)]" "t_instances d2 = t_instances d" "user_id admin = i"
        using made Inr c none by (simp_all add: user_row_of_def seeded_admin_def u_def)
      obtain k d3 where k: "instances_backfill_owner i d2 = (k, d3)" by fastforce
      have legacy: "list_all (\<lambda>x. ir_owner x = None) (t_instances d2)" using assms(2) none row(2) by simp
      obtain y d4 where y: "users_delete i d3 = (y, d4)" by fastforce
      show ?thesis using assms(1) n hash v Inr row k y seed_claimed [OF k legacy] seed_deleted [OF y] none
        by (cases k; cases y) (auto simp: seed_admin_def u_def [symmetric] seeded_admin_def)
    qed
  qed
qed

text \<open>A database with one connection of the time before accounts.\<close>

definition legacy_db :: "bool list \<Rightarrow> db" where
  "legacy_db faults = \<lparr>t_users = [], t_instances = [sample_instance\<lparr>ir_owner := None\<rparr>], t_messages = [], t_idem = [], t_contacts = [],
     t_media = [], t_events = [], pg_now = 9, pg_lower = id, pg_jsonb = Some, pg_script = faults\<rparr>"

definition legacy_config :: service_config where
  "legacy_config = (config_values (\<lambda>_. []))\<lparr>sc_admin_email := ''root'', sc_admin_password := ''pw''\<rparr>"

theorem the_seed_is_all_or_nothing_witness:
  "\<exists>d'. seed_admin sample_crypto legacy_config 4 (legacy_db [True, True, False]) = (Inl (SeedBackfill (SDriver []) None), d')
     \<and> t_users d' = [] \<and> t_instances d' = t_instances (legacy_db [])"
proof -
  let ?d = "legacy_db [True, True, False]"
  obtain r d' where s: "seed_admin sample_crypto legacy_config 4 ?d = (r, d')" by fastforce
  have r: "fst (seed_admin sample_crypto legacy_config 4 ?d) = Inl (SeedBackfill (SDriver []) None)" by code_simp
  have "list_all (\<lambda>x. ir_owner x = None \<or> t_users ?d \<noteq> []) (t_instances ?d)" by (simp add: legacy_db_def)
  from the_seed_is_all_or_nothing [OF s this] show ?thesis using s r by (auto simp: legacy_db_def)
qed

lemma a_seed_claims_the_connections:
  "map ir_owner (t_instances (snd (seed_admin sample_crypto legacy_config 4 (legacy_db [])))) = [Some 4]"
  by code_simp

section \<open>Readiness\<close>

text \<open>The service is ready exactly when every probe passes, and the migrations pass when each embedded version is applied.\<close>

lemma ready_iff_all_probes: "fst (readyz c) = 200 \<longleftrightarrow> c \<noteq> NoChecker \<and> (\<forall>p \<in> set (checker_results c). snd p)"
  by (simp add: readyz_def Let_def list_all_iff)

lemma migrations_found:
  "embedded_migrations files n m = Some (k, latest) \<Longrightarrow> m \<le> latest \<and> k = n + length (filter is_sql files)"
  by (induction files n m rule: embedded_migrations.induct) (auto split: if_splits option.splits)

lemma pending_migrations_are_not_ready:
  assumes "length (filter is_sql files) > card {v. (v, True) \<in> set rows \<and> 0 < v}"
  shows "\<not> migrations_applied files (Some rows)"
proof -
  have "set (map fst (filter (\<lambda>(v, applied). applied \<and> 0 < v) rows)) = {v. (v, True) \<in> set rows \<and> 0 < v}" by force
  then show ?thesis using assms migrations_found [of files 0 0]
    by (auto simp: migrations_applied_def Let_def split: option.splits)
qed

end
